(* ===== verification/Runtime.thy ===== *)
theory Runtime
  imports Prelude
begin

unbundle bit_operations_syntax

text \<open>
  The run-time library of generated Rust code, \<open>crates/wirespec-rt/src/lib.rs\<close>: the error
  enum, the zero-copy \<open>Cursor\<close>, the \<open>Writer\<close>, and their byte-order primitives. A method with
  \<open>&mut self\<close> returns the new state beside its value; on an error the state is the old one,
  as in the code, where every method checks before it changes anything. The locale
  \<open>wire_scalar\<close> is the contract between a read method and the write method of the same name.
\<close>

named_theorems rt_defs \<open>definitions of the cursor and writer methods\<close>

section \<open>Errors\<close>

datatype rt_error = ShortBuffer | InvalidTag | Constraint | Overflow | InvalidState
  | ScopeUnderflow | Capacity | TrailingData | Noncanonical | Checksum | Asn1Decode | Asn1Encode

fun rt_error_display :: "rt_error \<Rightarrow> string" where
  "rt_error_display ShortBuffer = ''short buffer''"
| "rt_error_display InvalidTag = ''invalid tag''"
| "rt_error_display Constraint = ''constraint failed''"
| "rt_error_display Overflow = ''overflow''"
| "rt_error_display InvalidState = ''invalid state''"
| "rt_error_display ScopeUnderflow = ''scope underflow''"
| "rt_error_display Capacity = ''array capacity exceeded''"
| "rt_error_display TrailingData = ''trailing data in scope''"
| "rt_error_display Noncanonical = ''non-canonical encoding''"
| "rt_error_display Checksum = ''checksum mismatch''"
| "rt_error_display Asn1Decode = ''ASN.1 decode failed''"
| "rt_error_display Asn1Encode = ''ASN.1 encode failed''"

section \<open>Byte order of the standard library\<close>

text \<open>\<open>to_be_bytes\<close> and \<open>from_be_bytes\<close> of Rust's unsigned integers, for a width of \<open>n\<close> bytes.\<close>

fun to_be_bytes :: "nat \<Rightarrow> 'a::len word \<Rightarrow> u8 list" where
  "to_be_bytes 0 v = []"
| "to_be_bytes (Suc n) v = to_be_bytes n (drop_bit 8 v) @ [ucast v]"

definition to_le_bytes :: "nat \<Rightarrow> 'a::len word \<Rightarrow> u8 list" where
  "to_le_bytes n v = rev (to_be_bytes n v)"

definition from_be_bytes :: "u8 list \<Rightarrow> 'a::len word" where
  "from_be_bytes bs = fold (\<lambda>b acc. push_bit 8 acc OR ucast b) bs 0"

definition from_le_bytes :: "u8 list \<Rightarrow> 'a::len word" where
  "from_le_bytes bs = from_be_bytes (rev bs)"

lemma length_to_be_bytes [simp]: "length (to_be_bytes n v) = n"
  by (induction n arbitrary: v) auto

lemma length_to_le_bytes [simp]: "length (to_le_bytes n v) = n"
  by (simp add: to_le_bytes_def)

lemma from_be_bytes_snoc: "from_be_bytes (bs @ [b]) = push_bit 8 (from_be_bytes bs) OR ucast b"
  by (simp add: from_be_bytes_def)

lemma byte_step:
  "push_bit 8 (take_bit n (drop_bit 8 v)) OR ucast (ucast v :: u8) = take_bit (n + 8) (v :: 'a::len word)"
  by (rule bit_word_eqI) (auto simp: bit_simps)

lemma from_to_be_bytes: "from_be_bytes (to_be_bytes n v) = take_bit (8 * n) (v :: 'a::len word)"
proof (induction n arbitrary: v)
  case 0
  then show ?case by (simp add: from_be_bytes_def)
next
  case (Suc n)
  then show ?case by (simp add: from_be_bytes_snoc byte_step add.commute)
qed

lemma take_bit_word_full: "LENGTH('a::len) \<le> n \<Longrightarrow> take_bit n (v :: 'a word) = v"
  by (rule bit_word_eqI) (auto simp: bit_simps)

lemma from_to_be_exact: "LENGTH('a::len) \<le> 8 * n \<Longrightarrow> from_be_bytes (to_be_bytes n v) = (v :: 'a word)"
  by (simp add: from_to_be_bytes take_bit_word_full)

lemma from_to_le_exact: "LENGTH('a::len) \<le> 8 * n \<Longrightarrow> from_le_bytes (to_le_bytes n v) = (v :: 'a word)"
  by (simp add: to_le_bytes_def from_le_bytes_def from_to_be_exact)

section \<open>Cursor\<close>

record cursor =
  data :: "u8 list"
  pos :: usize

definition cursor_new :: "u8 list \<Rightarrow> cursor" where
  "cursor_new d = \<lparr>data = d, pos = 0\<rparr>"

text \<open>The invariant of a cursor: the position is inside the slice, and a slice is no longer
  than \<open>isize::MAX\<close> bytes, as Rust guarantees.\<close>

definition cursor_ok :: "cursor \<Rightarrow> bool" where
  "cursor_ok c \<longleftrightarrow> pos c \<le> length (data c) \<and> length (data c) < 2 ^ 63"

definition cursor_require :: "cursor \<Rightarrow> usize \<Rightarrow> rt_error + unit" where
  "cursor_require c n =
     (case checked_add (pos c) n of
        None \<Rightarrow> Inl ShortBuffer
      | Some end \<Rightarrow> if end > length (data c) then Inl ShortBuffer else Inr ())"

definition consumed :: "cursor \<Rightarrow> usize" where
  "consumed c = pos c"

definition remaining :: "cursor \<Rightarrow> usize" where
  "remaining c = length (data c) - pos c"

definition cursor_bytes :: "cursor \<Rightarrow> u8 list" where
  "cursor_bytes c = data c"

definition advance :: "usize \<Rightarrow> cursor \<Rightarrow> cursor" where
  "advance n c = c\<lparr>pos := pos c + n\<rparr>"

text \<open>The byte at an offset from the position, after \<open>cursor_require\<close> has checked it.\<close>

abbreviation byte_at :: "cursor \<Rightarrow> nat \<Rightarrow> u8" where
  "byte_at c i \<equiv> data c ! (pos c + i)"

definition read_u8 :: "cursor \<Rightarrow> rt_error + (u8 \<times> cursor)" where
  "read_u8 c = rbind (cursor_require c 1) (\<lambda>_. Inr (byte_at c 0, advance 1 c))"

definition read_u16be :: "cursor \<Rightarrow> rt_error + (u16 \<times> cursor)" where
  "read_u16be c = rbind (cursor_require c 2) (\<lambda>_. Inr (from_be_bytes [byte_at c 0, byte_at c 1], advance 2 c))"

definition read_u16le :: "cursor \<Rightarrow> rt_error + (u16 \<times> cursor)" where
  "read_u16le c = rbind (cursor_require c 2) (\<lambda>_. Inr (from_le_bytes [byte_at c 0, byte_at c 1], advance 2 c))"

definition read_u24be :: "cursor \<Rightarrow> rt_error + (u32 \<times> cursor)" where
  "read_u24be c = rbind (cursor_require c 3) (\<lambda>_.
     Inr (push_bit 16 (ucast (byte_at c 0)) OR push_bit 8 (ucast (byte_at c 1)) OR ucast (byte_at c 2), advance 3 c))"

definition read_u24le :: "cursor \<Rightarrow> rt_error + (u32 \<times> cursor)" where
  "read_u24le c = rbind (cursor_require c 3) (\<lambda>_.
     Inr (ucast (byte_at c 0) OR push_bit 8 (ucast (byte_at c 1)) OR push_bit 16 (ucast (byte_at c 2)), advance 3 c))"

definition read_u32be :: "cursor \<Rightarrow> rt_error + (u32 \<times> cursor)" where
  "read_u32be c = rbind (cursor_require c 4) (\<lambda>_.
     Inr (from_be_bytes [byte_at c 0, byte_at c 1, byte_at c 2, byte_at c 3], advance 4 c))"

definition read_u32le :: "cursor \<Rightarrow> rt_error + (u32 \<times> cursor)" where
  "read_u32le c = rbind (cursor_require c 4) (\<lambda>_.
     Inr (from_le_bytes [byte_at c 0, byte_at c 1, byte_at c 2, byte_at c 3], advance 4 c))"

definition read_u64be :: "cursor \<Rightarrow> rt_error + (u64 \<times> cursor)" where
  "read_u64be c = rbind (cursor_require c 8) (\<lambda>_. Inr (from_be_bytes (slice (data c) (pos c) 8), advance 8 c))"

definition read_u64le :: "cursor \<Rightarrow> rt_error + (u64 \<times> cursor)" where
  "read_u64le c = rbind (cursor_require c 8) (\<lambda>_. Inr (from_le_bytes (slice (data c) (pos c) 8), advance 8 c))"

text \<open>The signed reads reinterpret the unsigned value at the same width; \<open>v as i8\<close> keeps the
  bits, so the signed integer is \<open>sint\<close> of the word.\<close>

definition read_i8 :: "cursor \<Rightarrow> rt_error + (int \<times> cursor)" where
  "read_i8 c = rmap (\<lambda>(v, c'). (sint v, c')) (read_u8 c)"

definition read_i16be :: "cursor \<Rightarrow> rt_error + (int \<times> cursor)" where
  "read_i16be c = rmap (\<lambda>(v, c'). (sint v, c')) (read_u16be c)"

definition read_i16le :: "cursor \<Rightarrow> rt_error + (int \<times> cursor)" where
  "read_i16le c = rmap (\<lambda>(v, c'). (sint v, c')) (read_u16le c)"

definition read_i32be :: "cursor \<Rightarrow> rt_error + (int \<times> cursor)" where
  "read_i32be c = rmap (\<lambda>(v, c'). (sint v, c')) (read_u32be c)"

definition read_i32le :: "cursor \<Rightarrow> rt_error + (int \<times> cursor)" where
  "read_i32le c = rmap (\<lambda>(v, c'). (sint v, c')) (read_u32le c)"

definition read_i64be :: "cursor \<Rightarrow> rt_error + (int \<times> cursor)" where
  "read_i64be c = rmap (\<lambda>(v, c'). (sint v, c')) (read_u64be c)"

definition read_i64le :: "cursor \<Rightarrow> rt_error + (int \<times> cursor)" where
  "read_i64le c = rmap (\<lambda>(v, c'). (sint v, c')) (read_u64le c)"

definition read_bytes :: "usize \<Rightarrow> cursor \<Rightarrow> rt_error + (u8 list \<times> cursor)" where
  "read_bytes n c = rbind (cursor_require c n) (\<lambda>_. Inr (slice (data c) (pos c) n, advance n c))"

definition read_remaining :: "cursor \<Rightarrow> u8 list \<times> cursor" where
  "read_remaining c = (drop (pos c) (data c), c\<lparr>pos := length (data c)\<rparr>)"

definition sub_cursor :: "usize \<Rightarrow> cursor \<Rightarrow> rt_error + (cursor \<times> cursor)" where
  "sub_cursor n c = rbind (cursor_require c n) (\<lambda>_.
     Inr (\<lparr>data = slice (data c) (pos c) n, pos = 0\<rparr>, advance n c))"

section \<open>Writer\<close>

record writer =
  buf :: "u8 list"
  wpos :: usize

definition writer_new :: "u8 list \<Rightarrow> writer" where
  "writer_new b = \<lparr>buf = b, wpos = 0\<rparr>"

definition writer_ok :: "writer \<Rightarrow> bool" where
  "writer_ok w \<longleftrightarrow> wpos w \<le> length (buf w) \<and> length (buf w) < 2 ^ 63"

definition writer_require :: "writer \<Rightarrow> usize \<Rightarrow> rt_error + unit" where
  "writer_require w n =
     (case checked_add (wpos w) n of
        None \<Rightarrow> Inl ShortBuffer
      | Some end \<Rightarrow> if end > length (buf w) then Inl ShortBuffer else Inr ())"

definition written :: "writer \<Rightarrow> usize" where
  "written w = wpos w"

definition as_written :: "writer \<Rightarrow> u8 list" where
  "as_written w = take (wpos w) (buf w)"

text \<open>The common body of the write methods: the checked range of the buffer is overwritten
  and the position moves behind it.\<close>

definition put :: "u8 list \<Rightarrow> writer \<Rightarrow> rt_error + writer" where
  "put bs w = rbind (writer_require w (length bs)) (\<lambda>_.
     Inr (w\<lparr>buf := patch (buf w) (wpos w) bs, wpos := wpos w + length bs\<rparr>))"

definition write_u8 :: "u8 \<Rightarrow> writer \<Rightarrow> rt_error + writer" where
  "write_u8 v w = rbind (writer_require w 1) (\<lambda>_.
     Inr (w\<lparr>buf := (buf w)[wpos w := v], wpos := wpos w + 1\<rparr>))"

definition write_u16be :: "u16 \<Rightarrow> writer \<Rightarrow> rt_error + writer" where
  "write_u16be v = put (to_be_bytes 2 v)"

definition write_u16le :: "u16 \<Rightarrow> writer \<Rightarrow> rt_error + writer" where
  "write_u16le v = put (to_le_bytes 2 v)"

text \<open>The 24-bit writes store three bytes one after the other, from a \<open>u32\<close> whose top byte
  is dropped.\<close>

definition write_u24be :: "u32 \<Rightarrow> writer \<Rightarrow> rt_error + writer" where
  "write_u24be v w = rbind (writer_require w 3) (\<lambda>_.
     Inr (w\<lparr>buf := (buf w)[wpos w := ucast (drop_bit 16 v), wpos w + 1 := ucast (drop_bit 8 v),
                      wpos w + 2 := ucast v],
            wpos := wpos w + 3\<rparr>))"

definition write_u24le :: "u32 \<Rightarrow> writer \<Rightarrow> rt_error + writer" where
  "write_u24le v w = rbind (writer_require w 3) (\<lambda>_.
     Inr (w\<lparr>buf := (buf w)[wpos w := ucast v, wpos w + 1 := ucast (drop_bit 8 v),
                      wpos w + 2 := ucast (drop_bit 16 v)],
            wpos := wpos w + 3\<rparr>))"

definition write_u32be :: "u32 \<Rightarrow> writer \<Rightarrow> rt_error + writer" where
  "write_u32be v = put (to_be_bytes 4 v)"

definition write_u32le :: "u32 \<Rightarrow> writer \<Rightarrow> rt_error + writer" where
  "write_u32le v = put (to_le_bytes 4 v)"

definition write_u64be :: "u64 \<Rightarrow> writer \<Rightarrow> rt_error + writer" where
  "write_u64be v = put (to_be_bytes 8 v)"

definition write_u64le :: "u64 \<Rightarrow> writer \<Rightarrow> rt_error + writer" where
  "write_u64le v = put (to_le_bytes 8 v)"

text \<open>The signed writes: \<open>v as u8\<close> on a signed integer keeps its bits, which is \<open>word_of_int\<close>.\<close>

definition write_i8 :: "int \<Rightarrow> writer \<Rightarrow> rt_error + writer" where
  "write_i8 v = write_u8 (word_of_int v)"

definition write_i16be :: "int \<Rightarrow> writer \<Rightarrow> rt_error + writer" where
  "write_i16be v = write_u16be (word_of_int v)"

definition write_i16le :: "int \<Rightarrow> writer \<Rightarrow> rt_error + writer" where
  "write_i16le v = write_u16le (word_of_int v)"

definition write_i32be :: "int \<Rightarrow> writer \<Rightarrow> rt_error + writer" where
  "write_i32be v = write_u32be (word_of_int v)"

definition write_i32le :: "int \<Rightarrow> writer \<Rightarrow> rt_error + writer" where
  "write_i32le v = write_u32le (word_of_int v)"

definition write_i64be :: "int \<Rightarrow> writer \<Rightarrow> rt_error + writer" where
  "write_i64be v = write_u64be (word_of_int v)"

definition write_i64le :: "int \<Rightarrow> writer \<Rightarrow> rt_error + writer" where
  "write_i64le v = write_u64le (word_of_int v)"

definition write_bytes :: "u8 list \<Rightarrow> writer \<Rightarrow> rt_error + writer" where
  "write_bytes bs = put bs"


declare cursor_new_def [rt_defs] cursor_ok_def [rt_defs] consumed_def [rt_defs]
  remaining_def [rt_defs] cursor_bytes_def [rt_defs] advance_def [rt_defs]
  writer_new_def [rt_defs] writer_ok_def [rt_defs] written_def [rt_defs] as_written_def [rt_defs]

section \<open>Bounds\<close>

lemma cursor_require_eq: "cursor_ok c \<Longrightarrow> cursor_require c n =
    (if pos c + n \<le> length (data c) then Inr () else Inl ShortBuffer)"
  by (auto simp: cursor_require_def cursor_ok_def checked_add_def)

lemma writer_require_eq: "writer_ok w \<Longrightarrow> writer_require w n =
    (if wpos w + n \<le> length (buf w) then Inr () else Inl ShortBuffer)"
  by (auto simp: writer_require_def writer_ok_def checked_add_def)

lemma put_eq: "writer_ok w \<Longrightarrow> put bs w =
    (if wpos w + length bs \<le> length (buf w)
     then Inr (w\<lparr>buf := patch (buf w) (wpos w) bs, wpos := wpos w + length bs\<rparr>)
     else Inl ShortBuffer)"
  by (simp add: put_def writer_require_eq)

lemma slice2: "p + 2 \<le> length xs \<Longrightarrow> slice xs p 2 = [xs ! p, xs ! (p + 1)]"
  by (simp add: slice_Suc numeral_2_eq_2)

lemma slice3: "p + 3 \<le> length xs \<Longrightarrow> slice xs p 3 = [xs ! p, xs ! (p + 1), xs ! (p + 2)]"
  by (simp add: slice_Suc numeral_3_eq_3)

lemma slice4: "p + 4 \<le> length xs \<Longrightarrow>
    slice xs p 4 = [xs ! p, xs ! (p + 1), xs ! (p + 2), xs ! (p + 3)]"
  by (simp add: slice_Suc eval_nat_numeral)

lemma patch3: "p + 3 \<le> length xs \<Longrightarrow>
    xs[p := a, Suc p := b, Suc (Suc p) := c] = patch xs p [a, b, c]"
  by (rule nth_equalityI) (auto simp: nth_patch nth_list_update nth_Cons' split: if_splits)

section \<open>The contract of a fixed-width scalar\<close>

text \<open>
  A read method and the write method of the same name share a width and an encoding; on a
  well-formed state each succeeds exactly when the width fits, and the reader inverts the
  encoding on the values the writer is meant for.
\<close>

locale wire_scalar =
  fixes width :: nat
    and enc :: "'v \<Rightarrow> u8 list"
    and dec :: "u8 list \<Rightarrow> 'v"
    and valid :: "'v \<Rightarrow> bool"
    and rd :: "cursor \<Rightarrow> rt_error + ('v \<times> cursor)"
    and wr :: "'v \<Rightarrow> writer \<Rightarrow> rt_error + writer"
  assumes width_pos: "0 < width"
    and length_enc: "length (enc v) = width"
    and dec_enc: "valid v \<Longrightarrow> dec (enc v) = v"
    and rd_eq: "cursor_ok c \<Longrightarrow> rd c =
      (if pos c + width \<le> length (data c)
       then Inr (dec (slice (data c) (pos c) width), advance width c) else Inl ShortBuffer)"
    and wr_eq: "writer_ok w \<Longrightarrow> wr v w =
      (if wpos w + width \<le> length (buf w)
       then Inr (w\<lparr>buf := patch (buf w) (wpos w) (enc v), wpos := wpos w + width\<rparr>)
       else Inl ShortBuffer)"
begin

lemma write_then_read:
  assumes "writer_ok w" "valid v" "wr v w = Inr w'"
  shows "rd \<lparr>data = buf w', pos = wpos w\<rparr> = Inr (v, \<lparr>data = buf w', pos = wpos w'\<rparr>)"
proof -
  from assms(1,3) have w': "w' = w\<lparr>buf := patch (buf w) (wpos w) (enc v), wpos := wpos w + width\<rparr>"
    and fits: "wpos w + width \<le> length (buf w)"
    by (auto simp: wr_eq split: if_splits)
  have "slice (buf w') (wpos w) width = enc v"
    using slice_patch_same [of "wpos w" "enc v" "buf w"] fits by (simp add: w' length_enc)
  moreover have "cursor_ok \<lparr>data = buf w', pos = wpos w\<rparr>" "wpos w + width \<le> length (buf w')"
    using assms(1) fits by (simp_all add: w' length_enc writer_ok_def cursor_ok_def)
  ultimately show ?thesis
    using assms(2) by (simp add: rd_eq dec_enc advance_def w')
qed

lemma write_frame:
  assumes "writer_ok w" "wr v w = Inr w'"
  shows "writer_ok w' \<and> wpos w' = wpos w + width \<and> length (buf w') = length (buf w)
    \<and> take (wpos w) (buf w') = take (wpos w) (buf w) \<and> drop (wpos w') (buf w') = drop (wpos w') (buf w)"
  using assms by (auto simp: wr_eq writer_ok_def take_patch drop_patch length_enc split: if_splits)

lemma read_frame:
  assumes "cursor_ok c" "rd c = Inr (v, c')"
  shows "cursor_ok c' \<and> data c' = data c \<and> pos c' = pos c + width"
  using assms by (auto simp: rd_eq cursor_ok_def advance_def split: if_splits)

lemma read_fails_iff: "cursor_ok c \<Longrightarrow> rd c = Inl e \<longleftrightarrow> e = ShortBuffer \<and> remaining c < width"
  by (auto simp: rd_eq cursor_ok_def remaining_def)

lemma write_fails_iff:
  "writer_ok w \<Longrightarrow> wr v w = Inl e \<longleftrightarrow> e = ShortBuffer \<and> length (buf w) - wpos w < width"
  by (auto simp: wr_eq writer_ok_def)

lemma written_bytes:
  "writer_ok w \<Longrightarrow> wr v w = Inr w' \<Longrightarrow> as_written w' = as_written w @ enc v"
  by (auto simp: wr_eq as_written_def patch_def length_enc writer_ok_def min_def split: if_splits)

end

section \<open>Every method pair meets the contract\<close>

interpretation sc_u8: wire_scalar 1 "\<lambda>v. [v]" hd "\<lambda>_. True" read_u8 write_u8
  by unfold_locales
    (auto simp: read_u8_def write_u8_def cursor_require_eq writer_require_eq slice_one patch_single)

interpretation sc_u16be: wire_scalar 2 "to_be_bytes 2" from_be_bytes "\<lambda>_. True" read_u16be write_u16be
  by unfold_locales
    (auto simp: read_u16be_def write_u16be_def cursor_require_eq put_eq slice2 from_to_be_exact)

interpretation sc_u16le: wire_scalar 2 "to_le_bytes 2" from_le_bytes "\<lambda>_. True" read_u16le write_u16le
  by unfold_locales
    (auto simp: read_u16le_def write_u16le_def cursor_require_eq put_eq slice2 from_to_le_exact)

interpretation sc_u32be: wire_scalar 4 "to_be_bytes 4" from_be_bytes "\<lambda>_. True" read_u32be write_u32be
  by unfold_locales
    (auto simp: read_u32be_def write_u32be_def cursor_require_eq put_eq slice4 from_to_be_exact)

interpretation sc_u32le: wire_scalar 4 "to_le_bytes 4" from_le_bytes "\<lambda>_. True" read_u32le write_u32le
  by unfold_locales
    (auto simp: read_u32le_def write_u32le_def cursor_require_eq put_eq slice4 from_to_le_exact)

interpretation sc_u64be: wire_scalar 8 "to_be_bytes 8" from_be_bytes "\<lambda>_. True" read_u64be write_u64be
  by unfold_locales (auto simp: read_u64be_def write_u64be_def cursor_require_eq put_eq from_to_be_exact)

interpretation sc_u64le: wire_scalar 8 "to_le_bytes 8" from_le_bytes "\<lambda>_. True" read_u64le write_u64le
  by unfold_locales (auto simp: read_u64le_def write_u64le_def cursor_require_eq put_eq from_to_le_exact)

text \<open>The 24-bit methods carry the low three bytes of a \<open>u32\<close>: they invert each other on
  values below \<open>2 ^ 24\<close>.\<close>

definition dec_u24be :: "u8 list \<Rightarrow> u32" where
  "dec_u24be bs = push_bit 16 (ucast (bs ! 0)) OR push_bit 8 (ucast (bs ! 1)) OR ucast (bs ! 2)"

definition u24_range :: "u32 \<Rightarrow> bool" where
  "u24_range v \<longleftrightarrow> take_bit 24 v = v"

lemma dec_u24be_list:
  "dec_u24be [a, b, c] = push_bit 16 (ucast a) OR push_bit 8 (ucast b) OR ucast c"
  by (simp add: dec_u24be_def)

lemma u24_bytes:
  "push_bit 16 (ucast (ucast (drop_bit 16 v) :: u8)) OR push_bit 8 (ucast (ucast (drop_bit 8 v) :: u8))
     OR ucast (ucast v :: u8) = take_bit 24 (v :: u32)"
proof (rule bit_word_eqI)
  fix n :: nat
  assume "n < LENGTH(32)"
  consider "n < 8" | "8 \<le> n \<and> n < 16" | "16 \<le> n \<and> n < 24" | "24 \<le> n" by linarith
  then show "bit (push_bit 16 (ucast (ucast (drop_bit 16 v) :: u8)) OR
      push_bit 8 (ucast (ucast (drop_bit 8 v) :: u8)) OR ucast (ucast v :: u8) :: u32) n
      = bit (take_bit 24 v) n"
    by cases (auto simp: bit_simps)
qed

lemma u24_bytes_swapped:
  "ucast (ucast v :: u8) OR push_bit 8 (ucast (ucast (drop_bit 8 v) :: u8))
     OR push_bit 16 (ucast (ucast (drop_bit 16 v) :: u8)) = take_bit 24 (v :: u32)"
  using u24_bytes [of v] by (simp add: ac_simps)

interpretation sc_u24be: wire_scalar 3 "\<lambda>v. [ucast (drop_bit 16 v), ucast (drop_bit 8 v), ucast v]"
    dec_u24be u24_range read_u24be write_u24be
  by unfold_locales
    (auto simp: read_u24be_def write_u24be_def cursor_require_eq writer_require_eq slice3 patch3
      dec_u24be_list u24_bytes u24_range_def)

interpretation sc_u24le: wire_scalar 3 "\<lambda>v. [ucast v, ucast (drop_bit 8 v), ucast (drop_bit 16 v)]"
    "\<lambda>bs. dec_u24be (rev bs)" u24_range read_u24le write_u24le
  by unfold_locales
    (auto simp: read_u24le_def write_u24le_def cursor_require_eq writer_require_eq slice3 patch3
      dec_u24be_list u24_bytes_swapped u24_range_def ac_simps)

text \<open>A signed method wraps the unsigned one of its width: the contract of the unsigned pair
  gives the contract of the signed pair on the values of the two's-complement range.\<close>

locale wire_signed = wire_scalar width enc dec "\<lambda>_. True" rd wr
  for width :: nat
    and enc :: "'a::len word \<Rightarrow> u8 list"
    and dec :: "u8 list \<Rightarrow> 'a::len word"
    and rd :: "cursor \<Rightarrow> rt_error + ('a::len word \<times> cursor)"
    and wr :: "'a::len word \<Rightarrow> writer \<Rightarrow> rt_error + writer" +
  fixes rd_s :: "cursor \<Rightarrow> rt_error + (int \<times> cursor)"
    and wr_s :: "int \<Rightarrow> writer \<Rightarrow> rt_error + writer"
  assumes rd_s_eq: "rd_s c = rmap (\<lambda>(v, c'). (sint v, c')) (rd c)"
    and wr_s_eq: "wr_s k = wr (word_of_int k)"
begin

lemma sint_word_of_int_range:
  "- (2 ^ (LENGTH('a) - 1)) \<le> k \<Longrightarrow> k < 2 ^ (LENGTH('a) - 1) \<Longrightarrow> sint (word_of_int k :: 'a word) = k"
  by (simp add: signed_take_bit_int_eq_self sint_sbintrunc')

end

sublocale wire_signed \<subseteq> signed: wire_scalar width "\<lambda>k. enc (word_of_int k)" "\<lambda>bs. sint (dec bs)"
    "\<lambda>k. - (2 ^ (LENGTH('a) - 1)) \<le> k \<and> k < 2 ^ (LENGTH('a) - 1)" rd_s wr_s
  by unfold_locales
    (auto simp: width_pos length_enc dec_enc rd_eq wr_eq rd_s_eq wr_s_eq sint_word_of_int_range)

interpretation sc_i8: wire_signed 1 "\<lambda>v. [v]" hd read_u8 write_u8 read_i8 write_i8
  by unfold_locales (simp_all add: read_i8_def write_i8_def)

interpretation sc_i16be: wire_signed 2 "to_be_bytes 2" from_be_bytes read_u16be write_u16be
    read_i16be write_i16be
  by unfold_locales (simp_all add: read_i16be_def write_i16be_def)

interpretation sc_i16le: wire_signed 2 "to_le_bytes 2" from_le_bytes read_u16le write_u16le
    read_i16le write_i16le
  by unfold_locales (simp_all add: read_i16le_def write_i16le_def)

interpretation sc_i32be: wire_signed 4 "to_be_bytes 4" from_be_bytes read_u32be write_u32be
    read_i32be write_i32be
  by unfold_locales (simp_all add: read_i32be_def write_i32be_def)

interpretation sc_i32le: wire_signed 4 "to_le_bytes 4" from_le_bytes read_u32le write_u32le
    read_i32le write_i32le
  by unfold_locales (simp_all add: read_i32le_def write_i32le_def)

interpretation sc_i64be: wire_signed 8 "to_be_bytes 8" from_be_bytes read_u64be write_u64be
    read_i64be write_i64be
  by unfold_locales (simp_all add: read_i64be_def write_i64be_def)

interpretation sc_i64le: wire_signed 8 "to_le_bytes 8" from_le_bytes read_u64le write_u64le
    read_i64le write_i64le
  by unfold_locales (simp_all add: read_i64le_def write_i64le_def)

section \<open>Slices, the rest of the input and sub-cursors\<close>

lemma read_bytes_eq: "cursor_ok c \<Longrightarrow> read_bytes n c =
    (if pos c + n \<le> length (data c) then Inr (slice (data c) (pos c) n, advance n c) else Inl ShortBuffer)"
  by (simp add: read_bytes_def cursor_require_eq)

lemma sub_cursor_eq: "cursor_ok c \<Longrightarrow> sub_cursor n c =
    (if pos c + n \<le> length (data c)
     then Inr (\<lparr>data = slice (data c) (pos c) n, pos = 0\<rparr>, advance n c) else Inl ShortBuffer)"
  by (simp add: sub_cursor_def cursor_require_eq)

lemma sub_cursor_scope:
  assumes "cursor_ok c" "sub_cursor n c = Inr (s, c')"
  shows "cursor_ok s \<and> cursor_ok c' \<and> remaining s = n \<and> remaining c = n + remaining c'
    \<and> read_remaining s = (slice (data c) (pos c) n, s\<lparr>pos := n\<rparr>) \<and> data c' = data c"
  using assms
  by (auto simp: sub_cursor_eq cursor_ok_def remaining_def advance_def read_remaining_def slice_def
      split: if_splits)

lemma write_bytes_read_bytes:
  assumes "writer_ok w" "write_bytes bs w = Inr w'"
  shows "read_bytes (length bs) \<lparr>data = buf w', pos = wpos w\<rparr> = Inr (bs, \<lparr>data = buf w', pos = wpos w'\<rparr>)"
  using assms
  by (auto simp: write_bytes_def put_eq read_bytes_eq cursor_ok_def writer_ok_def slice_patch_same
      advance_def split: if_splits)

end
