(* ===== verification/Checksums.thy ===== *)
theory Checksums
  imports Runtime
begin

text \<open>
  The checksum functions of \<open>crates/wirespec-rt/src/lib.rs\<close>: the Internet checksum, CRC-32,
  CRC-32C and Fletcher-16, each with the verify and compute entry points that generated code
  calls. A panic (an offset outside the data) is \<open>None\<close>. The locale \<open>skip_checksum\<close> is the
  contract of an algorithm that is recomputed with its own field read as zeros.
\<close>

section \<open>Internet checksum (RFC 1071)\<close>

text \<open>The two summing loops of \<open>ones_complement_sum\<close>: big-endian pairs, an odd last byte
  shifted up; \<open>u32\<close> additions, which wrap in a release build.\<close>

fun sum_pairs :: "u32 \<Rightarrow> u8 list \<Rightarrow> u32" where
  "sum_pairs s (a # b # r) = sum_pairs (s + ucast (from_be_bytes [a, b] :: u16)) r"
| "sum_pairs s [a] = s + push_bit 8 (ucast a)"
| "sum_pairs s [] = s"

lemma unat_low16: "unat (s AND 0xFFFF :: u32) = unat s mod 65536"
proof -
  have "s AND 0xFFFF = take_bit 16 s" by (simp add: take_bit_eq_mask mask_eq_exp_minus_1)
  moreover have "unat (take_bit 16 s) = take_bit 16 (unat s)" by (rule unsigned_take_bit_eq)
  ultimately show ?thesis by (simp only: take_bit_eq_mod) simp
qed

lemma unat_high16: "unat (drop_bit 16 s :: u32) = unat s div 65536"
  using unat_drop_bit_eq [of 16 s] by (simp only: drop_bit_eq_div) simp

lemma unat_u32_less: "unat (s :: u32) < 4294967296"
  using unat_bound [of s] by simp

lemma unat_folded: "unat ((s AND 0xFFFF) + drop_bit 16 s :: u32) = unat s mod 65536 + unat s div 65536"
proof -
  have "unat s div 65536 < 65536"
    using unat_u32_less [of s] by (simp add: less_mult_imp_div_less)
  moreover have "unat s mod 65536 < 65536" by simp
  ultimately have "unat s mod 65536 + unat s div 65536 < 2 ^ 32" by (simp only: power_numeral) simp
  then show ?thesis
    by (simp only: unat_word_ariths unat_low16 unat_high16) simp
qed

lemma folded_less: "x div 65536 \<noteq> 0 \<Longrightarrow> x mod 65536 + x div 65536 < (x :: nat)"
  using div_mult_mod_eq [of x 65536] by linarith

text \<open>\<open>while sum >> 16 != 0 { sum = (sum & 0xFFFF) + (sum >> 16); }\<close>\<close>

function fold_carry :: "u32 \<Rightarrow> u32" where
  "fold_carry s = (if drop_bit 16 s \<noteq> 0 then fold_carry ((s AND 0xFFFF) + drop_bit 16 s) else s)"
  by pat_completeness auto
termination
proof (relation "measure unat")
  fix s :: u32
  assume "drop_bit 16 s \<noteq> 0"
  then have "unat s div 65536 \<noteq> 0" by (metis unat_high16 unat_eq_0)
  then show "((s AND 0xFFFF) + drop_bit 16 s, s) \<in> measure unat"
    unfolding in_measure unat_folded by (rule folded_less)
qed simp

declare fold_carry.simps [simp del]

lemma fold_carry_0 [simp]: "fold_carry 0 = 0"
  by (simp add: fold_carry.simps)

definition ones_complement_sum :: "u8 list \<Rightarrow> u16" where
  "ones_complement_sum d = NOT (ucast (fold_carry (sum_pairs 0 d)))"

definition internet_checksum :: "u8 list \<Rightarrow> u16" where
  "internet_checksum d = ones_complement_sum d"

definition internet_checksum_compute :: "u8 list \<Rightarrow> usize \<Rightarrow> u8 list option" where
  "internet_checksum_compute d off =
     (case checked_add off 2 of
        None \<Rightarrow> None
      | Some end \<Rightarrow>
          if end \<le> length d
          then (let zeroed = patch d off [0, 0];
                    val = ones_complement_sum zeroed
                in Some (patch zeroed off (to_be_bytes 2 val)))
          else None)"

text \<open>The sum as a natural number.\<close>

fun pair_sum :: "u8 list \<Rightarrow> nat" where
  "pair_sum (a # b # r) = 256 * unat a + unat b + pair_sum r"
| "pair_sum [a] = 256 * unat a"
| "pair_sum [] = 0"

lemma pair_sum_append: "even (length xs) \<Longrightarrow> pair_sum (xs @ ys) = pair_sum xs + pair_sum ys"
  by (induction xs rule: pair_sum.induct) auto

lemma unat_u8_le: "unat (b :: u8) \<le> 255"
  using unat_bound [of b] by simp

lemma pair_sum_le: "pair_sum d \<le> 65535 * ((length d + 1) div 2)"
proof (induction d rule: pair_sum.induct)
  case (1 a b r)
  with unat_u8_le [of a] unat_u8_le [of b] show ?case by simp
next
  case (2 a)
  with unat_u8_le [of a] show ?case by simp
qed simp

lemma unat_be16: "unat (from_be_bytes [a, b] :: u16) = 256 * unat a + unat b"
proof -
  have "bit (push_bit 8 (ucast a) :: u16) n \<Longrightarrow> bit (ucast b :: u16) n \<Longrightarrow> False" for n
    by (auto simp: bit_simps dest: bit_imp_le_length)
  then have "(from_be_bytes [a, b] :: u16) = push_bit 8 (ucast a) + ucast b"
    by (simp add: from_be_bytes_def) (rule disjunctive_add [symmetric], blast)
  then have "unat (from_be_bytes [a, b] :: u16) = (256 * unat a + unat b) mod 65536"
    by (simp add: push_bit_eq_mult unat_word_ariths unat_ucast_le mult.commute mod_simps)
  then show ?thesis using unat_u8_le [of a] unat_u8_le [of b] by simp
qed

lemma unat_sum_pairs: "unat s + pair_sum d < 4294967296 \<Longrightarrow> unat (sum_pairs s d) = unat s + pair_sum d"
proof (induction s d rule: sum_pairs.induct)
  case (1 s a b r)
  then have "unat (s + ucast (from_be_bytes [a, b] :: u16)) = unat s + (256 * unat a + unat b)"
    by (simp add: unat_word_ariths unat_ucast_le unat_be16)
  with 1 show ?case by simp
next
  case (2 s a)
  then show ?case
    by (simp add: unat_word_ariths push_bit_eq_mult unat_ucast_le mult.commute mod_simps)
qed simp

lemma fold_carry_spec:
  "unat (fold_carry s) < 65536 \<and> unat (fold_carry s) mod 65535 = unat s mod 65535
    \<and> (unat s > 0 \<longrightarrow> unat (fold_carry s) > 0)"
proof (induction s rule: fold_carry.induct)
  case (1 s)
  show ?case
  proof (cases "drop_bit 16 s \<noteq> 0")
    case True
    let ?t = "(s AND 0xFFFF) + drop_bit 16 s"
    have t: "unat ?t = unat s mod 65536 + unat s div 65536" by (rule unat_folded)
    have "unat s = 65535 * (unat s div 65536) + unat ?t"
      using div_mult_mod_eq [of "unat s" 65536] by (simp add: t)
    then have "unat ?t mod 65535 = unat s mod 65535"
      by (metis mod_mult_self4)
    moreover have "unat ?t > 0"
      using True by (metis t unat_high16 unat_eq_0 add_gr_0 gr_zeroI)
    ultimately show ?thesis using 1 [OF True] True by (simp add: fold_carry.simps [of s])
  next
    case False
    then have "unat s div 65536 = 0" by (metis unat_high16 unat_0)
    then have "unat s < 65536" by simp
    with False show ?thesis by (simp add: fold_carry.simps [of s])
  qed
qed

lemma zero_sum_iff:
  assumes "length d \<le> 131074"
  shows "internet_checksum d = 0 \<longleftrightarrow> pair_sum d > 0 \<and> 65535 dvd pair_sum d"
proof -
  let ?r = "fold_carry (sum_pairs 0 d)"
  have "(length d + 1) div 2 \<le> 65537" using assms by linarith
  then have "pair_sum d \<le> 65535 * 65537"
    using pair_sum_le [of d] by (meson le_trans mult_le_mono2)
  then have s: "unat (sum_pairs 0 d) = pair_sum d" by (simp add: unat_sum_pairs)
  note spec = fold_carry_spec [of "sum_pairs 0 d", unfolded s]
  have "internet_checksum d = 0 \<longleftrightarrow> (ucast ?r :: u16) = - 1"
    unfolding internet_checksum_def ones_complement_sum_def
    by (metis bit.compl_zero bit.double_compl)
  also have "\<dots> \<longleftrightarrow> unat ?r = 65535"
  proof -
    have "unat (ucast ?r :: u16) = unat ?r"
      using spec by (simp add: unsigned_ucast_eq unsigned_take_bit_eq take_bit_nat_eq_self)
    moreover have "unat (- 1 :: u16) = 65535" by (simp add: unsigned_minus_1_eq_mask mask_eq_exp_minus_1)
    ultimately show ?thesis by (metis word_unat_eq_iff)
  qed
  also have "\<dots> \<longleftrightarrow> pair_sum d > 0 \<and> 65535 dvd pair_sum d"
  proof -
    have "x = 65535 \<longleftrightarrow> 0 < x \<and> x mod 65535 = 0" if "x < 65536" for x :: nat
    proof (cases "x < 65535")
      case False
      with that have "x = 65535" by linarith
      then show ?thesis by simp
    qed auto
    moreover have "unat ?r = 0" if "pair_sum d = 0"
    proof -
      have "sum_pairs 0 d = 0" using s that by (simp add: unat_eq_zero)
      then show ?thesis by (simp add: fold_carry.simps)
    qed
    ultimately show ?thesis
      using spec by (metis dvd_eq_mod_eq_0 gr0I less_numeral_extra(3))
  qed
  finally show ?thesis .
qed

lemma to_be_bytes_2: "to_be_bytes 2 v = [ucast (drop_bit 8 v), ucast (v :: u16)]"
  by (simp add: numeral_2_eq_2)

lemma pair_sum_be16: "pair_sum (to_be_bytes 2 (v :: u16) @ ys) = unat v + pair_sum ys"
  using from_to_be_exact [of 2 v] unat_be16 [of "ucast (drop_bit 8 v)" "ucast v"]
  by (simp add: to_be_bytes_2)

lemma patch_twice: "length ys = length zs \<Longrightarrow> p + length ys \<le> length xs
    \<Longrightarrow> patch (patch xs p ys) p zs = patch xs p zs"
  by (simp add: patch_def)

lemma pair_sum_patch:
  "even off \<Longrightarrow> off + 2 \<le> length d
    \<Longrightarrow> pair_sum (patch d off (to_be_bytes 2 v)) = unat (v :: u16) + pair_sum (patch d off [0, 0])"
  by (simp add: patch_def pair_sum_append pair_sum_be16)

text \<open>What the compute function leaves in the data: outside the two checksum bytes nothing
  changes, and the stored value is the complement of the sum with the field zeroed.\<close>

lemma internet_compute_eq:
  "off + 2 \<le> length d \<Longrightarrow> length d < 2 ^ 63 \<Longrightarrow>
    internet_checksum_compute d off =
      Some (patch d off (to_be_bytes 2 (internet_checksum (patch d off [0, 0]))))"
  by (simp add: internet_checksum_compute_def internet_checksum_def patch_twice)

lemma internet_checksum_value:
  assumes "length d \<le> 131074"
  shows "unat (internet_checksum d) = 65535 - unat (fold_carry (sum_pairs 0 d))"
    and "unat (sum_pairs 0 d) = pair_sum d"
proof -
  have "(length d + 1) div 2 \<le> 65537" using assms by linarith
  then have "pair_sum d \<le> 65535 * 65537"
    using pair_sum_le [of d] by (meson le_trans mult_le_mono2)
  then show "unat (sum_pairs 0 d) = pair_sum d" by (simp add: unat_sum_pairs)
  have "unat (NOT x :: u16) = 65535 - unat x" for x
  proof -
    have "x + NOT x = - 1" by (simp add: not_eq_complement)
    then have "(unat x + unat (NOT x)) mod 65536 = 65535"
      using unat_word_ariths(1) [of x "NOT x"] by (simp add: unsigned_minus_1_eq_mask mask_eq_exp_minus_1)
    moreover have "unat x < 65536" "unat (NOT x) < 65536"
      using unat_bound [of x] unat_bound [of "NOT x"] by simp_all
    ultimately show ?thesis by (auto simp: mod_if split: if_splits)
  qed
  moreover have "unat (ucast (fold_carry s) :: u16) = unat (fold_carry s)" for s
    using fold_carry_spec [of s]
    by (simp add: unsigned_ucast_eq unsigned_take_bit_eq take_bit_nat_eq_self)
  ultimately show "unat (internet_checksum d) = 65535 - unat (fold_carry (sum_pairs 0 d))"
    by (simp add: internet_checksum_def ones_complement_sum_def)
qed

lemma complement_cancels:
  fixes s r :: nat
  assumes "r < 65536" "r mod 65535 = s mod 65535" "s = 0 \<longrightarrow> r = 0"
  shows "65535 - r + s > 0 \<and> 65535 dvd (65535 - r + s)"
proof -
  have "(65535 - r + s) mod 65535 = 0"
  proof -
    have "(65535 - r + s) mod 65535 = (65535 - r + r) mod 65535"
      using assms(2) by (metis mod_add_cong)
    also have "65535 - r + r = 65535" using assms(1) by simp
    finally show ?thesis by simp
  qed
  then have "65535 dvd (65535 - r + s)" by (simp only: dvd_eq_mod_eq_0)
  moreover have "65535 - r + s > 0" using assms(1,3) by (cases "s = 0") auto
  ultimately show ?thesis by blast
qed

lemma internet_field_cancels:
  assumes "even off" "off + 2 \<le> length d" "length d \<le> 131074"
  shows "internet_checksum (patch d off (to_be_bytes 2 (internet_checksum (patch d off [0, 0])))) = 0"
proof -
  let ?z = "patch d off [0, 0]"
  let ?d = "patch d off (to_be_bytes 2 (internet_checksum ?z))"
  let ?r = "unat (fold_carry (sum_pairs 0 ?z))"
  have len: "length ?z = length d" "length ?d = length d" using assms(2) by simp_all
  note val = internet_checksum_value [of ?z, unfolded len, OF assms(3)]
  have "pair_sum ?d = 65535 - ?r + pair_sum ?z"
    using assms(1,2) by (simp add: pair_sum_patch val)
  moreover have "65535 - ?r + pair_sum ?z > 0 \<and> 65535 dvd (65535 - ?r + pair_sum ?z)"
    using fold_carry_spec [of "sum_pairs 0 ?z", unfolded val(2)] fold_carry_0 val(2)
    by (intro complement_cancels) (auto simp: unat_eq_zero)
  ultimately show ?thesis using zero_sum_iff [of ?d] len assms(3) by simp
qed

section \<open>CRC-32 and CRC-32C\<close>

text \<open>One turn of the inner loop, and the eight turns a byte takes.\<close>

definition crc_bit :: "u32 \<Rightarrow> u32 \<Rightarrow> u32" where
  "crc_bit poly crc = (if crc AND 1 \<noteq> 0 then drop_bit 1 crc XOR poly else drop_bit 1 crc)"

definition crc_byte :: "u32 \<Rightarrow> u32 \<Rightarrow> u8 \<Rightarrow> u32" where
  "crc_byte poly crc byte = (crc_bit poly ^^ 8) (crc XOR ucast byte)"

definition raw_crc32 :: "u8 list \<Rightarrow> u32 \<Rightarrow> u32" where
  "raw_crc32 d poly = NOT (foldl (crc_byte poly) 0xFFFFFFFF d)"

text \<open>The byte a skipping loop reads: zero inside \<open>skip_offset..skip_end\<close>.\<close>

definition skipped :: "usize \<Rightarrow> usize \<Rightarrow> nat \<times> u8 \<Rightarrow> u8" where
  "skipped off end p = (if fst p \<ge> off \<and> fst p < end then 0 else snd p)"

definition raw_crc32_with_skip :: "u8 list \<Rightarrow> u32 \<Rightarrow> usize \<Rightarrow> usize \<Rightarrow> u32" where
  "raw_crc32_with_skip d poly off len =
     (let end = saturating_add off len
      in NOT (foldl (\<lambda>crc p. crc_byte poly crc (skipped off end p)) 0xFFFFFFFF (enumerate 0 d)))"

text \<open>\<open>data.get(off..off.checked_add(width).expect(..))\<close> being \<open>Some\<close>.\<close>

definition field_in_bounds :: "u8 list \<Rightarrow> usize \<Rightarrow> usize \<Rightarrow> bool" where
  "field_in_bounds d off width =
     (case checked_add off width of None \<Rightarrow> False | Some end \<Rightarrow> end \<le> length d)"

definition zeroed :: "u8 list \<Rightarrow> usize \<Rightarrow> usize \<Rightarrow> u8 list" where
  "zeroed d off width = patch d off (replicate width 0)"

definition crc32_verify :: "u8 list \<Rightarrow> usize \<Rightarrow> usize \<Rightarrow> u32 option" where
  "crc32_verify d off width =
     (if field_in_bounds d off width then Some (raw_crc32_with_skip d 0xEDB88320 off width) else None)"

text \<open>The compute functions return the value and leave the data with the field zeroed.\<close>

definition crc32_compute :: "u8 list \<Rightarrow> usize \<Rightarrow> (u32 \<times> u8 list) option" where
  "crc32_compute d off =
     (if field_in_bounds d off 4
      then (let z = zeroed d off 4 in Some (raw_crc32 z 0xEDB88320, z)) else None)"

definition crc32c_verify :: "u8 list \<Rightarrow> usize \<Rightarrow> usize \<Rightarrow> u32 option" where
  "crc32c_verify d off width =
     (if field_in_bounds d off width then Some (raw_crc32_with_skip d 0x82F63B78 off width) else None)"

definition crc32c_compute :: "u8 list \<Rightarrow> usize \<Rightarrow> (u32 \<times> u8 list) option" where
  "crc32c_compute d off =
     (if field_in_bounds d off 4
      then (let z = zeroed d off 4 in Some (raw_crc32 z 0x82F63B78, z)) else None)"

section \<open>Fletcher-16\<close>

definition fletcher_step :: "u16 \<times> u16 \<Rightarrow> u8 \<Rightarrow> u16 \<times> u16" where
  "fletcher_step s byte =
     (let sum1 = (fst s + ucast byte) mod 255; sum2 = (snd s + sum1) mod 255 in (sum1, sum2))"

definition fletcher_out :: "u16 \<times> u16 \<Rightarrow> u16" where
  "fletcher_out s = push_bit 8 (snd s) OR fst s"

definition raw_fletcher16 :: "u8 list \<Rightarrow> u16" where
  "raw_fletcher16 d = fletcher_out (foldl fletcher_step (0, 0) d)"

definition raw_fletcher16_with_skip :: "u8 list \<Rightarrow> usize \<Rightarrow> usize \<Rightarrow> u16" where
  "raw_fletcher16_with_skip d off len =
     (let end = saturating_add off len
      in fletcher_out (foldl (\<lambda>s p. fletcher_step s (skipped off end p)) (0, 0) (enumerate 0 d)))"

definition fletcher16_verify :: "u8 list \<Rightarrow> usize \<Rightarrow> usize \<Rightarrow> u16 option" where
  "fletcher16_verify d off width =
     (if field_in_bounds d off width then Some (raw_fletcher16_with_skip d off width) else None)"

definition fletcher16_compute :: "u8 list \<Rightarrow> usize \<Rightarrow> (u16 \<times> u8 list) option" where
  "fletcher16_compute d off =
     (if field_in_bounds d off 2
      then (let z = zeroed d off 2 in Some (raw_fletcher16 z, z)) else None)"

section \<open>Recompute with the field read as zeros\<close>

lemma field_in_bounds_iff: "length d < 2 ^ 63 \<Longrightarrow> field_in_bounds d off width \<longleftrightarrow> off + width \<le> length d"
  by (auto simp: field_in_bounds_def checked_add_def)

lemma length_zeroed [simp]: "off + width \<le> length d \<Longrightarrow> length (zeroed d off width) = length d"
  by (simp add: zeroed_def)

lemma map_skipped:
  assumes "off + len \<le> length d"
  shows "map (skipped off (off + len)) (enumerate 0 d) = zeroed d off len"
  using assms by (intro nth_equalityI)
    (auto simp: nth_enumerate_eq skipped_def zeroed_def nth_patch)

lemma foldl_skipped:
  assumes "off + len \<le> length d" "length d < 2 ^ 63"
  shows "foldl (\<lambda>s p. f s (skipped off (saturating_add off len) p)) s0 (enumerate 0 d)
    = foldl f s0 (zeroed d off len)"
  using assms by (simp add: foldl_map [symmetric] map_skipped)

lemma zeroed_patch: "off + length ys \<le> length d \<Longrightarrow> zeroed (patch d off ys) off (length ys) = zeroed d off (length ys)"
  by (simp add: zeroed_def patch_twice)

lemma zeroed_zeroed: "off + width \<le> length d \<Longrightarrow> zeroed (zeroed d off width) off width = zeroed d off width"
  by (simp add: zeroed_def patch_twice)

locale skip_checksum =
  fixes width :: nat
    and raw :: "u8 list \<Rightarrow> 'c"
    and with_skip :: "u8 list \<Rightarrow> usize \<Rightarrow> usize \<Rightarrow> 'c"
    and verify :: "u8 list \<Rightarrow> usize \<Rightarrow> usize \<Rightarrow> 'c option"
    and compute :: "u8 list \<Rightarrow> usize \<Rightarrow> ('c \<times> u8 list) option"
  assumes skip_is_zeroed: "off + len \<le> length d \<Longrightarrow> length d < 2 ^ 63 \<Longrightarrow>
      with_skip d off len = raw (zeroed d off len)"
    and verify_law: "verify d off w = (if field_in_bounds d off w then Some (with_skip d off w) else None)"
    and compute_law: "compute d off =
      (if field_in_bounds d off width then Some (raw (zeroed d off width), zeroed d off width) else None)"
begin

lemma verify_after_store:
  assumes "compute d off = Some (v, z)" and "length d < 2 ^ 63" and "length stored = width"
  shows "verify (patch z off stored) off width = Some v"
proof -
  have b: "off + width \<le> length d" and v: "v = raw (zeroed d off width)" and z: "z = zeroed d off width"
    using assms(1,2) by (auto simp: compute_law field_in_bounds_iff split: if_splits)
  have len: "length (patch z off stored) = length d" using b assms(3) z by simp
  have "zeroed (patch z off stored) off width = zeroed d off width"
    using b assms(3) zeroed_patch [of off stored z] by (simp add: z zeroed_zeroed)
  then show ?thesis
    using b assms(2) len v by (simp add: verify_law field_in_bounds_iff skip_is_zeroed)
qed

lemma verify_ignores_field:
  assumes "length d < 2 ^ 63" and "off + width \<le> length d" and "length a = width" and "length b = width"
  shows "verify (patch d off a) off width = verify (patch d off b) off width"
  using assms zeroed_patch [of off a d] zeroed_patch [of off b d]
  by (simp add: verify_law field_in_bounds_iff skip_is_zeroed)

lemma verify_panics_iff:
  "length d < 2 ^ 63 \<Longrightarrow> verify d off w = None \<longleftrightarrow> length d < off + w"
  by (auto simp: verify_law field_in_bounds_iff)

lemma compute_panics_iff:
  "length d < 2 ^ 63 \<Longrightarrow> compute d off = None \<longleftrightarrow> length d < off + width"
  by (auto simp: compute_law field_in_bounds_iff)

end

interpretation crc32: skip_checksum 4 "\<lambda>d. raw_crc32 d 0xEDB88320"
    "\<lambda>d. raw_crc32_with_skip d 0xEDB88320" crc32_verify crc32_compute
  by unfold_locales
    (simp_all add: Let_def raw_crc32_with_skip_def raw_crc32_def foldl_skipped crc32_verify_def crc32_compute_def
      del: saturating_add_exact)

interpretation crc32c: skip_checksum 4 "\<lambda>d. raw_crc32 d 0x82F63B78"
    "\<lambda>d. raw_crc32_with_skip d 0x82F63B78" crc32c_verify crc32c_compute
  by unfold_locales
    (simp_all add: Let_def raw_crc32_with_skip_def raw_crc32_def foldl_skipped crc32c_verify_def crc32c_compute_def
      del: saturating_add_exact)

interpretation fletcher16: skip_checksum 2 raw_fletcher16 raw_fletcher16_with_skip
    fletcher16_verify fletcher16_compute
  by unfold_locales
    (simp_all add: Let_def raw_fletcher16_with_skip_def raw_fletcher16_def foldl_skipped fletcher16_verify_def
      fletcher16_compute_def del: saturating_add_exact)

section \<open>Burst errors change a CRC\<close>

text \<open>A turn of the loop is linear, and injective because the top bit of the polynomial is set.\<close>

lemma and_one_odd: "x AND 1 \<noteq> 0 \<longleftrightarrow> bit (x :: u32) 0"
  by (simp add: and_one_eq bit_0 odd_iff_mod_2_eq_one)

lemma bit_crc_bit: "bit (crc_bit poly x) n \<longleftrightarrow> bit x (Suc n) \<noteq> (bit x 0 \<and> bit poly n)"
  by (auto simp: crc_bit_def and_one_odd bit_simps)

lemma crc_bit_linear: "crc_bit poly (x XOR y) = crc_bit poly x XOR crc_bit poly y"
  by (rule bit_word_eqI) (auto simp: bit_crc_bit bit_simps)

lemma crc_bit_inj:
  assumes "bit poly 31" shows "inj (crc_bit poly)"
proof (rule injI)
  fix x y :: u32
  assume eq: "crc_bit poly x = crc_bit poly y"
  have hi: "\<not> bit x (Suc 31)" "\<not> bit y (Suc 31)" for x y :: u32 by (auto dest: bit_imp_le_length)
  have "bit (crc_bit poly x) 31 = bit (crc_bit poly y) 31" using eq by simp
  then have b0: "bit x 0 = bit y 0" using assms hi by (simp add: bit_crc_bit)
  show "x = y"
  proof (rule bit_word_eqI)
    fix n assume "n < LENGTH(32)"
    have "bit x (Suc m) = bit y (Suc m)" for m
      using eq b0 by (metis bit_crc_bit)
    then show "bit x n = bit y n" using b0 by (cases n) auto
  qed
qed

lemma crc_bits_linear: "(crc_bit poly ^^ k) (x XOR y) = (crc_bit poly ^^ k) x XOR (crc_bit poly ^^ k) y"
  by (induction k) (simp_all add: crc_bit_linear)

lemma crc_bits_inj: "bit poly 31 \<Longrightarrow> inj (crc_bit poly ^^ k)"
  by (simp add: crc_bit_inj inj_fn)

lemma crc_bits_shifted:
  assumes "\<And>n. n \<ge> 32 - k \<Longrightarrow> \<not> bit y n"
  shows "(crc_bit poly ^^ k) (push_bit k y) = y"
  using assms
proof (induction k arbitrary: y)
  case 0
  then show ?case by simp
next
  case (Suc k)
  have top: "\<not> bit (push_bit 1 y) n" if "n \<ge> 32 - k" for n
    using Suc.prems [of "n - 1"] that by (auto simp only: bit_push_bit_iff)
  have "(crc_bit poly ^^ Suc k) (push_bit (Suc k) y) = crc_bit poly ((crc_bit poly ^^ k) (push_bit k (push_bit 1 y)))"
    by (simp add: push_bit_push_bit add.commute)
  also have "\<dots> = crc_bit poly (push_bit 1 y)" using Suc.IH [OF top] by (rule arg_cong)
  also have "\<dots> = y"
  proof (rule bit_word_eqI)
    fix n assume "n < LENGTH(32)"
    show "bit (crc_bit poly (push_bit 1 y)) n = bit y n"
      using Suc.prems [of n] \<open>n < LENGTH(32)\<close> unfolding bit_crc_bit bit_push_bit_iff
      by (cases "n = 31") auto
  qed
  finally show ?case .
qed

lemma from_le_bytes_Cons: "from_le_bytes (b # bs) = push_bit 8 (from_le_bytes bs) OR ucast b"
  by (simp add: from_le_bytes_def from_be_bytes_snoc)

lemma bit_from_le_bytes:
  "bit (from_le_bytes bs :: u32) n \<longleftrightarrow> n < 32 \<and> n < 8 * length bs \<and> bit (bs ! (n div 8)) (n mod 8)"
proof (induction bs arbitrary: n)
  case Nil
  then show ?case by (simp add: from_le_bytes_def from_be_bytes_def)
next
  case (Cons b bs)
  show ?case
  proof (cases "n < 8")
    case True
    then show ?thesis by (simp add: from_le_bytes_Cons bit_simps)
  next
    case False
    then have "n div 8 = Suc ((n - 8) div 8)" "(n - 8) mod 8 = n mod 8"
      using le_div_geq [of 8 n] le_mod_geq [of 8 n] by simp_all
    moreover have "\<not> bit b n" using False by (auto dest: bit_imp_le_length)
    ultimately show ?thesis using False Cons.IH [of "n - 8"]
      by (auto simp: from_le_bytes_Cons bit_simps)
  qed
qed

text \<open>Up to four bytes act as one word on the register.\<close>

lemma crc_bytes_word:
  "length bs \<le> 4 \<Longrightarrow>
    foldl (crc_byte poly) c bs = (crc_bit poly ^^ (8 * length bs)) (c XOR from_le_bytes bs)"
proof (induction bs arbitrary: c)
  case Nil
  then show ?case by (simp add: from_le_bytes_def from_be_bytes_def)
next
  case (Cons b bs)
  let ?w = "from_le_bytes bs :: u32"
  have "\<not> bit ?w n" if "n \<ge> 32 - 8" for n
    using Cons.prems that by (auto simp: bit_from_le_bytes)
  then have "(crc_bit poly ^^ 8) (push_bit 8 ?w) = ?w" by (rule crc_bits_shifted)
  moreover have "from_le_bytes (b # bs) = ucast b XOR push_bit 8 ?w"
    by (rule bit_word_eqI) (auto simp: from_le_bytes_Cons bit_simps dest: bit_imp_le_length)
  ultimately have "(crc_bit poly ^^ 8) (c XOR from_le_bytes (b # bs)) = crc_byte poly c b XOR ?w"
    by (simp only: crc_bits_linear crc_byte_def xor.assoc)
  moreover have "8 * length (b # bs) = 8 * length bs + 8" by simp
  ultimately show ?case using Cons by (simp only: funpow_add o_apply) simp
qed

lemma from_le_bytes_inj:
  assumes "length xs = length ys" "length xs \<le> 4" "from_le_bytes xs = (from_le_bytes ys :: u32)"
  shows "xs = ys"
proof (rule nth_equalityI)
  show "length xs = length ys" by fact
  fix i assume i: "i < length xs"
  show "xs ! i = ys ! i"
  proof (rule bit_word_eqI)
    fix n assume "n < LENGTH(8)"
    then show "bit (xs ! i) n = bit (ys ! i) n"
      using assms i bit_from_le_bytes [of xs "8 * i + n"] bit_from_le_bytes [of ys "8 * i + n"] by simp
  qed
qed

lemma xor_cancel_right: "x XOR z = y XOR z \<Longrightarrow> x = (y :: u32)"
proof -
  assume "x XOR z = y XOR z"
  then have "(x XOR z) XOR z = (y XOR z) XOR z" by simp
  then show ?thesis by (simp add: xor.assoc)
qed

lemma xor_cancel_left: "z XOR x = z XOR y \<Longrightarrow> x = (y :: u32)"
  by (rule xor_cancel_right [of x z y]) (simp only: xor.commute)

lemma crc_fold_inj: "bit poly 31 \<Longrightarrow> foldl (crc_byte poly) c bs = foldl (crc_byte poly) c' bs \<Longrightarrow> c = c'"
proof (induction bs arbitrary: c c')
  case (Cons b bs)
  have "crc_byte poly c b = crc_byte poly c' b"
    by (rule Cons.IH [OF Cons.prems(1)]) (use Cons.prems(2) in simp)
  then have "c XOR ucast b = c' XOR ucast b"
    unfolding crc_byte_def by (rule injD [OF crc_bits_inj [OF Cons.prems(1)]])
  then show ?case by (rule xor_cancel_right)
qed simp

lemma crc_detects_burst:
  assumes poly: "bit poly 31" and len: "length e = length e'" "length e \<le> 4" and "e \<noteq> e'"
  shows "raw_crc32 (pre @ e @ post) poly \<noteq> raw_crc32 (pre @ e' @ post) poly"
proof
  assume "raw_crc32 (pre @ e @ post) poly = raw_crc32 (pre @ e' @ post) poly"
  then have "foldl (crc_byte poly) 0xFFFFFFFF (pre @ e @ post) = foldl (crc_byte poly) 0xFFFFFFFF (pre @ e' @ post)"
    unfolding raw_crc32_def by (metis bit.double_compl)
  then have "foldl (crc_byte poly) (foldl (crc_byte poly) 0xFFFFFFFF pre) e
      = foldl (crc_byte poly) (foldl (crc_byte poly) 0xFFFFFFFF pre) e'"
    using crc_fold_inj [OF poly] by simp
  then have "foldl (crc_byte poly) 0xFFFFFFFF pre XOR from_le_bytes e
      = foldl (crc_byte poly) 0xFFFFFFFF pre XOR from_le_bytes e'"
    using len by (simp only: crc_bytes_word) (rule injD [OF crc_bits_inj [OF poly]])
  then have "(from_le_bytes e :: u32) = from_le_bytes e'" by (rule xor_cancel_left)
  then show False using from_le_bytes_inj len \<open>e \<noteq> e'\<close> by blast
qed

section \<open>What Fletcher-16 computes\<close>

text \<open>The sums are kept below 255, so the 16-bit additions never wrap; the second sum weighs a
  byte by its distance from the end.\<close>

definition byte_sum :: "u8 list \<Rightarrow> nat" where
  "byte_sum d = (\<Sum>b\<leftarrow>d. unat b)"

fun weighted_sum :: "u8 list \<Rightarrow> nat" where
  "weighted_sum [] = 0"
| "weighted_sum (b # bs) = Suc (length bs) * unat b + weighted_sum bs"

lemma unat_mod255: "unat (x mod 255 :: u16) = unat x mod 255"
  by (simp add: unat_mod)

lemma fletcher_step_nat:
  assumes "unat (fst s) < 255" "unat (snd s) < 255"
  shows "unat (fst (fletcher_step s b)) = (unat (fst s) + unat b) mod 255"
    and "unat (snd (fletcher_step s b)) = (unat (snd s) + unat (fst s) + unat b) mod 255"
proof -
  have u: "unat (ucast b :: u16) = unat b" by (simp add: unat_ucast_le)
  have "unat (fst s + ucast b) = unat (fst s) + unat b"
    using assms unat_u8_le [of b] by (simp add: unat_word_ariths u)
  then show s1: "unat (fst (fletcher_step s b)) = (unat (fst s) + unat b) mod 255"
    by (simp add: fletcher_step_def Let_def unat_mod255)
  then have "unat (snd s + fst (fletcher_step s b)) = unat (snd s) + (unat (fst s) + unat b) mod 255"
    using assms mod_less_divisor [of 255 "unat (fst s) + unat b"] by (simp add: unat_word_ariths)
  then show "unat (snd (fletcher_step s b)) = (unat (snd s) + unat (fst s) + unat b) mod 255"
    by (simp add: fletcher_step_def Let_def unat_mod255 mod_simps add.assoc)
qed

lemma fletcher_fold:
  assumes "unat (fst s) < 255" "unat (snd s) < 255"
  shows "unat (fst (foldl fletcher_step s d)) = (unat (fst s) + byte_sum d) mod 255 \<and>
    unat (snd (foldl fletcher_step s d)) = (unat (snd s) + length d * unat (fst s) + weighted_sum d) mod 255"
  using assms
proof (induction d arbitrary: s)
  case Nil
  then show ?case by (simp add: byte_sum_def)
next
  case (Cons b d)
  let ?s = "fletcher_step s b"
  note st = fletcher_step_nat [OF Cons.prems, of b]
  have "unat (fst ?s) < 255" "unat (snd ?s) < 255" by (simp_all add: st)
  note ih = Cons.IH [OF this]
  have "unat (fst (foldl fletcher_step ?s d)) = (unat (fst s) + byte_sum (b # d)) mod 255"
    using ih by (simp add: st byte_sum_def mod_simps add.assoc)
  moreover have "unat (snd (foldl fletcher_step ?s d))
      = ((unat (snd s) + unat (fst s) + unat b) + length d * (unat (fst s) + unat b) + weighted_sum d) mod 255"
    using ih unfolding st by (metis (no_types) mod_add_left_eq mod_add_right_eq mod_mult_right_eq)
  ultimately show ?case by (simp add: algebra_simps)
qed

lemma unat_fletcher_out:
  assumes "unat (fst s) < 256" "unat (snd s) < 256"
  shows "unat (fletcher_out s) = 256 * unat (snd s) + unat (fst s)"
proof -
  have "\<not> bit (fst s) n" if "n \<ge> 8" for n
  proof -
    have "fst s = take_bit 8 (fst s)"
      using assms(1) by (simp add: word_unat_eq_iff unsigned_take_bit_eq take_bit_nat_eq_self)
    then show ?thesis using that by (metis bit_take_bit_iff not_le)
  qed
  then have "push_bit 8 (snd s) OR fst s = push_bit 8 (snd s) + fst s"
    by (intro disjunctive_add [symmetric]) (auto simp: bit_simps)
  then show ?thesis
    using assms by (simp add: fletcher_out_def push_bit_eq_mult unat_word_ariths mult.commute)
qed

section \<open>Properties\<close>

text \<open>C0. The Internet checksum that \<open>internet_checksum_compute\<close> patches in at an even offset
  makes the whole message verify (the sum that \<open>internet_checksum\<close> returns is zero), and no byte
  outside the two of the field changes. 131074 bytes is the bound up to which the 32-bit
  accumulator cannot wrap.\<close>

theorem internet_compute_then_verify:
  assumes "even off" "off + 2 \<le> length d" "length d \<le> 131074"
  shows "\<exists>d'. internet_checksum_compute d off = Some d' \<and> internet_checksum d' = 0 \<and>
    length d' = length d \<and> (\<forall>i < length d. i < off \<or> off + 2 \<le> i \<longrightarrow> d' ! i = d ! i)"
proof -
  have "length d < 2 ^ 63" using assms(3) by simp
  then show ?thesis
    using assms by (auto simp: internet_compute_eq internet_field_cancels nth_patch)
qed

lemma internet_compute_then_verify_witness:
  "\<exists>d'. internet_checksum_compute [0x45, 0, 9, 9, 0x12] 2 = Some d' \<and> internet_checksum d' = 0 \<and>
    length d' = length [0x45 :: u8, 0, 9, 9, 0x12] \<and>
    (\<forall>i < length [0x45 :: u8, 0, 9, 9, 0x12]. i < 2 \<or> 2 + 2 \<le> i \<longrightarrow> d' ! i = [0x45, 0, 9, 9, 0x12] ! i)"
  by (rule internet_compute_then_verify) simp_all

text \<open>At an odd offset the patched value is stored across two summands and the message need
  not verify: for the bytes 1, 0, 0, 0 and offset 1 the compute function succeeds and the
  verification of its own output fails.\<close>

lemma internet_compute_odd_offset:
  "\<exists>d'. internet_checksum_compute [1, 0, 0, 0] 1 = Some d' \<and> internet_checksum d' \<noteq> 0"
proof -
  have "ones_complement_sum [1, 0, 0, 0] = 0xFEFF"
    by (simp add: ones_complement_sum_def from_be_bytes_def fold_carry.simps)
  then have "internet_checksum_compute [1, 0, 0, 0] 1 = Some [1, 0xFE, 0xFF, 0]"
    by (simp add: internet_checksum_compute_def patch_def to_be_bytes_2)
  moreover have "internet_checksum [1, 0xFE, 0xFF, 0] \<noteq> 0"
    by (simp add: zero_sum_iff)
  ultimately show ?thesis by blast
qed

text \<open>C20. CRC-32: whatever was in the field before, storing the computed value in it and
  verifying recomputes exactly that value, and the recomputation never reads the field.\<close>

theorem crc32_store_then_verify:
  assumes "crc32_compute d off = Some (v, z)" "length d < 2 ^ 63"
  shows "crc32_verify (patch z off (to_be_bytes 4 v)) off 4 = Some v \<and>
    (\<forall>field. length field = 4 \<longrightarrow> crc32_verify (patch z off field) off 4 = Some v)"
  using assms by (auto intro: crc32.verify_after_store)

lemma crc32_store_then_verify_witness:
  "\<exists>v z. crc32_compute [1, 2, 3, 4, 5] 1 = Some (v, z) \<and>
    crc32_verify (patch z 1 (to_be_bytes 4 v)) 1 4 = Some v"
proof -
  have "crc32_compute [1, 2, 3, 4, 5] 1 \<noteq> None" by (simp add: crc32.compute_panics_iff)
  then obtain v z where "crc32_compute [1, 2, 3, 4, 5] 1 = Some (v, z)" by auto
  then show ?thesis using crc32_store_then_verify [of "[1, 2, 3, 4, 5]" 1 v z] by auto
qed

lemma zeroed_outside:
  assumes "off + n \<le> length pre \<or> length pre + length e \<le> off"
    and "off + n \<le> length pre + length e + length post"
  obtains p q where "zeroed (pre @ e @ post) off n = p @ e @ q"
    and "\<And>e'. length e' = length e \<Longrightarrow> zeroed (pre @ e' @ post) off n = p @ e' @ q"
proof (cases "off + n \<le> length pre")
  case True
  then have "zeroed (pre @ f @ post) off n = zeroed pre off n @ f @ post" for f
    by (simp add: zeroed_def patch_def)
  then show ?thesis using that by blast
next
  case False
  then obtain k where off: "off = length pre + (length e + k)"
    using assms(1) by (metis le_iff_add add.assoc)
  have "zeroed (pre @ f @ post) off n = pre @ f @ zeroed post k n" if "length f = length e" for f
    unfolding off by (simp add: zeroed_def patch_def add.assoc flip: that)
  then show ?thesis by (intro that [of pre "zeroed post k n"]) simp_all
qed

text \<open>C21. CRC-32 detects every change that stays inside four consecutive bytes outside the
  checksum field: two messages that differ in such a window only never verify to the same
  value.\<close>

theorem crc32_detects_bursts:
  assumes "length e = length e'" "length e \<le> 4" "e \<noteq> e'"
    and "off + 4 \<le> length pre \<or> length pre + length e \<le> off"
    and "off + 4 \<le> length (pre @ e @ post)" "length (pre @ e @ post) < 2 ^ 63"
  shows "crc32_verify (pre @ e @ post) off 4 \<noteq> crc32_verify (pre @ e' @ post) off 4"
proof -
  obtain p q where z: "zeroed (pre @ e @ post) off 4 = p @ e @ q"
    and z': "\<And>f. length f = length e \<Longrightarrow> zeroed (pre @ f @ post) off 4 = p @ f @ q"
    using zeroed_outside [of off 4 pre e post] assms(4,5) by (metis append.assoc add.assoc length_append)
  have poly: "bit (0xEDB88320 :: u32) 31" by simp
  have "crc32_verify (pre @ e @ post) off 4 = Some (raw_crc32 (p @ e @ q) 0xEDB88320)"
    using assms(5,6) z by (simp add: crc32.verify_law field_in_bounds_iff crc32.skip_is_zeroed)
  moreover have "crc32_verify (pre @ e' @ post) off 4 = Some (raw_crc32 (p @ e' @ q) 0xEDB88320)"
    using assms(1,5,6) z' [of e'] by (simp add: crc32.verify_law field_in_bounds_iff crc32.skip_is_zeroed)
  ultimately show ?thesis
    using crc_detects_burst [OF poly assms(1-3)] by simp
qed

lemma crc32_detects_bursts_witness:
  "crc32_verify ([9] @ [1, 2] @ [0, 0, 0, 0]) 3 4 \<noteq> crc32_verify ([9] @ [1, 3] @ [0, 0, 0, 0]) 3 4"
  by (rule crc32_detects_bursts) simp_all

text \<open>Fletcher-16 is the pair of sums it is meant to be: the low byte is the sum of the bytes
  modulo 255, the high byte the position-weighted sum modulo 255, for a message of any length,
  so the 16-bit additions of the loop never wrap.\<close>

theorem fletcher16_value:
  "unat (raw_fletcher16 d) = 256 * (weighted_sum d mod 255) + byte_sum d mod 255"
proof -
  let ?s = "foldl fletcher_step (0, 0) d"
  have f: "unat (fst ?s) = byte_sum d mod 255" "unat (snd ?s) = weighted_sum d mod 255"
    using fletcher_fold [of "(0, 0)" d] by simp_all
  then have "unat (fst ?s) < 256" "unat (snd ?s) < 256"
    using mod_less_divisor [of 255 "byte_sum d"] mod_less_divisor [of 255 "weighted_sum d"] by linarith+
  then show ?thesis using f by (simp add: raw_fletcher16_def unat_fletcher_out)
qed

end
