(* ===== verification/Ast.thy ===== *)
theory Ast
  imports Prelude
begin

text \<open>
  The abstract syntax of \<open>crates/wirespec-syntax/src/ast.rs\<close> and the spans of \<open>span.rs\<close>.
  An \<open>i64\<close> is an \<open>int\<close> (the lexer only produces values of its range), a \<open>String\<close> is the list
  of its UTF-8 bytes, \<open>Box\<close> disappears. Structs are records whose fields carry a prefix
  for their type; the mutually recursive structs are single-constructor datatypes.
\<close>

section \<open>Spans\<close>

record span =
  offset :: u32
  len :: u32

definition span_end :: "span \<Rightarrow> u32" where
  "span_end s = offset s + len s"

definition merge :: "span \<Rightarrow> span \<Rightarrow> span" where
  "merge s t =
     (let start = min (offset s) (offset t);
          stop = max (span_end s) (span_end t)
      in \<lparr>offset = start, len = stop - start\<rparr>)"

text \<open>A span that ends before \<open>2 ^ 32\<close>, as every span of a source file below 4 GiB does.\<close>

definition span_ok :: "span \<Rightarrow> bool" where
  "span_ok s \<longleftrightarrow> unat (offset s) + unat (len s) < 2 ^ 32"

lemma unat_span_end: "span_ok s \<Longrightarrow> unat (span_end s) = unat (offset s) + unat (len s)"
  by (simp add: span_ok_def span_end_def unat_word_ariths)

lemma unat_min: "unat (min a b) = min (unat a) (unat (b :: 'a::len word))"
  by (simp add: min_def word_le_nat_alt)

lemma unat_max: "unat (max a b) = max (unat a) (unat (b :: 'a::len word))"
  by (simp add: max_def word_le_nat_alt)

lemma merge_covers:
  assumes "span_ok s" "span_ok t"
  shows "span_ok (merge s t) \<and> unat (offset (merge s t)) = min (unat (offset s)) (unat (offset t))
    \<and> unat (span_end (merge s t)) = max (unat (span_end s)) (unat (span_end t))"
proof -
  let ?a = "min (offset s) (offset t)" and ?b = "max (span_end s) (span_end t)"
  have "?a \<le> ?b"
    using assms by (simp add: word_le_nat_alt unat_min unat_max unat_span_end)
  then have d: "unat (?b - ?a) = unat ?b - unat ?a" by (rule unat_sub)
  have le: "unat ?a \<le> unat ?b" using \<open>?a \<le> ?b\<close> by (simp add: word_le_nat_alt)
  have b: "unat ?b < 2 ^ 32" using unat_bound [of ?b] by simp
  have ok: "span_ok (merge s t)" using le b by (simp add: span_ok_def merge_def Let_def d)
  moreover have "unat (span_end (merge s t)) = unat ?b"
    using le by (simp add: unat_span_end [OF ok]) (simp add: merge_def Let_def d)
  ultimately show ?thesis by (simp add: merge_def Let_def unat_min unat_max)
qed

section \<open>Expressions\<close>

datatype binop = Add | Sub | Mul | Div | Mod | BitAnd | BitOr | BitXor | Shl | Shr
  | Eq | Ne | Lt | Le | Gt | Ge | And | Or

datatype unaryop = Not | Neg

datatype ast_literal_value = LInt int | LBool bool | LString string | LNull

datatype ast_expr =
    EInt int "span option"
  | EBool bool "span option"
  | ENull "span option"
  | ENameRef string "span option"
  | EMemberAccess ast_expr string "span option"
  | EBinary binop ast_expr ast_expr "span option"
  | EUnary unaryop ast_expr "span option"
  | ECoalesce ast_expr ast_expr "span option"
  | EInState ast_expr string "span option"
  | ESubscript ast_expr ast_expr "span option"
  | EStateConstructor string string "ast_expr list" "span option"
  | EFill ast_expr ast_expr "span option"
  | ESlice ast_expr ast_expr ast_expr "span option"
  | EAll ast_expr string "span option"

section \<open>Module header and annotations\<close>

record ast_module_decl =
  md_name :: string
  md_span :: "span option"

record ast_import =
  im_module :: string
  im_name :: "string option"
  im_span :: "span option"

datatype ast_annotation_arg =
    AIdentifier string
  | AInt int
  | ABool bool
  | AString string
  | ANamedValue string ast_literal_value

record ast_annotation =
  an_name :: string
  an_args :: "ast_annotation_arg list"
  an_span :: "span option"

section \<open>Types\<close>

datatype asn1_length = LenExpr ast_expr | LenRemaining

datatype ast_bytes_kind = BFixed | BLength | BRemaining | BLengthOrRemaining

datatype ast_array_count = CountExpr ast_expr | CountFill

datatype ast_pattern =
    PValue int "span option"
  | PRangeInclusive int int "span option"
  | PWildcard "span option"

datatype ast_type_expr =
    TNamed string "span option"
  | TBits u16 "span option"
  | TMatch string "ast_match_branch list" "span option"
  | TBytes ast_bytes_kind "u64 option" "ast_expr option" "span option"
  | TArray ast_type_expr ast_array_count "ast_expr option" "span option"
  | TOptional ast_expr ast_type_expr "span option"
  | TAsn1 string string asn1_length "span option"
and ast_match_branch = MatchBranch ast_pattern ast_type_expr "span option"

section \<open>Fields\<close>

record ast_field_def =
  fd_name :: string
  fd_type_expr :: ast_type_expr
  fd_annotations :: "ast_annotation list"
  fd_span :: "span option"

record ast_derived_field =
  df_name :: string
  df_type_name :: string
  df_expr :: ast_expr
  df_span :: "span option"

record ast_require_clause =
  rq_expr :: ast_expr
  rq_span :: "span option"

datatype ast_field_item =
    FField ast_field_def
  | FDerived ast_derived_field
  | FRequire ast_require_clause

section \<open>Top-level items\<close>

record ast_extern_asn1 =
  ex_path :: string
  ex_rust_module :: "string option"
  ex_type_names :: "string list"
  ex_span :: "span option"

record ast_const_decl =
  co_name :: string
  co_type_name :: string
  co_value :: ast_literal_value
  co_annotations :: "ast_annotation list"
  co_exported :: bool
  co_span :: "span option"

record ast_enum_member =
  em_name :: string
  em_value :: int
  em_span :: "span option"

record ast_enum_decl =
  en_name :: string
  en_underlying_type :: string
  en_members :: "ast_enum_member list"
  en_annotations :: "ast_annotation list"
  en_exported :: bool
  en_span :: "span option"

record ast_flags_decl =
  fl_name :: string
  fl_underlying_type :: string
  fl_members :: "ast_enum_member list"
  fl_annotations :: "ast_annotation list"
  fl_exported :: bool
  fl_span :: "span option"

record ast_static_assert_decl =
  sa_expr :: ast_expr
  sa_span :: "span option"

datatype ast_type_decl_body =
    BodyFields "ast_field_def list"
  | BodyAlias ast_type_expr

record ast_type_decl =
  ty_name :: string
  ty_annotations :: "ast_annotation list"
  ty_body :: ast_type_decl_body
  ty_exported :: bool
  ty_span :: "span option"

record ast_packet_decl =
  pk_name :: string
  pk_fields :: "ast_field_item list"
  pk_annotations :: "ast_annotation list"
  pk_exported :: bool
  pk_span :: "span option"

record ast_frame_branch =
  fb_pattern :: ast_pattern
  fb_variant_name :: string
  fb_fields :: "ast_field_item list"
  fb_span :: "span option"

record ast_frame_decl =
  fr_name :: string
  fr_tag_field :: string
  fr_tag_type :: string
  fr_branches :: "ast_frame_branch list"
  fr_annotations :: "ast_annotation list"
  fr_exported :: bool
  fr_span :: "span option"

datatype ast_payload_tag_selector = TagField string | TagExpr ast_expr

record ast_capsule_decl =
  ca_name :: string
  ca_fields :: "ast_field_item list"
  ca_payload_tag :: ast_payload_tag_selector
  ca_payload_within :: string
  ca_branches :: "ast_frame_branch list"
  ca_annotations :: "ast_annotation list"
  ca_exported :: bool
  ca_span :: "span option"

record ast_continuation_varint_decl =
  cv_name :: string
  cv_annotations :: "ast_annotation list"
  cv_continuation_bit :: string
  cv_value_bits :: u8
  cv_max_bytes :: u8
  cv_byte_order :: string
  cv_exported :: bool
  cv_span :: "span option"

section \<open>State machines\<close>

datatype ast_verify_formula =
    VInState string
  | VNot ast_verify_formula
  | VAnd ast_verify_formula ast_verify_formula
  | VOr ast_verify_formula ast_verify_formula
  | VImplies ast_verify_formula ast_verify_formula
  | VAlways ast_verify_formula
  | VEventually ast_verify_formula
  | VLeadsTo ast_verify_formula ast_verify_formula
  | VCompare ast_verify_formula string ast_verify_formula
  | VFieldRef "string list"
  | VLiteral ast_literal_value

datatype ast_verify_decl =
    VBuiltIn string "span option"
  | VProperty string ast_verify_formula "span option"

record ast_state_field_def =
  sd_name :: string
  sd_type_expr :: ast_type_expr
  sd_default_value :: "ast_literal_value option"
  sd_span :: "span option"

record ast_state_decl =
  st_name :: string
  st_fields :: "ast_state_field_def list"
  st_is_terminal :: bool
  st_span :: "span option"

record ast_event_param =
  ep_name :: string
  ep_type_expr :: ast_type_expr
  ep_span :: "span option"

record ast_event_decl =
  ev_name :: string
  ev_params :: "ast_event_param list"
  ev_span :: "span option"

record ast_assignment =
  as_target :: ast_expr
  as_op :: string
  as_value :: ast_expr
  as_span :: "span option"

record ast_delegate_clause =
  dg_target :: ast_expr
  dg_event_name :: string
  dg_span :: "span option"

record ast_transition_decl =
  tr_src_state :: string
  tr_dst_state :: string
  tr_events :: "ast_event_decl list"
  tr_guard :: "ast_expr option"
  tr_actions :: "ast_assignment list"
  tr_delegate :: "ast_delegate_clause option"
  tr_span :: "span option"

record ast_state_machine_decl =
  sm_name :: string
  sm_states :: "ast_state_decl list"
  sm_initial_state :: string
  sm_transitions :: "ast_transition_decl list"
  sm_verify_declarations :: "ast_verify_decl list"
  sm_annotations :: "ast_annotation list"
  sm_exported :: bool
  sm_span :: "span option"

datatype ast_top_item =
    IConst ast_const_decl
  | IEnum ast_enum_decl
  | IFlags ast_flags_decl
  | IStaticAssert ast_static_assert_decl
  | IType ast_type_decl
  | IPacket ast_packet_decl
  | IFrame ast_frame_decl
  | ICapsule ast_capsule_decl
  | IContinuationVarInt ast_continuation_varint_decl
  | IStateMachine ast_state_machine_decl
  | IExternAsn1 ast_extern_asn1

record ast_module =
  mo_module_decl :: "ast_module_decl option"
  mo_imports :: "ast_import list"
  mo_annotations :: "ast_annotation list"
  mo_items :: "ast_top_item list"
  mo_span :: "span option"

end
