(* ===== verification/SemaTypes.thy ===== *)
theory SemaTypes
  imports Ast
begin

text \<open>
  The semantic data model of \<open>crates/wirespec-sema\<close>: resolved types (\<open>types.rs\<close>), resolved
  expressions (\<open>expr.rs\<close>), the semantic IR (\<open>ir.rs\<close>), the checksum catalogue
  (\<open>checksum_catalog.rs\<close>) and the compliance profiles (\<open>profile.rs\<close>).
\<close>

section \<open>Expressions (expr.rs)\<close>

datatype value_ref_kind = KField | KDerived | KConst | KStateField

record value_ref =
  vr_value_id :: string
  vr_kind :: value_ref_kind

datatype transition_peer_kind = Src | Dst | EventParam

record transition_peer_ref =
  pr_peer :: transition_peer_kind
  pr_event_param_id :: "string option"
  pr_path :: "string list"

datatype semantic_literal = SLInt int | SLBool bool | SLString string | SLNull

datatype semantic_expr =
    SLiteral semantic_literal
  | SValueRef value_ref
  | STransitionPeerRef transition_peer_ref
  | SBinary string semantic_expr semantic_expr
  | SUnary string semantic_expr
  | SCoalesce semantic_expr semantic_expr
  | SInState semantic_expr string string string string
  | SSubscript semantic_expr semantic_expr
  | SStateConstructor string string string string "semantic_expr list"
  | SFill semantic_expr semantic_expr
  | SSlice semantic_expr semantic_expr semantic_expr
  | SAll semantic_expr string string string string

section \<open>Types (types.rs)\<close>

datatype endianness = Big | Little

datatype primitive_wire_type = U8 | U16 | U24 | U32 | U64 | I8 | I16 | I32 | I64 | Bool | Bit

fun byte_width :: "primitive_wire_type \<Rightarrow> u8" where
  "byte_width U8 = 1" | "byte_width I8 = 1"
| "byte_width U16 = 2" | "byte_width I16 = 2"
| "byte_width U24 = 3"
| "byte_width U32 = 4" | "byte_width I32 = 4"
| "byte_width U64 = 8" | "byte_width I64 = 8"
| "byte_width Bool = 0" | "byte_width Bit = 0"

definition wire_is_integer_like :: "primitive_wire_type \<Rightarrow> bool" where
  "wire_is_integer_like w \<longleftrightarrow> w \<in> {U8, U16, U24, U32, U64, I8, I16, I32, I64}"

datatype semantic_bytes_kind = SBFixed | SBLength | SBRemaining | SBLengthOrRemaining

datatype semantic_type =
    Primitive primitive_wire_type "endianness option"
  | Bits u16
  | VarIntRef string string
  | Bytes semantic_bytes_kind "u64 option" "semantic_expr option"
  | Array semantic_type "semantic_expr option" "semantic_expr option"
  | PacketRef string string
  | EnumRef string string bool
  | FrameRef string string
  | CapsuleRef string string

fun is_integer_like :: "semantic_type \<Rightarrow> bool" where
  "is_integer_like (Primitive wire e) = wire_is_integer_like wire"
| "is_integer_like (VarIntRef i n) = True"
| "is_integer_like (Bits w) = True"
| "is_integer_like (EnumRef i n f) = True"
| "is_integer_like _ = False"

datatype field_presence = Always | Conditional semantic_expr

datatype derive_trait = Debug | Compare

record asn1_extern_decl =
  ae_path :: string
  ae_rust_module :: "string option"
  ae_type_names :: "string list"
  ae_span :: "span option"

record asn1_hint =
  ah_type_name :: string
  ah_encoding :: string
  ah_extern_path :: string
  ah_rust_module :: "string option"

section \<open>Semantic IR (ir.rs)\<close>

datatype sema_warning_kind = SmUnreachableTerminal | SmUnreachableFromInitial

record sema_warning =
  wn_kind :: sema_warning_kind
  wn_msg :: string
  wn_span :: "span option"

datatype imported_decl_kind = DkVarInt | DkEnum | DkFlags | DkPacket | DkFrame | DkCapsule

record imported_type_ref =
  ir_import_id :: string
  ir_name :: string
  ir_source_module :: string
  ir_source_prefix :: string
  ir_decl_kind :: imported_decl_kind

datatype varint_encoding = PrefixMatch | ContinuationBit

record semantic_varint_branch =
  vb_prefix_value :: u64
  vb_prefix_bits :: u8
  vb_value_bits :: u8
  vb_total_bytes :: u8
  vb_max_value :: u64
  vb_prefix_mask :: u64

record semantic_varint =
  vi_varint_id :: string
  vi_name :: string
  vi_encoding :: varint_encoding
  vi_prefix_bits :: "u8 option"
  vi_branches :: "semantic_varint_branch list"
  vi_value_bits_per_byte :: "u8 option"
  vi_max_bytes :: u8
  vi_byte_order :: endianness
  vi_strict :: bool
  vi_span :: "span option"

record semantic_const =
  sc_const_id :: string
  sc_name :: string
  sc_ty :: semantic_type
  sc_value :: semantic_literal
  sc_span :: "span option"

record semantic_enum_member =
  sm_member_id :: string
  sm_member_name :: string
  sm_member_value :: int
  sm_member_span :: "span option"

record semantic_enum =
  se_enum_id :: string
  se_name :: string
  se_underlying_type :: semantic_type
  se_is_flags :: bool
  se_derive_traits :: "derive_trait list"
  se_members :: "semantic_enum_member list"
  se_span :: "span option"

datatype semantic_scope_item = ItField string | ItDerived string | ItRequire string

record semantic_field =
  sf_field_id :: string
  sf_name :: string
  sf_ty :: semantic_type
  sf_presence :: field_presence
  sf_max_elements :: "u32 option"
  sf_checksum_algorithm :: "string option"
  sf_asn1_hint :: "asn1_hint option"
  sf_span :: "span option"

record semantic_derived =
  sd_derived_id :: string
  sd_derived_name :: string
  sd_ty :: semantic_type
  sd_expr :: semantic_expr
  sd_derived_span :: "span option"

record semantic_require =
  sr_require_id :: string
  sr_expr :: semantic_expr
  sr_span :: "span option"

record semantic_packet =
  sp_packet_id :: string
  sp_name :: string
  sp_derive_traits :: "derive_trait list"
  sp_fields :: "semantic_field list"
  sp_derived :: "semantic_derived list"
  sp_requires :: "semantic_require list"
  sp_items :: "semantic_scope_item list"
  sp_span :: "span option"

datatype semantic_pattern = SPExact int | SPRangeInclusive int int | SPWildcard

datatype variant_owner = OwnerFrame string | OwnerCapsulePayload string

record semantic_variant_scope =
  sv_scope_id :: string
  sv_owner :: variant_owner
  sv_variant_name :: string
  sv_ordinal :: u32
  sv_pattern :: semantic_pattern
  sv_fields :: "semantic_field list"
  sv_derived :: "semantic_derived list"
  sv_requires :: "semantic_require list"
  sv_items :: "semantic_scope_item list"
  sv_span :: "span option"

record semantic_frame =
  sfr_frame_id :: string
  sfr_name :: string
  sfr_derive_traits :: "derive_trait list"
  sfr_tag_name :: string
  sfr_tag_type :: semantic_type
  sfr_variants :: "semantic_variant_scope list"
  sfr_span :: "span option"

datatype capsule_tag_selector = SelField string string | SelExpr semantic_expr

record semantic_capsule =
  sca_capsule_id :: string
  sca_name :: string
  sca_derive_traits :: "derive_trait list"
  sca_tag_type :: semantic_type
  sca_tag_selector :: capsule_tag_selector
  sca_within_field_id :: string
  sca_within_field_name :: string
  sca_header_fields :: "semantic_field list"
  sca_header_derived :: "semantic_derived list"
  sca_header_requires :: "semantic_require list"
  sca_header_items :: "semantic_scope_item list"
  sca_variants :: "semantic_variant_scope list"
  sca_span :: "span option"

record semantic_static_assert =
  ssa_assert_id :: string
  ssa_expr :: semantic_expr
  ssa_span :: "span option"

datatype semantic_verify_formula =
    SVInState string
  | SVNot semantic_verify_formula
  | SVAnd semantic_verify_formula semantic_verify_formula
  | SVOr semantic_verify_formula semantic_verify_formula
  | SVImplies semantic_verify_formula semantic_verify_formula
  | SVAlways semantic_verify_formula
  | SVEventually semantic_verify_formula
  | SVLeadsTo semantic_verify_formula semantic_verify_formula
  | SVFieldRef string
  | SVLiteral int
  | SVBoolLiteral bool
  | SVCompare semantic_verify_formula string semantic_verify_formula

datatype semantic_verify_decl =
    NoDeadlock
  | AllReachClosed
  | Property string semantic_verify_formula

record semantic_state_field =
  stf_field_id :: string
  stf_name :: string
  stf_ty :: semantic_type
  stf_default_value :: "semantic_literal option"
  stf_child_sm_id :: "string option"
  stf_child_sm_name :: "string option"
  stf_span :: "span option"

record semantic_state =
  sst_state_id :: string
  sst_name :: string
  sst_fields :: "semantic_state_field list"
  sst_is_terminal :: bool
  sst_span :: "span option"

record semantic_event_param =
  sep_param_id :: string
  sep_name :: string
  sep_ty :: semantic_type
  sep_span :: "span option"

record semantic_event =
  sev_event_id :: string
  sev_name :: string
  sev_params :: "semantic_event_param list"
  sev_span :: "span option"

record semantic_action =
  sac_action_id :: string
  sac_target :: semantic_expr
  sac_op :: string
  sac_value :: semantic_expr
  sac_span :: "span option"

record semantic_delegate =
  sdg_target :: semantic_expr
  sdg_event_id :: string
  sdg_event_name :: string
  sdg_span :: "span option"

record semantic_transition =
  str_transition_id :: string
  str_src_state_id :: string
  str_src_state_name :: string
  str_dst_state_id :: string
  str_dst_state_name :: string
  str_event_id :: string
  str_event_name :: string
  str_guard :: "semantic_expr option"
  str_actions :: "semantic_action list"
  str_delegate :: "semantic_delegate option"
  str_span :: "span option"

record semantic_state_machine =
  ssm_sm_id :: string
  ssm_name :: string
  ssm_derive_traits :: "derive_trait list"
  ssm_states :: "semantic_state list"
  ssm_events :: "semantic_event list"
  ssm_initial_state_id :: string
  ssm_transitions :: "semantic_transition list"
  ssm_has_child_state_changed :: bool
  ssm_verify_bound :: "u32 option"
  ssm_verify_declarations :: "semantic_verify_decl list"
  ssm_span :: "span option"

record semantic_module =
  sem_schema_version :: string
  sem_compliance_profile :: string
  sem_module_name :: string
  sem_module_endianness :: endianness
  sem_imports :: "imported_type_ref list"
  sem_varints :: "semantic_varint list"
  sem_consts :: "semantic_const list"
  sem_enums :: "semantic_enum list"
  sem_packets :: "semantic_packet list"
  sem_frames :: "semantic_frame list"
  sem_capsules :: "semantic_capsule list"
  sem_state_machines :: "semantic_state_machine list"
  sem_static_asserts :: "semantic_static_assert list"
  sem_asn1_externs :: "asn1_extern_decl list"
  sem_item_order :: "string list"
  sem_warnings :: "sema_warning list"

section \<open>Checksum catalogue and compliance profiles\<close>

datatype checksum_verify_mode = ZeroSum | RecomputeCompare

datatype checksum_input_model = ZeroSumWholeScope | RecomputeWithSkippedField

record checksum_algorithm_spec =
  ck_id :: string
  ck_required_field_type :: string
  ck_field_width_bytes :: u8
  ck_verify_mode :: checksum_verify_mode
  ck_input_model :: checksum_input_model
  ck_min_profile :: string

definition CATALOG :: "checksum_algorithm_spec list" where
  "CATALOG =
     [\<lparr>ck_id = ''internet'', ck_required_field_type = ''u16'', ck_field_width_bytes = 2,
       ck_verify_mode = ZeroSum, ck_input_model = ZeroSumWholeScope,
       ck_min_profile = ''phase2_strict_v1_0''\<rparr>,
      \<lparr>ck_id = ''crc32'', ck_required_field_type = ''u32'', ck_field_width_bytes = 4,
       ck_verify_mode = RecomputeCompare, ck_input_model = RecomputeWithSkippedField,
       ck_min_profile = ''phase2_strict_v1_0''\<rparr>,
      \<lparr>ck_id = ''crc32c'', ck_required_field_type = ''u32'', ck_field_width_bytes = 4,
       ck_verify_mode = RecomputeCompare, ck_input_model = RecomputeWithSkippedField,
       ck_min_profile = ''phase2_strict_v1_0''\<rparr>,
      \<lparr>ck_id = ''fletcher16'', ck_required_field_type = ''u16'', ck_field_width_bytes = 2,
       ck_verify_mode = RecomputeCompare, ck_input_model = RecomputeWithSkippedField,
       ck_min_profile = ''phase2_extended_current''\<rparr>]"

definition lookup_algorithm :: "string \<Rightarrow> checksum_algorithm_spec option" where
  "lookup_algorithm algorithm = List.find (\<lambda>s. ck_id s = algorithm) CATALOG"

definition profile_includes :: "string \<Rightarrow> string \<Rightarrow> bool" where
  "profile_includes active required \<longleftrightarrow>
     required = ''phase2_strict_v1_0'' \<or>
     active = ''phase2_extended_current'' \<and> required = ''phase2_extended_current''"

definition algorithms_for_profile :: "string \<Rightarrow> string list" where
  "algorithms_for_profile profile =
     map ck_id (filter (\<lambda>s. profile_includes profile (ck_min_profile s)) CATALOG)"

datatype compliance_profile = Phase2StrictV1_0 | Phase2ExtendedCurrent

fun profile_as_str :: "compliance_profile \<Rightarrow> string" where
  "profile_as_str Phase2StrictV1_0 = ''phase2_strict_v1_0''"
| "profile_as_str Phase2ExtendedCurrent = ''phase2_extended_current''"

definition allowed_checksum_algorithms :: "compliance_profile \<Rightarrow> string list" where
  "allowed_checksum_algorithms p = algorithms_for_profile (profile_as_str p)"

fun allows_capsule_checksum :: "compliance_profile \<Rightarrow> bool" where
  "allows_capsule_checksum Phase2StrictV1_0 = False"
| "allows_capsule_checksum Phase2ExtendedCurrent = True"

definition checksum_required_type :: "string \<Rightarrow> string option" where
  "checksum_required_type algorithm = map_option ck_required_field_type (lookup_algorithm algorithm)"

definition checksum_field_width :: "string \<Rightarrow> u8 option" where
  "checksum_field_width algorithm = map_option ck_field_width_bytes (lookup_algorithm algorithm)"

lemma allowed_strict:
  "allowed_checksum_algorithms Phase2StrictV1_0 = [''internet'', ''crc32'', ''crc32c'']"
  by code_simp

lemma allowed_extended:
  "allowed_checksum_algorithms Phase2ExtendedCurrent = [''internet'', ''crc32'', ''crc32c'', ''fletcher16'']"
  by code_simp

lemma lookup_algorithm_id: "lookup_algorithm a = Some s \<Longrightarrow> s \<in> set CATALOG \<and> ck_id s = a"
  unfolding lookup_algorithm_def by (drule find_eq_Some_in) simp

end
