(* ===== verification/Layout.thy ===== *)
theory Layout
  imports SemaTypes
begin

text \<open>
  The layout stage, \<open>crates/wirespec-layout/src\<close>: the layout IR (\<open>ir.rs\<close>), the grouping of
  consecutive bit fields (\<open>bitgroup.rs\<close>) and the lowering of a semantic module (\<open>lower.rs\<close>).
  Widths and offsets are 16-bit words, so additions and subtractions wrap as in a release build.
\<close>

section \<open>Layout IR\<close>

record layout_bitgroup_member_ref =
  mr_bitgroup_id :: string
  mr_offset_bits :: u16
  mr_width_bits :: u16

record layout_bitgroup_member =
  gm_field_id :: string
  gm_offset_bits :: u16
  gm_width_bits :: u16

record layout_bitgroup =
  bg_bitgroup_id :: string
  bg_scope_id :: string
  bg_total_bits :: u16
  bg_endianness :: endianness
  bg_members :: "layout_bitgroup_member list"

record layout_field =
  lf_field_id :: string
  lf_name :: string
  lf_ty :: semantic_type
  lf_presence :: field_presence
  lf_max_elements :: "u32 option"
  lf_checksum_algorithm :: "string option"
  lf_wire_width_bits :: "u16 option"
  lf_endianness :: "endianness option"
  lf_bitgroup_member :: "layout_bitgroup_member_ref option"
  lf_asn1_hint :: "asn1_hint option"
  lf_span :: "span option"

record layout_variant_scope =
  lv_scope_id :: string
  lv_owner :: variant_owner
  lv_variant_name :: string
  lv_ordinal :: u32
  lv_pattern :: semantic_pattern
  lv_fields :: "layout_field list"
  lv_derived :: "semantic_derived list"
  lv_requires :: "semantic_require list"
  lv_items :: "semantic_scope_item list"
  lv_bitgroups :: "layout_bitgroup list"
  lv_span :: "span option"

record layout_packet =
  lp_packet_id :: string
  lp_name :: string
  lp_derive_traits :: "derive_trait list"
  lp_fields :: "layout_field list"
  lp_derived :: "semantic_derived list"
  lp_requires :: "semantic_require list"
  lp_items :: "semantic_scope_item list"
  lp_bitgroups :: "layout_bitgroup list"
  lp_span :: "span option"

record layout_frame =
  lfr_frame_id :: string
  lfr_name :: string
  lfr_derive_traits :: "derive_trait list"
  lfr_tag_name :: string
  lfr_tag_type :: semantic_type
  lfr_tag_endianness :: "endianness option"
  lfr_variants :: "layout_variant_scope list"
  lfr_span :: "span option"

record layout_capsule =
  lca_capsule_id :: string
  lca_name :: string
  lca_derive_traits :: "derive_trait list"
  lca_tag_type :: semantic_type
  lca_tag_selector :: capsule_tag_selector
  lca_within_field_id :: string
  lca_within_field_name :: string
  lca_header_fields :: "layout_field list"
  lca_header_derived :: "semantic_derived list"
  lca_header_requires :: "semantic_require list"
  lca_header_items :: "semantic_scope_item list"
  lca_header_bitgroups :: "layout_bitgroup list"
  lca_variants :: "layout_variant_scope list"
  lca_span :: "span option"

record layout_module =
  lm_schema_version :: string
  lm_compliance_profile :: string
  lm_module_name :: string
  lm_module_endianness :: endianness
  lm_imports :: "imported_type_ref list"
  lm_varints :: "semantic_varint list"
  lm_consts :: "semantic_const list"
  lm_enums :: "semantic_enum list"
  lm_packets :: "layout_packet list"
  lm_frames :: "layout_frame list"
  lm_capsules :: "layout_capsule list"
  lm_state_machines :: "semantic_state_machine list"

section \<open>Bit groups\<close>

text \<open>The errors of the grouping; \<open>BgPanic\<close> is the \<open>expect\<close> on a missing width.\<close>

datatype bitgroup_error = BgError string | BgPanic

fun is_bit_field :: "layout_field \<Rightarrow> bool" where
  "is_bit_field f = (case lf_ty f of Bits w \<Rightarrow> True | Primitive Bit e \<Rightarrow> True | _ \<Rightarrow> False)"

declare is_bit_field.simps [simp del]

definition bitgroup_id :: "string \<Rightarrow> nat \<Rightarrow> string" where
  "bitgroup_id scope_id group_index = scope_id @ ''.bitgroup['' @ show_nat group_index @ '']''"

definition member_offset :: "endianness \<Rightarrow> u16 \<Rightarrow> u16 \<Rightarrow> u16 \<Rightarrow> u16" where
  "member_offset e total_bits cumulative width =
     (case e of Big \<Rightarrow> total_bits - cumulative - width | Little \<Rightarrow> cumulative)"

text \<open>The member loop of \<open>finalize_group\<close>: the members in field order, and the fields with
  their references set.\<close>

fun group_members :: "endianness \<Rightarrow> u16 \<Rightarrow> string \<Rightarrow> nat list \<Rightarrow> u16 \<Rightarrow> layout_field list
    \<Rightarrow> bitgroup_error + (layout_bitgroup_member list \<times> layout_field list)" where
  "group_members e total_bits bid [] cumulative flds = Inr ([], flds)"
| "group_members e total_bits bid (idx # indices) cumulative flds =
     (case lf_wire_width_bits (flds ! idx) of
        None \<Rightarrow> Inl BgPanic
      | Some width \<Rightarrow>
          (let off = member_offset e total_bits cumulative width;
               m = \<lparr>gm_field_id = lf_field_id (flds ! idx), gm_offset_bits = off, gm_width_bits = width\<rparr>;
               r = \<lparr>mr_bitgroup_id = bid, mr_offset_bits = off, mr_width_bits = width\<rparr>
           in rbind (group_members e total_bits bid indices (cumulative + width)
                      (flds[idx := (flds ! idx)\<lparr>lf_bitgroup_member := Some r\<rparr>]))
                (\<lambda>(ms, flds'). Inr (m # ms, flds'))))"

definition finalize_group :: "nat list \<Rightarrow> u16 \<Rightarrow> string \<Rightarrow> nat \<Rightarrow> endianness
    \<Rightarrow> layout_bitgroup list \<Rightarrow> layout_field list
    \<Rightarrow> bitgroup_error + (layout_bitgroup list \<times> layout_field list)" where
  "finalize_group indices total_bits scope_id group_index e groups flds =
     (if total_bits > 64
      then Inl (BgError (''bitgroup sums to '' @ show_nat (unat total_bits) @ '' bits, exceeds maximum 64''))
      else if total_bits mod 8 \<noteq> 0
      then Inl (BgError (''bitgroup sums to '' @ show_nat (unat total_bits) @ '' bits, must be multiple of 8''))
      else (let bid = bitgroup_id scope_id group_index
            in rbind (group_members e total_bits bid indices 0 flds)
                 (\<lambda>(members, flds').
                    Inr (groups @ [\<lparr>bg_bitgroup_id = bid, bg_scope_id = scope_id, bg_total_bits = total_bits,
                                    bg_endianness = e, bg_members = sort_key gm_offset_bits members\<rparr>],
                         flds'))))"

text \<open>The scan of \<open>detect_bitgroups\<close>, with its pending indices and their running width; the
  last equation is the trailing group.\<close>

fun detect_loop :: "string \<Rightarrow> endianness \<Rightarrow> (nat \<times> layout_field) list \<Rightarrow> nat list \<Rightarrow> u16
    \<Rightarrow> layout_bitgroup list \<Rightarrow> layout_field list
    \<Rightarrow> bitgroup_error + (layout_bitgroup list \<times> layout_field list)" where
  "detect_loop scope_id e [] indices bits groups flds =
     (if indices \<noteq> []
      then finalize_group indices bits scope_id (length groups) e groups flds
      else Inr (groups, flds))"
| "detect_loop scope_id e ((i, field) # rest) indices bits groups flds =
     (case (is_bit_field field, lf_wire_width_bits field) of
        (True, Some width) \<Rightarrow> detect_loop scope_id e rest (indices @ [i]) (bits + width) groups flds
      | _ \<Rightarrow>
          if indices \<noteq> []
          then rbind (finalize_group indices bits scope_id (length groups) e groups flds)
                 (\<lambda>(groups', flds'). detect_loop scope_id e rest [] 0 groups' flds')
          else detect_loop scope_id e rest [] bits groups flds)"

definition detect_bitgroups :: "layout_field list \<Rightarrow> string \<Rightarrow> endianness
    \<Rightarrow> bitgroup_error + (layout_bitgroup list \<times> layout_field list)" where
  "detect_bitgroups flds scope_id e = detect_loop scope_id e (enumerate 0 flds) [] 0 [] flds"

section \<open>Lowering (lower.rs)\<close>

fun compute_wire_width :: "semantic_type \<Rightarrow> u16 option" where
  "compute_wire_width (Primitive wire e) =
     (case wire of U8 \<Rightarrow> Some 8 | I8 \<Rightarrow> Some 8 | U16 \<Rightarrow> Some 16 | I16 \<Rightarrow> Some 16 | U24 \<Rightarrow> Some 24
      | U32 \<Rightarrow> Some 32 | I32 \<Rightarrow> Some 32 | U64 \<Rightarrow> Some 64 | I64 \<Rightarrow> Some 64 | Bit \<Rightarrow> Some 1
      | Bool \<Rightarrow> None)"
| "compute_wire_width (Bits width_bits) = Some width_bits"
| "compute_wire_width _ = None"

fun resolve_type_endianness :: "semantic_type \<Rightarrow> endianness \<Rightarrow> endianness option" where
  "resolve_type_endianness (Primitive wire endianness) m =
     (case endianness of
        Some e \<Rightarrow> Some e
      | None \<Rightarrow> if wire \<in> {U16, I16, U24, U32, I32, U64, I64} then Some m else None)"
| "resolve_type_endianness _ m = None"

definition resolve_field_endianness :: "semantic_type \<Rightarrow> endianness \<Rightarrow> endianness option" where
  "resolve_field_endianness ty m = resolve_type_endianness ty m"

definition lower_field :: "semantic_field \<Rightarrow> endianness \<Rightarrow> layout_field" where
  "lower_field f m =
     \<lparr>lf_field_id = sf_field_id f, lf_name = sf_name f, lf_ty = sf_ty f, lf_presence = sf_presence f,
      lf_max_elements = sf_max_elements f, lf_checksum_algorithm = sf_checksum_algorithm f,
      lf_wire_width_bits = compute_wire_width (sf_ty f),
      lf_endianness = resolve_field_endianness (sf_ty f) m,
      lf_bitgroup_member = None, lf_asn1_hint = sf_asn1_hint f, lf_span = sf_span f\<rparr>"

definition lower_fields :: "semantic_field list \<Rightarrow> endianness \<Rightarrow> layout_field list" where
  "lower_fields fs m = map (\<lambda>f. lower_field f m) fs"

text \<open>\<open>LayoutError\<close> carries the message of the bit-group error.\<close>

type_synonym layout_error = bitgroup_error

definition lower_variant_scope :: "semantic_variant_scope \<Rightarrow> endianness \<Rightarrow> layout_error + layout_variant_scope" where
  "lower_variant_scope v m =
     rbind (detect_bitgroups (lower_fields (sv_fields v) m) (sv_scope_id v) m)
       (\<lambda>(bitgroups, flds).
          Inr \<lparr>lv_scope_id = sv_scope_id v, lv_owner = sv_owner v, lv_variant_name = sv_variant_name v,
               lv_ordinal = sv_ordinal v, lv_pattern = sv_pattern v, lv_fields = flds,
               lv_derived = sv_derived v, lv_requires = sv_requires v, lv_items = sv_items v,
               lv_bitgroups = bitgroups, lv_span = sv_span v\<rparr>)"

definition lower_packet :: "semantic_packet \<Rightarrow> endianness \<Rightarrow> layout_error + layout_packet" where
  "lower_packet p m =
     rbind (detect_bitgroups (lower_fields (sp_fields p) m) (sp_packet_id p) m)
       (\<lambda>(bitgroups, flds).
          Inr \<lparr>lp_packet_id = sp_packet_id p, lp_name = sp_name p, lp_derive_traits = sp_derive_traits p,
               lp_fields = flds, lp_derived = sp_derived p, lp_requires = sp_requires p,
               lp_items = sp_items p, lp_bitgroups = bitgroups, lp_span = sp_span p\<rparr>)"

definition lower_frame :: "semantic_frame \<Rightarrow> endianness \<Rightarrow> layout_error + layout_frame" where
  "lower_frame f m =
     (let tag_endianness = resolve_type_endianness (sfr_tag_type f) m
      in rbind (try_map (\<lambda>v. lower_variant_scope v m) (sfr_variants f))
           (\<lambda>variants.
              Inr \<lparr>lfr_frame_id = sfr_frame_id f, lfr_name = sfr_name f, lfr_derive_traits = sfr_derive_traits f,
                   lfr_tag_name = sfr_tag_name f, lfr_tag_type = sfr_tag_type f,
                   lfr_tag_endianness = tag_endianness, lfr_variants = variants, lfr_span = sfr_span f\<rparr>))"

definition lower_capsule :: "semantic_capsule \<Rightarrow> endianness \<Rightarrow> layout_error + layout_capsule" where
  "lower_capsule c m =
     (let header_scope_id = sca_capsule_id c @ ''#header''
      in rbind (detect_bitgroups (lower_fields (sca_header_fields c) m) header_scope_id m)
           (\<lambda>(header_bitgroups, header_fields).
              rbind (try_map (\<lambda>v. lower_variant_scope v m) (sca_variants c))
                (\<lambda>variants.
                   Inr \<lparr>lca_capsule_id = sca_capsule_id c, lca_name = sca_name c,
                        lca_derive_traits = sca_derive_traits c, lca_tag_type = sca_tag_type c,
                        lca_tag_selector = sca_tag_selector c, lca_within_field_id = sca_within_field_id c,
                        lca_within_field_name = sca_within_field_name c, lca_header_fields = header_fields,
                        lca_header_derived = sca_header_derived c, lca_header_requires = sca_header_requires c,
                        lca_header_items = sca_header_items c, lca_header_bitgroups = header_bitgroups,
                        lca_variants = variants, lca_span = sca_span c\<rparr>)))"

definition lower_layout :: "semantic_module \<Rightarrow> layout_error + layout_module" where
  "lower_layout sem =
     rbind (try_map (\<lambda>p. lower_packet p (sem_module_endianness sem)) (sem_packets sem)) (\<lambda>packets.
     rbind (try_map (\<lambda>f. lower_frame f (sem_module_endianness sem)) (sem_frames sem)) (\<lambda>frames.
     rbind (try_map (\<lambda>c. lower_capsule c (sem_module_endianness sem)) (sem_capsules sem)) (\<lambda>capsules.
     Inr \<lparr>lm_schema_version = ''layout-ir/v1'', lm_compliance_profile = sem_compliance_profile sem,
          lm_module_name = sem_module_name sem, lm_module_endianness = sem_module_endianness sem,
          lm_imports = sem_imports sem, lm_varints = sem_varints sem, lm_consts = sem_consts sem,
          lm_enums = sem_enums sem, lm_packets = packets, lm_frames = frames, lm_capsules = capsules,
          lm_state_machines = sem_state_machines sem\<rparr>)))"

section \<open>The specification of bit grouping\<close>

text \<open>The width a field contributes to a group, and the maximal runs of consecutive bit fields,
  as lists of field indices.\<close>

definition bit_width :: "layout_field \<Rightarrow> u16 option" where
  "bit_width f = (if is_bit_field f then lf_wire_width_bits f else None)"

fun bit_runs :: "nat \<Rightarrow> nat list \<Rightarrow> layout_field list \<Rightarrow> nat list list" where
  "bit_runs i cur [] = (if cur = [] then [] else [cur])"
| "bit_runs i cur (f # fs) =
     (if bit_width f \<noteq> None then bit_runs (Suc i) (cur @ [i]) fs
      else if cur = [] then bit_runs (Suc i) [] fs
      else cur # bit_runs (Suc i) [] fs)"

definition run_bits :: "layout_field list \<Rightarrow> nat list \<Rightarrow> u16" where
  "run_bits flds run = (\<Sum>i\<leftarrow>run. the (lf_wire_width_bits (flds ! i)))"

definition run_ok :: "layout_field list \<Rightarrow> nat list \<Rightarrow> bool" where
  "run_ok flds run \<longleftrightarrow> run_bits flds run \<le> 64 \<and> run_bits flds run mod 8 = 0"

fun place :: "endianness \<Rightarrow> u16 \<Rightarrow> u16 \<Rightarrow> layout_field list \<Rightarrow> layout_bitgroup_member list" where
  "place e total_bits cum [] = []"
| "place e total_bits cum (f # fs) =
     (let w = the (lf_wire_width_bits f)
      in \<lparr>gm_field_id = lf_field_id f, gm_offset_bits = member_offset e total_bits cum w, gm_width_bits = w\<rparr>
         # place e total_bits (cum + w) fs)"

definition run_members :: "endianness \<Rightarrow> layout_field list \<Rightarrow> nat list \<Rightarrow> layout_bitgroup_member list" where
  "run_members e flds run = place e (run_bits flds run) 0 (map ((!) flds) run)"

definition group_of :: "layout_field list \<Rightarrow> string \<Rightarrow> endianness \<Rightarrow> nat \<times> nat list \<Rightarrow> layout_bitgroup" where
  "group_of flds scope_id e kr =
     \<lparr>bg_bitgroup_id = bitgroup_id scope_id (fst kr), bg_scope_id = scope_id,
      bg_total_bits = run_bits flds (snd kr), bg_endianness = e,
      bg_members = sort_key gm_offset_bits (run_members e flds (snd kr))\<rparr>"

text \<open>Two fields that differ in their group reference at most.\<close>

definition same_field :: "layout_field \<Rightarrow> layout_field \<Rightarrow> bool" where
  "same_field f g \<longleftrightarrow> f\<lparr>lf_bitgroup_member := None\<rparr> = g\<lparr>lf_bitgroup_member := None\<rparr>"

lemma same_fieldD: "same_field f g \<Longrightarrow> lf_wire_width_bits f = lf_wire_width_bits g \<and> lf_field_id f = lf_field_id g
    \<and> lf_ty f = lf_ty g"
  by (cases f, cases g) (simp add: same_field_def)

lemma same_field_refl [simp]: "same_field f f"
  by (simp add: same_field_def)

lemma same_field_upd [simp]: "same_field (f\<lparr>lf_bitgroup_member := x\<rparr>) g = same_field f g"
  by (simp add: same_field_def)

definition same_fields :: "layout_field list \<Rightarrow> layout_field list \<Rightarrow> bool" where
  "same_fields fs gs \<longleftrightarrow> list_all2 same_field fs gs"

lemma same_fields_nth: "same_fields fs gs \<Longrightarrow> i < length gs \<Longrightarrow> same_field (fs ! i) (gs ! i)"
  by (simp add: same_fields_def list_all2_conv_all_nth)

lemma same_fields_length: "same_fields fs gs \<Longrightarrow> length fs = length gs"
  by (simp add: same_fields_def list_all2_lengthD)

lemma same_fields_refl: "same_fields fs fs"
  by (simp add: same_fields_def list_all2_refl)

lemma same_fields_update:
  "same_fields fs gs \<Longrightarrow> same_fields (fs[i := (fs ! i)\<lparr>lf_bitgroup_member := x\<rparr>]) gs"
  by (cases "i < length fs")
    (auto simp: same_fields_def list_all2_conv_all_nth nth_list_update)

lemma length_place [simp]: "length (place e t c fs) = length fs"
  by (induction fs arbitrary: c) (simp_all add: Let_def)

lemma place_cong: "list_all2 same_field fs gs \<Longrightarrow> place e t c fs = place e t c gs"
  by (induction arbitrary: c rule: list_all2_induct) (simp_all add: Let_def same_fieldD)

text \<open>What the member loop does to valid, distinct indices.\<close>

lemma group_members_eq:
  assumes "same_fields flds flds0" "distinct run" "\<forall>i \<in> set run. i < length flds0 \<and> bit_width (flds0 ! i) \<noteq> None"
  shows "\<exists>flds'. group_members e t bid run c flds = Inr (place e t c (map ((!) flds0) run), flds')
    \<and> same_fields flds' flds0
    \<and> (\<forall>j. j \<notin> set run \<longrightarrow> flds' ! j = flds ! j)
    \<and> (\<forall>k < length run. lf_bitgroup_member (flds' ! (run ! k)) =
         Some \<lparr>mr_bitgroup_id = bid,
               mr_offset_bits = gm_offset_bits (place e t c (map ((!) flds0) run) ! k),
               mr_width_bits = gm_width_bits (place e t c (map ((!) flds0) run) ! k)\<rparr>)"
  using assms
proof (induction run arbitrary: c flds)
  case Nil
  then show ?case by simp
next
  case (Cons i run)
  have i: "i < length flds0" "bit_width (flds0 ! i) \<noteq> None" using Cons.prems(3) by auto
  have sf: "same_field (flds ! i) (flds0 ! i)" using Cons.prems(1) i by (simp add: same_fields_nth)
  obtain w where w: "lf_wire_width_bits (flds0 ! i) = Some w"
    using i(2) by (auto simp: bit_width_def split: if_splits)
  let ?r = "\<lparr>mr_bitgroup_id = bid, mr_offset_bits = member_offset e t c w, mr_width_bits = w\<rparr>"
  let ?f1 = "flds[i := (flds ! i)\<lparr>lf_bitgroup_member := Some ?r\<rparr>]"
  obtain flds' where ih: "group_members e t bid run (c + w) ?f1
        = Inr (place e t (c + w) (map ((!) flds0) run), flds')"
      "same_fields flds' flds0" "\<forall>j. j \<notin> set run \<longrightarrow> flds' ! j = ?f1 ! j"
      "\<forall>k < length run. lf_bitgroup_member (flds' ! (run ! k)) =
         Some \<lparr>mr_bitgroup_id = bid,
               mr_offset_bits = gm_offset_bits (place e t (c + w) (map ((!) flds0) run) ! k),
               mr_width_bits = gm_width_bits (place e t (c + w) (map ((!) flds0) run) ! k)\<rparr>"
    using Cons.IH [of ?f1 "c + w"] Cons.prems by (auto simp: same_fields_update)
  have "flds' ! i = ?f1 ! i" using ih(3) Cons.prems(2) by simp
  then have ref: "lf_bitgroup_member (flds' ! i) = Some ?r"
    using i same_fields_length [OF Cons.prems(1)] by simp
  have "group_members e t bid (i # run) c flds
      = Inr (place e t c (map ((!) flds0) (i # run)), flds')"
    using ih(1) w same_fieldD [OF sf] by (simp add: Let_def)
  moreover have "flds' ! j = flds ! j" if "j \<notin> set (i # run)" for j
    using that ih(3) by auto
  ultimately show ?case
    using ih(2,4) ref w by (auto simp: Let_def nth_Cons' less_Suc_eq_0_disj)
qed

section \<open>The scan is the grouping of the maximal runs\<close>

fun finalize_runs :: "layout_field list \<Rightarrow> string \<Rightarrow> endianness \<Rightarrow> nat list list
    \<Rightarrow> layout_bitgroup list \<Rightarrow> layout_field list
    \<Rightarrow> bitgroup_error + (layout_bitgroup list \<times> layout_field list)" where
  "finalize_runs flds0 scope_id e [] groups flds = Inr (groups, flds)"
| "finalize_runs flds0 scope_id e (r # rs) groups flds =
     rbind (finalize_group r (run_bits flds0 r) scope_id (length groups) e groups flds)
       (\<lambda>(groups', flds'). finalize_runs flds0 scope_id e rs groups' flds')"

lemma run_bits_snoc: "run_bits flds (run @ [i]) = run_bits flds run + the (lf_wire_width_bits (flds ! i))"
  by (simp add: run_bits_def)

lemma run_bits_Nil [simp]: "run_bits flds [] = 0"
  by (simp add: run_bits_def)

lemma bit_scrutinee:
  "(case is_bit_field f of True \<Rightarrow> (case lf_wire_width_bits f of None \<Rightarrow> b | Some w \<Rightarrow> a w) | False \<Rightarrow> b)
    = (case bit_width f of Some w \<Rightarrow> a w | None \<Rightarrow> b)"
  by (simp add: bit_width_def split: option.splits)

lemma rbind_pair_Inr [simp]: "rbind m (\<lambda>(x, y). Inr (x, y)) = m"
  by (cases m) auto

lemma bit_width_SomeD: "bit_width f = Some w \<Longrightarrow> lf_wire_width_bits f = Some w"
  by (simp add: bit_width_def split: if_splits)

lemma detect_loop_runs:
  assumes "\<And>j. j < length rest \<Longrightarrow> flds0 ! (i + j) = rest ! j"
  shows "detect_loop scope_id e (enumerate i rest) cur (run_bits flds0 cur) groups flds
    = finalize_runs flds0 scope_id e (bit_runs i cur rest) groups flds"
  using assms
proof (induction rest arbitrary: i cur groups flds)
  case Nil
  show ?case
    by (cases "finalize_group cur (run_bits flds0 cur) scope_id (length groups) e groups flds") auto
next
  case (Cons f rest)
  have f: "flds0 ! i = f" using Cons.prems [of 0] by simp
  have tl: "flds0 ! (Suc i + j) = rest ! j" if "j < length rest" for j
    using Cons.prems [of "Suc j"] that by simp
  note ih = Cons.IH [of "Suc i", OF tl]
  show ?case
  proof (cases "bit_width f")
    case None
    then show ?thesis using ih [of "[]"]
      by (cases "finalize_group cur (run_bits flds0 cur) scope_id (length groups) e groups flds")
        (auto simp: bit_scrutinee)
  next
    case (Some w)
    then have "run_bits flds0 (cur @ [i]) = run_bits flds0 cur + w"
      by (simp add: run_bits_snoc f bit_width_SomeD)
    with Some ih [of "cur @ [i]"] show ?thesis by (simp add: bit_scrutinee)
  qed
qed

lemma detect_bitgroups_runs:
  "detect_bitgroups flds scope_id e = finalize_runs flds scope_id e (bit_runs 0 [] flds) [] flds"
  using detect_loop_runs [of flds flds 0 scope_id e "[]"] by (simp add: detect_bitgroups_def)

text \<open>The runs hold each bit field once, in order.\<close>

lemma concat_bit_runs:
  "concat (bit_runs i cur fs) = cur @ filter (\<lambda>j. bit_width (fs ! (j - i)) \<noteq> None) [i ..< i + length fs]"
proof (induction fs arbitrary: i cur)
  case Nil
  then show ?case by simp
next
  case (Cons f fs)
  have "filter (\<lambda>j. bit_width ((f # fs) ! (j - i)) \<noteq> None) [Suc i ..< Suc i + length fs]
      = filter (\<lambda>j. bit_width (fs ! (j - Suc i)) \<noteq> None) [Suc i ..< Suc i + length fs]"
    by (rule filter_cong) (auto simp: nth_Cons' Suc_diff_le)
  then have "filter (\<lambda>j. bit_width ((f # fs) ! (j - i)) \<noteq> None) [i ..< i + length (f # fs)]
      = (if bit_width f \<noteq> None then [i] else [])
        @ filter (\<lambda>j. bit_width (fs ! (j - Suc i)) \<noteq> None) [Suc i ..< Suc i + length fs]"
    using upt_conv_Cons [of i "Suc i + length fs"] by (simp del: upt_Suc)
  then show ?case using Cons.IH by simp
qed

lemma concat_bit_runs_0: "concat (bit_runs 0 [] fs) = filter (\<lambda>j. bit_width (fs ! j) \<noteq> None) [0 ..< length fs]"
  using concat_bit_runs [of 0 "[]" fs] by simp

lemma run_indices:
  assumes "r \<in> set (bit_runs 0 [] fs)" "i \<in> set r"
  shows "i < length fs \<and> bit_width (fs ! i) \<noteq> None"
proof -
  have "i \<in> set (concat (bit_runs 0 [] fs))" using assms by auto
  then show ?thesis by (simp add: concat_bit_runs_0)
qed

lemma runs_distinct: "distinct (concat (bit_runs 0 [] fs))"
  by (simp add: concat_bit_runs_0)

lemma finalize_group_eq:
  assumes "same_fields flds flds0" "distinct r" "\<forall>i \<in> set r. i < length flds0 \<and> bit_width (flds0 ! i) \<noteq> None"
    and "run_ok flds0 r"
  shows "\<exists>flds'. finalize_group r (run_bits flds0 r) scope_id k e groups flds
      = Inr (groups @ [group_of flds0 scope_id e (k, r)], flds')
    \<and> same_fields flds' flds0
    \<and> (\<forall>j. j \<notin> set r \<longrightarrow> flds' ! j = flds ! j)
    \<and> (\<forall>n < length r. lf_bitgroup_member (flds' ! (r ! n)) =
         Some \<lparr>mr_bitgroup_id = bitgroup_id scope_id k,
               mr_offset_bits = gm_offset_bits (run_members e flds0 r ! n),
               mr_width_bits = gm_width_bits (run_members e flds0 r ! n)\<rparr>)"
proof -
  from group_members_eq [OF assms(1-3), of e "run_bits flds0 r" "bitgroup_id scope_id k" 0]
  obtain flds' where "group_members e (run_bits flds0 r) (bitgroup_id scope_id k) r 0 flds
      = Inr (run_members e flds0 r, flds')"
    and rest: "same_fields flds' flds0" "\<forall>j. j \<notin> set r \<longrightarrow> flds' ! j = flds ! j"
      "\<forall>n < length r. lf_bitgroup_member (flds' ! (r ! n)) =
         Some \<lparr>mr_bitgroup_id = bitgroup_id scope_id k,
               mr_offset_bits = gm_offset_bits (run_members e flds0 r ! n),
               mr_width_bits = gm_width_bits (run_members e flds0 r ! n)\<rparr>"
    by (auto simp: run_members_def)
  moreover have "\<not> run_bits flds0 r > 64" "run_bits flds0 r mod 8 = 0"
    using assms(4) by (auto simp: run_ok_def)
  ultimately show ?thesis by (auto simp: finalize_group_def group_of_def)
qed

lemma finalize_group_fails: "\<not> run_ok flds0 r \<Longrightarrow>
    \<exists>m. finalize_group r (run_bits flds0 r) scope_id k e groups flds = Inl (BgError m)"
  unfolding finalize_group_def run_ok_def not_le [symmetric]
  by (auto simp only: if_True if_False simp_thms split: if_split)

text \<open>The whole scan: it fails when a run does, and otherwise every run gives its group and the
  references of its members.\<close>

lemma finalize_runs_ok:
  assumes "same_fields flds flds0" "distinct (concat rs)"
    "\<forall>r \<in> set rs. run_ok flds0 r \<and> r \<noteq> [] \<and> (\<forall>i \<in> set r. i < length flds0 \<and> bit_width (flds0 ! i) \<noteq> None)"
  shows "\<exists>flds'. finalize_runs flds0 scope_id e rs groups flds
      = Inr (groups @ map (group_of flds0 scope_id e) (enumerate (length groups) rs), flds')
    \<and> same_fields flds' flds0
    \<and> (\<forall>j. j \<notin> set (concat rs) \<longrightarrow> flds' ! j = flds ! j)
    \<and> (\<forall>q < length rs. \<forall>n < length (rs ! q). lf_bitgroup_member (flds' ! (rs ! q ! n)) =
         Some \<lparr>mr_bitgroup_id = bitgroup_id scope_id (length groups + q),
               mr_offset_bits = gm_offset_bits (run_members e flds0 (rs ! q) ! n),
               mr_width_bits = gm_width_bits (run_members e flds0 (rs ! q) ! n)\<rparr>)"
  using assms
proof (induction rs arbitrary: groups flds)
  case Nil
  then show ?case by simp
next
  case (Cons r rs)
  let ?g = "groups @ [group_of flds0 scope_id e (length groups, r)]"
  obtain f1 where f1: "finalize_group r (run_bits flds0 r) scope_id (length groups) e groups flds = Inr (?g, f1)"
      "same_fields f1 flds0" "\<forall>j. j \<notin> set r \<longrightarrow> f1 ! j = flds ! j"
      "\<forall>n < length r. lf_bitgroup_member (f1 ! (r ! n)) =
         Some \<lparr>mr_bitgroup_id = bitgroup_id scope_id (length groups),
               mr_offset_bits = gm_offset_bits (run_members e flds0 r ! n),
               mr_width_bits = gm_width_bits (run_members e flds0 r ! n)\<rparr>"
    using finalize_group_eq [OF Cons.prems(1), of r scope_id "length groups" e groups] Cons.prems(2,3) by auto
  obtain f2 where f2: "finalize_runs flds0 scope_id e rs ?g f1
      = Inr (?g @ map (group_of flds0 scope_id e) (enumerate (length ?g) rs), f2)"
      "same_fields f2 flds0" "\<forall>j. j \<notin> set (concat rs) \<longrightarrow> f2 ! j = f1 ! j"
      "\<forall>q < length rs. \<forall>n < length (rs ! q). lf_bitgroup_member (f2 ! (rs ! q ! n)) =
         Some \<lparr>mr_bitgroup_id = bitgroup_id scope_id (length ?g + q),
               mr_offset_bits = gm_offset_bits (run_members e flds0 (rs ! q) ! n),
               mr_width_bits = gm_width_bits (run_members e flds0 (rs ! q) ! n)\<rparr>"
    using Cons.IH [OF f1(2), of ?g] Cons.prems(2,3) by auto
  have "f2 ! (r ! n) = f1 ! (r ! n)" if "n < length r" for n
    using f2(3) Cons.prems(2) nth_mem [OF that] by auto
  then have refs: "lf_bitgroup_member (f2 ! ((r # rs) ! q ! n)) =
         Some \<lparr>mr_bitgroup_id = bitgroup_id scope_id (length groups + q),
               mr_offset_bits = gm_offset_bits (run_members e flds0 ((r # rs) ! q) ! n),
               mr_width_bits = gm_width_bits (run_members e flds0 ((r # rs) ! q) ! n)\<rparr>"
    if "q < length (r # rs)" "n < length ((r # rs) ! q)" for q n
    using that f1(4) f2(4) by (cases q) auto
  have "finalize_runs flds0 scope_id e (r # rs) groups flds
      = Inr (groups @ map (group_of flds0 scope_id e) (enumerate (length groups) (r # rs)), f2)"
    using f1(1) f2(1) by simp
  moreover have "f2 ! j = flds ! j" if "j \<notin> set (concat (r # rs))" for j
    using that f1(3) f2(3) by auto
  ultimately show ?case using f2(2) refs by blast
qed

lemma finalize_runs_fails:
  assumes "same_fields flds flds0" "distinct (concat rs)"
    "\<forall>r \<in> set rs. \<forall>i \<in> set r. i < length flds0 \<and> bit_width (flds0 ! i) \<noteq> None"
    and "\<exists>r \<in> set rs. \<not> run_ok flds0 r"
  shows "\<exists>m. finalize_runs flds0 scope_id e rs groups flds = Inl (BgError m)"
  using assms
proof (induction rs arbitrary: groups flds)
  case Nil
  then show ?case by simp
next
  case (Cons r rs)
  show ?case
  proof (cases "run_ok flds0 r")
    case True
    obtain g1 f1 where "finalize_group r (run_bits flds0 r) scope_id (length groups) e groups flds = Inr (g1, f1)"
        "same_fields f1 flds0"
      using finalize_group_eq [OF Cons.prems(1), of r scope_id "length groups" e groups] Cons.prems(2,3) True by auto
    moreover have "\<exists>m. finalize_runs flds0 scope_id e rs g1 f1 = Inl (BgError m)"
      using Cons.IH [OF calculation(2)] Cons.prems True by auto
    ultimately show ?thesis by auto
  next
    case False
    then show ?thesis
      using finalize_group_fails [of flds0 r scope_id "length groups" e groups flds] by auto
  qed
qed

section \<open>Members tile their group\<close>

text \<open>A member covers the bits from its offset; a list of members tiles \<open>n\<close> bits when each of
  them lies in exactly one member, and no member reaches beyond.\<close>

definition covers :: "nat \<Rightarrow> layout_bitgroup_member \<Rightarrow> bool" where
  "covers p m \<longleftrightarrow> unat (gm_offset_bits m) \<le> p \<and> p < unat (gm_offset_bits m) + unat (gm_width_bits m)"

definition cover_count :: "nat \<Rightarrow> layout_bitgroup_member list \<Rightarrow> nat" where
  "cover_count p ms = length (filter (covers p) ms)"

definition tiles :: "layout_bitgroup_member list \<Rightarrow> nat \<Rightarrow> bool" where
  "tiles ms n \<longleftrightarrow> (\<forall>p. cover_count p ms = (if p < n then 1 else 0))"

definition width_nat :: "layout_field \<Rightarrow> nat" where
  "width_nat f = unat (the (lf_wire_width_bits f))"

definition run_total :: "layout_field list \<Rightarrow> nat list \<Rightarrow> nat" where
  "run_total flds run = (\<Sum>i\<leftarrow>run. width_nat (flds ! i))"

definition bits_total :: "layout_field list \<Rightarrow> nat" where
  "bits_total flds = (\<Sum>f\<leftarrow>flds. case bit_width f of Some w \<Rightarrow> unat w | None \<Rightarrow> 0)"

lemma unat_add_small: "unat a + unat b < 65536 \<Longrightarrow> unat (a + b :: u16) = unat a + unat b"
  by (simp add: unat_word_ariths)

lemma cover_count_simps [simp]: "cover_count p [] = 0"
    "cover_count p (m # ms) = (if covers p m then 1 else 0) + cover_count p ms"
  by (simp_all add: cover_count_def)

lemma covers_member: "covers p \<lparr>gm_field_id = i, gm_offset_bits = a, gm_width_bits = w\<rparr>
    \<longleftrightarrow> unat a \<le> p \<and> p < unat a + unat w"
  by (simp add: covers_def)

lemma place_little:
  "unat cum + (\<Sum>f\<leftarrow>fs. width_nat f) < 65536 \<Longrightarrow>
    cover_count p (place Little t cum fs)
      = (if unat cum \<le> p \<and> p < unat cum + (\<Sum>f\<leftarrow>fs. width_nat f) then 1 else 0)"
proof (induction fs arbitrary: cum)
  case Nil
  then show ?case by simp
next
  case (Cons f fs)
  let ?w = "the (lf_wire_width_bits f)"
  have c: "unat (cum + ?w) = unat cum + width_nat f"
    using Cons.prems by (simp add: width_nat_def unat_add_small)
  have "cover_count p (place Little t (cum + ?w) fs)
      = (if unat cum + width_nat f \<le> p \<and> p < unat cum + width_nat f + (\<Sum>f\<leftarrow>fs. width_nat f) then 1 else 0)"
    using Cons.IH [of "cum + ?w"] Cons.prems by (simp add: c)
  then show ?case
    by (simp add: Let_def covers_member member_offset_def flip: width_nat_def)
qed

lemma place_big:
  "unat cum + (\<Sum>f\<leftarrow>fs. width_nat f) \<le> unat t \<Longrightarrow>
    cover_count p (place Big t cum fs)
      = (if unat t - unat cum - (\<Sum>f\<leftarrow>fs. width_nat f) \<le> p \<and> p < unat t - unat cum then 1 else 0)"
proof (induction fs arbitrary: cum)
  case Nil
  then show ?case by simp
next
  case (Cons f fs)
  let ?w = "the (lf_wire_width_bits f)"
  have t: "unat t < 65536" using unat_bound [of t] by simp
  have c: "unat (cum + ?w) = unat cum + unat ?w"
    using Cons.prems t by (intro unat_add_small) (simp add: width_nat_def)
  have o1: "unat (t - cum) = unat t - unat cum"
    using Cons.prems by (intro unat_sub) (simp add: word_le_nat_alt)
  have o2: "unat (t - cum - ?w) = unat t - unat cum - unat ?w"
    using Cons.prems o1 unat_sub [of ?w "t - cum"] by (simp add: word_le_nat_alt width_nat_def)
  have "cover_count p (place Big t (cum + ?w) fs)
      = (if unat t - (unat cum + width_nat f) - (\<Sum>f\<leftarrow>fs. width_nat f) \<le> p
            \<and> p < unat t - (unat cum + width_nat f) then 1 else 0)"
    using Cons.IH [of "cum + ?w"] Cons.prems by (simp add: c flip: width_nat_def)
  then show ?case
    using Cons.prems by (simp add: Let_def covers_member member_offset_def o2 flip: width_nat_def) arith
qed

lemma unat_sum_list16: "(\<Sum>w\<leftarrow>ws. unat w) < 65536 \<Longrightarrow> unat (sum_list ws :: u16) = (\<Sum>w\<leftarrow>ws. unat w)"
  by (induction ws) (simp_all add: unat_add_small)

lemma unat_run_bits: "run_total flds r < 65536 \<Longrightarrow> unat (run_bits flds r) = run_total flds r"
  using unat_sum_list16 [of "map (\<lambda>i. the (lf_wire_width_bits (flds ! i))) r"]
  by (simp add: run_bits_def run_total_def width_nat_def o_def)

lemma run_members_tile:
  assumes "run_total flds r < 65536"
  shows "tiles (run_members e flds r) (run_total flds r)"
proof -
  have s: "(\<Sum>f\<leftarrow>map ((!) flds) r. width_nat f) = run_total flds r"
    by (simp add: run_total_def o_def)
  show ?thesis
    using place_little [of 0 "map ((!) flds) r" _ "run_bits flds r"]
      place_big [of 0 "map ((!) flds) r" "run_bits flds r"] unat_run_bits [OF assms] assms
    unfolding s tiles_def run_members_def by (cases e) auto
qed

lemma tiles_sort: "tiles (sort_key k ms) n = tiles ms n"
proof -
  have "length (filter P (sort_key k ms)) = length (filter P ms)" for P :: "layout_bitgroup_member \<Rightarrow> bool"
    by (simp add: filter_sort)
  then show ?thesis by (simp add: tiles_def cover_count_def)
qed

lemma bits_total_runs: "bits_total flds = (\<Sum>r\<leftarrow>bit_runs 0 [] flds. run_total flds r)"
proof -
  have "(\<Sum>r\<leftarrow>rs. run_total flds r) = (\<Sum>i\<leftarrow>concat rs. width_nat (flds ! i))" for rs
    by (induction rs) (simp_all add: run_total_def)
  then have "(\<Sum>r\<leftarrow>bit_runs 0 [] flds. run_total flds r)
      = (\<Sum>i\<leftarrow>filter (\<lambda>j. bit_width (flds ! j) \<noteq> None) [0 ..< length flds]. width_nat (flds ! i))"
    by (simp only: concat_bit_runs_0)
  also have "\<dots> = (\<Sum>i\<leftarrow>[0 ..< length flds]. case bit_width (flds ! i) of Some w \<Rightarrow> unat w | None \<Rightarrow> 0)"
  proof -
    have "(\<Sum>i\<leftarrow>filter (\<lambda>j. bit_width (flds ! j) \<noteq> None) js. width_nat (flds ! i))
        = (\<Sum>i\<leftarrow>js. case bit_width (flds ! i) of Some w \<Rightarrow> unat w | None \<Rightarrow> 0)" for js
      by (induction js) (auto simp: width_nat_def dest: bit_width_SomeD split: option.splits)
    then show ?thesis .
  qed
  also have "\<dots> = bits_total flds"
    unfolding bits_total_def by (metis (no_types, lifting) map_nth map_map o_def map_eq_conv)
  finally show ?thesis by simp
qed

lemma run_total_le: "r \<in> set (bit_runs 0 [] flds) \<Longrightarrow> run_total flds r \<le> bits_total flds"
  unfolding bits_total_runs by (rule member_le_sum_list) auto

lemma unat_numeral_8: "unat (8 :: u16) = 8"
  by simp

lemma run_ok_nat:
  assumes "run_total flds r < 65536"
  shows "run_ok flds r \<longleftrightarrow> run_total flds r \<le> 64 \<and> 8 dvd run_total flds r"
proof -
  have "run_bits flds r mod 8 = 0 \<longleftrightarrow> unat (run_bits flds r) mod 8 = 0"
    by (metis unat_mod unat_eq_zero unat_numeral_8)
  then show ?thesis
    using unat_run_bits [OF assms] by (simp add: run_ok_def word_le_nat_alt dvd_eq_mod_eq_0)
qed

lemma bit_runs_nonempty: "r \<in> set (bit_runs i cur fs) \<Longrightarrow> r \<noteq> []"
  by (induction fs arbitrary: i cur) (auto split: if_splits)

section \<open>Properties\<close>

text \<open>C0. Bit grouping fails, always with a message and never by the \<open>expect\<close> on a missing
  width, exactly when some maximal run of consecutive bit fields sums to more than 64 bits or to
  a number of bits that is not a multiple of 8, provided the widths together stay below
  \<open>2 ^ 16\<close>, where the 16-bit running sum cannot wrap.\<close>

theorem detect_bitgroups_fails_iff:
  assumes "bits_total flds < 65536"
  shows "((\<exists>m. detect_bitgroups flds scope_id e = Inl (BgError m)) \<longleftrightarrow>
      (\<exists>r \<in> set (bit_runs 0 [] flds). \<not> (run_total flds r \<le> 64 \<and> 8 dvd run_total flds r)))
    \<and> detect_bitgroups flds scope_id e \<noteq> Inl BgPanic"
proof -
  let ?rs = "bit_runs 0 [] flds"
  have small: "run_total flds r < 65536" if "r \<in> set ?rs" for r
    using run_total_le [OF that] assms by simp
  have idx: "\<forall>r \<in> set ?rs. \<forall>i \<in> set r. i < length flds \<and> bit_width (flds ! i) \<noteq> None"
    using run_indices by blast
  have bad: "(\<exists>r \<in> set ?rs. \<not> run_ok flds r) \<longleftrightarrow>
      (\<exists>r \<in> set ?rs. \<not> (run_total flds r \<le> 64 \<and> 8 dvd run_total flds r))"
    using run_ok_nat small by blast
  have "if \<exists>r \<in> set ?rs. \<not> run_ok flds r then \<exists>m. detect_bitgroups flds scope_id e = Inl (BgError m)
      else \<exists>v. detect_bitgroups flds scope_id e = Inr v"
  proof (cases "\<exists>r \<in> set ?rs. \<not> run_ok flds r")
    case True
    then show ?thesis
      using finalize_runs_fails [OF same_fields_refl runs_distinct idx True]
      by (simp add: detect_bitgroups_runs)
  next
    case False
    then have "\<forall>r \<in> set ?rs. run_ok flds r \<and> r \<noteq> [] \<and> (\<forall>i \<in> set r. i < length flds \<and> bit_width (flds ! i) \<noteq> None)"
      using idx bit_runs_nonempty by blast
    from finalize_runs_ok [OF same_fields_refl runs_distinct this] False show ?thesis
      unfolding detect_bitgroups_runs by (metis (lifting))
  qed
  then show ?thesis
    unfolding bad [symmetric] by (auto split: if_splits)
qed

text \<open>A bit field of the examples.\<close>

definition bits_field :: "string \<Rightarrow> u16 \<Rightarrow> layout_field" where
  "bits_field n w =
     lower_field \<lparr>sf_field_id = n, sf_name = n, sf_ty = Bits w, sf_presence = Always,
                  sf_max_elements = None, sf_checksum_algorithm = None, sf_asn1_hint = None,
                  sf_span = None\<rparr> Big"

lemma bits_field_simps [simp]:
  "lf_wire_width_bits (bits_field n w) = Some w" "bit_width (bits_field n w) = Some w"
  "is_bit_field (bits_field n w)"
  "lf_field_id (bits_field n w) = n" "lf_bitgroup_member (bits_field n w) = None"
  by (simp_all add: bits_field_def lower_field_def bit_width_def is_bit_field.simps)

lemma detect_bitgroups_fails_iff_witness:
  "\<exists>m. detect_bitgroups [bits_field ''a'' 4, bits_field ''b'' 5] ''p'' Big = Inl (BgError m)"
  using detect_bitgroups_fails_iff [of "[bits_field ''a'' 4, bits_field ''b'' 5]" "''p''" Big]
  by (simp add: bits_total_def run_total_def width_nat_def)

lemma detect_runs_result:
  assumes "bits_total flds < 65536" "detect_bitgroups flds scope_id e = Inr (groups, flds')"
  shows "groups = map (group_of flds scope_id e) (enumerate 0 (bit_runs 0 [] flds))"
    and "\<forall>r \<in> set (bit_runs 0 [] flds). run_ok flds r"
    and "same_fields flds' flds"
    and "\<forall>j. j \<notin> set (concat (bit_runs 0 [] flds)) \<longrightarrow> flds' ! j = flds ! j"
    and "\<forall>q < length (bit_runs 0 [] flds). \<forall>n < length (bit_runs 0 [] flds ! q).
      lf_bitgroup_member (flds' ! (bit_runs 0 [] flds ! q ! n)) =
         Some \<lparr>mr_bitgroup_id = bitgroup_id scope_id q,
               mr_offset_bits = gm_offset_bits (run_members e flds (bit_runs 0 [] flds ! q) ! n),
               mr_width_bits = gm_width_bits (run_members e flds (bit_runs 0 [] flds ! q) ! n)\<rparr>"
proof -
  let ?rs = "bit_runs 0 [] flds"
  have idx: "\<forall>r \<in> set ?rs. \<forall>i \<in> set r. i < length flds \<and> bit_width (flds ! i) \<noteq> None"
    using run_indices by blast
  show ok: "\<forall>r \<in> set ?rs. run_ok flds r"
  proof (rule ccontr)
    assume "\<not> ?thesis"
    then have "\<exists>r \<in> set ?rs. \<not> run_ok flds r" by blast
    from finalize_runs_fails [OF same_fields_refl runs_distinct idx this, of scope_id e "[]"] assms(2)
    show False by (auto simp: detect_bitgroups_runs)
  qed
  then have "\<forall>r \<in> set ?rs. run_ok flds r \<and> r \<noteq> [] \<and> (\<forall>i \<in> set r. i < length flds \<and> bit_width (flds ! i) \<noteq> None)"
    using idx bit_runs_nonempty by blast
  from finalize_runs_ok [OF same_fields_refl runs_distinct this, of scope_id e "[]"] assms(2)
  show "groups = map (group_of flds scope_id e) (enumerate 0 ?rs)"
    and "same_fields flds' flds"
    and "\<forall>j. j \<notin> set (concat ?rs) \<longrightarrow> flds' ! j = flds ! j"
    and "\<forall>q < length ?rs. \<forall>n < length (?rs ! q).
      lf_bitgroup_member (flds' ! (?rs ! q ! n)) =
         Some \<lparr>mr_bitgroup_id = bitgroup_id scope_id q,
               mr_offset_bits = gm_offset_bits (run_members e flds (?rs ! q) ! n),
               mr_width_bits = gm_width_bits (run_members e flds (?rs ! q) ! n)\<rparr>"
    by (auto simp: detect_bitgroups_runs)
qed

lemma bitgroup_id_inj: "bitgroup_id s k = bitgroup_id s l \<longleftrightarrow> k = l"
  by (simp add: bitgroup_id_def show_nat_inj)

lemma distinct_group_ids: "distinct (map (bg_bitgroup_id \<circ> group_of flds s e) (enumerate k rs))"
  by (induction rs arbitrary: k) (auto simp: group_of_def bitgroup_id_inj in_set_enumerate_eq)

lemma place_nth: "n < length fs \<Longrightarrow> gm_field_id (place e t c fs ! n) = lf_field_id (fs ! n)
    \<and> gm_width_bits (place e t c fs ! n) = the (lf_wire_width_bits (fs ! n))"
  by (induction fs arbitrary: c n) (auto simp: Let_def nth_Cons')

lemma member_reference:
  assumes "groups = map (group_of flds scope_id e) (enumerate 0 rs)" "q < length rs" "n < length (rs ! q)"
  shows "\<exists>g \<in> set groups. bg_bitgroup_id g = bitgroup_id scope_id q
    \<and> run_members e flds (rs ! q) ! n \<in> set (bg_members g)
    \<and> gm_field_id (run_members e flds (rs ! q) ! n) = lf_field_id (flds ! (rs ! q ! n))
    \<and> gm_width_bits (run_members e flds (rs ! q) ! n) = the (lf_wire_width_bits (flds ! (rs ! q ! n)))"
proof -
  have "group_of flds scope_id e (q, rs ! q) \<in> set groups"
    using assms(1,2) by (force simp: in_set_enumerate_eq)
  moreover have "n < length (map ((!) flds) (rs ! q))" using assms(3) by simp
  ultimately show ?thesis
    using place_nth [of n "map ((!) flds) (rs ! q)" e "run_bits flds (rs ! q)" 0] assms(3)
    by (auto simp: group_of_def run_members_def intro!: bexI nth_mem)
qed



text \<open>Without the bound the 16-bit running sum wraps: a field of 65535 bits followed by one
  of 9 bits is accepted as a group of 8 bits, although its true width is 65544 bits.\<close>

lemma detect_bitgroups_wraps:
  "run_total [bits_field ''a'' 65535, bits_field ''b'' 9] [0, 1] = 65544 \<and>
    (\<exists>g flds'. detect_bitgroups [bits_field ''a'' 65535, bits_field ''b'' 9] ''p'' Big = Inr ([g], flds')
      \<and> bg_total_bits g = 8)"
  by (simp add: run_total_def width_nat_def detect_bitgroups_def bit_scrutinee finalize_group_def Let_def)

end
