(* ===== verification/Codec.thy ===== *)
theory Codec
  imports Layout
begin

text \<open>
  The codec stage, \<open>crates/wirespec-codec/src\<close>: the codec IR (\<open>ir.rs\<close>), the choice of a
  strategy and a memory tier (\<open>strategy.rs\<close>), the checksum plan of a scope (\<open>checksum.rs\<close>) and the
  lowering of a layout module (\<open>lower.rs\<close>).
\<close>

section \<open>Codec IR (ir.rs)\<close>

datatype field_strategy = StPrimitive | StVarInt | StContVarInt | StBytesFixed | StBytesLength
  | StBytesRemaining | StBytesLor | StStruct | StArray | StBitGroup | StConditional | StChecksum

datatype memory_tier = TierA | TierB | TierC

datatype scope_kind = SkPacket | SkFrameVariant | SkCapsuleHeader | SkCapsulePayloadVariant

datatype wire_type = WU8 | WU16 | WU24 | WU32 | WU64 | WI8 | WI16 | WI32 | WI64 | WBool | WBit
  | WBits u16 | WVarInt | WContVarInt | WBytes | WStruct string | WEnum string | WFrame string
  | WCapsule string | WArray

datatype codec_value_ref_kind = CKField | CKDerived | CKConst

record codec_value_ref =
  cvr_value_id :: string
  cvr_kind :: codec_value_ref_kind

datatype literal_value = CLInt int | CLBool bool | CLString string | CLNull

datatype codec_expr =
    CValueRef codec_value_ref
  | CLiteral literal_value
  | CBinary string codec_expr codec_expr
  | CUnary string codec_expr
  | CCoalesce codec_expr codec_expr
  | CInState codec_expr string string string string
  | CSubscript codec_expr codec_expr
  | CStateConstructor string string string string "codec_expr list"
  | CFill codec_expr codec_expr
  | CSlice codec_expr codec_expr codec_expr
  | CAll codec_expr string string string string

datatype bytes_spec = BsFixed u64 | BsLength codec_expr | BsRemaining | BsLengthOrRemaining codec_expr

record array_spec =
  ar_element_wire_type :: wire_type
  ar_element_strategy :: field_strategy
  ar_element_ref_type_name :: "string option"
  ar_count_expr :: "codec_expr option"
  ar_within_expr :: "codec_expr option"

record bitgroup_member =
  bm_group_id :: u32
  bm_total_bits :: u16
  bm_member_offset_bits :: u16
  bm_member_width_bits :: u16
  bm_group_endianness :: endianness

record codec_tag =
  tg_field_name :: string
  tg_wire_type :: wire_type
  tg_endianness :: "endianness option"
  tg_ref_type_name :: "string option"

datatype variant_pattern = VpExact int | VpRangeInclusive int int | VpWildcard

datatype codec_verify_mode = CvZeroSum | CvRecomputeCompare

datatype codec_input_model = CiZeroSumWholeScope | CiRecomputeWithSkippedField

record checksum_plan =
  cp_scope_kind :: scope_kind
  cp_scope_name :: string
  cp_field_name :: string
  cp_field_index_in_scope :: u32
  cp_algorithm_id :: string
  cp_verify_mode :: codec_verify_mode
  cp_input_model :: codec_input_model
  cp_field_width_bytes :: u8
  cp_field_endianness :: "endianness option"

record codec_derived_item =
  cd_item_id :: string
  cd_name :: string
  cd_wire_type :: wire_type
  cd_expr :: codec_expr
  cd_span :: "span option"

record codec_require_item =
  cr_item_id :: string
  cr_expr :: codec_expr
  cr_span :: "span option"

datatype codec_item = CiField string | CiDerived codec_derived_item | CiRequire codec_require_item

record codec_field =
  cf_field_id :: string
  cf_scope_id :: string
  cf_field_index :: u32
  cf_name :: string
  cf_wire_type :: wire_type
  cf_strategy :: field_strategy
  cf_memory_tier :: "memory_tier option"
  cf_endianness :: "endianness option"
  cf_is_optional :: bool
  cf_inner_wire_type :: "wire_type option"
  cf_condition :: "codec_expr option"
  cf_ref_type_name :: "string option"
  cf_bit_width :: "u16 option"
  cf_bytes_spec :: "bytes_spec option"
  cf_array_spec :: "array_spec option"
  cf_bitgroup_member :: "bitgroup_member option"
  cf_max_elements :: "u32 option"
  cf_checksum_algorithm :: "string option"
  cf_asn1_hint :: "asn1_hint option"
  cf_span :: "span option"

record codec_packet =
  cpk_scope_id :: string
  cpk_name :: string
  cpk_fields :: "codec_field list"
  cpk_items :: "codec_item list"
  cpk_checksum_plan :: "checksum_plan option"

record codec_variant_scope =
  cvs_scope_id :: string
  cvs_owner :: variant_owner
  cvs_ordinal :: u32
  cvs_name :: string
  cvs_pattern :: variant_pattern
  cvs_fields :: "codec_field list"
  cvs_items :: "codec_item list"
  cvs_checksum_plan :: "checksum_plan option"

record codec_frame =
  cfr_frame_id :: string
  cfr_name :: string
  cfr_tag :: codec_tag
  cfr_variants :: "codec_variant_scope list"

record codec_capsule =
  cca_capsule_id :: string
  cca_name :: string
  cca_tag :: codec_tag
  cca_within_field :: string
  cca_tag_expr :: "codec_expr option"
  cca_header_fields :: "codec_field list"
  cca_header_items :: "codec_item list"
  cca_header_checksum_plan :: "checksum_plan option"
  cca_variants :: "codec_variant_scope list"

record codec_module =
  cm_schema_version :: string
  cm_module_name :: string
  cm_module_endianness :: endianness
  cm_compliance_profile :: string
  cm_imports :: "imported_type_ref list"
  cm_varints :: "semantic_varint list"
  cm_consts :: "semantic_const list"
  cm_enums :: "semantic_enum list"
  cm_state_machines :: "semantic_state_machine list"
  cm_packets :: "codec_packet list"
  cm_frames :: "codec_frame list"
  cm_capsules :: "codec_capsule list"

section \<open>Strategies and memory tiers (strategy.rs)\<close>

record strategy_input =
  si_ty :: semantic_type
  si_is_optional :: bool
  si_has_checksum :: bool
  si_has_bitgroup :: bool

fun type_based_strategy :: "semantic_type \<Rightarrow> field_strategy" where
  "type_based_strategy (VarIntRef i n) = StVarInt"
| "type_based_strategy (Bytes k s e) =
     (case k of SBFixed \<Rightarrow> StBytesFixed | SBLength \<Rightarrow> StBytesLength | SBRemaining \<Rightarrow> StBytesRemaining
      | SBLengthOrRemaining \<Rightarrow> StBytesLor)"
| "type_based_strategy (PacketRef i n) = StStruct"
| "type_based_strategy (FrameRef i n) = StStruct"
| "type_based_strategy (CapsuleRef i n) = StStruct"
| "type_based_strategy (EnumRef i n f) = StStruct"
| "type_based_strategy (Array t c w) = StArray"
| "type_based_strategy (Primitive w e) = StPrimitive"
| "type_based_strategy (Bits w) = StPrimitive"

definition assign_strategy :: "strategy_input \<Rightarrow> field_strategy" where
  "assign_strategy i =
     (if si_has_bitgroup i then StBitGroup
      else if si_has_checksum i then StChecksum
      else if si_is_optional i then StConditional
      else type_based_strategy (si_ty i))"

definition assign_memory_tier :: "field_strategy \<Rightarrow> memory_tier option" where
  "assign_memory_tier s =
     (if s \<in> {StBytesFixed, StBytesLength, StBytesRemaining, StBytesLor} then Some TierA else None)"

fun assign_array_memory_tier :: "semantic_type \<Rightarrow> memory_tier" where
  "assign_array_memory_tier (PacketRef i n) = TierC"
| "assign_array_memory_tier (FrameRef i n) = TierC"
| "assign_array_memory_tier (CapsuleRef i n) = TierC"
| "assign_array_memory_tier (EnumRef i n f) = TierC"
| "assign_array_memory_tier _ = TierB"

definition assign_element_strategy :: "semantic_type \<Rightarrow> field_strategy" where
  "assign_element_strategy t = type_based_strategy t"

section \<open>Checksum plans (checksum.rs)\<close>

definition checksum_modes :: "string \<Rightarrow> codec_verify_mode \<times> codec_input_model" where
  "checksum_modes algorithm =
     (case lookup_algorithm algorithm of
        Some spec \<Rightarrow>
          (case ck_verify_mode spec of ZeroSum \<Rightarrow> CvZeroSum | RecomputeCompare \<Rightarrow> CvRecomputeCompare,
           case ck_input_model spec of ZeroSumWholeScope \<Rightarrow> CiZeroSumWholeScope
             | RecomputeWithSkippedField \<Rightarrow> CiRecomputeWithSkippedField)
      | None \<Rightarrow> (CvRecomputeCompare, CiRecomputeWithSkippedField))"

definition plan_field_width :: "string \<Rightarrow> u8" where
  "plan_field_width algorithm =
     (case lookup_algorithm algorithm of Some s \<Rightarrow> ck_field_width_bytes s | None \<Rightarrow> 0)"

fun plan_loop :: "scope_kind \<Rightarrow> string \<Rightarrow> (nat \<times> codec_field) list \<Rightarrow> checksum_plan option" where
  "plan_loop kind scope_name [] = None"
| "plan_loop kind scope_name ((i, field) # rest) =
     (case cf_checksum_algorithm field of
        Some algorithm \<Rightarrow>
          Some \<lparr>cp_scope_kind = kind, cp_scope_name = scope_name, cp_field_name = cf_name field,
                cp_field_index_in_scope = of_nat i, cp_algorithm_id = algorithm,
                cp_verify_mode = fst (checksum_modes algorithm), cp_input_model = snd (checksum_modes algorithm),
                cp_field_width_bytes = plan_field_width algorithm, cp_field_endianness = cf_endianness field\<rparr>
      | None \<Rightarrow> plan_loop kind scope_name rest)"

definition synthesize_checksum_plan :: "codec_field list \<Rightarrow> scope_kind \<Rightarrow> string \<Rightarrow> checksum_plan option" where
  "synthesize_checksum_plan flds kind scope_name = plan_loop kind scope_name (enumerate 0 flds)"

section \<open>Expressions and patterns (lower.rs)\<close>

fun join_dots :: "string list \<Rightarrow> string" where
  "join_dots [] = ''''"
| "join_dots [s] = s"
| "join_dots (s # t # r) = s @ ''.'' @ join_dots (t # r)"

fun convert_literal :: "semantic_literal \<Rightarrow> literal_value" where
  "convert_literal (SLInt v) = CLInt v"
| "convert_literal (SLBool v) = CLBool v"
| "convert_literal (SLString s) = CLString s"
| "convert_literal SLNull = CLNull"

definition convert_value_ref :: "value_ref \<Rightarrow> codec_value_ref" where
  "convert_value_ref vr =
     \<lparr>cvr_value_id = vr_value_id vr,
      cvr_kind = (case vr_kind vr of KField \<Rightarrow> CKField | KDerived \<Rightarrow> CKDerived | KConst \<Rightarrow> CKConst
                  | KStateField \<Rightarrow> CKField)\<rparr>"

definition convert_peer_ref :: "transition_peer_ref \<Rightarrow> codec_expr" where
  "convert_peer_ref r =
     (let joined = (case pr_peer r of Src \<Rightarrow> ''src'' | Dst \<Rightarrow> ''dst'' | EventParam \<Rightarrow> ''event'')
                   @ ''.'' @ join_dots (pr_path r)
      in CValueRef \<lparr>cvr_value_id = (case pr_event_param_id r of Some i \<Rightarrow> i | None \<Rightarrow> joined),
                    cvr_kind = CKField\<rparr>)"

fun convert_semantic_expr :: "semantic_expr \<Rightarrow> codec_expr" where
  "convert_semantic_expr (SLiteral v) = CLiteral (convert_literal v)"
| "convert_semantic_expr (SValueRef r) = CValueRef (convert_value_ref r)"
| "convert_semantic_expr (STransitionPeerRef r) = convert_peer_ref r"
| "convert_semantic_expr (SBinary op l r) = CBinary op (convert_semantic_expr l) (convert_semantic_expr r)"
| "convert_semantic_expr (SUnary op e) = CUnary op (convert_semantic_expr e)"
| "convert_semantic_expr (SCoalesce e d) = CCoalesce (convert_semantic_expr e) (convert_semantic_expr d)"
| "convert_semantic_expr (SInState e si sn ti tn) = CInState (convert_semantic_expr e) si sn ti tn"
| "convert_semantic_expr (SSubscript b i) = CSubscript (convert_semantic_expr b) (convert_semantic_expr i)"
| "convert_semantic_expr (SStateConstructor si sn ti tn args) =
     CStateConstructor si sn ti tn (map convert_semantic_expr args)"
| "convert_semantic_expr (SFill v c) = CFill (convert_semantic_expr v) (convert_semantic_expr c)"
| "convert_semantic_expr (SSlice b s e) =
     CSlice (convert_semantic_expr b) (convert_semantic_expr s) (convert_semantic_expr e)"
| "convert_semantic_expr (SAll c si sn ti tn) = CAll (convert_semantic_expr c) si sn ti tn"

fun convert_pattern :: "semantic_pattern \<Rightarrow> variant_pattern" where
  "convert_pattern (SPExact v) = VpExact v"
| "convert_pattern (SPRangeInclusive s e) = VpRangeInclusive s e"
| "convert_pattern SPWildcard = VpWildcard"

section \<open>Fields (lower.rs)\<close>

text \<open>\<open>CodecPanic\<close> is an \<open>expect\<close> on a missing size expression.\<close>

datatype codec_error = CodecError string | CodecPanic

text \<open>\<open>LowerCtx\<close> is the list of variable-length integers of the module.\<close>

type_synonym lower_ctx = "semantic_varint list"

fun varint_encoding_of :: "lower_ctx \<Rightarrow> string \<Rightarrow> varint_encoding" where
  "varint_encoding_of [] varint_id = PrefixMatch"
| "varint_encoding_of (v # vs) varint_id =
     (if vi_varint_id v = varint_id then vi_encoding v else varint_encoding_of vs varint_id)"

fun primitive_to_wire :: "primitive_wire_type \<Rightarrow> wire_type" where
  "primitive_to_wire U8 = WU8" | "primitive_to_wire U16 = WU16" | "primitive_to_wire U24 = WU24"
| "primitive_to_wire U32 = WU32" | "primitive_to_wire U64 = WU64"
| "primitive_to_wire I8 = WI8" | "primitive_to_wire I16 = WI16" | "primitive_to_wire I32 = WI32"
| "primitive_to_wire I64 = WI64" | "primitive_to_wire Bool = WBool" | "primitive_to_wire Bit = WBit"

fun semantic_type_to_wire_type :: "lower_ctx \<Rightarrow> semantic_type \<Rightarrow> wire_type" where
  "semantic_type_to_wire_type ctx (Primitive wire e) = primitive_to_wire wire"
| "semantic_type_to_wire_type ctx (Bits w) = WBits w"
| "semantic_type_to_wire_type ctx (VarIntRef i n) =
     (if varint_encoding_of ctx i = ContinuationBit then WContVarInt else WVarInt)"
| "semantic_type_to_wire_type ctx (Bytes k s e) = WBytes"
| "semantic_type_to_wire_type ctx (PacketRef i n) = WStruct n"
| "semantic_type_to_wire_type ctx (EnumRef i n f) = WEnum n"
| "semantic_type_to_wire_type ctx (FrameRef i n) = WFrame n"
| "semantic_type_to_wire_type ctx (CapsuleRef i n) = WCapsule n"
| "semantic_type_to_wire_type ctx (Array t c w) = WArray"

fun extract_ref_type_name :: "semantic_type \<Rightarrow> string option" where
  "extract_ref_type_name (PacketRef i n) = Some n"
| "extract_ref_type_name (EnumRef i n f) = Some n"
| "extract_ref_type_name (FrameRef i n) = Some n"
| "extract_ref_type_name (CapsuleRef i n) = Some n"
| "extract_ref_type_name (VarIntRef i n) = Some n"
| "extract_ref_type_name _ = None"

fun extract_bytes_spec :: "semantic_type \<Rightarrow> codec_error + bytes_spec option" where
  "extract_bytes_spec (Bytes kind fixed_size size_expr) =
     (case kind of
        SBFixed \<Rightarrow> Inr (Some (BsFixed (case fixed_size of Some n \<Rightarrow> n | None \<Rightarrow> 0)))
      | SBLength \<Rightarrow>
          (case size_expr of Some e \<Rightarrow> Inr (Some (BsLength (convert_semantic_expr e))) | None \<Rightarrow> Inl CodecPanic)
      | SBRemaining \<Rightarrow> Inr (Some BsRemaining)
      | SBLengthOrRemaining \<Rightarrow>
          (case size_expr of Some e \<Rightarrow> Inr (Some (BsLengthOrRemaining (convert_semantic_expr e)))
           | None \<Rightarrow> Inl CodecPanic))"
| "extract_bytes_spec _ = Inr None"

fun extract_array_spec :: "lower_ctx \<Rightarrow> semantic_type \<Rightarrow> array_spec option" where
  "extract_array_spec ctx (Array element_type count_expr within_expr) =
     Some \<lparr>ar_element_wire_type = semantic_type_to_wire_type ctx element_type,
           ar_element_strategy = assign_element_strategy element_type,
           ar_element_ref_type_name = extract_ref_type_name element_type,
           ar_count_expr = map_option convert_semantic_expr count_expr,
           ar_within_expr = map_option convert_semantic_expr within_expr\<rparr>"
| "extract_array_spec ctx _ = None"

definition extract_bitgroup_member :: "layout_field \<Rightarrow> layout_bitgroup list \<Rightarrow> bitgroup_member option" where
  "extract_bitgroup_member f bitgroups =
     (case lf_bitgroup_member f of
        None \<Rightarrow> None
      | Some member_ref \<Rightarrow>
          (case List.find (\<lambda>(i, bg). bg_bitgroup_id bg = mr_bitgroup_id member_ref) (enumerate 0 bitgroups) of
             Some (group_index, bg) \<Rightarrow>
               Some \<lparr>bm_group_id = of_nat group_index, bm_total_bits = bg_total_bits bg,
                     bm_member_offset_bits = mr_offset_bits member_ref,
                     bm_member_width_bits = mr_width_bits member_ref,
                     bm_group_endianness = bg_endianness bg\<rparr>
           | None \<Rightarrow> None))"

text \<open>The strategy of a field, with the test that turns a continuation-bit integer's \<open>VarInt\<close>
  into \<open>ContVarInt\<close>.\<close>

definition field_strategy_of :: "lower_ctx \<Rightarrow> layout_field \<Rightarrow> field_strategy" where
  "field_strategy_of ctx f =
     (let strategy = assign_strategy
            \<lparr>si_ty = lf_ty f, si_is_optional = (case lf_presence f of Conditional c \<Rightarrow> True | Always \<Rightarrow> False),
             si_has_checksum = lf_checksum_algorithm f \<noteq> None, si_has_bitgroup = lf_bitgroup_member f \<noteq> None\<rparr>
      in case lf_ty f of
           VarIntRef varint_id n \<Rightarrow>
             if strategy = StVarInt \<and> varint_encoding_of ctx varint_id = ContinuationBit
             then StContVarInt else strategy
         | _ \<Rightarrow> strategy)"

definition field_memory_tier :: "field_strategy \<Rightarrow> semantic_type \<Rightarrow> memory_tier option" where
  "field_memory_tier strategy inner_ty =
     (if strategy = StArray
      then (case inner_ty of Array element_type c w \<Rightarrow> Some (assign_array_memory_tier element_type)
            | _ \<Rightarrow> assign_memory_tier strategy)
      else assign_memory_tier strategy)"

definition lower_codec_field :: "lower_ctx \<Rightarrow> layout_field \<Rightarrow> string \<Rightarrow> u32 \<Rightarrow> layout_bitgroup list
    \<Rightarrow> codec_error + codec_field" where
  "lower_codec_field ctx f scope_id field_index bitgroups =
     (let is_optional = (case lf_presence f of Conditional c \<Rightarrow> True | Always \<Rightarrow> False);
          inner_ty = lf_ty f;
          wire_type = semantic_type_to_wire_type ctx inner_ty;
          strategy = field_strategy_of ctx f
      in rbind (extract_bytes_spec inner_ty) (\<lambda>bytes_spec.
           Inr \<lparr>cf_field_id = (if lf_field_id f = [] then scope_id @ ''.field['' @ show_nat (unat field_index) @ '']''
                               else lf_field_id f),
                cf_scope_id = scope_id, cf_field_index = field_index, cf_name = lf_name f,
                cf_wire_type = wire_type, cf_strategy = strategy,
                cf_memory_tier = field_memory_tier strategy inner_ty,
                cf_endianness = lf_endianness f, cf_is_optional = is_optional,
                cf_inner_wire_type = (if is_optional then Some wire_type else None),
                cf_condition = (case lf_presence f of Conditional c \<Rightarrow> Some (convert_semantic_expr c) | Always \<Rightarrow> None),
                cf_ref_type_name = extract_ref_type_name inner_ty,
                cf_bit_width = lf_wire_width_bits f, cf_bytes_spec = bytes_spec,
                cf_array_spec = extract_array_spec ctx inner_ty,
                cf_bitgroup_member = extract_bitgroup_member f bitgroups,
                cf_max_elements = lf_max_elements f, cf_checksum_algorithm = lf_checksum_algorithm f,
                cf_asn1_hint = lf_asn1_hint f, cf_span = lf_span f\<rparr>))"

definition lower_codec_fields :: "lower_ctx \<Rightarrow> layout_field list \<Rightarrow> string \<Rightarrow> layout_bitgroup list
    \<Rightarrow> codec_error + codec_field list" where
  "lower_codec_fields ctx flds scope_id bitgroups =
     try_map (\<lambda>(i, f). lower_codec_field ctx f scope_id (of_nat i) bitgroups) (enumerate 0 flds)"

section \<open>Items and scopes (lower.rs)\<close>

fun lower_item :: "semantic_derived list \<Rightarrow> semantic_require list \<Rightarrow> lower_ctx \<Rightarrow> semantic_scope_item
    \<Rightarrow> codec_error + codec_item" where
  "lower_item derived_list requires_list ctx (ItField field_id) = Inr (CiField field_id)"
| "lower_item derived_list requires_list ctx (ItDerived derived_id) =
     (case List.find (\<lambda>d. sd_derived_id d = derived_id) derived_list of
        None \<Rightarrow> Inl (CodecError (''derived not found: '' @ derived_id))
      | Some d \<Rightarrow> Inr (CiDerived \<lparr>cd_item_id = sd_derived_id d, cd_name = sd_derived_name d,
                                  cd_wire_type = semantic_type_to_wire_type ctx (sd_ty d),
                                  cd_expr = convert_semantic_expr (sd_expr d), cd_span = sd_derived_span d\<rparr>))"
| "lower_item derived_list requires_list ctx (ItRequire require_id) =
     (case List.find (\<lambda>r. sr_require_id r = require_id) requires_list of
        None \<Rightarrow> Inl (CodecError (''require not found: '' @ require_id))
      | Some r \<Rightarrow> Inr (CiRequire \<lparr>cr_item_id = sr_require_id r, cr_expr = convert_semantic_expr (sr_expr r),
                                  cr_span = sr_span r\<rparr>))"

definition lower_items :: "semantic_scope_item list \<Rightarrow> semantic_derived list \<Rightarrow> semantic_require list
    \<Rightarrow> lower_ctx \<Rightarrow> codec_error + codec_item list" where
  "lower_items items derived_list requires_list ctx = try_map (lower_item derived_list requires_list ctx) items"

definition lower_codec_packet :: "lower_ctx \<Rightarrow> layout_packet \<Rightarrow> codec_error + codec_packet" where
  "lower_codec_packet ctx p =
     (let scope_id = lp_packet_id p
      in rbind (lower_codec_fields ctx (lp_fields p) scope_id (lp_bitgroups p)) (\<lambda>flds.
         rbind (lower_items (lp_items p) (lp_derived p) (lp_requires p) ctx) (\<lambda>items.
           Inr \<lparr>cpk_scope_id = scope_id, cpk_name = lp_name p, cpk_fields = flds, cpk_items = items,
                cpk_checksum_plan = synthesize_checksum_plan flds SkPacket (lp_name p)\<rparr>)))"

definition lower_codec_variant :: "lower_ctx \<Rightarrow> layout_variant_scope \<Rightarrow> scope_kind
    \<Rightarrow> codec_error + codec_variant_scope" where
  "lower_codec_variant ctx v kind =
     rbind (lower_codec_fields ctx (lv_fields v) (lv_scope_id v) (lv_bitgroups v)) (\<lambda>flds.
     rbind (lower_items (lv_items v) (lv_derived v) (lv_requires v) ctx) (\<lambda>items.
       Inr \<lparr>cvs_scope_id = lv_scope_id v, cvs_owner = lv_owner v, cvs_ordinal = lv_ordinal v,
            cvs_name = lv_variant_name v, cvs_pattern = convert_pattern (lv_pattern v),
            cvs_fields = flds, cvs_items = items,
            cvs_checksum_plan = synthesize_checksum_plan flds kind (lv_variant_name v)\<rparr>))"

fun tag_ref_type_name :: "semantic_type \<Rightarrow> string option" where
  "tag_ref_type_name (VarIntRef i n) = Some n"
| "tag_ref_type_name (PacketRef i n) = Some n"
| "tag_ref_type_name (EnumRef i n f) = Some n"
| "tag_ref_type_name _ = None"

definition lower_codec_frame :: "lower_ctx \<Rightarrow> layout_frame \<Rightarrow> codec_error + codec_frame" where
  "lower_codec_frame ctx f =
     (let tag = \<lparr>tg_field_name = lfr_tag_name f, tg_wire_type = semantic_type_to_wire_type ctx (lfr_tag_type f),
                 tg_endianness = lfr_tag_endianness f, tg_ref_type_name = tag_ref_type_name (lfr_tag_type f)\<rparr>
      in rbind (try_map (\<lambda>v. lower_codec_variant ctx v SkFrameVariant) (lfr_variants f)) (\<lambda>variants.
           Inr \<lparr>cfr_frame_id = lfr_frame_id f, cfr_name = lfr_name f, cfr_tag = tag, cfr_variants = variants\<rparr>))"

fun capsule_tag_field_name :: "capsule_tag_selector \<Rightarrow> string" where
  "capsule_tag_field_name (SelField i n) = n"
| "capsule_tag_field_name (SelExpr e) = ''<expr>''"

definition lower_codec_capsule :: "lower_ctx \<Rightarrow> layout_capsule \<Rightarrow> codec_error + codec_capsule" where
  "lower_codec_capsule ctx c =
     (let tag = \<lparr>tg_field_name = capsule_tag_field_name (lca_tag_selector c),
                 tg_wire_type = semantic_type_to_wire_type ctx (lca_tag_type c),
                 tg_endianness = None, tg_ref_type_name = tag_ref_type_name (lca_tag_type c)\<rparr>;
          tag_expr = (case lca_tag_selector c of SelExpr e \<Rightarrow> Some (convert_semantic_expr e) | SelField i n \<Rightarrow> None);
          header_scope_id = lca_capsule_id c @ ''#header''
      in rbind (lower_codec_fields ctx (lca_header_fields c) header_scope_id (lca_header_bitgroups c)) (\<lambda>header_fields.
         rbind (lower_items (lca_header_items c) (lca_header_derived c) (lca_header_requires c) ctx) (\<lambda>header_items.
         rbind (try_map (\<lambda>v. lower_codec_variant ctx v SkCapsulePayloadVariant) (lca_variants c)) (\<lambda>variants.
           Inr \<lparr>cca_capsule_id = lca_capsule_id c, cca_name = lca_name c, cca_tag = tag,
                cca_within_field = lca_within_field_name c, cca_tag_expr = tag_expr,
                cca_header_fields = header_fields, cca_header_items = header_items,
                cca_header_checksum_plan = synthesize_checksum_plan header_fields SkCapsuleHeader (lca_name c),
                cca_variants = variants\<rparr>))))"

definition lower_codec :: "layout_module \<Rightarrow> codec_error + codec_module" where
  "lower_codec layout =
     (let ctx = lm_varints layout
      in rbind (try_map (lower_codec_packet ctx) (lm_packets layout)) (\<lambda>packets.
         rbind (try_map (lower_codec_frame ctx) (lm_frames layout)) (\<lambda>frames.
         rbind (try_map (lower_codec_capsule ctx) (lm_capsules layout)) (\<lambda>capsules.
           Inr \<lparr>cm_schema_version = ''codec-ir/v1'', cm_module_name = lm_module_name layout,
                cm_module_endianness = lm_module_endianness layout,
                cm_compliance_profile = lm_compliance_profile layout, cm_imports = lm_imports layout,
                cm_varints = lm_varints layout, cm_consts = lm_consts layout, cm_enums = lm_enums layout,
                cm_state_machines = lm_state_machines layout, cm_packets = packets, cm_frames = frames,
                cm_capsules = capsules\<rparr>))))"

section \<open>When a scope can be lowered\<close>

text \<open>The three things a scope needs: its bit runs are whole bytes of at most 64 bits, a bytes
  type that is measured by an expression has one, and every item refers to a definition of the
  scope.\<close>

definition runs_ok :: "layout_field list \<Rightarrow> bool" where
  "runs_ok flds \<longleftrightarrow> (\<forall>r \<in> set (bit_runs 0 [] flds). run_total flds r \<le> 64 \<and> 8 dvd run_total flds r)"

fun bytes_sized :: "semantic_type \<Rightarrow> bool" where
  "bytes_sized (Bytes kind fixed_size size_expr) =
     (kind \<in> {SBLength, SBLengthOrRemaining} \<longrightarrow> size_expr \<noteq> None)"
| "bytes_sized _ = True"

fun item_resolves :: "semantic_derived list \<Rightarrow> semantic_require list \<Rightarrow> semantic_scope_item \<Rightarrow> bool" where
  "item_resolves ds rs (ItField i) = True"
| "item_resolves ds rs (ItDerived i) = (i \<in> set (map sd_derived_id ds))"
| "item_resolves ds rs (ItRequire i) = (i \<in> set (map sr_require_id rs))"

definition scope_ok :: "endianness \<Rightarrow> semantic_field list \<Rightarrow> semantic_derived list \<Rightarrow> semantic_require list
    \<Rightarrow> semantic_scope_item list \<Rightarrow> bool" where
  "scope_ok m fs ds rs items \<longleftrightarrow> runs_ok (lower_fields fs m) \<and> list_all (bytes_sized \<circ> sf_ty) fs
     \<and> list_all (item_resolves ds rs) items"

definition widths_small :: "endianness \<Rightarrow> semantic_field list \<Rightarrow> bool" where
  "widths_small m fs \<longleftrightarrow> bits_total (lower_fields fs m) < 65536"

lemma extract_bytes_spec_iff: "(\<exists>s. extract_bytes_spec ty = Inr s) \<longleftrightarrow> bytes_sized ty"
  by (cases ty) (auto split: semantic_bytes_kind.splits option.splits)

lemma find_resolves: "(\<exists>x. List.find (\<lambda>d. f d = k) xs = Some x) \<longleftrightarrow> k \<in> set (map f xs)"
  by (induction xs) auto

lemma lower_item_iff: "(\<exists>x. lower_item ds rs ctx it = Inr x) \<longleftrightarrow> item_resolves ds rs it"
proof (cases it)
  case (ItDerived i)
  then show ?thesis using find_resolves [of sd_derived_id i ds]
    by (cases "List.find (\<lambda>d. sd_derived_id d = i) ds") simp_all
next
  case (ItRequire i)
  then show ?thesis using find_resolves [of sr_require_id i rs]
    by (cases "List.find (\<lambda>d. sr_require_id d = i) rs") simp_all
qed simp

lemma try_map_iff: "(\<exists>ys. try_map f xs = Inr ys) \<longleftrightarrow> (\<forall>x \<in> set xs. \<exists>y. f x = Inr y)"
proof
  assume "\<exists>ys. try_map f xs = Inr ys"
  then show "\<forall>x \<in> set xs. \<exists>y. f x = Inr y"
    by (metis in_set_conv_nth try_map_nth)
qed (simp add: try_map_total)

lemma lower_items_iff: "(\<exists>out. lower_items items ds rs ctx = Inr out) \<longleftrightarrow> list_all (item_resolves ds rs) items"
  by (simp add: lower_items_def try_map_iff lower_item_iff list_all_iff)

lemma lower_codec_field_iff:
  "(\<exists>c. lower_codec_field ctx f scope_id i groups = Inr c) \<longleftrightarrow> bytes_sized (lf_ty f)"
  by (simp add: lower_codec_field_def Let_def rbind_eq_Inr_iff extract_bytes_spec_iff)

lemma ball_enumerate: "(\<forall>q \<in> set (enumerate n xs). P (snd q)) \<longleftrightarrow> (\<forall>x \<in> set xs. P x)"
  by (metis (no_types, lifting) image_iff list.set_map map_snd_enumerate)

lemma lower_codec_fields_iff:
  "(\<exists>out. lower_codec_fields ctx fs scope_id groups = Inr out) \<longleftrightarrow> list_all (bytes_sized \<circ> lf_ty) fs"
  unfolding lower_codec_fields_def try_map_iff list_all_iff o_def
  by (simp add: case_prod_unfold lower_codec_field_iff ball_enumerate [where P = "\<lambda>f. bytes_sized (lf_ty f)"])

lemma detect_bitgroups_iff:
  assumes "bits_total fs < 65536"
  shows "(\<exists>gs fs'. detect_bitgroups fs scope_id e = Inr (gs, fs')) \<longleftrightarrow> runs_ok fs"
proof
  assume "\<exists>gs fs'. detect_bitgroups fs scope_id e = Inr (gs, fs')"
  then obtain gs fs' where d: "detect_bitgroups fs scope_id e = Inr (gs, fs')" by blast
  show "runs_ok fs"
    unfolding runs_ok_def
    using detect_runs_result(2) [OF assms d] run_ok_nat run_total_le assms by (meson le_less_trans)
next
  let ?rs = "bit_runs 0 [] fs"
  assume ok: "runs_ok fs"
  have "run_ok fs r" if "r \<in> set ?rs" for r
    using run_ok_nat [of fs r] run_total_le [OF that] ok that assms by (simp add: runs_ok_def)
  then have "\<forall>r \<in> set ?rs. run_ok fs r \<and> r \<noteq> [] \<and> (\<forall>i \<in> set r. i < length fs \<and> bit_width (fs ! i) \<noteq> None)"
    using run_indices bit_runs_nonempty by blast
  from finalize_runs_ok [OF same_fields_refl runs_distinct this]
  show "\<exists>gs fs'. detect_bitgroups fs scope_id e = Inr (gs, fs')"
    unfolding detect_bitgroups_runs by blast
qed

lemma detect_keeps_types:
  assumes "bits_total (lower_fields fs m) < 65536" "detect_bitgroups (lower_fields fs m) scope_id m = Inr (gs, fs')"
  shows "map lf_ty fs' = map sf_ty fs"
proof (rule nth_equalityI)
  note r = detect_runs_result(3) [OF assms]
  show "length (map lf_ty fs') = length (map sf_ty fs)"
    using same_fields_length [OF r] by (simp add: lower_fields_def)
  fix i assume "i < length (map lf_ty fs')"
  then have i: "i < length fs" using same_fields_length [OF r] by (simp add: lower_fields_def)
  then have "same_field (fs' ! i) (lower_fields fs m ! i)"
    using same_fields_nth [OF r] by (simp add: lower_fields_def)
  then show "map lf_ty fs' ! i = map sf_ty fs ! i"
    using i same_fields_length [OF r] same_fieldD by (fastforce simp: lower_fields_def lower_field_def)
qed

text \<open>The layout and codec stages of one scope, composed.\<close>

lemma scope_pipeline_iff:
  assumes "widths_small m fs"
  shows "(\<exists>gs fs' cfs items'. detect_bitgroups (lower_fields fs m) scope_id m = Inr (gs, fs')
      \<and> lower_codec_fields ctx fs' scope_id' gs = Inr cfs \<and> lower_items items ds rs ctx = Inr items')
    \<longleftrightarrow> scope_ok m fs ds rs items"
proof -
  have b: "bits_total (lower_fields fs m) < 65536" using assms by (simp add: widths_small_def)
  have types: "list_all (bytes_sized \<circ> lf_ty) fs' \<longleftrightarrow> list_all (bytes_sized \<circ> sf_ty) fs"
    if "detect_bitgroups (lower_fields fs m) scope_id m = Inr (gs, fs')" for gs fs'
    using detect_keeps_types [OF b that] by (metis list.pred_map)
  show ?thesis
    unfolding scope_ok_def using detect_bitgroups_iff [OF b, of scope_id m] types
      lower_codec_fields_iff [of ctx _ scope_id'] lower_items_iff [of items ds rs ctx]
    by blast
qed

lemma try_map_compose:
  "(\<exists>ys zs. try_map f xs = Inr ys \<and> try_map g ys = Inr zs) \<longleftrightarrow> (\<forall>x \<in> set xs. \<exists>y z. f x = Inr y \<and> g y = Inr z)"
proof (induction xs)
  case (Cons x xs)
  have "(\<exists>ys zs. try_map f (x # xs) = Inr ys \<and> try_map g ys = Inr zs) \<longleftrightarrow>
      (\<exists>y z. f x = Inr y \<and> g y = Inr z) \<and> (\<exists>ys zs. try_map f xs = Inr ys \<and> try_map g ys = Inr zs)"
    by (auto simp: rbind_eq_Inr_iff)
  then show ?case using Cons.IH by simp
qed simp

definition packet_ok :: "endianness \<Rightarrow> semantic_packet \<Rightarrow> bool" where
  "packet_ok m p \<longleftrightarrow> scope_ok m (sp_fields p) (sp_derived p) (sp_requires p) (sp_items p)"

definition variant_ok :: "endianness \<Rightarrow> semantic_variant_scope \<Rightarrow> bool" where
  "variant_ok m v \<longleftrightarrow> scope_ok m (sv_fields v) (sv_derived v) (sv_requires v) (sv_items v)"

definition capsule_ok :: "endianness \<Rightarrow> semantic_capsule \<Rightarrow> bool" where
  "capsule_ok m c \<longleftrightarrow>
     scope_ok m (sca_header_fields c) (sca_header_derived c) (sca_header_requires c) (sca_header_items c)
     \<and> list_all (variant_ok m) (sca_variants c)"

definition module_ok :: "semantic_module \<Rightarrow> bool" where
  "module_ok sem \<longleftrightarrow>
     (let m = sem_module_endianness sem
      in list_all (packet_ok m) (sem_packets sem)
       \<and> list_all (\<lambda>f. list_all (variant_ok m) (sfr_variants f)) (sem_frames sem)
       \<and> list_all (capsule_ok m) (sem_capsules sem))"

definition module_small :: "semantic_module \<Rightarrow> bool" where
  "module_small sem \<longleftrightarrow>
     (let m = sem_module_endianness sem
      in list_all (\<lambda>p. widths_small m (sp_fields p)) (sem_packets sem)
       \<and> list_all (\<lambda>f. list_all (\<lambda>v. widths_small m (sv_fields v)) (sfr_variants f)) (sem_frames sem)
       \<and> list_all (\<lambda>c. widths_small m (sca_header_fields c)
            \<and> list_all (\<lambda>v. widths_small m (sv_fields v)) (sca_variants c)) (sem_capsules sem))"

lemma packet_pipeline_iff:
  assumes "widths_small m (sp_fields p)"
  shows "(\<exists>lp cp. lower_packet p m = Inr lp \<and> lower_codec_packet ctx lp = Inr cp) \<longleftrightarrow> packet_ok m p"
  unfolding packet_ok_def scope_pipeline_iff [OF assms, of "sp_packet_id p" ctx "sp_packet_id p", symmetric]
  by (fastforce simp: lower_packet_def lower_codec_packet_def Let_def rbind_eq_Inr_iff)

lemma variant_pipeline_iff:
  assumes "widths_small m (sv_fields v)"
  shows "(\<exists>lv cv. lower_variant_scope v m = Inr lv \<and> lower_codec_variant ctx lv k = Inr cv) \<longleftrightarrow> variant_ok m v"
  unfolding variant_ok_def scope_pipeline_iff [OF assms, of "sv_scope_id v" ctx "sv_scope_id v", symmetric]
  by (fastforce simp: lower_variant_scope_def lower_codec_variant_def rbind_eq_Inr_iff)

lemma variants_pipeline_iff:
  assumes "list_all (\<lambda>v. widths_small m (sv_fields v)) vs"
  shows "(\<exists>lvs cvs. try_map (\<lambda>v. lower_variant_scope v m) vs = Inr lvs
      \<and> try_map (\<lambda>v. lower_codec_variant ctx v k) lvs = Inr cvs) \<longleftrightarrow> list_all (variant_ok m) vs"
  unfolding try_map_compose using assms variant_pipeline_iff by (auto simp: list_all_iff)

lemma frame_pipeline_iff:
  assumes "list_all (\<lambda>v. widths_small m (sv_fields v)) (sfr_variants f)"
  shows "(\<exists>lf cf. lower_frame f m = Inr lf \<and> lower_codec_frame ctx lf = Inr cf)
    \<longleftrightarrow> list_all (variant_ok m) (sfr_variants f)"
  unfolding variants_pipeline_iff [OF assms, of ctx SkFrameVariant, symmetric]
  by (fastforce simp: lower_frame_def lower_codec_frame_def Let_def rbind_eq_Inr_iff)

lemma capsule_pipeline_iff:
  assumes "widths_small m (sca_header_fields c)" "list_all (\<lambda>v. widths_small m (sv_fields v)) (sca_variants c)"
  shows "(\<exists>lc cc. lower_capsule c m = Inr lc \<and> lower_codec_capsule ctx lc = Inr cc) \<longleftrightarrow> capsule_ok m c"
  unfolding capsule_ok_def variants_pipeline_iff [OF assms(2), of ctx SkCapsulePayloadVariant, symmetric]
    scope_pipeline_iff [OF assms(1), of "sca_capsule_id c @ ''#header''" ctx "sca_capsule_id c @ ''#header''", symmetric]
  by (fastforce simp: lower_capsule_def lower_codec_capsule_def Let_def rbind_eq_Inr_iff)

lemma lower_layout_Inr: "lower_layout sem = Inr lm \<longleftrightarrow>
    (\<exists>ps fs cs. try_map (\<lambda>p. lower_packet p (sem_module_endianness sem)) (sem_packets sem) = Inr ps
      \<and> try_map (\<lambda>f. lower_frame f (sem_module_endianness sem)) (sem_frames sem) = Inr fs
      \<and> try_map (\<lambda>c. lower_capsule c (sem_module_endianness sem)) (sem_capsules sem) = Inr cs
      \<and> lm = \<lparr>lm_schema_version = ''layout-ir/v1'', lm_compliance_profile = sem_compliance_profile sem,
          lm_module_name = sem_module_name sem, lm_module_endianness = sem_module_endianness sem,
          lm_imports = sem_imports sem, lm_varints = sem_varints sem, lm_consts = sem_consts sem,
          lm_enums = sem_enums sem, lm_packets = ps, lm_frames = fs, lm_capsules = cs,
          lm_state_machines = sem_state_machines sem\<rparr>)"
  unfolding lower_layout_def rbind_eq_Inr_iff by blast

lemma lower_codec_Inr_iff: "(\<exists>cm. lower_codec lm = Inr cm) \<longleftrightarrow>
    (\<exists>ps. try_map (lower_codec_packet (lm_varints lm)) (lm_packets lm) = Inr ps)
    \<and> (\<exists>fs. try_map (lower_codec_frame (lm_varints lm)) (lm_frames lm) = Inr fs)
    \<and> (\<exists>cs. try_map (lower_codec_capsule (lm_varints lm)) (lm_capsules lm) = Inr cs)"
  unfolding lower_codec_def Let_def rbind_eq_Inr_iff by blast

section \<open>Bit groups through both stages\<close>

definition member_end :: "layout_bitgroup_member \<Rightarrow> nat" where
  "member_end m = unat (gm_offset_bits m) + unat (gm_width_bits m)"

lemma place_little_bounds:
  "unat cum + (\<Sum>f\<leftarrow>fs. width_nat f) < 65536 \<Longrightarrow> n < length fs \<Longrightarrow>
    unat cum \<le> unat (gm_offset_bits (place Little t cum fs ! n))
      \<and> member_end (place Little t cum fs ! n) \<le> unat cum + (\<Sum>f\<leftarrow>fs. width_nat f)"
proof (induction fs arbitrary: cum n)
  case (Cons f fs)
  have c: "unat (cum + the (lf_wire_width_bits f)) = unat cum + width_nat f"
    using Cons.prems by (simp add: width_nat_def unat_add_small)
  show ?case using Cons.IH [of "cum + the (lf_wire_width_bits f)" "n - 1"] Cons.prems c
    by (cases n) (auto simp: Let_def member_end_def member_offset_def simp flip: width_nat_def)
qed simp

lemma place_little_order:
  "unat cum + (\<Sum>f\<leftarrow>fs. width_nat f) < 65536 \<Longrightarrow> n < n' \<Longrightarrow> n' < length fs \<Longrightarrow>
    member_end (place Little t cum fs ! n) \<le> unat (gm_offset_bits (place Little t cum fs ! n'))"
proof (induction fs arbitrary: cum n n')
  case (Cons f fs)
  have c: "unat (cum + the (lf_wire_width_bits f)) = unat cum + width_nat f"
    using Cons.prems by (simp add: width_nat_def unat_add_small)
  show ?case
    using place_little_bounds [of "cum + the (lf_wire_width_bits f)" fs "n' - 1" t]
      Cons.IH [of "cum + the (lf_wire_width_bits f)" "n - 1" "n' - 1"] Cons.prems c
    by (cases n; cases n') (auto simp: Let_def member_end_def member_offset_def simp flip: width_nat_def)
qed simp

lemma big_step:
  assumes "unat cum + (width_nat f + s) \<le> unat (t :: u16)"
  shows "unat (cum + the (lf_wire_width_bits f)) = unat cum + width_nat f"
    and "unat (t - cum - the (lf_wire_width_bits f)) = unat t - unat cum - width_nat f"
proof -
  let ?w = "the (lf_wire_width_bits f)"
  have t: "unat t < 65536" using unat_bound [of t] by simp
  then show "unat (cum + ?w) = unat cum + width_nat f"
    using assms by (simp add: width_nat_def unat_add_small)
  have o1: "unat (t - cum) = unat t - unat cum"
    using assms by (intro unat_sub) (simp add: word_le_nat_alt)
  show "unat (t - cum - ?w) = unat t - unat cum - width_nat f"
    using assms o1 unat_sub [of ?w "t - cum"] by (simp add: word_le_nat_alt width_nat_def)
qed

lemma place_big_bounds:
  "unat cum + (\<Sum>f\<leftarrow>fs. width_nat f) \<le> unat t \<Longrightarrow> n < length fs \<Longrightarrow>
    member_end (place Big t cum fs ! n) \<le> unat t - unat cum"
proof (induction fs arbitrary: cum n)
  case (Cons f fs)
  note s = big_step [of cum f "\<Sum>f\<leftarrow>fs. width_nat f" t]
  show ?case using Cons.IH [of "cum + the (lf_wire_width_bits f)" "n - 1"] Cons.prems s
    by (cases n) (auto simp: Let_def member_end_def member_offset_def simp flip: width_nat_def)
qed simp

lemma place_big_order:
  "unat cum + (\<Sum>f\<leftarrow>fs. width_nat f) \<le> unat t \<Longrightarrow> n < n' \<Longrightarrow> n' < length fs \<Longrightarrow>
    member_end (place Big t cum fs ! n') \<le> unat (gm_offset_bits (place Big t cum fs ! n))"
proof (induction fs arbitrary: cum n n')
  case (Cons f fs)
  note s = big_step [of cum f "\<Sum>f\<leftarrow>fs. width_nat f" t]
  show ?case
    using place_big_bounds [of "cum + the (lf_wire_width_bits f)" fs t "n' - 1"]
      Cons.IH [of "cum + the (lf_wire_width_bits f)" "n - 1" "n' - 1"] Cons.prems s
    by (cases n; cases n') (auto simp: Let_def member_offset_def simp flip: width_nat_def)
qed simp

lemma run_members_apart:
  assumes "run_total flds r < 65536" "n < length r"
  shows "member_end (run_members e flds r ! n) \<le> run_total flds r"
    and "n' < length r \<Longrightarrow> n \<noteq> n' \<Longrightarrow>
      member_end (run_members e flds r ! n) \<le> unat (gm_offset_bits (run_members e flds r ! n'))
      \<or> member_end (run_members e flds r ! n') \<le> unat (gm_offset_bits (run_members e flds r ! n))"
proof -
  let ?fs = "map ((!) flds) r"
  have s: "(\<Sum>f\<leftarrow>?fs. width_nat f) = run_total flds r" by (simp add: run_total_def o_def)
  have l: "unat (0 :: u16) + (\<Sum>f\<leftarrow>?fs. width_nat f) < 65536" using assms(1) by (simp only: s) simp
  have b: "unat (0 :: u16) + (\<Sum>f\<leftarrow>?fs. width_nat f) \<le> unat (run_bits flds r)"
    using unat_run_bits [OF assms(1)] by (simp only: s) simp
  show "member_end (run_members e flds r ! n) \<le> run_total flds r"
    using place_little_bounds [OF l, of n "run_bits flds r"] place_big_bounds [OF b, of n] assms
    by (cases e) (simp_all add: run_members_def unat_run_bits s [simplified])
  show "n' < length r \<Longrightarrow> n \<noteq> n' \<Longrightarrow>
      member_end (run_members e flds r ! n) \<le> unat (gm_offset_bits (run_members e flds r ! n'))
      \<or> member_end (run_members e flds r ! n') \<le> unat (gm_offset_bits (run_members e flds r ! n))"
    using place_little_order [OF l, of n n' "run_bits flds r"] place_little_order [OF l, of n' n "run_bits flds r"]
      place_big_order [OF b, of n n'] place_big_order [OF b, of n' n] assms
    by (cases e) (auto simp: run_members_def neq_iff)
qed

lemma find_group:
  assumes "groups = map (group_of flds scope_id e) (enumerate 0 rs)" "q < length rs"
  shows "List.find (\<lambda>(i, bg). bg_bitgroup_id bg = bitgroup_id scope_id q) (enumerate 0 groups)
    = Some (q, group_of flds scope_id e (q, rs ! q))"
proof -
  have "groups ! j = group_of flds scope_id e (j, rs ! j)" if "j < length rs" for j
    using that by (simp add: assms(1) nth_enumerate_eq)
  then show ?thesis
    using assms by (auto simp: find_Some_iff nth_enumerate_eq group_of_def bitgroup_id_inj intro!: exI [of _ q])
qed

fun bit_type :: "semantic_type \<Rightarrow> bool" where
  "bit_type (Bits w) = True"
| "bit_type (Primitive w e) = (w = Bit)"
| "bit_type _ = False"

lemma bit_width_lower: "bit_width (lower_field f m) \<noteq> None \<longleftrightarrow> bit_type (sf_ty f)"
  by (cases "sf_ty f") (auto simp: bit_width_def lower_field_def is_bit_field.simps split: primitive_wire_type.splits)

lemma field_strategy_bitgroup: "field_strategy_of ctx f = StBitGroup \<longleftrightarrow> lf_bitgroup_member f \<noteq> None"
  by (auto simp: field_strategy_of_def assign_strategy_def Let_def split: semantic_type.splits
      semantic_bytes_kind.splits)

lemma lower_codec_field_parts:
  "lower_codec_field ctx f scope_id i groups = Inr c \<Longrightarrow>
    cf_strategy c = field_strategy_of ctx f \<and> cf_bitgroup_member c = extract_bitgroup_member f groups"
  by (auto simp: lower_codec_field_def Let_def rbind_eq_Inr_iff)

text \<open>What the two stages make of the field at an index.\<close>

lemma scope_field_plan:
  assumes "bits_total (lower_fields fs m) < 65536"
    "detect_bitgroups (lower_fields fs m) scope_id m = Inr (groups, fs')"
    "lower_codec_fields ctx fs' scope_id' groups = Inr cfs" "i < length fs"
  shows "length cfs = length fs"
    and "\<not> bit_type (sf_ty (fs ! i)) \<Longrightarrow>
      cf_bitgroup_member (cfs ! i) = None \<and> cf_strategy (cfs ! i) \<noteq> StBitGroup"
    and "bit_type (sf_ty (fs ! i)) \<Longrightarrow> \<exists>q n. q < length groups \<and> q < length (bit_runs 0 [] (lower_fields fs m))
      \<and> n < length (bit_runs 0 [] (lower_fields fs m) ! q) \<and> bit_runs 0 [] (lower_fields fs m) ! q ! n = i
      \<and> cf_strategy (cfs ! i) = StBitGroup
      \<and> cf_bitgroup_member (cfs ! i) = Some
          \<lparr>bm_group_id = of_nat q, bm_total_bits = run_bits (lower_fields fs m) (bit_runs 0 [] (lower_fields fs m) ! q),
           bm_member_offset_bits = gm_offset_bits (run_members m (lower_fields fs m) (bit_runs 0 [] (lower_fields fs m) ! q) ! n),
           bm_member_width_bits = gm_width_bits (run_members m (lower_fields fs m) (bit_runs 0 [] (lower_fields fs m) ! q) ! n),
           bm_group_endianness = m\<rparr>"
proof -
  let ?f = "lower_fields fs m" and ?rs = "bit_runs 0 [] (lower_fields fs m)"
  note r = detect_runs_result [OF assms(1,2)]
  have len: "length fs' = length fs" using same_fields_length [OF r(3)] by (simp add: lower_fields_def)
  then show lc: "length cfs = length fs"
    using assms(3) try_map_length by (fastforce simp: lower_codec_fields_def)
  have "lower_codec_field ctx (fs' ! i) scope_id' (of_nat i) groups = Inr (cfs ! i)"
    using try_map_nth [OF assms(3) [unfolded lower_codec_fields_def], of i] assms(4) len
    by (simp add: nth_enumerate_eq)
  then have c: "cf_strategy (cfs ! i) = field_strategy_of ctx (fs' ! i)"
      "cf_bitgroup_member (cfs ! i) = extract_bitgroup_member (fs' ! i) groups"
    by (auto dest: lower_codec_field_parts)
  have fi: "?f ! i = lower_field (fs ! i) m" using assms(4) by (simp add: lower_fields_def)
  show "\<not> bit_type (sf_ty (fs ! i)) \<Longrightarrow>
      cf_bitgroup_member (cfs ! i) = None \<and> cf_strategy (cfs ! i) \<noteq> StBitGroup"
  proof -
    assume "\<not> bit_type (sf_ty (fs ! i))"
    then have "i \<notin> set (concat ?rs)" using bit_width_lower by (simp add: concat_bit_runs_0 fi)
    then have "fs' ! i = lower_field (fs ! i) m" using r(4) fi by simp
    then have "lf_bitgroup_member (fs' ! i) = None" by (simp add: lower_field_def)
    then show ?thesis by (simp add: c field_strategy_bitgroup extract_bitgroup_member_def)
  qed
  show "bit_type (sf_ty (fs ! i)) \<Longrightarrow> \<exists>q n. q < length groups \<and> q < length ?rs \<and> n < length (?rs ! q) \<and> ?rs ! q ! n = i
      \<and> cf_strategy (cfs ! i) = StBitGroup
      \<and> cf_bitgroup_member (cfs ! i) = Some
          \<lparr>bm_group_id = of_nat q, bm_total_bits = run_bits ?f (?rs ! q),
           bm_member_offset_bits = gm_offset_bits (run_members m ?f (?rs ! q) ! n),
           bm_member_width_bits = gm_width_bits (run_members m ?f (?rs ! q) ! n),
           bm_group_endianness = m\<rparr>"
  proof -
    assume "bit_type (sf_ty (fs ! i))"
    then have "bit_width (?f ! i) \<noteq> None" using bit_width_lower fi by simp
    then have "i \<in> set (concat ?rs)" using assms(4) by (simp add: concat_bit_runs_0 lower_fields_def)
    then obtain q n where q: "q < length ?rs" and n: "n < length (?rs ! q)" and iq: "?rs ! q ! n = i"
      by (auto simp: in_set_conv_nth)
    have ref: "lf_bitgroup_member (fs' ! i) =
         Some \<lparr>mr_bitgroup_id = bitgroup_id scope_id q,
               mr_offset_bits = gm_offset_bits (run_members m ?f (?rs ! q) ! n),
               mr_width_bits = gm_width_bits (run_members m ?f (?rs ! q) ! n)\<rparr>"
      using r(5) q n iq by blast
    have "cf_bitgroup_member (cfs ! i) = Some
          \<lparr>bm_group_id = of_nat q, bm_total_bits = run_bits ?f (?rs ! q),
           bm_member_offset_bits = gm_offset_bits (run_members m ?f (?rs ! q) ! n),
           bm_member_width_bits = gm_width_bits (run_members m ?f (?rs ! q) ! n),
           bm_group_endianness = m\<rparr>"
      using find_group [OF r(1) q] by (simp add: c extract_bitgroup_member_def ref group_of_def)
    moreover have "cf_strategy (cfs ! i) = StBitGroup" by (simp add: c field_strategy_bitgroup ref)
    moreover have "q < length groups" using q by (simp add: r(1))
    ultimately show ?thesis using q n iq by blast
  qed
qed

section \<open>Properties\<close>

text \<open>C1. The layout and codec stages accept exactly the well-formed modules: for a semantic
  module whose bit widths stay below the 16-bit bound, both stages succeed if and only if in
  every packet, frame variant, capsule header and capsule variant the bit runs are whole bytes
  of at most 64 bits, every measured bytes type has its size expression, and every item refers
  to a derived field or a requirement of its scope. In particular neither stage panics then.\<close>

theorem pipeline_succeeds_iff:
  assumes "module_small sem"
  shows "(\<exists>lm cm. lower_layout sem = Inr lm \<and> lower_codec lm = Inr cm) \<longleftrightarrow> module_ok sem"
proof -
  let ?m = "sem_module_endianness sem" and ?ctx = "sem_varints sem"
  have ps: "(\<exists>ls cs. try_map (\<lambda>p. lower_packet p ?m) (sem_packets sem) = Inr ls
      \<and> try_map (lower_codec_packet ?ctx) ls = Inr cs) \<longleftrightarrow> list_all (packet_ok ?m) (sem_packets sem)"
    unfolding try_map_compose using assms packet_pipeline_iff [of ?m _ ?ctx]
    by (simp add: module_small_def Let_def list_all_iff)
  have fs: "(\<exists>ls cs. try_map (\<lambda>f. lower_frame f ?m) (sem_frames sem) = Inr ls
      \<and> try_map (lower_codec_frame ?ctx) ls = Inr cs)
      \<longleftrightarrow> list_all (\<lambda>f. list_all (variant_ok ?m) (sfr_variants f)) (sem_frames sem)"
    unfolding try_map_compose using assms frame_pipeline_iff [of ?m _ ?ctx]
    by (simp add: module_small_def Let_def list_all_iff)
  have cs: "(\<exists>ls cs. try_map (\<lambda>c. lower_capsule c ?m) (sem_capsules sem) = Inr ls
      \<and> try_map (lower_codec_capsule ?ctx) ls = Inr cs) \<longleftrightarrow> list_all (capsule_ok ?m) (sem_capsules sem)"
    unfolding try_map_compose using assms capsule_pipeline_iff [of ?m _ ?ctx]
    by (simp add: module_small_def Let_def list_all_iff)
  have "(\<exists>lm. lower_layout sem = Inr lm \<and> (\<exists>cm. lower_codec lm = Inr cm)) \<longleftrightarrow>
      (\<exists>ls cs. try_map (\<lambda>p. lower_packet p ?m) (sem_packets sem) = Inr ls
        \<and> try_map (lower_codec_packet ?ctx) ls = Inr cs)
      \<and> (\<exists>ls cs. try_map (\<lambda>f. lower_frame f ?m) (sem_frames sem) = Inr ls
        \<and> try_map (lower_codec_frame ?ctx) ls = Inr cs)
      \<and> (\<exists>ls cs. try_map (\<lambda>c. lower_capsule c ?m) (sem_capsules sem) = Inr ls
        \<and> try_map (lower_codec_capsule ?ctx) ls = Inr cs)"
    unfolding lower_layout_Inr lower_codec_Inr_iff by auto
  then have "(\<exists>lm cm. lower_layout sem = Inr lm \<and> lower_codec lm = Inr cm) \<longleftrightarrow>
      list_all (packet_ok ?m) (sem_packets sem)
      \<and> list_all (\<lambda>f. list_all (variant_ok ?m) (sfr_variants f)) (sem_frames sem)
      \<and> list_all (capsule_ok ?m) (sem_capsules sem)"
    unfolding ps fs cs by blast
  then show ?thesis unfolding module_ok_def Let_def .
qed

lemma bit_runs_length: "length (bit_runs i cur fs) \<le> length fs + (if cur = [] then 0 else 1)"
proof (induction fs arbitrary: i cur)
  case (Cons f fs)
  show ?case using Cons.IH [of "Suc i" "cur @ [i]"] Cons.IH [of "Suc i" "[]"] by simp
qed simp

lemma of_nat_u32_inj: "a < 2 ^ 32 \<Longrightarrow> b < 2 ^ 32 \<Longrightarrow> (of_nat a :: u32) = of_nat b \<longleftrightarrow> a = b"
  by (simp add: word_of_nat_eq_iff take_bit_nat_eq_self)

definition member_at :: "endianness \<Rightarrow> layout_field list \<Rightarrow> nat \<Rightarrow> nat \<Rightarrow> bitgroup_member" where
  "member_at m f q n =
     \<lparr>bm_group_id = of_nat q, bm_total_bits = run_bits f (bit_runs 0 [] f ! q),
      bm_member_offset_bits = gm_offset_bits (run_members m f (bit_runs 0 [] f ! q) ! n),
      bm_member_width_bits = gm_width_bits (run_members m f (bit_runs 0 [] f ! q) ! n),
      bm_group_endianness = m\<rparr>"

lemma scope_member:
  assumes "bits_total (lower_fields fs m) < 65536"
    "detect_bitgroups (lower_fields fs m) scope_id m = Inr (groups, fs')"
    "lower_codec_fields ctx fs' scope_id' groups = Inr cfs" "i < length fs"
    "cf_bitgroup_member (cfs ! i) = Some b"
  obtains q n where "q < length (bit_runs 0 [] (lower_fields fs m))"
    "n < length (bit_runs 0 [] (lower_fields fs m) ! q)" "bit_runs 0 [] (lower_fields fs m) ! q ! n = i"
    "b = member_at m (lower_fields fs m) q n"
proof -
  have "bit_type (sf_ty (fs ! i))" using scope_field_plan(2) [OF assms(1-4)] assms(5) by auto
  from scope_field_plan(3) [OF assms(1-4) this] assms(5) show thesis
    using that by (auto simp: member_at_def)
qed

lemma member_inside:
  assumes "bits_total f < 65536" "detect_bitgroups f scope_id m = Inr (groups, fs')"
    "q < length (bit_runs 0 [] f)" "n < length (bit_runs 0 [] f ! q)"
  shows "unat (bm_member_offset_bits (member_at m f q n)) + unat (bm_member_width_bits (member_at m f q n))
      \<le> unat (bm_total_bits (member_at m f q n)) \<and> unat (bm_total_bits (member_at m f q n)) \<le> 64"
proof -
  have r: "bit_runs 0 [] f ! q \<in> set (bit_runs 0 [] f)" using assms(3) by simp
  then have s: "run_total f (bit_runs 0 [] f ! q) < 65536" using run_total_le assms(1) by (meson le_less_trans)
  have "run_total f (bit_runs 0 [] f ! q) \<le> 64"
    using detect_runs_result(2) [OF assms(1,2)] r run_ok_nat [OF s] by blast
  then show ?thesis
    using run_members_apart(1) [OF s assms(4), of m] unat_run_bits [OF s]
    by (simp add: member_at_def member_end_def)
qed

lemma members_apart:
  assumes "bits_total f < 65536" "q < length (bit_runs 0 [] f)"
    "n < length (bit_runs 0 [] f ! q)" "n' < length (bit_runs 0 [] f ! q)" "n \<noteq> n'"
    "b = member_at m f q n" "c = member_at m f q n'"
  shows "bm_total_bits b = bm_total_bits c \<and>
      (unat (bm_member_offset_bits b) + unat (bm_member_width_bits b) \<le> unat (bm_member_offset_bits c)
       \<or> unat (bm_member_offset_bits c) + unat (bm_member_width_bits c) \<le> unat (bm_member_offset_bits b))"
proof -
  have "run_total f (bit_runs 0 [] f ! q) < 65536"
    using run_total_le [of "bit_runs 0 [] f ! q" f] assms(1,2) by simp
  from run_members_apart(2) [OF this assms(3-5), of m] show ?thesis
    by (simp add: assms(6,7) member_at_def member_end_def)
qed

lemma same_group:
  assumes "q < length (bit_runs 0 [] f)" "q' < length (bit_runs 0 [] f)" "length f < 2 ^ 32"
    "bm_group_id (member_at m f q n) = bm_group_id (member_at m f q' n')"
  shows "q = q'"
  using assms bit_runs_length [of 0 "[]" f] by (simp add: member_at_def of_nat_u32_inj)

lemma lower_codec_fields_length:
  "detect_bitgroups f scope_id m = Inr (groups, fs') \<Longrightarrow> bits_total f < 65536 \<Longrightarrow>
    lower_codec_fields ctx fs' scope_id' groups = Inr cfs \<Longrightarrow> length cfs = length f"
  using detect_runs_result(3) [of f scope_id m groups fs'] same_fields_length try_map_length
  by (fastforce simp: lower_codec_fields_def)


section \<open>Expressions survive conversion\<close>

text \<open>Expressions of a packet, frame or capsule scope: no reference to the peers of a transition
  and none to a state field, which the codec IR cannot express.\<close>

fun scope_expr :: "semantic_expr \<Rightarrow> bool" where
  "scope_expr (SLiteral v) = True"
| "scope_expr (SValueRef r) = (vr_kind r \<noteq> KStateField)"
| "scope_expr (STransitionPeerRef r) = False"
| "scope_expr (SBinary op l r) = (scope_expr l \<and> scope_expr r)"
| "scope_expr (SUnary op e) = scope_expr e"
| "scope_expr (SCoalesce e d) = (scope_expr e \<and> scope_expr d)"
| "scope_expr (SInState e si sn ti tn) = scope_expr e"
| "scope_expr (SSubscript b i) = (scope_expr b \<and> scope_expr i)"
| "scope_expr (SStateConstructor si sn ti tn args) = list_all scope_expr args"
| "scope_expr (SFill v c) = (scope_expr v \<and> scope_expr c)"
| "scope_expr (SSlice b s e) = (scope_expr b \<and> scope_expr s \<and> scope_expr e)"
| "scope_expr (SAll c si sn ti tn) = scope_expr c"

fun restore_literal :: "literal_value \<Rightarrow> semantic_literal" where
  "restore_literal (CLInt v) = SLInt v"
| "restore_literal (CLBool v) = SLBool v"
| "restore_literal (CLString s) = SLString s"
| "restore_literal CLNull = SLNull"

fun restore_expr :: "codec_expr \<Rightarrow> semantic_expr" where
  "restore_expr (CLiteral v) = SLiteral (restore_literal v)"
| "restore_expr (CValueRef r) = SValueRef \<lparr>vr_value_id = cvr_value_id r,
     vr_kind = (case cvr_kind r of CKField \<Rightarrow> KField | CKDerived \<Rightarrow> KDerived | CKConst \<Rightarrow> KConst)\<rparr>"
| "restore_expr (CBinary op l r) = SBinary op (restore_expr l) (restore_expr r)"
| "restore_expr (CUnary op e) = SUnary op (restore_expr e)"
| "restore_expr (CCoalesce e d) = SCoalesce (restore_expr e) (restore_expr d)"
| "restore_expr (CInState e si sn ti tn) = SInState (restore_expr e) si sn ti tn"
| "restore_expr (CSubscript b i) = SSubscript (restore_expr b) (restore_expr i)"
| "restore_expr (CStateConstructor si sn ti tn args) = SStateConstructor si sn ti tn (map restore_expr args)"
| "restore_expr (CFill v c) = SFill (restore_expr v) (restore_expr c)"
| "restore_expr (CSlice b s e) = SSlice (restore_expr b) (restore_expr s) (restore_expr e)"
| "restore_expr (CAll c si sn ti tn) = SAll (restore_expr c) si sn ti tn"

lemma restore_convert_literal: "restore_literal (convert_literal v) = v"
  by (cases v) auto

lemma restore_convert: "scope_expr e \<Longrightarrow> restore_expr (convert_semantic_expr e) = e"
proof (induction e rule: convert_semantic_expr.induct)
  case (2 r)
  then show ?case by (cases r) (auto simp: convert_value_ref_def split: value_ref_kind.splits)
next
  case (9 si sn ti tn args)
  then show ?case by (simp add: list_all_iff map_idI)
qed (simp_all add: restore_convert_literal)

text \<open>Converting an expression of a packet, frame or capsule scope to the codec IR loses
  nothing: two such expressions with the same conversion are the same expression. (A reference
  to a state field is the exception: it becomes a field reference.)\<close>

theorem convert_expr_injective:
  assumes "scope_expr e" "scope_expr e'" "convert_semantic_expr e = convert_semantic_expr e'"
  shows "e = e'"
  using assms restore_convert by metis

definition sum_expr :: semantic_expr where
  "sum_expr = SBinary ''+'' (SValueRef \<lparr>vr_value_id = ''n'', vr_kind = KField\<rparr>) (SLiteral (SLInt 2))"

theorem convert_expr_injective_witness:
  "scope_expr sum_expr \<and> sum_expr = restore_expr (convert_semantic_expr sum_expr)"
proof -
  have s: "scope_expr sum_expr" "scope_expr (restore_expr (convert_semantic_expr sum_expr))"
    "convert_semantic_expr sum_expr = convert_semantic_expr (restore_expr (convert_semantic_expr sum_expr))"
    by code_simp+
  from convert_expr_injective [OF s] s(1) show ?thesis by simp
qed

section \<open>The checksum plan of a scope\<close>

definition plan_of :: "scope_kind \<Rightarrow> string \<Rightarrow> nat \<Rightarrow> codec_field \<Rightarrow> checksum_plan" where
  "plan_of kind scope_name i f =
     (let a = the (cf_checksum_algorithm f)
      in \<lparr>cp_scope_kind = kind, cp_scope_name = scope_name, cp_field_name = cf_name f,
          cp_field_index_in_scope = of_nat i, cp_algorithm_id = a,
          cp_verify_mode = fst (checksum_modes a), cp_input_model = snd (checksum_modes a),
          cp_field_width_bytes = plan_field_width a, cp_field_endianness = cf_endianness f\<rparr>)"

lemma plan_loop_position: "plan_loop kind scope_name (enumerate n flds) =
    map_option (\<lambda>i. plan_of kind scope_name (n + i) (flds ! i)) (position (\<lambda>f. cf_checksum_algorithm f \<noteq> None) flds)"
proof (induction flds arbitrary: n)
  case (Cons f fs)
  show ?case
  proof (cases "cf_checksum_algorithm f")
    case None
    with Cons.IH [of "Suc n"] show ?thesis by (simp add: option.map_comp o_def)
  qed (simp add: plan_of_def Let_def)
qed simp

lemma catalogue_ids: "map ck_id CATALOG = [''internet'', ''crc32'', ''crc32c'', ''fletcher16'']"
  by code_simp

lemma checksum_modes_table:
  "checksum_modes ''internet'' = (CvZeroSum, CiZeroSumWholeScope)"
  "checksum_modes ''crc32'' = (CvRecomputeCompare, CiRecomputeWithSkippedField)"
  "checksum_modes ''crc32c'' = (CvRecomputeCompare, CiRecomputeWithSkippedField)"
  "checksum_modes ''fletcher16'' = (CvRecomputeCompare, CiRecomputeWithSkippedField)"
  by code_simp+

lemma catalogue_modes:
  assumes "lookup_algorithm a = Some s"
  shows "checksum_modes a = (if a = ''internet'' then (CvZeroSum, CiZeroSumWholeScope)
      else (CvRecomputeCompare, CiRecomputeWithSkippedField))"
proof -
  have "a \<in> set (map ck_id CATALOG)"
    using lookup_algorithm_id [OF assms] by auto
  then consider "a = ''internet''" | "a = ''crc32''" | "a = ''crc32c''" | "a = ''fletcher16''"
    unfolding catalogue_ids by auto
  then show ?thesis by cases (simp_all add: checksum_modes_table)
qed

text \<open>The checksum plan of a scope is the one of its first annotated field: there is none
  exactly when no field is annotated, and otherwise it names the first annotated field, its
  index and its endianness, and for an algorithm of the catalogue the width is the catalogue's
  and the whole-scope zero-sum check is planned exactly for the Internet checksum.\<close>

theorem checksum_plan_first:
  "case synthesize_checksum_plan flds kind scope_name of
     None \<Rightarrow> (\<forall>f \<in> set flds. cf_checksum_algorithm f = None)
   | Some p \<Rightarrow> (\<exists>i < length flds. (\<forall>j < i. cf_checksum_algorithm (flds ! j) = None)
       \<and> cf_checksum_algorithm (flds ! i) = Some (cp_algorithm_id p)
       \<and> cp_field_name p = cf_name (flds ! i) \<and> cp_field_index_in_scope p = of_nat i
       \<and> cp_field_endianness p = cf_endianness (flds ! i) \<and> cp_scope_kind p = kind \<and> cp_scope_name p = scope_name
       \<and> (lookup_algorithm (cp_algorithm_id p) \<noteq> None \<longrightarrow>
            checksum_field_width (cp_algorithm_id p) = Some (cp_field_width_bytes p)
            \<and> (cp_verify_mode p = CvZeroSum \<longleftrightarrow> cp_algorithm_id p = ''internet'')
            \<and> (cp_input_model p = CiZeroSumWholeScope \<longleftrightarrow> cp_algorithm_id p = ''internet'')))"
proof -
  let ?p = "position (\<lambda>f. cf_checksum_algorithm f \<noteq> None) flds"
  have eq: "synthesize_checksum_plan flds kind scope_name =
      map_option (\<lambda>i. plan_of kind scope_name i (flds ! i)) ?p"
    by (simp add: synthesize_checksum_plan_def plan_loop_position)
  show ?thesis
  proof (cases ?p)
    case None
    then have "\<forall>f \<in> set flds. cf_checksum_algorithm f = None" by (simp add: position_None)
    with None show ?thesis by (simp add: eq)
  next
    case (Some i)
    have i: "i < length flds" "cf_checksum_algorithm (flds ! i) \<noteq> None"
      using position_Some [OF Some] by auto
    obtain a where a: "cf_checksum_algorithm (flds ! i) = Some a" using i(2) by auto
    have first: "\<forall>j < i. cf_checksum_algorithm (flds ! j) = None"
      using position_first [OF Some] by simp
    have cat: "lookup_algorithm a \<noteq> None \<longrightarrow> checksum_field_width a = Some (plan_field_width a)
        \<and> (fst (checksum_modes a) = CvZeroSum \<longleftrightarrow> a = ''internet'')
        \<and> (snd (checksum_modes a) = CiZeroSumWholeScope \<longleftrightarrow> a = ''internet'')"
      using catalogue_modes [of a] by (cases "a = ''internet''") (auto simp: plan_field_width_def checksum_field_width_def)
    show ?thesis
      unfolding eq Some option.map option.case plan_of_def Let_def
      using i(1) first a cat by (intro exI [of _ i]) simp
  qed
qed

section \<open>Examples\<close>

definition sample_field :: "string \<Rightarrow> semantic_type \<Rightarrow> field_presence \<Rightarrow> semantic_field" where
  "sample_field n ty pr =
     \<lparr>sf_field_id = n, sf_name = n, sf_ty = ty, sf_presence = pr, sf_max_elements = None,
      sf_checksum_algorithm = None, sf_asn1_hint = None, sf_span = None\<rparr>"

definition sample_packet :: "semantic_field list \<Rightarrow> semantic_packet" where
  "sample_packet fs =
     \<lparr>sp_packet_id = ''p'', sp_name = ''P'', sp_derive_traits = [], sp_fields = fs, sp_derived = [],
      sp_requires = [], sp_items = map (\<lambda>f. ItField (sf_field_id f)) fs, sp_span = None\<rparr>"

definition sample_module :: "semantic_packet \<Rightarrow> semantic_module" where
  "sample_module p =
     \<lparr>sem_schema_version = ''semantic-ir/v1'', sem_compliance_profile = ''phase2_extended_current'',
      sem_module_name = ''m'', sem_module_endianness = Big, sem_imports = [], sem_varints = [],
      sem_consts = [], sem_enums = [], sem_packets = [p], sem_frames = [], sem_capsules = [],
      sem_state_machines = [], sem_static_asserts = [], sem_asn1_externs = [], sem_item_order = [''p''],
      sem_warnings = []\<rparr>"

definition nibbles :: semantic_packet where
  "nibbles = sample_packet [sample_field ''a'' (Bits 4) Always,
     sample_field ''b'' (Bits 12) (Conditional (SValueRef \<lparr>vr_value_id = ''a'', vr_kind = KField\<rparr>))]"

lemma nibbles_simps: "sp_fields nibbles = [sample_field ''a'' (Bits 4) Always,
     sample_field ''b'' (Bits 12) (Conditional (SValueRef \<lparr>vr_value_id = ''a'', vr_kind = KField\<rparr>))]"
    "sp_derived nibbles = []" "sp_requires nibbles = []" "sp_items nibbles = [ItField ''a'', ItField ''b'']"
  by (simp_all add: nibbles_def sample_packet_def sample_field_def)

lemma lower_bits_field [simp]:
  "bit_width (lower_field (sample_field n (Bits w) pr) m) = Some w"
  "lf_wire_width_bits (lower_field (sample_field n (Bits w) pr) m) = Some w"
  "sf_ty (sample_field n ty pr) = ty"
  by (simp_all add: bit_width_def lower_field_def sample_field_def is_bit_field.simps)

lemma nibbles_small: "widths_small Big (sp_fields nibbles)"
  by (simp add: widths_small_def nibbles_simps lower_fields_def bits_total_def)

lemma nibbles_ok: "packet_ok Big nibbles"
  by (simp add: packet_ok_def scope_ok_def nibbles_simps runs_ok_def lower_fields_def run_total_def width_nat_def)

lemma pipeline_succeeds_iff_witness:
  "\<exists>lm cm. lower_layout (sample_module nibbles) = Inr lm \<and> lower_codec lm = Inr cm"
proof -
  have "module_small (sample_module nibbles)" "module_ok (sample_module nibbles)"
    using nibbles_small nibbles_ok by (simp_all add: module_small_def module_ok_def sample_module_def)
  then show ?thesis using pipeline_succeeds_iff by blast
qed


definition checked_fields :: "codec_field list" where
  "checked_fields =
     (case lower_packet (sample_packet [sample_field ''a'' (Primitive U8 None) Always,
             (sample_field ''c'' (Primitive U16 (Some Big)) Always)\<lparr>sf_checksum_algorithm := Some ''internet''\<rparr>]) Big of
        Inr lp \<Rightarrow> (case lower_codec_packet [] lp of Inr cp \<Rightarrow> cpk_fields cp | Inl e \<Rightarrow> [])
      | Inl e \<Rightarrow> [])"

theorem checksum_plan_first_witness:
  "\<exists>p i. synthesize_checksum_plan checked_fields SkPacket ''P'' = Some p \<and> cp_algorithm_id p = ''internet''
    \<and> cp_field_width_bytes p = 2 \<and> cp_verify_mode p = CvZeroSum
    \<and> i < length checked_fields \<and> cp_field_name p = cf_name (checked_fields ! i)"
proof -
  have "case synthesize_checksum_plan checked_fields SkPacket ''P'' of
      Some p \<Rightarrow> cp_algorithm_id p = ''internet'' | None \<Rightarrow> False" by code_simp
  then obtain p where p: "synthesize_checksum_plan checked_fields SkPacket ''P'' = Some p"
    "cp_algorithm_id p = ''internet''" by (cases "synthesize_checksum_plan checked_fields SkPacket ''P''") auto
  have "lookup_algorithm ''internet'' \<noteq> None" "checksum_field_width ''internet'' = Some 2" by code_simp+
  with checksum_plan_first [of checked_fields SkPacket "''P''"] p show ?thesis by auto
qed

text \<open>A conditional bit field loses its condition: the grouping does not look at the
  presence, so the field of the example that is only there when \<open>a\<close> is set is planned as a
  member of the unconditional group, with its condition recorded but a strategy that does not
  consult it.\<close>

lemma conditional_bits_are_grouped:
  "\<exists>lp cp. lower_packet nibbles Big = Inr lp \<and> lower_codec_packet [] lp = Inr cp
    \<and> cf_is_optional (cpk_fields cp ! 1) \<and> cf_condition (cpk_fields cp ! 1) \<noteq> None
    \<and> cf_strategy (cpk_fields cp ! 1) = StBitGroup
    \<and> map_option bm_group_id (cf_bitgroup_member (cpk_fields cp ! 1)) = Some 0
    \<and> map_option bm_group_id (cf_bitgroup_member (cpk_fields cp ! 0)) = Some 0"
  by (simp add: lower_packet_def nibbles_simps lower_fields_def detect_bitgroups_def detect_loop.simps
      bit_scrutinee finalize_group_def Let_def lower_codec_packet_def lower_codec_fields_def
      lower_codec_field_def lower_items_def sample_field_def lower_field_def is_bit_field.simps
      extract_bitgroup_member_def field_strategy_of_def assign_strategy_def)

end
