(* ===== verification/Registry.thy ===== *)
theory Registry
  imports SemaTypes "HOL-Library.AList"
begin

text \<open>
  Errors, suggestions and name resolution of \<open>crates/wirespec-sema/src\<close>: the error values of
  \<open>error.rs\<close> with the edit distance behind "did you mean", the type registry of \<open>resolve.rs\<close>, and
  the checks of \<open>validate.rs\<close>. A \<open>HashMap\<close> is an association list with one entry per key; only
  the choice among equally good suggestions depends on the order of its keys.
\<close>

section \<open>Errors (error.rs)\<close>

datatype error_kind = UndefinedType | UndefinedState | ForwardReference | TypeMismatch
  | RemainingNotLast | DuplicateDefinition | InvalidChecksumType | DuplicateChecksum
  | ChecksumProfileViolation | InvalidLengthOrRemaining | InvalidArrayCount | InvalidBytesLength
  | SmUndefinedState | SmInvalidInitial | SmUnhandledEvent | SmDuplicateTransition
  | SmMissingAssignment | SmDelegateNotSelfTransition | SmDelegateWithAction
  | SmTerminalHasOutgoing | CyclicDependency | ReservedIdentifier | UndefinedAsn1Type
  | UnsupportedAsn1Encoding | InvalidEnumUnderlying

record sema_error =
  er_kind :: error_kind
  er_msg :: string
  er_span :: "span option"
  er_context :: "string list"
  er_hint :: "string option"

definition sema_error_new :: "error_kind \<Rightarrow> string \<Rightarrow> sema_error" where
  "sema_error_new k msg = \<lparr>er_kind = k, er_msg = msg, er_span = None, er_context = [], er_hint = None\<rparr>"

definition with_span :: "span option \<Rightarrow> sema_error \<Rightarrow> sema_error" where
  "with_span s e = e\<lparr>er_span := s\<rparr>"

definition with_context :: "string \<Rightarrow> sema_error \<Rightarrow> sema_error" where
  "with_context c e = e\<lparr>er_context := er_context e @ [c]\<rparr>"

definition with_hint :: "string \<Rightarrow> sema_error \<Rightarrow> sema_error" where
  "with_hint h e = e\<lparr>er_hint := Some h\<rparr>"

lemma er_kind_simps [simp]:
  "er_kind (sema_error_new k m) = k" "er_kind (with_span s e) = er_kind e"
  "er_kind (with_context c e) = er_kind e" "er_kind (with_hint h e) = er_kind e"
  by (simp_all add: sema_error_new_def with_span_def with_context_def with_hint_def)

text \<open>A name between single quotes, as the messages print it, and a line feed.\<close>

definition quoted :: "string \<Rightarrow> string" where
  "quoted s = CHR 0x27 # s @ [CHR 0x27]"

definition newline :: string where
  "newline = [CHR 0x0A]"

definition sema_error_display :: "sema_error \<Rightarrow> string" where
  "sema_error_display e =
     (case er_span e of Some s \<Rightarrow> ''error at offset '' @ show_nat (unat (offset s)) @ '': '' | None \<Rightarrow> [])
     @ er_msg e
     @ concat (map (\<lambda>c. newline @ ''  in '' @ c) (er_context e))
     @ (case er_hint e of Some h \<Rightarrow> newline @ ''  hint: '' @ h | None \<Rightarrow> [])"

text \<open>\<open>offset_to_line_col\<close>: lines and byte columns, both counted from one.\<close>

definition is_newline :: "char \<Rightarrow> bool" where
  "is_newline c \<longleftrightarrow> c = CHR 0x0A"

definition rfind_newline :: "string \<Rightarrow> nat option" where
  "rfind_newline s = map_option (\<lambda>i. length s - 1 - i) (position is_newline (rev s))"

definition offset_to_line_col :: "string \<Rightarrow> usize \<Rightarrow> usize \<times> usize" where
  "offset_to_line_col source off =
     (let off = min off (length source);
          before = take off source;
          line = length (filter is_newline before) + 1
      in (line, case rfind_newline before of Some nl \<Rightarrow> off - nl | None \<Rightarrow> off + 1))"

section \<open>Suggestions (error.rs)\<close>

text \<open>The two rows of the edit-distance table. Names are ASCII identifiers, so their characters
  are their bytes.\<close>

definition lev_cell :: "char \<Rightarrow> nat list \<Rightarrow> nat \<times> char \<Rightarrow> nat list \<Rightarrow> nat list" where
  "lev_cell ca prev jb cur =
     (let j = fst jb; cost = (if ca = snd jb then 0 else 1)
      in cur[j + 1 := min (min (prev ! j + cost) (prev ! (j + 1) + 1)) (cur ! j + 1)])"

definition lev_row :: "string \<Rightarrow> nat \<times> char \<Rightarrow> nat list \<times> nat list \<Rightarrow> nat list \<times> nat list" where
  "lev_row b ia rows =
     (let prev = fst rows; cur = (snd rows)[0 := fst ia + 1];
          cur = fold (lev_cell (snd ia) prev) (enumerate 0 b) cur
      in (cur, prev))"

definition levenshtein :: "string \<Rightarrow> string \<Rightarrow> nat" where
  "levenshtein a b =
     (if length a = 0 then length b
      else if length b = 0 then length a
      else fst (fold (lev_row b) (enumerate 0 a) ([0 ..< length b + 1], replicate (length b + 1) 0)) ! length b)"

text \<open>\<open>Iterator::min_by_key\<close> keeps the first of the least elements.\<close>

fun min_by_key :: "('a \<Rightarrow> nat) \<Rightarrow> 'a list \<Rightarrow> 'a option" where
  "min_by_key k [] = None"
| "min_by_key k (x # xs) = (case min_by_key k xs of None \<Rightarrow> Some x | Some y \<Rightarrow> Some (if k x \<le> k y then x else y))"

definition suggest_similar :: "string \<Rightarrow> string list \<Rightarrow> nat \<Rightarrow> string option" where
  "suggest_similar name candidates max_distance =
     map_option fst (min_by_key snd
       (filter (\<lambda>(c, d). d \<le> max_distance \<and> d > 0) (map (\<lambda>c. (c, levenshtein name c)) candidates)))"

section \<open>The type registry (resolve.rs)\<close>

datatype decl_kind = KVarInt | KPacket | KFrame | KCapsule | KEnum | KFlags | KStateMachine | KConstDecl

datatype resolved_type = RPrimitive primitive_wire_type "endianness option" | RUserDefined string decl_kind

record type_registry =
  reg_endianness :: endianness
  declarations :: "(string \<times> decl_kind) list"
  aliases :: "(string \<times> string) list"
  const_values :: "(string \<times> int) list"

definition registry_new :: "endianness \<Rightarrow> type_registry" where
  "registry_new e = \<lparr>reg_endianness = e, declarations = [], aliases = [], const_values = []\<rparr>"

definition register_external :: "string \<Rightarrow> decl_kind \<Rightarrow> type_registry \<Rightarrow> type_registry" where
  "register_external name kind r = r\<lparr>declarations := AList.update name kind (declarations r)\<rparr>"

definition duplicate_message :: "string \<Rightarrow> string" where
  "duplicate_message name = ''duplicate definition: '' @ quoted name"

definition register_decl :: "string \<Rightarrow> decl_kind \<Rightarrow> type_registry \<Rightarrow> string + type_registry" where
  "register_decl name kind r =
     (if map_of (declarations r) name \<noteq> None then Inl (duplicate_message name)
      else if map_of (aliases r) name \<noteq> None then Inl (duplicate_message name)
      else Inr (r\<lparr>declarations := AList.update name kind (declarations r)\<rparr>))"

definition register_alias :: "string \<Rightarrow> string \<Rightarrow> type_registry \<Rightarrow> string + type_registry" where
  "register_alias alias target r =
     (if map_of (declarations r) alias \<noteq> None then Inl (duplicate_message alias)
      else if map_of (aliases r) alias \<noteq> None then Inl (duplicate_message alias)
      else Inr (r\<lparr>aliases := AList.update alias target (aliases r)\<rparr>))"

definition register_const :: "string \<Rightarrow> int \<Rightarrow> type_registry \<Rightarrow> type_registry" where
  "register_const name v r = r\<lparr>const_values := AList.update name v (const_values r)\<rparr>"

definition get_const_value :: "type_registry \<Rightarrow> string \<Rightarrow> int option" where
  "get_const_value r name = map_of (const_values r) name"

definition primitive_table :: "endianness \<Rightarrow> (string \<times> (primitive_wire_type \<times> endianness option)) list" where
  "primitive_table m =
     [(''u8'', U8, None), (''u16'', U16, Some m), (''u24'', U24, Some m), (''u32'', U32, Some m),
      (''u64'', U64, Some m), (''i8'', I8, None), (''i16'', I16, Some m), (''i32'', I32, Some m),
      (''i64'', I64, Some m), (''u16be'', U16, Some Big), (''u16le'', U16, Some Little),
      (''u24be'', U24, Some Big), (''u24le'', U24, Some Little), (''u32be'', U32, Some Big),
      (''u32le'', U32, Some Little), (''u64be'', U64, Some Big), (''u64le'', U64, Some Little),
      (''i16be'', I16, Some Big), (''i16le'', I16, Some Little), (''i32be'', I32, Some Big),
      (''i32le'', I32, Some Little), (''i64be'', I64, Some Big), (''i64le'', I64, Some Little),
      (''bool'', Bool, None), (''bit'', Bit, None)]"

definition resolve_primitive :: "type_registry \<Rightarrow> string \<Rightarrow> (primitive_wire_type \<times> endianness option) option" where
  "resolve_primitive r name = map_of (primitive_table (reg_endianness r)) name"

definition registry_contains :: "type_registry \<Rightarrow> string \<Rightarrow> bool" where
  "registry_contains r name \<longleftrightarrow>
     map_of (declarations r) name \<noteq> None \<or> map_of (aliases r) name \<noteq> None \<or> resolve_primitive r name \<noteq> None"

definition get_decl_kind :: "type_registry \<Rightarrow> string \<Rightarrow> decl_kind option" where
  "get_decl_kind r name = map_of (declarations r) name"

function resolve_type_name_inner :: "type_registry \<Rightarrow> string \<Rightarrow> nat \<Rightarrow> resolved_type option" where
  "resolve_type_name_inner r name depth =
     (if depth > 32 then None
      else case map_of (aliases r) name of
             Some target \<Rightarrow> resolve_type_name_inner r target (depth + 1)
           | None \<Rightarrow>
               (case resolve_primitive r name of
                  Some (prim, endian) \<Rightarrow> Some (RPrimitive prim endian)
                | None \<Rightarrow>
                    (case map_of (declarations r) name of
                       Some kind \<Rightarrow> Some (RUserDefined name kind)
                     | None \<Rightarrow> None)))"
  by pat_completeness auto
termination by (relation "measure (\<lambda>(r, name, depth). 33 - depth)") auto

declare resolve_type_name_inner.simps [simp del]

definition resolve_type_name :: "type_registry \<Rightarrow> string \<Rightarrow> resolved_type option" where
  "resolve_type_name r name = resolve_type_name_inner r name 0"

definition all_names :: "type_registry \<Rightarrow> string list" where
  "all_names r = map fst (declarations r) @ map fst (aliases r) @
     [''u8'', ''u16'', ''u32'', ''u64'', ''i8'', ''i16'', ''i32'', ''i64'', ''u16be'', ''u16le'', ''u24'',
      ''u24be'', ''u24le'', ''u32be'', ''u32le'', ''u64be'', ''u64le'', ''i16be'', ''i16le'', ''i32be'',
      ''i32le'', ''i64be'', ''i64le'', ''bool'', ''bit'']"

section \<open>Checks (validate.rs)\<close>

record field_descriptor =
  de_name :: string
  de_is_remaining :: bool
  de_is_fill :: bool
  de_is_wire :: bool

definition validate_remaining_is_last :: "field_descriptor list \<Rightarrow> sema_error + unit" where
  "validate_remaining_is_last descs =
     (let wire_fields = filter de_is_wire descs
      in try_each (\<lambda>(i, field).
           if (de_is_remaining field \<or> de_is_fill field) \<and> i < length wire_fields - 1
           then Inl (sema_error_new RemainingNotLast
                  (''field '' @ quoted (de_name field) @ '' consumes remaining scope but is not the last wire field''))
           else Inr ()) (enumerate 0 wire_fields))"

fun join_with :: "string \<Rightarrow> string list \<Rightarrow> string" where
  "join_with sep [] = []"
| "join_with sep [s] = s"
| "join_with sep (s # t # r) = s @ sep @ join_with sep (t # r)"

definition validate_single_checksum :: "string list \<Rightarrow> string \<Rightarrow> sema_error + unit" where
  "validate_single_checksum checksum_fields scope_desc =
     (if length checksum_fields > 1
      then Inl (sema_error_new DuplicateChecksum
             (''multiple @checksum fields in '' @ scope_desc @ '': '' @ join_with '', '' checksum_fields))
      else Inr ())"

definition validate_no_forward_refs :: "string list \<Rightarrow> string list \<Rightarrow> string \<Rightarrow> span option \<Rightarrow> sema_error + unit" where
  "validate_no_forward_refs referenced declared field_name sp =
     try_each (\<lambda>name.
       if name \<notin> set declared
       then Inl (with_hint (quoted name @ '' must be declared before '' @ quoted field_name)
              (with_span sp (sema_error_new ForwardReference
                (''field '' @ quoted field_name @ '' references undeclared '' @ quoted name))))
       else Inr ()) referenced"

definition validate_checksum_field_type :: "string \<Rightarrow> string \<Rightarrow> string \<Rightarrow> sema_error + unit" where
  "validate_checksum_field_type algorithm field_type_name field_name =
     (case checksum_required_type algorithm of
        Some req \<Rightarrow>
          if field_type_name \<noteq> req
          then Inl (sema_error_new InvalidChecksumType
                 (''@checksum('' @ algorithm @ '') requires field type '' @ quoted req @ '', but ''
                  @ quoted field_name @ '' has type '' @ quoted field_type_name))
          else Inr ()
      | None \<Rightarrow> Inr ())"

definition validate_checksum_profile :: "string \<Rightarrow> compliance_profile \<Rightarrow> sema_error + unit" where
  "validate_checksum_profile algorithm profile =
     (if algorithm \<notin> set (allowed_checksum_algorithms profile)
      then Inl (with_hint ''use --profile phase2_extended_current to enable extension algorithms''
             (sema_error_new ChecksumProfileViolation
                (''@checksum('' @ algorithm @ '') is not available in profile '' @ profile_as_str profile)))
      else Inr ())"

section \<open>The contract of a name table\<close>

text \<open>Insertion refuses a taken name, and otherwise binds exactly the new name.\<close>

locale name_table =
  fixes ins :: "string \<Rightarrow> 'v \<Rightarrow> 't \<Rightarrow> 'e + 't"
    and look :: "'t \<Rightarrow> string \<Rightarrow> 'v option"
    and taken :: "'t \<Rightarrow> string \<Rightarrow> bool"
  assumes ins_fails: "(\<exists>e. ins n v t = Inl e) \<longleftrightarrow> taken t n"
    and ins_look: "ins n v t = Inr t' \<Longrightarrow> look t' m = (if m = n then Some v else look t m)"
    and ins_taken: "ins n v t = Inr t' \<Longrightarrow> taken t' m \<longleftrightarrow> m = n \<or> taken t m"
    and look_taken: "look t m \<noteq> None \<Longrightarrow> taken t m"
begin

lemma ins_succeeds: "(\<exists>t'. ins n v t = Inr t') \<longleftrightarrow> \<not> taken t n"
  using ins_fails [of n v t] by (cases "ins n v t") auto

lemma ins_fresh: "ins n v t = Inr t' \<Longrightarrow> \<not> taken t n"
  using ins_succeeds by blast

lemma ins_keeps: "ins n v t = Inr t' \<Longrightarrow> look t m = Some w \<Longrightarrow> look t' m = Some w"
  using ins_look [of n v t t' m] look_taken [of t m] ins_fresh [of n v t t'] by auto

end

definition name_taken :: "type_registry \<Rightarrow> string \<Rightarrow> bool" where
  "name_taken r n \<longleftrightarrow> map_of (declarations r) n \<noteq> None \<or> map_of (aliases r) n \<noteq> None"

interpretation decls: name_table register_decl get_decl_kind name_taken
  by unfold_locales
    (auto simp: register_decl_def get_decl_kind_def name_taken_def update_conv' split: if_splits)

interpretation alias_table: name_table register_alias "\<lambda>r. map_of (aliases r)" name_taken
  by unfold_locales
    (auto simp: register_alias_def name_taken_def update_conv' split: if_splits)

section \<open>Resolution follows alias chains\<close>

text \<open>The name after a number of alias steps, and what a name that is no alias means.\<close>

fun follow :: "type_registry \<Rightarrow> nat \<Rightarrow> string \<Rightarrow> string option" where
  "follow r 0 name = Some name"
| "follow r (Suc k) name = (case map_of (aliases r) name of None \<Rightarrow> None | Some t \<Rightarrow> follow r k t)"

definition base_type :: "type_registry \<Rightarrow> string \<Rightarrow> resolved_type option" where
  "base_type r name =
     (case resolve_primitive r name of
        Some (prim, endian) \<Rightarrow> Some (RPrimitive prim endian)
      | None \<Rightarrow> map_option (RUserDefined name) (map_of (declarations r) name))"

lemma resolve_inner_follow:
  "resolve_type_name_inner r name d = Some t \<longleftrightarrow>
    (\<exists>k n. d + k \<le> 32 \<and> follow r k name = Some n \<and> map_of (aliases r) n = None \<and> base_type r n = Some t)"
proof (induction r name d rule: resolve_type_name_inner.induct)
  case (1 r name d)
  show ?case
  proof (cases "d > 32")
    case True
    then show ?thesis by (subst resolve_type_name_inner.simps) auto
  next
    case False
    show ?thesis
    proof (cases "map_of (aliases r) name")
      case None
      have "follow r k name = Some n \<longleftrightarrow> k = 0 \<and> n = name" for k n
        using None by (cases k) auto
      then show ?thesis
        using None False by (subst resolve_type_name_inner.simps)
          (auto simp: base_type_def split: option.splits)
    next
      case (Some a)
      have "resolve_type_name_inner r name d = resolve_type_name_inner r a (d + 1)"
        using Some False by (subst resolve_type_name_inner.simps) simp
      moreover have "(\<exists>k n. d + k \<le> 32 \<and> follow r k name = Some n \<and> map_of (aliases r) n = None \<and> base_type r n = Some t)
          \<longleftrightarrow> (\<exists>k n. (d + 1) + k \<le> 32 \<and> follow r k a = Some n \<and> map_of (aliases r) n = None \<and> base_type r n = Some t)"
        (is "?L \<longleftrightarrow> ?R")
      proof
        assume ?L
        then obtain k n where k: "d + k \<le> 32" "follow r k name = Some n" "map_of (aliases r) n = None" "base_type r n = Some t"
          by blast
        then show ?R using Some by (cases k) auto
      next
        assume ?R
        then obtain k n where k: "(d + 1) + k \<le> 32" "follow r k a = Some n" "map_of (aliases r) n = None" "base_type r n = Some t"
          by blast
        then have "d + Suc k \<le> 32 \<and> follow r (Suc k) name = Some n" using Some by simp
        with k show ?L by blast
      qed
      ultimately show ?thesis using 1 [OF False Some] by simp
    qed
  qed
qed

text \<open>C28. A type name resolves exactly when at most 32 alias steps lead from it to a name that
  is not an alias, and it then means what that name means: a primitive type if the name is one,
  otherwise the declaration of that name. In particular a cycle of aliases resolves to nothing.\<close>

theorem resolve_type_name_iff:
  "resolve_type_name r name = Some t \<longleftrightarrow>
    (\<exists>k \<le> 32. \<exists>n. follow r k name = Some n \<and> map_of (aliases r) n = None \<and> base_type r n = Some t)"
  using resolve_inner_follow [of r name 0 t] by (auto simp: resolve_type_name_def)

text \<open>A name that is registered and not a primitive resolves to its declaration.\<close>

lemma resolve_declared:
  "\<not> name_taken r n \<or> map_of (aliases r) n = None \<Longrightarrow> get_decl_kind r n = Some k \<Longrightarrow>
    resolve_primitive r n = None \<Longrightarrow> resolve_type_name r n = Some (RUserDefined n k)"
  unfolding resolve_type_name_def
  by (subst resolve_type_name_inner.simps) (auto simp: get_decl_kind_def name_taken_def)

lemma resolve_primitive_name:
  "map_of (aliases r) n = None \<Longrightarrow> resolve_primitive r n = Some (p, e) \<Longrightarrow>
    resolve_type_name r n = Some (RPrimitive p e)"
  unfolding resolve_type_name_def by (subst resolve_type_name_inner.simps) auto

lemma resolved_declared: "resolve_type_name r n = Some (RUserDefined m k) \<Longrightarrow> get_decl_kind r m = Some k"
  using resolve_inner_follow [of r n 0]
  by (auto simp: resolve_type_name_def base_type_def get_decl_kind_def split: option.splits)

section \<open>Lines and columns\<close>

text \<open>The line and column of an offset are the ones a reader counts: the line is one more
  than the number of line feeds before the offset, and the column counts from the start of that
  line, so that the bytes between hold no line feed and the byte before them, if there is one,
  is a line feed.\<close>

theorem offset_to_line_col_correct:
  assumes "offset_to_line_col source off = (line, col)" "off \<le> length source"
  shows "line = Suc (length (filter is_newline (take off source))) \<and> 1 \<le> col \<and> col \<le> off + 1
    \<and> (\<forall>i. off + 1 - col \<le> i \<and> i < off \<longrightarrow> \<not> is_newline (source ! i))
    \<and> (col \<le> off \<longrightarrow> is_newline (source ! (off - col)))"
proof (cases "position is_newline (rev (take off source))")
  case None
  then have "\<forall>c \<in> set (take off source). \<not> is_newline c" by (simp add: position_None)
  then have "\<not> is_newline (source ! i)" if "i < off" for i
    using that assms(2) by (metis in_set_conv_nth length_take min.absorb2 nth_take)
  then show ?thesis
    using assms None by (auto simp: offset_to_line_col_def rfind_newline_def Let_def min_def)
next
  case (Some p)
  let ?s = "take off source"
  have p: "p < off" "is_newline (rev ?s ! p)"
    using position_Some [OF Some] assms(2) by auto
  have nl: "is_newline (source ! (off - 1 - p))"
    using p assms(2) by (simp add: rev_nth)
  have "\<not> is_newline (source ! i)" if "off - p \<le> i" "i < off" for i
  proof -
    have "off - 1 - i < p" using that p(1) by linarith
    from position_first [OF Some this] that assms(2) show ?thesis by (simp add: rev_nth)
  qed
  moreover have "col = p + 1 \<and> line = Suc (length (filter is_newline ?s))"
    using assms Some p by (auto simp: offset_to_line_col_def rfind_newline_def Let_def min_def)
  ultimately show ?thesis using p nl by (auto simp: Suc_le_eq)
qed

lemma offset_to_line_col_correct_witness:
  "offset_to_line_col [CHR ''a'', CHR 0x0A, CHR ''b'', CHR ''c''] 3 = (2, 2)
    \<and> is_newline ([CHR ''a'', CHR 0x0A, CHR ''b'', CHR ''c''] ! (3 - 2))"
proof -
  let ?s = "[CHR ''a'', CHR 0x0A, CHR ''b'', CHR ''c'']"
  have "offset_to_line_col ?s 3 = (2, 2)" by code_simp
  then show ?thesis using offset_to_line_col_correct [of ?s 3 2 2] by simp
qed

section \<open>The edit distance table\<close>

text \<open>The recursive distance that the two-row table computes, over the reversed prefixes.\<close>

fun lev :: "'a list \<Rightarrow> 'a list \<Rightarrow> nat" where
  "lev [] b = length b"
| "lev (x # xs) [] = Suc (length xs)"
| "lev (x # xs) (y # ys) =
     min (min (lev xs ys + (if x = y then 0 else 1)) (lev xs (y # ys) + 1)) (lev (x # xs) ys + 1)"

lemma lev_Nil2 [simp]: "lev a [] = length a"
  by (cases a) simp_all

lemma lev_zero_iff: "lev a b = 0 \<longleftrightarrow> a = b"
  by (induction a b rule: lev.induct) (auto simp: min_def)

lemma lev_commute: "lev a b = lev b a"
  by (induction a b rule: lev.induct) (auto simp: min_def)

lemma lev_length: "length a \<le> length b + lev a b"
  by (induction a b rule: lev.induct) (auto simp: min_def)

text \<open>The inner loop fills one row from the row above it.\<close>

lemma lev_cells:
  assumes "length cur = length b + 1" "length prev = length b + 1"
    "\<And>j. j \<le> length b \<Longrightarrow> prev ! j = lev xs (rev (take j b))"
    "\<And>j. j \<le> n \<Longrightarrow> cur ! j = lev (x # xs) (rev (take j b))" "n \<le> length b"
  shows "length (fold (lev_cell x prev) (enumerate n (drop n b)) cur) = length b + 1
    \<and> (\<forall>j \<le> length b. fold (lev_cell x prev) (enumerate n (drop n b)) cur ! j = lev (x # xs) (rev (take j b)))"
  using assms(1,4,5)
proof (induction "length b - n" arbitrary: n cur)
  case 0
  then show ?case by simp
next
  case (Suc k)
  then have n: "n < length b" by linarith
  let ?cur = "lev_cell x prev (n, b ! n) cur"
  have rt: "rev (take (Suc n) b) = b ! n # rev (take n b)" using n by (simp add: take_Suc_conv_app_nth)
  have "?cur = cur[Suc n := lev (x # xs) (rev (take (Suc n) b))]"
    using n assms(3) [of n] assms(3) [of "Suc n"] Suc.prems(2) [of n]
    by (simp add: lev_cell_def Let_def rt)
  then have "?cur ! j = lev (x # xs) (rev (take j b))" if "j \<le> Suc n" for j
    using that n Suc.prems by (cases "j = Suc n") auto
  moreover have "length ?cur = length b + 1" using Suc.prems(1) by (simp add: lev_cell_def Let_def)
  ultimately have "length (fold (lev_cell x prev) (enumerate (Suc n) (drop (Suc n) b)) ?cur) = length b + 1
    \<and> (\<forall>j \<le> length b. fold (lev_cell x prev) (enumerate (Suc n) (drop (Suc n) b)) ?cur ! j = lev (x # xs) (rev (take j b)))"
    using Suc.hyps(1) [of "Suc n" ?cur] Suc.hyps(2) n by auto
  then show ?case using Cons_nth_drop_Suc [OF n] by (metis enumerate_simps(2) fold_simps(2))
qed

lemma lev_rows:
  assumes "n \<le> length a" "length prev = length b + 1" "length cur = length b + 1"
    "\<And>j. j \<le> length b \<Longrightarrow> prev ! j = lev (rev (take n a)) (rev (take j b))"
  shows "fst (fold (lev_row b) (enumerate n (drop n a)) (prev, cur)) ! length b = lev (rev a) (rev b)"
  using assms
proof (induction "length a - n" arbitrary: n prev cur)
  case 0
  then show ?case by simp
next
  case (Suc k)
  then have n: "n < length a" by linarith
  have rt: "rev (take (Suc n) a) = a ! n # rev (take n a)" using n by (simp add: take_Suc_conv_app_nth)
  let ?row = "fold (lev_cell (a ! n) prev) (enumerate 0 b) (cur[0 := n + 1])"
  have "length ?row = length b + 1
      \<and> (\<forall>j \<le> length b. ?row ! j = lev (a ! n # rev (take n a)) (rev (take j b)))"
    using lev_cells [of "cur[0 := n + 1]" b prev "rev (take n a)" 0 "a ! n"] Suc.prems n by auto
  then have "fst (fold (lev_row b) (enumerate (Suc n) (drop (Suc n) a)) (?row, prev)) ! length b = lev (rev a) (rev b)"
    using Suc.hyps(1) [of "Suc n" ?row prev] Suc.hyps(2) Suc.prems n by (simp add: rt)
  moreover have "lev_row b (n, a ! n) (prev, cur) = (?row, prev)" by (simp add: lev_row_def Let_def)
  ultimately show ?case using Cons_nth_drop_Suc [OF n] by (metis enumerate_simps(2) fold_simps(2))
qed

text \<open>The two-row table of \<open>levenshtein\<close> computes the recursive edit distance, so that its
  result is zero exactly for equal names.\<close>

theorem levenshtein_correct:
  "levenshtein a b = lev (rev a) (rev b) \<and> (levenshtein a b = 0 \<longleftrightarrow> a = b)"
proof -
  have "levenshtein a b = lev (rev a) (rev b)"
  proof (cases "a = [] \<or> b = []")
    case True
    then show ?thesis by (auto simp: levenshtein_def)
  next
    case False
    then show ?thesis
      using lev_rows [of 0 a "[0 ..< length b + 1]" b "replicate (length b + 1) 0"]
      by (simp add: levenshtein_def min_def del: upt_Suc)
  qed
  then show ?thesis by (simp add: lev_zero_iff)
qed

end
