(* ===== verification/TypeRes.thy ===== *)
theory TypeRes
  imports Registry
begin

text \<open>
  Expressions and types in pass 2 of the analyzer, \<open>crates/wirespec-sema/src/analyzer\<close>: the
  helpers of \<open>mod.rs\<close> and the resolution functions of \<open>lower.rs\<close>. The state of the analyzer is the
  record \<open>analyzer\<close>; the pending ASN.1 hint that \<open>resolve_type_expr\<close> leaves for \<open>lower_field\<close> is part
  of its result, since \<open>lower_field\<close> clears it before the call.
\<close>

section \<open>Analyzer state\<close>

record analyzer =
  an_registry :: type_registry
  an_profile :: compliance_profile
  an_errors :: "sema_error list"
  an_warnings :: "sema_warning list"
  an_external_types :: "(string \<times> decl_kind) list"
  an_asn1_externs :: "asn1_extern_decl list"

definition analyzer_new :: "compliance_profile \<Rightarrow> analyzer" where
  "analyzer_new profile =
     \<lparr>an_registry = registry_new Big, an_profile = profile, an_errors = [], an_warnings = [],
      an_external_types = [], an_asn1_externs = []\<rparr>"

fun first_error :: "analyzer \<Rightarrow> sema_error + unit" where
  "first_error a = (case an_errors a of [] \<Rightarrow> Inr () | e # es \<Rightarrow> Inl e)"

section \<open>Helpers (mod.rs)\<close>

fun binop_to_string :: "binop \<Rightarrow> string" where
  "binop_to_string Add = ''+''" | "binop_to_string Sub = ''-''" | "binop_to_string Mul = ''*''"
| "binop_to_string Div = ''/''" | "binop_to_string Mod = ''%''" | "binop_to_string BitAnd = ''&''"
| "binop_to_string BitOr = ''|''" | "binop_to_string BitXor = ''^''" | "binop_to_string Shl = ''<<''"
| "binop_to_string Shr = ''>>''" | "binop_to_string Eq = ''==''" | "binop_to_string Ne = ''!=''"
| "binop_to_string Lt = ''<''" | "binop_to_string Le = ''<=''" | "binop_to_string Gt = ''>''"
| "binop_to_string Ge = ''>=''" | "binop_to_string And = ''and''" | "binop_to_string Or = ''or''"

fun unaryop_to_string :: "unaryop \<Rightarrow> string" where
  "unaryop_to_string Not = ''!''" | "unaryop_to_string Neg = ''-''"

fun is_integer_underlying :: "semantic_type \<Rightarrow> bool" where
  "is_integer_underlying (Primitive wire e) = (wire \<in> {U8, U16, U24, U32, U64, I8, I16, I32, I64})"
| "is_integer_underlying _ = False"

fun derive_of_arg :: "ast_annotation_arg \<Rightarrow> derive_trait list" where
  "derive_of_arg (AIdentifier name) =
     (if name = ''debug'' then [Debug] else if name = ''compare'' then [Compare] else [])"
| "derive_of_arg _ = []"

definition extract_derive_traits :: "ast_annotation list \<Rightarrow> derive_trait list" where
  "extract_derive_traits annotations =
     concat (map (\<lambda>ann. if an_name ann = ''derive'' then concat (map derive_of_arg (an_args ann)) else []) annotations)"

fun lower_pattern :: "ast_pattern \<Rightarrow> semantic_pattern" where
  "lower_pattern (PValue v s) = SPExact v"
| "lower_pattern (PRangeInclusive a b s) = SPRangeInclusive a b"
| "lower_pattern (PWildcard s) = SPWildcard"

fun type_expr_name :: "ast_type_expr \<Rightarrow> string" where
  "type_expr_name (TNamed name s) = name"
| "type_expr_name (TBits width s) = ''bits['' @ show_nat (unat width) @ '']''"
| "type_expr_name (TBytes k f e s) = ''bytes''"
| "type_expr_name (TArray t c w s) = ''['' @ type_expr_name t @ '']''"
| "type_expr_name (TOptional c t s) = type_expr_name t"
| "type_expr_name (TMatch f bs s) = ''match''"
| "type_expr_name (TAsn1 n enc l s) = ''asn1('' @ n @ '')''"

fun extract_base_name :: "ast_expr \<Rightarrow> string" where
  "extract_base_name (ENameRef name s) = name"
| "extract_base_name (EMemberAccess base field s) = extract_base_name base @ ''.'' @ field"
| "extract_base_name _ = ''_''"

fun collect_expr_refs :: "ast_expr \<Rightarrow> string list" where
  "collect_expr_refs (ENameRef name s) = [name]"
| "collect_expr_refs (EBinary op l r s) = collect_expr_refs l @ collect_expr_refs r"
| "collect_expr_refs (EUnary op e s) = collect_expr_refs e"
| "collect_expr_refs (EMemberAccess b f s) = collect_expr_refs b"
| "collect_expr_refs (ECoalesce e d s) = collect_expr_refs e @ collect_expr_refs d"
| "collect_expr_refs (ESubscript b i s) = collect_expr_refs b @ collect_expr_refs i"
| "collect_expr_refs (EFill v c s) = collect_expr_refs v @ collect_expr_refs c"
| "collect_expr_refs (ESlice b x y s) = collect_expr_refs b @ collect_expr_refs x @ collect_expr_refs y"
| "collect_expr_refs (EInState e n s) = collect_expr_refs e"
| "collect_expr_refs (EAll c n s) = collect_expr_refs c"
| "collect_expr_refs (EStateConstructor m n args s) = concat (map collect_expr_refs args)"
| "collect_expr_refs (EInt v s) = []"
| "collect_expr_refs (EBool v s) = []"
| "collect_expr_refs (ENull s) = []"

fun collect_type_expr_refs :: "ast_type_expr \<Rightarrow> string list"
  and collect_branch_refs :: "ast_match_branch \<Rightarrow> string list" where
  "collect_type_expr_refs (TNamed n s) = []"
| "collect_type_expr_refs (TBits w s) = []"
| "collect_type_expr_refs (TBytes k f size_expr s) =
     (case size_expr of Some e \<Rightarrow> collect_expr_refs e | None \<Rightarrow> [])"
| "collect_type_expr_refs (TArray t c w s) =
     collect_type_expr_refs t
     @ (case c of CountExpr e \<Rightarrow> collect_expr_refs e | CountFill \<Rightarrow> [])
     @ (case w of Some e \<Rightarrow> collect_expr_refs e | None \<Rightarrow> [])"
| "collect_type_expr_refs (TOptional cond t s) = collect_expr_refs cond @ collect_type_expr_refs t"
| "collect_type_expr_refs (TMatch f branches s) = concat (map collect_branch_refs branches)"
| "collect_type_expr_refs (TAsn1 n enc lng s) =
     (case lng of LenExpr e \<Rightarrow> collect_expr_refs e | LenRemaining \<Rightarrow> [])"
| "collect_branch_refs (MatchBranch p t s) = collect_type_expr_refs t"

section \<open>Expression lowering (lower.rs)\<close>

fun is_peer_name :: "ast_expr \<Rightarrow> bool" where
  "is_peer_name (ENameRef name s) = (name = ''src'' \<or> name = ''dst'')"
| "is_peer_name _ = False"

definition lower_name_ref :: "type_registry \<Rightarrow> string list \<Rightarrow> string \<Rightarrow> semantic_expr" where
  "lower_name_ref reg declared name =
     (if name \<in> set declared then SValueRef \<lparr>vr_value_id = name, vr_kind = KField\<rparr>
      else if get_const_value reg name \<noteq> None then SValueRef \<lparr>vr_value_id = name, vr_kind = KConst\<rparr>
      else SValueRef \<lparr>vr_value_id = name, vr_kind = KField\<rparr>)"

fun lower_expr :: "type_registry \<Rightarrow> string list \<Rightarrow> ast_expr \<Rightarrow> semantic_expr" where
  "lower_expr reg declared (EInt value s) = SLiteral (SLInt value)"
| "lower_expr reg declared (EBool value s) = SLiteral (SLBool value)"
| "lower_expr reg declared (ENull s) = SLiteral SLNull"
| "lower_expr reg declared (ENameRef name s) = lower_name_ref reg declared name"
| "lower_expr reg declared (EBinary op l r s) =
     SBinary (binop_to_string op) (lower_expr reg declared l) (lower_expr reg declared r)"
| "lower_expr reg declared (EUnary op e s) = SUnary (unaryop_to_string op) (lower_expr reg declared e)"
| "lower_expr reg declared (ECoalesce e d s) = SCoalesce (lower_expr reg declared e) (lower_expr reg declared d)"
| "lower_expr reg declared (EMemberAccess base field s) =
     (if is_peer_name base
      then STransitionPeerRef
             \<lparr>pr_peer = (if extract_base_name base = ''src'' then Src else Dst),
              pr_event_param_id = None, pr_path = [field]\<rparr>
      else SValueRef \<lparr>vr_value_id = extract_base_name base @ ''.'' @ field, vr_kind = KField\<rparr>)"
| "lower_expr reg declared (ESubscript b i s) = SSubscript (lower_expr reg declared b) (lower_expr reg declared i)"
| "lower_expr reg declared (EFill v c s) = SFill (lower_expr reg declared v) (lower_expr reg declared c)"
| "lower_expr reg declared (ESlice b x y s) =
     SSlice (lower_expr reg declared b) (lower_expr reg declared x) (lower_expr reg declared y)"
| "lower_expr reg declared (EStateConstructor m n args s) =
     SStateConstructor (''sm:'' @ m) m (''sm:'' @ m @ ''/state:'' @ n) n (map (lower_expr reg declared) args)"
| "lower_expr reg declared (EInState e n s) = SInState (lower_expr reg declared e) [] [] [] n"
| "lower_expr reg declared (EAll c n s) = SAll (lower_expr reg declared c) [] [] [] n"

section \<open>Type resolution (lower.rs)\<close>

definition undefined_type_error :: "type_registry \<Rightarrow> string \<Rightarrow> span option \<Rightarrow> sema_error" where
  "undefined_type_error reg name sp =
     (let err = with_span sp (sema_error_new UndefinedType (''undefined type '' @ quoted name))
      in case suggest_similar name (all_names reg) 2 of
           Some s \<Rightarrow> with_hint (''did you mean '' @ quoted s @ ''?'') err
         | None \<Rightarrow> err)"

definition resolve_named_type :: "type_registry \<Rightarrow> string \<Rightarrow> span option \<Rightarrow> sema_error + semantic_type" where
  "resolve_named_type reg name sp =
     (case resolve_type_name reg name of
        Some (RPrimitive wire endian) \<Rightarrow> Inr (Primitive wire endian)
      | Some (RUserDefined n kind) \<Rightarrow>
          (case kind of
             KVarInt \<Rightarrow> Inr (VarIntRef (''varint:'' @ n) n)
           | KPacket \<Rightarrow> Inr (PacketRef (''packet:'' @ n) n)
           | KEnum \<Rightarrow> Inr (EnumRef (''enum:'' @ n) n False)
           | KFlags \<Rightarrow> Inr (EnumRef (''enum:'' @ n) n True)
           | KFrame \<Rightarrow> Inr (FrameRef (''frame:'' @ n) n)
           | KCapsule \<Rightarrow> Inr (CapsuleRef (''capsule:'' @ n) n)
           | KStateMachine \<Rightarrow>
               Inl (with_span sp (sema_error_new TypeMismatch
                 (''state machine '' @ quoted n @ '' cannot be used as a field type'')))
           | KConstDecl \<Rightarrow>
               Inl (with_span sp (sema_error_new TypeMismatch
                 (''const '' @ quoted n @ '' cannot be used as a type''))))
      | None \<Rightarrow> Inl (undefined_type_error reg name sp))"

fun lower_bytes_kind :: "ast_bytes_kind \<Rightarrow> semantic_bytes_kind" where
  "lower_bytes_kind BFixed = SBFixed"
| "lower_bytes_kind BLength = SBLength"
| "lower_bytes_kind BRemaining = SBRemaining"
| "lower_bytes_kind BLengthOrRemaining = SBLengthOrRemaining"

fun lower_count :: "type_registry \<Rightarrow> ast_array_count \<Rightarrow> semantic_expr option" where
  "lower_count reg (CountExpr e) = Some (lower_expr reg [] e)"
| "lower_count reg CountFill = None"

definition SUPPORTED_ENCODINGS :: "string list" where
  "SUPPORTED_ENCODINGS = [''uper'', ''ber'', ''der'', ''aper'', ''oer'', ''coer'']"

definition resolve_asn1 :: "analyzer \<Rightarrow> string \<Rightarrow> string \<Rightarrow> asn1_length
    \<Rightarrow> sema_error + (semantic_type \<times> field_presence \<times> asn1_hint option)" where
  "resolve_asn1 a type_name encoding lng =
     (case List.find (\<lambda>e. type_name \<in> set (ae_type_names e)) (an_asn1_externs a) of
        None \<Rightarrow> Inl (sema_error_new UndefinedAsn1Type
                 (''ASN.1 type '' @ quoted type_name @ '' not declared in any '' @ quoted ''extern asn1'' @ '' block''))
      | Some extern_decl \<Rightarrow>
          if encoding \<notin> set SUPPORTED_ENCODINGS
          then Inl (sema_error_new UnsupportedAsn1Encoding
                 (''unsupported ASN.1 encoding '' @ quoted encoding @ ''; supported: ''
                  @ join_with '', '' SUPPORTED_ENCODINGS))
          else
            (let (bytes_kind, size_expr) =
                   (case lng of LenRemaining \<Rightarrow> (SBRemaining, None)
                    | LenExpr e \<Rightarrow> (SBLength, Some (lower_expr (an_registry a) [] e)));
                 hint = \<lparr>ah_type_name = type_name, ah_encoding = encoding,
                         ah_extern_path = ae_path extern_decl, ah_rust_module = ae_rust_module extern_decl\<rparr>
             in Inr (Bytes bytes_kind None size_expr, Always, Some hint)))"

fun resolve_type_expr :: "analyzer \<Rightarrow> ast_type_expr
    \<Rightarrow> sema_error + (semantic_type \<times> field_presence \<times> asn1_hint option)" where
  "resolve_type_expr a (TNamed name s) =
     rbind (resolve_named_type (an_registry a) name s) (\<lambda>ty. Inr (ty, Always, None))"
| "resolve_type_expr a (TBits width s) = Inr (Bits width, Always, None)"
| "resolve_type_expr a (TBytes kind fixed_size size_expr s) =
     Inr (Bytes (lower_bytes_kind kind) fixed_size (map_option (lower_expr (an_registry a) []) size_expr), Always, None)"
| "resolve_type_expr a (TArray element_type count within_expr s) =
     rbind (resolve_type_expr a element_type) (\<lambda>(elem_ty, pr, hint).
       Inr (Array elem_ty (lower_count (an_registry a) count)
              (map_option (lower_expr (an_registry a) []) within_expr), Always, hint))"
| "resolve_type_expr a (TOptional condition inner_type s) =
     rbind (resolve_type_expr a inner_type) (\<lambda>(ty, pr, hint).
       Inr (ty, Conditional (lower_expr (an_registry a) [] condition), hint))"
| "resolve_type_expr a (TMatch f (MatchBranch p t bs # branches) s) = resolve_type_expr a t"
| "resolve_type_expr a (TMatch f [] s) = Inl (sema_error_new TypeMismatch ''empty match type expression'')"
| "resolve_type_expr a (TAsn1 type_name encoding lng s) = resolve_asn1 a type_name encoding lng"

fun resolve_state_field_type :: "analyzer \<Rightarrow> ast_type_expr \<Rightarrow> sema_error + semantic_type" where
  "resolve_state_field_type a (TNamed name s) =
     (case resolve_named_type (an_registry a) name s of
        Inr ty \<Rightarrow> Inr ty
      | Inl e \<Rightarrow>
          if er_kind e = TypeMismatch
          then (case resolve_type_name (an_registry a) name of
                  Some (RUserDefined resolved_name KStateMachine) \<Rightarrow>
                    Inr (PacketRef (''sm:'' @ resolved_name) resolved_name)
                | _ \<Rightarrow> Inl e)
          else Inl e)"
| "resolve_state_field_type a (TBits width s) = Inr (Bits width)"
| "resolve_state_field_type a (TArray element_type count within_expr s) =
     rbind (resolve_state_field_type a element_type) (\<lambda>elem_ty.
       Inr (Array elem_ty (lower_count (an_registry a) count)
              (map_option (lower_expr (an_registry a) []) within_expr)))"
| "resolve_state_field_type a t =
     rbind (resolve_type_expr a t) (\<lambda>(ty, pr, hint). Inr ty)"

section \<open>Resolved types are closed\<close>

text \<open>A type is closed when every reference in it names a declaration of its kind, under the
  identifier of that kind. The flag admits the references to child state machines that only the
  fields of states may hold.\<close>

fun type_ok :: "bool \<Rightarrow> type_registry \<Rightarrow> semantic_type \<Rightarrow> bool" where
  "type_ok sm r (Primitive w e) = True"
| "type_ok sm r (Bits w) = True"
| "type_ok sm r (Bytes k x e) = True"
| "type_ok sm r (Array t c w) = type_ok sm r t"
| "type_ok sm r (VarIntRef i n) = (i = ''varint:'' @ n \<and> get_decl_kind r n = Some KVarInt)"
| "type_ok sm r (PacketRef i n) =
     (i = ''packet:'' @ n \<and> get_decl_kind r n = Some KPacket
      \<or> sm \<and> i = ''sm:'' @ n \<and> get_decl_kind r n = Some KStateMachine)"
| "type_ok sm r (EnumRef i n f) =
     (i = ''enum:'' @ n \<and> get_decl_kind r n = Some (if f then KFlags else KEnum))"
| "type_ok sm r (FrameRef i n) = (i = ''frame:'' @ n \<and> get_decl_kind r n = Some KFrame)"
| "type_ok sm r (CapsuleRef i n) = (i = ''capsule:'' @ n \<and> get_decl_kind r n = Some KCapsule)"

lemma type_ok_mono: "type_ok False r t \<Longrightarrow> type_ok sm r t"
  by (induction t) auto

lemma resolve_named_type_ok: "resolve_named_type r n s = Inr ty \<Longrightarrow> type_ok sm r ty"
  using resolved_declared
  by (auto simp: resolve_named_type_def split: option.splits resolved_type.splits decl_kind.splits)

lemma resolve_asn1_ok: "resolve_asn1 a n enc l = Inr (ty, pr, h) \<Longrightarrow> type_ok sm r ty \<and> h \<noteq> None"
  by (auto simp: resolve_asn1_def split: option.splits if_splits asn1_length.splits)

lemma resolve_type_expr_ok: "resolve_type_expr a t = Inr (ty, pr, h) \<Longrightarrow> type_ok sm (an_registry a) ty"
proof (induction a t arbitrary: ty pr h rule: resolve_type_expr.induct)
  case (1 a name s)
  then show ?case using resolve_named_type_ok by (auto simp: rbind_eq_Inr_iff)
qed (auto simp: rbind_eq_Inr_iff dest: resolve_asn1_ok)

lemma resolve_state_field_type_ok:
  "resolve_state_field_type a t = Inr ty \<Longrightarrow> type_ok True (an_registry a) ty"
proof (induction a t arbitrary: ty rule: resolve_state_field_type.induct)
  case (1 a name s)
  show ?case
  proof (cases "resolve_named_type (an_registry a) name s")
    case (Inl e)
    with 1 show ?thesis using resolved_declared
      by (auto split: if_splits option.splits resolved_type.splits decl_kind.splits)
  next
    case (Inr t)
    with 1 show ?thesis using resolve_named_type_ok by auto
  qed
qed (auto simp: rbind_eq_Inr_iff resolve_type_expr_ok dest: resolve_asn1_ok [where sm = True])

end
