(* ===== verification/Scopes.thy ===== *)
theory Scopes
  imports TypeRes Codec
begin

text \<open>
  Lowering of constants, enums, variable-length integers, packets, frames and capsules:
  \<open>crates/wirespec-sema/src/analyzer/lower.rs\<close> up to the type resolution. The item loops of
  \<open>lower_packet\<close>, \<open>lower_variant_scope\<close> and \<open>lower_capsule\<close> are one function; its flag says whether the
  loop checks \<open>length_or_remaining\<close> references, which the capsule header's loop does not. The
  running indices are the numbers of definitions pushed so far.
\<close>

section \<open>Constants, enums and flags\<close>

fun lower_literal :: "ast_literal_value \<Rightarrow> semantic_literal" where
  "lower_literal (LInt v) = SLInt v"
| "lower_literal (LBool b) = SLBool b"
| "lower_literal (LString s) = SLString s"
| "lower_literal LNull = SLNull"

definition lower_const :: "analyzer \<Rightarrow> ast_const_decl \<Rightarrow> sema_error + semantic_const" where
  "lower_const a c =
     rbind (resolve_named_type (an_registry a) (co_type_name c) (co_span c)) (\<lambda>ty.
       Inr \<lparr>sc_const_id = ''const:'' @ co_name c, sc_name = co_name c, sc_ty = ty,
            sc_value = lower_literal (co_value c), sc_span = co_span c\<rparr>)"

text \<open>\<open>what\<close> is the word the messages use, \<open>enum\<close> or \<open>flags\<close>.\<close>

fun check_member_names :: "string \<Rightarrow> string \<Rightarrow> string list \<Rightarrow> ast_enum_member list \<Rightarrow> sema_error + unit" where
  "check_member_names what name seen [] = Inr ()"
| "check_member_names what name seen (m # ms) =
     (if em_name m \<in> set seen
      then Inl (with_span (em_span m) (sema_error_new DuplicateDefinition
             (''duplicate member '' @ quoted (em_name m) @ '' in '' @ what @ '' '' @ quoted name)))
      else check_member_names what name (em_name m # seen) ms)"

fun underlying_max :: "semantic_type \<Rightarrow> int option" where
  "underlying_max (Primitive wire e) =
     (case wire of U8 \<Rightarrow> Some 255 | U16 \<Rightarrow> Some 65535 | U24 \<Rightarrow> Some 0x00FFFFFF
      | U32 \<Rightarrow> Some 4294967295 | U64 \<Rightarrow> Some 18446744073709551615
      | I8 \<Rightarrow> Some 127 | I16 \<Rightarrow> Some 32767 | I32 \<Rightarrow> Some 2147483647
      | _ \<Rightarrow> None)"
| "underlying_max _ = None"

definition check_member_values :: "string \<Rightarrow> int option \<Rightarrow> ast_enum_member list \<Rightarrow> sema_error + unit" where
  "check_member_values name max_value members =
     (case max_value of
        None \<Rightarrow> Inr ()
      | Some mx \<Rightarrow>
          try_each (\<lambda>m. if em_value m < 0 \<or> em_value m > mx
            then Inl (with_span (em_span m) (sema_error_new TypeMismatch
                   (''member '' @ quoted (em_name m) @ '' value '' @ show_int (em_value m)
                    @ '' does not fit underlying type in '' @ quoted name)))
            else Inr ()) members)"

definition underlying_error :: "string \<Rightarrow> string \<Rightarrow> string \<Rightarrow> span option \<Rightarrow> sema_error" where
  "underlying_error what name ty sp =
     with_span sp (sema_error_new InvalidEnumUnderlying
       (what @ '' '' @ quoted name @ '' underlying type '' @ quoted ty
        @ '' must be an integer primitive (u8, u16, u24, u32, u64, i8, i16, i32, i64)''))"

definition lower_member :: "string \<Rightarrow> ast_enum_member \<Rightarrow> semantic_enum_member" where
  "lower_member enum_id m =
     \<lparr>sm_member_id = enum_id @ ''/member:'' @ em_name m, sm_member_name = em_name m,
      sm_member_value = em_value m, sm_member_span = em_span m\<rparr>"

definition lower_enum_decl :: "analyzer \<Rightarrow> ast_enum_decl \<Rightarrow> bool \<Rightarrow> sema_error + semantic_enum" where
  "lower_enum_decl a e is_flags =
     rbind (resolve_named_type (an_registry a) (en_underlying_type e) (en_span e)) (\<lambda>underlying_type.
     if \<not> is_integer_underlying underlying_type
     then Inl (underlying_error ''enum'' (en_name e) (en_underlying_type e) (en_span e))
     else
     rbind (check_member_names ''enum'' (en_name e) [] (en_members e)) (\<lambda>_.
     rbind (check_member_values (en_name e) (underlying_max underlying_type) (en_members e)) (\<lambda>_.
       Inr \<lparr>se_enum_id = ''enum:'' @ en_name e, se_name = en_name e, se_underlying_type = underlying_type,
            se_is_flags = is_flags, se_derive_traits = extract_derive_traits (en_annotations e),
            se_members = map (lower_member (''enum:'' @ en_name e)) (en_members e), se_span = en_span e\<rparr>)))"

definition lower_flags_decl :: "analyzer \<Rightarrow> ast_flags_decl \<Rightarrow> sema_error + semantic_enum" where
  "lower_flags_decl a f =
     rbind (resolve_named_type (an_registry a) (fl_underlying_type f) (fl_span f)) (\<lambda>underlying_type.
     if \<not> is_integer_underlying underlying_type
     then Inl (underlying_error ''flags'' (fl_name f) (fl_underlying_type f) (fl_span f))
     else
     rbind (check_member_names ''flags'' (fl_name f) [] (fl_members f)) (\<lambda>_.
     rbind (check_member_values (fl_name f) (underlying_max underlying_type) (fl_members f)) (\<lambda>_.
       Inr \<lparr>se_enum_id = ''enum:'' @ fl_name f, se_name = fl_name f, se_underlying_type = underlying_type,
            se_is_flags = True, se_derive_traits = extract_derive_traits (fl_annotations f),
            se_members = map (lower_member (''enum:'' @ fl_name f)) (fl_members f), se_span = fl_span f\<rparr>)))"

section \<open>Variable-length integers\<close>

fun branch_prefix_value :: "ast_pattern \<Rightarrow> u64 option" where
  "branch_prefix_value (PValue v s) = Some (word_of_int v)"
| "branch_prefix_value (PWildcard s) = None"
| "branch_prefix_value (PRangeInclusive st en s) = Some (word_of_int st)"

fun branch_value_bits :: "ast_type_expr \<Rightarrow> u8" where
  "branch_value_bits (TBits width s) = ucast width"
| "branch_value_bits _ = 0"

text \<open>\<open>div_ceil\<close> on \<open>u16\<close>, and the all-ones value of a number of bits below or above 64.\<close>

definition div_ceil8 :: "u16 \<Rightarrow> u16" where
  "div_ceil8 n = n div 8 + (if n mod 8 > 0 then 1 else 0)"

definition low_ones :: "u8 \<Rightarrow> u64" where
  "low_ones n = (if n \<ge> 64 then - 1 else push_bit (unat n) 1 - 1)"

definition lower_varint_branch :: "u8 \<Rightarrow> ast_match_branch \<Rightarrow> semantic_varint_branch option" where
  "lower_varint_branch prefix_bits b =
     (case b of MatchBranch pattern result_type s \<Rightarrow>
        (case branch_prefix_value pattern of
           None \<Rightarrow> None
         | Some prefix_value \<Rightarrow>
             (let value_bits = branch_value_bits result_type;
                  total_bits = (ucast prefix_bits :: u16) + ucast value_bits
              in Some \<lparr>vb_prefix_value = prefix_value, vb_prefix_bits = prefix_bits, vb_value_bits = value_bits,
                       vb_total_bytes = ucast (div_ceil8 total_bits), vb_max_value = low_ones value_bits,
                       vb_prefix_mask = low_ones prefix_bits\<rparr>)))"

definition max_total_bytes :: "semantic_varint_branch list \<Rightarrow> u8" where
  "max_total_bytes bs = (case bs of [] \<Rightarrow> 1 | b # r \<Rightarrow> fold (\<lambda>c m. max m (vb_total_bytes c)) r (vb_total_bytes b))"

definition lower_varint_prefix_match :: "analyzer \<Rightarrow> string \<Rightarrow> ast_field_def list \<Rightarrow> ast_annotation list
    \<Rightarrow> span option \<Rightarrow> sema_error + semantic_varint" where
  "lower_varint_prefix_match a name flds annotations sp =
     (if length flds < 2
      then Inl (sema_error_new TypeMismatch (''type '' @ quoted name @ '' has too few fields for VarInt prefix-match pattern''))
      else case fd_type_expr (flds ! 0) of
        TBits width s1 \<Rightarrow>
          (let prefix_bits = ucast width
           in case fd_type_expr (flds ! 1) of
                TMatch f match_branches s2 \<Rightarrow>
                  (let branches = List.map_filter (lower_varint_branch prefix_bits) match_branches
                   in Inr \<lparr>vi_varint_id = ''varint:'' @ name, vi_name = name, vi_encoding = PrefixMatch,
                           vi_prefix_bits = Some prefix_bits, vi_branches = branches,
                           vi_value_bits_per_byte = None, vi_max_bytes = max_total_bytes branches,
                           vi_byte_order = reg_endianness (an_registry a),
                           vi_strict = list_ex (\<lambda>an. an_name an = ''strict'') annotations, vi_span = sp\<rparr>)
              | _ \<Rightarrow> Inl (sema_error_new TypeMismatch (''VarInt '' @ quoted name @ '' second field must be match'')))
      | _ \<Rightarrow> Inl (sema_error_new TypeMismatch (''VarInt '' @ quoted name @ '' first field must be bits[N]'')))"

definition lower_continuation_varint :: "ast_continuation_varint_decl \<Rightarrow> semantic_varint" where
  "lower_continuation_varint cv =
     \<lparr>vi_varint_id = ''varint:'' @ cv_name cv, vi_name = cv_name cv, vi_encoding = ContinuationBit,
      vi_prefix_bits = None, vi_branches = [], vi_value_bits_per_byte = Some (cv_value_bits cv),
      vi_max_bytes = cv_max_bytes cv,
      vi_byte_order = (if cv_byte_order cv = ''little'' then Little else Big),
      vi_strict = list_ex (\<lambda>an. an_name an = ''strict'') (cv_annotations cv), vi_span = cv_span cv\<rparr>"

section \<open>Fields, derived fields and requirements\<close>

fun lower_annotations :: "compliance_profile \<Rightarrow> ast_annotation list \<Rightarrow> string option \<Rightarrow> u32 option
    \<Rightarrow> sema_error + (string option \<times> u32 option)" where
  "lower_annotations profile [] checksum max_elements = Inr (checksum, max_elements)"
| "lower_annotations profile (ann # anns) checksum max_elements =
     rbind (case an_args ann of
              AIdentifier algo # r \<Rightarrow>
                if an_name ann = ''checksum''
                then rbind (validate_checksum_profile algo profile) (\<lambda>_. Inr (Some algo))
                else Inr checksum
            | _ \<Rightarrow> Inr checksum) (\<lambda>checksum'.
       lower_annotations profile anns checksum'
         (case an_args ann of
            AInt n # r \<Rightarrow> if an_name ann = ''max_len'' then Some (word_of_int n) else max_elements
          | _ \<Rightarrow> max_elements))"

fun checksum_type_name :: "semantic_type \<Rightarrow> string" where
  "checksum_type_name (Primitive wire e) =
     (case wire of U8 \<Rightarrow> ''u8'' | U16 \<Rightarrow> ''u16'' | U24 \<Rightarrow> ''u24'' | U32 \<Rightarrow> ''u32'' | U64 \<Rightarrow> ''u64''
      | I8 \<Rightarrow> ''i8'' | I16 \<Rightarrow> ''i16'' | I32 \<Rightarrow> ''i32'' | I64 \<Rightarrow> ''i64'' | Bool \<Rightarrow> ''bool'' | Bit \<Rightarrow> ''bit'')"
| "checksum_type_name _ = ''unknown''"

fun is_bool_type :: "semantic_type \<Rightarrow> bool" where
  "is_bool_type (Primitive wire e) = (wire = Bool)"
| "is_bool_type _ = False"

definition bool_field_error :: "ast_field_def \<Rightarrow> sema_error" where
  "bool_field_error f =
     with_hint (quoted ''bool'' @ '' is valid in derived fields: let flag: bool = ...'')
       (with_span (fd_span f) (sema_error_new TypeMismatch
         (quoted ''bool'' @ '' is a semantic type, not a wire type; use '' @ quoted ''u8'' @ '' or ''
          @ quoted ''bits[1]'' @ '' for field '' @ quoted (fd_name f))))"

definition lower_sema_field :: "analyzer \<Rightarrow> ast_field_def \<Rightarrow> string \<Rightarrow> nat \<Rightarrow> string list
    \<Rightarrow> sema_error + semantic_field" where
  "lower_sema_field a f scope_id index declared =
     rbind (resolve_type_expr a (fd_type_expr f)) (\<lambda>(ty, presence, hint).
     if is_bool_type ty then Inl (bool_field_error f)
     else
     rbind (validate_no_forward_refs
              (filter (\<lambda>r. \<not> registry_contains (an_registry a) r) (collect_type_expr_refs (fd_type_expr f)))
              declared (fd_name f) (fd_span f)) (\<lambda>_.
     rbind (lower_annotations (an_profile a) (fd_annotations f) None None) (\<lambda>(checksum, max_elements).
     rbind (case checksum of
              Some algo \<Rightarrow> validate_checksum_field_type algo (checksum_type_name ty) (fd_name f)
            | None \<Rightarrow> Inr ()) (\<lambda>_.
       Inr \<lparr>sf_field_id = scope_id @ ''.field['' @ show_nat index @ '']'', sf_name = fd_name f, sf_ty = ty,
            sf_presence = presence, sf_max_elements = max_elements, sf_checksum_algorithm = checksum,
            sf_asn1_hint = hint, sf_span = fd_span f\<rparr>))))"

definition integer_like_hint :: string where
  "integer_like_hint = ''integer-like types: u8, u16, u24, u32, u64, i8..i64, VarInt, bits[N], enum''"

definition size_ref_check :: "error_kind \<Rightarrow> string \<Rightarrow> ast_expr \<Rightarrow> semantic_field list \<Rightarrow> sema_error + unit" where
  "size_ref_check kind what expr lowered_fields =
     (case expr of
        ENameRef name sp \<Rightarrow>
          (case List.find (\<lambda>f. sf_name f = name) lowered_fields of
             Some field \<Rightarrow>
               if \<not> is_integer_like (sf_ty field)
               then Inl (with_hint integer_like_hint (with_span sp (sema_error_new kind
                      (what @ '' reference '' @ quoted name @ '' must be an integer-like type''))))
               else Inr ()
           | None \<Rightarrow> Inr ())
      | _ \<Rightarrow> Inr ())"

fun validate_integer_like_size_ref :: "ast_type_expr \<Rightarrow> semantic_field list \<Rightarrow> sema_error + unit" where
  "validate_integer_like_size_ref (TBytes kind fixed size_expr s) lowered_fields =
     (case size_expr of
        Some e \<Rightarrow> if kind \<in> {BLength, BLengthOrRemaining}
                  then size_ref_check InvalidBytesLength ''bytes length'' e lowered_fields else Inr ()
      | None \<Rightarrow> Inr ())"
| "validate_integer_like_size_ref (TArray t (CountExpr e) w s) lowered_fields =
     size_ref_check InvalidArrayCount ''array count'' e lowered_fields"
| "validate_integer_like_size_ref _ lowered_fields = Inr ()"

definition lower_derived :: "analyzer \<Rightarrow> ast_derived_field \<Rightarrow> string \<Rightarrow> nat \<Rightarrow> string list
    \<Rightarrow> sema_error + semantic_derived" where
  "lower_derived a d scope_id index declared =
     rbind (resolve_named_type (an_registry a) (df_type_name d) (df_span d)) (\<lambda>ty.
       Inr \<lparr>sd_derived_id = scope_id @ ''.derived['' @ show_nat index @ '']'', sd_derived_name = df_name d,
            sd_ty = ty, sd_expr = lower_expr (an_registry a) declared (df_expr d), sd_derived_span = df_span d\<rparr>)"

definition lower_require :: "analyzer \<Rightarrow> ast_require_clause \<Rightarrow> string \<Rightarrow> nat \<Rightarrow> string list \<Rightarrow> semantic_require" where
  "lower_require a r scope_id index declared =
     \<lparr>sr_require_id = scope_id @ ''.require['' @ show_nat index @ '']'',
      sr_expr = lower_expr (an_registry a) declared (rq_expr r), sr_span = rq_span r\<rparr>"

section \<open>Scopes\<close>

text \<open>The state of an item loop.\<close>

record scope_acc =
  ac_fields :: "semantic_field list"
  ac_derived :: "semantic_derived list"
  ac_requires :: "semantic_require list"
  ac_items :: "semantic_scope_item list"
  ac_declared :: "string list"
  ac_optional :: "string list"

definition scope_start :: "string list \<Rightarrow> scope_acc" where
  "scope_start declared =
     \<lparr>ac_fields = [], ac_derived = [], ac_requires = [], ac_items = [], ac_declared = declared, ac_optional = []\<rparr>"

fun is_optional_type :: "ast_type_expr \<Rightarrow> bool" where
  "is_optional_type (TOptional c t s) = True"
| "is_optional_type _ = False"

text \<open>The name a \<open>bytes[length_or_remaining: name]\<close> type refers to.\<close>

fun lor_name :: "ast_type_expr \<Rightarrow> string option" where
  "lor_name (TBytes BLengthOrRemaining f (Some (ENameRef name sp)) s) = Some name"
| "lor_name _ = None"

definition lor_error :: "string \<Rightarrow> span option \<Rightarrow> sema_error" where
  "lor_error name sp =
     with_span sp (sema_error_new InvalidLengthOrRemaining
       (''bytes[length_or_remaining: '' @ name @ '']: '' @ quoted name @ '' must be an optional field''))"

definition check_lor :: "bool \<Rightarrow> ast_field_def \<Rightarrow> string list \<Rightarrow> sema_error + unit" where
  "check_lor on f optional =
     (case lor_name (fd_type_expr f) of
        Some name \<Rightarrow> if on \<and> name \<notin> set optional then Inl (lor_error name (fd_span f)) else Inr ()
      | None \<Rightarrow> Inr ())"

fun scope_item :: "analyzer \<Rightarrow> bool \<Rightarrow> string \<Rightarrow> scope_acc \<Rightarrow> ast_field_item \<Rightarrow> sema_error + scope_acc" where
  "scope_item a check scope_id acc (FField f) =
     (let optional = (if is_optional_type (fd_type_expr f) then fd_name f # ac_optional acc else ac_optional acc)
      in rbind (check_lor check f optional) (\<lambda>_.
         rbind (lower_sema_field a f scope_id (length (ac_fields acc)) (ac_declared acc)) (\<lambda>sem.
         rbind (validate_integer_like_size_ref (fd_type_expr f) (ac_fields acc)) (\<lambda>_.
           Inr (acc\<lparr>ac_fields := ac_fields acc @ [sem], ac_items := ac_items acc @ [ItField (sf_field_id sem)],
                    ac_declared := ac_declared acc @ [fd_name f], ac_optional := optional\<rparr>)))))"
| "scope_item a check scope_id acc (FDerived d) =
     rbind (lower_derived a d scope_id (length (ac_derived acc)) (ac_declared acc)) (\<lambda>sem.
       Inr (acc\<lparr>ac_derived := ac_derived acc @ [sem], ac_items := ac_items acc @ [ItDerived (sd_derived_id sem)],
                ac_declared := ac_declared acc @ [df_name d]\<rparr>))"
| "scope_item a check scope_id acc (FRequire r) =
     (let sem = lower_require a r scope_id (length (ac_requires acc)) (ac_declared acc)
      in Inr (acc\<lparr>ac_requires := ac_requires acc @ [sem], ac_items := ac_items acc @ [ItRequire (sr_require_id sem)]\<rparr>))"

fun scope_loop :: "analyzer \<Rightarrow> bool \<Rightarrow> string \<Rightarrow> scope_acc \<Rightarrow> ast_field_item list \<Rightarrow> sema_error + scope_acc" where
  "scope_loop a check scope_id acc [] = Inr acc"
| "scope_loop a check scope_id acc (it # items) =
     rbind (scope_item a check scope_id acc it) (\<lambda>acc'. scope_loop a check scope_id acc' items)"

definition describe_field :: "semantic_field \<Rightarrow> field_descriptor" where
  "describe_field f =
     \<lparr>de_name = sf_name f,
      de_is_remaining = (case sf_ty f of Bytes k x e \<Rightarrow> k = SBRemaining | _ \<Rightarrow> False),
      de_is_fill = (case sf_ty f of Array t c w \<Rightarrow> c = None | _ \<Rightarrow> False), de_is_wire = True\<rparr>"

definition validate_scope :: "semantic_field list \<Rightarrow> string \<Rightarrow> sema_error + unit" where
  "validate_scope flds desc =
     rbind (validate_remaining_is_last (map describe_field flds)) (\<lambda>_.
       validate_single_checksum (List.map_filter sf_checksum_algorithm flds) desc)"

definition lower_sema_packet :: "analyzer \<Rightarrow> ast_packet_decl \<Rightarrow> sema_error + semantic_packet" where
  "lower_sema_packet a p =
     (let packet_id = ''packet:'' @ pk_name p
      in rbind (scope_loop a True packet_id (scope_start []) (pk_fields p)) (\<lambda>acc.
         rbind (first_error a) (\<lambda>_.
         rbind (validate_scope (ac_fields acc) (''packet '' @ quoted (pk_name p))) (\<lambda>_.
           Inr \<lparr>sp_packet_id = packet_id, sp_name = pk_name p,
                sp_derive_traits = extract_derive_traits (pk_annotations p), sp_fields = ac_fields acc,
                sp_derived = ac_derived acc, sp_requires = ac_requires acc, sp_items = ac_items acc,
                sp_span = pk_span p\<rparr>))))"

definition lower_sema_variant :: "analyzer \<Rightarrow> ast_frame_branch \<Rightarrow> string \<Rightarrow> u32 \<Rightarrow> string list \<Rightarrow> variant_owner
    \<Rightarrow> sema_error + semantic_variant_scope" where
  "lower_sema_variant a branch owner_id ordinal parent_declared owner =
     (let scope_id = owner_id @ ''/variant:'' @ fb_variant_name branch
      in rbind (scope_loop a True scope_id (scope_start parent_declared) (fb_fields branch)) (\<lambda>acc.
         rbind (validate_scope (ac_fields acc) (''variant '' @ quoted (fb_variant_name branch))) (\<lambda>_.
           Inr \<lparr>sv_scope_id = scope_id, sv_owner = owner, sv_variant_name = fb_variant_name branch,
                sv_ordinal = ordinal, sv_pattern = lower_pattern (fb_pattern branch),
                sv_fields = ac_fields acc, sv_derived = ac_derived acc, sv_requires = ac_requires acc,
                sv_items = ac_items acc, sv_span = fb_span branch\<rparr>)))"

definition lower_sema_variants :: "analyzer \<Rightarrow> ast_frame_branch list \<Rightarrow> string \<Rightarrow> string list \<Rightarrow> variant_owner
    \<Rightarrow> sema_error + semantic_variant_scope list" where
  "lower_sema_variants a branches owner_id declared owner =
     try_map (\<lambda>(i, branch). lower_sema_variant a branch owner_id (of_nat i) declared owner) (enumerate 0 branches)"

definition not_exhaustive :: "string \<Rightarrow> string \<Rightarrow> span option \<Rightarrow> sema_error" where
  "not_exhaustive what name sp =
     with_span sp (sema_error_new TypeMismatch
       (what @ '' '' @ quoted name @ '': match is not exhaustive, add a wildcard (_) branch''))"

definition has_wildcard :: "semantic_variant_scope list \<Rightarrow> bool" where
  "has_wildcard variants \<longleftrightarrow> list_ex (\<lambda>v. sv_pattern v = SPWildcard) variants"

definition lower_sema_frame :: "analyzer \<Rightarrow> ast_frame_decl \<Rightarrow> sema_error + semantic_frame" where
  "lower_sema_frame a f =
     (let frame_id = ''frame:'' @ fr_name f
      in rbind (resolve_named_type (an_registry a) (fr_tag_type f) (fr_span f)) (\<lambda>tag_type.
         rbind (lower_sema_variants a (fr_branches f) frame_id [fr_tag_field f] (OwnerFrame frame_id)) (\<lambda>variants.
         rbind (first_error a) (\<lambda>_.
         if \<not> has_wildcard variants then Inl (not_exhaustive ''frame'' (fr_name f) (fr_span f))
         else Inr \<lparr>sfr_frame_id = frame_id, sfr_name = fr_name f,
                   sfr_derive_traits = extract_derive_traits (fr_annotations f), sfr_tag_name = fr_tag_field f,
                   sfr_tag_type = tag_type, sfr_variants = variants, sfr_span = fr_span f\<rparr>))))"

definition header_field_id :: "string \<Rightarrow> semantic_field list \<Rightarrow> string \<Rightarrow> string" where
  "header_field_id scope_id header_fields name =
     (case List.find (\<lambda>hf. sf_name hf = name) header_fields of
        Some hf \<Rightarrow> sf_field_id hf
      | None \<Rightarrow> scope_id @ ''.field:unknown'')"

fun lower_tag_selector :: "analyzer \<Rightarrow> string \<Rightarrow> semantic_field list \<Rightarrow> string list \<Rightarrow> ast_payload_tag_selector
    \<Rightarrow> capsule_tag_selector" where
  "lower_tag_selector a scope_id header_fields declared (TagField field_name) =
     SelField (header_field_id scope_id header_fields field_name) field_name"
| "lower_tag_selector a scope_id header_fields declared (TagExpr e) = SelExpr (lower_expr (an_registry a) declared e)"

fun capsule_tag_type :: "semantic_field list \<Rightarrow> capsule_tag_selector \<Rightarrow> semantic_type" where
  "capsule_tag_type header_fields (SelField i field_name) =
     (case List.find (\<lambda>hf. sf_name hf = field_name) header_fields of
        Some hf \<Rightarrow> sf_ty hf | None \<Rightarrow> Primitive U8 None)"
| "capsule_tag_type header_fields (SelExpr e) = Primitive U8 None"

definition lower_sema_capsule :: "analyzer \<Rightarrow> ast_capsule_decl \<Rightarrow> sema_error + semantic_capsule" where
  "lower_sema_capsule a c =
     (let capsule_id = ''capsule:'' @ ca_name c
      in rbind (scope_loop a False capsule_id (scope_start []) (ca_fields c)) (\<lambda>acc.
         let header_fields = ac_fields acc;
             tag_selector = lower_tag_selector a capsule_id header_fields (ac_declared acc) (ca_payload_tag c)
         in rbind (lower_sema_variants a (ca_branches c) capsule_id (ac_declared acc)
                     (OwnerCapsulePayload capsule_id)) (\<lambda>variants.
            rbind (first_error a) (\<lambda>_.
            if \<not> has_wildcard variants then Inl (not_exhaustive ''capsule'' (ca_name c) (ca_span c))
            else Inr \<lparr>sca_capsule_id = capsule_id, sca_name = ca_name c,
                      sca_derive_traits = extract_derive_traits (ca_annotations c),
                      sca_tag_type = capsule_tag_type header_fields tag_selector,
                      sca_tag_selector = tag_selector,
                      sca_within_field_id = header_field_id capsule_id header_fields (ca_payload_within c),
                      sca_within_field_name = ca_payload_within c, sca_header_fields = header_fields,
                      sca_header_derived = ac_derived acc, sca_header_requires = ac_requires acc,
                      sca_header_items = ac_items acc, sca_variants = variants, sca_span = ca_span c\<rparr>))))"

section \<open>What an item loop establishes\<close>

text \<open>The invariant of a scope under construction: closed types and no \<open>bool\<close> on the wire, numbered
  identifiers, items that refer to what was pushed, names in the order of the source, and checksum
  annotations that the profile allows on a field of the required type.\<close>

definition field_checksum_ok :: "compliance_profile \<Rightarrow> semantic_field \<Rightarrow> bool" where
  "field_checksum_ok profile f \<longleftrightarrow>
     (\<forall>algo. sf_checksum_algorithm f = Some algo \<longrightarrow>
        algo \<in> set (allowed_checksum_algorithms profile)
        \<and> checksum_required_type algo = Some (checksum_type_name (sf_ty f)))"

definition scope_inv :: "analyzer \<Rightarrow> string \<Rightarrow> scope_acc \<Rightarrow> bool" where
  "scope_inv a scope_id acc \<longleftrightarrow>
     (\<forall>f \<in> set (ac_fields acc). type_ok False (an_registry a) (sf_ty f) \<and> \<not> is_bool_type (sf_ty f)
        \<and> field_checksum_ok (an_profile a) f)
     \<and> (\<forall>d \<in> set (ac_derived acc). type_ok False (an_registry a) (sd_ty d))
     \<and> (\<forall>i < length (ac_fields acc). sf_field_id (ac_fields acc ! i) = scope_id @ ''.field['' @ show_nat i @ '']'')
     \<and> list_all (item_resolves (ac_derived acc) (ac_requires acc)) (ac_items acc)"

lemma lower_annotations_ok:
  "lower_annotations p anns c mx = Inr (c', mx') \<Longrightarrow>
    (\<forall>algo. c = Some algo \<longrightarrow> algo \<in> set (allowed_checksum_algorithms p)) \<Longrightarrow>
    (\<forall>algo. c' = Some algo \<longrightarrow> algo \<in> set (allowed_checksum_algorithms p))"
proof (induction anns arbitrary: c mx)
  case (Cons ann anns)
  from Cons.prems(1) obtain c1 mx1 where
    step: "(case an_args ann of
              AIdentifier algo # r \<Rightarrow>
                if an_name ann = ''checksum''
                then rbind (validate_checksum_profile algo p) (\<lambda>_. Inr (Some algo)) else Inr c
            | _ \<Rightarrow> Inr c) = Inr c1"
    and rest: "lower_annotations p anns c1 mx1 = Inr (c', mx')"
    by (auto simp: rbind_eq_Inr_iff)
  have "\<forall>algo. c1 = Some algo \<longrightarrow> algo \<in> set (allowed_checksum_algorithms p)"
    using step Cons.prems(2)
    by (auto simp: rbind_eq_Inr_iff validate_checksum_profile_def
        split: list.splits ast_annotation_arg.splits if_splits)
  with Cons.IH rest show ?case by blast
qed auto

lemma checksum_required_table:
  "checksum_required_type ''internet'' = Some ''u16''" "checksum_required_type ''crc32'' = Some ''u32''"
  "checksum_required_type ''crc32c'' = Some ''u32''" "checksum_required_type ''fletcher16'' = Some ''u16''"
  by code_simp+

lemma allowed_has_type: "algo \<in> set (allowed_checksum_algorithms p) \<Longrightarrow> checksum_required_type algo \<noteq> None"
  by (cases p) (auto simp: allowed_strict allowed_extended checksum_required_table)

lemma lower_sema_field_ok:
  assumes "lower_sema_field a f scope_id i declared = Inr sem"
  shows "type_ok False (an_registry a) (sf_ty sem) \<and> \<not> is_bool_type (sf_ty sem)
    \<and> field_checksum_ok (an_profile a) sem \<and> sf_name sem = fd_name f
    \<and> sf_field_id sem = scope_id @ ''.field['' @ show_nat i @ '']''
    \<and> (\<exists>pr h. resolve_type_expr a (fd_type_expr f) = Inr (sf_ty sem, pr, h))
    \<and> (\<forall>n \<in> set (collect_type_expr_refs (fd_type_expr f)).
          registry_contains (an_registry a) n \<or> n \<in> set declared)"
proof -
  from assms obtain ty pr h c mx where
    ty: "resolve_type_expr a (fd_type_expr f) = Inr (ty, pr, h)" "\<not> is_bool_type ty"
    and refs: "validate_no_forward_refs
        (filter (\<lambda>r. \<not> registry_contains (an_registry a) r) (collect_type_expr_refs (fd_type_expr f)))
        declared (fd_name f) (fd_span f) = Inr ()"
    and ann: "lower_annotations (an_profile a) (fd_annotations f) None None = Inr (c, mx)"
    and ck: "(case c of Some algo \<Rightarrow> validate_checksum_field_type algo (checksum_type_name ty) (fd_name f)
              | None \<Rightarrow> Inr ()) = Inr ()"
    and sem: "sem = \<lparr>sf_field_id = scope_id @ ''.field['' @ show_nat i @ '']'', sf_name = fd_name f, sf_ty = ty,
            sf_presence = pr, sf_max_elements = mx, sf_checksum_algorithm = c, sf_asn1_hint = h, sf_span = fd_span f\<rparr>"
    unfolding lower_sema_field_def by (auto simp: rbind_eq_Inr_iff split: if_splits)
  have "\<forall>algo. c = Some algo \<longrightarrow> algo \<in> set (allowed_checksum_algorithms (an_profile a))"
    using lower_annotations_ok [OF ann] by simp
  then have "field_checksum_ok (an_profile a) sem"
    using ck
    by (auto simp: field_checksum_ok_def sem validate_checksum_field_type_def split: option.splits if_splits
        dest!: allowed_has_type)
  moreover have "\<forall>n \<in> set (collect_type_expr_refs (fd_type_expr f)).
          registry_contains (an_registry a) n \<or> n \<in> set declared"
    using refs by (auto simp: validate_no_forward_refs_def try_each_Inr_iff split: if_splits)
  ultimately show ?thesis
    using ty resolve_type_expr_ok [OF ty(1)] by (auto simp: sem)
qed

lemma item_resolves_mono:
  "item_resolves ds rs it \<Longrightarrow> set ds \<subseteq> set ds' \<Longrightarrow> set rs \<subseteq> set rs' \<Longrightarrow> item_resolves ds' rs' it"
  by (cases it) auto

lemma items_resolve_mono:
  "list_all (item_resolves ds rs) its \<Longrightarrow> list_all (item_resolves (ds @ ds') (rs @ rs')) its"
  using item_resolves_mono [of ds rs _ "ds @ ds'" "rs @ rs'"] by (auto simp: list_all_iff)

lemma scope_item_inv:
  assumes "scope_item a check scope_id acc it = Inr acc'" "scope_inv a scope_id acc"
  shows "scope_inv a scope_id acc'"
proof (cases it)
  case (FField f)
  with assms(1) obtain sem where sem: "lower_sema_field a f scope_id (length (ac_fields acc)) (ac_declared acc) = Inr sem"
    and acc': "ac_fields acc' = ac_fields acc @ [sem]" "ac_items acc' = ac_items acc @ [ItField (sf_field_id sem)]"
      "ac_derived acc' = ac_derived acc" "ac_requires acc' = ac_requires acc"
    by (auto simp: Let_def rbind_eq_Inr_iff)
  show ?thesis
    using assms(2) lower_sema_field_ok [OF sem]
    by (auto simp: scope_inv_def acc' nth_append less_Suc_eq)
next
  case (FDerived d)
  with assms(1) obtain sem where sem: "lower_derived a d scope_id (length (ac_derived acc)) (ac_declared acc) = Inr sem"
    and acc': "ac_fields acc' = ac_fields acc" "ac_items acc' = ac_items acc @ [ItDerived (sd_derived_id sem)]"
      "ac_derived acc' = ac_derived acc @ [sem]" "ac_requires acc' = ac_requires acc"
    by (auto simp: rbind_eq_Inr_iff)
  have "type_ok False (an_registry a) (sd_ty sem)"
    using sem resolve_named_type_ok by (auto simp: lower_derived_def rbind_eq_Inr_iff)
  then show ?thesis
    using assms(2) items_resolve_mono [of "ac_derived acc" "ac_requires acc" "ac_items acc" "[sem]" "[]"]
    by (auto simp: scope_inv_def acc')
next
  case (FRequire r)
  then show ?thesis
    using assms items_resolve_mono [of "ac_derived acc" "ac_requires acc" "ac_items acc" "[]"]
    by (auto simp: scope_inv_def Let_def)
qed

lemma scope_loop_inv:
  "scope_loop a check scope_id acc items = Inr acc' \<Longrightarrow> scope_inv a scope_id acc \<Longrightarrow> scope_inv a scope_id acc'"
  by (induction items arbitrary: acc) (auto simp: rbind_eq_Inr_iff dest: scope_item_inv)

lemma scope_start_inv: "scope_inv a scope_id (scope_start declared)"
  by (simp add: scope_inv_def scope_start_def)

section \<open>Order of declarations\<close>

fun declares :: "ast_field_item \<Rightarrow> string list" where
  "declares (FField f) = [fd_name f]"
| "declares (FDerived d) = [df_name d]"
| "declares (FRequire r) = []"

lemma scope_item_declared: "scope_item a check sid acc it = Inr acc' \<Longrightarrow> ac_declared acc' = ac_declared acc @ declares it"
  by (cases it) (auto simp: Let_def rbind_eq_Inr_iff)

lemma scope_loop_declared:
  "scope_loop a check sid acc items = Inr acc' \<Longrightarrow> ac_declared acc' = ac_declared acc @ concat (map declares items)"
  by (induction items arbitrary: acc) (auto simp: rbind_eq_Inr_iff dest!: scope_item_declared)

lemma scope_loop_append: "scope_loop a check sid acc (xs @ ys) =
    rbind (scope_loop a check sid acc xs) (\<lambda>acc'. scope_loop a check sid acc' ys)"
  by (induction xs arbitrary: acc) (simp_all add: rbind_assoc)

lemma scope_loop_refs:
  assumes "scope_loop a check sid acc (xs @ FField f # ys) = Inr acc'" "n \<in> set (collect_type_expr_refs (fd_type_expr f))"
  shows "registry_contains (an_registry a) n \<or> n \<in> set (ac_declared acc @ concat (map declares xs))"
proof -
  obtain acc1 sem where x: "scope_loop a check sid acc xs = Inr acc1"
    and f: "lower_sema_field a f sid (length (ac_fields acc1)) (ac_declared acc1) = Inr sem"
    using assms(1) by (auto simp: scope_loop_append rbind_eq_Inr_iff Let_def)
  show ?thesis using lower_sema_field_ok [OF f] scope_loop_declared [OF x] assms(2) by auto
qed

lemma scope_item_field_names:
  "scope_item a check sid acc it = Inr acc' \<Longrightarrow> map sf_name (ac_fields acc')
    = map sf_name (ac_fields acc) @ (case it of FField f \<Rightarrow> [fd_name f] | _ \<Rightarrow> [])
    \<and> length (ac_items acc') = Suc (length (ac_items acc))"
  by (cases it) (auto simp: Let_def rbind_eq_Inr_iff dest: lower_sema_field_ok)

lemma scope_loop_field_names:
  "scope_loop a check sid acc items = Inr acc' \<Longrightarrow> map sf_name (ac_fields acc')
    = map sf_name (ac_fields acc) @ concat (map (\<lambda>it. case it of FField f \<Rightarrow> [fd_name f] | _ \<Rightarrow> []) items)
    \<and> length (ac_items acc') = length (ac_items acc) + length items"
proof (induction items arbitrary: acc)
  case (Cons it items)
  then obtain acc1 where "scope_item a check sid acc it = Inr acc1" "scope_loop a check sid acc1 items = Inr acc'"
    by (auto simp: rbind_eq_Inr_iff)
  with Cons.IH scope_item_field_names show ?case by fastforce
qed simp

section \<open>Scope checks\<close>

definition consumes_rest :: "semantic_type \<Rightarrow> bool" where
  "consumes_rest ty = (case ty of Bytes k x e \<Rightarrow> k = SBRemaining | Array t c w \<Rightarrow> c = None | _ \<Rightarrow> False)"

lemma ball_enumerate_nth:
  "(\<forall>p \<in> set (enumerate 0 xs). P (fst p) (snd p)) \<longleftrightarrow> (\<forall>i < length xs. P i (xs ! i))"
proof -
  have "p \<in> set (enumerate 0 xs) \<longleftrightarrow> fst p < length xs \<and> snd p = xs ! fst p" for p
    by (cases p) (auto simp: in_set_enumerate_eq)
  then show ?thesis by force
qed

lemma validate_remaining_iff: "validate_remaining_is_last (map describe_field flds) = Inr () \<longleftrightarrow>
    (\<forall>i. Suc i < length flds \<longrightarrow> \<not> consumes_rest (sf_ty (flds ! i)))"
proof -
  have w: "filter de_is_wire (map describe_field flds) = map describe_field flds"
    by (simp add: filter_id_conv describe_field_def)
  have c: "de_is_remaining (describe_field f) \<or> de_is_fill (describe_field f) \<longleftrightarrow> consumes_rest (sf_ty f)" for f
    by (auto simp: describe_field_def consumes_rest_def split: semantic_type.splits)
  have "validate_remaining_is_last (map describe_field flds) = Inr () \<longleftrightarrow>
      (\<forall>p \<in> set (enumerate 0 (map describe_field flds)).
         \<not> ((de_is_remaining (snd p) \<or> de_is_fill (snd p)) \<and> fst p < length flds - 1))"
    by (auto simp: validate_remaining_is_last_def Let_def w try_each_Inr_iff split: if_splits)
  also have "\<dots> \<longleftrightarrow> (\<forall>i < length flds. \<not> (consumes_rest (sf_ty (flds ! i)) \<and> i < length flds - 1))"
    unfolding ball_enumerate_nth [where P = "\<lambda>i d. \<not> ((de_is_remaining d \<or> de_is_fill d) \<and> i < length flds - 1)"]
    using c by (metis length_map nth_map)
  also have "\<dots> \<longleftrightarrow> (\<forall>i. Suc i < length flds \<longrightarrow> \<not> consumes_rest (sf_ty (flds ! i)))"
    by (metis Suc_lessD Suc_less_eq2 diff_Suc_1 less_diff_conv Suc_eq_plus1)
  finally show ?thesis .
qed

lemma validate_scope_ok:
  assumes "validate_scope flds desc = Inr ()"
  shows "(\<forall>i. Suc i < length flds \<longrightarrow> \<not> consumes_rest (sf_ty (flds ! i)))
    \<and> length (filter (\<lambda>f. sf_checksum_algorithm f \<noteq> None) flds) \<le> 1"
proof -
  have "length (List.map_filter sf_checksum_algorithm flds) = length (filter (\<lambda>f. sf_checksum_algorithm f \<noteq> None) flds)"
    by (induction flds) (auto simp: List.map_filter_simps split: option.splits)
  then show ?thesis
    using assms by (auto simp: validate_scope_def rbind_eq_Inr_iff validate_remaining_iff
        validate_single_checksum_def split: if_splits)
qed

lemma field_ids_distinct:
  assumes "scope_inv a sid acc" shows "distinct (map sf_field_id (ac_fields acc))"
  using assms by (auto simp: distinct_conv_nth scope_inv_def show_nat_inj)

section \<open>Enum members and variable-length integers\<close>

lemma check_member_names_iff:
  "check_member_names what name seen ms = Inr () \<longleftrightarrow>
    distinct (map em_name ms) \<and> set (map em_name ms) \<inter> set seen = {}"
  by (induction ms arbitrary: seen) auto

lemma check_member_values_iff: "check_member_values name mx ms = Inr () \<longleftrightarrow>
    (case mx of None \<Rightarrow> True | Some k \<Rightarrow> \<forall>m \<in> set ms. 0 \<le> em_value m \<and> em_value m \<le> k)"
  by (auto simp: check_member_values_def try_each_Inr_iff not_less split: option.splits if_splits)

lemma underlying_max_cases:
  "w \<notin> {Bool, Bit} \<Longrightarrow> (w = I64 \<and> underlying_max (Primitive w en) = None)
    \<or> (w \<noteq> I64 \<and> (\<exists>k. underlying_max (Primitive w en) = Some k))"
  by (cases w) auto

lemma unat_low_ones: "unat (low_ones n) = 2 ^ min 64 (unat n) - 1"
proof (cases "n \<ge> 64")
  case True
  then have "min 64 (unat n) = 64" by (simp add: word_le_nat_alt)
  with True show ?thesis by (simp add: low_ones_def unsigned_minus_1_eq_mask mask_eq_exp_minus_1)
next
  case False
  then have n: "unat n < 64" by (simp add: word_le_nat_alt)
  have "low_ones n = mask (unat n)" using False by (simp add: low_ones_def mask_eq_exp_minus_1 push_bit_eq_mult)
  moreover have "unat (mask k :: u64) = take_bit k (unat (- 1 :: u64))" for k
    by (metis take_bit_minus_one_eq_mask unsigned_take_bit_eq)
  ultimately have "unat (low_ones n) = mask (min (unat n) 64)"
    by (simp add: unsigned_minus_1_eq_mask take_bit_of_mask)
  with n show ?thesis by (simp add: mask_eq_exp_minus_1)
qed

lemma div_ceil_nat: "n div 8 + (if n mod 8 > 0 then 1 else 0) = (n + 7) div (8 :: nat)"
  by presburger

lemma unat_div_ceil8:
  "unat (ucast (div_ceil8 ((ucast a :: u16) + ucast b)) :: u8) = (unat (a :: u8) + unat (b :: u8) + 7) div 8"
proof -
  let ?s = "(ucast a :: u16) + ucast b"
  have ab: "unat a < 256" "unat b < 256" using unat_bound [of a] unat_bound [of b] by simp_all
  then have s: "unat ?s = unat a + unat b" by (simp add: unat_word_ariths unat_ucast_le)
  have "unat (div_ceil8 ?s) = (unat a + unat b + 7) div 8"
  proof -
    have "unat (?s div 8) = (unat a + unat b) div 8" using s by (simp add: unat_div)
    moreover have "?s mod 8 > 0 \<longleftrightarrow> (unat a + unat b) mod 8 > 0"
      using s by (simp add: word_less_nat_alt unat_mod)
    ultimately have "unat (div_ceil8 ?s) = (unat a + unat b) div 8 + (if (unat a + unat b) mod 8 > 0 then 1 else 0)"
      using ab by (simp add: div_ceil8_def unat_word_ariths)
    then show ?thesis by (simp only: div_ceil_nat)
  qed
  then show ?thesis using ab by (simp add: unsigned_ucast_eq unsigned_take_bit_eq take_bit_nat_eq_self)
qed

section \<open>Properties\<close>

text \<open>C0. What an accepted packet guarantees: every field has a type whose references name
  declarations of the right kind and is not \<open>bool\<close>; a checksum annotation is allowed by the profile
  and its field has the type the algorithm requires; there is at most one of them; only the last
  field consumes the rest of the scope; field identifiers are distinct; every item refers to a
  definition of the packet; and the fields and items are those of the source in its order.\<close>

theorem packet_accepted_wellformed:
  assumes "lower_sema_packet a p = Inr sp"
  shows "(\<forall>f \<in> set (sp_fields sp). type_ok False (an_registry a) (sf_ty f) \<and> \<not> is_bool_type (sf_ty f)
        \<and> field_checksum_ok (an_profile a) f)
    \<and> (\<forall>d \<in> set (sp_derived sp). type_ok False (an_registry a) (sd_ty d))
    \<and> length (filter (\<lambda>f. sf_checksum_algorithm f \<noteq> None) (sp_fields sp)) \<le> 1
    \<and> (\<forall>i. Suc i < length (sp_fields sp) \<longrightarrow> \<not> consumes_rest (sf_ty (sp_fields sp ! i)))
    \<and> distinct (map sf_field_id (sp_fields sp))
    \<and> list_all (item_resolves (sp_derived sp) (sp_requires sp)) (sp_items sp)
    \<and> map sf_name (sp_fields sp) = concat (map (\<lambda>it. case it of FField f \<Rightarrow> [fd_name f] | _ \<Rightarrow> []) (pk_fields p))
    \<and> length (sp_items sp) = length (pk_fields p)"
proof -
  let ?sid = "''packet:'' @ pk_name p"
  from assms obtain acc where l: "scope_loop a True ?sid (scope_start []) (pk_fields p) = Inr acc"
    and v: "validate_scope (ac_fields acc) (''packet '' @ quoted (pk_name p)) = Inr ()"
    and sp: "sp_fields sp = ac_fields acc" "sp_derived sp = ac_derived acc" "sp_requires sp = ac_requires acc"
      "sp_items sp = ac_items acc"
    unfolding lower_sema_packet_def Let_def by (auto simp: rbind_eq_Inr_iff)
  note inv = scope_loop_inv [OF l scope_start_inv]
  have names: "map sf_name (ac_fields acc) = concat (map (\<lambda>it. case it of FField f \<Rightarrow> [fd_name f] | _ \<Rightarrow> []) (pk_fields p))
      \<and> length (ac_items acc) = length (pk_fields p)"
    using scope_loop_field_names [OF l] by (simp add: scope_start_def)
  show ?thesis
    using inv validate_scope_ok [OF v] field_ids_distinct [OF inv] names
    unfolding sp scope_inv_def by blast
qed


text \<open>The syntax that the parser produces for a bytes type measured by an expression.\<close>

fun ast_sized :: "ast_type_expr \<Rightarrow> bool" where
  "ast_sized (TBytes k fx e s) = (k \<in> {BLength, BLengthOrRemaining} \<longrightarrow> e \<noteq> None)"
| "ast_sized (TOptional c t s) = ast_sized t"
| "ast_sized (TMatch f (MatchBranch p t bs # r) s) = ast_sized t"
| "ast_sized _ = True"

lemma resolve_type_expr_sized:
  "resolve_type_expr a t = Inr (ty, pr, h) \<Longrightarrow> ast_sized t \<Longrightarrow> bytes_sized ty"
proof (induction a t arbitrary: ty pr h rule: resolve_type_expr.induct)
  case (1 a name s)
  then have "type_ok False (an_registry a) ty \<and> (\<forall>k x e. ty \<noteq> Bytes k x e)"
    by (auto simp: rbind_eq_Inr_iff resolve_named_type_ok)
      (auto simp: resolve_named_type_def split: option.splits resolved_type.splits decl_kind.splits)
  then show ?case by (cases ty) auto
next
  case (3 a kind fx e s)
  then show ?case by (cases kind) auto
next
  case (8 a n enc l)
  then show ?case by (auto simp: resolve_asn1_def split: option.splits if_splits asn1_length.splits)
qed (auto simp: rbind_eq_Inr_iff)

definition items_sized :: "ast_field_item list \<Rightarrow> bool" where
  "items_sized items \<longleftrightarrow> (\<forall>f. FField f \<in> set items \<longrightarrow> ast_sized (fd_type_expr f))"

lemma scope_loop_sized:
  "scope_loop a check sid acc items = Inr acc' \<Longrightarrow> items_sized items \<Longrightarrow>
    list_all (\<lambda>f. bytes_sized (sf_ty f)) (ac_fields acc) \<Longrightarrow> list_all (\<lambda>f. bytes_sized (sf_ty f)) (ac_fields acc')"
proof (induction items arbitrary: acc)
  case (Cons it items)
  then obtain acc1 where it: "scope_item a check sid acc it = Inr acc1"
      and r: "scope_loop a check sid acc1 items = Inr acc'"
    by (auto simp: rbind_eq_Inr_iff)
  have "list_all (\<lambda>f. bytes_sized (sf_ty f)) (ac_fields acc1)"
  proof (cases it)
    case (FField f)
    with it obtain sem where sem: "lower_sema_field a f sid (length (ac_fields acc)) (ac_declared acc) = Inr sem"
      and "ac_fields acc1 = ac_fields acc @ [sem]"
      by (auto simp: Let_def rbind_eq_Inr_iff)
    moreover have "bytes_sized (sf_ty sem)"
      using lower_sema_field_ok [OF sem] resolve_type_expr_sized Cons.prems(2) FField
      by (auto simp: items_sized_def)
    ultimately show ?thesis using Cons.prems(3) by simp
  qed (use it Cons.prems(3) in \<open>auto simp: Let_def rbind_eq_Inr_iff\<close>)
  then show ?case using Cons.IH [OF r] Cons.prems(2) by (simp add: items_sized_def)
qed simp




text \<open>The derived fields and requirements of a scope are not checked for forward references:
  a packet whose derived field reads a field that is declared after it is accepted.\<close>

lemma derived_forward_ref_accepted:
  "\<exists>sp. lower_sema_packet (analyzer_new Phase2ExtendedCurrent)
     \<lparr>pk_name = ''P'',
      pk_fields = [FDerived \<lparr>df_name = ''d'', df_type_name = ''u8'', df_expr = ENameRef ''later'' None, df_span = None\<rparr>,
                   FField \<lparr>fd_name = ''later'', fd_type_expr = TNamed ''u8'' None, fd_annotations = [], fd_span = None\<rparr>],
      pk_annotations = [], pk_exported = False, pk_span = None\<rparr> = Inr sp
     \<and> map sd_expr (sp_derived sp) = [SValueRef \<lparr>vr_value_id = ''later'', vr_kind = KField\<rparr>]"
proof -
  have u8: "resolve_named_type (registry_new Big) ''u8'' None = Inr (Primitive U8 None)" by code_simp
  show ?thesis
    by (simp add: lower_sema_packet_def analyzer_new_def Let_def scope_start_def lower_derived_def u8
        lower_sema_field_def validate_no_forward_refs_def check_lor_def validate_scope_def
        validate_remaining_is_last_def describe_field_def validate_single_checksum_def lower_name_ref_def
        registry_new_def get_const_value_def map_filter_simps u8 [unfolded registry_new_def])
qed

text \<open>The bounds of a prefix branch: the encoded length is the number of bytes that hold the
  prefix and the value, and the largest value and the prefix mask are all ones in their width,
  capped at 64 bits. The 16-bit sum and the 8-bit length never wrap.\<close>

theorem varint_branch_bounds:
  assumes "lower_varint_branch prefix_bits b = Some vb"
  shows "unat (vb_total_bytes vb) = (unat prefix_bits + unat (vb_value_bits vb) + 7) div 8
    \<and> unat (vb_max_value vb) = 2 ^ min 64 (unat (vb_value_bits vb)) - 1
    \<and> unat (vb_prefix_mask vb) = 2 ^ min 64 (unat prefix_bits) - 1"
proof -
  obtain pattern rt s pv where "b = MatchBranch pattern rt s" "branch_prefix_value pattern = Some pv"
    using assms by (cases b) (auto simp: lower_varint_branch_def split: option.splits)
  then have vb: "vb_total_bytes vb = ucast (div_ceil8 ((ucast prefix_bits :: u16) + ucast (vb_value_bits vb)))"
      "vb_max_value vb = low_ones (vb_value_bits vb)" "vb_prefix_mask vb = low_ones prefix_bits"
    using assms by (auto simp: lower_varint_branch_def Let_def)
  then show ?thesis by (simp add: unat_low_ones unat_div_ceil8)
qed

section \<open>Examples\<close>

definition tlv :: ast_packet_decl where
  "tlv = \<lparr>pk_name = ''Tlv'',
     pk_fields = [FField \<lparr>fd_name = ''len'', fd_type_expr = TNamed ''u8'' None, fd_annotations = [], fd_span = None\<rparr>,
                  FField \<lparr>fd_name = ''data'', fd_type_expr = TBytes BLength None (Some (ENameRef ''len'' None)) None,
                          fd_annotations = [], fd_span = None\<rparr>,
                  FRequire \<lparr>rq_expr = EBinary Gt (ENameRef ''len'' None) (EInt 0 None) None, rq_span = None\<rparr>],
     pk_annotations = [], pk_exported = True, pk_span = None\<rparr>"

definition sum_ok :: "'e + 'a \<Rightarrow> bool" where
  "sum_ok m = (case m of Inl e \<Rightarrow> False | Inr x \<Rightarrow> True)"

lemma sum_ok_iff: "sum_ok m \<longleftrightarrow> (\<exists>x. m = Inr x)"
  by (cases m) (auto simp: sum_ok_def)

definition tlv_analyzer :: analyzer where
  "tlv_analyzer = analyzer_new Phase2ExtendedCurrent"

lemma tlv_accepted: "sum_ok (lower_sema_packet tlv_analyzer tlv)"
  by code_simp

lemma tlv_names: "concat (map declares [FField \<lparr>fd_name = ''len'', fd_type_expr = TNamed ''u8'' None, fd_annotations = [], fd_span = None\<rparr>]) = [''len'']"
  by simp

lemma packet_accepted_wellformed_witness:
  "\<exists>sp. lower_sema_packet tlv_analyzer tlv = Inr sp \<and> map sf_name (sp_fields sp) = [''len'', ''data'']
    \<and> list_all (item_resolves (sp_derived sp) (sp_requires sp)) (sp_items sp)"
proof -
  obtain sp where "lower_sema_packet tlv_analyzer tlv = Inr sp" using tlv_accepted by (auto simp: sum_ok_iff)
  from packet_accepted_wellformed [OF this] this show ?thesis by (auto simp: tlv_def)
qed


lemma tlv_fields: "\<exists>sp. lower_sema_packet tlv_analyzer tlv = Inr sp
    \<and> map sf_ty (sp_fields sp) = [Primitive U8 None, Bytes SBLength None (Some (SValueRef \<lparr>vr_value_id = ''len'', vr_kind = KField\<rparr>))]"
proof -
  have "(case lower_sema_packet tlv_analyzer tlv of Inl e \<Rightarrow> False
    | Inr sp \<Rightarrow> map sf_ty (sp_fields sp) = [Primitive U8 None, Bytes SBLength None (Some (SValueRef \<lparr>vr_value_id = ''len'', vr_kind = KField\<rparr>))])"
    by code_simp
  then show ?thesis by (auto split: sum.splits)
qed

lemma two_fields_no_bits:
  assumes "map sf_ty fs = [Primitive U8 None, Bytes k x e]"
  shows "widths_small m fs \<and> runs_ok (lower_fields fs m)"
proof -
  obtain f g where fs: "fs = [f, g]" "sf_ty f = Primitive U8 None" "sf_ty g = Bytes k x e"
    using assms by (auto simp: map_eq_Cons_conv)
  then show ?thesis
    by (simp add: widths_small_def runs_ok_def bits_total_def lower_fields_def bit_width_def lower_field_def
        is_bit_field.simps)
qed


lemma varint_branch_bounds_witness:
  "\<exists>vb. lower_varint_branch 2 (MatchBranch (PValue 1 None) (TBits 14 None) None) = Some vb
    \<and> unat (vb_total_bytes vb) = 2 \<and> unat (vb_max_value vb) = 16383"
proof -
  obtain vb where vb: "lower_varint_branch 2 (MatchBranch (PValue 1 None) (TBits 14 None) None) = Some vb"
    by (simp add: lower_varint_branch_def Let_def)
  then have "vb_value_bits vb = 14" by (auto simp: lower_varint_branch_def Let_def)
  then show ?thesis using vb varint_branch_bounds [OF vb] by simp
qed

end
