(* ===== verification/Register.thy ===== *)
theory Register
  imports TypeRes
begin

text \<open>
  Pass 1 of the analyzer, \<open>crates/wirespec-sema/src/analyzer/register.rs\<close>: every top-level item
  enters its name into the type registry, constants also their value and aliases their target.
\<close>

section \<open>Operations\<close>

definition RESERVED_IDENTIFIERS :: "string list" where
  "RESERVED_IDENTIFIERS =
     [''bool'', ''null'', ''fill'', ''remaining'', ''in_state'', ''all'', ''child_state_changed'', ''src'', ''dst'']"

definition check_reserved :: "string \<Rightarrow> sema_error + unit" where
  "check_reserved name =
     (if name \<in> set RESERVED_IDENTIFIERS
      then Inl (sema_error_new ReservedIdentifier (quoted name @ '' is a reserved identifier''))
      else Inr ())"

definition with_registry :: "analyzer \<Rightarrow> string + type_registry \<Rightarrow> sema_error + analyzer" where
  "with_registry a m =
     rbind (rmap_err (sema_error_new DuplicateDefinition) m) (\<lambda>r. Inr (a\<lparr>an_registry := r\<rparr>))"

definition try_register :: "string \<Rightarrow> decl_kind \<Rightarrow> analyzer \<Rightarrow> sema_error + analyzer" where
  "try_register name kind a =
     rbind (check_reserved name) (\<lambda>_. with_registry a (register_decl name kind (an_registry a)))"

definition try_register_alias :: "string \<Rightarrow> string \<Rightarrow> analyzer \<Rightarrow> sema_error + analyzer" where
  "try_register_alias name target a =
     rbind (check_reserved name) (\<lambda>_. with_registry a (register_alias name target (an_registry a)))"

fun literal_to_const :: "ast_literal_value \<Rightarrow> int" where
  "literal_to_const (LInt v) = v"
| "literal_to_const (LBool b) = (if b then 1 else 0)"
| "literal_to_const (LString s) = 0"
| "literal_to_const LNull = 0"

fun register_item :: "analyzer \<Rightarrow> ast_top_item \<Rightarrow> sema_error + analyzer" where
  "register_item a (IConst c) =
     rbind (try_register (co_name c) KConstDecl a) (\<lambda>a.
       Inr (a\<lparr>an_registry := register_const (co_name c) (literal_to_const (co_value c)) (an_registry a)\<rparr>))"
| "register_item a (IEnum e) = try_register (en_name e) KEnum a"
| "register_item a (IFlags f) = try_register (fl_name f) KFlags a"
| "register_item a (IType td) =
     (case ty_body td of
        BodyAlias target \<Rightarrow> try_register_alias (ty_name td) (type_expr_name target) a
      | BodyFields flds \<Rightarrow> try_register (ty_name td) KVarInt a)"
| "register_item a (IContinuationVarInt cv) = try_register (cv_name cv) KVarInt a"
| "register_item a (IPacket p) = try_register (pk_name p) KPacket a"
| "register_item a (IFrame f) = try_register (fr_name f) KFrame a"
| "register_item a (ICapsule c) = try_register (ca_name c) KCapsule a"
| "register_item a (IStateMachine sm) = try_register (sm_name sm) KStateMachine a"
| "register_item a (IStaticAssert sa) = Inr a"
| "register_item a (IExternAsn1 e) =
     Inr (a\<lparr>an_asn1_externs := an_asn1_externs a @
       [\<lparr>ae_path = ex_path e, ae_rust_module = ex_rust_module e, ae_type_names = ex_type_names e,
         ae_span = ex_span e\<rparr>]\<rparr>)"

fun register_all :: "analyzer \<Rightarrow> ast_top_item list \<Rightarrow> sema_error + analyzer" where
  "register_all a [] = Inr a"
| "register_all a (it # items) = rbind (register_item a it) (\<lambda>a'. register_all a' items)"

section \<open>What an item declares\<close>

text \<open>The name an item enters, and what it enters the name as.\<close>

fun item_name :: "ast_top_item \<Rightarrow> string option" where
  "item_name (IConst c) = Some (co_name c)"
| "item_name (IEnum e) = Some (en_name e)"
| "item_name (IFlags f) = Some (fl_name f)"
| "item_name (IType td) = Some (ty_name td)"
| "item_name (IContinuationVarInt cv) = Some (cv_name cv)"
| "item_name (IPacket p) = Some (pk_name p)"
| "item_name (IFrame f) = Some (fr_name f)"
| "item_name (ICapsule c) = Some (ca_name c)"
| "item_name (IStateMachine sm) = Some (sm_name sm)"
| "item_name (IStaticAssert sa) = None"
| "item_name (IExternAsn1 e) = None"

fun item_kind :: "ast_top_item \<Rightarrow> decl_kind option" where
  "item_kind (IConst c) = Some KConstDecl"
| "item_kind (IEnum e) = Some KEnum"
| "item_kind (IFlags f) = Some KFlags"
| "item_kind (IType td) = (case ty_body td of BodyAlias t \<Rightarrow> None | BodyFields f \<Rightarrow> Some KVarInt)"
| "item_kind (IContinuationVarInt cv) = Some KVarInt"
| "item_kind (IPacket p) = Some KPacket"
| "item_kind (IFrame f) = Some KFrame"
| "item_kind (ICapsule c) = Some KCapsule"
| "item_kind (IStateMachine sm) = Some KStateMachine"
| "item_kind (IStaticAssert sa) = None"
| "item_kind (IExternAsn1 e) = None"

definition item_names :: "ast_top_item list \<Rightarrow> string list" where
  "item_names items = List.map_filter item_name items"

lemma item_names_simps [simp]:
  "item_names [] = []"
  "item_names (it # items) = (case item_name it of Some n \<Rightarrow> n # item_names items | None \<Rightarrow> item_names items)"
  by (simp_all add: item_names_def List.map_filter_simps split: option.split)

section \<open>Registration\<close>

text \<open>The name table of the analyzer, seen through its registry.\<close>

definition an_taken :: "analyzer \<Rightarrow> string \<Rightarrow> bool" where
  "an_taken a n \<longleftrightarrow> name_taken (an_registry a) n"

definition an_kind :: "analyzer \<Rightarrow> string \<Rightarrow> decl_kind option" where
  "an_kind a n = get_decl_kind (an_registry a) n"

definition refused :: "analyzer \<Rightarrow> string \<Rightarrow> bool" where
  "refused a n \<longleftrightarrow> n \<in> set RESERVED_IDENTIFIERS \<or> an_taken a n"

lemma with_registry_eq_Inr_iff:
  "with_registry a m = Inr a' \<longleftrightarrow> (\<exists>r. m = Inr r \<and> a' = a\<lparr>an_registry := r\<rparr>)"
  by (auto simp: with_registry_def rbind_eq_Inr_iff rmap_err_eq_Inr_iff)

lemma check_reserved_iff: "check_reserved n = Inr u \<longleftrightarrow> n \<notin> set RESERVED_IDENTIFIERS"
  by (simp add: check_reserved_def)

lemma try_register_Inr:
  "try_register n k a = Inr a' \<longleftrightarrow>
    n \<notin> set RESERVED_IDENTIFIERS \<and> (\<exists>r. register_decl n k (an_registry a) = Inr r \<and> a' = a\<lparr>an_registry := r\<rparr>)"
  by (auto simp: try_register_def rbind_eq_Inr_iff check_reserved_iff with_registry_eq_Inr_iff)

lemma try_register_alias_Inr:
  "try_register_alias n t a = Inr a' \<longleftrightarrow>
    n \<notin> set RESERVED_IDENTIFIERS \<and> (\<exists>r. register_alias n t (an_registry a) = Inr r \<and> a' = a\<lparr>an_registry := r\<rparr>)"
  by (auto simp: try_register_alias_def rbind_eq_Inr_iff check_reserved_iff with_registry_eq_Inr_iff)

lemma try_register_succeeds: "(\<exists>a'. try_register n k a = Inr a') \<longleftrightarrow> \<not> refused a n"
  using decls.ins_succeeds [of n k "an_registry a"]
  by (auto simp: try_register_Inr refused_def an_taken_def)

lemma try_register_alias_succeeds: "(\<exists>a'. try_register_alias n t a = Inr a') \<longleftrightarrow> \<not> refused a n"
  using alias_table.ins_succeeds [of n t "an_registry a"]
  by (auto simp: try_register_alias_Inr refused_def an_taken_def)

lemma register_const_keeps [simp]:
  "name_taken (register_const n v r) m = name_taken r m"
  "get_decl_kind (register_const n v r) m = get_decl_kind r m"
  by (simp_all add: register_const_def name_taken_def get_decl_kind_def)

lemma alias_keeps_kind: "register_alias n t r = Inr r' \<Longrightarrow> get_decl_kind r' m = get_decl_kind r m"
  by (auto simp: register_alias_def get_decl_kind_def split: if_splits)

lemma register_item_succeeds:
  "(\<exists>a'. register_item a it = Inr a') \<longleftrightarrow> (\<forall>n. item_name it = Some n \<longrightarrow> \<not> refused a n)"
proof (cases it)
  case (IConst c)
  then show ?thesis using try_register_succeeds [of "co_name c" KConstDecl a]
    by (auto simp: rbind_eq_Inr_iff)
next
  case (IType td)
  then show ?thesis
    by (cases "ty_body td") (simp_all add: try_register_succeeds try_register_alias_succeeds)
qed (simp_all add: try_register_succeeds)

lemma register_item_taken:
  "register_item a it = Inr a' \<Longrightarrow> an_taken a' m \<longleftrightarrow> item_name it = Some m \<or> an_taken a m"
  unfolding an_taken_def
  by (cases it)
    (auto simp: rbind_eq_Inr_iff try_register_Inr try_register_alias_Inr
        decls.ins_taken alias_table.ins_taken split: ast_type_decl_body.splits)

lemma register_item_kind:
  "register_item a it = Inr a' \<Longrightarrow>
    an_kind a' m = (if item_name it = Some m \<and> item_kind it \<noteq> None then item_kind it else an_kind a m)"
  unfolding an_kind_def
  by (cases it)
    (auto simp: rbind_eq_Inr_iff try_register_Inr try_register_alias_Inr
        decls.ins_look alias_keeps_kind split: ast_type_decl_body.splits)

lemma register_all_taken:
  "register_all a items = Inr a' \<Longrightarrow> an_taken a' m \<longleftrightarrow> m \<in> set (item_names items) \<or> an_taken a m"
proof (induction items arbitrary: a)
  case (Cons it items)
  then obtain a1 where "register_item a it = Inr a1" "register_all a1 items = Inr a'"
    by (auto simp: rbind_eq_Inr_iff)
  then show ?case using Cons.IH [of a1] register_item_taken [of a it a1 m] by (auto split: option.splits)
qed simp

lemma register_all_succeeds:
  "(\<exists>a'. register_all a items = Inr a') \<longleftrightarrow>
    distinct (item_names items) \<and> (\<forall>n \<in> set (item_names items). \<not> refused a n)"
proof (induction items arbitrary: a)
  case (Cons it items)
  show ?case
  proof (cases "register_item a it")
    case (Inl e)
    then obtain n where "item_name it = Some n" "refused a n"
      using register_item_succeeds [of a it] by auto
    with Inl show ?thesis by simp
  next
    case (Inr a1)
    have ref: "refused a1 n \<longleftrightarrow> item_name it = Some n \<or> refused a n" if "n \<notin> set RESERVED_IDENTIFIERS" for n
      using register_item_taken [OF Inr, of n] that by (simp add: refused_def)
    have first: "item_name it = Some n \<Longrightarrow> \<not> refused a n" for n
      using register_item_succeeds [of a it] Inr by blast
    have res: "n \<in> set RESERVED_IDENTIFIERS \<Longrightarrow> refused b n" for n b by (simp add: refused_def)
    have "(\<forall>n \<in> set ns. \<not> refused a1 n) \<longleftrightarrow> (\<forall>n \<in> set ns. item_name it \<noteq> Some n \<and> \<not> refused a n)" for ns
      using ref res first by blast
    then show ?thesis using Inr Cons.IH [of a1] first by (auto split: option.splits)
  qed
qed simp

lemma register_all_kind:
  "register_all a items = Inr a' \<Longrightarrow> it \<in> set items \<Longrightarrow> item_name it = Some n \<Longrightarrow> item_kind it = Some k
    \<Longrightarrow> an_kind a' n = Some k"
proof (induction items arbitrary: a)
  case (Cons i items)
  from Cons.prems(1) obtain a1 where s: "register_item a i = Inr a1" "register_all a1 items = Inr a'"
    by (auto simp: rbind_eq_Inr_iff)
  have keep: "register_all b its = Inr b' \<Longrightarrow> n \<notin> set (item_names its) \<Longrightarrow> an_kind b' n = an_kind b n" for b b' its
    by (induction its arbitrary: b)
      (auto simp: rbind_eq_Inr_iff register_item_kind split: option.splits)
  show ?case
  proof (cases "it = i")
    case True
    have "an_taken a1 n" using register_item_taken [OF s(1), of n] Cons.prems(3) True by simp
    then have "n \<notin> set (item_names items)"
      using register_all_succeeds [of a1 items] s(2) by (auto simp: refused_def)
    then show ?thesis using keep [OF s(2)] register_item_kind [OF s(1), of n] Cons.prems(3,4) True by simp
  next
    case False
    then show ?thesis using Cons s(2) by simp
  qed
qed simp

lemma register_error_kind:
  "register_all a items = Inl e \<Longrightarrow> er_kind e = ReservedIdentifier \<or> er_kind e = DuplicateDefinition"
proof (induction items arbitrary: a)
  case (Cons it items)
  have "register_item a it = Inl e \<Longrightarrow> er_kind e = ReservedIdentifier \<or> er_kind e = DuplicateDefinition"
    by (cases it)
      (auto simp: rbind_eq_Inl_iff try_register_def try_register_alias_def check_reserved_def with_registry_def
         rmap_err_eq_Inr_iff rbind_eq_Inr_iff elim!: rmap_err.elims split: if_splits ast_type_decl_body.splits)
  then show ?case using Cons by (auto simp: rbind_eq_Inl_iff)
qed simp

text \<open>C26. Pass 1 accepts a list of items exactly when the names it declares are pairwise distinct and
  none of them is reserved or already in the registry (an imported name counts as taken); afterwards
  every declared name has the kind of its item, no other name was entered, and a refusal is either
  a reserved identifier or a duplicate definition.\<close>

theorem registration_accepts_iff:
  "(\<exists>a'. register_all a items = Inr a') =
      (distinct (item_names items) \<and>
       set (item_names items) \<inter> {n. n \<in> set RESERVED_IDENTIFIERS \<or> name_taken (an_registry a) n} = {})
   \<and> (case register_all a items of
        Inr a' \<Rightarrow> {n. name_taken (an_registry a') n} = set (item_names items) \<union> {n. name_taken (an_registry a) n}
           \<and> {(item_name it, item_kind it) |it. it \<in> set items \<and> item_kind it \<noteq> None}
               \<subseteq> {(Some n, get_decl_kind (an_registry a') n) |n. True}
      | Inl e \<Rightarrow> er_kind e \<in> {ReservedIdentifier, DuplicateDefinition})"
proof
  show "(\<exists>a'. register_all a items = Inr a') =
      (distinct (item_names items) \<and>
       set (item_names items) \<inter> {n. n \<in> set RESERVED_IDENTIFIERS \<or> name_taken (an_registry a) n} = {})"
    unfolding register_all_succeeds by (auto simp: refused_def an_taken_def)
  show "case register_all a items of
        Inr a' \<Rightarrow> {n. name_taken (an_registry a') n} = set (item_names items) \<union> {n. name_taken (an_registry a) n}
           \<and> {(item_name it, item_kind it) |it. it \<in> set items \<and> item_kind it \<noteq> None}
               \<subseteq> {(Some n, get_decl_kind (an_registry a') n) |n. True}
      | Inl e \<Rightarrow> er_kind e \<in> {ReservedIdentifier, DuplicateDefinition}"
  proof (cases "register_all a items")
    case (Inl e)
    then show ?thesis using register_error_kind by auto
  next
    case (Inr a')
    have named: "\<exists>n. item_name it = Some n" if "item_kind it \<noteq> None" for it
      using that by (cases it) auto
    have "(item_name it, item_kind it) \<in> {(Some n, get_decl_kind (an_registry a') n) |n. True}"
      if h: "it \<in> set items" "item_kind it \<noteq> None" for it
      using named [OF h(2)] register_all_kind [OF Inr h(1)] h(2) by (fastforce simp: an_kind_def)
    then show ?thesis using register_all_taken [OF Inr] Inr by (auto simp: an_taken_def)
  qed
qed

end
