(* ===== verification/StateMachine.thy ===== *)
theory StateMachine
  imports Register Scopes "HOL-Library.Multiset"
begin

text \<open>
  Lowering of state machines: \<open>lower_state_machine\<close> and the verify declarations of
  \<open>crates/wirespec-sema/src/analyzer/lower.rs\<close>, and the expression passes of \<open>analyzer/validate.rs\<close>.
  The checks run in the order of the source, so that the first error is the one reported. The source
  iterates over hash tables in two places; the order of iteration is a parameter.
\<close>

section \<open>Hash iteration\<close>

text \<open>The order in which the keys of a \<open>HashMap\<close> or \<open>HashSet\<close> are visited: some rearrangement of them.\<close>

record hash_order =
  ho_names :: "string list \<Rightarrow> string list"
  ho_pairs :: "(string \<times> string) list \<Rightarrow> (string \<times> string) list"

definition hash_order_ok :: "hash_order \<Rightarrow> bool" where
  "hash_order_ok h \<longleftrightarrow> (\<forall>xs. mset (ho_names h xs) = mset xs) \<and> (\<forall>xs. mset (ho_pairs h xs) = mset xs)"

definition insertion_order :: hash_order where
  "insertion_order = \<lparr>ho_names = (\<lambda>xs. xs), ho_pairs = (\<lambda>xs. xs)\<rparr>"

lemma hash_order_set:
  assumes "hash_order_ok h"
  shows "set (ho_names h xs) = set xs" "set (ho_pairs h ys) = set ys"
    "distinct (ho_names h xs) = distinct xs" "length (ho_names h xs) = length xs"
  using assms mset_eq_setD [of "ho_names h xs" xs] mset_eq_setD [of "ho_pairs h ys" ys]
    mset_eq_imp_distinct_iff [of "ho_names h xs" xs] mset_eq_length [of "ho_names h xs" xs]
  by (simp_all add: hash_order_ok_def)

lemma insertion_order_ok: "hash_order_ok insertion_order"
  by (simp add: hash_order_ok_def insertion_order_def)

section \<open>Expression passes (validate.rs)\<close>

fun resolve_event_params :: "string list \<Rightarrow> semantic_expr \<Rightarrow> semantic_expr" where
  "resolve_event_params names (SValueRef r) =
     (if vr_kind r = KField \<and> vr_value_id r \<in> set names
      then STransitionPeerRef \<lparr>pr_peer = EventParam, pr_event_param_id = None, pr_path = [vr_value_id r]\<rparr>
      else SValueRef r)"
| "resolve_event_params names (SBinary op l r) = SBinary op (resolve_event_params names l) (resolve_event_params names r)"
| "resolve_event_params names (SUnary op e) = SUnary op (resolve_event_params names e)"
| "resolve_event_params names (SSubscript b i) = SSubscript (resolve_event_params names b) (resolve_event_params names i)"
| "resolve_event_params names (SStateConstructor si sn ti tn args) =
     SStateConstructor si sn ti tn (map (resolve_event_params names) args)"
| "resolve_event_params names (SFill v c) = SFill (resolve_event_params names v) (resolve_event_params names c)"
| "resolve_event_params names (SInState e si sn ti tn) = SInState (resolve_event_params names e) si sn ti tn"
| "resolve_event_params names (SAll c si sn ti tn) = SAll (resolve_event_params names c) si sn ti tn"
| "resolve_event_params names (SSlice b s e) =
     SSlice (resolve_event_params names b) (resolve_event_params names s) (resolve_event_params names e)"
| "resolve_event_params names (SCoalesce e d) = SCoalesce (resolve_event_params names e) (resolve_event_params names d)"
| "resolve_event_params names (SLiteral l) = SLiteral l"
| "resolve_event_params names (STransitionPeerRef r) = STransitionPeerRef r"

fun extract_child_sm_name :: "semantic_expr \<Rightarrow> semantic_state list \<Rightarrow> string option" where
  "extract_child_sm_name (STransitionPeerRef r) states =
     (case pr_path r of
        [] \<Rightarrow> None
      | field_name # rest \<Rightarrow>
          (case List.find (\<lambda>f. stf_name f = field_name) (concat (map sst_fields states)) of
             Some f \<Rightarrow> stf_child_sm_name f
           | None \<Rightarrow> None))"
| "extract_child_sm_name _ states = None"

fun slice_base :: "semantic_expr \<Rightarrow> semantic_expr option" where
  "slice_base (SSlice b s e) = Some b"
| "slice_base _ = None"

fun resolve_guard_sm_names :: "semantic_state list \<Rightarrow> semantic_expr \<Rightarrow> semantic_expr" where
  "resolve_guard_sm_names states (SInState inner smi smn state_id state_name) =
     (if smn = [] then
        (case extract_child_sm_name inner states of
           Some child_sm \<Rightarrow>
             SInState (resolve_guard_sm_names states inner) (''sm:'' @ child_sm) child_sm state_id state_name
         | None \<Rightarrow> SInState (resolve_guard_sm_names states inner) smi smn state_id state_name)
      else SInState inner smi smn state_id state_name)"
| "resolve_guard_sm_names states (SAll collection smi smn state_id state_name) =
     (if smn = [] then
        (case Option.bind (slice_base collection) (\<lambda>fe. extract_child_sm_name fe states) of
           Some child_sm \<Rightarrow>
             SAll (resolve_guard_sm_names states collection) (''sm:'' @ child_sm) child_sm state_id state_name
         | None \<Rightarrow> SAll (resolve_guard_sm_names states collection) smi smn state_id state_name)
      else SAll collection smi smn state_id state_name)"
| "resolve_guard_sm_names states (SBinary op l r) =
     SBinary op (resolve_guard_sm_names states l) (resolve_guard_sm_names states r)"
| "resolve_guard_sm_names states (SUnary op e) = SUnary op (resolve_guard_sm_names states e)"
| "resolve_guard_sm_names states e = e"

section \<open>States\<close>

fun starts_with_sm :: "string \<Rightarrow> bool" where
  "starts_with_sm s = (take 3 s = ''sm:'')"

fun sm_ref_type :: "semantic_type \<Rightarrow> (string \<times> string) option" where
  "sm_ref_type (PacketRef packet_id name) = Some (packet_id, name)"
| "sm_ref_type (Array (PacketRef packet_id name) c w) = Some (packet_id, name)"
| "sm_ref_type _ = None"

text \<open>The child state machine a field's type refers to: its identifier and its name.\<close>

definition child_sm :: "semantic_type \<Rightarrow> (string \<times> string) option" where
  "child_sm ty =
     (case sm_ref_type ty of
        Some (packet_id, name) \<Rightarrow> if starts_with_sm packet_id then Some (packet_id, name) else None
      | None \<Rightarrow> None)"

definition state_field_type :: "analyzer \<Rightarrow> ast_type_expr \<Rightarrow> semantic_type" where
  "state_field_type a t =
     (case resolve_state_field_type a t of Inr ty \<Rightarrow> ty | Inl e \<Rightarrow> Primitive U8 None)"

definition lower_state_field :: "analyzer \<Rightarrow> string \<Rightarrow> nat \<times> ast_state_field_def \<Rightarrow> semantic_state_field" where
  "lower_state_field a state_id = (\<lambda>(i, f).
     let ty = state_field_type a (sd_type_expr f)
     in \<lparr>stf_field_id = state_id @ ''.field['' @ show_nat i @ '']'', stf_name = sd_name f, stf_ty = ty,
         stf_default_value = map_option lower_literal (sd_default_value f),
         stf_child_sm_id = map_option fst (child_sm ty), stf_child_sm_name = map_option snd (child_sm ty),
         stf_span = sd_span f\<rparr>)"

definition lower_state :: "analyzer \<Rightarrow> string \<Rightarrow> ast_state_decl \<Rightarrow> semantic_state" where
  "lower_state a sm_id s =
     (let state_id = sm_id @ ''/state:'' @ st_name s
      in \<lparr>sst_state_id = state_id, sst_name = st_name s,
          sst_fields = map (lower_state_field a state_id) (enumerate 0 (st_fields s)),
          sst_is_terminal = st_is_terminal s, sst_span = st_span s\<rparr>)"

definition sm_state_names :: "ast_state_machine_decl \<Rightarrow> string list" where
  "sm_state_names sm = map st_name (sm_states sm)"

definition sm_terminal_names :: "ast_state_machine_decl \<Rightarrow> string list" where
  "sm_terminal_names sm = map st_name (filter st_is_terminal (sm_states sm))"

definition check_initial :: "ast_state_machine_decl \<Rightarrow> sema_error + unit" where
  "check_initial sm =
     (if sm_initial_state sm = []
      then Inl (with_span (sm_span sm) (sema_error_new SmInvalidInitial
             (''no initial state declared in state machine '' @ quoted (sm_name sm))))
      else if sm_initial_state sm \<notin> set (sm_state_names sm)
      then Inl (with_span (sm_span sm) (sema_error_new SmInvalidInitial
             (''initial state '' @ quoted (sm_initial_state sm) @ '' not found in state machine '' @ quoted (sm_name sm))))
      else Inr ())"

section \<open>Events\<close>

definition lower_event_param :: "analyzer \<Rightarrow> string \<Rightarrow> nat \<times> ast_event_param \<Rightarrow> semantic_event_param" where
  "lower_event_param a event_id = (\<lambda>(i, p).
     \<lparr>sep_param_id = event_id @ ''.param['' @ show_nat i @ '']'', sep_name = ep_name p,
      sep_ty = state_field_type a (ep_type_expr p), sep_span = ep_span p\<rparr>)"

definition lower_event :: "analyzer \<Rightarrow> string \<Rightarrow> ast_event_decl \<Rightarrow> semantic_event" where
  "lower_event a sm_id ev =
     (let event_id = sm_id @ ''/event:'' @ ev_name ev
      in \<lparr>sev_event_id = event_id, sev_name = ev_name ev,
          sev_params = map (lower_event_param a event_id) (enumerate 0 (ev_params ev)), sev_span = ev_span ev\<rparr>)"

definition check_event_name :: "ast_event_decl \<Rightarrow> sema_error + unit" where
  "check_event_name ev =
     (if ev_name ev = ''child_state_changed''
      then (if ev_params ev \<noteq> []
            then Inl (sema_error_new ReservedIdentifier (quoted ''child_state_changed'' @ '' is a reserved identifier''))
            else Inr ())
      else check_reserved (ev_name ev))"

definition sm_event_uses :: "ast_state_machine_decl \<Rightarrow> ast_event_decl list" where
  "sm_event_uses sm = concat (map tr_events (sm_transitions sm))"

fun collect_events :: "analyzer \<Rightarrow> string \<Rightarrow> (string \<times> semantic_event) list \<Rightarrow> ast_event_decl list
    \<Rightarrow> sema_error + (string \<times> semantic_event) list" where
  "collect_events a sm_id event_map [] = Inr event_map"
| "collect_events a sm_id event_map (ev # evs) =
     rbind (check_event_name ev) (\<lambda>_.
       collect_events a sm_id
         (if map_of event_map (ev_name ev) = None
          then AList.update (ev_name ev) (lower_event a sm_id ev) event_map else event_map) evs)"

fun events_in_order :: "(string \<times> semantic_event) list \<Rightarrow> string list \<Rightarrow> ast_event_decl list \<Rightarrow> semantic_event list" where
  "events_in_order event_map seen [] = []"
| "events_in_order event_map seen (ev # evs) =
     (if ev_name ev \<in> set seen then events_in_order event_map seen evs
      else (case map_of event_map (ev_name ev) of
              Some event \<Rightarrow> event # events_in_order event_map (ev_name ev # seen) evs
            | None \<Rightarrow> events_in_order event_map (ev_name ev # seen) evs))"

definition event_id_of :: "(string \<times> semantic_event) list \<Rightarrow> string \<Rightarrow> string" where
  "event_id_of event_map name =
     (case map_of event_map name of Some e \<Rightarrow> sev_event_id e | None \<Rightarrow> [])"

section \<open>Transitions\<close>

abbreviation is_wildcard :: "ast_transition_decl \<Rightarrow> bool" where
  "is_wildcard t \<equiv> tr_src_state t = ''*''"

text \<open>The pairs of a state and an event with a transition of their own.\<close>

definition concrete_pairs :: "ast_state_machine_decl \<Rightarrow> (string \<times> string) list" where
  "concrete_pairs sm =
     concat (map (\<lambda>t. map (\<lambda>ev. (tr_src_state t, ev_name ev)) (tr_events t))
       (filter (\<lambda>t. \<not> is_wildcard t) (sm_transitions sm)))"

definition undefined_state_error :: "string \<Rightarrow> string \<Rightarrow> ast_state_machine_decl \<Rightarrow> span option \<Rightarrow> sema_error" where
  "undefined_state_error role name sm sp =
     with_span sp (sema_error_new SmUndefinedState
       (''undefined '' @ role @ '' state '' @ quoted name @ '' in state machine '' @ quoted (sm_name sm)))"

definition source_states :: "ast_state_machine_decl \<Rightarrow> ast_transition_decl \<Rightarrow> sema_error + string list" where
  "source_states sm t =
     (if is_wildcard t
      then Inr (filter (\<lambda>sn. sn \<notin> set (sm_terminal_names sm)) (sm_state_names sm))
      else if tr_src_state t \<notin> set (sm_state_names sm)
      then Inl (undefined_state_error ''source'' (tr_src_state t) sm (tr_span t))
      else Inr [tr_src_state t])"

definition check_transition :: "ast_state_machine_decl \<Rightarrow> ast_transition_decl \<Rightarrow> sema_error + string list" where
  "check_transition sm t =
     (if \<not> is_wildcard t \<and> tr_src_state t \<in> set (sm_terminal_names sm)
      then Inl (with_hint ''remove this transition or un-mark the state as [terminal]''
             (with_span (tr_span t) (sema_error_new SmTerminalHasOutgoing
               (''terminal state '' @ quoted (tr_src_state t)
                @ '' cannot have outgoing transitions in state machine '' @ quoted (sm_name sm)))))
      else
      rbind (source_states sm t) (\<lambda>src_states.
      if tr_dst_state t \<notin> set (sm_state_names sm)
      then Inl (undefined_state_error ''destination'' (tr_dst_state t) sm (tr_span t))
      else
      rbind (if tr_delegate t = None then Inr ()
             else try_each (\<lambda>src_name.
               if src_name \<noteq> tr_dst_state t
               then Inl (with_span (tr_span t) (sema_error_new SmDelegateNotSelfTransition
                      (''delegate is only allowed in self-transitions ('' @ src_name @ ''->'' @ tr_dst_state t @ '')'')))
               else Inr ()) src_states) (\<lambda>_.
      if tr_delegate t \<noteq> None \<and> tr_actions t \<noteq> []
      then Inl (with_span (tr_span t) (sema_error_new SmDelegateWithAction
             ''delegate and action are mutually exclusive in a transition''))
      else Inr src_states)))"

definition event_param_names :: "ast_transition_decl \<Rightarrow> string list" where
  "event_param_names t = concat (map (\<lambda>ev. map ep_name (ev_params ev)) (tr_events t))"

definition lower_guard :: "analyzer \<Rightarrow> semantic_state list \<Rightarrow> ast_transition_decl \<Rightarrow> semantic_expr option" where
  "lower_guard a states t =
     map_option (\<lambda>g. resolve_guard_sm_names states
       (resolve_event_params (event_param_names t) (lower_expr (an_registry a) [] g))) (tr_guard t)"

definition lower_action :: "analyzer \<Rightarrow> string \<Rightarrow> nat \<Rightarrow> string list \<Rightarrow> nat \<times> ast_assignment \<Rightarrow> semantic_action" where
  "lower_action a sm_id idx names = (\<lambda>(i, asg).
     \<lparr>sac_action_id = sm_id @ ''/transition['' @ show_nat idx @ ''].action['' @ show_nat i @ '']'',
      sac_target = resolve_event_params names (lower_expr (an_registry a) [] (as_target asg)),
      sac_op = as_op asg,
      sac_value = resolve_event_params names (lower_expr (an_registry a) [] (as_value asg)),
      sac_span = as_span asg\<rparr>)"

definition lower_delegate :: "analyzer \<Rightarrow> (string \<times> semantic_event) list \<Rightarrow> string list \<Rightarrow> ast_delegate_clause
    \<Rightarrow> semantic_delegate" where
  "lower_delegate a event_map names d =
     \<lparr>sdg_target = resolve_event_params names (lower_expr (an_registry a) [] (dg_target d)),
      sdg_event_id = event_id_of event_map (dg_event_name d), sdg_event_name = dg_event_name d,
      sdg_span = dg_span d\<rparr>"

text \<open>The pairs of a source state and an event that a declaration stands for.\<close>

definition expanded_pairs :: "ast_state_machine_decl \<Rightarrow> ast_transition_decl \<Rightarrow> string list \<Rightarrow> (string \<times> string) list" where
  "expanded_pairs sm t src_states =
     filter (\<lambda>p. \<not> (is_wildcard t \<and> p \<in> set (concrete_pairs sm)))
       (concat (map (\<lambda>src_name. map (\<lambda>ev. (src_name, ev_name ev)) (tr_events t)) src_states))"

definition mk_transition :: "analyzer \<Rightarrow> ast_state_machine_decl \<Rightarrow> semantic_state list
    \<Rightarrow> (string \<times> semantic_event) list \<Rightarrow> nat \<Rightarrow> ast_transition_decl \<Rightarrow> nat \<times> string \<times> string
    \<Rightarrow> semantic_transition" where
  "mk_transition a sm states event_map start t = (\<lambda>(idx, src_name, event_name).
     let sm_id = ''sm:'' @ sm_name sm; names = event_param_names t
     in \<lparr>str_transition_id = sm_id @ ''/transition['' @ show_nat idx @ '']'',
         str_src_state_id = sm_id @ ''/state:'' @ src_name, str_src_state_name = src_name,
         str_dst_state_id = sm_id @ ''/state:'' @ tr_dst_state t, str_dst_state_name = tr_dst_state t,
         str_event_id = event_id_of event_map event_name, str_event_name = event_name,
         str_guard = lower_guard a states t,
         str_actions = map (lower_action a sm_id start names) (enumerate 0 (tr_actions t)),
         str_delegate = map_option (lower_delegate a event_map names) (tr_delegate t),
         str_span = tr_span t\<rparr>)"

fun lower_transitions :: "analyzer \<Rightarrow> ast_state_machine_decl \<Rightarrow> semantic_state list
    \<Rightarrow> (string \<times> semantic_event) list \<Rightarrow> semantic_transition list \<Rightarrow> ast_transition_decl list
    \<Rightarrow> sema_error + semantic_transition list" where
  "lower_transitions a sm states event_map acc [] = Inr acc"
| "lower_transitions a sm states event_map acc (t # ts) =
     rbind (check_transition sm t) (\<lambda>src_states.
       lower_transitions a sm states event_map
         (acc @ map (mk_transition a sm states event_map (length acc) t)
            (enumerate (length acc) (expanded_pairs sm t src_states))) ts)"

section \<open>Checks on the whole machine\<close>

definition transition_key :: "semantic_transition \<Rightarrow> string \<times> string" where
  "transition_key t = (str_src_state_name t, str_event_name t)"

definition check_duplicates :: "hash_order \<Rightarrow> semantic_transition list \<Rightarrow> sema_error + unit" where
  "check_duplicates ho transitions =
     try_each (\<lambda>key.
       let group = filter (\<lambda>t. transition_key t = key) transitions
       in if length group \<le> 1 then Inr ()
          else if list_ex (\<lambda>t. str_guard t = None) group
          then Inl (sema_error_new SmDuplicateTransition
                 (''duplicate transition: state '' @ quoted (fst key) @ '' + event '' @ quoted (snd key)
                  @ '' (guard-free transitions cannot coexist with other transitions for the same state+event)''))
          else Inr ()) (ho_pairs ho (remdups (map transition_key transitions)))"

definition check_exhaustive :: "ast_state_machine_decl \<Rightarrow> semantic_state list \<Rightarrow> sema_error + unit" where
  "check_exhaustive sm states =
     (if list_ex is_wildcard (sm_transitions sm) then Inr ()
      else try_each (\<lambda>state.
        if \<not> sst_is_terminal state \<and> sst_name state \<notin> set (map tr_src_state (sm_transitions sm))
        then Inl (sema_error_new SmUnhandledEvent
               (''non-terminal state '' @ quoted (sst_name state) @ '' has no outgoing transitions''))
        else Inr ()) states)"

fun dst_field :: "semantic_expr \<Rightarrow> string list" where
  "dst_field (STransitionPeerRef r) =
     (if pr_peer r = Dst then (case pr_path r of [] \<Rightarrow> [] | field_name # rest \<Rightarrow> [field_name]) else [])"
| "dst_field _ = []"

definition assigned_fields :: "semantic_transition \<Rightarrow> string list" where
  "assigned_fields t = concat (map (\<lambda>act. dst_field (sac_target act)) (str_actions t))"

definition check_transition_assignments :: "semantic_state list \<Rightarrow> semantic_transition \<Rightarrow> sema_error + unit" where
  "check_transition_assignments states t =
     (if str_delegate t \<noteq> None then Inr ()
      else case List.find (\<lambda>s. sst_name s = str_dst_state_name t) states of
             None \<Rightarrow> Inr ()
           | Some dst_state \<Rightarrow>
               try_each (\<lambda>f.
                 if stf_default_value f = None \<and> stf_name f \<notin> set (assigned_fields t)
                 then Inl (with_span (str_span t) (sema_error_new SmMissingAssignment
                        (''transition '' @ str_src_state_name t @ '' -> '' @ str_dst_state_name t @ '' on ''
                         @ quoted (str_event_name t) @ '': destination field '' @ quoted (stf_name f)
                         @ '' has no default value and is not assigned in action block'')))
                 else Inr ()) (sst_fields dst_state))"

section \<open>Structural reachability\<close>

text \<open>The breadth-first search over an adjacency list kept as the list of its edges, with the set
  of visited nodes as a list.\<close>

definition neighbours :: "(string \<times> string) list \<Rightarrow> string \<Rightarrow> string list" where
  "neighbours edges node = map snd (filter (\<lambda>e. fst e = node) edges)"

fun visit_all :: "string list \<Rightarrow> string list \<Rightarrow> string list \<Rightarrow> string list \<times> string list" where
  "visit_all [] visited queue = (visited, queue)"
| "visit_all (n # ns) visited queue =
     (if n \<in> set visited then visit_all ns visited queue else visit_all ns (n # visited) (queue @ [n]))"

lemma visit_all_grows:
  "visit_all ns visited queue = (visited', queue') \<Longrightarrow>
    set visited' = set visited \<union> set ns \<and> set queue' \<subseteq> set queue \<union> set ns \<and>
    (\<exists>new. queue' = queue @ new \<and> set new = set visited' - set visited \<and> distinct new)"
proof (induction ns arbitrary: visited queue)
  case (Cons n ns)
  show ?case
  proof (cases "n \<in> set visited")
    case True
    then show ?thesis using Cons by fastforce
  next
    case False
    then have step: "visit_all ns (n # visited) (queue @ [n]) = (visited', queue')" using Cons.prems by simp
    from Cons.IH [OF step] obtain new where
      "set visited' = set (n # visited) \<union> set ns" "queue' = (queue @ [n]) @ new"
      "set new = set visited' - set (n # visited)" "distinct new" by auto
    then show ?thesis using False by (auto intro!: exI [of _ "n # new"])
  qed
qed simp

lemma bfs_decreases:
  assumes "visit_all (neighbours edges node) visited queue = (visited', queue')"
  shows "2 * card (snd ` set edges - set visited') + length queue'
    < 2 * card (snd ` set edges - set visited) + Suc (length queue)"
proof -
  from visit_all_grows [OF assms] obtain new where
    n: "set visited' = set visited \<union> set (neighbours edges node)" "queue' = queue @ new"
      "set new = set visited' - set visited" "distinct new" by auto
  let ?U = "snd ` set edges"
  have sub: "set new \<subseteq> ?U - set visited" using n by (auto simp: neighbours_def)
  have "?U - set visited' = ?U - set visited - set new" using n by auto
  then have "card (?U - set visited') = card (?U - set visited) - length new"
    using sub n(4) by (simp add: card_Diff_subset distinct_card)
  moreover have "length new \<le> card (?U - set visited)"
    using card_mono [OF _ sub] n(4) by (simp add: distinct_card)
  ultimately show ?thesis using n(2) by simp
qed

function bfs :: "(string \<times> string) list \<Rightarrow> string list \<Rightarrow> string list \<Rightarrow> string list" where
  "bfs edges visited [] = visited"
| "bfs edges visited (node # queue) =
     (case visit_all (neighbours edges node) visited queue of
        (visited', queue') \<Rightarrow> bfs edges visited' queue')"
  by pat_completeness auto
termination
  by (relation "measure (\<lambda>(edges, visited, queue). 2 * card (snd ` set edges - set visited) + length queue)")
    (use bfs_decreases in \<open>fastforce split: prod.split\<close>)+

definition forward_edges :: "semantic_transition list \<Rightarrow> (string \<times> string) list" where
  "forward_edges transitions = map (\<lambda>t. (str_src_state_name t, str_dst_state_name t)) transitions"

definition reverse_edges :: "semantic_transition list \<Rightarrow> (string \<times> string) list" where
  "reverse_edges transitions = map (\<lambda>t. (str_dst_state_name t, str_src_state_name t)) transitions"

definition reaches_terminal :: "hash_order \<Rightarrow> ast_state_machine_decl \<Rightarrow> semantic_transition list \<Rightarrow> string list" where
  "reaches_terminal ho sm transitions =
     (let start = ho_names ho (remdups (sm_terminal_names sm)) in bfs (reverse_edges transitions) start start)"

definition reached_from_initial :: "ast_state_machine_decl \<Rightarrow> semantic_transition list \<Rightarrow> string list" where
  "reached_from_initial sm transitions =
     bfs (forward_edges transitions) [sm_initial_state sm] [sm_initial_state sm]"

definition terminal_warnings :: "hash_order \<Rightarrow> ast_state_machine_decl \<Rightarrow> semantic_state list
    \<Rightarrow> semantic_transition list \<Rightarrow> sema_warning list" where
  "terminal_warnings ho sm states transitions =
     map (\<lambda>state. \<lparr>wn_kind = SmUnreachableTerminal,
            wn_msg = ''state '' @ quoted (sst_name state) @ '' in state machine '' @ quoted (sm_name sm)
                     @ '' cannot reach any terminal state'', wn_span = sst_span state\<rparr>)
       (filter (\<lambda>state. \<not> sst_is_terminal state \<and> sst_name state \<notin> set (reaches_terminal ho sm transitions)) states)"

definition initial_warnings :: "ast_state_machine_decl \<Rightarrow> semantic_state list
    \<Rightarrow> semantic_transition list \<Rightarrow> sema_warning list" where
  "initial_warnings sm states transitions =
     map (\<lambda>state. \<lparr>wn_kind = SmUnreachableFromInitial,
            wn_msg = ''state '' @ quoted (sst_name state) @ '' in state machine '' @ quoted (sm_name sm)
                     @ '' is not reachable from the initial state'', wn_span = sst_span state\<rparr>)
       (filter (\<lambda>state. sst_name state \<notin> set (reached_from_initial sm transitions)) states)"

section \<open>Verify declarations\<close>

fun verify_bound_arg :: "ast_annotation_arg \<Rightarrow> u32 option" where
  "verify_bound_arg (ANamedValue name (LInt n)) = (if name = ''bound'' then Some (word_of_int n) else None)"
| "verify_bound_arg _ = None"

fun find_map :: "('a \<Rightarrow> 'b option) \<Rightarrow> 'a list \<Rightarrow> 'b option" where
  "find_map f [] = None"
| "find_map f (x # xs) = (case f x of Some y \<Rightarrow> Some y | None \<Rightarrow> find_map f xs)"

definition lower_verify_bound :: "ast_annotation list \<Rightarrow> u32 option" where
  "lower_verify_bound annotations =
     Option.bind (List.find (\<lambda>a. an_name a = ''verify'') annotations) (\<lambda>a. find_map verify_bound_arg (an_args a))"

fun lower_verify_formula :: "ast_verify_formula \<Rightarrow> sema_error + semantic_verify_formula" where
  "lower_verify_formula (VInState n) = Inr (SVInState n)"
| "lower_verify_formula (VNot f) = rbind (lower_verify_formula f) (\<lambda>g. Inr (SVNot g))"
| "lower_verify_formula (VAnd l r) =
     rbind (lower_verify_formula l) (\<lambda>l'. rbind (lower_verify_formula r) (\<lambda>r'. Inr (SVAnd l' r')))"
| "lower_verify_formula (VOr l r) =
     rbind (lower_verify_formula l) (\<lambda>l'. rbind (lower_verify_formula r) (\<lambda>r'. Inr (SVOr l' r')))"
| "lower_verify_formula (VImplies l r) =
     rbind (lower_verify_formula l) (\<lambda>l'. rbind (lower_verify_formula r) (\<lambda>r'. Inr (SVImplies l' r')))"
| "lower_verify_formula (VAlways f) = rbind (lower_verify_formula f) (\<lambda>g. Inr (SVAlways g))"
| "lower_verify_formula (VEventually f) = rbind (lower_verify_formula f) (\<lambda>g. Inr (SVEventually g))"
| "lower_verify_formula (VLeadsTo l r) =
     rbind (lower_verify_formula l) (\<lambda>l'. rbind (lower_verify_formula r) (\<lambda>r'. Inr (SVLeadsTo l' r')))"
| "lower_verify_formula (VCompare l op r) =
     rbind (lower_verify_formula l) (\<lambda>l'. rbind (lower_verify_formula r) (\<lambda>r'. Inr (SVCompare l' op r')))"
| "lower_verify_formula (VFieldRef path) = Inr (SVFieldRef (join_with ''.'' path))"
| "lower_verify_formula (VLiteral v) =
     (case v of
        LInt n \<Rightarrow> Inr (SVLiteral n)
      | LBool b \<Rightarrow> Inr (SVBoolLiteral b)
      | _ \<Rightarrow> Inl (sema_error_new TypeMismatch ''unsupported literal type in verify formula''))"

fun lower_verify_decl :: "ast_verify_decl \<Rightarrow> sema_error + semantic_verify_decl" where
  "lower_verify_decl (VBuiltIn name s) =
     (if name = ''NoDeadlock'' then Inr NoDeadlock
      else if name = ''AllReachClosed'' then Inr AllReachClosed
      else Inl (sema_error_new UndefinedType (''unknown built-in verify declaration: '' @ quoted name)))"
| "lower_verify_decl (VProperty name formula s) =
     rbind (lower_verify_formula formula) (\<lambda>f. Inr (Property name f))"

section \<open>The whole machine\<close>

definition lower_state_machine :: "hash_order \<Rightarrow> analyzer \<Rightarrow> ast_state_machine_decl
    \<Rightarrow> sema_error + semantic_state_machine \<times> analyzer" where
  "lower_state_machine ho a sm =
     (let sm_id = ''sm:'' @ sm_name sm;
          states = map (lower_state a sm_id) (sm_states sm)
      in rbind (check_initial sm) (\<lambda>_.
         rbind (collect_events a sm_id [] (sm_event_uses sm)) (\<lambda>event_map.
         rbind (lower_transitions a sm states event_map [] (sm_transitions sm)) (\<lambda>transitions.
         rbind (check_duplicates ho transitions) (\<lambda>_.
         rbind (check_exhaustive sm states) (\<lambda>_.
         rbind (try_each (check_transition_assignments states) transitions) (\<lambda>_.
         rbind (first_error a) (\<lambda>_.
         let a' = a\<lparr>an_warnings := an_warnings a @ terminal_warnings ho sm states transitions
                      @ initial_warnings sm states transitions\<rparr>
         in rbind (try_map lower_verify_decl (sm_verify_declarations sm)) (\<lambda>verify_declarations.
            Inr (\<lparr>ssm_sm_id = sm_id, ssm_name = sm_name sm,
                   ssm_derive_traits = extract_derive_traits (sm_annotations sm), ssm_states = states,
                   ssm_events = events_in_order event_map [] (sm_event_uses sm),
                   ssm_initial_state_id = sm_id @ ''/state:'' @ sm_initial_state sm,
                   ssm_transitions = transitions,
                   ssm_has_child_state_changed = (map_of event_map ''child_state_changed'' \<noteq> None),
                   ssm_verify_bound = lower_verify_bound (sm_annotations sm),
                   ssm_verify_declarations = verify_declarations, ssm_span = sm_span sm\<rparr>, a'))))))))))"

section \<open>What the search visits\<close>

lemma bfs_reaches:
  "set queue \<subseteq> set visited \<Longrightarrow>
   (\<And>v w. v \<in> set visited \<Longrightarrow> v \<notin> set queue \<Longrightarrow> (v, w) \<in> set edges \<Longrightarrow> w \<in> set visited) \<Longrightarrow>
   set (bfs edges visited queue) = (set edges)\<^sup>* `` set visited"
proof (induction edges visited queue rule: bfs.induct)
  case (1 edges visited)
  have "(v, w) \<in> (set edges)\<^sup>* \<Longrightarrow> v \<in> set visited \<Longrightarrow> w \<in> set visited" for v w
    by (induction rule: rtrancl_induct) (use 1 in auto)
  then show ?case by auto
next
  case (2 edges visited node queue)
  obtain visited' queue' where v: "visit_all (neighbours edges node) visited queue = (visited', queue')"
    by fastforce
  from visit_all_grows [OF v] obtain new where
    n: "set visited' = set visited \<union> set (neighbours edges node)" "queue' = queue @ new"
      "set new = set visited' - set visited" by auto
  have nb: "w \<in> set (neighbours edges node) \<longleftrightarrow> (node, w) \<in> set edges" for w
    by (force simp: neighbours_def)
  have "set (bfs edges visited' queue') = (set edges)\<^sup>* `` set visited'"
  proof (rule "2.IH" [OF v [symmetric]])
    show "set queue' \<subseteq> set visited'" using n "2.prems"(1) by auto
    show "w \<in> set visited'" if h: "v \<in> set visited'" "v \<notin> set queue'" "(v, w) \<in> set edges" for v w
    proof (cases "v = node")
      case True
      then show ?thesis using n nb h(3) by simp
    next
      case False
      have "v \<in> set visited" "v \<notin> set (node # queue)" using h n False by auto
      then show ?thesis using "2.prems"(2) h(3) n(1) by blast
    qed
  qed
  also have "\<dots> = (set edges)\<^sup>* `` set visited"
  proof -
    have "node \<in> set visited" using "2.prems"(1) by simp
    then show ?thesis unfolding n(1) using nb by (auto intro: converse_rtrancl_into_rtrancl)
  qed
  finally show ?case using v by simp
qed

lemma bfs_from: "set (bfs edges start start) = (set edges)\<^sup>* `` set start"
  by (rule bfs_reaches) auto

section \<open>Steps of a lowered machine\<close>

inductive sm_step :: "semantic_state_machine \<Rightarrow> string \<Rightarrow> string \<Rightarrow> string \<Rightarrow> bool" for m where
  fire: "t \<in> set (ssm_transitions m) \<Longrightarrow>
    sm_step m (str_src_state_name t) (str_event_name t) (str_dst_state_name t)"

inductive sm_reachable :: "semantic_state_machine \<Rightarrow> string \<Rightarrow> bool" for m where
  initial: "s \<in> set (ssm_states m) \<Longrightarrow> sst_state_id s = ssm_initial_state_id m \<Longrightarrow> sm_reachable m (sst_name s)"
| step: "sm_reachable m s \<Longrightarrow> sm_step m s e s' \<Longrightarrow> sm_reachable m s'"

inductive can_finish :: "semantic_state_machine \<Rightarrow> string \<Rightarrow> bool" for m where
  terminal: "s \<in> set (ssm_states m) \<Longrightarrow> sst_is_terminal s \<Longrightarrow> can_finish m (sst_name s)"
| before: "sm_step m s e s' \<Longrightarrow> can_finish m s' \<Longrightarrow> can_finish m s"

inductive_cases sm_stepE: "sm_step m s e s'"

lemma sm_step_forward:
  "(s, s') \<in> set (forward_edges (ssm_transitions m)) \<longleftrightarrow> (\<exists>e. sm_step m s e s')"
  by (auto simp: forward_edges_def sm_step.simps)

lemma sm_step_reverse:
  "(s', s) \<in> set (reverse_edges (ssm_transitions m)) \<longleftrightarrow> (\<exists>e. sm_step m s e s')"
  by (auto simp: reverse_edges_def sm_step.simps)

lemma reachable_rtrancl:
  assumes "\<And>s. s \<in> set (ssm_states m) \<Longrightarrow> sst_state_id s = ssm_initial_state_id m \<longleftrightarrow> sst_name s = q"
    and "q \<in> sst_name ` set (ssm_states m)"
  shows "sm_reachable m s \<longleftrightarrow> (q, s) \<in> (set (forward_edges (ssm_transitions m)))\<^sup>*"
proof
  show "sm_reachable m s \<Longrightarrow> (q, s) \<in> (set (forward_edges (ssm_transitions m)))\<^sup>*"
  proof (induction rule: sm_reachable.induct)
    case (initial s)
    then show ?case using assms(1) by auto
  next
    case (step s e s')
    then have "(s, s') \<in> set (forward_edges (ssm_transitions m))" using sm_step_forward by blast
    then show ?case using step.IH by (rule rtrancl_into_rtrancl [rotated])
  qed
  assume "(q, s) \<in> (set (forward_edges (ssm_transitions m)))\<^sup>*"
  then show "sm_reachable m s"
  proof (induction rule: rtrancl_induct)
    case base
    then show ?case using assms by (auto intro: sm_reachable.initial)
  next
    case (step y z)
    then show ?case using sm_step_forward sm_reachable.step by blast
  qed
qed

lemma can_finish_rtrancl:
  "can_finish m s \<longleftrightarrow>
    (\<exists>z. z \<in> set (ssm_states m) \<and> sst_is_terminal z
      \<and> (sst_name z, s) \<in> (set (reverse_edges (ssm_transitions m)))\<^sup>*)" (is "_ \<longleftrightarrow> ?R s")
proof
  show "can_finish m s \<Longrightarrow> ?R s"
  proof (induction rule: can_finish.induct)
    case (terminal s)
    then show ?case by blast
  next
    case (before s e s')
    then have "(s', s) \<in> set (reverse_edges (ssm_transitions m))" using sm_step_reverse by blast
    then show ?case using before.IH by (meson rtrancl_into_rtrancl)
  qed
  assume "?R s"
  then obtain z where z: "z \<in> set (ssm_states m)" "sst_is_terminal z"
    "(sst_name z, s) \<in> (set (reverse_edges (ssm_transitions m)))\<^sup>*" by blast
  from z(3) show "can_finish m s"
  proof (induction rule: rtrancl_induct)
    case base
    then show ?case using z by (auto intro: can_finish.terminal)
  next
    case (step y w)
    then show ?case using sm_step_reverse can_finish.before by blast
  qed
qed

section \<open>What the checks establish\<close>

lemma check_transition_Inr:
  "check_transition sm t = Inr srcs \<longleftrightarrow>
    srcs = (if is_wildcard t then filter (\<lambda>sn. sn \<notin> set (sm_terminal_names sm)) (sm_state_names sm) else [tr_src_state t])
    \<and> (is_wildcard t \<or> tr_src_state t \<in> set (sm_state_names sm) - set (sm_terminal_names sm))
    \<and> tr_dst_state t \<in> set (sm_state_names sm)
    \<and> (tr_delegate t \<noteq> None \<longrightarrow> set srcs \<subseteq> {tr_dst_state t} \<and> tr_actions t = [])"
  by (auto simp: check_transition_def source_states_def rbind_eq_Inr_iff try_each_Inr_iff split: if_splits)

lemma source_states_declared:
  "check_transition sm t = Inr srcs \<Longrightarrow> set srcs \<subseteq> set (sm_state_names sm) - set (sm_terminal_names sm)"
  by (auto simp: check_transition_Inr)

lemma expanded_pairs_set:
  "p \<in> set (expanded_pairs sm t srcs) \<longleftrightarrow>
    fst p \<in> set srcs \<and> snd p \<in> ev_name ` set (tr_events t) \<and> \<not> (is_wildcard t \<and> p \<in> set (concrete_pairs sm))"
  by (cases p) (auto simp: expanded_pairs_def)

lemma mk_transition_simps [simp]:
  "str_src_state_name (mk_transition a sm sts em n t (i, p)) = fst p"
  "str_event_name (mk_transition a sm sts em n t (i, p)) = snd p"
  "str_dst_state_name (mk_transition a sm sts em n t (i, p)) = tr_dst_state t"
  "str_delegate (mk_transition a sm sts em n t (i, p)) = map_option (lower_delegate a em (event_param_names t)) (tr_delegate t)"
  "str_actions (mk_transition a sm sts em n t (i, p))
     = map (lower_action a (''sm:'' @ sm_name sm) n (event_param_names t)) (enumerate 0 (tr_actions t))"
  "str_guard (mk_transition a sm sts em n t (i, p)) = lower_guard a sts t"
  "str_event_id (mk_transition a sm sts em n t (i, p)) = event_id_of em (snd p)"
  "str_transition_id (mk_transition a sm sts em n t (i, p)) = (''sm:'' @ sm_name sm) @ ''/transition['' @ show_nat i @ '']''"
  "str_src_state_id (mk_transition a sm sts em n t (i, p)) = (''sm:'' @ sm_name sm) @ ''/state:'' @ fst p"
  "str_dst_state_id (mk_transition a sm sts em n t (i, p)) = (''sm:'' @ sm_name sm) @ ''/state:'' @ tr_dst_state t"
  by (cases p; simp add: mk_transition_def Let_def)+

text \<open>The lowered transitions are, in order, the expansions of the declared ones.\<close>

lemma lower_transitions_sound:
  "lower_transitions a sm sts em acc ts = Inr trs \<Longrightarrow> x \<in> set trs \<Longrightarrow> x \<notin> set acc \<Longrightarrow>
    \<exists>t srcs n i p. t \<in> set ts \<and> check_transition sm t = Inr srcs \<and> p \<in> set (expanded_pairs sm t srcs)
      \<and> x = mk_transition a sm sts em n t (i, p)"
proof (induction ts arbitrary: acc)
  case (Cons t ts)
  then obtain srcs where c: "check_transition sm t = Inr srcs" by (auto simp: rbind_eq_Inr_iff)
  let ?new = "map (mk_transition a sm sts em (length acc) t) (enumerate (length acc) (expanded_pairs sm t srcs))"
  show ?case
  proof (cases "x \<in> set ?new")
    case True
    then obtain i p where "(i, p) \<in> set (enumerate (length acc) (expanded_pairs sm t srcs))"
      "x = mk_transition a sm sts em (length acc) t (i, p)" by auto
    then show ?thesis using c enumerate_set by (metis list.set_intros(1))
  next
    case False
    then have "x \<notin> set (acc @ ?new)" using Cons.prems(3) by auto
    moreover have "lower_transitions a sm sts em (acc @ ?new) ts = Inr trs" using Cons.prems(1) c by simp
    ultimately show ?thesis using Cons.IH Cons.prems(2) by (meson list.set_intros(2))
  qed
qed simp

lemma lower_transitions_keeps:
  "lower_transitions a sm sts em acc ts = Inr trs \<Longrightarrow> \<exists>new. trs = acc @ new"
proof (induction ts arbitrary: acc)
  case (Cons u ts)
  then obtain srcs where "lower_transitions a sm sts em
      (acc @ map (mk_transition a sm sts em (length acc) u) (enumerate (length acc) (expanded_pairs sm u srcs))) ts = Inr trs"
    by (auto simp: rbind_eq_Inr_iff)
  from Cons.IH [OF this] show ?case by auto
qed simp

lemma in_enumerate: "p \<in> set xs \<Longrightarrow> \<exists>i. (i, p) \<in> set (enumerate n xs)"
  by (induction xs arbitrary: n) auto

lemma lower_transitions_complete:
  "lower_transitions a sm sts em acc ts = Inr trs \<Longrightarrow> t \<in> set ts \<Longrightarrow>
    \<exists>srcs. check_transition sm t = Inr srcs \<and>
      (\<forall>p \<in> set (expanded_pairs sm t srcs). \<exists>n i. mk_transition a sm sts em n t (i, p) \<in> set trs)"
proof (induction ts arbitrary: acc)
  case (Cons u ts)
  then obtain srcs where c: "check_transition sm u = Inr srcs" by (auto simp: rbind_eq_Inr_iff)
  let ?new = "map (mk_transition a sm sts em (length acc) u) (enumerate (length acc) (expanded_pairs sm u srcs))"
  have rest: "lower_transitions a sm sts em (acc @ ?new) ts = Inr trs" using Cons.prems(1) c by simp
  show ?case
  proof (cases "t = u")
    case True
    have sub: "set ?new \<subseteq> set trs" using lower_transitions_keeps [OF rest] by auto
    have "\<exists>n i. mk_transition a sm sts em n t (i, p) \<in> set trs" if "p \<in> set (expanded_pairs sm u srcs)" for p
      using in_enumerate [OF that, of "length acc"] sub True by (auto simp: image_subset_iff)
    then show ?thesis using c True by blast
  next
    case False
    then show ?thesis using Cons.IH [OF rest] Cons.prems(2) by simp
  qed
qed simp

lemma lower_transitions_ids:
  "lower_transitions a sm sts em acc ts = Inr trs \<Longrightarrow> length acc \<le> i \<Longrightarrow> i < length trs \<Longrightarrow>
    str_transition_id (trs ! i) = (''sm:'' @ sm_name sm) @ ''/transition['' @ show_nat i @ '']''"
proof (induction ts arbitrary: acc)
  case (Cons u ts)
  then obtain srcs where c: "check_transition sm u = Inr srcs" by (auto simp: rbind_eq_Inr_iff)
  let ?new = "map (mk_transition a sm sts em (length acc) u) (enumerate (length acc) (expanded_pairs sm u srcs))"
  have rest: "lower_transitions a sm sts em (acc @ ?new) ts = Inr trs" using Cons.prems(1) c by simp
  show ?case
  proof (cases "i < length (acc @ ?new)")
    case True
    obtain new where "trs = (acc @ ?new) @ new" using lower_transitions_keeps [OF rest] by auto
    then have "trs ! i = ?new ! (i - length acc)"
      using True Cons.prems(2) by (simp add: nth_append)
    moreover have "i - length acc < length (expanded_pairs sm u srcs)" using True Cons.prems(2) by simp
    ultimately show ?thesis using Cons.prems(2) by (simp add: nth_enumerate_eq)
  next
    case False
    then show ?thesis using Cons.IH [OF rest] Cons.prems(3) by simp
  qed
qed simp

section \<open>Events of a machine\<close>

definition event_entry_ok :: "string \<Rightarrow> string \<times> semantic_event \<Rightarrow> bool" where
  "event_entry_ok sm_id e \<longleftrightarrow> sev_name (snd e) = fst e \<and> sev_event_id (snd e) = sm_id @ ''/event:'' @ fst e"

lemma collect_events_Inr:
  "collect_events a sm_id em evs = Inr em' \<Longrightarrow>
    dom (map_of em') = dom (map_of em) \<union> ev_name ` set evs
    \<and> ((\<forall>n e. map_of em n = Some e \<longrightarrow> event_entry_ok sm_id (n, e))
        \<longrightarrow> (\<forall>n e. map_of em' n = Some e \<longrightarrow> event_entry_ok sm_id (n, e)))"
proof (induction evs arbitrary: em)
  case (Cons ev evs)
  let ?em = "if map_of em (ev_name ev) = None then AList.update (ev_name ev) (lower_event a sm_id ev) em else em"
  have rest: "collect_events a sm_id ?em evs = Inr em'" using Cons.prems by (auto simp: rbind_eq_Inr_iff)
  have d: "dom (map_of ?em) = insert (ev_name ev) (dom (map_of em))"
    by (auto simp: update_conv' split: if_splits)
  have new: "event_entry_ok sm_id (ev_name ev, lower_event a sm_id ev)"
    by (simp add: event_entry_ok_def lower_event_def Let_def)
  have e: "(\<forall>n e. map_of em n = Some e \<longrightarrow> event_entry_ok sm_id (n, e))
      \<Longrightarrow> (\<forall>n e. map_of ?em n = Some e \<longrightarrow> event_entry_ok sm_id (n, e))"
    using new by (auto simp: update_conv' split: if_splits)
  show ?case
  proof (intro conjI impI)
    show "dom (map_of em') = dom (map_of em) \<union> ev_name ` set (ev # evs)"
      using conjunct1 [OF Cons.IH [OF rest]] unfolding d by simp
    assume "\<forall>n e. map_of em n = Some e \<longrightarrow> event_entry_ok sm_id (n, e)"
    from e [OF this] show "\<forall>n e. map_of em' n = Some e \<longrightarrow> event_entry_ok sm_id (n, e)"
      by (rule mp [OF conjunct2 [OF Cons.IH [OF rest]]])
  qed
qed simp

lemma events_in_order_spec:
  "(\<forall>ev \<in> set evs. map_of em (ev_name ev) \<noteq> None) \<Longrightarrow>
   (\<forall>n e. map_of em n = Some e \<longrightarrow> event_entry_ok sm_id (n, e)) \<Longrightarrow>
    set (events_in_order em seen evs) = (\<lambda>n. the (map_of em n)) ` (ev_name ` set evs - set seen)
    \<and> distinct (map sev_name (events_in_order em seen evs))"
proof (induction evs arbitrary: seen)
  case (Cons ev evs)
  obtain e where e: "map_of em (ev_name ev) = Some e" using Cons.prems(1) by auto
  have nm: "sev_name (the (map_of em n)) = n" if n: "n \<in> ev_name ` set evs" for n
  proof -
    obtain e where "map_of em n = Some e" using Cons.prems(1) n by auto
    then show ?thesis using Cons.prems(2) by (simp add: event_entry_ok_def)
  qed
  have en: "sev_name e = ev_name ev" using Cons.prems(2) e by (simp add: event_entry_ok_def)
  show ?case
  proof (cases "ev_name ev \<in> set seen")
    case True
    then show ?thesis using Cons by simp
  next
    case False
    have IH: "set (events_in_order em (ev_name ev # seen) evs)
        = (\<lambda>n. the (map_of em n)) ` (ev_name ` set evs - set (ev_name ev # seen))"
      "distinct (map sev_name (events_in_order em (ev_name ev # seen) evs))"
      using Cons.IH [of "ev_name ev # seen"] Cons.prems by simp_all
    have "ev_name ev \<notin> sev_name ` set (events_in_order em (ev_name ev # seen) evs)"
      unfolding IH(1) using nm by auto
    moreover have "ev_name ` set (ev # evs) - set seen = insert (ev_name ev) (ev_name ` set evs - set (ev_name ev # seen))"
      using False by auto
    ultimately show ?thesis using False e en IH by simp
  qed
qed simp

lemma event_id_of_entry:
  "map_of em n = Some e \<Longrightarrow> event_entry_ok sm_id (n, e) \<Longrightarrow> event_id_of em n = sev_event_id e \<and> sev_name e = n"
  by (simp add: event_id_of_def event_entry_ok_def)

section \<open>Parts of an accepted machine\<close>

lemma lowered_state_simps [simp]:
  "sst_name (lower_state a i s) = st_name s" "sst_is_terminal (lower_state a i s) = st_is_terminal s"
  "sst_state_id (lower_state a i s) = i @ ''/state:'' @ st_name s"
  by (simp_all add: lower_state_def Let_def)

lemma accepted_parts:
  assumes "lower_state_machine ho a sm = Inr (m, a')"
  obtains em where "check_initial sm = Inr ()"
    and "collect_events a (ssm_sm_id m) [] (sm_event_uses sm) = Inr em"
    and "lower_transitions a sm (ssm_states m) em [] (sm_transitions sm) = Inr (ssm_transitions m)"
    and "check_duplicates ho (ssm_transitions m) = Inr ()"
    and "check_exhaustive sm (ssm_states m) = Inr ()"
    and "try_each (check_transition_assignments (ssm_states m)) (ssm_transitions m) = Inr ()"
    and "ssm_sm_id m = ''sm:'' @ sm_name sm"
    and "ssm_states m = map (lower_state a (ssm_sm_id m)) (sm_states sm)"
    and "ssm_events m = events_in_order em [] (sm_event_uses sm)"
    and "ssm_initial_state_id m = ssm_sm_id m @ ''/state:'' @ sm_initial_state sm"
    and "a' = a\<lparr>an_warnings := an_warnings a @ terminal_warnings ho sm (ssm_states m) (ssm_transitions m)
           @ initial_warnings sm (ssm_states m) (ssm_transitions m)\<rparr>"
proof -
  define sid where "sid = ''sm:'' @ sm_name sm"
  define sts where "sts = map (lower_state a sid) (sm_states sm)"
  from assms obtain em trs where
    p: "check_initial sm = Inr ()" "collect_events a sid [] (sm_event_uses sm) = Inr em"
    "lower_transitions a sm sts em [] (sm_transitions sm) = Inr trs" "check_duplicates ho trs = Inr ()"
    "check_exhaustive sm sts = Inr ()" "try_each (check_transition_assignments sts) trs = Inr ()"
    and m: "ssm_sm_id m = sid" "ssm_states m = sts" "ssm_events m = events_in_order em [] (sm_event_uses sm)"
    "ssm_initial_state_id m = sid @ ''/state:'' @ sm_initial_state sm" "ssm_transitions m = trs"
    and a': "a' = a\<lparr>an_warnings := an_warnings a @ terminal_warnings ho sm sts trs @ initial_warnings sm sts trs\<rparr>"
    unfolding lower_state_machine_def Let_def sid_def [symmetric] sts_def [symmetric] rbind_eq_Inr_iff
    by auto
  show thesis
    by (rule that [of em]) (insert p, simp_all only: m a' sid_def sts_def)
qed

lemma accepted_states:
  assumes "lower_state_machine ho a sm = Inr (m, a')"
  shows "map sst_name (ssm_states m) = sm_state_names sm"
    and "{sst_name s |s. s \<in> set (ssm_states m) \<and> sst_is_terminal s} = set (sm_terminal_names sm)"
    and "s \<in> set (ssm_states m) \<Longrightarrow> sst_state_id s = ssm_sm_id m @ ''/state:'' @ sst_name s"
    and "ssm_initial_state_id m = ssm_sm_id m @ ''/state:'' @ sm_initial_state sm"
    and "sm_initial_state sm \<in> set (sm_state_names sm)"
proof -
  from assms obtain em where p: "check_initial sm = Inr ()"
    "ssm_states m = map (lower_state a (ssm_sm_id m)) (sm_states sm)"
    "ssm_initial_state_id m = ssm_sm_id m @ ''/state:'' @ sm_initial_state sm" by (rule accepted_parts)
  show "map sst_name (ssm_states m) = sm_state_names sm" by (simp add: p(2) sm_state_names_def)
  show "{sst_name s |s. s \<in> set (ssm_states m) \<and> sst_is_terminal s} = set (sm_terminal_names sm)"
    by (force simp: p(2) sm_terminal_names_def)
  show "s \<in> set (ssm_states m) \<Longrightarrow> sst_state_id s = ssm_sm_id m @ ''/state:'' @ sst_name s"
    by (auto simp: p(2))
  show "ssm_initial_state_id m = ssm_sm_id m @ ''/state:'' @ sm_initial_state sm" by (rule p(3))
  show "sm_initial_state sm \<in> set (sm_state_names sm)" using p(1) by (auto simp: check_initial_def split: if_splits)
qed

lemma accepted_transition:
  assumes "lower_state_machine ho a sm = Inr (m, a')" "x \<in> set (ssm_transitions m)"
  obtains em t srcs n i p where "t \<in> set (sm_transitions sm)" "check_transition sm t = Inr srcs"
    "p \<in> set (expanded_pairs sm t srcs)" "x = mk_transition a sm (ssm_states m) em n t (i, p)"
    "collect_events a (ssm_sm_id m) [] (sm_event_uses sm) = Inr em"
  using assms(1)
proof (rule accepted_parts)
  fix em assume "lower_transitions a sm (ssm_states m) em [] (sm_transitions sm) = Inr (ssm_transitions m)"
    and c: "collect_events a (ssm_sm_id m) [] (sm_event_uses sm) = Inr em"
  from lower_transitions_sound [OF this(1) assms(2)] show thesis using that c by auto
qed

section \<open>An example machine\<close>

text \<open>Two states: \<open>Idle\<close> holds a counter and loops on \<open>tick\<close>, \<open>Done\<close> is terminal and entered on
  \<open>stop\<close> from every state without a transition of its own on that event.\<close>

definition example_analyzer :: analyzer where
  "example_analyzer = analyzer_new Phase2StrictV1_0"

definition plain_event :: "string \<Rightarrow> ast_event_decl" where
  "plain_event n = \<lparr>ev_name = n, ev_params = [], ev_span = None\<rparr>"

definition counter_field :: ast_state_field_def where
  "counter_field = \<lparr>sd_name = ''n'', sd_type_expr = TNamed ''u8'' None, sd_default_value = None, sd_span = None\<rparr>"

definition tick_transition :: ast_transition_decl where
  "tick_transition =
     \<lparr>tr_src_state = ''Idle'', tr_dst_state = ''Idle'', tr_events = [plain_event ''tick''], tr_guard = None,
      tr_actions = [\<lparr>as_target = EMemberAccess (ENameRef ''dst'' None) ''n'' None, as_op = ''='',
                     as_value = EMemberAccess (ENameRef ''src'' None) ''n'' None, as_span = None\<rparr>],
      tr_delegate = None, tr_span = None\<rparr>"

definition stop_transition :: ast_transition_decl where
  "stop_transition =
     \<lparr>tr_src_state = ''*'', tr_dst_state = ''Done'', tr_events = [plain_event ''stop''], tr_guard = None,
      tr_actions = [], tr_delegate = None, tr_span = None\<rparr>"

definition example_machine :: ast_state_machine_decl where
  "example_machine =
     \<lparr>sm_name = ''M'',
      sm_states = [\<lparr>st_name = ''Idle'', st_fields = [counter_field], st_is_terminal = False, st_span = None\<rparr>,
                   \<lparr>st_name = ''Done'', st_fields = [], st_is_terminal = True, st_span = None\<rparr>],
      sm_initial_state = ''Idle'', sm_transitions = [tick_transition, stop_transition],
      sm_verify_declarations = [VBuiltIn ''NoDeadlock'' None], sm_annotations = [], sm_exported = False,
      sm_span = None\<rparr>"

definition accepted :: "sema_error + semantic_state_machine \<times> analyzer \<Rightarrow> bool" where
  "accepted r = (case r of Inr x \<Rightarrow> True | Inl e \<Rightarrow> False)"

definition example_result :: "semantic_state_machine \<times> analyzer" where
  "example_result = projr (lower_state_machine insertion_order example_analyzer example_machine)"

lemma example_accepted:
  "lower_state_machine insertion_order example_analyzer example_machine
    = Inr (fst example_result, snd example_result)"
proof -
  have "accepted (lower_state_machine insertion_order example_analyzer example_machine)" by code_simp
  then show ?thesis by (auto simp: accepted_def example_result_def split: sum.splits)
qed

section \<open>Well-formedness of accepted machines\<close>

lemma accepted_event:
  assumes acc: "lower_state_machine ho a sm = Inr (m, a')" and x: "x \<in> set (ssm_transitions m)"
  shows "\<exists>e \<in> set (ssm_events m). sev_event_id e = str_event_id x \<and> sev_name e = str_event_name x"
  using acc
proof (rule accepted_parts)
  fix em
  assume em: "collect_events a (ssm_sm_id m) [] (sm_event_uses sm) = Inr em"
    and ts: "lower_transitions a sm (ssm_states m) em [] (sm_transitions sm) = Inr (ssm_transitions m)"
    and ev: "ssm_events m = events_in_order em [] (sm_event_uses sm)"
  from lower_transitions_sound [OF ts x] obtain t srcs n i p where
    t: "t \<in> set (sm_transitions sm)" "p \<in> set (expanded_pairs sm t srcs)"
       "x = mk_transition a sm (ssm_states m) em n t (i, p)" by auto
  have c: "dom (map_of em) = ev_name ` set (sm_event_uses sm)"
    "\<forall>n e. map_of em n = Some e \<longrightarrow> event_entry_ok (ssm_sm_id m) (n, e)"
    using collect_events_Inr [OF em] by simp_all
  have "snd p \<in> ev_name ` set (sm_event_uses sm)"
    using t(1,2) by (auto simp: expanded_pairs_set sm_event_uses_def)
  then have d: "snd p \<in> dom (map_of em)" unfolding c(1) .
  then obtain e where e: "map_of em (snd p) = Some e" by auto
  have "\<forall>v \<in> set (sm_event_uses sm). map_of em (ev_name v) \<noteq> None"
  proof
    fix v assume "v \<in> set (sm_event_uses sm)"
    then have "ev_name v \<in> dom (map_of em)" unfolding c(1) by simp
    then show "map_of em (ev_name v) \<noteq> None" by auto
  qed
  from events_in_order_spec [OF this c(2), of "[]"]
  have "set (ssm_events m) = (\<lambda>n. the (map_of em n)) ` (ev_name ` set (sm_event_uses sm))"
    unfolding ev by simp
  then have "e \<in> set (ssm_events m)" using e d unfolding c(1) [symmetric] by force
  moreover have "sev_event_id e = str_event_id x" "sev_name e = str_event_name x"
    using event_id_of_entry [OF e c(2) [rule_format, OF e]] t(3) by simp_all
  ultimately show ?thesis by blast
qed

lemma accepted_assignments:
  assumes "lower_state_machine ho a sm = Inr (m, a')" "x \<in> set (ssm_transitions m)" "str_delegate x = None"
    and "List.find (\<lambda>s. sst_name s = str_dst_state_name x) (ssm_states m) = Some s"
  shows "\<forall>f \<in> set (sst_fields s). stf_default_value f \<noteq> None \<or> stf_name f \<in> set (assigned_fields x)"
proof -
  from assms(1) have "try_each (check_transition_assignments (ssm_states m)) (ssm_transitions m) = Inr ()"
    by (rule accepted_parts)
  then have "check_transition_assignments (ssm_states m) x = Inr ()" using assms(2) by (simp add: try_each_Inr_iff)
  then show ?thesis using assms(3,4)
    by (auto simp: check_transition_assignments_def try_each_Inr_iff split: if_splits)
qed

lemma accepted_shape:
  assumes acc: "lower_state_machine ho a sm = Inr (m, a')" and x: "x \<in> set (ssm_transitions m)"
  shows "str_src_state_name x \<in> sst_name ` set (ssm_states m)"
    and "str_dst_state_name x \<in> sst_name ` set (ssm_states m)"
    and "s \<in> set (ssm_states m) \<Longrightarrow> sst_is_terminal s \<Longrightarrow> sst_name s \<noteq> str_src_state_name x"
    and "str_delegate x \<noteq> None \<Longrightarrow> str_src_state_name x = str_dst_state_name x \<and> str_actions x = []"
    and "str_src_state_id x = ssm_sm_id m @ ''/state:'' @ str_src_state_name x"
    and "str_dst_state_id x = ssm_sm_id m @ ''/state:'' @ str_dst_state_name x"
proof -
  from acc have sid: "ssm_sm_id m = ''sm:'' @ sm_name sm" by (rule accepted_parts)
  note st = accepted_states [OF acc]
  have names: "sst_name ` set (ssm_states m) = set (sm_state_names sm)"
    using arg_cong [OF st(1), of set] by simp
  from acc x obtain em t srcs n i p where t: "check_transition sm t = Inr srcs"
    "p \<in> set (expanded_pairs sm t srcs)" "x = mk_transition a sm (ssm_states m) em n t (i, p)"
    by (rule accepted_transition)
  have src: "fst p \<in> set srcs" using t(2) by (simp add: expanded_pairs_set)
  then have srcn: "fst p \<in> set (sm_state_names sm)" "fst p \<notin> set (sm_terminal_names sm)"
    using source_states_declared [OF t(1)] by auto
  show "str_src_state_name x \<in> sst_name ` set (ssm_states m)" using srcn t(3) names by simp
  show "str_dst_state_name x \<in> sst_name ` set (ssm_states m)"
    using t names by (simp add: check_transition_Inr)
  show "s \<in> set (ssm_states m) \<Longrightarrow> sst_is_terminal s \<Longrightarrow> sst_name s \<noteq> str_src_state_name x"
    using srcn(2) t(3) unfolding st(2) [symmetric] by auto
  show "str_delegate x \<noteq> None \<Longrightarrow> str_src_state_name x = str_dst_state_name x \<and> str_actions x = []"
    using t src by (auto simp: check_transition_Inr enumerate_Suc_eq)
  show "str_src_state_id x = ssm_sm_id m @ ''/state:'' @ str_src_state_name x" using t(3) sid by simp
  show "str_dst_state_id x = ssm_sm_id m @ ''/state:'' @ str_dst_state_name x" using t(3) sid by simp
qed

text \<open>C4. An accepted state machine is well formed: its initial state is declared; every transition leads
  from a declared state that is not terminal to a declared state, under their identifiers, on an event of
  the machine's event list; a delegating transition is a self-loop without actions; any other transition
  assigns every field of its destination that has no default; and transition identifiers number the list.\<close>

theorem machine_accepted_wellformed:
  assumes "lower_state_machine ho a sm = Inr (m, a')"
  shows "(\<exists>s \<in> set (ssm_states m). sst_state_id s = ssm_initial_state_id m)
    \<and> (\<forall>x \<in> set (ssm_transitions m).
         (\<exists>s \<in> set (ssm_states m). sst_name s = str_src_state_name x \<and> sst_state_id s = str_src_state_id x)
       \<and> (\<exists>s \<in> set (ssm_states m). sst_name s = str_dst_state_name x \<and> sst_state_id s = str_dst_state_id x)
       \<and> (\<forall>s \<in> set (ssm_states m). sst_is_terminal s \<longrightarrow> sst_name s \<noteq> str_src_state_name x)
       \<and> (\<exists>e \<in> set (ssm_events m). sev_event_id e = str_event_id x \<and> sev_name e = str_event_name x)
       \<and> (if str_delegate x \<noteq> None
          then str_src_state_name x = str_dst_state_name x \<and> str_actions x = []
          else (\<forall>s. List.find (\<lambda>s. sst_name s = str_dst_state_name x) (ssm_states m) = Some s \<longrightarrow>
                 (\<forall>f \<in> set (sst_fields s). stf_default_value f \<noteq> None \<or> stf_name f \<in> set (assigned_fields x)))))
    \<and> (\<forall>i < length (ssm_transitions m).
         str_transition_id (ssm_transitions m ! i) = ssm_sm_id m @ ''/transition['' @ show_nat i @ '']'')"
    (is "?I \<and> ?T \<and> ?N")
proof (intro conjI)
  note st = accepted_states [OF assms]
  have "sm_initial_state sm \<in> sst_name ` set (ssm_states m)" using st(5) arg_cong [OF st(1), of set] by simp
  then obtain s where "s \<in> set (ssm_states m)" "sst_name s = sm_initial_state sm" by auto
  then show ?I using st(3) st(4) by (intro bexI [of _ s]) simp_all
  have ids: "\<exists>s \<in> set (ssm_states m). sst_name s = n \<and> sst_state_id s = i"
    if "n \<in> sst_name ` set (ssm_states m)" "i = ssm_sm_id m @ ''/state:'' @ n" for n i
    using that st(3) by auto
  show ?T
  proof (rule ballI, intro conjI)
    fix x assume x: "x \<in> set (ssm_transitions m)"
    note sh = accepted_shape [OF assms x]
    show "\<exists>s \<in> set (ssm_states m). sst_name s = str_src_state_name x \<and> sst_state_id s = str_src_state_id x"
      using sh(1,5) by (rule ids)
    show "\<exists>s \<in> set (ssm_states m). sst_name s = str_dst_state_name x \<and> sst_state_id s = str_dst_state_id x"
      using sh(2,6) by (rule ids)
    show "\<forall>s \<in> set (ssm_states m). sst_is_terminal s \<longrightarrow> sst_name s \<noteq> str_src_state_name x"
      using sh(3) by blast
    show "\<exists>e \<in> set (ssm_events m). sev_event_id e = str_event_id x \<and> sev_name e = str_event_name x"
      by (rule accepted_event [OF assms x])
    show "if str_delegate x \<noteq> None then str_src_state_name x = str_dst_state_name x \<and> str_actions x = []
          else (\<forall>s. List.find (\<lambda>s. sst_name s = str_dst_state_name x) (ssm_states m) = Some s \<longrightarrow>
                 (\<forall>f \<in> set (sst_fields s). stf_default_value f \<noteq> None \<or> stf_name f \<in> set (assigned_fields x)))"
      using sh(4) accepted_assignments [OF assms x] by (cases "str_delegate x") simp_all
  qed
  from assms obtain em where "lower_transitions a sm (ssm_states m) em [] (sm_transitions sm) = Inr (ssm_transitions m)"
    "ssm_sm_id m = ''sm:'' @ sm_name sm" by (rule accepted_parts)
  then show ?N using lower_transitions_ids by fastforce
qed

theorem machine_accepted_wellformed_witness:
  "\<exists>x \<in> set (ssm_transitions (fst example_result)).
     str_src_state_name x = ''Idle'' \<and>
     (\<exists>s \<in> set (ssm_states (fst example_result)). sst_name s = ''Idle'' \<and> sst_state_id s = str_src_state_id x)"
proof -
  have "list_ex (\<lambda>x. str_src_state_name x = ''Idle'') (ssm_transitions (fst example_result))" by code_simp
  then obtain x where x: "x \<in> set (ssm_transitions (fst example_result))" "str_src_state_name x = ''Idle''"
    by (auto simp: list_ex_iff)
  then show ?thesis using machine_accepted_wellformed [OF example_accepted] by (metis (no_types, lifting))
qed

section \<open>Which transitions a machine has\<close>

text \<open>The meaning of the declarations: a concrete declaration stands for itself on each of its events,
  a wildcard for every non-terminal state that has no concrete declaration on the event.\<close>

definition declared_steps :: "ast_state_machine_decl \<Rightarrow> (string \<times> string \<times> string) set" where
  "declared_steps sm =
     {(tr_src_state t, ev_name ev, tr_dst_state t) |t ev.
        t \<in> set (sm_transitions sm) \<and> ev \<in> set (tr_events t) \<and> \<not> is_wildcard t}
     \<union> {(s, ev_name ev, tr_dst_state t) |s t ev.
        t \<in> set (sm_transitions sm) \<and> ev \<in> set (tr_events t) \<and> is_wildcard t
        \<and> s \<in> set (sm_state_names sm) - set (sm_terminal_names sm)
        \<and> (s, ev_name ev) \<notin> set (concrete_pairs sm)}"

lemma declared_concrete:
  "t \<in> set (sm_transitions sm) \<Longrightarrow> ev \<in> set (tr_events t) \<Longrightarrow> \<not> is_wildcard t \<Longrightarrow>
    (tr_src_state t, ev_name ev, tr_dst_state t) \<in> declared_steps sm"
  unfolding declared_steps_def by (rule UnI1, rule CollectI, intro exI [of _ t] exI [of _ ev]) simp

lemma declared_wildcard:
  "t \<in> set (sm_transitions sm) \<Longrightarrow> ev \<in> set (tr_events t) \<Longrightarrow> is_wildcard t \<Longrightarrow>
    s \<in> set (sm_state_names sm) - set (sm_terminal_names sm) \<Longrightarrow> (s, ev_name ev) \<notin> set (concrete_pairs sm) \<Longrightarrow>
    (s, ev_name ev, tr_dst_state t) \<in> declared_steps sm"
  unfolding declared_steps_def by (rule UnI2, rule CollectI, intro exI [of _ s] exI [of _ t] exI [of _ ev]) simp

lemma expanded_steps:
  assumes "check_transition sm t = Inr srcs" "t \<in> set (sm_transitions sm)"
  shows "p \<in> set (expanded_pairs sm t srcs) \<longleftrightarrow>
    (\<exists>ev \<in> set (tr_events t). snd p = ev_name ev \<and>
      (if is_wildcard t then fst p \<in> set (sm_state_names sm) - set (sm_terminal_names sm) \<and> p \<notin> set (concrete_pairs sm)
       else fst p = tr_src_state t))"
  using assms(1) by (auto simp: expanded_pairs_set check_transition_Inr)

lemma expanded_declared:
  assumes "check_transition sm t = Inr srcs" "t \<in> set (sm_transitions sm)" "p \<in> set (expanded_pairs sm t srcs)"
  shows "(fst p, snd p, tr_dst_state t) \<in> declared_steps sm"
proof -
  from expanded_steps [OF assms(1,2), of p] assms(3) obtain ev where
    "ev \<in> set (tr_events t)" "snd p = ev_name ev"
    "if is_wildcard t then fst p \<in> set (sm_state_names sm) - set (sm_terminal_names sm) \<and> p \<notin> set (concrete_pairs sm)
     else fst p = tr_src_state t" by auto
  then show ?thesis using assms(2)
    by (cases p) (auto simp: declared_steps_def split: if_splits)
qed

lemma declared_expanded:
  assumes "(s, e, d) \<in> declared_steps sm" "\<And>t. t \<in> set (sm_transitions sm) \<Longrightarrow> \<exists>srcs. check_transition sm t = Inr srcs"
  shows "\<exists>t srcs. t \<in> set (sm_transitions sm) \<and> check_transition sm t = Inr srcs
    \<and> (s, e) \<in> set (expanded_pairs sm t srcs) \<and> d = tr_dst_state t"
proof -
  from assms(1) obtain t ev where t: "t \<in> set (sm_transitions sm)" "ev \<in> set (tr_events t)" "e = ev_name ev"
    "d = tr_dst_state t"
    and c: "if is_wildcard t then s \<in> set (sm_state_names sm) - set (sm_terminal_names sm) \<and> (s, e) \<notin> set (concrete_pairs sm)
       else s = tr_src_state t"
    by (auto simp: declared_steps_def)
  from assms(2) [OF t(1)] obtain srcs where k: "check_transition sm t = Inr srcs" by blast
  have "(s, e) \<in> set (expanded_pairs sm t srcs)" unfolding expanded_steps [OF k t(1)] using t(2,3) c by auto
  then show ?thesis using t k by blast
qed

lemma machine_steps:
  assumes "lower_state_machine ho a sm = Inr (m, a')"
  shows "{(s, e, d). sm_step m s e d} = declared_steps sm"
proof -
  from assms obtain em where lt: "lower_transitions a sm (ssm_states m) em [] (sm_transitions sm) = Inr (ssm_transitions m)"
    by (rule accepted_parts)
  show ?thesis
  proof (intro equalityI subrelI)
    fix s r assume "(s, r) \<in> {(s, e, d). sm_step m s e d}"
    then obtain x where x: "x \<in> set (ssm_transitions m)"
      "(s, r) = (str_src_state_name x, str_event_name x, str_dst_state_name x)"
      by (auto elim: sm_stepE)
    from assms x(1) obtain em t srcs n i p where t: "t \<in> set (sm_transitions sm)" "check_transition sm t = Inr srcs"
      "p \<in> set (expanded_pairs sm t srcs)" "x = mk_transition a sm (ssm_states m) em n t (i, p)"
      by (rule accepted_transition)
    then show "(s, r) \<in> declared_steps sm" using expanded_declared [OF t(2,1,3)] x(2) by simp
  next
    fix s r assume h: "(s, r) \<in> declared_steps sm"
    obtain e d where r: "r = (e, d)" by (cases r)
    have "\<exists>t srcs. t \<in> set (sm_transitions sm) \<and> check_transition sm t = Inr srcs
      \<and> (s, e) \<in> set (expanded_pairs sm t srcs) \<and> d = tr_dst_state t"
      by (rule declared_expanded) (use h r lower_transitions_complete [OF lt] in auto)
    then obtain t srcs where t: "t \<in> set (sm_transitions sm)" "check_transition sm t = Inr srcs"
      "(s, e) \<in> set (expanded_pairs sm t srcs)" "d = tr_dst_state t" by blast
    from lower_transitions_complete [OF lt t(1)] t(2,3) obtain n i where
      x: "mk_transition a sm (ssm_states m) em n t (i, (s, e)) \<in> set (ssm_transitions m)" by fastforce
    from sm_step.fire [OF x] show "(s, r) \<in> {(s, e, d). sm_step m s e d}" using t(4) r by simp
  qed
qed

text \<open>C5. An accepted machine has exactly the declared steps: a source state, an event and a destination
  are connected by a lowered transition iff a concrete declaration says so, or a wildcard declaration
  does for a non-terminal state without a concrete declaration on that event.\<close>

theorem machine_steps_exact:
  assumes "lower_state_machine ho a sm = Inr (m, a')"
  shows "{(s, e, d). sm_step m s e d} = declared_steps sm"
  using assms by (rule machine_steps)

theorem machine_steps_exact_witness:
  "{(s, e, d). sm_step (fst example_result) s e d} = declared_steps example_machine
   \<and> (''Idle'', ''stop'', ''Done'') \<in> declared_steps example_machine"
proof
  show "{(s, e, d). sm_step (fst example_result) s e d} = declared_steps example_machine"
    by (rule machine_steps_exact [OF example_accepted])
  show "(''Idle'', ''stop'', ''Done'') \<in> declared_steps example_machine"
    unfolding declared_steps_def
    by (rule UnI2, rule CollectI, intro exI [of _ "''Idle''"] exI [of _ stop_transition] exI [of _ "plain_event ''stop''"])
      (simp add: example_machine_def stop_transition_def tick_transition_def plain_event_def
        sm_state_names_def sm_terminal_names_def concrete_pairs_def)
qed

section \<open>Determinism and exhaustiveness\<close>

lemma two_in_filter:
  assumes "i < j" "j < length xs" "P (xs ! i)" "P (xs ! j)"
  shows "length (filter P xs) > 1"
proof -
  have "{i, j} \<subseteq> {k. k < length xs \<and> P (xs ! k)}" using assms by auto
  from card_mono [OF _ this] assms(1) show ?thesis by (simp add: length_filter_conv_card)
qed

lemma check_duplicates_Inr:
  assumes "check_duplicates ho trs = Inr ()" "hash_order_ok ho" "x \<in> set trs"
    "length (filter (\<lambda>t. transition_key t = transition_key x) trs) > 1"
  shows "str_guard x \<noteq> None"
proof -
  have "transition_key x \<in> set (ho_pairs ho (remdups (map transition_key trs)))"
    using assms(2,3) by (simp add: hash_order_set)
  with assms(1,3,4) show ?thesis
    unfolding check_duplicates_def try_each_Inr_iff Let_def
    by (auto simp: list_ex_iff split: if_splits)
qed

text \<open>C6. An accepted machine is deterministic up to guards: whatever order the hash table of groups is
  visited in, two transitions from the same state on the same event both carry a guard.\<close>

theorem machine_deterministic:
  assumes "lower_state_machine ho a sm = Inr (m, a')" "hash_order_ok ho"
    and "i < j" "j < length (ssm_transitions m)"
    and "str_src_state_name (ssm_transitions m ! i) = str_src_state_name (ssm_transitions m ! j)"
    and "str_event_name (ssm_transitions m ! i) = str_event_name (ssm_transitions m ! j)"
  shows "str_guard (ssm_transitions m ! i) \<noteq> None \<and> str_guard (ssm_transitions m ! j) \<noteq> None"
proof -
  let ?T = "ssm_transitions m"
  from assms(1) have d: "check_duplicates ho ?T = Inr ()" by (rule accepted_parts)
  have k: "transition_key (?T ! i) = transition_key (?T ! j)" using assms(5,6) by (simp add: transition_key_def)
  have "length (filter (\<lambda>t. transition_key t = transition_key (?T ! j)) ?T) > 1"
    by (rule two_in_filter [OF assms(3,4)]) (simp_all add: k)
  then show ?thesis
    using check_duplicates_Inr [OF d assms(2), of "?T ! i"] check_duplicates_Inr [OF d assms(2), of "?T ! j"]
      assms(3,4) k by simp
qed

definition guarded_machine :: ast_state_machine_decl where
  "guarded_machine = example_machine\<lparr>sm_transitions :=
     [tick_transition\<lparr>tr_guard := Some (EBool True None)\<rparr>, tick_transition\<lparr>tr_guard := Some (EBool False None)\<rparr>,
      stop_transition]\<rparr>"

definition guarded_result :: "semantic_state_machine \<times> analyzer" where
  "guarded_result = projr (lower_state_machine insertion_order example_analyzer guarded_machine)"

lemma guarded_accepted:
  "lower_state_machine insertion_order example_analyzer guarded_machine
    = Inr (fst guarded_result, snd guarded_result)"
proof -
  have "accepted (lower_state_machine insertion_order example_analyzer guarded_machine)" by code_simp
  then show ?thesis by (auto simp: accepted_def guarded_result_def split: sum.splits)
qed

theorem machine_deterministic_witness:
  "str_guard (ssm_transitions (fst guarded_result) ! 0) \<noteq> None
   \<and> str_guard (ssm_transitions (fst guarded_result) ! 1) \<noteq> None"
proof (rule machine_deterministic [OF guarded_accepted insertion_order_ok])
  show "1 < length (ssm_transitions (fst guarded_result))" by code_simp
  show "str_src_state_name (ssm_transitions (fst guarded_result) ! 0)
      = str_src_state_name (ssm_transitions (fst guarded_result) ! 1)" by code_simp
  show "str_event_name (ssm_transitions (fst guarded_result) ! 0)
      = str_event_name (ssm_transitions (fst guarded_result) ! 1)" by code_simp
qed simp

text \<open>C8. In an accepted machine with pairwise distinct state names, whose transitions each name at least
  one event as the grammar demands, no non-terminal state is stuck: some transition leaves it.\<close>

theorem machine_not_stuck:
  assumes acc: "lower_state_machine ho a sm = Inr (m, a')"
    and dist: "distinct (map st_name (sm_states sm))"
    and ev: "\<forall>t \<in> set (sm_transitions sm). tr_events t \<noteq> []"
    and s: "s \<in> set (ssm_states m)" "\<not> sst_is_terminal s"
  shows "\<exists>e d. sm_step m (sst_name s) e d"
proof -
  from acc have st: "ssm_states m = map (lower_state a (ssm_sm_id m)) (sm_states sm)"
    and ex: "check_exhaustive sm (ssm_states m) = Inr ()" by (rule accepted_parts, simp)+
  from s st obtain u where u: "u \<in> set (sm_states sm)" "\<not> st_is_terminal u" "sst_name s = st_name u" by auto
  have nt: "sst_name s \<in> set (sm_state_names sm) - set (sm_terminal_names sm)"
  proof -
    have "v = u" if "v \<in> set (sm_states sm)" "st_name v = st_name u" for v
      using dist that u(1) by (auto simp: distinct_map dest: inj_onD)
    then show ?thesis using u by (auto simp: sm_state_names_def sm_terminal_names_def)
  qed
  have "\<exists>e d. (sst_name s, e, d) \<in> declared_steps sm"
  proof (cases "\<exists>t \<in> set (sm_transitions sm). tr_src_state t = sst_name s \<and> \<not> is_wildcard t")
    case True
    then obtain t where t: "t \<in> set (sm_transitions sm)" "tr_src_state t = sst_name s" "\<not> is_wildcard t" by blast
    obtain v where "v \<in> set (tr_events t)" using bspec [OF ev t(1)] by (cases "tr_events t") auto
    from declared_concrete [OF t(1) this t(3)] show ?thesis unfolding t(2) by blast
  next
    case False
    have "list_ex is_wildcard (sm_transitions sm)"
    proof (rule ccontr)
      assume n: "\<not> list_ex is_wildcard (sm_transitions sm)"
      then have "sst_name s \<in> tr_src_state ` set (sm_transitions sm)"
        using ex s by (auto simp: check_exhaustive_def try_each_Inr_iff split: if_splits)
      then show False using False n by (auto simp: list_ex_iff)
    qed
    then obtain t where t: "t \<in> set (sm_transitions sm)" "is_wildcard t" by (auto simp: list_ex_iff)
    obtain v where v: "v \<in> set (tr_events t)" using bspec [OF ev t(1)] by (cases "tr_events t") auto
    have "(sst_name s, ev_name v) \<notin> set (concrete_pairs sm)" using False by (auto simp: concrete_pairs_def)
    from declared_wildcard [OF t(1) v t(2) nt this] show ?thesis by blast
  qed
  moreover from acc have "{(s, e, d). sm_step m s e d} = declared_steps sm"
    by (rule machine_steps)
  ultimately show ?thesis by blast
qed

theorem machine_not_stuck_witness:
  "\<exists>e d. sm_step (fst example_result) ''Idle'' e d"
proof -
  have "list_ex (\<lambda>s. sst_name s = ''Idle'' \<and> \<not> sst_is_terminal s) (ssm_states (fst example_result))" by code_simp
  then obtain s where s: "s \<in> set (ssm_states (fst example_result))" "\<not> sst_is_terminal s" "sst_name s = ''Idle''"
    by (auto simp: list_ex_iff)
  have "\<exists>e d. sm_step (fst example_result) (sst_name s) e d"
    by (rule machine_not_stuck [OF example_accepted _ _ s(1,2)])
      (simp_all add: example_machine_def tick_transition_def stop_transition_def)
  then show ?thesis using s(3) by simp
qed

section \<open>Reachability warnings\<close>

text \<open>C7. The warnings an accepted machine adds are exact, whatever order the hash set of terminal states
  is visited in: one for every non-terminal state from which no terminal state can be reached, then one
  for every state that cannot be reached from the initial state, in the order of declaration.\<close>

theorem machine_warnings_exact:
  assumes "lower_state_machine ho a sm = Inr (m, a')" "hash_order_ok ho"
  shows "map (\<lambda>w. (wn_kind w, wn_span w)) (an_warnings a') = map (\<lambda>w. (wn_kind w, wn_span w)) (an_warnings a)
    @ map (\<lambda>s. (SmUnreachableTerminal, sst_span s))
        (filter (\<lambda>s. \<not> sst_is_terminal s \<and> \<not> can_finish m (sst_name s)) (ssm_states m))
    @ map (\<lambda>s. (SmUnreachableFromInitial, sst_span s))
        (filter (\<lambda>s. \<not> sm_reachable m (sst_name s)) (ssm_states m))"
proof -
  note st = accepted_states [OF assms(1)]
  from assms(1) have a': "a' = a\<lparr>an_warnings := an_warnings a @ terminal_warnings ho sm (ssm_states m) (ssm_transitions m)
           @ initial_warnings sm (ssm_states m) (ssm_transitions m)\<rparr>" by (rule accepted_parts)
  have "n \<in> set (reaches_terminal ho sm (ssm_transitions m)) \<longleftrightarrow> can_finish m n" for n
    unfolding reaches_terminal_def Let_def bfs_from can_finish_rtrancl
    by (simp add: hash_order_set [OF assms(2)] st(2) [symmetric]) blast
  moreover have "n \<in> set (reached_from_initial sm (ssm_transitions m)) \<longleftrightarrow> sm_reachable m n" for n
  proof -
    have "sm_reachable m n \<longleftrightarrow> (sm_initial_state sm, n) \<in> (set (forward_edges (ssm_transitions m)))\<^sup>*"
    proof (rule reachable_rtrancl)
      show "sst_state_id s = ssm_initial_state_id m \<longleftrightarrow> sst_name s = sm_initial_state sm"
        if "s \<in> set (ssm_states m)" for s using st(3) [OF that] st(4) by simp
      show "sm_initial_state sm \<in> sst_name ` set (ssm_states m)"
        using st(5) arg_cong [OF st(1), of set] by simp
    qed
    then show ?thesis unfolding reached_from_initial_def bfs_from by auto
  qed
  ultimately show ?thesis
    unfolding a' by (simp add: terminal_warnings_def initial_warnings_def o_def)
qed

definition trap_machine :: ast_state_machine_decl where
  "trap_machine = example_machine\<lparr>sm_transitions :=
     [tick_transition, stop_transition\<lparr>tr_dst_state := ''Idle'', tr_actions := tr_actions tick_transition\<rparr>]\<rparr>"

definition trap_result :: "semantic_state_machine \<times> analyzer" where
  "trap_result = projr (lower_state_machine insertion_order example_analyzer trap_machine)"

lemma trap_accepted:
  "lower_state_machine insertion_order example_analyzer trap_machine
    = Inr (fst trap_result, snd trap_result)"
proof -
  have "accepted (lower_state_machine insertion_order example_analyzer trap_machine)" by code_simp
  then show ?thesis by (auto simp: accepted_def trap_result_def split: sum.splits)
qed

theorem machine_warnings_exact_witness:
  "map (\<lambda>w. (wn_kind w, wn_span w)) (an_warnings (snd trap_result)) =
    map (\<lambda>s. (SmUnreachableTerminal, sst_span s))
        (filter (\<lambda>s. \<not> sst_is_terminal s \<and> \<not> can_finish (fst trap_result) (sst_name s)) (ssm_states (fst trap_result)))
    @ map (\<lambda>s. (SmUnreachableFromInitial, sst_span s))
        (filter (\<lambda>s. \<not> sm_reachable (fst trap_result) (sst_name s)) (ssm_states (fst trap_result)))
   \<and> map wn_kind (an_warnings (snd trap_result)) = [SmUnreachableTerminal, SmUnreachableFromInitial]"
proof
  have "an_warnings example_analyzer = []" by (simp add: example_analyzer_def analyzer_new_def)
  then show "map (\<lambda>w. (wn_kind w, wn_span w)) (an_warnings (snd trap_result)) =
    map (\<lambda>s. (SmUnreachableTerminal, sst_span s))
        (filter (\<lambda>s. \<not> sst_is_terminal s \<and> \<not> can_finish (fst trap_result) (sst_name s)) (ssm_states (fst trap_result)))
    @ map (\<lambda>s. (SmUnreachableFromInitial, sst_span s))
        (filter (\<lambda>s. \<not> sm_reachable (fst trap_result) (sst_name s)) (ssm_states (fst trap_result)))"
    using machine_warnings_exact [OF trap_accepted insertion_order_ok] by simp
  show "map wn_kind (an_warnings (snd trap_result)) = [SmUnreachableTerminal, SmUnreachableFromInitial]"
    by code_simp
qed

section \<open>Names a machine does not check\<close>

text \<open>A state named twice, a field of an undeclared type, and a delegation of an event that no transition
  mentions.\<close>

definition sloppy_machine :: ast_state_machine_decl where
  "sloppy_machine =
     \<lparr>sm_name = ''M'',
      sm_states = [\<lparr>st_name = ''A'', st_fields = [counter_field\<lparr>sd_type_expr := TNamed ''nosuch'' None\<rparr>],
                     st_is_terminal = False, st_span = None\<rparr>,
                   \<lparr>st_name = ''B'', st_fields = [], st_is_terminal = True, st_span = None\<rparr>,
                   \<lparr>st_name = ''B'', st_fields = [], st_is_terminal = True, st_span = None\<rparr>],
      sm_initial_state = ''A'',
      sm_transitions =
        [\<lparr>tr_src_state = ''A'', tr_dst_state = ''A'', tr_events = [plain_event ''tick''], tr_guard = None,
          tr_actions = [], tr_delegate = Some \<lparr>dg_target = ENameRef ''n'' None, dg_event_name = ''nosuch_event'',
            dg_span = None\<rparr>, tr_span = None\<rparr>],
      sm_verify_declarations = [], sm_annotations = [], sm_exported = False, sm_span = None\<rparr>"

text \<open>State machine lowering does not report three kinds of wrong names: a field whose type is not
  declared becomes a \<open>u8\<close>, a delegated event that does not exist gets the empty identifier, and two states
  may have the same name and identifier.\<close>

theorem machine_unknown_names_accepted:
  "case lower_state_machine insertion_order example_analyzer sloppy_machine of
     Inr (m, a') \<Rightarrow>
       map (map stf_ty \<circ> sst_fields) (ssm_states m) = [[Primitive U8 None], [], []]
       \<and> map (map_option sdg_event_id \<circ> str_delegate) (ssm_transitions m) = [Some []]
       \<and> map sst_state_id (ssm_states m) = [''sm:M/state:A'', ''sm:M/state:B'', ''sm:M/state:B'']
       \<and> resolve_type_name (an_registry example_analyzer) ''nosuch'' = None
   | Inl e \<Rightarrow> False"
  by code_simp

end
