(* ===== verification/Delegation.thy ===== *)
theory Delegation
  imports StateMachine
begin

text \<open>
  The acyclicity check on delegation between state machines, in \<open>run\<close> of
  \<open>crates/wirespec-sema/src/analyzer/mod.rs\<close>: Kahn's algorithm over the graph whose edges lead from a
  machine to the machines its state fields hold. The in-degrees are a list of counters; a counter
  that would go below zero panics, which is the result \<open>None\<close>.
\<close>

section \<open>The graph\<close>

definition child_names :: "semantic_state_machine \<Rightarrow> string list" where
  "child_names sm = List.map_filter stf_child_sm_name (concat (map sst_fields (ssm_states sm)))"

definition all_machine_names :: "semantic_state_machine list \<Rightarrow> string list" where
  "all_machine_names sms = remdups (map ssm_name sms)"

definition child_targets :: "semantic_state_machine list \<Rightarrow> string \<Rightarrow> string list" where
  "child_targets sms n = remdups (concat (map child_names (filter (\<lambda>sm. ssm_name sm = n) sms)))"

text \<open>The keys of the edge table are the machines with a child.\<close>

definition edge_keys :: "semantic_state_machine list \<Rightarrow> string list" where
  "edge_keys sms = filter (\<lambda>n. child_targets sms n \<noteq> []) (all_machine_names sms)"

section \<open>Kahn's algorithm\<close>

type_synonym degrees = "(string \<times> nat) list"

definition bump :: "string \<Rightarrow> degrees \<Rightarrow> degrees" where
  "bump t d = (case map_of d t of Some k \<Rightarrow> AList.update t (Suc k) d | None \<Rightarrow> d)"

definition initial_degrees :: "hash_order \<Rightarrow> semantic_state_machine list \<Rightarrow> degrees" where
  "initial_degrees ho sms =
     fold (\<lambda>key d. fold bump (ho_names ho (child_targets sms key)) d)
       (ho_names ho (edge_keys sms)) (map (\<lambda>n. (n, 0)) (all_machine_names sms))"

fun relax :: "string list \<Rightarrow> degrees \<Rightarrow> string list \<Rightarrow> (degrees \<times> string list) option" where
  "relax [] d queue = Some (d, queue)"
| "relax (t # ts) d queue =
     (case map_of d t of
        None \<Rightarrow> relax ts d queue
      | Some 0 \<Rightarrow> None
      | Some (Suc k) \<Rightarrow> relax ts (AList.update t k d) (if k = 0 then queue @ [t] else queue))"

definition targets_of :: "hash_order \<Rightarrow> semantic_state_machine list \<Rightarrow> string \<Rightarrow> string list" where
  "targets_of ho sms node = (if node \<in> set (edge_keys sms) then ho_names ho (child_targets sms node) else [])"

definition degree_sum :: "degrees \<Rightarrow> nat" where
  "degree_sum d = sum_list (map snd (AList.clearjunk d))"

lemma degree_sum_eq: "degree_sum d = (\<Sum>n \<in> dom (map_of d). the (map_of d n))"
proof -
  let ?c = "AList.clearjunk d"
  have "sum_list (map snd ?c) = (\<Sum>p \<in> set ?c. snd p)"
    by (rule sum_list_distinct_conv_sum_set) (use distinct_clearjunk [of d] in \<open>simp add: distinct_map\<close>)
  also have "\<dots> = (\<Sum>n \<in> fst ` set ?c. the (map_of ?c n))"
    by (subst sum.reindex)
      (use distinct_clearjunk [of d] in \<open>auto simp: distinct_map intro!: sum.cong dest: eq_key_imp_eq_value\<close>)
  also have "fst ` set ?c = dom (map_of d)" by (metis dom_map_of_conv_image_fst map_of_clearjunk)
  finally show ?thesis by (simp add: degree_sum_def map_of_clearjunk)
qed

lemma degree_sum_update:
  assumes "map_of d t = Some (Suc k)"
  shows "degree_sum d = Suc (degree_sum (AList.update t k d))"
proof -
  have t: "t \<in> dom (map_of d)" using assms by auto
  have m: "map_of (AList.update t k d) = (map_of d)(t \<mapsto> k)" by (rule update_conv')
  have "degree_sum d = Suc k + (\<Sum>n \<in> dom (map_of d) - {t}. the (map_of d n))"
    unfolding degree_sum_eq using assms t by (subst sum.remove [of _ t]) (auto simp: finite_dom_map_of)
  moreover have "degree_sum (AList.update t k d) = k + (\<Sum>n \<in> dom (map_of d) - {t}. the (map_of d n))"
    unfolding degree_sum_eq m using t
    by (subst sum.remove [of _ t]) (auto simp: finite_dom_map_of insert_absorb intro!: sum.cong)
  ultimately show ?thesis by simp
qed

lemma relax_measure:
  "relax ts d queue = Some (d', queue') \<Longrightarrow> degree_sum d' + length queue' \<le> degree_sum d + length queue"
proof (induction ts d queue rule: relax.induct)
  case (2 t ts d queue)
  show ?case
  proof (cases "map_of d t")
    case None
    then show ?thesis using 2 by simp
  next
    case (Some c)
    then obtain k where k: "c = Suc k" using "2.prems" by (cases c) auto
    with Some 2 show ?thesis using degree_sum_update [of d t k] by (fastforce split: if_splits)
  qed
qed simp

function kahn :: "hash_order \<Rightarrow> semantic_state_machine list \<Rightarrow> degrees \<Rightarrow> string list \<Rightarrow> nat
    \<Rightarrow> (degrees \<times> nat) option" where
  "kahn ho sms d [] cnt = Some (d, cnt)"
| "kahn ho sms d (node # queue) cnt =
     (case relax (targets_of ho sms node) d queue of
        None \<Rightarrow> None
      | Some (d', queue') \<Rightarrow> kahn ho sms d' queue' (cnt + 1))"
  by pat_completeness auto
termination
  by (relation "measure (\<lambda>(ho, sms, d, queue, cnt). degree_sum d + length queue)")
    (auto dest!: sym [of "Some _"] relax_measure)

definition zero_names :: "hash_order \<Rightarrow> degrees \<Rightarrow> string list" where
  "zero_names ho d = filter (\<lambda>n. map_of d n = Some 0) (ho_names ho (map fst d))"

definition cycle_names :: "hash_order \<Rightarrow> degrees \<Rightarrow> string list" where
  "cycle_names ho d = filter (\<lambda>n. map_of d n \<noteq> Some 0) (ho_names ho (map fst d))"

definition check_delegates :: "hash_order \<Rightarrow> semantic_state_machine list \<Rightarrow> (sema_error + unit) option" where
  "check_delegates ho sms =
     (let d = initial_degrees ho sms
      in case kahn ho sms d (zero_names ho d) 0 of
           None \<Rightarrow> None
         | Some (d', cnt) \<Rightarrow>
             if cnt < length (all_machine_names sms)
             then Some (Inl (with_hint ''state machines cannot form a circular delegation chain''
                    (sema_error_new CyclicDependency
                      (''cyclic delegate dependency detected: '' @ join_with '' -> '' (cycle_names ho d')))))
             else Some (Inr ()))"

section \<open>Degrees cnt the machines not yet processed\<close>

text \<open>The graph as a relation, and the machines outside a set that delegate to a name.\<close>

definition delegates :: "semantic_state_machine list \<Rightarrow> (string \<times> string) set" where
  "delegates sms =
     {(m, n). m \<in> set (all_machine_names sms) \<and> n \<in> set (all_machine_names sms) \<and> n \<in> set (child_targets sms m)}"

definition parents :: "semantic_state_machine list \<Rightarrow> string set \<Rightarrow> string \<Rightarrow> string set" where
  "parents sms P n = {m \<in> set (all_machine_names sms) - P. n \<in> set (child_targets sms m)}"

lemma finite_parents [simp]: "finite (parents sms P n)"
  by (simp add: parents_def)

definition degrees_ok :: "semantic_state_machine list \<Rightarrow> string set \<Rightarrow> degrees \<Rightarrow> bool" where
  "degrees_ok sms P d \<longleftrightarrow>
     (\<forall>n. map_of d n = (if n \<in> set (all_machine_names sms) then Some (card (parents sms P n)) else None))"

lemma map_of_bump: "map_of (bump t d) n = (if n = t then map_option Suc (map_of d n) else map_of d n)"
  by (auto simp: bump_def update_conv' split: option.splits)

lemma bump_keys: "map fst (bump t d) = map fst d"
proof -
  have "map_of d t = Some k \<Longrightarrow> map fst (AList.update t v d) = map fst d" for k v
    by (induction d) auto
  then show ?thesis by (auto simp: bump_def split: option.split)
qed

lemma map_of_bumps:
  "distinct ts \<Longrightarrow> map_of (fold bump ts d) n = map_option (\<lambda>k. k + (if n \<in> set ts then 1 else 0)) (map_of d n)"
  by (induction ts arbitrary: d) (auto simp: map_of_bump option.map_comp o_def option.map_ident)

lemma bumps_keys: "map fst (fold bump ts d) = map fst d"
  by (induction ts arbitrary: d) (auto simp: bump_keys)

lemma map_of_count:
  assumes "\<And>key. distinct (f key)"
  shows "map_of (fold (\<lambda>key d. fold bump (f key) d) keys d) n
    = map_option (\<lambda>k. k + length (filter (\<lambda>key. n \<in> set (f key)) keys)) (map_of d n)"
  by (induction keys arbitrary: d) (auto simp: map_of_bumps assms option.map_comp o_def option.map_ident)

lemma count_keys: "map fst (fold (\<lambda>key d. fold bump (f key) d) keys d) = map fst d"
  by (induction keys arbitrary: d) (auto simp: bumps_keys)

lemma initial_degrees_ok:
  assumes "hash_order_ok ho"
  shows "degrees_ok sms {} (initial_degrees ho sms)" and "map fst (initial_degrees ho sms) = all_machine_names sms"
proof -
  let ?N = "all_machine_names sms" and ?f = "\<lambda>key. ho_names ho (child_targets sms key)"
  let ?K = "ho_names ho (edge_keys sms)"
  have dist: "distinct (?f key)" for key using hash_order_set(3) [OF assms] by (simp add: child_targets_def)
  have K: "distinct ?K" "set ?K = set (edge_keys sms)"
    using hash_order_set [OF assms] by (simp_all add: edge_keys_def all_machine_names_def)
  have "length (filter (\<lambda>key. n \<in> set (?f key)) ?K) = card (parents sms {} n)" for n
  proof -
    have "length (filter (\<lambda>key. n \<in> set (?f key)) ?K) = card (set (filter (\<lambda>key. n \<in> set (?f key)) ?K))"
      using K(1) by (simp only: distinct_card distinct_filter)
    also have "set (filter (\<lambda>key. n \<in> set (?f key)) ?K) = parents sms {} n"
      using K(2) hash_order_set(1) [OF assms] by (auto simp: parents_def edge_keys_def)
    finally show ?thesis .
  qed
  moreover have "map_of (map (\<lambda>n. (n, 0 :: nat)) ?N) n = (if n \<in> set ?N then Some 0 else None)" for n
    by (simp add: map_of_map_restrict restrict_map_def)
  ultimately show "degrees_ok sms {} (initial_degrees ho sms)"
    by (simp add: degrees_ok_def initial_degrees_def map_of_count [OF dist])
  show "map fst (initial_degrees ho sms) = ?N" by (simp add: initial_degrees_def count_keys o_def)
qed

lemma relax_spec:
  "distinct ts \<Longrightarrow> (\<And>t. t \<in> set ts \<Longrightarrow> map_of d t \<noteq> Some 0) \<Longrightarrow>
    \<exists>d'. relax ts d q = Some (d', q @ filter (\<lambda>t. map_of d t = Some 1) ts)
      \<and> (\<forall>n. map_of d' n = (if n \<in> set ts then map_option (\<lambda>k. k - 1) (map_of d n) else map_of d n))"
proof (induction ts arbitrary: d q)
  case (Cons t ts)
  show ?case
  proof (cases "map_of d t")
    case None
    have "\<exists>d'. relax ts d q = Some (d', q @ filter (\<lambda>t. map_of d t = Some 1) ts)
      \<and> (\<forall>n. map_of d' n = (if n \<in> set ts then map_option (\<lambda>k. k - 1) (map_of d n) else map_of d n))"
      using Cons.prems by (intro Cons.IH) auto
    with None show ?thesis by auto
  next
    case (Some c)
    then obtain k where k: "c = Suc k" using Cons.prems(2) [of t] by (cases c) auto
    let ?d = "AList.update t k d" and ?q = "if k = 0 then q @ [t] else q"
    have t: "t \<notin> set ts" "distinct ts" using Cons.prems(1) by auto
    have m: "map_of ?d n = (if n = t then Some k else map_of d n)" for n by (simp add: update_conv')
    have "\<exists>d'. relax ts ?d ?q = Some (d', ?q @ filter (\<lambda>t. map_of ?d t = Some 1) ts)
      \<and> (\<forall>n. map_of d' n = (if n \<in> set ts then map_option (\<lambda>k. k - 1) (map_of ?d n) else map_of ?d n))"
      using Cons.prems t by (intro Cons.IH) (auto simp: m)
    moreover have "filter (\<lambda>t. map_of ?d t = Some 1) ts = filter (\<lambda>t. map_of d t = Some 1) ts"
      using t(1) by (intro filter_cong) (auto simp: m)
    ultimately show ?thesis using Some k t by (auto simp: update_conv')
  qed
qed simp

section \<open>The loop invariant\<close>

definition kahn_inv :: "semantic_state_machine list \<Rightarrow> string set \<Rightarrow> degrees \<Rightarrow> string list \<Rightarrow> bool" where
  "kahn_inv sms P d queue \<longleftrightarrow>
     P \<subseteq> set (all_machine_names sms) \<and> set queue \<subseteq> set (all_machine_names sms) \<and> distinct queue
     \<and> P \<inter> set queue = {} \<and> degrees_ok sms P d
     \<and> (\<forall>n \<in> set (all_machine_names sms). parents sms P n = {} \<longleftrightarrow> n \<in> P \<union> set queue)
     \<and> (\<exists>rank :: string \<Rightarrow> nat. \<forall>(m, n) \<in> delegates sms. n \<in> P \<longrightarrow> m \<in> P \<and> rank m < rank n)"

lemma kahn_inv_initial:
  assumes "hash_order_ok ho"
  shows "kahn_inv sms {} (initial_degrees ho sms) (zero_names ho (initial_degrees ho sms))"
proof -
  note i = initial_degrees_ok [OF assms, of sms]
  have "distinct (zero_names ho (initial_degrees ho sms))"
    using hash_order_set(3) [OF assms] by (simp add: zero_names_def i(2) all_machine_names_def)
  moreover have "set (zero_names ho (initial_degrees ho sms)) = {n \<in> set (all_machine_names sms). parents sms {} n = {}}"
    using hash_order_set(1) [OF assms] i(1) by (auto simp: zero_names_def i(2) degrees_ok_def)
  ultimately show ?thesis using i(1) by (auto simp: kahn_inv_def)
qed

lemma parents_insert:
  assumes "x \<in> set (all_machine_names sms)" "x \<notin> P"
  shows "parents sms (insert x P) n = parents sms P n - {x}"
    and "x \<in> parents sms P n \<longleftrightarrow> n \<in> set (child_targets sms x)"
  using assms by (auto simp: parents_def)

lemma targets_of_set:
  assumes "hash_order_ok ho" "node \<in> set (all_machine_names sms)"
  shows "set (targets_of ho sms node) = set (child_targets sms node)" "distinct (targets_of ho sms node)"
proof -
  have "set (child_targets sms node) = {}" if "node \<notin> set (edge_keys sms)"
    using that assms(2) by (simp add: edge_keys_def)
  then show "set (targets_of ho sms node) = set (child_targets sms node)"
    using hash_order_set(1) [OF assms(1)] by (cases "node \<in> set (edge_keys sms)") (auto simp: targets_of_def)
  show "distinct (targets_of ho sms node)"
    using hash_order_set(3) [OF assms(1)] by (simp add: targets_of_def child_targets_def)
qed

lemma rank_extends:
  assumes r: "\<forall>(m, n) \<in> R. n \<in> P \<longrightarrow> m \<in> P \<and> (rank :: string \<Rightarrow> nat) m < rank n" and fin: "finite P"
    and x: "x \<notin> P" "\<And>m. (m, x) \<in> R \<Longrightarrow> m \<in> P"
  shows "\<exists>rank' :: string \<Rightarrow> nat. \<forall>(m, n) \<in> R. n \<in> insert x P \<longrightarrow> m \<in> insert x P \<and> rank' m < rank' n"
proof -
  let ?r = "rank(x := Suc (Max (insert 0 (rank ` P))))"
  have below: "rank m < Suc (Max (insert 0 (rank ` P)))" if "m \<in> P" for m
    using fin that by (intro le_imp_less_Suc Max_ge) auto
  have "m \<in> insert x P \<and> ?r m < ?r n" if h: "(m, n) \<in> R" "n \<in> insert x P" for m n
  proof (cases "n = x")
    case True
    then have m: "m \<in> P" using x(2) h(1) by simp
    then have "m \<noteq> x" using x(1) by auto
    then show ?thesis using True m below [OF m] by simp
  next
    case False
    then have "n \<in> P" using h(2) by simp
    then have m: "m \<in> P" "rank m < rank n" using r h(1) by auto
    then have "m \<noteq> x" using x(1) by auto
    then show ?thesis using False m by simp
  qed
  then show ?thesis by (intro exI [of _ ?r]) blast
qed

lemma kahn_inv_step:
  assumes ho: "hash_order_ok ho" and inv: "kahn_inv sms P d (node # queue)"
  shows "\<exists>d' queue'. relax (targets_of ho sms node) d queue = Some (d', queue') \<and> kahn_inv sms (insert node P) d' queue'"
proof -
  let ?N = "set (all_machine_names sms)"
  have node: "node \<in> ?N" "node \<notin> P" "node \<notin> set queue" and d: "degrees_ok sms P d"
    and sub: "P \<subseteq> ?N" "set queue \<subseteq> ?N" "distinct queue" "P \<inter> set queue = {}"
    and zero: "\<And>n. n \<in> ?N \<Longrightarrow> parents sms P n = {} \<longleftrightarrow> n \<in> P \<union> set (node # queue)"
    using inv by (auto simp: kahn_inv_def)
  obtain rank :: "string \<Rightarrow> nat" where rank: "\<forall>(m, n) \<in> delegates sms. n \<in> P \<longrightarrow> m \<in> P \<and> rank m < rank n"
    using inv by (auto simp: kahn_inv_def)
  note ts = targets_of_set [OF ho node(1)]
  note par = parents_insert [OF node(1,2)]
  let ?ts = "targets_of ho sms node"
  have pos: "map_of d t \<noteq> Some 0" if "t \<in> set ?ts" for t
  proof
    assume "map_of d t = Some 0"
    then have "parents sms P t = {}" using d by (auto simp: degrees_ok_def split: if_splits)
    then show False using that ts(1) par(2) [of t] by auto
  qed
  from relax_spec [OF ts(2) pos, of queue] obtain d' where
    r: "relax ?ts d queue = Some (d', queue @ filter (\<lambda>t. map_of d t = Some 1) ?ts)" and
    m: "\<And>n. map_of d' n = (if n \<in> set ?ts then map_option (\<lambda>k. k - 1) (map_of d n) else map_of d n)" by auto
  let ?new = "filter (\<lambda>t. map_of d t = Some 1) ?ts"
  have card: "card (parents sms (insert node P) n) = (if n \<in> set ?ts then card (parents sms P n) - 1 else card (parents sms P n))" for n
    unfolding par(1) using par(2) [of n] ts(1) by (simp add: card_Diff_singleton_if)
  have d': "degrees_ok sms (insert node P) d'"
    using d by (simp add: degrees_ok_def m card)
  have new: "set ?new = {n \<in> ?N. parents sms (insert node P) n = {} \<and> parents sms P n \<noteq> {}}"
  proof -
    have "map_of d t = Some 1 \<longleftrightarrow> t \<in> ?N \<and> card (parents sms P t) = 1" for t
      using d by (simp add: degrees_ok_def)
    moreover have "parents sms (insert node P) t = {} \<and> parents sms P t \<noteq> {} \<longleftrightarrow> t \<in> set ?ts \<and> card (parents sms P t) = 1" for t
      using card [of t] par(1) [of t] par(2) [of t] ts(1)
      by (auto simp: card_1_singleton_iff simp del: card_0_eq)
    ultimately show ?thesis by auto
  qed
  have "kahn_inv sms (insert node P) d' (queue @ ?new)"
    unfolding kahn_inv_def
  proof (intro conjI ballI)
    show "insert node P \<subseteq> ?N" using sub node by simp
    show "set (queue @ ?new) \<subseteq> ?N" using sub new by auto
    have "set queue \<inter> set ?new = {}" unfolding new using zero sub(2) by auto
    then show "distinct (queue @ ?new)" using sub(3) ts(2) by simp
    have "insert node P \<inter> set ?new = {}" unfolding new using zero sub(1) node(1) by auto
    then show "insert node P \<inter> set (queue @ ?new) = {}" using sub(4) node(3) by auto
    show "degrees_ok sms (insert node P) d'" by (rule d')
    show "parents sms (insert node P) n = {} \<longleftrightarrow> n \<in> insert node P \<union> set (queue @ ?new)" if n: "n \<in> ?N" for n
    proof -
      have "parents sms P n = {} \<Longrightarrow> parents sms (insert node P) n = {}" unfolding par(1) by simp
      then show ?thesis using zero [OF n] n new by auto
    qed
    have "m \<in> P" if "(m, node) \<in> delegates sms" for m
    proof (rule ccontr)
      assume "m \<notin> P"
      then have "m \<in> parents sms P node" using that by (auto simp: delegates_def parents_def)
      then show False using zero [OF node(1)] by auto
    qed
    from rank_extends [OF rank finite_subset [OF sub(1)] node(2) this]
    show "\<exists>rank :: string \<Rightarrow> nat. \<forall>(m, n) \<in> delegates sms. n \<in> insert node P \<longrightarrow> m \<in> insert node P \<and> rank m < rank n"
      by simp
  qed
  with r show ?thesis by blast
qed

lemma kahn_runs:
  "hash_order_ok ho \<Longrightarrow> kahn_inv sms P d queue \<Longrightarrow> cnt = card P \<Longrightarrow>
    \<exists>d' P'. kahn ho sms d queue cnt = Some (d', card P') \<and> kahn_inv sms P' d' []"
proof (induction ho sms d queue cnt arbitrary: P rule: kahn.induct)
  case (1 ho sms d cnt)
  then show ?case by auto
next
  case (2 ho sms d node queue cnt)
  from kahn_inv_step [OF "2.prems"(1,2)] obtain d' queue' where
    s: "relax (targets_of ho sms node) d queue = Some (d', queue')" "kahn_inv sms (insert node P) d' queue'" by blast
  have "node \<notin> P" "finite P" using "2.prems"(2) by (auto simp: kahn_inv_def intro: finite_subset)
  then have "cnt + 1 = card (insert node P)" using "2.prems"(3) by simp
  from "2.IH" [OF s(1) refl "2.prems"(1) s(2) this] s(1) show ?case by simp
qed

section \<open>Cycles\<close>

lemma no_source_cyclic:
  assumes "finite S" "S \<noteq> {}" "\<And>n. n \<in> S \<Longrightarrow> \<exists>m \<in> S. (m, n) \<in> R"
  shows "\<not> acyclic R"
proof
  assume "acyclic R"
  then have "acyclic (R \<inter> S \<times> S)" by (rule acyclic_subset) blast
  then have "wf (R \<inter> S \<times> S)" using assms(1) by (intro finite_acyclic_wf) auto
  moreover obtain x where "x \<in> S" using assms(2) by blast
  ultimately obtain z where "z \<in> S" "\<And>y. (y, z) \<in> R \<inter> S \<times> S \<Longrightarrow> y \<notin> S" by (rule wfE_min) blast
  then show False using assms(3) by blast
qed

lemma rank_acyclic: "(\<And>m n. (m, n) \<in> R \<Longrightarrow> (rank :: 'a \<Rightarrow> nat) m < rank n) \<Longrightarrow> acyclic R"
  by (rule acyclicI_order [of R "\<lambda>x. - int (rank x)"]) auto

lemma kahn_finished:
  assumes "kahn_inv sms P d []"
  shows "card P < length (all_machine_names sms) \<longleftrightarrow> \<not> acyclic (delegates sms)"
proof -
  let ?N = "set (all_machine_names sms)"
  have len: "length (all_machine_names sms) = card ?N" by (metis all_machine_names_def distinct_card distinct_remdups)
  have P: "P \<subseteq> ?N" and fin: "finite ?N" using assms by (simp_all add: kahn_inv_def)
  obtain rank :: "string \<Rightarrow> nat" where rank: "\<forall>(m, n) \<in> delegates sms. n \<in> P \<longrightarrow> m \<in> P \<and> rank m < rank n"
    using assms by (auto simp: kahn_inv_def)
  show ?thesis
  proof (cases "P = ?N")
    case True
    then have "acyclic (delegates sms)" using rank
      by (intro rank_acyclic [of _ rank]) (auto simp: delegates_def)
    with True len show ?thesis by simp
  next
    case False
    have "\<exists>m \<in> ?N - P. (m, n) \<in> delegates sms" if "n \<in> ?N - P" for n
    proof -
      have "parents sms P n \<noteq> {}" using assms that by (auto simp: kahn_inv_def)
      then show ?thesis using that by (auto simp: parents_def delegates_def)
    qed
    then have "\<not> acyclic (delegates sms)" using False P fin by (intro no_source_cyclic [of "?N - P"]) auto
    moreover have "card P < card ?N" using False P fin by (simp add: psubset_card_mono psubset_eq)
    ultimately show ?thesis using len by simp
  qed
qed

lemma check_delegates_cases:
  assumes "hash_order_ok ho"
  shows "(acyclic (delegates sms) \<longrightarrow> check_delegates ho sms = Some (Inr ()))
    \<and> (\<not> acyclic (delegates sms) \<longrightarrow> (\<exists>e. check_delegates ho sms = Some (Inl e) \<and> er_kind e = CyclicDependency))"
proof -
  from kahn_runs [OF assms kahn_inv_initial [OF assms], of 0 sms] obtain d' P' where
    k: "kahn ho sms (initial_degrees ho sms) (zero_names ho (initial_degrees ho sms)) 0 = Some (d', card P')"
    and inv: "kahn_inv sms P' d' []" by auto
  show ?thesis using kahn_finished [OF inv] k by (auto simp: check_delegates_def Let_def)
qed

text \<open>C9. The delegation check finishes without an arithmetic panic for every list of machines and every order
  in which the hash tables are visited; it accepts exactly the lists whose delegation graph is acyclic
  and otherwise reports a cyclic dependency.\<close>

theorem delegation_check_exact:
  assumes "hash_order_ok ho"
  shows "case check_delegates ho sms of
      None \<Rightarrow> False
    | Some (Inr u) \<Rightarrow> acyclic (delegates sms)
    | Some (Inl e) \<Rightarrow> \<not> acyclic (delegates sms) \<and> er_kind e = CyclicDependency"
  using check_delegates_cases [OF assms, of sms] by (cases "acyclic (delegates sms)") auto

text \<open>Two machines that hold each other.\<close>

definition holder :: "string \<Rightarrow> string \<Rightarrow> semantic_state_machine" where
  "holder n child =
     \<lparr>ssm_sm_id = ''sm:'' @ n, ssm_name = n, ssm_derive_traits = [],
      ssm_states = [\<lparr>sst_state_id = ''s'', sst_name = ''S'',
         sst_fields = [\<lparr>stf_field_id = ''f'', stf_name = ''c'', stf_ty = PacketRef (''sm:'' @ child) child,
           stf_default_value = None, stf_child_sm_id = Some (''sm:'' @ child), stf_child_sm_name = Some child,
           stf_span = None\<rparr>], sst_is_terminal = False, sst_span = None\<rparr>],
      ssm_events = [], ssm_initial_state_id = ''s'', ssm_transitions = [], ssm_has_child_state_changed = False,
      ssm_verify_bound = None, ssm_verify_declarations = [], ssm_span = None\<rparr>"

theorem delegation_check_exact_witness:
  "acyclic (delegates [holder ''A'' ''B'', holder ''B'' ''C'']) \<and> \<not> acyclic (delegates [holder ''A'' ''B'', holder ''B'' ''A''])"
proof
  have "check_delegates insertion_order [holder ''A'' ''B'', holder ''B'' ''C''] = Some (Inr ())" by code_simp
  with delegation_check_exact [OF insertion_order_ok, of "[holder ''A'' ''B'', holder ''B'' ''C'']"]
  show "acyclic (delegates [holder ''A'' ''B'', holder ''B'' ''C''])" by simp
  have "case check_delegates insertion_order [holder ''A'' ''B'', holder ''B'' ''A''] of Some (Inl e) \<Rightarrow> True | _ \<Rightarrow> False"
    by code_simp
  with delegation_check_exact [OF insertion_order_ok, of "[holder ''A'' ''B'', holder ''B'' ''A'']"]
  show "\<not> acyclic (delegates [holder ''A'' ''B'', holder ''B'' ''A''])"
    by (auto split: option.splits sum.splits)
qed

end
