(* ===== verification/Analyzer.thy ===== *)
theory Analyzer
  imports Delegation
begin

text \<open>
  The entry point of the semantic analysis, \<open>analyze\<close>, \<open>run\<close> and \<open>parse_endianness\<close> of
  \<open>crates/wirespec-sema/src/analyzer/mod.rs\<close>: registration of imported names, pass 1, the item loop of
  pass 2, and the delegation check. The semantic module under construction is the accumulator of the item
  loop, so that \<open>assert_index\<close> is the number of assertions pushed so far. A panic is \<open>None\<close>.
\<close>

section \<open>Endianness\<close>

definition endian_of :: "ast_annotation \<Rightarrow> endianness option" where
  "endian_of ann =
     (if an_name ann = ''endian''
      then (case an_args ann of
              AIdentifier val # r \<Rightarrow> Some (if val = ''little'' then Little else Big)
            | _ \<Rightarrow> None)
      else None)"

fun packet_annotations :: "ast_top_item \<Rightarrow> ast_annotation list" where
  "packet_annotations (IPacket p) = pk_annotations p"
| "packet_annotations _ = []"

definition parse_endianness :: "ast_module \<Rightarrow> endianness" where
  "parse_endianness ast =
     (case find_map endian_of (mo_annotations ast @ concat (map packet_annotations (mo_items ast))) of
        Some e \<Rightarrow> e
      | None \<Rightarrow> Big)"

section \<open>Pass 2\<close>

fun lower_module_item :: "hash_order \<Rightarrow> analyzer \<times> semantic_module \<Rightarrow> ast_top_item
    \<Rightarrow> sema_error + analyzer \<times> semantic_module" where
  "lower_module_item ho (a, m) (IConst c) =
     rbind (lower_const a c) (\<lambda>sem.
       Inr (a, m\<lparr>sem_consts := sem_consts m @ [sem], sem_item_order := sem_item_order m @ [sc_const_id sem]\<rparr>))"
| "lower_module_item ho (a, m) (IEnum e) =
     rbind (lower_enum_decl a e False) (\<lambda>sem.
       Inr (a, m\<lparr>sem_enums := sem_enums m @ [sem], sem_item_order := sem_item_order m @ [se_enum_id sem]\<rparr>))"
| "lower_module_item ho (a, m) (IFlags f) =
     rbind (lower_flags_decl a f) (\<lambda>sem.
       Inr (a, m\<lparr>sem_enums := sem_enums m @ [sem], sem_item_order := sem_item_order m @ [se_enum_id sem]\<rparr>))"
| "lower_module_item ho (a, m) (IType td) =
     (case ty_body td of
        BodyAlias t \<Rightarrow> Inr (a, m)
      | BodyFields flds \<Rightarrow>
          rbind (lower_varint_prefix_match a (ty_name td) flds (ty_annotations td) (ty_span td)) (\<lambda>sem.
            Inr (a, m\<lparr>sem_varints := sem_varints m @ [sem],
                      sem_item_order := sem_item_order m @ [vi_varint_id sem]\<rparr>)))"
| "lower_module_item ho (a, m) (IContinuationVarInt cv) =
     (let sem = lower_continuation_varint cv
      in Inr (a, m\<lparr>sem_varints := sem_varints m @ [sem], sem_item_order := sem_item_order m @ [vi_varint_id sem]\<rparr>))"
| "lower_module_item ho (a, m) (IPacket p) =
     rbind (lower_sema_packet a p) (\<lambda>sem.
       Inr (a, m\<lparr>sem_packets := sem_packets m @ [sem], sem_item_order := sem_item_order m @ [sp_packet_id sem]\<rparr>))"
| "lower_module_item ho (a, m) (IFrame f) =
     rbind (lower_sema_frame a f) (\<lambda>sem.
       Inr (a, m\<lparr>sem_frames := sem_frames m @ [sem], sem_item_order := sem_item_order m @ [sfr_frame_id sem]\<rparr>))"
| "lower_module_item ho (a, m) (ICapsule c) =
     rbind (lower_sema_capsule a c) (\<lambda>sem.
       Inr (a, m\<lparr>sem_capsules := sem_capsules m @ [sem], sem_item_order := sem_item_order m @ [sca_capsule_id sem]\<rparr>))"
| "lower_module_item ho (a, m) (IStateMachine sm) =
     rbind (lower_state_machine ho a sm) (\<lambda>(sem, a').
       Inr (a', m\<lparr>sem_state_machines := sem_state_machines m @ [sem],
                  sem_item_order := sem_item_order m @ [ssm_sm_id sem]\<rparr>))"
| "lower_module_item ho (a, m) (IStaticAssert sa) =
     (let i = ''assert:'' @ show_nat (length (sem_static_asserts m))
      in Inr (a, m\<lparr>sem_static_asserts := sem_static_asserts m @
                     [\<lparr>ssa_assert_id = i, ssa_expr = lower_expr (an_registry a) [] (sa_expr sa), ssa_span = sa_span sa\<rparr>],
                   sem_item_order := sem_item_order m @ [i]\<rparr>))"
| "lower_module_item ho (a, m) (IExternAsn1 e) = Inr (a, m)"

fun lower_module_items :: "hash_order \<Rightarrow> analyzer \<times> semantic_module \<Rightarrow> ast_top_item list
    \<Rightarrow> sema_error + analyzer \<times> semantic_module" where
  "lower_module_items ho st [] = Inr st"
| "lower_module_items ho st (it # items) =
     rbind (lower_module_item ho st it) (\<lambda>st'. lower_module_items ho st' items)"

section \<open>The run\<close>

definition module_name_of :: "ast_module \<Rightarrow> string" where
  "module_name_of ast = (case mo_module_decl ast of Some d \<Rightarrow> md_name d | None \<Rightarrow> [])"

definition module_start :: "analyzer \<Rightarrow> string \<Rightarrow> endianness \<Rightarrow> semantic_module" where
  "module_start a name e =
     \<lparr>sem_schema_version = ''semantic-ir/v1'', sem_compliance_profile = profile_as_str (an_profile a),
      sem_module_name = name, sem_module_endianness = e, sem_imports = [], sem_varints = [], sem_consts = [],
      sem_enums = [], sem_packets = [], sem_frames = [], sem_capsules = [], sem_state_machines = [],
      sem_static_asserts = [], sem_asn1_externs = [], sem_item_order = [], sem_warnings = []\<rparr>"

definition register_externals :: "(string \<times> decl_kind) list \<Rightarrow> type_registry \<Rightarrow> type_registry" where
  "register_externals ext r = fold (\<lambda>(name, kind) r. register_external name kind r) ext r"

definition run_passes :: "hash_order \<Rightarrow> analyzer \<Rightarrow> ast_module \<Rightarrow> sema_error + analyzer \<times> semantic_module" where
  "run_passes ho a ast =
     (let e = parse_endianness ast;
          a = a\<lparr>an_registry := register_externals (an_external_types a) (registry_new e)\<rparr>
      in rbind (register_all a (mo_items ast)) (\<lambda>a.
         rbind (lower_module_items ho (a, module_start a (module_name_of ast) e) (mo_items ast)) (\<lambda>(a, m).
         rbind (first_error a) (\<lambda>_. Inr (a, m)))))"

definition run :: "hash_order \<Rightarrow> analyzer \<Rightarrow> ast_module \<Rightarrow> (sema_error + semantic_module) option" where
  "run ho a ast =
     (case run_passes ho a ast of
        Inl e \<Rightarrow> Some (Inl e)
      | Inr (a, m) \<Rightarrow>
          (case check_delegates ho (sem_state_machines m) of
             None \<Rightarrow> None
           | Some (Inl e) \<Rightarrow> Some (Inl e)
           | Some (Inr u) \<Rightarrow> Some (Inr (m\<lparr>sem_asn1_externs := an_asn1_externs a, sem_warnings := an_warnings a\<rparr>))))"

definition analyze :: "hash_order \<Rightarrow> ast_module \<Rightarrow> compliance_profile \<Rightarrow> (string \<times> decl_kind) list
    \<Rightarrow> (sema_error + semantic_module) option" where
  "analyze ho ast profile external_types =
     run ho ((analyzer_new profile)\<lparr>an_external_types := external_types\<rparr>) ast"

section \<open>Identifiers\<close>

text \<open>The identifier of an item, given the number of assertions before it.\<close>

fun item_id :: "nat \<Rightarrow> ast_top_item \<Rightarrow> string option" where
  "item_id k (IConst c) = Some (''const:'' @ co_name c)"
| "item_id k (IEnum e) = Some (''enum:'' @ en_name e)"
| "item_id k (IFlags f) = Some (''enum:'' @ fl_name f)"
| "item_id k (IType td) = (case ty_body td of BodyAlias t \<Rightarrow> None | BodyFields f \<Rightarrow> Some (''varint:'' @ ty_name td))"
| "item_id k (IContinuationVarInt cv) = Some (''varint:'' @ cv_name cv)"
| "item_id k (IPacket p) = Some (''packet:'' @ pk_name p)"
| "item_id k (IFrame f) = Some (''frame:'' @ fr_name f)"
| "item_id k (ICapsule c) = Some (''capsule:'' @ ca_name c)"
| "item_id k (IStateMachine sm) = Some (''sm:'' @ sm_name sm)"
| "item_id k (IStaticAssert sa) = Some (''assert:'' @ show_nat k)"
| "item_id k (IExternAsn1 e) = None"

fun is_assert :: "ast_top_item \<Rightarrow> bool" where
  "is_assert (IStaticAssert sa) = True"
| "is_assert _ = False"

fun item_ids :: "nat \<Rightarrow> ast_top_item list \<Rightarrow> string list" where
  "item_ids k [] = []"
| "item_ids k (it # items) =
     (case item_id k it of Some i \<Rightarrow> [i] | None \<Rightarrow> []) @ item_ids (if is_assert it then Suc k else k) items"

text \<open>The identifiers of the parts of a module.\<close>

definition module_ids :: "semantic_module \<Rightarrow> string list" where
  "module_ids m = map sc_const_id (sem_consts m) @ map se_enum_id (sem_enums m) @ map vi_varint_id (sem_varints m)
     @ map sp_packet_id (sem_packets m) @ map sfr_frame_id (sem_frames m) @ map sca_capsule_id (sem_capsules m)
     @ map ssm_sm_id (sem_state_machines m) @ map ssa_assert_id (sem_static_asserts m)"

lemma lowered_ids:
  "lower_const a c = Inr sc \<Longrightarrow> sc_const_id sc = ''const:'' @ co_name c"
  "lower_enum_decl a e fl = Inr se \<Longrightarrow> se_enum_id se = ''enum:'' @ en_name e"
  "lower_flags_decl a f = Inr se \<Longrightarrow> se_enum_id se = ''enum:'' @ fl_name f"
  "lower_varint_prefix_match a n flds anns sp = Inr v \<Longrightarrow> vi_varint_id v = ''varint:'' @ n"
  "lower_sema_packet a p = Inr pk \<Longrightarrow> sp_packet_id pk = ''packet:'' @ pk_name p"
  "lower_sema_frame a fr = Inr sfr \<Longrightarrow> sfr_frame_id sfr = ''frame:'' @ fr_name fr"
  "lower_sema_capsule a ca = Inr sca \<Longrightarrow> sca_capsule_id sca = ''capsule:'' @ ca_name ca"
  by (auto simp: lower_const_def lower_enum_decl_def lower_flags_decl_def lower_varint_prefix_match_def Let_def
      lower_sema_packet_def lower_sema_frame_def lower_sema_capsule_def rbind_eq_Inr_iff
      split: if_splits ast_type_expr.splits)

lemma lowered_machine_id: "lower_state_machine ho a sm = Inr (m, a') \<Longrightarrow> ssm_sm_id m = ''sm:'' @ sm_name sm"
  by (erule accepted_parts) simp

lemma lower_module_item_order:
  assumes "lower_module_item ho (a, m) it = Inr (a', m')"
  shows "sem_item_order m' = sem_item_order m @ item_ids (length (sem_static_asserts m)) [it]
    \<and> length (sem_static_asserts m') = length (sem_static_asserts m) + (if is_assert it then 1 else 0)
    \<and> mset (module_ids m') = mset (module_ids m) + mset (item_ids (length (sem_static_asserts m)) [it])"
  using assms
  by (cases it)
    (auto simp: rbind_eq_Inr_iff lowered_ids lowered_machine_id module_ids_def Let_def lower_continuation_varint_def
      split: ast_type_decl_body.splits)

lemma lower_module_items_order:
  "lower_module_items ho (a, m) items = Inr (a', m') \<Longrightarrow>
    sem_item_order m' = sem_item_order m @ item_ids (length (sem_static_asserts m)) items
    \<and> mset (module_ids m') = mset (module_ids m) + mset (item_ids (length (sem_static_asserts m)) items)"
proof (induction items arbitrary: a m)
  case (Cons it items)
  then obtain a1 m1 where s: "lower_module_item ho (a, m) it = Inr (a1, m1)"
    "lower_module_items ho (a1, m1) items = Inr (a', m')" by (auto simp: rbind_eq_Inr_iff)
  show ?case using lower_module_item_order [OF s(1)] Cons.IH [OF s(2)] by (cases "is_assert it") auto
qed simp

definition id_prefixes :: "string set" where
  "id_prefixes = {''const:'', ''enum:'', ''varint:'', ''packet:'', ''frame:'', ''capsule:'', ''sm:''}"

lemma id_prefixes_free: "p \<in> id_prefixes \<Longrightarrow> q \<in> id_prefixes \<Longrightarrow> p @ n = q @ k \<Longrightarrow> p = q \<and> n = k"
  by (auto simp: id_prefixes_def)

lemma assert_prefix_free: "p \<in> id_prefixes \<Longrightarrow> p @ n \<noteq> ''assert:'' @ k"
  by (auto simp: id_prefixes_def)

lemma item_id_shape:
  "item_id k it = Some i \<Longrightarrow>
    (if is_assert it then i = ''assert:'' @ show_nat k
     else \<exists>p \<in> id_prefixes. \<exists>n. item_name it = Some n \<and> i = p @ n)"
  by (cases it) (auto simp: id_prefixes_def split: ast_type_decl_body.splits)

lemma item_ids_shape:
  "i \<in> set (item_ids k items) \<Longrightarrow>
    (\<exists>j \<ge> k. i = ''assert:'' @ show_nat j) \<or> (\<exists>p \<in> id_prefixes. \<exists>n \<in> set (item_names items). i = p @ n)"
proof (induction items arbitrary: k)
  case (Cons it items)
  let ?k = "if is_assert it then Suc k else k"
  consider "item_id k it = Some i" | "i \<in> set (item_ids ?k items)" using Cons.prems by (auto split: option.splits)
  then show ?case
  proof cases
    case 1
    then show ?thesis using item_id_shape [OF 1] by (cases "is_assert it") auto
  next
    case 2
    have "set (item_names items) \<subseteq> set (item_names (it # items))" by (auto split: option.split)
    with Cons.IH [OF 2] show ?thesis by (auto split: if_splits intro: Suc_leD)
  qed
qed simp

lemma item_ids_distinct: "distinct (item_names items) \<Longrightarrow> distinct (item_ids k items)"
proof (induction items arbitrary: k)
  case (Cons it items)
  let ?k = "if is_assert it then Suc k else k"
  have rest: "distinct (item_ids ?k items)" using Cons by (auto split: option.splits)
  show ?case
  proof (cases "item_id k it")
    case None
    then show ?thesis using rest by simp
  next
    case (Some i)
    have "i \<notin> set (item_ids ?k items)"
    proof
      assume "i \<in> set (item_ids ?k items)"
      then consider j where "j \<ge> ?k" "i = ''assert:'' @ show_nat j"
        | p n where "p \<in> id_prefixes" "n \<in> set (item_names items)" "i = p @ n"
        using item_ids_shape by blast
      then show False
      proof cases
        case 1
        show False
        proof (cases "is_assert it")
          case True
          then show False using item_id_shape [OF Some] 1 show_nat_inj by auto
        next
          case False
          then obtain q nm where "q \<in> id_prefixes" "i = q @ nm" using item_id_shape [OF Some] by auto
          then show False using 1(2) assert_prefix_free by blast
        qed
      next
        case 2
        show False
        proof (cases "is_assert it")
          case True
          then show False using item_id_shape [OF Some] 2 assert_prefix_free by auto
        next
          case False
          then obtain q nm where q: "q \<in> id_prefixes" "item_name it = Some nm" "i = q @ nm"
            using item_id_shape [OF Some] by auto
          then have "nm = n" using id_prefixes_free 2 by metis
          then show False using 2(2) q(2) Cons.prems by simp
        qed
      qed
    qed
    then show ?thesis using Some rest by simp
  qed
qed simp

section \<open>What an accepted module is\<close>

lemma analyze_Inr:
  assumes "analyze ho ast profile ext = Some (Inr m)"
  obtains a0 a1 a m0 where
    "a0 = (analyzer_new profile)\<lparr>an_external_types := ext,
       an_registry := register_externals ext (registry_new (parse_endianness ast))\<rparr>"
    and "register_all a0 (mo_items ast) = Inr a1"
    and "lower_module_items ho (a1, module_start a1 (module_name_of ast) (parse_endianness ast)) (mo_items ast) = Inr (a, m0)"
    and "check_delegates ho (sem_state_machines m0) = Some (Inr ())"
    and "m = m0\<lparr>sem_asn1_externs := an_asn1_externs a, sem_warnings := an_warnings a\<rparr>"
proof -
  from assms obtain a m0 where
    r: "run_passes ho ((analyzer_new profile)\<lparr>an_external_types := ext\<rparr>) ast = Inr (a, m0)"
    "check_delegates ho (sem_state_machines m0) = Some (Inr ())"
    "m = m0\<lparr>sem_asn1_externs := an_asn1_externs a, sem_warnings := an_warnings a\<rparr>"
    by (auto simp: analyze_def run_def split: sum.splits option.splits prod.splits)
  show thesis
    using r(1) by (auto simp: run_passes_def Let_def rbind_eq_Inr_iff analyzer_new_def intro: that [OF refl _ _ r(2,3)])
qed

lemma module_start_simps [simp]:
  "sem_item_order (module_start a n e) = []" "sem_static_asserts (module_start a n e) = []"
  "module_ids (module_start a n e) = []" "sem_state_machines (module_start a n e) = []"
  by (simp_all add: module_start_def module_ids_def)

text \<open>C10. In an accepted module every item that is no alias and no ASN.1 declaration became exactly one part: the
  item order lists the identifiers of the items as the source has them, it has no duplicates, and it is a
  rearrangement of the identifiers of the constants, enumerations, variable-length integers, packets, frames,
  capsules, state machines and assertions; and no chain of delegations between the machines is circular.\<close>

theorem analyzed_module_complete:
  assumes "analyze ho ast profile ext = Some (Inr m)" "hash_order_ok ho"
  shows "sem_item_order m = item_ids 0 (mo_items ast) \<and> distinct (sem_item_order m)
    \<and> mset (module_ids m) = mset (sem_item_order m) \<and> acyclic (delegates (sem_state_machines m))"
  using assms(1)
proof (rule analyze_Inr)
  fix a0 a1 a m0
  assume r: "register_all a0 (mo_items ast) = Inr a1"
    and l: "lower_module_items ho (a1, module_start a1 (module_name_of ast) (parse_endianness ast)) (mo_items ast) = Inr (a, m0)"
    and d: "check_delegates ho (sem_state_machines m0) = Some (Inr ())"
    and m: "m = m0\<lparr>sem_asn1_externs := an_asn1_externs a, sem_warnings := an_warnings a\<rparr>"
  have "distinct (item_names (mo_items ast))" using register_all_succeeds [of a0 "mo_items ast"] r by auto
  then have "distinct (item_ids 0 (mo_items ast))" by (rule item_ids_distinct)
  moreover have "acyclic (delegates (sem_state_machines m0))"
    using check_delegates_cases [OF assms(2), of "sem_state_machines m0"] d
    by (cases "acyclic (delegates (sem_state_machines m0))") auto
  ultimately show ?thesis using lower_module_items_order [OF l] m by (simp add: module_ids_def module_start_def)
qed

section \<open>Hash tables do not show\<close>

lemma check_duplicates_order:
  assumes "hash_order_ok h" "hash_order_ok h'" "check_duplicates h trs = Inr ()"
  shows "check_duplicates h' trs = Inr ()"
  using assms(3) unfolding check_duplicates_def try_each_Inr_iff hash_order_set(2) [OF assms(1)]
    hash_order_set(2) [OF assms(2)] .

lemma terminal_warnings_order:
  assumes "hash_order_ok h" "hash_order_ok h'"
  shows "terminal_warnings h sm sts trs = terminal_warnings h' sm sts trs"
proof -
  have "set (reaches_terminal h sm trs) = set (reaches_terminal h' sm trs)"
    by (simp add: reaches_terminal_def Let_def bfs_from hash_order_set(1) [OF assms(1)] hash_order_set(1) [OF assms(2)])
  then show ?thesis by (simp add: terminal_warnings_def)
qed

lemma lower_state_machine_order:
  assumes "hash_order_ok h" "hash_order_ok h'" "lower_state_machine h a sm = Inr r"
  shows "lower_state_machine h' a sm = Inr r"
  using assms(3) check_duplicates_order [OF assms(1,2)]
  unfolding lower_state_machine_def Let_def terminal_warnings_order [OF assms(1,2)]
  by (force simp: rbind_eq_Inr_iff)

lemma lower_module_items_hash:
  assumes "hash_order_ok h" "hash_order_ok h'"
  shows "lower_module_items h st items = Inr r \<Longrightarrow> lower_module_items h' st items = Inr r"
proof (induction items arbitrary: st)
  case (Cons it items)
  obtain a m where st: "st = (a, m)" by (cases st)
  from Cons.prems obtain st1 where s: "lower_module_item h st it = Inr st1" "lower_module_items h st1 items = Inr r"
    by (auto simp: rbind_eq_Inr_iff)
  have "lower_module_item h' st it = Inr st1"
    using s(1) lower_state_machine_order [OF assms] unfolding st by (cases it) (auto simp: rbind_eq_Inr_iff)
  then show ?case using Cons.IH [OF s(2)] by simp
qed simp

text \<open>C11. Whether a module is accepted, and the whole semantic module that results, do not depend on the
  order in which the hash tables of the analyzer are visited; and no order makes it panic.\<close>

theorem analysis_deterministic:
  assumes "hash_order_ok h" "hash_order_ok h'"
  shows "(analyze h ast profile ext = Some (Inr m)) = (analyze h' ast profile ext = Some (Inr m))
    \<and> analyze h ast profile ext \<noteq> None"
proof
  have one: "analyze h' ast profile ext = Some (Inr m)"
    if h: "hash_order_ok h" "hash_order_ok h'" and r: "analyze h ast profile ext = Some (Inr m)" for h h'
  proof -
    let ?a = "(analyzer_new profile)\<lparr>an_external_types := ext\<rparr>"
    from r obtain a m0 where
      p: "run_passes h ?a ast = Inr (a, m0)" "check_delegates h (sem_state_machines m0) = Some (Inr ())"
      "m = m0\<lparr>sem_asn1_externs := an_asn1_externs a, sem_warnings := an_warnings a\<rparr>"
      by (auto simp: analyze_def run_def split: sum.splits option.splits prod.splits)
    have "run_passes h' ?a ast = Inr (a, m0)"
      using p(1) lower_module_items_hash [OF h] by (fastforce simp: run_passes_def Let_def rbind_eq_Inr_iff)
    moreover have "check_delegates h' (sem_state_machines m0) = Some (Inr ())"
      using check_delegates_cases [OF h(1), of "sem_state_machines m0"] p(2)
        check_delegates_cases [OF h(2), of "sem_state_machines m0"]
      by (cases "acyclic (delegates (sem_state_machines m0))") auto
    ultimately show ?thesis using p(3) by (simp add: analyze_def run_def)
  qed
  show "(analyze h ast profile ext = Some (Inr m)) = (analyze h' ast profile ext = Some (Inr m))"
    using one [OF assms] one [OF assms(2,1)] by blast
  show "analyze h ast profile ext \<noteq> None"
  proof -
    have n: "check_delegates h sms \<noteq> None" for sms
      using check_delegates_cases [OF assms(1), of sms] by (cases "acyclic (delegates sms)") auto
    show ?thesis
      unfolding analyze_def run_def by (simp add: n split: sum.split option.split prod.split)
  qed
qed

definition example_module :: ast_module where
  "example_module =
     \<lparr>mo_module_decl = Some \<lparr>md_name = ''demo'', md_span = None\<rparr>, mo_imports = [],
      mo_annotations = [\<lparr>an_name = ''endian'', an_args = [AIdentifier ''little''], an_span = None\<rparr>],
      mo_items =
        [IConst \<lparr>co_name = ''MAX'', co_type_name = ''u8'', co_value = LInt 7, co_annotations = [],
           co_exported = False, co_span = None\<rparr>,
         IStaticAssert \<lparr>sa_expr = EBool True None, sa_span = None\<rparr>,
         IStateMachine example_machine],
      mo_span = None\<rparr>"

definition reversed_order :: hash_order where
  "reversed_order = \<lparr>ho_names = rev, ho_pairs = rev\<rparr>"

lemma reversed_order_ok: "hash_order_ok reversed_order"
  by (simp add: hash_order_ok_def reversed_order_def)

definition example_semantic :: semantic_module where
  "example_semantic = projr (the (analyze insertion_order example_module Phase2StrictV1_0 []))"

lemma example_module_accepted:
  "analyze insertion_order example_module Phase2StrictV1_0 [] = Some (Inr example_semantic)"
proof -
  have "case analyze insertion_order example_module Phase2StrictV1_0 [] of Some (Inr m) \<Rightarrow> True | _ \<Rightarrow> False"
    by code_simp
  then show ?thesis by (auto simp: example_semantic_def split: option.splits sum.splits)
qed

theorem analyzed_module_complete_witness:
  "sem_item_order example_semantic = [''const:MAX'', ''assert:0'', ''sm:M'']
   \<and> mset (module_ids example_semantic) = mset (sem_item_order example_semantic)"
proof -
  have "item_ids 0 (mo_items example_module) = [''const:MAX'', ''assert:0'', ''sm:M'']" by code_simp
  then show ?thesis using analyzed_module_complete [OF example_module_accepted insertion_order_ok] by simp
qed

theorem analysis_deterministic_witness:
  "analyze reversed_order example_module Phase2StrictV1_0 [] = Some (Inr example_semantic)"
  using analysis_deterministic [OF insertion_order_ok reversed_order_ok, of example_module Phase2StrictV1_0 "[]" example_semantic]
    example_module_accepted by simp

end
