(* ===== verification/Lexer.thy ===== *)
theory Lexer
  imports Ast
begin

text \<open>
  The tokenizer, \<open>crates/wirespec-syntax/src/lexer.rs\<close>. The state of the lexer is the part of the source
  still to be read; its position is the length of the source, the argument \<open>n\<close>, less the length of that
  part. Bytes are characters. A byte that is pushed with \<open>as char\<close> becomes a code point below 256
  and is stored as the UTF-8 encoding of that code point.
\<close>

section \<open>Tokens\<close>

datatype (plugins only: code) token_kind =
  TkName string | TkInteger int | TkStringLit string | TkModule | TkImport | TkConst | TkEnum |
  TkFlags | TkType | TkPacket | TkFrame | TkCapsule | TkState | TkMachine | TkTransition | TkInitial |
  TkTerminal | TkOn | TkGuard | TkAction | TkDelegate | TkMatch | TkIf | TkLet | TkRequire |
  TkStaticAssert | TkWithin | TkExport | TkVarint | TkBytes | TkBits | TkBit | TkFill | TkRemaining |
  TkTrue | TkFalse | TkNull | TkAnd | TkOr | TkNot | TkInState | TkAll | TkLBrace | TkRBrace |
  TkLParen | TkRParen | TkLBracket | TkRBracket | TkColon | TkColonColon | TkSemicolon | TkComma |
  TkDot | TkDotDot | TkDotDotEq | TkArrow | TkFatArrow | TkAssign | TkPlusAssign | TkAt | TkLArrow |
  TkPlus | TkMinus | TkStar | TkSlash | TkPercent | TkAmp | TkPipe | TkCaret | TkShl | TkShr |
  TkBang | TkEqEq | TkBangEq | TkLt | TkLe | TkGt | TkGe | TkQuestionQuestion | TkTilde | TkTildeGt |
  TkEof

record token =
  tk_kind :: token_kind
  tk_span :: span

record lex_error =
  le_msg :: string
  le_offset :: usize

definition lex_error_display :: "lex_error \<Rightarrow> string" where
  "lex_error_display e = ''lex error at offset '' @ show_nat (le_offset e) @ '': '' @ le_msg e"

section \<open>Character classes\<close>

abbreviation byte :: "char \<Rightarrow> int" where
  "byte c \<equiv> of_char c"

definition is_digit :: "char \<Rightarrow> bool" where
  "is_digit c \<longleftrightarrow> 48 \<le> byte c \<and> byte c \<le> 57"

definition is_hexdigit :: "char \<Rightarrow> bool" where
  "is_hexdigit c \<longleftrightarrow> is_digit c \<or> 65 \<le> byte c \<and> byte c \<le> 70 \<or> 97 \<le> byte c \<and> byte c \<le> 102"

definition is_alphabetic :: "char \<Rightarrow> bool" where
  "is_alphabetic c \<longleftrightarrow> 65 \<le> byte c \<and> byte c \<le> 90 \<or> 97 \<le> byte c \<and> byte c \<le> 122"

definition is_name_start :: "char \<Rightarrow> bool" where
  "is_name_start c \<longleftrightarrow> is_alphabetic c \<or> c = CHR ''_''"

definition is_name_char :: "char \<Rightarrow> bool" where
  "is_name_char c \<longleftrightarrow> is_alphabetic c \<or> is_digit c \<or> c = CHR ''_''"

definition is_blank :: "char \<Rightarrow> bool" where
  "is_blank c \<longleftrightarrow> c = CHR '' '' \<or> c = CHR 0x09 \<or> c = CHR 0x0D \<or> c = CHR 0x0A"

text \<open>\<open>char as u8\<close> in reverse: the code point of a byte, in UTF-8.\<close>

definition utf8_of_byte :: "char \<Rightarrow> string" where
  "utf8_of_byte c =
     (if byte c < 128 then [c] else [char_of (192 + byte c div 64), char_of (128 + byte c mod 64)])"

definition hex_digit :: "int \<Rightarrow> char" where
  "hex_digit d = (if d < 10 then char_of (48 + d) else char_of (87 + d))"

text \<open>\<open>{:?}\<close> of a code point below 256, the quotes included.\<close>

definition debug_char :: "char \<Rightarrow> string" where
  "debug_char c =
     [CHR 0x27] @
     (if c = CHR 0x00 then [CHR 0x5C] @ ''0'' else if c = CHR 0x09 then [CHR 0x5C] @ ''t''
      else if c = CHR 0x0D then [CHR 0x5C] @ ''r'' else if c = CHR 0x0A then [CHR 0x5C] @ ''n''
      else if c = CHR 0x27 then [CHR 0x5C] @ [CHR 0x27] else if c = CHR 0x5C then [CHR 0x5C, CHR 0x5C]
      else if byte c < 16 then [CHR 0x5C] @ ''u{'' @ [hex_digit (byte c)] @ ''}''
      else if byte c < 32 \<or> 127 \<le> byte c \<and> byte c \<le> 160 \<or> byte c = 173
      then [CHR 0x5C] @ ''u{'' @ [hex_digit (byte c div 16), hex_digit (byte c mod 16)] @ ''}''
      else utf8_of_byte c) @ [CHR 0x27]"

section \<open>Scanning\<close>

definition peek :: "string \<Rightarrow> char" where
  "peek rest = (case rest of [] \<Rightarrow> CHR 0x00 | c # r \<Rightarrow> c)"

text \<open>Comments run to the end of the line.\<close>

abbreviation in_line :: "char \<Rightarrow> bool" where
  "in_line c \<equiv> c \<noteq> CHR 0x0A"

function skip_whitespace_and_comments :: "string \<Rightarrow> string" where
  "skip_whitespace_and_comments [] = []"
| "skip_whitespace_and_comments (c # r) =
     (if is_blank c then skip_whitespace_and_comments r
      else if c = CHR ''#'' \<or> c = CHR ''/'' \<and> peek r = CHR ''/''
      then skip_whitespace_and_comments (dropWhile in_line r)
      else c # r)"
  by pat_completeness auto
termination
  by (relation "measure length") (auto simp: le_imp_less_Suc length_dropWhile_le)

definition mk_token :: "nat \<Rightarrow> string \<Rightarrow> string \<Rightarrow> token_kind \<Rightarrow> token" where
  "mk_token n src rest kind =
     \<lparr>tk_kind = kind, tk_span = \<lparr>offset = of_nat (n - length src), len = of_nat (length src - length rest)\<rparr>\<rparr>"

definition lex_fail :: "string \<Rightarrow> usize \<Rightarrow> lex_error + 'a" where
  "lex_fail msg off = Inl \<lparr>le_msg = msg, le_offset = off\<rparr>"

section \<open>Literals and names\<close>

definition digit_value :: "char \<Rightarrow> int" where
  "digit_value c =
     (if is_digit c then byte c - 48 else if 97 \<le> byte c then byte c - 87 else byte c - 55)"

definition read_radix :: "int \<Rightarrow> string \<Rightarrow> int" where
  "read_radix b s = foldl (\<lambda>v c. b * v + digit_value c) 0 s"

text \<open>\<open>i64::from_str_radix\<close> of a non-empty list of digits.\<close>

definition parse_i64 :: "int \<Rightarrow> string \<Rightarrow> int option" where
  "parse_i64 b s = (if read_radix b s < 2 ^ 63 then Some (read_radix b s) else None)"

definition without_underscores :: "string \<Rightarrow> string" where
  "without_underscores s = filter (\<lambda>c. c \<noteq> CHR ''_'') s"

text \<open>\<open>src\<close> starts at the first character of the token, \<open>body\<close> at its first digit.\<close>

definition lex_number :: "nat \<Rightarrow> int \<Rightarrow> (char \<Rightarrow> bool) \<Rightarrow> string \<Rightarrow> string \<Rightarrow> string
    \<Rightarrow> lex_error + token \<times> string" where
  "lex_number n base ok what src body =
     (let lexeme = without_underscores (takeWhile (\<lambda>c. ok c \<or> c = CHR ''_'') body);
          rest = dropWhile (\<lambda>c. ok c \<or> c = CHR ''_'') body
      in case parse_i64 base lexeme of
           Some v \<Rightarrow> Inr (mk_token n src rest (TkInteger v), rest)
         | None \<Rightarrow> lex_fail (''invalid '' @ what @ lexeme) (n - length src))"

definition lex_decimal :: "nat \<Rightarrow> string \<Rightarrow> lex_error + token \<times> string" where
  "lex_decimal n src = lex_number n 10 is_digit ''integer literal: '' src src"

definition lex_hex :: "nat \<Rightarrow> string \<Rightarrow> string \<Rightarrow> lex_error + token \<times> string" where
  "lex_hex n src body =
     (if \<not> is_hexdigit (peek body) then lex_fail ''expected hex digit after 0x'' (n - length src)
      else lex_number n 16 is_hexdigit ''hex literal: 0x'' src body)"

abbreviation is_bindigit :: "char \<Rightarrow> bool" where
  "is_bindigit c \<equiv> c = CHR ''0'' \<or> c = CHR ''1''"

definition lex_binary :: "nat \<Rightarrow> string \<Rightarrow> string \<Rightarrow> lex_error + token \<times> string" where
  "lex_binary n src body =
     (if \<not> is_bindigit (peek body) then lex_fail ''expected binary digit after 0b'' (n - length src)
      else lex_number n 2 (\<lambda>c. is_bindigit c) ''binary literal: 0b'' src body)"

fun unescape :: "char \<Rightarrow> char option" where
  "unescape c =
     (if c = CHR ''n'' then Some (CHR 0x0A) else if c = CHR ''t'' then Some (CHR 0x09)
      else if c = CHR 0x5C then Some (CHR 0x5C) else if c = CHR 0x22 then Some (CHR 0x22) else None)"

fun lex_string_loop :: "nat \<Rightarrow> string \<Rightarrow> string \<Rightarrow> string \<Rightarrow> lex_error + token \<times> string" where
  "lex_string_loop n src chars [] = lex_fail ''unterminated string literal'' (n - length src)"
| "lex_string_loop n src chars (c # r) =
     (if c = CHR 0x22 then Inr (mk_token n src r (TkStringLit chars), r)
      else if c = CHR 0x5C then
        (case r of
           [] \<Rightarrow> lex_fail ''unterminated escape in string'' (n - length src)
         | esc # r' \<Rightarrow>
             (case unescape esc of
                Some v \<Rightarrow> lex_string_loop n src (chars @ [v]) r'
              | None \<Rightarrow> lex_fail (''unknown escape: '' @ [CHR 0x5C] @ utf8_of_byte esc) (n - length r' - 1)))
      else lex_string_loop n src (chars @ utf8_of_byte c) r)"

definition KEYWORDS :: "(string \<times> token_kind) list" where
  "KEYWORDS =
   [(''module'', TkModule), (''import'', TkImport), (''const'', TkConst), (''enum'', TkEnum),
    (''flags'', TkFlags), (''type'', TkType), (''packet'', TkPacket), (''frame'', TkFrame),
    (''capsule'', TkCapsule), (''state'', TkState), (''machine'', TkMachine),
    (''transition'', TkTransition), (''initial'', TkInitial), (''terminal'', TkTerminal),
    (''on'', TkOn), (''guard'', TkGuard), (''action'', TkAction), (''delegate'', TkDelegate),
    (''match'', TkMatch), (''if'', TkIf), (''let'', TkLet), (''require'', TkRequire),
    (''static_assert'', TkStaticAssert), (''within'', TkWithin), (''export'', TkExport),
    (''varint'', TkVarint), (''bytes'', TkBytes), (''bits'', TkBits), (''bit'', TkBit),
    (''fill'', TkFill), (''remaining'', TkRemaining), (''true'', TkTrue), (''false'', TkFalse),
    (''null'', TkNull), (''and'', TkAnd), (''or'', TkOr), (''not'', TkNot), (''in_state'', TkInState),
    (''all'', TkAll)]"

definition name_kind :: "string \<Rightarrow> token_kind" where
  "name_kind lexeme = (case map_of KEYWORDS lexeme of Some k \<Rightarrow> k | None \<Rightarrow> TkName lexeme)"

definition lex_name :: "nat \<Rightarrow> string \<Rightarrow> lex_error + token \<times> string" where
  "lex_name n src =
     (let rest = dropWhile is_name_char src
      in Inr (mk_token n src rest (name_kind (takeWhile is_name_char src)), rest))"

section \<open>The next token\<close>

text \<open>Operators and punctuation: the kind and what is left after the longest match the code tries.\<close>

definition if_next :: "char \<Rightarrow> string \<Rightarrow> token_kind \<times> string \<Rightarrow> token_kind \<times> string \<Rightarrow> token_kind \<times> string" where
  "if_next c r yes no = (if peek r = c then yes else no)"

definition lex_punct :: "char \<Rightarrow> string \<Rightarrow> (token_kind \<times> string) option" where
  "lex_punct c r =
     (if c = CHR ''{'' then Some (TkLBrace, r) else if c = CHR ''}'' then Some (TkRBrace, r)
      else if c = CHR ''('' then Some (TkLParen, r) else if c = CHR '')'' then Some (TkRParen, r)
      else if c = CHR ''['' then Some (TkLBracket, r) else if c = CHR '']'' then Some (TkRBracket, r)
      else if c = CHR '';'' then Some (TkSemicolon, r) else if c = CHR '','' then Some (TkComma, r)
      else if c = CHR ''*'' then Some (TkStar, r) else if c = CHR ''%'' then Some (TkPercent, r)
      else if c = CHR ''^'' then Some (TkCaret, r) else if c = CHR ''@'' then Some (TkAt, r)
      else if c = CHR '':'' then Some (if_next (CHR '':'') r (TkColonColon, tl r) (TkColon, r))
      else if c = CHR ''.'' then
        Some (if_next (CHR ''.'') r (if_next (CHR ''='') (tl r) (TkDotDotEq, tl (tl r)) (TkDotDot, tl r)) (TkDot, r))
      else if c = CHR ''-'' then Some (if_next (CHR ''>'') r (TkArrow, tl r) (TkMinus, r))
      else if c = CHR ''='' then
        Some (if_next (CHR ''>'') r (TkFatArrow, tl r) (if_next (CHR ''='') r (TkEqEq, tl r) (TkAssign, r)))
      else if c = CHR ''+'' then Some (if_next (CHR ''='') r (TkPlusAssign, tl r) (TkPlus, r))
      else if c = CHR ''!'' then Some (if_next (CHR ''='') r (TkBangEq, tl r) (TkBang, r))
      else if c = CHR ''<'' then
        Some (if_next (CHR ''='') r (TkLe, tl r)
          (if_next (CHR ''<'') r (TkShl, tl r) (if_next (CHR ''-'') r (TkLArrow, tl r) (TkLt, r))))
      else if c = CHR ''>'' then
        Some (if_next (CHR ''='') r (TkGe, tl r) (if_next (CHR ''>'') r (TkShr, tl r) (TkGt, r)))
      else if c = CHR ''&'' then Some (TkAmp, r) else if c = CHR ''|'' then Some (TkPipe, r)
      else if c = CHR ''/'' then Some (TkSlash, r)
      else if c = CHR ''~'' then Some (if_next (CHR ''>'') r (TkTildeGt, tl r) (TkTilde, r))
      else None)"

definition next_token :: "nat \<Rightarrow> char \<Rightarrow> string \<Rightarrow> lex_error + token \<times> string" where
  "next_token n c r =
     (let src = c # r; start = n - length src
      in case lex_punct c r of
           Some (kind, rest) \<Rightarrow> Inr (mk_token n src rest kind, rest)
         | None \<Rightarrow>
             if c = CHR ''?'' then
               (if peek r = CHR ''?'' then Inr (mk_token n src (tl r) TkQuestionQuestion, tl r)
                else lex_fail (''unexpected '' @ [CHR 0x27] @ ''?'' @ [CHR 0x27]) start)
             else if c = CHR 0x22 then lex_string_loop n src [] r
             else if c = CHR ''0'' \<and> (peek r = CHR ''x'' \<or> peek r = CHR ''X'') then lex_hex n src (tl r)
             else if c = CHR ''0'' \<and> (peek r = CHR ''b'' \<or> peek r = CHR ''B'') then lex_binary n src (tl r)
             else if is_digit c then lex_decimal n src
             else if is_name_start c then lex_name n src
             else lex_fail (''unexpected character: '' @ debug_char c) start)"

lemma mk_token_simps [simp]: "tk_kind (mk_token n f r k) = k"
  "offset (tk_span (mk_token n f r k)) = of_nat (n - length f)"
  "len (tk_span (mk_token n f r k)) = of_nat (length f - length r)"
  by (simp_all add: mk_token_def)

text \<open>Every token is a non-empty piece of the source, in front of what is left.\<close>

lemma peek_tl: "peek r = c \<Longrightarrow> c \<noteq> CHR 0x00 \<Longrightarrow> r = c # tl r"
  by (cases r) (auto simp: peek_def)

lemma lex_punct_splits: "lex_punct c r = Some (k, rest) \<Longrightarrow> \<exists>t. r = t @ rest"
  using peek_tl [of r] peek_tl [of "tl r"]
  by (auto simp: lex_punct_def if_next_def split: if_splits)

lemma lex_string_splits:
  "lex_string_loop n src chars r = Inr (t, rest) \<Longrightarrow>
    (\<exists>lexeme. r = lexeme @ rest \<and> lexeme \<noteq> []) \<and> (\<exists>k. t = mk_token n src rest k)"
proof (induction n src chars r rule: lex_string_loop.induct)
  case (2 n src chars c r)
  show ?case
  proof (cases "c = CHR 0x22")
    case True
    then show ?thesis using 2 by auto
  next
    case c: False
    show ?thesis
    proof (cases "c = CHR 0x5C")
      case True
      then obtain esc r' v where r: "r = esc # r'" "unescape esc = Some v"
        using 2 c by (auto simp: lex_fail_def split: list.splits option.splits)
      have "lex_string_loop n src (chars @ [v]) r' = Inr (t, rest)"
        using "2.prems" c True r by (simp del: unescape.simps)
      from "2.IH"(1) [OF c True r this] obtain lexeme k where "r' = lexeme @ rest" "t = mk_token n src rest k"
        by blast
      then show ?thesis using r by (intro conjI exI [of _ "c # esc # lexeme"] exI [of _ k]) auto
    next
      case False
      with 2 c obtain lexeme k where "r = lexeme @ rest" "t = mk_token n src rest k" by auto
      then show ?thesis by (intro conjI exI [of _ "c # lexeme"] exI [of _ k]) auto
    qed
  qed
qed (simp add: lex_fail_def)

lemma lex_number_splits:
  "lex_number n b ok what src body = Inr (t, rest) \<Longrightarrow>
    (\<exists>lexeme. body = lexeme @ rest) \<and> (\<exists>k. t = mk_token n src rest k)"
proof -
  assume h: "lex_number n b ok what src body = Inr (t, rest)"
  have "body = takeWhile (\<lambda>c. ok c \<or> c = CHR ''_'') body @ dropWhile (\<lambda>c. ok c \<or> c = CHR ''_'') body" by simp
  then show ?thesis using h by (auto simp: lex_number_def lex_fail_def Let_def simp del: takeWhile_dropWhile_id split: option.splits)
qed

lemma tl_splits: "tl r = u @ rest \<Longrightarrow> \<exists>v. r = v @ rest"
  by (cases r) (auto intro: exI [of _ "_ # u"])

lemma next_token_splits:
  assumes "next_token n c r = Inr (t, rest)"
  shows "\<exists>lexeme k. r = lexeme @ rest \<and> t = mk_token n (c # r) rest k"
proof (cases "lex_punct c r")
  case (Some p)
  then show ?thesis using assms lex_punct_splits [of c r] by (cases p) (auto simp: next_token_def Let_def)
next
  case None
  note h = assms [unfolded next_token_def Let_def None option.case]
  consider (q) "c = CHR ''?''" | (s) "c = CHR 0x22"
    | (x) "lex_hex n (c # r) (tl r) = Inr (t, rest)" | (b) "lex_binary n (c # r) (tl r) = Inr (t, rest)"
    | (d) "is_digit c" "lex_decimal n (c # r) = Inr (t, rest)" | (nm) "is_name_start c" "lex_name n (c # r) = Inr (t, rest)"
    using h by (auto simp: lex_fail_def split: if_splits)
  then show ?thesis
  proof cases
    case q
    then have "peek r = CHR ''?''" "t = mk_token n (c # r) (tl r) TkQuestionQuestion" "rest = tl r"
      using h by (auto simp: lex_fail_def split: if_splits)
    then show ?thesis using peek_tl [of r "CHR ''?''"] by (intro exI [of _ "''?''"]) auto
  next
    case s
    then show ?thesis using h lex_string_splits [of n "c # r" "[]" r t rest] by auto
  next
    case x
    then obtain u k where "tl r = u @ rest" "t = mk_token n (c # r) rest k"
      using lex_number_splits [of n 16 is_hexdigit "''hex literal: 0x''" "c # r" "tl r" t rest]
      by (auto simp: lex_hex_def lex_fail_def split: if_splits)
    then show ?thesis using tl_splits [of r u rest] by blast
  next
    case b
    then obtain u k where "tl r = u @ rest" "t = mk_token n (c # r) rest k"
      using lex_number_splits [of n 2 "\<lambda>c. is_bindigit c" "''binary literal: 0b''" "c # r" "tl r" t rest]
      by (auto simp: lex_binary_def lex_fail_def split: if_splits)
    then show ?thesis using tl_splits [of r u rest] by blast
  next
    case d
    have "dropWhile (\<lambda>c. is_digit c \<or> c = CHR ''_'') (c # r) = dropWhile (\<lambda>c. is_digit c \<or> c = CHR ''_'') r"
      using d by simp
    then obtain lexeme where "r = lexeme @ dropWhile (\<lambda>c. is_digit c \<or> c = CHR ''_'') (c # r)"
      by (metis takeWhile_dropWhile_id)
    then show ?thesis using d(2)
      by (auto simp: lex_decimal_def lex_number_def Let_def lex_fail_def simp del: dropWhile.simps split: option.splits)
  next
    case nm
    have "is_name_char c" using nm(1) by (auto simp: is_name_start_def is_name_char_def)
    then have "dropWhile is_name_char (c # r) = dropWhile is_name_char r" by simp
    then obtain lexeme where "r = lexeme @ dropWhile is_name_char (c # r)" by (metis takeWhile_dropWhile_id)
    then show ?thesis using nm(2) by (auto simp: lex_name_def Let_def simp del: dropWhile.simps)
  qed
qed

section \<open>The token stream\<close>

lemma skip_length: "length (skip_whitespace_and_comments s) \<le> length s"
proof (induction s rule: skip_whitespace_and_comments.induct)
  case (2 c r)
  have "length (dropWhile in_line r) \<le> length r" by (rule length_dropWhile_le)
  with 2 show ?case by (auto intro: le_SucI order_trans)
qed simp

text \<open>The end token carries the position where the loop stopped.\<close>

definition eof_token :: "nat \<Rightarrow> string \<Rightarrow> token" where
  "eof_token n rest = mk_token n rest rest TkEof"

function tokenize_loop :: "nat \<Rightarrow> string \<Rightarrow> token list \<Rightarrow> lex_error + token list" where
  "tokenize_loop n rest tokens =
     (case skip_whitespace_and_comments rest of
        [] \<Rightarrow> Inr (tokens @ [eof_token n []])
      | c # r \<Rightarrow>
          (case next_token n c r of
             Inl e \<Rightarrow> Inl e
           | Inr (t, rest') \<Rightarrow> tokenize_loop n rest' (tokens @ [t])))"
  by pat_completeness auto
termination
proof (relation "measure (\<lambda>(n, rest, tokens). length rest)", goal_cases)
  case (2 n rest tokens c r x t rest')
  then obtain lexeme where "r = lexeme @ rest'" using next_token_splits [of n c r t rest'] by auto
  then have "length rest' < length (c # r)" by simp
  also have "\<dots> \<le> length rest" using skip_length [of rest] 2 by simp
  finally show ?case by simp
qed simp

declare tokenize_loop.simps [simp del]

definition tokenize :: "string \<Rightarrow> lex_error + token list" where
  "tokenize source = tokenize_loop (length source) source []"

section \<open>Tokens tile the source\<close>

definition is_gap :: "string \<Rightarrow> bool" where
  "is_gap g \<longleftrightarrow> skip_whitespace_and_comments g = []"

text \<open>The text before the token at index \<open>i\<close>.\<close>

definition before :: "nat \<Rightarrow> string list \<Rightarrow> string list \<Rightarrow> string" where
  "before i gaps lexemes = concat (map2 (@) (take i gaps) (take i lexemes))"

lemma before_simps [simp]: "before 0 gs ls = []" "before (Suc i) (g # gs) (l # ls) = g @ l @ before i gs ls"
  by (simp_all add: before_def)

lemma skip_gap: "\<exists>g. s = g @ skip_whitespace_and_comments s \<and> is_gap g"
proof (induction s rule: skip_whitespace_and_comments.induct)
  case 1
  then show ?case by (simp add: is_gap_def)
next
  case (2 c r)
  show ?case
  proof (cases "is_blank c")
    case True
    with 2 obtain g where "r = g @ skip_whitespace_and_comments r" "is_gap g" by auto
    then show ?thesis using True by (intro exI [of _ "c # g"]) (auto simp: is_gap_def)
  next
    case blank: False
    show ?thesis
    proof (cases "c = CHR ''#'' \<or> c = CHR ''/'' \<and> peek r = CHR ''/''")
      case True
      let ?d = "dropWhile in_line r" and ?t = "takeWhile in_line r"
      from 2 blank True obtain g where g: "?d = g @ skip_whitespace_and_comments ?d" "is_gap g" by auto
      have r: "r = ?t @ g @ skip_whitespace_and_comments ?d" using g(1) by simp
      have t: "\<forall>x \<in> set ?t. in_line x" by (auto dest: set_takeWhileD)
      have "dropWhile in_line (?t @ g) = g"
      proof (cases g)
        case Nil
        then show ?thesis using t by (simp add: dropWhile_eq_Nil_conv)
      next
        case (Cons h gs)
        then have "?d \<noteq> []" using g(1) by (metis append_Cons list.distinct(1))
        from hd_dropWhile [OF this] have "\<not> in_line (hd ?d)" .
        moreover have "hd ?d = h" using arg_cong [OF g(1), of hd] Cons by simp
        ultimately have "h = CHR 0x0A" by simp
        then show ?thesis using t Cons by (simp add: dropWhile_append2)
      qed
      moreover have "peek (?t @ g) = CHR ''/''" if "peek r = CHR ''/''"
        using that r by (cases r) (auto simp: peek_def split: list.splits if_splits)
      ultimately have "is_gap (c # ?t @ g)" using g(2) True blank by (auto simp: is_gap_def)
      moreover have "c # r = (c # ?t @ g) @ skip_whitespace_and_comments (c # r)" using True blank r by simp
      ultimately show ?thesis by blast
    next
      case False
      then show ?thesis using blank by (intro exI [of _ "[]"]) (auto simp: is_gap_def)
    qed
  qed
qed

text \<open>What the loop appends for the rest of the source, from a position on.\<close>

definition tiling :: "nat \<Rightarrow> string \<Rightarrow> string list \<Rightarrow> string list \<Rightarrow> token list \<Rightarrow> bool" where
  "tiling p rest gaps lexemes ts \<longleftrightarrow>
     length gaps = length ts \<and> length lexemes = length ts \<and> ts \<noteq> [] \<and> tk_kind (last ts) = TkEof
     \<and> rest = concat (map2 (@) gaps lexemes) \<and> list_all is_gap gaps
     \<and> (\<forall>i < length ts.
          offset (tk_span (ts ! i)) = of_nat (p + length (before i gaps lexemes) + length (gaps ! i))
        \<and> len (tk_span (ts ! i)) = of_nat (length (lexemes ! i))
        \<and> (lexemes ! i = [] \<longleftrightarrow> Suc i = length ts))"

lemma tiling_Cons:
  assumes "tiling (p + length g + length l) rest gs ls ts" "is_gap g" "l \<noteq> []"
    "offset (tk_span t) = of_nat (p + length g)" "len (tk_span t) = of_nat (length l)"
  shows "tiling p (g @ l @ rest) (g # gs) (l # ls) (t # ts)"
  unfolding tiling_def
proof (intro conjI allI impI)
  fix i assume i: "i < length (t # ts)"
  note a = assms(1) [unfolded tiling_def]
  show "offset (tk_span ((t # ts) ! i)) = of_nat (p + length (before i (g # gs) (l # ls)) + length ((g # gs) ! i))"
    using i a assms(4) by (cases i) (auto simp: ac_simps)
  show "len (tk_span ((t # ts) ! i)) = of_nat (length ((l # ls) ! i))" using i a assms(5) by (cases i) auto
  show "(l # ls) ! i = [] \<longleftrightarrow> Suc i = length (t # ts)" using i a assms(3) by (cases i) auto
qed (use assms in \<open>simp_all add: tiling_def\<close>)

lemma tokenize_loop_tiling:
  "tokenize_loop n rest acc = Inr ts \<Longrightarrow> length rest \<le> n \<Longrightarrow>
    \<exists>gaps lexemes new. ts = acc @ new \<and> tiling (n - length rest) rest gaps lexemes new"
proof (induction n rest acc arbitrary: ts rule: tokenize_loop.induct)
  case (1 n rest acc)
  obtain g where g: "rest = g @ skip_whitespace_and_comments rest" "is_gap g" using skip_gap by blast
  show ?case
  proof (cases "skip_whitespace_and_comments rest")
    case Nil
    then have "ts = acc @ [eof_token n []]" using "1.prems"(1) by (subst (asm) tokenize_loop.simps) simp
    moreover have "tiling (n - length rest) rest [g] [[]] [eof_token n []]"
      using g Nil "1.prems"(2) by (simp add: tiling_def eof_token_def before_def)
    ultimately show ?thesis by blast
  next
    case (Cons c r)
    obtain t rest' where t: "next_token n c r = Inr (t, rest')" "tokenize_loop n rest' (acc @ [t]) = Inr ts"
      using "1.prems"(1) Cons by (subst (asm) tokenize_loop.simps) (auto split: sum.splits)
    from next_token_splits [OF t(1)] obtain l k where l: "r = l @ rest'" "t = mk_token n (c # r) rest' k" by blast
    have rest: "rest = g @ (c # l) @ rest'" using g(1) Cons l(1) by simp
    then have le: "length rest' \<le> n" using "1.prems"(2) by simp
    from "1.IH" [OF Cons t(1) refl t(2) le] obtain gs ls new where
      new: "ts = (acc @ [t]) @ new" "tiling (n - length rest') rest' gs ls new" by blast
    have "n - length rest' = n - length rest + length g + length (c # l)" using "1.prems"(2) rest by simp
    then have "tiling (n - length rest) (g @ (c # l) @ rest') (g # gs) ((c # l) # ls) (t # new)"
      using new(2) g(2) "1.prems"(2) rest l by (intro tiling_Cons) simp_all
    then have "ts = acc @ t # new \<and> tiling (n - length rest) rest (g # gs) ((c # l) # ls) (t # new)"
      unfolding rest [symmetric] new(1) by simp
    then show ?thesis by (intro exI)
  qed
qed

text \<open>C18. The tokens of a source tile it: the source is the concatenation of gaps that hold only blanks
  and comments, and of the lexemes of its tokens; each token's span is the position and length of its lexeme;
  and the only token without text is the end marker, which is the last one.\<close>

theorem tokens_tile_source:
  assumes "tokenize source = Inr ts"
  shows "\<exists>gaps lexemes. length gaps = length ts \<and> length lexemes = length ts
    \<and> ts \<noteq> [] \<and> tk_kind (last ts) = TkEof
    \<and> source = concat (map2 (@) gaps lexemes) \<and> list_all is_gap gaps
    \<and> (\<forall>i < length ts.
          offset (tk_span (ts ! i)) = of_nat (length (before i gaps lexemes) + length (gaps ! i))
        \<and> len (tk_span (ts ! i)) = of_nat (length (lexemes ! i))
        \<and> (lexemes ! i = [] \<longleftrightarrow> Suc i = length ts))"
  using tokenize_loop_tiling [of "length source" source "[]" ts] assms by (simp add: tokenize_def tiling_def)

theorem tokens_tile_source_witness:
  "\<exists>ts gaps lexemes. tokenize ''x = 1'' = Inr ts \<and> length gaps = 4 \<and> length lexemes = length ts
    \<and> ''x = 1'' = concat (map2 (@) gaps lexemes)"
proof -
  have "case tokenize ''x = 1'' of Inr ts \<Rightarrow> length ts = 4 | Inl e \<Rightarrow> False" by code_simp
  then obtain ts where ts: "tokenize ''x = 1'' = Inr ts" "length ts = 4" by (auto split: sum.splits)
  show ?thesis using tokens_tile_source [OF ts(1)] ts by metis
qed

section \<open>Printing and reading back\<close>

definition PUNCTUATION :: "(token_kind \<times> string) list" where
  "PUNCTUATION =
   [(TkLBrace, ''{''), (TkRBrace, ''}''), (TkLParen, ''(''), (TkRParen, '')''), (TkLBracket, ''[''),
    (TkRBracket, '']''), (TkColon, '':''), (TkColonColon, ''::''), (TkSemicolon, '';''),
    (TkComma, '',''), (TkDot, ''.''), (TkDotDot, ''..''), (TkDotDotEq, ''..=''), (TkArrow, ''->''),
    (TkFatArrow, ''=>''), (TkAssign, ''=''), (TkPlusAssign, ''+=''), (TkAt, ''@''), (TkLArrow, ''<-''),
    (TkPlus, ''+''), (TkMinus, ''-''), (TkStar, ''*''), (TkSlash, ''/''), (TkPercent, ''%''),
    (TkAmp, ''&''), (TkPipe, ''|''), (TkCaret, ''^''), (TkShl, ''<<''), (TkShr, ''>>''),
    (TkBang, ''!''), (TkEqEq, ''==''), (TkBangEq, ''!=''), (TkLt, ''<''), (TkLe, ''<=''), (TkGt, ''>''),
    (TkGe, ''>=''), (TkQuestionQuestion, ''??''), (TkTilde, ''~''), (TkTildeGt, ''~>'')]"

definition escape_char :: "char \<Rightarrow> string" where
  "escape_char c =
     (if c = CHR 0x0A then [CHR 0x5C, CHR ''n''] else if c = CHR 0x09 then [CHR 0x5C, CHR ''t'']
      else if c = CHR 0x5C then [CHR 0x5C, CHR 0x5C] else if c = CHR 0x22 then [CHR 0x5C, CHR 0x22] else [c])"

definition fixed_text :: "token_kind \<Rightarrow> string" where
  "fixed_text k =
     (case map_of PUNCTUATION k of Some s \<Rightarrow> s
      | None \<Rightarrow> (case map_of (map prod.swap KEYWORDS) k of Some s \<Rightarrow> s | None \<Rightarrow> []))"

fun token_text :: "token_kind \<Rightarrow> string" where
  "token_text (TkName s) = s"
| "token_text (TkInteger i) = show_nat (nat i)"
| "token_text (TkStringLit s) = CHR 0x22 # concat (map escape_char s) @ [CHR 0x22]"
| "token_text k = fixed_text k"

text \<open>The tokens a source can express: names that are no keywords, integers that fit, ASCII strings.\<close>

fun printable :: "token_kind \<Rightarrow> bool" where
  "printable (TkName s) = (s \<noteq> [] \<and> is_name_start (hd s) \<and> list_all is_name_char s \<and> map_of KEYWORDS s = None)"
| "printable (TkInteger i) = (0 \<le> i \<and> i < 2 ^ 63)"
| "printable (TkStringLit s) = list_all (\<lambda>c. byte c < 128) s"
| "printable TkEof = False"
| "printable k = True"

definition print_tokens :: "token_kind list \<Rightarrow> string" where
  "print_tokens ks = concat (map (\<lambda>k. token_text k @ '' '') ks)"

lemma name_start_char: "is_name_start c \<Longrightarrow> is_name_char c"
  by (auto simp: is_name_start_def is_name_char_def)

lemma not_name_char: "\<not> is_name_char (CHR '' '')"
  by code_simp

definition specials :: string where
  "specials = ''{}()[];,*%^@:.-=+!<>&|/~?# '' @ [CHR 0x09, CHR 0x0D, CHR 0x0A]"

lemma specials_apart: "list_all (\<lambda>c. \<not> is_name_start c \<and> \<not> is_digit c \<and> c \<noteq> CHR 0x22) specials"
  by code_simp

lemma not_special: "c \<notin> set specials \<Longrightarrow> lex_punct c r = None \<and> c \<noteq> CHR ''?'' \<and> \<not> is_blank c \<and> c \<noteq> CHR ''#'' \<and> c \<noteq> CHR ''/''"
  by (simp add: specials_def lex_punct_def is_blank_def)

lemma blank_not_special:
  "is_name_start c \<or> is_digit c \<or> c = CHR 0x22 \<Longrightarrow> lex_punct c r = None \<and> c \<noteq> CHR ''?'' \<and> \<not> is_blank c \<and> c \<noteq> CHR ''#'' \<and> c \<noteq> CHR ''/''"
  by (rule not_special) (use specials_apart in \<open>auto simp: list_all_iff\<close>)

lemma name_start_not_digit: "is_name_start c \<Longrightarrow> \<not> is_digit c \<and> c \<noteq> CHR 0x22 \<and> c \<noteq> CHR ''0''"
  by (auto simp: is_name_start_def is_alphabetic_def is_digit_def)

text \<open>What the lexer makes of the text of one token in front of a blank.\<close>

definition reads :: "nat \<Rightarrow> token_kind \<Rightarrow> string \<Rightarrow> bool" where
  "reads n k text_of \<longleftrightarrow>
     (\<forall>rest. case text_of of
        [] \<Rightarrow> False
      | c # r \<Rightarrow> skip_whitespace_and_comments (text_of @ '' '' @ rest) = text_of @ '' '' @ rest
          \<and> (\<exists>t. next_token n c (r @ '' '' @ rest) = Inr (t, '' '' @ rest) \<and> tk_kind t = k))"

lemma reads_name:
  assumes "s \<noteq> []" "is_name_start (hd s)" "list_all is_name_char s"
  shows "reads n (name_kind s) s"
proof -
  obtain c r where s: "s = c # r" using assms(1) by (cases s) auto
  have all: "\<forall>x \<in> set s. is_name_char x" using assms(3) by (simp add: list_all_iff)
  have tw: "takeWhile is_name_char (s @ '' '' @ rest) = s" "dropWhile is_name_char (s @ '' '' @ rest) = '' '' @ rest" for rest
    using all not_name_char by (simp_all add: takeWhile_append2 dropWhile_append2)
  have c: "is_name_start c" using assms(2) s by simp
  have "next_token n c (r @ '' '' @ rest) = lex_name n (s @ '' '' @ rest)" for rest
    using blank_not_special [of c] name_start_not_digit [OF c] c s by (simp add: next_token_def Let_def)
  then show ?thesis using blank_not_special [of c] c s tw unfolding reads_def lex_name_def Let_def by simp
qed

lemma digits_of_show_nat: "list_all is_digit (show_nat m) \<and> read_radix 10 (show_nat m) = int m"
proof (induction m rule: show_nat.induct)
  case (1 m)
  have "list_all (\<lambda>d. is_digit (digit d) \<and> digit_value (digit d) = int d) [0 ..< 10]" by code_simp
  then have d: "d < 10 \<Longrightarrow> is_digit (digit d) \<and> digit_value (digit d) = int d" for d :: nat
    by (simp add: list_all_iff)
  show ?case
  proof (cases "m < 10")
    case True
    then show ?thesis using d [OF True] by (subst (1 2) show_nat.simps) (simp add: read_radix_def)
  next
    case False
    have "read_radix 10 (show_nat m) = 10 * read_radix 10 (show_nat (m div 10)) + digit_value (digit (m mod 10))"
      using False by (subst show_nat.simps) (simp add: read_radix_def)
    moreover have "list_all is_digit (show_nat m)"
      using 1 [OF False] d [of "m mod 10"] False by (subst show_nat.simps) simp
    moreover have "10 * int (m div 10) + int (m mod 10) = int m" by presburger
    ultimately show ?thesis using 1 [OF False] d [of "m mod 10"] by simp
  qed
qed

lemma digit_not_other: "is_digit c \<Longrightarrow> c \<noteq> CHR ''_'' \<and> c \<noteq> CHR ''x'' \<and> c \<noteq> CHR ''X'' \<and> c \<noteq> CHR ''b'' \<and> c \<noteq> CHR ''B'' \<and> c \<noteq> CHR 0x22 \<and> c \<noteq> CHR ''?''"
  by (auto simp: is_digit_def)

lemma reads_integer:
  assumes "0 \<le> i" "i < 2 ^ 63"
  shows "reads n (TkInteger i) (show_nat (nat i))"
proof -
  let ?s = "show_nat (nat i)" and ?ok = "\<lambda>c. is_digit c \<or> c = CHR ''_''"
  note dig = digits_of_show_nat [of "nat i"]
  obtain c r where s: "?s = c # r" using show_nat_nonempty [of "nat i"] by (cases ?s) auto
  have all: "\<forall>x \<in> set ?s. is_digit x" using dig by (simp add: list_all_iff)
  have blank: "\<not> ?ok (CHR '' '')" by (simp add: is_digit_def)
  have tw: "takeWhile ?ok (?s @ '' '' @ rest) = ?s" "dropWhile ?ok (?s @ '' '' @ rest) = '' '' @ rest" for rest
    using all blank by (simp_all add: takeWhile_append2 dropWhile_append2)
  have wu: "without_underscores ?s = ?s"
    unfolding without_underscores_def using all digit_not_other by (intro filter_True) blast
  have p: "parse_i64 10 ?s = Some i" using dig assms by (simp add: parse_i64_def)
  have c: "is_digit c" using all s by simp
  have pk: "peek (r @ '' '' @ rest) \<noteq> CHR ''x'' \<and> peek (r @ '' '' @ rest) \<noteq> CHR ''X''
      \<and> peek (r @ '' '' @ rest) \<noteq> CHR ''b'' \<and> peek (r @ '' '' @ rest) \<noteq> CHR ''B''" for rest
  proof (cases r)
    case Nil
    then show ?thesis by (simp add: peek_def)
  next
    case (Cons d r')
    then have "is_digit d" using all s by simp
    then show ?thesis using Cons digit_not_other [of d] by (simp add: peek_def)
  qed
  have "next_token n c (r @ '' '' @ rest) = lex_decimal n (?s @ '' '' @ rest)" for rest
    using blank_not_special [of c] digit_not_other [OF c] c s pk [of rest] by (simp add: next_token_def Let_def)
  then have "next_token n c (r @ '' '' @ rest)
      = Inr (mk_token n (?s @ '' '' @ rest) ('' '' @ rest) (TkInteger i), '' '' @ rest)" for rest
    unfolding lex_decimal_def lex_number_def Let_def tw wu p by simp
  moreover have "skip_whitespace_and_comments (?s @ '' '' @ rest) = ?s @ '' '' @ rest" for rest
    using blank_not_special [of c] c s by simp
  ultimately show ?thesis unfolding reads_def s list.case by simp
qed

lemma lex_string_escape:
  "list_all (\<lambda>c. byte c < 128) s \<Longrightarrow>
    lex_string_loop n src acc (concat (map escape_char s) @ CHR 0x22 # rest)
      = Inr (mk_token n src rest (TkStringLit (acc @ s)), rest)"
proof (induction s arbitrary: acc)
  case (Cons c s)
  then show ?case by (auto simp: escape_char_def utf8_of_byte_def)
qed simp

lemma reads_string:
  assumes "list_all (\<lambda>c. byte c < 128) s"
  shows "reads n (TkStringLit s) (token_text (TkStringLit s))"
  using lex_string_escape [OF assms, of n _ "[]"] blank_not_special [of "CHR 0x22"]
  by (simp add: reads_def next_token_def Let_def)

lemma reads_punctuation: "(k, s) \<in> set PUNCTUATION \<Longrightarrow> reads n k s"
  unfolding PUNCTUATION_def
  by (auto simp: reads_def next_token_def Let_def lex_punct_def if_next_def peek_def is_blank_def)

lemma keywords_are_names:
  "list_all (\<lambda>(s, k). s \<noteq> [] \<and> is_name_start (hd s) \<and> list_all is_name_char s \<and> name_kind s = k) KEYWORDS"
  by code_simp

lemma reads_keyword: "(s, k) \<in> set KEYWORDS \<Longrightarrow> reads n k s"
  using keywords_are_names reads_name [of s n] by (force simp: list_all_iff)

lemma fixed_kinds:
  "printable k \<Longrightarrow> (\<exists>s. k = TkName s) \<or> (\<exists>i. k = TkInteger i) \<or> (\<exists>s. k = TkStringLit s)
    \<or> token_text k = fixed_text k \<and> k \<in> set (map fst PUNCTUATION @ map snd KEYWORDS)"
  by (cases k) (simp_all add: PUNCTUATION_def KEYWORDS_def)

lemma token_text_reads: "printable k \<Longrightarrow> reads n k (token_text k)"
proof -
  assume p: "printable k"
  have keys: "map_of PUNCTUATION k = Some s \<Longrightarrow> reads n k s"
    "map_of (map prod.swap KEYWORDS) k = Some s \<Longrightarrow> reads n k s" for s
    using reads_punctuation [of k s n] reads_keyword [of s k n] by (auto dest!: map_of_SomeD)
  consider (nm) s where "k = TkName s" | (num) i where "k = TkInteger i" | (str) s where "k = TkStringLit s"
    | (fixed) "token_text k = fixed_text k" "k \<in> set (map fst PUNCTUATION @ map snd KEYWORDS)"
    using fixed_kinds [OF p] by blast
  then show ?thesis
  proof cases
    case nm
    then show ?thesis using p reads_name [of s n] by (simp add: name_kind_def)
  next
    case num
    then show ?thesis using p reads_integer by simp
  next
    case str
    then show ?thesis using p reads_string by simp
  next
    case fixed
    have "map_of PUNCTUATION k \<noteq> None \<or> map_of (map prod.swap KEYWORDS) k \<noteq> None"
      using fixed(2) by (auto simp: map_of_eq_None_iff image_iff)
    then show ?thesis using keys unfolding fixed(1) fixed_text_def by (auto split: option.splits)
  qed
qed

lemma tokenize_printed:
  "list_all printable ks \<Longrightarrow>
    \<exists>ts. tokenize_loop n (print_tokens ks) acc = Inr (acc @ ts) \<and> map tk_kind ts = ks @ [TkEof]"
proof (induction ks arbitrary: acc)
  case Nil
  then show ?case by (subst tokenize_loop.simps) (simp add: print_tokens_def eof_token_def)
next
  case (Cons k ks)
  let ?rest = "print_tokens ks"
  have pr: "print_tokens (k # ks) = token_text k @ '' '' @ ?rest" by (simp add: print_tokens_def)
  have "reads n k (token_text k)" using Cons.prems token_text_reads by simp
  then obtain c r t where t: "token_text k = c # r"
    "skip_whitespace_and_comments (token_text k @ '' '' @ ?rest) = c # r @ '' '' @ ?rest"
    "next_token n c (r @ '' '' @ ?rest) = Inr (t, '' '' @ ?rest)" "tk_kind t = k"
    unfolding reads_def by (cases "token_text k") fastforce+
  have sk: "skip_whitespace_and_comments (print_tokens (k # ks)) = c # r @ '' '' @ ?rest"
    unfolding pr by (rule t(2))
  have "tokenize_loop n (print_tokens (k # ks)) acc = tokenize_loop n ('' '' @ ?rest) (acc @ [t])"
    by (subst tokenize_loop.simps) (simp only: sk list.case t(3) sum.case prod.case)
  also have "\<dots> = tokenize_loop n ?rest (acc @ [t])"
    by (subst (1 2) tokenize_loop.simps) (simp add: is_blank_def)
  finally show ?case using Cons.IH [of "acc @ [t]"] Cons.prems t(4) by fastforce
qed

text \<open>C0. Printing and reading back: a list of tokens printed with a blank after each one is tokenized to
  the same kinds and the end marker, for every keyword, operator, name that is no keyword, integer from
  0 to \<open>2 ^ 63 - 1\<close>, and ASCII string with its escapes.\<close>

theorem tokenize_roundtrip:
  assumes "list_all printable ks"
  shows "\<exists>ts. tokenize (print_tokens ks) = Inr ts \<and> map tk_kind ts = ks @ [TkEof]"
  using tokenize_printed [OF assms, of "length (print_tokens ks)" "[]"] by (simp add: tokenize_def)

theorem tokenize_roundtrip_witness:
  "\<exists>ts. tokenize (print_tokens [TkPacket, TkName ''P'', TkLBrace, TkInteger 42, TkShl, TkRBrace]) = Inr ts
    \<and> map tk_kind ts = [TkPacket, TkName ''P'', TkLBrace, TkInteger 42, TkShl, TkRBrace, TkEof]"
proof -
  have "list_all printable [TkPacket, TkName ''P'', TkLBrace, TkInteger 42, TkShl, TkRBrace]" by code_simp
  from tokenize_roundtrip [OF this] show ?thesis by simp
qed

text \<open>A string literal with a character outside ASCII is not read back as written: each byte of its UTF-8
  form is pushed as a character of its own, so that two bytes become four.\<close>

lemma string_literal_mojibake:
  "case tokenize [CHR 0x22, CHR 0xC3, CHR 0xA9, CHR 0x22] of
     Inr ts \<Rightarrow> map tk_kind ts = [TkStringLit [CHR 0xC3, CHR 0x83, CHR 0xC2, CHR 0xA9], TkEof]
   | Inl e \<Rightarrow> False"
  by code_simp

end
