(* ===== verification/Parser.thy ===== *)
theory Parser
  imports Lexer
begin

text \<open>
  The recursive-descent parser, \<open>crates/wirespec-syntax/src/parser.rs\<close>. The state of a parser is the list of
  the tokens still to be read; restoring a saved position is going back to an earlier list. A parser
  returns a value and the tokens left, or fails: with a \<open>ParseError\<close>, with a panic when it indexes
  past the last token, or out of fuel. Loops and the recursion of expressions, types and formulas carry fuel: the number of
  tokens left and one more. The arguments of \<open>format!\<close> in a message are kept as data.
\<close>

section \<open>Parsers\<close>

text \<open>\<open>MExpected a b\<close> prints as \<open>expected {a:?}, found {b:?}\<close>, \<open>MFound w b\<close> as \<open>w\<close> and then \<open>{b:?}\<close>.\<close>

datatype parse_msg = MExpected token_kind token_kind | MFound string token_kind | MText string

record parse_error =
  pe_msg :: parse_msg
  pe_span :: "span option"

datatype parse_failure = PErr parse_error | PPanic | PFuel

type_synonym 'a parser = "token list \<Rightarrow> parse_failure + 'a \<times> token list"

definition preturn :: "'a \<Rightarrow> 'a parser" where
  "preturn x = (\<lambda>ts. Inr (x, ts))"

definition pbind :: "'a parser \<Rightarrow> ('a \<Rightarrow> 'b parser) \<Rightarrow> 'b parser" where
  "pbind m f = (\<lambda>ts. case m ts of Inl e \<Rightarrow> Inl e | Inr (x, ts') \<Rightarrow> f x ts')"

text \<open>A loop: the body says whether to go on with a new state or to stop with a result.\<close>

fun ploop :: "nat \<Rightarrow> ('s \<Rightarrow> ('s + 'r) parser) \<Rightarrow> 's \<Rightarrow> 'r parser" where
  "ploop 0 body s = (\<lambda>ts. Inl PFuel)"
| "ploop (Suc n) body s =
     pbind (body s) (\<lambda>r. case r of Inl s' \<Rightarrow> ploop n body s' | Inr x \<Rightarrow> preturn x)"

definition prepeat :: "('s \<Rightarrow> ('s + 'r) parser) \<Rightarrow> 's \<Rightarrow> 'r parser" where
  "prepeat body s = (\<lambda>ts. ploop (Suc (length ts)) body s ts)"

abbreviation go_on :: "'s \<Rightarrow> ('s + 'r) parser" where
  "go_on s \<equiv> preturn (Inl s)"

abbreviation stop :: "'r \<Rightarrow> ('s + 'r) parser" where
  "stop r \<equiv> preturn (Inr r)"

section \<open>Helpers\<close>

definition p_peek :: "token_kind parser" where
  "p_peek = (\<lambda>ts. case ts of [] \<Rightarrow> Inl PPanic | t # r \<Rightarrow> Inr (tk_kind t, ts))"

text \<open>\<open>self.tokens[self.pos + 1].kind\<close>\<close>

definition p_peek_second :: "token_kind parser" where
  "p_peek_second = (\<lambda>ts. case ts of t # u # r \<Rightarrow> Inr (tk_kind u, ts) | _ \<Rightarrow> Inl PPanic)"

definition p_span :: "span parser" where
  "p_span = (\<lambda>ts. case ts of [] \<Rightarrow> Inl PPanic | t # r \<Rightarrow> Inr (tk_span t, ts))"

text \<open>The kinds that \<open>at\<close> is called with carry no data, so that equal discriminants are equal kinds.\<close>

definition p_at :: "token_kind \<Rightarrow> bool parser" where
  "p_at kind = (\<lambda>ts. case ts of [] \<Rightarrow> Inl PPanic | t # r \<Rightarrow> Inr (tk_kind t = kind, ts))"

definition p_advance :: "token parser" where
  "p_advance = (\<lambda>ts. case ts of [] \<Rightarrow> Inl PPanic | t # r \<Rightarrow> Inr (t, if tk_kind t = TkEof then ts else r))"

definition p_error :: "parse_msg \<Rightarrow> 'a parser" where
  "p_error msg = (\<lambda>ts. case ts of [] \<Rightarrow> Inl PPanic | t # r \<Rightarrow> Inl (PErr \<lparr>pe_msg = msg, pe_span = Some (tk_span t)\<rparr>))"

definition expect :: "token_kind \<Rightarrow> token parser" where
  "expect kind =
     pbind (p_at kind) (\<lambda>here.
     if here then p_advance else pbind p_peek (\<lambda>found.
       p_error (MExpected kind found)))"

definition eat :: "token_kind \<Rightarrow> bool parser" where
  "eat kind = pbind (p_at kind) (\<lambda>here.
     if here then pbind p_advance (\<lambda>_. preturn True) else preturn False)"

definition NAME_KEYWORDS :: "(token_kind \<times> string) list" where
  "NAME_KEYWORDS =
   [(TkModule, ''module''), (TkImport, ''import''), (TkConst, ''const''), (TkEnum, ''enum''),
    (TkFlags, ''flags''), (TkType, ''type''), (TkPacket, ''packet''), (TkFrame, ''frame''),
    (TkCapsule, ''capsule''), (TkState, ''state''), (TkMachine, ''machine''),
    (TkTransition, ''transition''), (TkInitial, ''initial''), (TkTerminal, ''terminal''),
    (TkOn, ''on''), (TkGuard, ''guard''), (TkAction, ''action''), (TkDelegate, ''delegate''),
    (TkMatch, ''match''), (TkIf, ''if''), (TkLet, ''let''), (TkRequire, ''require''),
    (TkStaticAssert, ''static_assert''), (TkWithin, ''within''), (TkExport, ''export''),
    (TkVarint, ''varint''), (TkBytes, ''bytes''), (TkBits, ''bits''), (TkBit, ''bit''),
    (TkFill, ''fill''), (TkRemaining, ''remaining''), (TkAnd, ''and''), (TkOr, ''or''),
    (TkNot, ''not''), (TkInState, ''in_state''), (TkAll, ''all'')]"

definition kind_as_name :: "token_kind \<Rightarrow> string option" where
  "kind_as_name k = (case k of TkName n \<Rightarrow> Some n | _ \<Rightarrow> map_of NAME_KEYWORDS k)"

definition token_as_name :: "string option parser" where
  "token_as_name = pbind p_peek (\<lambda>k.
     preturn (kind_as_name k))"

definition expect_name :: "(string \<times> span) parser" where
  "expect_name =
     pbind p_span (\<lambda>sp. pbind token_as_name (\<lambda>nm.
     case nm of
       Some name \<Rightarrow> pbind p_advance (\<lambda>_. preturn (name, sp))
     | None \<Rightarrow> pbind p_peek (\<lambda>found. p_error (MFound ''expected identifier, found '' found))))"

definition expect_name_or_keyword :: "(string \<times> span) parser" where
  "expect_name_or_keyword = expect_name"

definition p_name :: "string parser" where
  "p_name = pbind expect_name (\<lambda>n.
     preturn (fst n))"

text \<open>The payload of a token, for the \<open>match\<close>es and \<open>if let\<close>s on it.\<close>

definition lit_name :: "token_kind \<Rightarrow> string option" where
  "lit_name k = (case k of TkName n \<Rightarrow> Some n | _ \<Rightarrow> None)"

definition lit_int :: "token_kind \<Rightarrow> int option" where
  "lit_int k = (case k of TkInteger i \<Rightarrow> Some i | _ \<Rightarrow> None)"

definition lit_string :: "token_kind \<Rightarrow> string option" where
  "lit_string k = (case k of TkStringLit s \<Rightarrow> Some s | _ \<Rightarrow> None)"

text \<open>Consume the current token and return.\<close>

definition take_token :: "'a \<Rightarrow> 'a parser" where
  "take_token x = pbind p_advance (\<lambda>_. preturn x)"

definition parse_type_ref_name :: "string parser" where
  "parse_type_ref_name =
     pbind token_as_name (\<lambda>nm.
     case nm of
       Some name \<Rightarrow> take_token name
     | None \<Rightarrow> pbind p_peek (\<lambda>found. p_error (MFound ''expected type name, found '' found)))"

definition parse_integer :: "int parser" where
  "parse_integer =
     pbind p_peek (\<lambda>k.
     case lit_int k of Some v \<Rightarrow> take_token v | None \<Rightarrow> p_error (MFound ''expected integer, found '' k))"

text \<open>The literals of annotations and of values; the two callers add the rest.\<close>

definition literal_of :: "token_kind \<Rightarrow> ast_literal_value option" where
  "literal_of k =
     (if k = TkTrue then Some (LBool True) else if k = TkFalse then Some (LBool False)
      else case lit_int k of Some v \<Rightarrow> Some (LInt v) | None \<Rightarrow> map_option LString (lit_string k))"

definition parse_literal_value :: "ast_literal_value parser" where
  "parse_literal_value =
     pbind p_peek (\<lambda>k.
     if k = TkNull then take_token LNull
     else case literal_of k of
            Some v \<Rightarrow> take_token v
          | None \<Rightarrow> p_error (MFound ''expected literal, found '' k))"

text \<open>\<open>while !at(kind) { item; eat(sep); }\<close>\<close>

definition items_until :: "token_kind \<Rightarrow> token_kind \<Rightarrow> 'a parser \<Rightarrow> 'a list parser" where
  "items_until kind sep item =
     prepeat (\<lambda>xs. pbind (p_at kind) (\<lambda>done.
     if done then stop xs
       else pbind item (\<lambda>x. pbind (eat sep) (\<lambda>_. go_on (xs @ [x]))))) []"

text \<open>\<open>while eat(sep) { item }\<close>\<close>

definition items_after :: "token_kind \<Rightarrow> 'a parser \<Rightarrow> 'a list \<Rightarrow> 'a list parser" where
  "items_after sep item start =
     prepeat (\<lambda>xs. pbind (eat sep) (\<lambda>more.
     if more then pbind item (\<lambda>x. go_on (xs @ [x])) else stop xs)) start"

section \<open>Expressions\<close>

text \<open>One level of left-associative operators over the next tighter level.\<close>

definition binary_step :: "(token_kind \<times> binop) list \<Rightarrow> ast_expr parser \<Rightarrow> span
    \<Rightarrow> ast_expr \<Rightarrow> (ast_expr + ast_expr) parser" where
  "binary_step ops sub start left =
     pbind p_peek (\<lambda>k.
     case map_of ops k of
       None \<Rightarrow> stop left
     | Some op \<Rightarrow> pbind p_advance (\<lambda>_. pbind sub (\<lambda>right. go_on (EBinary op left right (Some start)))))"

definition left_assoc :: "(token_kind \<times> binop) list \<Rightarrow> ast_expr parser \<Rightarrow> ast_expr parser" where
  "left_assoc ops sub =
     pbind p_span (\<lambda>start. pbind sub (\<lambda>first.
     prepeat (binary_step ops sub start) first))"

definition parse_primary_expr :: "ast_expr parser \<Rightarrow> ast_expr parser" where
  "parse_primary_expr pe =
     pbind p_span (\<lambda>start. pbind p_peek (\<lambda>k.
     case lit_int k of
       Some v \<Rightarrow> take_token (EInt v (Some start))
     | None \<Rightarrow>
     if k = TkTrue then take_token (EBool True (Some start))
     else if k = TkFalse then take_token (EBool False (Some start))
     else if k = TkNull then take_token (ENull (Some start))
     else if k = TkLParen then pbind p_advance (\<lambda>_. pbind pe (\<lambda>e. pbind (expect TkRParen) (\<lambda>_.
       preturn e)))
     else if k = TkFill then
       pbind p_advance (\<lambda>_. pbind (expect TkLParen) (\<lambda>_. pbind pe (\<lambda>v.
       pbind (expect TkComma) (\<lambda>_. pbind pe (\<lambda>c.
       pbind (expect TkRParen) (\<lambda>_.
       preturn (EFill v c (Some start))))))))
     else if k = TkAll then
       pbind p_advance (\<lambda>_. pbind (expect TkLParen) (\<lambda>_. pbind pe (\<lambda>c.
       pbind (expect TkComma) (\<lambda>_. pbind (expect TkInState) (\<lambda>_.
       pbind (expect TkLParen) (\<lambda>_. pbind p_name (\<lambda>n.
       pbind (expect TkRParen) (\<lambda>_. pbind (expect TkRParen) (\<lambda>_.
       preturn (EAll c n (Some start)))))))))))
     else (case kind_as_name k of
       None \<Rightarrow> p_error (MFound ''expected expression, found '' k)
     | Some name \<Rightarrow>
         pbind p_advance (\<lambda>_. pbind (p_at TkColonColon) (\<lambda>ctor.
       if \<not> ctor then preturn (ENameRef name (Some start))
         else
           pbind p_advance (\<lambda>_. pbind p_name (\<lambda>state_name.
         pbind (eat TkLParen) (\<lambda>open.
         if \<not> open then preturn (EStateConstructor name state_name [] (Some start))
           else
             pbind (p_at TkRParen) (\<lambda>empty.
           pbind (if empty then preturn [] else pbind pe (\<lambda>x. items_after TkComma pe [x])) (\<lambda>args.
           pbind (expect TkRParen) (\<lambda>_.
           preturn (EStateConstructor name state_name args (Some start)))))))))))))"

definition postfix_step :: "ast_expr parser \<Rightarrow> span \<Rightarrow> ast_expr \<Rightarrow> (ast_expr + ast_expr) parser" where
  "postfix_step pe start expr =
     pbind p_peek (\<lambda>k.
     if k = TkDot then
       pbind p_advance (\<lambda>_. pbind expect_name_or_keyword (\<lambda>n.
       go_on (EMemberAccess expr (fst n) (Some start))))
     else if k = TkLBracket then
       pbind p_advance (\<lambda>_. pbind pe (\<lambda>index.
       pbind (eat TkDotDot) (\<lambda>slice_to.
       if slice_to
       then pbind pe (\<lambda>e. pbind (expect TkRBracket) (\<lambda>_.
         go_on (ESlice expr index e (Some start))))
       else pbind (expect TkRBracket) (\<lambda>_.
         go_on (ESubscript expr index (Some start))))))
     else if k = TkInState then
       pbind p_advance (\<lambda>_. pbind (expect TkLParen) (\<lambda>_. pbind p_name (\<lambda>n.
       pbind (expect TkRParen) (\<lambda>_.
       go_on (EInState expr n (Some start))))))
     else stop expr)"

definition parse_postfix_expr :: "ast_expr parser \<Rightarrow> ast_expr parser" where
  "parse_postfix_expr pe =
     pbind p_span (\<lambda>start. pbind (parse_primary_expr pe) (\<lambda>first.
     prepeat (postfix_step pe start) first))"

definition unary_ops :: "(token_kind \<times> unaryop) list" where
  "unary_ops = [(TkBang, Not), (TkMinus, Neg), (TkNot, Not)]"

fun parse_unary_fuel :: "nat \<Rightarrow> ast_expr parser \<Rightarrow> ast_expr parser" where
  "parse_unary_fuel 0 pe = (\<lambda>ts. Inl PFuel)"
| "parse_unary_fuel (Suc n) pe =
     pbind p_span (\<lambda>start. pbind p_peek (\<lambda>k.
     case map_of unary_ops k of
       Some op \<Rightarrow> pbind p_advance (\<lambda>_. pbind (parse_unary_fuel n pe) (\<lambda>e. preturn (EUnary op e (Some start))))
     | None \<Rightarrow> parse_postfix_expr pe))"

definition parse_unary_expr :: "ast_expr parser \<Rightarrow> ast_expr parser" where
  "parse_unary_expr pe = (\<lambda>ts. parse_unary_fuel (Suc (length ts)) pe ts)"

definition parse_mul_expr :: "ast_expr parser \<Rightarrow> ast_expr parser" where
  "parse_mul_expr pe = left_assoc [(TkStar, Mul), (TkSlash, Div), (TkPercent, Mod)] (parse_unary_expr pe)"

definition parse_add_expr :: "ast_expr parser \<Rightarrow> ast_expr parser" where
  "parse_add_expr pe = left_assoc [(TkPlus, Add), (TkMinus, Sub)] (parse_mul_expr pe)"

definition parse_shift_expr :: "ast_expr parser \<Rightarrow> ast_expr parser" where
  "parse_shift_expr pe = left_assoc [(TkShl, Shl), (TkShr, Shr)] (parse_add_expr pe)"

definition parse_bitand_expr :: "ast_expr parser \<Rightarrow> ast_expr parser" where
  "parse_bitand_expr pe = left_assoc [(TkAmp, BitAnd)] (parse_shift_expr pe)"

definition parse_bitxor_expr :: "ast_expr parser \<Rightarrow> ast_expr parser" where
  "parse_bitxor_expr pe = left_assoc [(TkCaret, BitXor)] (parse_bitand_expr pe)"

definition parse_bitor_expr :: "ast_expr parser \<Rightarrow> ast_expr parser" where
  "parse_bitor_expr pe = left_assoc [(TkPipe, BitOr)] (parse_bitxor_expr pe)"

definition compare_ops :: "(token_kind \<times> binop) list" where
  "compare_ops = [(TkEqEq, Eq), (TkBangEq, Ne), (TkLt, Lt), (TkLe, Le), (TkGt, Gt), (TkGe, Ge)]"

definition parse_compare_expr :: "ast_expr parser \<Rightarrow> ast_expr parser" where
  "parse_compare_expr pe =
     pbind p_span (\<lambda>start. pbind (parse_bitor_expr pe) (\<lambda>left.
     pbind p_peek (\<lambda>k.
     case map_of compare_ops k of
       Some op \<Rightarrow> pbind p_advance (\<lambda>_. pbind (parse_bitor_expr pe) (\<lambda>right. preturn (EBinary op left right (Some start))))
     | None \<Rightarrow> preturn left)))"

definition parse_and_expr :: "ast_expr parser \<Rightarrow> ast_expr parser" where
  "parse_and_expr pe = left_assoc [(TkAnd, And)] (parse_compare_expr pe)"

definition parse_or_expr :: "ast_expr parser \<Rightarrow> ast_expr parser" where
  "parse_or_expr pe = left_assoc [(TkOr, Or)] (parse_and_expr pe)"

definition parse_coalesce_expr :: "ast_expr parser \<Rightarrow> ast_expr parser" where
  "parse_coalesce_expr pe =
     pbind p_span (\<lambda>start. pbind (parse_or_expr pe) (\<lambda>e.
     pbind (eat TkQuestionQuestion) (\<lambda>more.
     if more then pbind (parse_or_expr pe) (\<lambda>d. preturn (ECoalesce e d (Some start))) else preturn e)))"

fun parse_expr_fuel :: "nat \<Rightarrow> ast_expr parser" where
  "parse_expr_fuel 0 = (\<lambda>ts. Inl PFuel)"
| "parse_expr_fuel (Suc n) = parse_coalesce_expr (parse_expr_fuel n)"

definition parse_expr :: "ast_expr parser" where
  "parse_expr = (\<lambda>ts. parse_expr_fuel (Suc (length ts)) ts)"

text \<open>\<open>parse_postfix_expr\<close> where it is called outside expressions.\<close>

definition parse_postfix :: "ast_expr parser" where
  "parse_postfix = parse_postfix_expr parse_expr"

section \<open>Annotations and names\<close>

definition quoted :: "string \<Rightarrow> string" where
  "quoted s = CHR 0x27 # s @ [CHR 0x27]"

definition join_with :: "string \<Rightarrow> string list \<Rightarrow> string" where
  "join_with sep parts = (case parts of [] \<Rightarrow> [] | p # ps \<Rightarrow> concat (p # map ((@) sep) ps))"

definition annotation_literal :: "token_kind \<Rightarrow> ast_annotation_arg option" where
  "annotation_literal k =
     (case literal_of k of
        Some (LInt i) \<Rightarrow> Some (AInt i) | Some (LBool b) \<Rightarrow> Some (ABool b) | Some (LString s) \<Rightarrow> Some (AString s)
      | _ \<Rightarrow> None)"

definition parse_annotation_arg :: "ast_annotation_arg parser" where
  "parse_annotation_arg =
     pbind p_peek (\<lambda>k.
     case annotation_literal k of
       Some a \<Rightarrow> take_token a
     | None \<Rightarrow>
     (case lit_name k of
       None \<Rightarrow> p_error (MFound ''expected annotation argument, found '' k)
     | Some n \<Rightarrow>
         pbind p_peek_second (\<lambda>following.
       if following = TkAssign
         then pbind p_advance (\<lambda>_. pbind p_advance (\<lambda>_.
         pbind parse_literal_value (\<lambda>v.
         preturn (ANamedValue n v))))
         else take_token (AIdentifier n))))"

definition parse_annotation_args :: "ast_annotation_arg list parser" where
  "parse_annotation_args =
     pbind parse_annotation_arg (\<lambda>first.
     prepeat (\<lambda>xs. pbind (eat TkComma) (\<lambda>more.
       if \<not> more then stop xs
       else pbind (p_at TkRParen) (\<lambda>last.
         if last then stop xs
         else pbind parse_annotation_arg (\<lambda>x. go_on (xs @ [x]))))) [first])"

definition annotation_value :: "token_kind \<Rightarrow> ast_annotation_arg option" where
  "annotation_value k = (case lit_name k of Some n \<Rightarrow> Some (AIdentifier n) | None \<Rightarrow> annotation_literal k)"

definition parse_annotation :: "ast_annotation parser" where
  "parse_annotation =
     pbind p_span (\<lambda>start. pbind (expect TkAt) (\<lambda>_. pbind p_name (\<lambda>name.
     pbind (eat TkLParen) (\<lambda>open.
     if open then
       pbind (p_at TkRParen) (\<lambda>empty.
       pbind (if empty then preturn [] else parse_annotation_args) (\<lambda>args.
       pbind (expect TkRParen) (\<lambda>_.
       preturn \<lparr>an_name = name, an_args = args, an_span = Some start\<rparr>)))
     else
       pbind p_peek (\<lambda>k.
       pbind (case annotation_value k of Some a \<Rightarrow> take_token [a] | None \<Rightarrow> preturn []) (\<lambda>args.
       preturn \<lparr>an_name = name, an_args = args, an_span = Some start\<rparr>))))))"

definition collect_annotations :: "ast_annotation list parser" where
  "collect_annotations =
     prepeat (\<lambda>xs. pbind (p_at TkAt) (\<lambda>more.
     if more then pbind parse_annotation (\<lambda>x. go_on (xs @ [x])) else stop xs)) []"

text \<open>Names with a separator between them.\<close>

definition name_parts :: "token_kind \<Rightarrow> string list parser" where
  "name_parts sep = pbind p_name (\<lambda>first. items_after sep p_name [first])"

definition parse_dotted_name :: "string parser" where
  "parse_dotted_name = pbind (name_parts TkDot) (\<lambda>parts. preturn (join_with ''.'' parts))"

definition parse_module_decl :: "ast_module_decl parser" where
  "parse_module_decl =
     pbind p_span (\<lambda>start. pbind (expect TkModule) (\<lambda>_.
     pbind parse_dotted_name (\<lambda>name.
     preturn \<lparr>md_name = name, md_span = Some start\<rparr>)))"

text \<open>\<open>char::is_uppercase\<close> of the first character; the lexer makes names of ASCII characters only.\<close>

definition starts_upper :: "string \<Rightarrow> bool" where
  "starts_upper s = (case s of [] \<Rightarrow> False | c # r \<Rightarrow> 65 \<le> byte c \<and> byte c \<le> 90)"

definition parse_import :: "ast_import parser" where
  "parse_import =
     pbind p_span (\<lambda>start. pbind (expect TkImport) (\<lambda>_.
     pbind (name_parts TkDot) (\<lambda>parts.
     preturn
       (if 2 \<le> length parts \<and> starts_upper (last parts)
        then \<lparr>im_module = join_with ''.'' (butlast parts), im_name = Some (last parts), im_span = Some start\<rparr>
        else \<lparr>im_module = join_with ''.'' parts, im_name = None, im_span = Some start\<rparr>))))"

section \<open>Patterns and types\<close>

definition parse_pattern :: "ast_pattern parser" where
  "parse_pattern =
     pbind p_span (\<lambda>start. pbind p_peek (\<lambda>k.
     if lit_name k = Some ''_'' then take_token (PWildcard (Some start))
     else
       pbind parse_integer (\<lambda>low. pbind (eat TkDotDotEq) (\<lambda>range.
       if range then pbind parse_integer (\<lambda>high. preturn (PRangeInclusive low high (Some start)))
       else preturn (PValue low (Some start))))))"

definition parse_asn1_type_expr :: "span \<Rightarrow> ast_type_expr parser" where
  "parse_asn1_type_expr start =
     pbind (expect TkLParen) (\<lambda>_. pbind p_name (\<lambda>ty.
     pbind (expect TkComma) (\<lambda>_. pbind p_name (\<lambda>enc_kw.
     if enc_kw \<noteq> ''encoding''
     then p_error (MText (''expected '' @ quoted ''encoding'' @ '', found '' @ quoted enc_kw))
     else
       pbind (expect TkColon) (\<lambda>_. pbind p_name (\<lambda>encoding.
       pbind (expect TkComma) (\<lambda>_. pbind (eat TkRemaining) (\<lambda>remaining.
       pbind (if remaining then preturn LenRemaining
         else
           pbind p_name (\<lambda>len_kw.
         if len_kw \<noteq> ''length''
           then p_error (MText (''expected '' @ quoted ''length'' @ '' or '' @ quoted ''remaining'' @ '', found '' @ quoted len_kw))
           else pbind (expect TkColon) (\<lambda>_. pbind parse_expr (\<lambda>e.
           preturn (LenExpr e))))) (\<lambda>len_of.
       pbind (expect TkRParen) (\<lambda>_.
       preturn (TAsn1 ty encoding len_of (Some start))))))))))))"

definition parse_match_branch :: "ast_type_expr parser \<Rightarrow> ast_match_branch parser" where
  "parse_match_branch pt =
     pbind p_span (\<lambda>start. pbind parse_pattern (\<lambda>pat.
     pbind (expect TkFatArrow) (\<lambda>_. pbind pt (\<lambda>ty.
     preturn (MatchBranch pat ty (Some start))))))"

definition parse_match_type_expr :: "ast_type_expr parser \<Rightarrow> ast_type_expr parser" where
  "parse_match_type_expr pt =
     pbind p_span (\<lambda>start. pbind (expect TkMatch) (\<lambda>_.
     pbind p_name (\<lambda>field. pbind (expect TkLBrace) (\<lambda>_.
     pbind (items_until TkRBrace TkComma (parse_match_branch pt)) (\<lambda>branches.
     pbind (expect TkRBrace) (\<lambda>_.
     preturn (TMatch field branches (Some start))))))))"

definition parse_optional_type_expr :: "ast_type_expr parser \<Rightarrow> ast_type_expr parser" where
  "parse_optional_type_expr pt =
     pbind p_span (\<lambda>start. pbind (expect TkIf) (\<lambda>_.
     pbind parse_expr (\<lambda>condition. pbind (expect TkLBrace) (\<lambda>_.
     pbind pt (\<lambda>inner. pbind (expect TkRBrace) (\<lambda>_.
     preturn (TOptional condition inner (Some start))))))))"

definition parse_array_type_expr :: "ast_type_expr parser \<Rightarrow> ast_type_expr parser" where
  "parse_array_type_expr pt =
     pbind p_span (\<lambda>start. pbind (expect TkLBracket) (\<lambda>_.
     pbind pt (\<lambda>element. pbind (expect TkSemicolon) (\<lambda>_.
     pbind (eat TkFill) (\<lambda>fill.
     pbind (if fill then preturn CountFill else pbind parse_expr (\<lambda>e. preturn (CountExpr e))) (\<lambda>number.
     pbind (expect TkRBracket) (\<lambda>_. pbind (p_at TkWithin) (\<lambda>bounded.
     pbind (if bounded then pbind p_advance (\<lambda>_. pbind parse_expr (\<lambda>e. preturn (Some e))) else preturn None) (\<lambda>within.
     preturn (TArray element number within (Some start)))))))))))"

text \<open>\<open>n as u64\<close>\<close>

definition as_u64 :: "int \<Rightarrow> u64" where
  "as_u64 n = word_of_int n"

text \<open>The two forms of \<open>bytes\<close> that are recognised by the token behind the next one.\<close>

definition bytes_length_kind :: "token_kind \<Rightarrow> ast_bytes_kind option" where
  "bytes_length_kind k =
     (if lit_name k = Some ''length'' then Some BLength
      else if lit_name k = Some ''length_or_remaining'' then Some BLengthOrRemaining else None)"

definition bytes_expr :: "span \<Rightarrow> ast_bytes_kind \<Rightarrow> ast_type_expr parser" where
  "bytes_expr start kind =
     pbind parse_expr (\<lambda>e. pbind (expect TkRBracket) (\<lambda>_.
     preturn (TBytes kind None (Some e) (Some start))))"

definition bytes_fixed_or_expr :: "span \<Rightarrow> ast_type_expr parser" where
  "bytes_fixed_or_expr start =
     pbind p_peek (\<lambda>k.
     case lit_int k of
       None \<Rightarrow> bytes_expr start BLength
     | Some n \<Rightarrow>
         pbind p_peek_second (\<lambda>following.
       if following = TkRBracket
         then pbind p_advance (\<lambda>_. pbind (expect TkRBracket) (\<lambda>_.
         preturn (TBytes BFixed (Some (as_u64 n)) None (Some start))))
         else bytes_expr start BLength))"

definition parse_bytes_type_expr :: "ast_type_expr parser" where
  "parse_bytes_type_expr =
     pbind p_span (\<lambda>start. pbind (expect TkBytes) (\<lambda>_.
     pbind (expect TkLBracket) (\<lambda>_. pbind (eat TkRemaining) (\<lambda>remaining.
     if remaining
     then pbind (expect TkRBracket) (\<lambda>_.
       preturn (TBytes BRemaining None None (Some start)))
     else
       pbind p_peek (\<lambda>k.
       case bytes_length_kind k of
         None \<Rightarrow> bytes_fixed_or_expr start
       | Some kind \<Rightarrow>
           pbind p_peek_second (\<lambda>following.
         if following = TkColon then pbind p_advance (\<lambda>_. pbind p_advance (\<lambda>_.
           bytes_expr start kind))
           else bytes_fixed_or_expr start))))))"

definition parse_bits_type_expr :: "ast_type_expr parser" where
  "parse_bits_type_expr =
     pbind p_span (\<lambda>start. pbind (expect TkBits) (\<lambda>_.
     pbind (expect TkLBracket) (\<lambda>_. pbind parse_integer (\<lambda>raw.
     if raw < 1 \<or> 65535 < raw
     then p_error (MText (''bits width '' @ show_int raw @ '' out of range (must be 1..65535)''))
     else pbind (expect TkRBracket) (\<lambda>_.
       preturn (TBits (word_of_int raw) (Some start)))))))"

definition parse_named_type_expr :: "ast_type_expr parser" where
  "parse_named_type_expr =
     pbind p_span (\<lambda>start. pbind parse_type_ref_name (\<lambda>name.
     pbind (p_at TkLParen) (\<lambda>call.
     if name = ''asn1'' \<and> call then parse_asn1_type_expr start else preturn (TNamed name (Some start)))))"

fun parse_type_expr_fuel :: "nat \<Rightarrow> ast_type_expr parser" where
  "parse_type_expr_fuel 0 = (\<lambda>ts. Inl PFuel)"
| "parse_type_expr_fuel (Suc n) =
     pbind p_peek (\<lambda>k.
     if k = TkMatch then parse_match_type_expr (parse_type_expr_fuel n)
     else if k = TkIf then parse_optional_type_expr (parse_type_expr_fuel n)
     else if k = TkLBracket then parse_array_type_expr (parse_type_expr_fuel n)
     else if k = TkBytes then parse_bytes_type_expr
     else if k = TkBits then parse_bits_type_expr
     else if k = TkBit then pbind p_span (\<lambda>start. take_token (TBits 1 (Some start)))
     else parse_named_type_expr)"

definition parse_type_expr :: "ast_type_expr parser" where
  "parse_type_expr = (\<lambda>ts. parse_type_expr_fuel (Suc (length ts)) ts)"

section \<open>Fields\<close>

definition parse_struct_field :: "ast_field_def parser" where
  "parse_struct_field =
     pbind collect_annotations (\<lambda>anns. pbind p_span (\<lambda>start.
     pbind p_name (\<lambda>name. pbind (expect TkColon) (\<lambda>_.
     pbind parse_type_expr (\<lambda>ty.
     preturn \<lparr>fd_name = name, fd_type_expr = ty, fd_annotations = anns, fd_span = Some start\<rparr>)))))"

definition parse_struct_field_list :: "ast_field_def list parser" where
  "parse_struct_field_list = items_until TkRBrace TkComma parse_struct_field"

definition parse_field_item :: "ast_field_item parser" where
  "parse_field_item =
     pbind p_peek (\<lambda>k.
     if k = TkLet then
       pbind p_span (\<lambda>start. pbind p_advance (\<lambda>_. pbind p_name (\<lambda>name.
       pbind (expect TkColon) (\<lambda>_. pbind parse_type_ref_name (\<lambda>ty.
       pbind (expect TkAssign) (\<lambda>_. pbind parse_expr (\<lambda>e.
       preturn (FDerived \<lparr>df_name = name, df_type_name = ty, df_expr = e, df_span = Some start\<rparr>))))))))
     else if k = TkRequire then
       pbind p_span (\<lambda>start. pbind p_advance (\<lambda>_. pbind parse_expr (\<lambda>e.
       preturn (FRequire \<lparr>rq_expr = e, rq_span = Some start\<rparr>))))
     else pbind parse_struct_field (\<lambda>f. preturn (FField f)))"

definition parse_field_list :: "ast_field_item list parser" where
  "parse_field_list = items_until TkRBrace TkComma parse_field_item"

section \<open>Constants, enumerations, types\<close>

definition parse_const :: "ast_annotation list \<Rightarrow> bool \<Rightarrow> ast_const_decl parser" where
  "parse_const anns exported =
     pbind p_span (\<lambda>start. pbind (expect TkConst) (\<lambda>_.
     pbind p_name (\<lambda>name. pbind (expect TkColon) (\<lambda>_.
     pbind parse_type_ref_name (\<lambda>ty. pbind (expect TkAssign) (\<lambda>_.
     pbind parse_literal_value (\<lambda>v.
     preturn \<lparr>co_name = name, co_type_name = ty, co_value = v, co_annotations = anns, co_exported = exported,
       co_span = Some start\<rparr>)))))))"

definition parse_enum_member :: "ast_enum_member parser" where
  "parse_enum_member =
     pbind p_span (\<lambda>start. pbind p_name (\<lambda>name.
     pbind (expect TkAssign) (\<lambda>_. pbind parse_integer (\<lambda>v.
     preturn \<lparr>em_name = name, em_value = v, em_span = Some start\<rparr>))))"

definition parse_enum :: "ast_annotation list \<Rightarrow> bool \<Rightarrow> ast_enum_decl parser" where
  "parse_enum anns exported =
     pbind p_span (\<lambda>start. pbind (expect TkEnum) (\<lambda>_.
     pbind p_name (\<lambda>name. pbind (expect TkColon) (\<lambda>_.
     pbind parse_type_ref_name (\<lambda>ty. pbind (expect TkLBrace) (\<lambda>_.
     pbind (items_until TkRBrace TkComma parse_enum_member) (\<lambda>members.
     pbind (expect TkRBrace) (\<lambda>_.
     preturn \<lparr>en_name = name, en_underlying_type = ty, en_members = members, en_annotations = anns,
       en_exported = exported, en_span = Some start\<rparr>))))))))"

definition parse_flags :: "ast_annotation list \<Rightarrow> bool \<Rightarrow> ast_flags_decl parser" where
  "parse_flags anns exported =
     pbind p_span (\<lambda>start. pbind (expect TkFlags) (\<lambda>_.
     pbind p_name (\<lambda>name. pbind (expect TkColon) (\<lambda>_.
     pbind parse_type_ref_name (\<lambda>ty. pbind (expect TkLBrace) (\<lambda>_.
     pbind (items_until TkRBrace TkComma parse_enum_member) (\<lambda>members.
     pbind (expect TkRBrace) (\<lambda>_.
     preturn \<lparr>fl_name = name, fl_underlying_type = ty, fl_members = members, fl_annotations = anns,
       fl_exported = exported, fl_span = Some start\<rparr>))))))))"

definition parse_static_assert :: "ast_static_assert_decl parser" where
  "parse_static_assert =
     pbind p_span (\<lambda>start. pbind (expect TkStaticAssert) (\<lambda>_.
     pbind parse_expr (\<lambda>e.
     preturn \<lparr>sa_expr = e, sa_span = Some start\<rparr>)))"

text \<open>The parameters of a variable-length integer, with their defaults.\<close>

record varint_params =
  vp_continuation_bit :: string
  vp_value_bits :: u8
  vp_max_bytes :: u8
  vp_byte_order :: string

definition parse_u8_param :: "string \<Rightarrow> u8 parser" where
  "parse_u8_param what =
     pbind parse_integer (\<lambda>raw.
     if raw < 0 \<or> 255 < raw
     then p_error (MText (what @ '' '' @ show_int raw @ '' out of range (must be 0..255)''))
     else preturn (word_of_int raw))"

definition parse_varint_param :: "varint_params \<Rightarrow> varint_params parser" where
  "parse_varint_param vp =
     pbind p_name (\<lambda>name. pbind (expect TkColon) (\<lambda>_.
     if name = ''continuation_bit'' then pbind p_name (\<lambda>v. preturn (vp\<lparr>vp_continuation_bit := v\<rparr>))
     else if name = ''value_bits'' then pbind (parse_u8_param name) (\<lambda>v. preturn (vp\<lparr>vp_value_bits := v\<rparr>))
     else if name = ''max_bytes'' then pbind (parse_u8_param name) (\<lambda>v. preturn (vp\<lparr>vp_max_bytes := v\<rparr>))
     else if name = ''byte_order'' then pbind p_name (\<lambda>v. preturn (vp\<lparr>vp_byte_order := v\<rparr>))
     else p_error (MText (''unknown varint parameter: '' @ name))))"

definition parse_continuation_varint :: "string \<Rightarrow> ast_annotation list \<Rightarrow> bool \<Rightarrow> span \<Rightarrow> ast_top_item parser" where
  "parse_continuation_varint name anns exported start =
     pbind (expect TkVarint) (\<lambda>_. pbind (expect TkLBrace) (\<lambda>_.
     pbind (prepeat (\<lambda>vp. pbind (p_at TkRBrace) (\<lambda>done.
       if done then stop vp
       else pbind (parse_varint_param vp) (\<lambda>vp'. pbind (eat TkComma) (\<lambda>_. go_on vp'))))
       \<lparr>vp_continuation_bit = ''msb'', vp_value_bits = 7, vp_max_bytes = 4, vp_byte_order = ''little''\<rparr>) (\<lambda>vp.
     pbind (expect TkRBrace) (\<lambda>_.
     preturn (IContinuationVarInt \<lparr>cv_name = name, cv_annotations = anns,
       cv_continuation_bit = vp_continuation_bit vp, cv_value_bits = vp_value_bits vp,
       cv_max_bytes = vp_max_bytes vp, cv_byte_order = vp_byte_order vp, cv_exported = exported,
       cv_span = Some start\<rparr>)))))"

definition parse_type_def :: "ast_annotation list \<Rightarrow> bool \<Rightarrow> ast_top_item parser" where
  "parse_type_def anns exported =
     pbind p_span (\<lambda>start. pbind (expect TkType) (\<lambda>_.
     pbind p_name (\<lambda>name. pbind (expect TkAssign) (\<lambda>_.
     pbind (p_at TkVarint) (\<lambda>varint.
     if varint then parse_continuation_varint name anns exported start
     else
       pbind (p_at TkLBrace) (\<lambda>struct.
       if struct then
         pbind (expect TkLBrace) (\<lambda>_. pbind parse_struct_field_list (\<lambda>members.
         pbind (expect TkRBrace) (\<lambda>_.
         preturn (IType \<lparr>ty_name = name, ty_annotations = anns, ty_body = BodyFields members,
           ty_exported = exported, ty_span = Some start\<rparr>))))
       else
         pbind parse_type_expr (\<lambda>target.
         preturn (IType \<lparr>ty_name = name, ty_annotations = anns, ty_body = BodyAlias target,
           ty_exported = exported, ty_span = Some start\<rparr>))))))))"

section \<open>Packets, frames, capsules\<close>

definition parse_packet :: "ast_annotation list \<Rightarrow> bool \<Rightarrow> ast_packet_decl parser" where
  "parse_packet anns exported =
     pbind p_span (\<lambda>start. pbind (expect TkPacket) (\<lambda>_.
     pbind p_name (\<lambda>name. pbind (expect TkLBrace) (\<lambda>_.
     pbind parse_field_list (\<lambda>items. pbind (expect TkRBrace) (\<lambda>_.
     preturn \<lparr>pk_name = name, pk_fields = items, pk_annotations = anns, pk_exported = exported,
       pk_span = Some start\<rparr>))))))"

definition parse_frame_branch :: "ast_frame_branch parser" where
  "parse_frame_branch =
     pbind p_span (\<lambda>start. pbind parse_pattern (\<lambda>pat.
     pbind (expect TkFatArrow) (\<lambda>_. pbind p_name (\<lambda>name.
     pbind (expect TkLBrace) (\<lambda>_. pbind (p_at TkRBrace) (\<lambda>empty.
     pbind (if empty then preturn [] else parse_field_list) (\<lambda>items.
     pbind (expect TkRBrace) (\<lambda>_.
     preturn \<lparr>fb_pattern = pat, fb_variant_name = name, fb_fields = items, fb_span = Some start\<rparr>))))))))"

definition parse_frame_branches :: "ast_frame_branch list parser" where
  "parse_frame_branches = items_until TkRBrace TkComma parse_frame_branch"

definition parse_frame :: "ast_annotation list \<Rightarrow> bool \<Rightarrow> ast_frame_decl parser" where
  "parse_frame anns exported =
     pbind p_span (\<lambda>start. pbind (expect TkFrame) (\<lambda>_.
     pbind p_name (\<lambda>name. pbind (expect TkAssign) (\<lambda>_.
     pbind (expect TkMatch) (\<lambda>_. pbind expect_name_or_keyword (\<lambda>tag.
     pbind (expect TkColon) (\<lambda>_. pbind parse_type_ref_name (\<lambda>ty.
     pbind (expect TkLBrace) (\<lambda>_. pbind parse_frame_branches (\<lambda>branches.
     pbind (expect TkRBrace) (\<lambda>_.
     preturn \<lparr>fr_name = name, fr_tag_field = fst tag, fr_tag_type = ty, fr_branches = branches,
       fr_annotations = anns, fr_exported = exported, fr_span = Some start\<rparr>)))))))))))"

text \<open>Whether \<open>payload : match\<close> comes next; the position is then the one of \<open>match\<close>, and is restored otherwise.\<close>

definition payload_next :: "bool parser" where
  "payload_next = (\<lambda>ts.
     (pbind p_peek (\<lambda>k.
     if lit_name k \<noteq> Some ''payload'' then preturn False
      else
        pbind p_advance (\<lambda>_. pbind (p_at TkColon) (\<lambda>colon.
       if \<not> colon then (\<lambda>_. Inr (False, ts))
        else
          pbind p_advance (\<lambda>_. pbind (p_at TkMatch) (\<lambda>match.
         if match then preturn True else (\<lambda>_. Inr (False, ts)))))))) ts)"

definition parse_capsule_header :: "ast_field_item list parser" where
  "parse_capsule_header =
     prepeat (\<lambda>items. pbind payload_next (\<lambda>payload.
     if payload then stop items
       else pbind parse_field_item (\<lambda>x. pbind (eat TkComma) (\<lambda>_. go_on (items @ [x]))))) []"

definition parse_payload_tag :: "ast_payload_tag_selector parser" where
  "parse_payload_tag =
     pbind (eat TkLParen) (\<lambda>open.
     if open then pbind parse_expr (\<lambda>e. pbind (expect TkRParen) (\<lambda>_.
       preturn (TagExpr e)))
     else pbind expect_name_or_keyword (\<lambda>n. preturn (TagField (fst n))))"

definition parse_capsule :: "ast_annotation list \<Rightarrow> bool \<Rightarrow> ast_capsule_decl parser" where
  "parse_capsule anns exported =
     pbind p_span (\<lambda>start. pbind (expect TkCapsule) (\<lambda>_.
     pbind p_name (\<lambda>name. pbind (expect TkLBrace) (\<lambda>_.
     pbind parse_capsule_header (\<lambda>items. pbind (expect TkMatch) (\<lambda>_.
     pbind parse_payload_tag (\<lambda>tag. pbind (expect TkWithin) (\<lambda>_.
     pbind expect_name_or_keyword (\<lambda>within. pbind (expect TkLBrace) (\<lambda>_.
     pbind parse_frame_branches (\<lambda>branches. pbind (expect TkRBrace) (\<lambda>_.
     pbind (eat TkComma) (\<lambda>_. pbind (expect TkRBrace) (\<lambda>_.
     preturn \<lparr>ca_name = name, ca_fields = items, ca_payload_tag = tag, ca_payload_within = fst within,
       ca_branches = branches, ca_annotations = anns, ca_exported = exported, ca_span = Some start\<rparr>))))))))))))))"

section \<open>Verify formulas\<close>

text \<open>\<open>Or\<close> and \<open>And\<close>: one operator, left-associative.\<close>

definition left_assoc_formula :: "(token_kind \<times> (ast_verify_formula \<Rightarrow> ast_verify_formula \<Rightarrow> ast_verify_formula)) list
    \<Rightarrow> ast_verify_formula parser \<Rightarrow> ast_verify_formula parser" where
  "left_assoc_formula ops sub =
     pbind sub (\<lambda>first.
     prepeat (\<lambda>left. pbind p_peek (\<lambda>k.
       case map_of ops k of
         None \<Rightarrow> stop left
       | Some op \<Rightarrow> pbind p_advance (\<lambda>_. pbind sub (\<lambda>right. go_on (op left right))))) first)"

definition parse_verify_primary :: "ast_verify_formula parser \<Rightarrow> ast_verify_formula parser" where
  "parse_verify_primary pf =
     pbind p_peek (\<lambda>k.
     if k = TkInState then
       pbind p_advance (\<lambda>_. pbind (expect TkLParen) (\<lambda>_. pbind p_name (\<lambda>n.
       pbind (expect TkRParen) (\<lambda>_.
       preturn (VInState n)))))
     else if k = TkTrue then take_token (VLiteral (LBool True))
     else if k = TkFalse then take_token (VLiteral (LBool False))
     else case lit_int k of
       Some i \<Rightarrow> take_token (VLiteral (LInt i))
     | None \<Rightarrow>
     if k = TkLParen then pbind p_advance (\<lambda>_. pbind pf (\<lambda>f. pbind (expect TkRParen) (\<lambda>_.
       preturn f)))
     else case kind_as_name k of
       Some name \<Rightarrow>
         pbind p_advance (\<lambda>_. pbind (items_after TkDot p_name [name]) (\<lambda>path.
       preturn (VFieldRef path)))
     | None \<Rightarrow> p_error (MFound ''expected verify formula, found '' k))"

text \<open>Whether the two given tokens come next: they are consumed then, and the position is restored otherwise.\<close>

definition eat_pair :: "token_kind \<Rightarrow> token_kind \<Rightarrow> bool parser" where
  "eat_pair a b = (\<lambda>ts.
     (pbind (eat a) (\<lambda>first.
     if \<not> first then preturn False
      else pbind (eat b) (\<lambda>second.
       if second then preturn True else (\<lambda>_. Inr (False, ts))))) ts)"

fun parse_verify_unary_fuel :: "nat \<Rightarrow> ast_verify_formula parser \<Rightarrow> ast_verify_formula parser" where
  "parse_verify_unary_fuel 0 pf = (\<lambda>ts. Inl PFuel)"
| "parse_verify_unary_fuel (Suc n) pf =
     pbind (eat_pair TkLBracket TkRBracket) (\<lambda>always.
     if always then pbind (parse_verify_unary_fuel n pf) (\<lambda>f. preturn (VAlways f))
     else
       pbind (eat_pair TkLt TkGt) (\<lambda>eventually.
       if eventually then pbind (parse_verify_unary_fuel n pf) (\<lambda>f. preturn (VEventually f))
       else
         pbind (eat TkNot) (\<lambda>negated.
         if negated then pbind (parse_verify_unary_fuel n pf) (\<lambda>f. preturn (VNot f))
         else parse_verify_primary pf)))"

definition parse_verify_unary :: "ast_verify_formula parser \<Rightarrow> ast_verify_formula parser" where
  "parse_verify_unary pf = (\<lambda>ts. parse_verify_unary_fuel (Suc (length ts)) pf ts)"

definition verify_compare_ops :: "(token_kind \<times> string) list" where
  "verify_compare_ops =
   [(TkLt, ''<''), (TkLe, ''<=''), (TkGt, ''>''), (TkGe, ''>=''), (TkEqEq, ''==''), (TkBangEq, ''!='')]"

definition parse_verify_compare :: "ast_verify_formula parser \<Rightarrow> ast_verify_formula parser" where
  "parse_verify_compare pf =
     pbind (parse_verify_unary pf) (\<lambda>left. pbind p_peek (\<lambda>k.
     case map_of verify_compare_ops k of
       Some op \<Rightarrow> pbind p_advance (\<lambda>_. pbind (parse_verify_unary pf) (\<lambda>right. preturn (VCompare left op right)))
     | None \<Rightarrow> preturn left))"

definition parse_verify_and :: "ast_verify_formula parser \<Rightarrow> ast_verify_formula parser" where
  "parse_verify_and pf = left_assoc_formula [(TkAnd, VAnd)] (parse_verify_compare pf)"

definition parse_verify_or :: "ast_verify_formula parser \<Rightarrow> ast_verify_formula parser" where
  "parse_verify_or pf = left_assoc_formula [(TkOr, VOr)] (parse_verify_and pf)"

definition parse_verify_implies :: "ast_verify_formula parser \<Rightarrow> ast_verify_formula parser" where
  "parse_verify_implies pf = left_assoc_formula [(TkArrow, VImplies), (TkTildeGt, VLeadsTo)] (parse_verify_or pf)"

fun parse_verify_formula_fuel :: "nat \<Rightarrow> ast_verify_formula parser" where
  "parse_verify_formula_fuel 0 = (\<lambda>ts. Inl PFuel)"
| "parse_verify_formula_fuel (Suc n) = parse_verify_implies (parse_verify_formula_fuel n)"

definition parse_verify_formula :: "ast_verify_formula parser" where
  "parse_verify_formula = (\<lambda>ts. parse_verify_formula_fuel (Suc (length ts)) ts)"

definition parse_verify_decl :: "ast_verify_decl parser" where
  "parse_verify_decl =
     pbind p_span (\<lambda>start. pbind p_advance (\<lambda>_. pbind p_peek (\<lambda>k.
     if lit_name k = Some ''property'' then
       pbind p_advance (\<lambda>_. pbind p_name (\<lambda>name.
       pbind (expect TkColon) (\<lambda>_. pbind parse_verify_formula (\<lambda>f.
       preturn (VProperty name f (Some start))))))
     else pbind p_name (\<lambda>name. preturn (VBuiltIn name (Some start))))))"

section \<open>State machines\<close>

definition parse_state_field :: "ast_state_field_def parser" where
  "parse_state_field =
     pbind p_span (\<lambda>start. pbind p_name (\<lambda>name.
     pbind (expect TkColon) (\<lambda>_. pbind parse_type_expr (\<lambda>ty.
     pbind (eat TkAssign) (\<lambda>has_default.
     pbind (if has_default then pbind parse_literal_value (\<lambda>v. preturn (Some v)) else preturn None) (\<lambda>v.
     preturn \<lparr>sd_name = name, sd_type_expr = ty, sd_default_value = v, sd_span = Some start\<rparr>))))))"

definition parse_state_decl :: "ast_state_decl parser" where
  "parse_state_decl =
     pbind p_span (\<lambda>start. pbind (expect TkState) (\<lambda>_.
     pbind p_name (\<lambda>name. pbind (eat TkLBrace) (\<lambda>block.
     pbind (if block
       then pbind (items_until TkRBrace TkComma parse_state_field) (\<lambda>xs.
       pbind (expect TkRBrace) (\<lambda>_.
       preturn xs))
       else preturn []) (\<lambda>members.
     pbind (eat TkLBracket) (\<lambda>bracket.
     pbind (if bracket then pbind (expect TkTerminal) (\<lambda>_. pbind (expect TkRBracket) (\<lambda>_.
       preturn True)) else preturn False) (\<lambda>terminal.
     preturn \<lparr>st_name = name, st_fields = members, st_is_terminal = terminal, st_span = Some start\<rparr>)))))))"

definition parse_event_param :: "ast_event_param parser" where
  "parse_event_param =
     pbind p_span (\<lambda>start. pbind p_name (\<lambda>name.
     pbind (expect TkColon) (\<lambda>_. pbind parse_type_expr (\<lambda>ty.
     preturn \<lparr>ep_name = name, ep_type_expr = ty, ep_span = Some start\<rparr>))))"

definition parse_event_decl :: "ast_event_decl parser" where
  "parse_event_decl =
     pbind p_span (\<lambda>start. pbind (expect TkOn) (\<lambda>_.
     pbind expect_name_or_keyword (\<lambda>name. pbind (eat TkLParen) (\<lambda>open.
     pbind (if \<not> open then preturn []
       else
         pbind (p_at TkRParen) (\<lambda>empty.
       pbind (if empty then preturn [] else pbind parse_event_param (\<lambda>p. items_after TkComma parse_event_param [p])) (\<lambda>ps.
       pbind (expect TkRParen) (\<lambda>_.
       preturn ps)))) (\<lambda>params.
     preturn \<lparr>ev_name = fst name, ev_params = params, ev_span = Some start\<rparr>)))))"

definition parse_assignment :: "ast_assignment parser" where
  "parse_assignment =
     pbind p_span (\<lambda>start. pbind parse_postfix (\<lambda>target.
     pbind (eat TkPlusAssign) (\<lambda>plus.
     pbind (if plus then preturn ''+='' else pbind (expect TkAssign) (\<lambda>_. preturn ''='')) (\<lambda>op.
     pbind parse_expr (\<lambda>e.
     preturn \<lparr>as_target = target, as_op = op, as_value = e, as_span = Some start\<rparr>)))))"

definition parse_delegate_clause :: "ast_delegate_clause parser" where
  "parse_delegate_clause =
     pbind p_span (\<lambda>start. pbind (expect TkDelegate) (\<lambda>_.
     pbind parse_postfix (\<lambda>target. pbind (expect TkLArrow) (\<lambda>_.
     pbind p_name (\<lambda>name.
     preturn \<lparr>dg_target = target, dg_event_name = name, dg_span = Some start\<rparr>)))))"

text \<open>The clauses of a transition; the flags say which of them have been met.\<close>

record transition_body =
  tb_events :: "ast_event_decl list"
  tb_guard :: "ast_expr option"
  tb_actions :: "ast_assignment list"
  tb_delegate :: "ast_delegate_clause option"
  tb_has_guard :: bool
  tb_has_action :: bool
  tb_has_delegate :: bool

definition parse_transition_clause :: "transition_body \<Rightarrow> transition_body parser" where
  "parse_transition_clause tb =
     pbind p_peek (\<lambda>k.
     if k = TkOn then pbind parse_event_decl (\<lambda>ev. preturn (tb\<lparr>tb_events := tb_events tb @ [ev]\<rparr>))
     else if k = TkGuard then
       (if tb_has_guard tb then p_error (MText (''duplicate '' @ quoted ''guard'' @ '' clause in transition''))
        else pbind p_advance (\<lambda>_. pbind parse_expr (\<lambda>e.
       preturn (tb\<lparr>tb_guard := Some e, tb_has_guard := True\<rparr>))))
     else if k = TkAction then
       (if tb_has_action tb then p_error (MText (''duplicate '' @ quoted ''action'' @ '' clause in transition''))
        else pbind p_advance (\<lambda>_. pbind (expect TkLBrace) (\<lambda>_.
       pbind (items_until TkRBrace TkSemicolon parse_assignment) (\<lambda>xs.
       pbind (expect TkRBrace) (\<lambda>_.
       preturn (tb\<lparr>tb_actions := tb_actions tb @ xs, tb_has_action := True\<rparr>))))))
     else if k = TkDelegate then
       (if tb_has_delegate tb then p_error (MText (''duplicate '' @ quoted ''delegate'' @ '' clause in transition''))
        else pbind parse_delegate_clause (\<lambda>d.
       preturn (tb\<lparr>tb_delegate := Some d, tb_has_delegate := True\<rparr>)))
     else p_error (MFound ''unexpected in transition: '' k))"

text \<open>\<open>while !at(RBrace) { ... }\<close> over a state of its own.\<close>

definition until_brace :: "('s \<Rightarrow> 's parser) \<Rightarrow> 's \<Rightarrow> 's parser" where
  "until_brace body =
     prepeat (\<lambda>s. pbind (p_at TkRBrace) (\<lambda>done.
     if done then stop s else pbind (body s) go_on))"

definition empty_transition :: transition_body where
  "empty_transition = \<lparr>tb_events = [], tb_guard = None, tb_actions = [], tb_delegate = None,
     tb_has_guard = False, tb_has_action = False, tb_has_delegate = False\<rparr>"

definition parse_transition :: "ast_transition_decl parser" where
  "parse_transition =
     pbind p_span (\<lambda>start. pbind (expect TkTransition) (\<lambda>_.
     pbind (eat TkStar) (\<lambda>star.
     pbind (if star then preturn ''*'' else p_name) (\<lambda>src.
     pbind (expect TkArrow) (\<lambda>_. pbind p_name (\<lambda>dst.
     pbind (expect TkLBrace) (\<lambda>_.
     pbind (until_brace parse_transition_clause empty_transition) (\<lambda>tb.
     pbind (expect TkRBrace) (\<lambda>_.
     preturn \<lparr>tr_src_state = src, tr_dst_state = dst, tr_events = tb_events tb, tr_guard = tb_guard tb,
       tr_actions = tb_actions tb, tr_delegate = tb_delegate tb, tr_span = Some start\<rparr>)))))))))"

record machine_body =
  mb_states :: "ast_state_decl list"
  mb_initial :: string
  mb_transitions :: "ast_transition_decl list"
  mb_verify :: "ast_verify_decl list"

definition parse_machine_item :: "machine_body \<Rightarrow> machine_body parser" where
  "parse_machine_item mb =
     pbind p_peek (\<lambda>k.
     if k = TkState then pbind parse_state_decl (\<lambda>s. preturn (mb\<lparr>mb_states := mb_states mb @ [s]\<rparr>))
     else if k = TkInitial then pbind p_advance (\<lambda>_. pbind p_name (\<lambda>n. preturn (mb\<lparr>mb_initial := n\<rparr>)))
     else if k = TkTransition then
       pbind parse_transition (\<lambda>t. preturn (mb\<lparr>mb_transitions := mb_transitions mb @ [t]\<rparr>))
     else if lit_name k = Some ''verify'' then
       pbind parse_verify_decl (\<lambda>v. preturn (mb\<lparr>mb_verify := mb_verify mb @ [v]\<rparr>))
     else p_error (MFound ''unexpected in state machine: '' k))"

definition parse_state_machine :: "ast_annotation list \<Rightarrow> bool \<Rightarrow> ast_state_machine_decl parser" where
  "parse_state_machine anns exported =
     pbind p_span (\<lambda>start. pbind (expect TkState) (\<lambda>_.
     pbind (expect TkMachine) (\<lambda>_. pbind p_name (\<lambda>name.
     pbind (expect TkLBrace) (\<lambda>_.
     pbind (until_brace parse_machine_item \<lparr>mb_states = [], mb_initial = [], mb_transitions = [], mb_verify = []\<rparr>) (\<lambda>mb.
     pbind (expect TkRBrace) (\<lambda>_.
     preturn \<lparr>sm_name = name, sm_states = mb_states mb, sm_initial_state = mb_initial mb,
       sm_transitions = mb_transitions mb, sm_verify_declarations = mb_verify mb, sm_annotations = anns,
       sm_exported = exported, sm_span = Some start\<rparr>)))))))"

section \<open>Modules\<close>

text \<open>\<open>while !at(RBrace) { item; if !eat(Comma) break; }\<close>\<close>

definition parse_asn1_names :: "string list parser" where
  "parse_asn1_names =
     prepeat (\<lambda>xs. pbind (p_at TkRBrace) (\<lambda>done.
     if done then stop xs
       else pbind p_name (\<lambda>n. pbind (eat TkComma) (\<lambda>more.
       if more then go_on (xs @ [n]) else stop (xs @ [n]))))) []"

definition parse_use_path :: "string option parser" where
  "parse_use_path =
     pbind token_as_name (\<lambda>nm.
     if nm = Some ''use''
     then pbind p_advance (\<lambda>_. pbind (name_parts TkColonColon) (\<lambda>parts.
       preturn (Some (join_with ''::'' parts))))
     else preturn None)"

definition parse_extern_asn1 :: "ast_top_item parser" where
  "parse_extern_asn1 =
     pbind p_span (\<lambda>start. pbind p_advance (\<lambda>_. pbind p_name (\<lambda>kw.
     if kw \<noteq> ''asn1''
     then p_error (MText (''expected '' @ quoted ''asn1'' @ '' after '' @ quoted ''extern'' @ '', found '' @ quoted kw))
     else
       pbind p_peek (\<lambda>k.
       case lit_string k of
         None \<Rightarrow> p_error (MText ''expected string literal for ASN.1 file path'')
       | Some path \<Rightarrow>
           pbind p_advance (\<lambda>_. pbind parse_use_path (\<lambda>rust_module.
         pbind (expect TkLBrace) (\<lambda>_. pbind parse_asn1_names (\<lambda>names.
         pbind (expect TkRBrace) (\<lambda>_.
         preturn (IExternAsn1 \<lparr>ex_path = path, ex_rust_module = rust_module, ex_type_names = names,
             ex_span = Some start\<rparr>))))))))))"

definition try_parse_top_item :: "ast_annotation list \<Rightarrow> ast_top_item option parser" where
  "try_parse_top_item anns =
     pbind (eat TkExport) (\<lambda>exported. pbind p_peek (\<lambda>k.
     if k = TkConst then pbind (parse_const anns exported) (\<lambda>d. preturn (Some (IConst d)))
     else if k = TkEnum then pbind (parse_enum anns exported) (\<lambda>d. preturn (Some (IEnum d)))
     else if k = TkFlags then pbind (parse_flags anns exported) (\<lambda>d. preturn (Some (IFlags d)))
     else if k = TkStaticAssert then
       (if exported then p_error (MText (quoted ''export'' @ '' is not allowed on static_assert''))
        else if anns \<noteq> [] then p_error (MText ''annotations are not allowed on static_assert'')
        else pbind parse_static_assert (\<lambda>d. preturn (Some (IStaticAssert d))))
     else if k = TkType then pbind (parse_type_def anns exported) (\<lambda>d. preturn (Some d))
     else if k = TkPacket then pbind (parse_packet anns exported) (\<lambda>d. preturn (Some (IPacket d)))
     else if k = TkFrame then pbind (parse_frame anns exported) (\<lambda>d. preturn (Some (IFrame d)))
     else if k = TkCapsule then pbind (parse_capsule anns exported) (\<lambda>d. preturn (Some (ICapsule d)))
     else if k = TkState then pbind (parse_state_machine anns exported) (\<lambda>d. preturn (Some (IStateMachine d)))
     else if lit_name k = Some ''extern'' then pbind parse_extern_asn1 (\<lambda>d. preturn (Some d))
     else if exported then p_error (MText (''expected definition after '' @ quoted ''export''))
     else if anns \<noteq> [] then p_error (MText ''dangling annotations'')
     else preturn None))"

text \<open>The local variables of the loop over the items.\<close>

record module_body =
  mo_pending :: "ast_annotation list"
  mo_file_annotations :: "ast_annotation list"
  mo_file_imports :: "ast_import list"
  mo_file_items :: "ast_top_item list"

definition parse_module_step :: "module_body \<Rightarrow> (module_body + module_body) parser" where
  "parse_module_step mb =
     pbind collect_annotations (\<lambda>anns. pbind p_peek (\<lambda>k.
     if k = TkEof then
       stop (mb\<lparr>mo_pending := [], mo_file_annotations := mo_file_annotations mb @ mo_pending mb @ anns\<rparr>)
     else if k = TkImport then
       pbind parse_import (\<lambda>i.
       go_on (mb\<lparr>mo_pending := [], mo_file_annotations := mo_file_annotations mb @ mo_pending mb @ anns,
         mo_file_imports := mo_file_imports mb @ [i]\<rparr>))
     else
       pbind (try_parse_top_item (mo_pending mb @ anns)) (\<lambda>item.
       case item of
         Some d \<Rightarrow> go_on (mb\<lparr>mo_pending := [], mo_file_items := mo_file_items mb @ [d]\<rparr>)
       | None \<Rightarrow>
           pbind p_peek (\<lambda>found.
         if found = TkEof then stop (mb\<lparr>mo_pending := []\<rparr>)
           else p_error (MFound ''unexpected token: '' found)))))"

definition parse_module :: "ast_module parser" where
  "parse_module =
     pbind p_span (\<lambda>start. pbind collect_annotations (\<lambda>pre.
     pbind (p_at TkModule) (\<lambda>has_decl.
     pbind (if has_decl then pbind parse_module_decl (\<lambda>d. preturn (Some d)) else preturn None) (\<lambda>decl.
     pbind collect_annotations (\<lambda>post.
     pbind (prepeat parse_module_step
       \<lparr>mo_pending = (if has_decl then [] else pre @ post), mo_file_annotations = (if has_decl then pre @ post else []),
        mo_file_imports = [], mo_file_items = []\<rparr>) (\<lambda>mb.
     preturn \<lparr>mo_module_decl = decl, mo_imports = mo_file_imports mb, mo_annotations = mo_file_annotations mb,
       mo_items = mo_file_items mb, mo_span = Some start\<rparr>))))))"

definition parse :: "string \<Rightarrow> parse_failure + ast_module" where
  "parse source =
     (case tokenize source of
        Inl e \<Rightarrow> Inl (PErr \<lparr>pe_msg = MText (le_msg e), pe_span = Some \<lparr>offset = of_nat (le_offset e), len = 0\<rparr>\<rparr>)
      | Inr ts \<Rightarrow> map_sum id fst (parse_module ts))"

end
