(* ===== verification/ParserSafe.thy ===== *)
theory ParserSafe
  imports Parser
begin

text \<open>
  The parser always answers: a weakest-precondition calculus for parsers, one rule per primitive and one
  for loops, and with it, for every function of the parser, how much of the input it consumes. It follows
  that the fuel of every loop and recursion is enough, and that no index is past the last token.
\<close>

section \<open>Token streams\<close>

text \<open>What the lexer delivers: the end marker is the last token, and only the last.\<close>

definition stream_ok :: "token list \<Rightarrow> bool" where
  "stream_ok ts \<longleftrightarrow> ts \<noteq> [] \<and> tk_kind (last ts) = TkEof \<and> (\<forall>t \<in> set (butlast ts). tk_kind t \<noteq> TkEof)"

lemma stream_ok_nonempty [simp]: "\<not> stream_ok []"
  by (simp add: stream_ok_def)

lemma stream_ok_Cons: "stream_ok (t # ts) \<longleftrightarrow> (if tk_kind t = TkEof then ts = [] else stream_ok ts)"
  by (auto simp: stream_ok_def)

lemma stream_ok_tl: "stream_ok ts \<Longrightarrow> tk_kind (hd ts) \<noteq> TkEof \<Longrightarrow> stream_ok (tl ts)"
  by (cases ts) (auto simp: stream_ok_Cons)

lemma stream_ok_length: "stream_ok ts \<Longrightarrow> tk_kind (hd ts) \<noteq> TkEof \<Longrightarrow> length (tl ts) < length ts"
  by (cases ts) auto

section \<open>Weakest preconditions\<close>

definition wp :: "'a parser \<Rightarrow> ('a \<Rightarrow> token list \<Rightarrow> bool) \<Rightarrow> token list \<Rightarrow> bool" where
  "wp p Q ts \<longleftrightarrow> (case p ts of Inl (PErr e) \<Rightarrow> True | Inl _ \<Rightarrow> False | Inr (x, ts') \<Rightarrow> Q x ts')"

text \<open>From a stream of at most \<open>n\<close> tokens: the parser stops with an error, or leaves no more (less) than it found.\<close>

definition keeps :: "nat \<Rightarrow> 'a parser \<Rightarrow> bool" where
  "keeps n p \<longleftrightarrow> (\<forall>ts. stream_ok ts \<longrightarrow> length ts \<le> n \<longrightarrow> wp p (\<lambda>x ts'. stream_ok ts' \<and> length ts' \<le> length ts) ts)"

definition eats :: "nat \<Rightarrow> 'a parser \<Rightarrow> bool" where
  "eats n p \<longleftrightarrow> (\<forall>ts. stream_ok ts \<longrightarrow> length ts \<le> n \<longrightarrow> wp p (\<lambda>x ts'. stream_ok ts' \<and> length ts' < length ts) ts)"

lemma wp_mono: "wp p Q ts \<Longrightarrow> (\<And>x ts'. Q x ts' \<Longrightarrow> R x ts') \<Longrightarrow> wp p R ts"
  by (auto simp: wp_def split: sum.splits parse_failure.splits)

lemma eats_keeps: "eats n p \<Longrightarrow> keeps n p"
  unfolding eats_def keeps_def by (metis (no_types, lifting) less_imp_le wp_mono)

lemma keepsI: "(\<And>ts. stream_ok ts \<Longrightarrow> length ts \<le> n \<Longrightarrow> wp p (\<lambda>x ts'. stream_ok ts' \<and> length ts' \<le> length ts) ts) \<Longrightarrow> keeps n p"
  by (simp add: keeps_def)

lemma eatsI: "(\<And>ts. stream_ok ts \<Longrightarrow> length ts \<le> n \<Longrightarrow> wp p (\<lambda>x ts'. stream_ok ts' \<and> length ts' < length ts) ts) \<Longrightarrow> eats n p"
  by (simp add: eats_def)

lemma wp_keeps:
  "keeps n p \<Longrightarrow> stream_ok ts \<Longrightarrow> length ts \<le> n \<Longrightarrow> (\<And>x ts'. stream_ok ts' \<Longrightarrow> length ts' \<le> length ts \<Longrightarrow> Q x ts') \<Longrightarrow> wp p Q ts"
  unfolding keeps_def by (metis (no_types, lifting) wp_mono)

lemma wp_eats:
  "eats n p \<Longrightarrow> stream_ok ts \<Longrightarrow> length ts \<le> n \<Longrightarrow> (\<And>x ts'. stream_ok ts' \<Longrightarrow> length ts' < length ts \<Longrightarrow> Q x ts') \<Longrightarrow> wp p Q ts"
  unfolding eats_def by (metis (no_types, lifting) wp_mono)

named_theorems wp_rules

lemma wp_return [wp_rules]: "Q x ts \<Longrightarrow> wp (preturn x) Q ts"
  by (simp add: wp_def preturn_def)

lemma wp_bind [wp_rules]: "wp m (\<lambda>x. wp (f x) Q) ts \<Longrightarrow> wp (pbind m f) Q ts"
  by (auto simp: wp_def pbind_def split: sum.splits parse_failure.splits)

lemma wp_if [wp_rules]:
  "(b \<Longrightarrow> wp p Q ts) \<Longrightarrow> (\<not> b \<Longrightarrow> wp q Q ts) \<Longrightarrow> wp (if b then p else q) Q ts"
  by simp

lemma wp_option [wp_rules]:
  "(x = None \<Longrightarrow> wp p Q ts) \<Longrightarrow> (\<And>y. x = Some y \<Longrightarrow> wp (f y) Q ts) \<Longrightarrow>
    wp (case x of None \<Rightarrow> p | Some y \<Rightarrow> f y) Q ts"
  by (cases x) simp_all

lemma wp_peek [wp_rules]: "stream_ok ts \<Longrightarrow> Q (tk_kind (hd ts)) ts \<Longrightarrow> wp p_peek Q ts"
  by (cases ts) (simp_all add: wp_def p_peek_def)

lemma wp_peek_second [wp_rules]:
  "stream_ok ts \<Longrightarrow> tk_kind (hd ts) \<noteq> TkEof \<Longrightarrow>
    (stream_ok (tl ts) \<Longrightarrow> length (tl ts) < length ts \<Longrightarrow> Q (tk_kind (hd (tl ts))) ts) \<Longrightarrow> wp p_peek_second Q ts"
  using stream_ok_tl [of ts]
  by (cases ts; cases "tl ts") (auto simp: wp_def p_peek_second_def)

lemma wp_span [wp_rules]: "stream_ok ts \<Longrightarrow> (\<And>s. Q s ts) \<Longrightarrow> wp p_span Q ts"
  by (cases ts) (simp_all add: wp_def p_span_def)

lemma wp_at [wp_rules]: "stream_ok ts \<Longrightarrow> Q (tk_kind (hd ts) = k) ts \<Longrightarrow> wp (p_at k) Q ts"
  by (cases ts) (simp_all add: wp_def p_at_def)

lemma wp_error [wp_rules]: "stream_ok ts \<Longrightarrow> wp (p_error msg) Q ts"
  by (cases ts) (simp_all add: wp_def p_error_def)

lemma wp_advance [wp_rules]:
  "stream_ok ts \<Longrightarrow> (tk_kind (hd ts) = TkEof \<Longrightarrow> Q (hd ts) ts) \<Longrightarrow>
    (tk_kind (hd ts) \<noteq> TkEof \<Longrightarrow> stream_ok (tl ts) \<Longrightarrow> length (tl ts) < length ts \<Longrightarrow> Q (hd ts) (tl ts)) \<Longrightarrow>
    wp p_advance Q ts"
  using stream_ok_tl [of ts] by (cases ts) (auto simp: wp_def p_advance_def)

lemma wp_restore [wp_rules]: "Q x ts0 \<Longrightarrow> wp (\<lambda>_. Inr (x, ts0)) Q ts"
  by (simp add: wp_def)

lemma keeps_repeat:
  fixes body :: "'a \<Rightarrow> ('a + 'b) parser"
  assumes "\<And>s ts. stream_ok ts \<Longrightarrow> length ts \<le> n \<Longrightarrow>
    wp (body s) (\<lambda>r ts'. stream_ok ts' \<and> length ts' \<le> length ts \<and> (isl r \<longrightarrow> length ts' < length ts)) ts"
  shows "keeps n (prepeat body s)"
proof (rule keepsI)
  have loop: "stream_ok ts \<Longrightarrow> length ts \<le> n \<Longrightarrow> length ts < k \<Longrightarrow>
      wp (ploop k body s) (\<lambda>x ts'. stream_ok ts' \<and> length ts' \<le> length ts) ts" for k s ts
  proof (induction k arbitrary: s ts)
    case (Suc k)
    have "wp (body s) (\<lambda>r. wp (case r of Inl s' \<Rightarrow> ploop k body s' | Inr x \<Rightarrow> preturn x)
        (\<lambda>x ts'. stream_ok ts' \<and> length ts' \<le> length ts)) ts"
    proof (rule wp_mono [OF assms [OF Suc.prems(1, 2), of s]])
      fix r :: "'a + 'b" and ts'
      assume r: "stream_ok ts' \<and> length ts' \<le> length ts \<and> (isl r \<longrightarrow> length ts' < length ts)"
      show "wp (case r of Inl s' \<Rightarrow> ploop k body s' | Inr x \<Rightarrow> preturn x)
          (\<lambda>x ts'. stream_ok ts' \<and> length ts' \<le> length ts) ts'"
      proof (cases r)
        case (Inl s')
        have "wp (ploop k body s') (\<lambda>x t. stream_ok t \<and> length t \<le> length ts') ts'"
          using r Inl Suc.prems by (intro Suc.IH) auto
        then show ?thesis using r Inl by (auto elim!: wp_mono)
      next
        case (Inr x)
        then show ?thesis using r by (simp add: wp_return)
      qed
    qed
    then show ?case by (simp add: wp_bind)
  qed simp
  fix ts
  assume "stream_ok ts" "length ts \<le> n"
  then have "wp (ploop (Suc (length ts)) body s) (\<lambda>x ts'. stream_ok ts' \<and> length ts' \<le> length ts) ts"
    by (intro loop) auto
  then show "wp (prepeat body s) (\<lambda>x ts'. stream_ok ts' \<and> length ts' \<le> length ts) ts"
    by (simp add: wp_def prepeat_def del: ploop.simps)
qed

lemma repeatI:
  assumes "\<And>s ts. stream_ok ts \<Longrightarrow> length ts \<le> n \<Longrightarrow>
    wp (body s) (\<lambda>r ts'. stream_ok ts' \<and> length ts' \<le> length ts \<and> (isl r \<longrightarrow> length ts' < length ts)) ts"
  shows "stream_ok ts \<Longrightarrow> length ts \<le> n \<Longrightarrow> (\<And>x ts'. stream_ok ts' \<Longrightarrow> length ts' \<le> length ts \<Longrightarrow> Q x ts') \<Longrightarrow>
    wp (prepeat body s) Q ts"
  using keeps_repeat [OF assms] by (rule wp_keeps)

section \<open>Helpers\<close>

lemma kinds_of_eof [simp]: "kind_as_name TkEof = None" "lit_name TkEof = None" "lit_int TkEof = None"
  "lit_string TkEof = None" "literal_of TkEof = None"
  by (simp_all add: kind_as_name_def NAME_KEYWORDS_def lit_name_def lit_int_def lit_string_def literal_of_def)

lemma named_someD: "kind_as_name k = Some n \<Longrightarrow> k \<noteq> TkEof" "lit_name k = Some n \<Longrightarrow> k \<noteq> TkEof"
  "lit_int k = Some i \<Longrightarrow> k \<noteq> TkEof" "lit_string k = Some n \<Longrightarrow> k \<noteq> TkEof" "literal_of k = Some v \<Longrightarrow> k \<noteq> TkEof"
  by auto

lemma wp_take_token:
  "stream_ok ts \<Longrightarrow> tk_kind (hd ts) \<noteq> TkEof \<Longrightarrow>
    (stream_ok (tl ts) \<Longrightarrow> length (tl ts) < length ts \<Longrightarrow> Q x (tl ts)) \<Longrightarrow> wp (take_token x) Q ts"
  unfolding take_token_def by (intro wp_rules) auto

declare wp_take_token [wp_rules]

lemma wp_expect [wp_rules]:
  "stream_ok ts \<Longrightarrow> k \<noteq> TkEof \<Longrightarrow>
    (\<And>x ts'. stream_ok ts' \<Longrightarrow> length ts' < length ts \<Longrightarrow> Q x ts') \<Longrightarrow> wp (expect k) Q ts"
  unfolding expect_def by (intro wp_rules) auto

lemma wp_eat [wp_rules]:
  "stream_ok ts \<Longrightarrow> k \<noteq> TkEof \<Longrightarrow> Q False ts \<Longrightarrow>
    (\<And>ts'. stream_ok ts' \<Longrightarrow> length ts' < length ts \<Longrightarrow> Q True ts') \<Longrightarrow> wp (eat k) Q ts"
  unfolding eat_def by (intro wp_rules) auto

lemma wp_expect_name [wp_rules]:
  "stream_ok ts \<Longrightarrow> (\<And>x ts'. stream_ok ts' \<Longrightarrow> length ts' < length ts \<Longrightarrow> Q x ts') \<Longrightarrow> wp expect_name Q ts"
  unfolding expect_name_def token_as_name_def by (intro wp_rules) (auto dest: named_someD)

lemma wp_expect_name_or_keyword [wp_rules]:
  "stream_ok ts \<Longrightarrow> (\<And>x ts'. stream_ok ts' \<Longrightarrow> length ts' < length ts \<Longrightarrow> Q x ts') \<Longrightarrow> wp expect_name_or_keyword Q ts"
  unfolding expect_name_or_keyword_def by (intro wp_rules) auto

lemma wp_name [wp_rules]:
  "stream_ok ts \<Longrightarrow> (\<And>x ts'. stream_ok ts' \<Longrightarrow> length ts' < length ts \<Longrightarrow> Q x ts') \<Longrightarrow> wp p_name Q ts"
  unfolding p_name_def by (intro wp_rules) auto

lemma wp_type_ref_name [wp_rules]:
  "stream_ok ts \<Longrightarrow> (\<And>x ts'. stream_ok ts' \<Longrightarrow> length ts' < length ts \<Longrightarrow> Q x ts') \<Longrightarrow> wp parse_type_ref_name Q ts"
  unfolding parse_type_ref_name_def token_as_name_def by (intro wp_rules) (auto dest: named_someD)

lemma wp_integer [wp_rules]:
  "stream_ok ts \<Longrightarrow> (\<And>x ts'. stream_ok ts' \<Longrightarrow> length ts' < length ts \<Longrightarrow> Q x ts') \<Longrightarrow> wp parse_integer Q ts"
  unfolding parse_integer_def by (intro wp_rules) (auto dest: named_someD)

lemma wp_literal_value [wp_rules]:
  "stream_ok ts \<Longrightarrow> (\<And>x ts'. stream_ok ts' \<Longrightarrow> length ts' < length ts \<Longrightarrow> Q x ts') \<Longrightarrow> wp parse_literal_value Q ts"
  unfolding parse_literal_value_def by (intro wp_rules) (auto dest: named_someD)

text \<open>The loops of the parser.\<close>

lemma keeps_items_until:
  "eats n item \<Longrightarrow> sep \<noteq> TkEof \<Longrightarrow> keeps n (items_until k sep item)"
  unfolding items_until_def by (rule keeps_repeat) (intro wp_rules wp_eats [of n item]; auto)

lemma keeps_items_after:
  "eats n item \<Longrightarrow> sep \<noteq> TkEof \<Longrightarrow> keeps n (items_after sep item start)"
  unfolding items_after_def by (rule keeps_repeat) (intro wp_rules wp_eats [of n item]; auto)

lemma keeps_until_brace:
  "(\<And>s. eats n (body s)) \<Longrightarrow> keeps n (until_brace body s)"
  unfolding until_brace_def by (rule keeps_repeat) (intro wp_rules wp_eats [of n "body _"]; auto)

lemma eats_left_assoc:
  "eats n sub \<Longrightarrow> map_of ops TkEof = None \<Longrightarrow> eats n (left_assoc ops sub)"
  unfolding left_assoc_def binary_step_def
  by (rule eatsI, intro wp_rules wp_eats [of n sub] wp_keeps [OF keeps_repeat [of n]]; auto)

section \<open>Expressions\<close>

text \<open>A parser of expressions that is good for \<open>n\<close> tokens makes every level good for one more.\<close>

lemma eats_primary_expr:
  "eats n pe \<Longrightarrow> eats (Suc n) (parse_primary_expr pe)"
  unfolding parse_primary_expr_def
  by (rule eatsI, intro wp_rules wp_eats [of n pe] wp_keeps [OF keeps_items_after [of n pe]];
      (auto dest: named_someD)?)

lemma eats_postfix_expr:
  "eats n pe \<Longrightarrow> eats (Suc n) (parse_postfix_expr pe)"
  unfolding parse_postfix_expr_def postfix_step_def
  by (rule eatsI, intro wp_rules wp_eats [of n pe] wp_eats [OF eats_primary_expr [of n pe]]
      wp_keeps [OF keeps_repeat [of n]]; (auto dest: named_someD)?)

lemma unary_ops_eof: "map_of unary_ops TkEof = None"
  by (simp add: unary_ops_def)

lemma eats_unary_fuel:
  "eats n pe \<Longrightarrow> stream_ok ts \<Longrightarrow> length ts \<le> Suc n \<Longrightarrow> length ts < m \<Longrightarrow>
    wp (parse_unary_fuel m pe) (\<lambda>x ts'. stream_ok ts' \<and> length ts' < length ts) ts"
proof (induction m arbitrary: ts)
  case (Suc m)
  note IH = Suc.IH [OF Suc.prems(1)]
  show ?case
    by (simp only: parse_unary_fuel.simps, intro wp_rules wp_mono [OF IH] wp_eats [OF eats_postfix_expr [OF Suc.prems(1)]])
      (use Suc.prems unary_ops_eof in auto)
qed simp

lemma eats_unary_expr:
  "eats n pe \<Longrightarrow> eats (Suc n) (parse_unary_expr pe)"
  using eats_unary_fuel by (intro eatsI) (auto simp: wp_def parse_unary_expr_def simp del: parse_unary_fuel.simps)

lemma eats_bitor_expr:
  assumes "eats n pe"
  shows "eats (Suc n) (parse_bitor_expr pe)"
  unfolding parse_bitor_expr_def parse_bitxor_expr_def parse_bitand_expr_def parse_shift_expr_def parse_add_expr_def
    parse_mul_expr_def by (intro eats_left_assoc eats_unary_expr assms) simp_all

lemma compare_ops_eof: "map_of compare_ops TkEof = None"
  by (simp add: compare_ops_def)

lemma eats_compare_expr:
  "eats n pe \<Longrightarrow> eats (Suc n) (parse_compare_expr pe)"
  unfolding parse_compare_expr_def
  by (rule eatsI, intro wp_rules wp_eats [OF eats_bitor_expr [of n pe]]) (auto simp: compare_ops_eof)

lemma eats_or_expr:
  assumes "eats n pe"
  shows "eats (Suc n) (parse_or_expr pe)"
  unfolding parse_or_expr_def parse_and_expr_def by (intro eats_left_assoc eats_compare_expr assms) simp_all

lemma eats_coalesce_expr:
  "eats n pe \<Longrightarrow> eats (Suc n) (parse_coalesce_expr pe)"
  unfolding parse_coalesce_expr_def
  by (rule eatsI, intro wp_rules wp_eats [OF eats_or_expr [of n pe]]) auto

lemma eats_zero: "eats 0 p"
  by (auto simp: eats_def)

lemma eats_expr_fuel: "eats n (parse_expr_fuel (Suc n))"
proof (induction n)
  case (Suc n)
  then show ?case using eats_coalesce_expr [of n "parse_expr_fuel (Suc n)"] by simp
qed (rule eats_zero)

lemma eats_of_fuel:
  assumes "\<And>n. eats n (p (Suc n))"
  shows "eats n (\<lambda>ts. p (Suc (length ts)) ts)"
  using assms by (auto simp: eats_def wp_def)

lemma eats_expr: "eats n parse_expr"
  unfolding parse_expr_def by (rule eats_of_fuel [OF eats_expr_fuel])

text \<open>What a function of the parser leaves, as rules of the calculus.\<close>

lemma wp_eats_all: "(\<And>n. eats n p) \<Longrightarrow> stream_ok ts \<Longrightarrow>
    (\<And>x ts'. stream_ok ts' \<Longrightarrow> length ts' < length ts \<Longrightarrow> Q x ts') \<Longrightarrow> wp p Q ts"
  by (rule wp_eats [of "length ts"]) auto

lemma wp_keeps_all: "(\<And>n. keeps n p) \<Longrightarrow> stream_ok ts \<Longrightarrow>
    (\<And>x ts'. stream_ok ts' \<Longrightarrow> length ts' \<le> length ts \<Longrightarrow> Q x ts') \<Longrightarrow> wp p Q ts"
  by (rule wp_keeps [of "length ts"]) auto

lemmas wp_expr [wp_rules] = wp_eats_all [OF eats_expr]

lemma eats_postfix: "eats n parse_postfix"
  unfolding parse_postfix_def using eats_postfix_expr [OF eats_expr, of n] by (auto simp: eats_def)

lemmas wp_postfix [wp_rules] = wp_eats_all [OF eats_postfix]

section \<open>Annotations, patterns, types\<close>

lemma annotation_literal_eof: "annotation_literal TkEof = None" "annotation_value TkEof = None"
  by (simp_all add: annotation_literal_def annotation_value_def)

lemma wp_annotation_arg [wp_rules]:
  "stream_ok ts \<Longrightarrow> (\<And>x ts'. stream_ok ts' \<Longrightarrow> length ts' < length ts \<Longrightarrow> Q x ts') \<Longrightarrow> wp parse_annotation_arg Q ts"
  unfolding parse_annotation_arg_def
  by (intro wp_rules) (auto simp: annotation_literal_eof dest: named_someD)

lemma wp_annotation_args [wp_rules]:
  "stream_ok ts \<Longrightarrow> (\<And>x ts'. stream_ok ts' \<Longrightarrow> length ts' < length ts \<Longrightarrow> Q x ts') \<Longrightarrow> wp parse_annotation_args Q ts"
  unfolding parse_annotation_args_def
  by (intro wp_rules wp_keeps_all [OF keeps_repeat]; (auto; fail)?)

lemma eats_annotation: "eats n parse_annotation"
  unfolding parse_annotation_def
  by (rule eatsI, intro wp_rules; (auto simp: annotation_literal_eof; fail)?)

lemmas wp_annotation [wp_rules] = wp_eats_all [OF eats_annotation]

lemma keeps_annotations: "keeps n collect_annotations"
  unfolding collect_annotations_def by (rule keeps_repeat) (intro wp_rules; auto)

lemmas wp_annotations [wp_rules] = wp_keeps_all [OF keeps_annotations]

lemma wp_name_parts [wp_rules]:
  "stream_ok ts \<Longrightarrow> sep \<noteq> TkEof \<Longrightarrow>
    (\<And>x ts'. stream_ok ts' \<Longrightarrow> length ts' < length ts \<Longrightarrow> Q x ts') \<Longrightarrow> wp (name_parts sep) Q ts"
  unfolding name_parts_def
  by (intro wp_rules wp_keeps_all [OF keeps_items_after]; (auto intro!: eatsI wp_rules)?)

lemma eats_pattern: "eats n parse_pattern"
  unfolding parse_pattern_def
  by (rule eatsI, intro wp_rules; (auto dest: named_someD; fail)?)

lemmas wp_pattern [wp_rules] = wp_eats_all [OF eats_pattern]

lemma wp_asn1_type_expr [wp_rules]:
  "stream_ok ts \<Longrightarrow> (\<And>x ts'. stream_ok ts' \<Longrightarrow> length ts' < length ts \<Longrightarrow> Q x ts') \<Longrightarrow>
    wp (parse_asn1_type_expr start) Q ts"
  unfolding parse_asn1_type_expr_def by (intro wp_rules; (auto; fail)?)

lemma eats_match_branch:
  "eats n pt \<Longrightarrow> eats n (parse_match_branch pt)"
  unfolding parse_match_branch_def by (rule eatsI, intro wp_rules wp_eats [of n pt]; (auto; fail)?)

lemma eats_match_type_expr:
  "eats n pt \<Longrightarrow> eats (Suc n) (parse_match_type_expr pt)"
  unfolding parse_match_type_expr_def
  by (rule eatsI, intro wp_rules wp_keeps [OF keeps_items_until [OF eats_match_branch [of n pt]]]; (auto; fail)?)

lemma eats_optional_type_expr:
  "eats n pt \<Longrightarrow> eats (Suc n) (parse_optional_type_expr pt)"
  unfolding parse_optional_type_expr_def
  by (rule eatsI, intro wp_rules wp_eats [of n pt]; (auto; fail)?)

lemma eats_array_type_expr:
  "eats n pt \<Longrightarrow> eats (Suc n) (parse_array_type_expr pt)"
  unfolding parse_array_type_expr_def
  by (rule eatsI, intro wp_rules wp_eats [of n pt]; (auto; fail)?)

lemma bytes_length_kind_eof: "bytes_length_kind TkEof = None"
  by (simp add: bytes_length_kind_def)

lemma wp_bytes_expr [wp_rules]:
  "stream_ok ts \<Longrightarrow> (\<And>x ts'. stream_ok ts' \<Longrightarrow> length ts' < length ts \<Longrightarrow> Q x ts') \<Longrightarrow> wp (bytes_expr start kind) Q ts"
  unfolding bytes_expr_def by (intro wp_rules; (auto; fail)?)

lemma wp_bytes_fixed_or_expr [wp_rules]:
  "stream_ok ts \<Longrightarrow> (\<And>x ts'. stream_ok ts' \<Longrightarrow> length ts' < length ts \<Longrightarrow> Q x ts') \<Longrightarrow> wp (bytes_fixed_or_expr start) Q ts"
  unfolding bytes_fixed_or_expr_def by (intro wp_rules; (auto dest: named_someD; fail)?)

lemma eats_bytes_type_expr: "eats n parse_bytes_type_expr"
  unfolding parse_bytes_type_expr_def
  by (rule eatsI, intro wp_rules; (auto simp: bytes_length_kind_eof; fail)?)

lemma eats_bits_type_expr: "eats n parse_bits_type_expr"
  unfolding parse_bits_type_expr_def by (rule eatsI, intro wp_rules; (auto; fail)?)

lemma eats_named_type_expr: "eats n parse_named_type_expr"
  unfolding parse_named_type_expr_def by (rule eatsI, intro wp_rules; (auto; fail)?)

lemma eats_type_expr_fuel: "eats n (parse_type_expr_fuel (Suc n))"
proof (induction n)
  case (Suc n)
  show ?case
    by (simp only: parse_type_expr_fuel.simps(2) [of "Suc n"], rule eatsI,
        intro wp_rules wp_eats [OF eats_match_type_expr [OF Suc]] wp_eats [OF eats_optional_type_expr [OF Suc]]
          wp_eats [OF eats_array_type_expr [OF Suc]] wp_eats_all [OF eats_bytes_type_expr]
          wp_eats_all [OF eats_bits_type_expr] wp_eats_all [OF eats_named_type_expr]) auto
qed (rule eats_zero)

lemma eats_type_expr: "eats n parse_type_expr"
  unfolding parse_type_expr_def by (rule eats_of_fuel [OF eats_type_expr_fuel])

lemmas wp_type_expr [wp_rules] = wp_eats_all [OF eats_type_expr]

section \<open>Fields and declarations\<close>

lemma eats_struct_field: "eats n parse_struct_field"
  unfolding parse_struct_field_def by (rule eatsI, intro wp_rules; (auto; fail)?)

lemmas wp_struct_field [wp_rules] = wp_eats_all [OF eats_struct_field]

lemma eats_field_item: "eats n parse_field_item"
  unfolding parse_field_item_def by (rule eatsI, intro wp_rules; (auto; fail)?)

lemmas wp_field_item [wp_rules] = wp_eats_all [OF eats_field_item]

lemma keeps_field_lists: "keeps n parse_field_list" "keeps n parse_struct_field_list"
  unfolding parse_field_list_def parse_struct_field_list_def
  by (intro keeps_items_until eats_field_item eats_struct_field, simp)+

lemmas wp_field_lists [wp_rules] =
  wp_keeps_all [OF keeps_field_lists(1)] wp_keeps_all [OF keeps_field_lists(2)]

lemma eats_enum_member: "eats n parse_enum_member"
  unfolding parse_enum_member_def by (rule eatsI, intro wp_rules; (auto; fail)?)

lemmas wp_enum_members [wp_rules] = wp_keeps_all [OF keeps_items_until [OF eats_enum_member]]

lemma eats_simple_decls:
  "eats n (parse_const anns exported)" "eats n (parse_enum anns exported)" "eats n (parse_flags anns exported)"
  "eats n parse_static_assert" "eats n (parse_packet anns exported)"
  unfolding parse_const_def parse_enum_def parse_flags_def parse_static_assert_def parse_packet_def
  by (rule eatsI, intro wp_rules; (auto; fail)?)+

lemma wp_u8_param [wp_rules]:
  "stream_ok ts \<Longrightarrow> (\<And>x ts'. stream_ok ts' \<Longrightarrow> length ts' < length ts \<Longrightarrow> Q x ts') \<Longrightarrow> wp (parse_u8_param what) Q ts"
  unfolding parse_u8_param_def by (intro wp_rules; (auto; fail)?)

lemma wp_varint_param [wp_rules]:
  "stream_ok ts \<Longrightarrow> (\<And>x ts'. stream_ok ts' \<Longrightarrow> length ts' < length ts \<Longrightarrow> Q x ts') \<Longrightarrow> wp (parse_varint_param vp) Q ts"
  unfolding parse_varint_param_def by (intro wp_rules; (auto; fail)?)

lemma wp_continuation_varint [wp_rules]:
  "stream_ok ts \<Longrightarrow> (\<And>x ts'. stream_ok ts' \<Longrightarrow> length ts' < length ts \<Longrightarrow> Q x ts') \<Longrightarrow>
    wp (parse_continuation_varint name anns exported start) Q ts"
  unfolding parse_continuation_varint_def
  by (intro wp_rules wp_keeps_all [OF keeps_repeat]; (auto; fail)?)

lemma eats_type_def: "eats n (parse_type_def anns exported)"
  unfolding parse_type_def_def by (rule eatsI, intro wp_rules; (auto; fail)?)

lemma eats_frame_branch: "eats n parse_frame_branch"
  unfolding parse_frame_branch_def by (rule eatsI, intro wp_rules; (auto; fail)?)

lemma keeps_frame_branches: "keeps n parse_frame_branches"
  unfolding parse_frame_branches_def by (intro keeps_items_until eats_frame_branch) simp

lemmas wp_frame_branches [wp_rules] = wp_keeps_all [OF keeps_frame_branches]

lemma eats_frame: "eats n (parse_frame anns exported)"
  unfolding parse_frame_def by (rule eatsI, intro wp_rules; (auto; fail)?)

lemma wp_restoring: "wp (p ts) Q ts \<Longrightarrow> wp (\<lambda>ts. p ts ts) Q ts"
  by (simp add: wp_def)

lemma wp_payload_next [wp_rules]:
  "stream_ok ts \<Longrightarrow> Q False ts \<Longrightarrow> (\<And>ts'. stream_ok ts' \<Longrightarrow> length ts' < length ts \<Longrightarrow> Q True ts') \<Longrightarrow>
    wp payload_next Q ts"
  unfolding payload_next_def by (rule wp_restoring, intro wp_rules; (auto dest: named_someD; fail)?)

lemma keeps_capsule_header: "keeps n parse_capsule_header"
  unfolding parse_capsule_header_def by (rule keeps_repeat) (intro wp_rules; auto)

lemmas wp_capsule_header [wp_rules] = wp_keeps_all [OF keeps_capsule_header]

lemma wp_payload_tag [wp_rules]:
  "stream_ok ts \<Longrightarrow> (\<And>x ts'. stream_ok ts' \<Longrightarrow> length ts' < length ts \<Longrightarrow> Q x ts') \<Longrightarrow> wp parse_payload_tag Q ts"
  unfolding parse_payload_tag_def by (intro wp_rules; (auto; fail)?)

lemma eats_capsule: "eats n (parse_capsule anns exported)"
  unfolding parse_capsule_def by (rule eatsI, intro wp_rules; (auto; fail)?)

section \<open>Verify formulas\<close>

lemma wp_eat_pair [wp_rules]:
  "stream_ok ts \<Longrightarrow> a \<noteq> TkEof \<Longrightarrow> b \<noteq> TkEof \<Longrightarrow> Q False ts \<Longrightarrow>
    (\<And>ts'. stream_ok ts' \<Longrightarrow> length ts' < length ts \<Longrightarrow> Q True ts') \<Longrightarrow> wp (eat_pair a b) Q ts"
  unfolding eat_pair_def by (rule wp_restoring, intro wp_rules; (auto; fail)?)

lemma eats_verify_primary:
  "eats n pf \<Longrightarrow> eats (Suc n) (parse_verify_primary pf)"
  unfolding parse_verify_primary_def
  by (rule eatsI, intro wp_rules wp_eats [of n pf] wp_keeps_all [OF keeps_items_after];
      (auto intro!: eatsI wp_rules dest: named_someD; fail)?)

lemma eats_verify_unary_fuel:
  "eats n pf \<Longrightarrow> stream_ok ts \<Longrightarrow> length ts \<le> Suc n \<Longrightarrow> length ts < m \<Longrightarrow>
    wp (parse_verify_unary_fuel m pf) (\<lambda>x ts'. stream_ok ts' \<and> length ts' < length ts) ts"
proof (induction m arbitrary: ts)
  case (Suc m)
  note IH = Suc.IH [OF Suc.prems(1)]
  show ?case
    by (simp only: parse_verify_unary_fuel.simps,
        intro wp_rules wp_mono [OF IH] wp_eats [OF eats_verify_primary [OF Suc.prems(1)]])
      (use Suc.prems in auto)
qed simp

lemma eats_verify_unary:
  "eats n pf \<Longrightarrow> eats (Suc n) (parse_verify_unary pf)"
  using eats_verify_unary_fuel
  by (intro eatsI) (auto simp: wp_def parse_verify_unary_def simp del: parse_verify_unary_fuel.simps)

lemma eats_verify_compare:
  "eats n pf \<Longrightarrow> eats (Suc n) (parse_verify_compare pf)"
  unfolding parse_verify_compare_def
  by (rule eatsI, intro wp_rules wp_eats [OF eats_verify_unary [of n pf]]) (auto simp: verify_compare_ops_def)

lemma eats_left_assoc_formula:
  "eats n sub \<Longrightarrow> map_of ops TkEof = None \<Longrightarrow> eats n (left_assoc_formula ops sub)"
  unfolding left_assoc_formula_def
  by (rule eatsI, intro wp_rules wp_eats [of n sub] wp_keeps [OF keeps_repeat [of n]]; auto)

lemma eats_verify_implies:
  assumes "eats n pf"
  shows "eats (Suc n) (parse_verify_implies pf)"
  unfolding parse_verify_implies_def parse_verify_or_def parse_verify_and_def
  by (intro eats_left_assoc_formula eats_verify_compare assms) simp_all

lemma eats_verify_formula_fuel: "eats n (parse_verify_formula_fuel (Suc n))"
proof (induction n)
  case (Suc n)
  then show ?case using eats_verify_implies [of n "parse_verify_formula_fuel (Suc n)"] by simp
qed (rule eats_zero)

lemma eats_verify_formula: "eats n parse_verify_formula"
  unfolding parse_verify_formula_def by (rule eats_of_fuel [OF eats_verify_formula_fuel])

lemmas wp_verify_formula [wp_rules] = wp_eats_all [OF eats_verify_formula]

lemma wp_verify_decl [wp_rules]:
  "stream_ok ts \<Longrightarrow> (\<And>x ts'. stream_ok ts' \<Longrightarrow> length ts' < length ts \<Longrightarrow> Q x ts') \<Longrightarrow> wp parse_verify_decl Q ts"
  unfolding parse_verify_decl_def by (intro wp_rules; (auto dest: named_someD; fail)?)

section \<open>State machines\<close>

lemma eats_state_parts: "eats n parse_state_field" "eats n parse_event_param" "eats n parse_assignment"
  unfolding parse_state_field_def parse_event_param_def parse_assignment_def
  by (rule eatsI, intro wp_rules; (auto; fail)?)+

lemmas wp_state_parts [wp_rules] =
  wp_keeps_all [OF keeps_items_until [OF eats_state_parts(1)]] wp_eats_all [OF eats_state_parts(2)]
  wp_keeps_all [OF keeps_items_after [OF eats_state_parts(2)]] wp_keeps_all [OF keeps_items_until [OF eats_state_parts(3)]]

lemma eats_clauses: "eats n parse_state_decl" "eats n parse_event_decl" "eats n parse_delegate_clause"
  unfolding parse_state_decl_def parse_event_decl_def parse_delegate_clause_def
  by (rule eatsI, intro wp_rules; (auto; fail)?)+

lemmas wp_clauses [wp_rules] =
  wp_eats_all [OF eats_clauses(1)] wp_eats_all [OF eats_clauses(2)] wp_eats_all [OF eats_clauses(3)]

lemma eats_transition_clause: "eats n (parse_transition_clause tb)"
  unfolding parse_transition_clause_def by (rule eatsI, intro wp_rules; (auto; fail)?)

lemmas wp_transition_clauses [wp_rules] = wp_keeps_all [OF keeps_until_brace [OF eats_transition_clause]]

lemma eats_transition: "eats n parse_transition"
  unfolding parse_transition_def by (rule eatsI, intro wp_rules; (auto; fail)?)

lemmas wp_transition [wp_rules] = wp_eats_all [OF eats_transition]

lemma eats_machine_item: "eats n (parse_machine_item mb)"
  unfolding parse_machine_item_def by (rule eatsI, intro wp_rules; (auto; fail)?)

lemmas wp_machine_items [wp_rules] = wp_keeps_all [OF keeps_until_brace [OF eats_machine_item]]

lemma eats_state_machine: "eats n (parse_state_machine anns exported)"
  unfolding parse_state_machine_def by (rule eatsI, intro wp_rules; (auto; fail)?)

section \<open>Modules\<close>

lemma wp_asn1_names [wp_rules]:
  "stream_ok ts \<Longrightarrow> (\<And>x ts'. stream_ok ts' \<Longrightarrow> length ts' \<le> length ts \<Longrightarrow> Q x ts') \<Longrightarrow> wp parse_asn1_names Q ts"
  unfolding parse_asn1_names_def by (intro wp_rules wp_keeps_all [OF keeps_repeat]; (auto; fail)?)

lemma wp_use_path [wp_rules]:
  "stream_ok ts \<Longrightarrow> (\<And>x ts'. stream_ok ts' \<Longrightarrow> length ts' \<le> length ts \<Longrightarrow> Q x ts') \<Longrightarrow> wp parse_use_path Q ts"
  unfolding parse_use_path_def token_as_name_def by (intro wp_rules; (auto; fail)?)

lemma eats_extern_asn1: "eats n parse_extern_asn1"
  unfolding parse_extern_asn1_def by (rule eatsI, intro wp_rules; (auto dest: named_someD; fail)?)

lemma wp_import [wp_rules]:
  "stream_ok ts \<Longrightarrow> (\<And>x ts'. stream_ok ts' \<Longrightarrow> length ts' < length ts \<Longrightarrow> Q x ts') \<Longrightarrow> wp parse_import Q ts"
  unfolding parse_import_def by (intro wp_rules; (auto; fail)?)

lemma wp_module_decl [wp_rules]:
  "stream_ok ts \<Longrightarrow> (\<And>x ts'. stream_ok ts' \<Longrightarrow> length ts' < length ts \<Longrightarrow> Q x ts') \<Longrightarrow> wp parse_module_decl Q ts"
  unfolding parse_module_decl_def parse_dotted_name_def by (intro wp_rules; (auto; fail)?)

lemmas wp_top_items =
  wp_eats_all [OF eats_simple_decls(1)] wp_eats_all [OF eats_simple_decls(2)] wp_eats_all [OF eats_simple_decls(3)]
  wp_eats_all [OF eats_simple_decls(4)] wp_eats_all [OF eats_simple_decls(5)] wp_eats_all [OF eats_type_def]
  wp_eats_all [OF eats_frame] wp_eats_all [OF eats_capsule] wp_eats_all [OF eats_state_machine]
  wp_eats_all [OF eats_extern_asn1]

lemma wp_top_item [wp_rules]:
  "stream_ok ts \<Longrightarrow> (\<And>ts'. stream_ok ts' \<Longrightarrow> length ts' \<le> length ts \<Longrightarrow> Q None ts') \<Longrightarrow>
    (\<And>x ts'. stream_ok ts' \<Longrightarrow> length ts' < length ts \<Longrightarrow> Q (Some x) ts') \<Longrightarrow> wp (try_parse_top_item anns) Q ts"
  unfolding try_parse_top_item_def by (intro wp_rules wp_top_items; (auto; fail)?)

lemma keeps_module: "keeps n parse_module"
  unfolding parse_module_def parse_module_step_def
  by (rule keepsI, intro wp_rules wp_keeps_all [OF keeps_repeat]; (auto; fail)?)

section \<open>The lexer delivers such a stream\<close>

lemma lex_string_kind: "lex_string_loop n src chars r = Inr (t, rest) \<Longrightarrow> \<exists>s. tk_kind t = TkStringLit s"
proof (induction n src chars r rule: lex_string_loop.induct)
  case (2 n src chars c r)
  consider (quote) "c = CHR 0x22" | (escape) "c = CHR 0x5C" | (other) "c \<noteq> CHR 0x22" "c \<noteq> CHR 0x5C" by blast
  then show ?case
  proof cases
    case quote
    then show ?thesis using 2 by auto
  next
    case escape
    then obtain esc r' v where r: "r = esc # r'" "unescape esc = Some v"
      using 2 by (auto simp: lex_fail_def simp del: unescape.simps split: list.splits option.splits)
    then show ?thesis using 2 escape by (simp del: unescape.simps)
  next
    case other
    then show ?thesis using 2 by simp
  qed
qed (simp add: lex_fail_def)

lemma keyword_kinds: "list_all (\<lambda>(s, k). k \<noteq> TkEof) KEYWORDS"
  by code_simp

lemma name_kind_not_eof: "name_kind s \<noteq> TkEof"
  using keyword_kinds by (auto simp: name_kind_def list_all_iff split: option.splits dest!: map_of_SomeD)

lemma lex_punct_kind: "lex_punct c r = Some (k, rest) \<Longrightarrow> k \<noteq> TkEof"
  by (auto simp: lex_punct_def if_next_def split: if_splits)

lemma lex_number_kind: "lex_number n b ok what src body = Inr (t, rest) \<Longrightarrow> \<exists>i. tk_kind t = TkInteger i"
  by (auto simp: lex_number_def Let_def lex_fail_def split: option.splits)

lemma lex_radix_kind:
  "lex_hex n src body = Inr (t, rest) \<Longrightarrow> \<exists>i. tk_kind t = TkInteger i"
  "lex_binary n src body = Inr (t, rest) \<Longrightarrow> \<exists>i. tk_kind t = TkInteger i"
  "lex_decimal n src = Inr (t, rest) \<Longrightarrow> \<exists>i. tk_kind t = TkInteger i"
  using lex_number_kind by (auto simp: lex_hex_def lex_binary_def lex_decimal_def lex_fail_def split: if_splits)

lemma lex_name_kind: "lex_name n src = Inr (t, rest) \<Longrightarrow> tk_kind t \<noteq> TkEof"
  by (auto simp: lex_name_def Let_def name_kind_not_eof)

lemma next_token_not_eof:
  assumes "next_token n c r = Inr (t, rest)"
  shows "tk_kind t \<noteq> TkEof"
proof (cases "lex_punct c r")
  case (Some p)
  then show ?thesis using assms lex_punct_kind by (cases p) (auto simp: next_token_def Let_def)
next
  case None
  note h = assms [unfolded next_token_def Let_def None option.case]
  consider "tk_kind t = TkQuestionQuestion" | "lex_string_loop n (c # r) [] r = Inr (t, rest)"
    | "lex_hex n (c # r) (tl r) = Inr (t, rest)" | "lex_binary n (c # r) (tl r) = Inr (t, rest)"
    | "lex_decimal n (c # r) = Inr (t, rest)" | "lex_name n (c # r) = Inr (t, rest)"
    using h by (auto simp: lex_fail_def simp del: lex_string_loop.simps split: if_splits)
  then show ?thesis
    by cases (auto dest: lex_string_kind lex_radix_kind lex_name_kind)
qed

lemma tokenize_loop_stream:
  "tokenize_loop n src acc = Inr ts \<Longrightarrow> \<forall>t \<in> set acc. tk_kind t \<noteq> TkEof \<Longrightarrow> stream_ok ts"
proof (induction n src acc arbitrary: ts rule: tokenize_loop.induct)
  case (1 n src acc)
  show ?case
  proof (cases "skip_whitespace_and_comments src")
    case Nil
    then show ?thesis using "1.prems" by (subst (asm) tokenize_loop.simps) (auto simp: stream_ok_def eof_token_def)
  next
    case (Cons c r)
    then obtain t rest where t: "next_token n c r = Inr (t, rest)"
      using "1.prems" by (subst (asm) tokenize_loop.simps) (auto split: sum.splits)
    then have "tokenize_loop n rest (acc @ [t]) = Inr ts"
      using "1.prems" Cons by (subst (asm) tokenize_loop.simps) simp
    then show ?thesis using 1 Cons t next_token_not_eof [OF t] by simp
  qed
qed

lemma parse_answers: "parse source = Inl f \<Longrightarrow> \<exists>e. f = PErr e"
proof (cases "tokenize source")
  case (Inr ts)
  then have "stream_ok ts" unfolding tokenize_def by (rule tokenize_loop_stream) simp
  then have "wp parse_module (\<lambda>_ _. True) ts"
    using keeps_module [of "length ts"] by (auto intro!: wp_keeps [OF keeps_module])
  moreover assume "parse source = Inl f"
  ultimately show ?thesis
    using Inr by (auto simp: parse_def wp_def split: sum.splits parse_failure.splits)
qed (auto simp: parse_def)

text \<open>C16. Parsing always answers: for every source the parser delivers a module or a parse error. It never
  indexes past the last token, and the recursion and every loop of it end: each round and each
  recursive call consumes a token, so that the number of tokens and one more bounds them all.\<close>

theorem parse_total: "(\<exists>m. parse source = Inr m) \<or> (\<exists>e. parse source = Inl (PErr e))"
  using parse_answers [of source] by (cases "parse source") auto

end
