(* ===== verification/ParserRound.thy ===== *)
theory ParserRound
  imports Parser
begin

text \<open>
  Printing expressions and reading them back: a printer that brackets an operand exactly where the
  precedence of the grammar needs it, and the proof that lexer and parser read its output back.
\<close>

section \<open>The printer\<close>

text \<open>The precedence levels of the grammar, from \<open>??\<close> at 0 to the primary expressions at 12.\<close>

fun binop_level :: "binop \<Rightarrow> nat" where
  "binop_level Or = 1" | "binop_level And = 2"
| "binop_level Eq = 3" | "binop_level Ne = 3" | "binop_level Lt = 3" | "binop_level Le = 3"
| "binop_level Gt = 3" | "binop_level Ge = 3"
| "binop_level BitOr = 4" | "binop_level BitXor = 5" | "binop_level BitAnd = 6"
| "binop_level Shl = 7" | "binop_level Shr = 7" | "binop_level Add = 8" | "binop_level Sub = 8"
| "binop_level Mul = 9" | "binop_level Div = 9" | "binop_level Mod = 9"

fun binop_token :: "binop \<Rightarrow> token_kind" where
  "binop_token Or = TkOr" | "binop_token And = TkAnd"
| "binop_token Eq = TkEqEq" | "binop_token Ne = TkBangEq" | "binop_token Lt = TkLt" | "binop_token Le = TkLe"
| "binop_token Gt = TkGt" | "binop_token Ge = TkGe"
| "binop_token BitOr = TkPipe" | "binop_token BitXor = TkCaret" | "binop_token BitAnd = TkAmp"
| "binop_token Shl = TkShl" | "binop_token Shr = TkShr" | "binop_token Add = TkPlus" | "binop_token Sub = TkMinus"
| "binop_token Mul = TkStar" | "binop_token Div = TkSlash" | "binop_token Mod = TkPercent"

text \<open>Comparisons do not associate: their left operand is printed one level up as well.\<close>

definition left_level :: "binop \<Rightarrow> nat" where
  "left_level op = (if binop_level op = 3 then 4 else binop_level op)"

fun unaryop_token :: "unaryop \<Rightarrow> token_kind" where
  "unaryop_token Not = TkBang"
| "unaryop_token Neg = TkMinus"

fun expr_level :: "ast_expr \<Rightarrow> nat" where
  "expr_level (ECoalesce a b s) = 0"
| "expr_level (EBinary op l r s) = binop_level op"
| "expr_level (EUnary op e s) = 10"
| "expr_level (EMemberAccess b f s) = 11"
| "expr_level (ESubscript b i s) = 11"
| "expr_level (ESlice b i j s) = 11"
| "expr_level (EInState e n s) = 11"
| "expr_level e = 12"

definition bracketed :: "bool \<Rightarrow> token_kind list \<Rightarrow> token_kind list" where
  "bracketed b ks = (if b then TkLParen # ks @ [TkRParen] else ks)"

fun with_commas :: "token_kind list list \<Rightarrow> token_kind list" where
  "with_commas [] = []"
| "with_commas (ks # kss) = ks @ concat (map ((#) TkComma) kss)"

fun show_expr :: "nat \<Rightarrow> ast_expr \<Rightarrow> token_kind list" where
  "show_expr L (EInt v s) = [TkInteger v]"
| "show_expr L (EBool b s) = [if b then TkTrue else TkFalse]"
| "show_expr L (ENull s) = [TkNull]"
| "show_expr L (ENameRef n s) = [name_kind n]"
| "show_expr L (EMemberAccess b f s) = bracketed (11 < L) (show_expr 11 b @ [TkDot, name_kind f])"
| "show_expr L (EBinary op l r s) =
     bracketed (binop_level op < L) (show_expr (left_level op) l @ binop_token op # show_expr (Suc (binop_level op)) r)"
| "show_expr L (EUnary op e s) = bracketed (10 < L) (unaryop_token op # show_expr 10 e)"
| "show_expr L (ECoalesce a b s) = bracketed (0 < L) (show_expr 1 a @ TkQuestionQuestion # show_expr 1 b)"
| "show_expr L (EInState e n s) = bracketed (11 < L) (show_expr 11 e @ [TkInState, TkLParen, name_kind n, TkRParen])"
| "show_expr L (ESubscript b i s) = bracketed (11 < L) (show_expr 11 b @ TkLBracket # show_expr 0 i @ [TkRBracket])"
| "show_expr L (EStateConstructor m n args s) =
     [name_kind m, TkColonColon, name_kind n, TkLParen] @ with_commas (map (show_expr 0) args) @ [TkRParen]"
| "show_expr L (EFill v c s) = [TkFill, TkLParen] @ show_expr 0 v @ TkComma # show_expr 0 c @ [TkRParen]"
| "show_expr L (ESlice b i j s) =
     bracketed (11 < L) (show_expr 11 b @ TkLBracket # show_expr 0 i @ TkDotDot # show_expr 0 j @ [TkRBracket])"
| "show_expr L (EAll c n s) =
     [TkAll, TkLParen] @ show_expr 0 c @ [TkComma, TkInState, TkLParen, name_kind n, TkRParen, TkRParen]"

text \<open>An expression without its positions.\<close>

fun strip :: "ast_expr \<Rightarrow> ast_expr" where
  "strip (EInt v s) = EInt v None"
| "strip (EBool b s) = EBool b None"
| "strip (ENull s) = ENull None"
| "strip (ENameRef n s) = ENameRef n None"
| "strip (EMemberAccess b f s) = EMemberAccess (strip b) f None"
| "strip (EBinary op l r s) = EBinary op (strip l) (strip r) None"
| "strip (EUnary op e s) = EUnary op (strip e) None"
| "strip (ECoalesce a b s) = ECoalesce (strip a) (strip b) None"
| "strip (EInState e n s) = EInState (strip e) n None"
| "strip (ESubscript b i s) = ESubscript (strip b) (strip i) None"
| "strip (EStateConstructor m n args s) = EStateConstructor m n (map strip args) None"
| "strip (EFill v c s) = EFill (strip v) (strip c) None"
| "strip (ESlice b i j s) = ESlice (strip b) (strip i) (strip j) None"
| "strip (EAll c n s) = EAll (strip c) n None"

text \<open>Names the lexer and the parser know as names; at the head of an expression three keywords are
  something else.\<close>

definition name_ok :: "string \<Rightarrow> bool" where
  "name_ok n \<longleftrightarrow> printable (name_kind n) \<and> kind_as_name (name_kind n) = Some n"

definition head_ok :: "string \<Rightarrow> bool" where
  "head_ok n \<longleftrightarrow> name_ok n \<and> name_kind n \<notin> {TkFill, TkAll, TkNot}"

fun expr_ok :: "ast_expr \<Rightarrow> bool" where
  "expr_ok (EInt v s) = (0 \<le> v \<and> v < 2 ^ 63)"
| "expr_ok (EBool b s) = True"
| "expr_ok (ENull s) = True"
| "expr_ok (ENameRef n s) = head_ok n"
| "expr_ok (EMemberAccess b f s) = (expr_ok b \<and> name_ok f)"
| "expr_ok (EBinary op l r s) = (expr_ok l \<and> expr_ok r)"
| "expr_ok (EUnary op e s) = expr_ok e"
| "expr_ok (ECoalesce a b s) = (expr_ok a \<and> expr_ok b)"
| "expr_ok (EInState e n s) = (expr_ok e \<and> name_ok n)"
| "expr_ok (ESubscript b i s) = (expr_ok b \<and> expr_ok i)"
| "expr_ok (EStateConstructor m n args s) = (head_ok m \<and> name_ok n \<and> list_all expr_ok args)"
| "expr_ok (EFill v c s) = (expr_ok v \<and> expr_ok c)"
| "expr_ok (ESlice b i j s) = (expr_ok b \<and> expr_ok i \<and> expr_ok j)"
| "expr_ok (EAll c n s) = (expr_ok c \<and> name_ok n)"

section \<open>Running a parser on known tokens\<close>

text \<open>\<open>toks ks rest ts\<close>: the input \<open>ts\<close> starts with tokens of the kinds \<open>ks\<close>, and \<open>rest\<close> follows.\<close>

definition toks :: "token_kind list \<Rightarrow> token list \<Rightarrow> token list \<Rightarrow> bool" where
  "toks ks rest ts \<longleftrightarrow> (\<exists>us. ts = us @ rest \<and> map tk_kind us = ks)"

lemma toks_Nil [simp]: "toks [] rest ts \<longleftrightarrow> ts = rest"
  by (auto simp: toks_def)

lemma toks_Cons [simp]: "toks (k # ks) rest ts \<longleftrightarrow> (\<exists>t r. ts = t # r \<and> tk_kind t = k \<and> toks ks rest r)"
  by (auto simp: toks_def Cons_eq_map_conv)

lemma toks_append: "toks (as @ bs) rest ts \<longleftrightarrow> (\<exists>mid. toks as mid ts \<and> toks bs rest mid)"
  by (induction as arbitrary: ts) auto

lemma toks_length: "toks ks rest ts \<Longrightarrow> length ts = length ks + length rest"
  by (auto simp: toks_def)

lemma toks_hd: "toks ks rest ts \<Longrightarrow> ks \<noteq> [] \<Longrightarrow> ts \<noteq> [] \<and> tk_kind (hd ts) = hd ks"
  by (cases ks) auto

named_theorems run

lemma run_bind [run]: "pbind m f ts = (case m ts of Inl e \<Rightarrow> Inl e | Inr (x, r) \<Rightarrow> f x r)"
  by (simp add: pbind_def)

lemma run_primitives [run]:
  "preturn x ts = Inr (x, ts)"
  "p_span (t # r) = Inr (tk_span t, t # r)"
  "p_peek (t # r) = Inr (tk_kind t, t # r)"
  "p_at k (t # r) = Inr (tk_kind t = k, t # r)"
  "p_advance (t # r) = Inr (t, if tk_kind t = TkEof then t # r else r)"
  by (simp_all add: preturn_def p_span_def p_peek_def p_at_def p_advance_def)

lemma run_expect [run]: "tk_kind t = k \<Longrightarrow> k \<noteq> TkEof \<Longrightarrow> expect k (t # r) = Inr (t, r)"
  by (simp add: expect_def run)

lemma run_eat [run]:
  "tk_kind t = k \<Longrightarrow> k \<noteq> TkEof \<Longrightarrow> eat k (t # r) = Inr (True, r)"
  "tk_kind t \<noteq> k \<Longrightarrow> eat k (t # r) = Inr (False, t # r)"
  by (simp_all add: eat_def run)

lemma run_take [run]: "tk_kind t \<noteq> TkEof \<Longrightarrow> take_token x (t # r) = Inr (x, r)"
  by (simp add: take_token_def run)

lemma named_not_eof: "kind_as_name k = Some n \<Longrightarrow> k \<noteq> TkEof"
  by (auto simp: kind_as_name_def NAME_KEYWORDS_def)

lemma run_name [run]: "kind_as_name (tk_kind t) = Some n \<Longrightarrow> p_name (t # r) = Inr (n, r)"
  by (simp add: p_name_def expect_name_def token_as_name_def run named_not_eof)

lemma run_name_or_keyword [run]:
  "kind_as_name (tk_kind t) = Some n \<Longrightarrow> expect_name_or_keyword (t # r) = Inr ((n, tk_span t), r)"
  by (simp add: expect_name_or_keyword_def expect_name_def token_as_name_def run named_not_eof)

text \<open>\<open>yields r e rest\<close>: the outcome \<open>r\<close> is the expression \<open>e\<close> up to positions, with \<open>rest\<close> left.\<close>

definition yields :: "parse_failure + ast_expr \<times> token list \<Rightarrow> ast_expr \<Rightarrow> token list \<Rightarrow> bool" where
  "yields r e rest \<longleftrightarrow> (\<exists>e'. r = Inr (e', rest) \<and> strip e' = strip e)"

section \<open>The levels of the parser\<close>

fun parse_level :: "nat \<Rightarrow> ast_expr parser \<Rightarrow> ast_expr parser" where
  "parse_level L pe =
     (if L = 0 then parse_coalesce_expr pe else if L = 1 then parse_or_expr pe else if L = 2 then parse_and_expr pe
      else if L = 3 then parse_compare_expr pe else if L = 4 then parse_bitor_expr pe
      else if L = 5 then parse_bitxor_expr pe else if L = 6 then parse_bitand_expr pe
      else if L = 7 then parse_shift_expr pe else if L = 8 then parse_add_expr pe
      else if L = 9 then parse_mul_expr pe else if L = 10 then parse_unary_expr pe
      else if L = 11 then parse_postfix_expr pe else parse_primary_expr pe)"

declare parse_level.simps [simp del]

text \<open>The tokens that continue an expression, with the level that takes them up.\<close>

definition continuations :: "(token_kind \<times> nat) list" where
  "continuations =
   [(TkQuestionQuestion, 0), (TkOr, 1), (TkAnd, 2), (TkEqEq, 3), (TkBangEq, 3), (TkLt, 3), (TkLe, 3), (TkGt, 3),
    (TkGe, 3), (TkPipe, 4), (TkCaret, 5), (TkAmp, 6), (TkShl, 7), (TkShr, 7), (TkPlus, 8), (TkMinus, 8),
    (TkStar, 9), (TkSlash, 9), (TkPercent, 9), (TkDot, 11), (TkLBracket, 11), (TkInState, 11), (TkColonColon, 12)]"

definition continues :: "nat \<Rightarrow> token_kind \<Rightarrow> bool" where
  "continues L k \<longleftrightarrow> (case map_of continuations k of Some l \<Rightarrow> L \<le> l | None \<Rightarrow> False)"

lemma continues_mono: "\<not> continues L k \<Longrightarrow> L \<le> M \<Longrightarrow> \<not> continues M k"
  by (auto simp: continues_def split: option.splits)

lemma continues_binop [simp]: "continues L (binop_token op) \<longleftrightarrow> L \<le> binop_level op"
  by (cases op) (simp_all add: continues_def continuations_def)

lemma continues_simps [simp]:
  "continues L TkQuestionQuestion \<longleftrightarrow> L = 0" "continues L TkDot \<longleftrightarrow> L \<le> 11" "continues L TkLBracket \<longleftrightarrow> L \<le> 11"
  "continues L TkInState \<longleftrightarrow> L \<le> 11" "continues L TkColonColon \<longleftrightarrow> L \<le> 12"
  "\<not> continues L TkRParen" "\<not> continues L TkRBracket" "\<not> continues L TkComma" "\<not> continues L TkDotDot" "\<not> continues L TkEof"
  by (simp_all add: continues_def continuations_def)

definition level_ops :: "nat \<Rightarrow> (token_kind \<times> binop) list" where
  "level_ops L =
     (if L = 1 then [(TkOr, Or)] else if L = 2 then [(TkAnd, And)] else if L = 4 then [(TkPipe, BitOr)]
      else if L = 5 then [(TkCaret, BitXor)] else if L = 6 then [(TkAmp, BitAnd)]
      else if L = 7 then [(TkShl, Shl), (TkShr, Shr)] else if L = 8 then [(TkPlus, Add), (TkMinus, Sub)]
      else [(TkStar, Mul), (TkSlash, Div), (TkPercent, Mod)])"

definition left_levels :: "nat list" where
  "left_levels = [1, 2, 4, 5, 6, 7, 8, 9]"

lemma level_left_assoc:
  "L \<in> set left_levels \<Longrightarrow> parse_level L pe = left_assoc (level_ops L) (parse_level (Suc L) pe)"
  unfolding left_levels_def
  by (auto simp: parse_level.simps level_ops_def parse_or_expr_def parse_and_expr_def parse_bitor_expr_def
      parse_bitxor_expr_def parse_bitand_expr_def parse_shift_expr_def parse_add_expr_def parse_mul_expr_def)

lemma level_ops_of: "L \<in> set left_levels \<Longrightarrow> binop_level op = L \<Longrightarrow> map_of (level_ops L) (binop_token op) = Some op"
  by (cases op) (auto simp: left_levels_def level_ops_def)

lemma level_ops_stop: "L \<in> set left_levels \<Longrightarrow> \<not> continues L k \<Longrightarrow> map_of (level_ops L) k = None"
  by (auto simp: left_levels_def level_ops_def continues_def continuations_def split: if_splits)

text \<open>The recursion of the unary operators does not see its fuel.\<close>

lemma unary_fuel_irrelevant:
  "length ts < m \<Longrightarrow> length ts < m' \<Longrightarrow> parse_unary_fuel m pe ts = parse_unary_fuel m' pe ts"
proof (induction m arbitrary: ts m')
  case (Suc m)
  obtain k where k: "m' = Suc k" using Suc.prems(2) by (cases m') auto
  show ?case
  proof (cases ts)
    case (Cons t r)
    have "tk_kind t \<noteq> TkEof" if "map_of unary_ops (tk_kind t) = Some op" for op
      using that by (auto simp: unary_ops_def)
    then show ?thesis using Suc.IH [of r k] Suc.prems k Cons by (auto simp: run split: option.splits)
  qed (simp add: k pbind_def p_span_def)
qed simp

lemma parse_unary_rec:
  "parse_unary_expr pe (t # r) =
     (case map_of unary_ops (tk_kind t) of
        Some op \<Rightarrow> pbind (parse_unary_expr pe) (\<lambda>e. preturn (EUnary op e (Some (tk_span t)))) r
      | None \<Rightarrow> parse_postfix_expr pe (t # r))"
proof -
  have "parse_unary_fuel (Suc (length r)) pe r = parse_unary_expr pe r" by (simp add: parse_unary_expr_def)
  moreover have "tk_kind t \<noteq> TkEof" if "map_of unary_ops (tk_kind t) = Some op" for op
    using that by (auto simp: unary_ops_def)
  ultimately show ?thesis by (auto simp: parse_unary_expr_def run split: option.splits)
qed

section \<open>The loops\<close>

definition loop_levels :: "nat list" where
  "loop_levels = left_levels @ [11]"

definition loop_step :: "nat \<Rightarrow> ast_expr parser \<Rightarrow> span \<Rightarrow> ast_expr \<Rightarrow> (ast_expr + ast_expr) parser" where
  "loop_step L pe start =
     (if L = 11 then postfix_step pe start else binary_step (level_ops L) (parse_level (Suc L) pe) start)"

lemma level_loop:
  assumes "L \<in> set loop_levels"
  shows "parse_level L pe = pbind p_span (\<lambda>start. pbind (parse_level (Suc L) pe) (prepeat (loop_step L pe start)))"
proof (cases "L = 11")
  case True
  then show ?thesis by (simp add: loop_step_def parse_level.simps parse_postfix_expr_def)
next
  case False
  then have "L \<in> set left_levels" using assms by (simp add: loop_levels_def)
  then show ?thesis using False by (simp add: loop_step_def level_left_assoc left_assoc_def)
qed

lemma loop_stop:
  "L \<in> set loop_levels \<Longrightarrow> \<not> continues L (tk_kind t) \<Longrightarrow> loop_step L pe start e (t # r) = Inr (Inr e, t # r)"
  using level_ops_stop [of L "tk_kind t"]
  by (auto simp: loop_step_def loop_levels_def postfix_step_def binary_step_def run split: if_splits)

definition parses :: "nat \<Rightarrow> nat \<Rightarrow> ast_expr \<Rightarrow> bool" where
  "parses n L e \<longleftrightarrow> (\<forall>ts rest. toks (show_expr L e) rest ts \<longrightarrow> rest \<noteq> [] \<longrightarrow> \<not> continues L (tk_kind (hd rest)) \<longrightarrow>
     yields (parse_level L (parse_expr_fuel n) ts) e rest)"

text \<open>What a loop has made of \<open>e\<close> when it is about to look at \<open>rest\<close>.\<close>

definition loops :: "nat \<Rightarrow> nat \<Rightarrow> ast_expr \<Rightarrow> bool" where
  "loops n L e \<longleftrightarrow> (\<forall>ts rest. toks (show_expr L e) rest ts \<longrightarrow> rest \<noteq> [] \<longrightarrow> \<not> continues (Suc L) (tk_kind (hd rest)) \<longrightarrow>
     (\<exists>k e'. length rest < k \<and> strip e' = strip e \<and>
        parse_level L (parse_expr_fuel n) ts = ploop k (loop_step L (parse_expr_fuel n) (tk_span (hd ts))) e' rest))"

lemma parsesD:
  "parses n L e \<Longrightarrow> toks (show_expr L e) rest ts \<Longrightarrow> rest \<noteq> [] \<Longrightarrow> \<not> continues L (tk_kind (hd rest)) \<Longrightarrow>
    \<exists>e'. parse_level L (parse_expr_fuel n) ts = Inr (e', rest) \<and> strip e' = strip e"
  by (auto simp: parses_def yields_def)

lemma parsesI:
  "(\<And>ts rest. toks (show_expr L e) rest ts \<Longrightarrow> rest \<noteq> [] \<Longrightarrow> \<not> continues L (tk_kind (hd rest)) \<Longrightarrow>
    \<exists>e'. parse_level L (parse_expr_fuel n) ts = Inr (e', rest) \<and> strip e' = strip e) \<Longrightarrow> parses n L e"
  by (auto simp: parses_def yields_def)

lemma show_nonempty: "show_expr L e \<noteq> []"
  by (cases e) (auto simp: bracketed_def)

lemma loops_parses:
  assumes "loops n L e" "L \<in> set loop_levels"
  shows "parses n L e"
proof (rule parsesI)
  fix ts rest :: "token list"
  assume h: "toks (show_expr L e) rest ts" "rest \<noteq> []" "\<not> continues L (tk_kind (hd rest))"
  then have "\<not> continues (Suc L) (tk_kind (hd rest))" using continues_mono [of L _ "Suc L"] by simp
  then obtain k e' where k: "length rest < k" "strip e' = strip e"
    "parse_level L (parse_expr_fuel n) ts = ploop k (loop_step L (parse_expr_fuel n) (tk_span (hd ts))) e' rest"
    using assms(1) h unfolding loops_def by blast
  obtain t r where "rest = t # r" using h(2) by (cases rest) auto
  moreover obtain j where "k = Suc j" using k(1) by (cases k) auto
  ultimately show "\<exists>e'. parse_level L (parse_expr_fuel n) ts = Inr (e', rest) \<and> strip e' = strip e"
    using k loop_stop [OF assms(2), of t] h(3) by (simp add: run)
qed

lemma pass_loops:
  assumes "parses n (Suc L) e" "show_expr L e = show_expr (Suc L) e" "L \<in> set loop_levels"
  shows "loops n L e"
  unfolding loops_def
proof (intro allI impI)
  fix ts rest :: "token list"
  assume h: "toks (show_expr L e) rest ts" "rest \<noteq> []" "\<not> continues (Suc L) (tk_kind (hd rest))"
  then obtain e' where e': "parse_level (Suc L) (parse_expr_fuel n) ts = Inr (e', rest)" "strip e' = strip e"
    using parsesD [OF assms(1)] assms(2) by auto
  have "parse_level L (parse_expr_fuel n) ts
      = ploop (Suc (length rest)) (loop_step L (parse_expr_fuel n) (tk_span (hd ts))) e' rest"
    using toks_hd [OF h(1) show_nonempty] e'(1) unfolding level_loop [OF assms(3)]
    by (cases ts) (auto simp: run prepeat_def simp del: ploop.simps)
  then show "\<exists>k e'. length rest < k \<and> strip e' = strip e \<and>
      parse_level L (parse_expr_fuel n) ts = ploop k (loop_step L (parse_expr_fuel n) (tk_span (hd ts))) e' rest"
    using e'(2) by blast
qed

lemma step_loops:
  assumes "loops n L l" "show_expr L e = show_expr L l @ suf" "suf \<noteq> []" "\<not> continues (Suc L) (hd suf)"
    and "\<And>e1 mid rest start. toks suf rest mid \<Longrightarrow> strip e1 = strip l \<Longrightarrow> rest \<noteq> [] \<Longrightarrow>
      \<not> continues (Suc L) (tk_kind (hd rest)) \<Longrightarrow>
      \<exists>e2. loop_step L (parse_expr_fuel n) start e1 mid = Inr (Inl e2, rest) \<and> strip e2 = strip e"
  shows "loops n L e"
  unfolding loops_def
proof (intro allI impI)
  fix ts rest :: "token list"
  let ?step = "loop_step L (parse_expr_fuel n) (tk_span (hd ts))"
  assume h: "toks (show_expr L e) rest ts" "rest \<noteq> []" "\<not> continues (Suc L) (tk_kind (hd rest))"
  then obtain mid where mid: "toks (show_expr L l) mid ts" "toks suf rest mid" using assms(2) by (auto simp: toks_append)
  note hd_mid = toks_hd [OF mid(2) assms(3)]
  then obtain k e1 where k: "length mid < k" "strip e1 = strip l" "parse_level L (parse_expr_fuel n) ts = ploop k ?step e1 mid"
    using assms(1, 4) mid(1) unfolding loops_def by metis
  obtain j where j: "k = Suc j" using k(1) by (cases k) auto
  obtain e2 where e2: "?step e1 mid = Inr (Inl e2, rest)" "strip e2 = strip e"
    using assms(5) [OF mid(2) k(2) h(2, 3)] by blast
  have "length rest < j" using toks_length [OF mid(2)] assms(3) k(1) j by (cases suf) auto
  moreover have "parse_level L (parse_expr_fuel n) ts = ploop j ?step e2 rest"
    using k(3) j e2(1) by (simp add: run)
  ultimately show "\<exists>k e'. length rest < k \<and> strip e' = strip e \<and>
      parse_level L (parse_expr_fuel n) ts = ploop k (loop_step L (parse_expr_fuel n) (tk_span (hd ts))) e' rest"
    using e2(2) by blast
qed

section \<open>One construct at a time\<close>

text \<open>The parser that stands for \<open>parse_expr\<close> in the levels below reads \<open>e\<close>.\<close>

definition subparses :: "nat \<Rightarrow> ast_expr \<Rightarrow> bool" where
  "subparses n e \<longleftrightarrow> (\<forall>ts rest. toks (show_expr 0 e) rest ts \<longrightarrow> rest \<noteq> [] \<longrightarrow> \<not> continues 0 (tk_kind (hd rest)) \<longrightarrow>
     (\<exists>e'. parse_expr_fuel n ts = Inr (e', rest) \<and> strip e' = strip e))"

lemma subparsesI: "parses n 0 e \<Longrightarrow> subparses (Suc n) e"
  using parsesD [of n 0 e] by (auto simp: subparses_def parse_level.simps)

lemma subparses_run:
  assumes "subparses n e" "toks (show_expr 0 e) (t # r) ts" "\<not> continues 0 (tk_kind t)"
  obtains e' where "parse_expr_fuel n ts = Inr (e', t # r)" "strip e' = strip e"
  using assms unfolding subparses_def by force

lemma binop_token_not_eof [simp]: "binop_token op \<noteq> TkEof"
  by (cases op) simp_all

lemma loops_binary:
  assumes l: "loops n L l" and r: "parses n (Suc L) r" and L: "L \<in> set left_levels" "binop_level op = L"
  shows "loops n L (EBinary op l r s)"
proof (rule step_loops [OF l])
  have "left_level op = L" using L by (auto simp: left_level_def left_levels_def)
  then show "show_expr L (EBinary op l r s) = show_expr L l @ binop_token op # show_expr (Suc L) r"
    using L by (simp add: bracketed_def)
  show "\<not> continues (Suc L) (hd (binop_token op # show_expr (Suc L) r))" using L by simp
  fix e1 start and mid rest :: "token list"
  assume h: "toks (binop_token op # show_expr (Suc L) r) rest mid" "strip e1 = strip l" "rest \<noteq> []"
    "\<not> continues (Suc L) (tk_kind (hd rest))"
  then obtain t ts where t: "mid = t # ts" "tk_kind t = binop_token op" "toks (show_expr (Suc L) r) rest ts" by auto
  obtain r' where "parse_level (Suc L) (parse_expr_fuel n) ts = Inr (r', rest)" "strip r' = strip r"
    using parsesD [OF r t(3) h(3, 4)] by blast
  moreover have "L \<noteq> 11" using L(1) by (auto simp: left_levels_def)
  ultimately show "\<exists>e2. loop_step L (parse_expr_fuel n) start e1 mid = Inr (Inl e2, rest) \<and> strip e2 = strip (EBinary op l r s)"
    using t h(2) level_ops_of [OF L] by (simp add: loop_step_def binary_step_def run)
qed simp

lemma name_token:
  "name_ok n \<Longrightarrow> tk_kind t = name_kind n \<Longrightarrow> p_name (t # r) = Inr (n, r)"
  "name_ok n \<Longrightarrow> tk_kind t = name_kind n \<Longrightarrow> expect_name_or_keyword (t # r) = Inr ((n, tk_span t), r)"
  by (simp_all add: name_ok_def run)

lemma loops_member:
  assumes l: "loops n 11 b" and f: "name_ok f"
  shows "loops n 11 (EMemberAccess b f s)"
  by (intro step_loops [OF l, of _ "[TkDot, name_kind f]"])
    (auto simp: bracketed_def loop_step_def postfix_step_def run name_token [OF f])

lemma loops_in_state:
  assumes l: "loops n 11 b" and f: "name_ok f"
  shows "loops n 11 (EInState b f s)"
  by (intro step_loops [OF l, of _ "[TkInState, TkLParen, name_kind f, TkRParen]"])
    (auto simp: bracketed_def loop_step_def postfix_step_def run name_token [OF f])

lemma loops_subscript:
  assumes l: "loops n 11 b" and i: "subparses n i"
  shows "loops n 11 (ESubscript b i s)"
proof (rule step_loops [OF l, of _ "TkLBracket # show_expr 0 i @ [TkRBracket]"])
  fix e1 start and mid rest :: "token list"
  assume h: "toks (TkLBracket # show_expr 0 i @ [TkRBracket]) rest mid" "strip e1 = strip b"
  then obtain t ts u where t: "mid = t # ts" "tk_kind t = TkLBracket" "toks (show_expr 0 i) (u # rest) ts" "tk_kind u = TkRBracket"
    by (auto simp: toks_append)
  obtain i' where "parse_expr_fuel n ts = Inr (i', u # rest)" "strip i' = strip i"
    using subparses_run [OF i t(3)] t(4) by auto
  then show "\<exists>e2. loop_step 11 (parse_expr_fuel n) start e1 mid = Inr (Inl e2, rest) \<and> strip e2 = strip (ESubscript b i s)"
    using t h(2) by (simp add: loop_step_def postfix_step_def run)
qed (simp_all add: bracketed_def)

lemma loops_slice:
  assumes l: "loops n 11 b" and i: "subparses n i" and j: "subparses n j"
  shows "loops n 11 (ESlice b i j s)"
proof (rule step_loops [OF l, of _ "TkLBracket # show_expr 0 i @ TkDotDot # show_expr 0 j @ [TkRBracket]"])
  fix e1 start and mid rest :: "token list"
  assume h: "toks (TkLBracket # show_expr 0 i @ TkDotDot # show_expr 0 j @ [TkRBracket]) rest mid" "strip e1 = strip b"
  then obtain t ts u us v where t: "mid = t # ts" "tk_kind t = TkLBracket" "toks (show_expr 0 i) (u # us) ts"
    "tk_kind u = TkDotDot" "toks (show_expr 0 j) (v # rest) us" "tk_kind v = TkRBracket"
    by (auto simp: toks_append)
  obtain i' where "parse_expr_fuel n ts = Inr (i', u # us)" "strip i' = strip i"
    using subparses_run [OF i t(3)] t(4) by auto
  moreover obtain j' where "parse_expr_fuel n us = Inr (j', v # rest)" "strip j' = strip j"
    using subparses_run [OF j t(5)] t(6) by auto
  ultimately show "\<exists>e2. loop_step 11 (parse_expr_fuel n) start e1 mid = Inr (Inl e2, rest) \<and> strip e2 = strip (ESlice b i j s)"
    using t h(2) by (simp add: loop_step_def postfix_step_def run)
qed (simp_all add: bracketed_def)

lemma parses_coalesce:
  assumes "parses n 1 a" "parses n 1 b"
  shows "parses n 0 (ECoalesce a b s)"
proof (rule parsesI)
  fix ts rest :: "token list"
  assume h: "toks (show_expr 0 (ECoalesce a b s)) rest ts" "rest \<noteq> []" "\<not> continues 0 (tk_kind (hd rest))"
  then obtain t mid where t: "toks (show_expr 1 a) (t # mid) ts" "tk_kind t = TkQuestionQuestion" "toks (show_expr 1 b) rest mid"
    by (auto simp: bracketed_def toks_append)
  obtain a' where "parse_or_expr (parse_expr_fuel n) ts = Inr (a', t # mid)" "strip a' = strip a"
    using parsesD [OF assms(1) t(1)] t(2) by (auto simp: parse_level.simps)
  moreover obtain b' where "parse_or_expr (parse_expr_fuel n) mid = Inr (b', rest)" "strip b' = strip b"
    using parsesD [OF assms(2) t(3) h(2)] continues_mono [OF h(3)] by (auto simp: parse_level.simps)
  moreover obtain x xs where "ts = x # xs" using toks_hd [OF t(1) show_nonempty] by (cases ts) auto
  ultimately show "\<exists>e'. parse_level 0 (parse_expr_fuel n) ts = Inr (e', rest) \<and> strip e' = strip (ECoalesce a b s)"
    using t(2) by (simp add: parse_level.simps parse_coalesce_expr_def run)
qed

lemma parses_compare:
  assumes "parses n 4 l" "parses n 4 r" "binop_level op = 3"
  shows "parses n 3 (EBinary op l r s)"
proof (rule parsesI)
  fix ts rest :: "token list"
  assume h: "toks (show_expr 3 (EBinary op l r s)) rest ts" "rest \<noteq> []" "\<not> continues 3 (tk_kind (hd rest))"
  then obtain t mid where t: "toks (show_expr 4 l) (t # mid) ts" "tk_kind t = binop_token op" "toks (show_expr 4 r) rest mid"
    using assms(3) by (auto simp: bracketed_def toks_append left_level_def eval_nat_numeral)
  obtain l' where "parse_bitor_expr (parse_expr_fuel n) ts = Inr (l', t # mid)" "strip l' = strip l"
    using parsesD [OF assms(1) t(1)] t(2) assms(3) by (auto simp: parse_level.simps)
  moreover obtain r' where "parse_bitor_expr (parse_expr_fuel n) mid = Inr (r', rest)" "strip r' = strip r"
    using parsesD [OF assms(2) t(3) h(2)] continues_mono [OF h(3)] by (auto simp: parse_level.simps)
  moreover obtain x xs where "ts = x # xs" using toks_hd [OF t(1) show_nonempty] by (cases ts) auto
  moreover have "map_of compare_ops (binop_token op) = Some op" using assms(3) by (cases op) (simp_all add: compare_ops_def)
  ultimately show "\<exists>e'. parse_level 3 (parse_expr_fuel n) ts = Inr (e', rest) \<and> strip e' = strip (EBinary op l r s)"
    using t(2) by (simp add: parse_level.simps parse_compare_expr_def run)
qed

lemma parses_unary:
  assumes "parses n 10 e"
  shows "parses n 10 (EUnary op e s)"
proof (rule parsesI)
  fix ts rest :: "token list"
  assume h: "toks (show_expr 10 (EUnary op e s)) rest ts" "rest \<noteq> []" "\<not> continues 10 (tk_kind (hd rest))"
  then obtain t mid where t: "ts = t # mid" "tk_kind t = unaryop_token op" "toks (show_expr 10 e) rest mid"
    by (auto simp: bracketed_def)
  obtain e' where "parse_unary_expr (parse_expr_fuel n) mid = Inr (e', rest)" "strip e' = strip e"
    using parsesD [OF assms t(3) h(2, 3)] by (auto simp: parse_level.simps)
  moreover have "map_of unary_ops (unaryop_token op) = Some op" by (cases op) (simp_all add: unary_ops_def)
  ultimately show "\<exists>e'. parse_level 10 (parse_expr_fuel n) ts = Inr (e', rest) \<and> strip e' = strip (EUnary op e s)"
    using t by (simp add: parse_level.simps parse_unary_rec run)
qed

section \<open>Primary expressions\<close>

lemma lit_int_iff: "lit_int k = Some v \<longleftrightarrow> k = TkInteger v"
  by (cases k) (simp_all add: lit_int_def)

lemma named_kinds:
  assumes "kind_as_name k = Some n"
  shows "lit_int k = None \<and> k \<noteq> TkTrue \<and> k \<noteq> TkFalse \<and> k \<noteq> TkNull \<and> k \<noteq> TkLParen \<and> k \<noteq> TkBang \<and> k \<noteq> TkMinus"
proof -
  have "kind_as_name (TkInteger v) = None" for v by (simp add: kind_as_name_def NAME_KEYWORDS_def)
  then have "lit_int k \<noteq> Some v" for v using assms by (auto simp: lit_int_iff)
  then have "lit_int k = None" by blast
  then show ?thesis using assms by (auto simp: kind_as_name_def NAME_KEYWORDS_def)
qed

lemma head_name:
  "head_ok n \<Longrightarrow> lit_int (name_kind n) = None \<and> name_kind n \<noteq> TkTrue \<and> name_kind n \<noteq> TkFalse \<and> name_kind n \<noteq> TkNull
    \<and> name_kind n \<noteq> TkLParen \<and> name_kind n \<noteq> TkBang \<and> name_kind n \<noteq> TkMinus \<and> name_kind n \<noteq> TkFill \<and> name_kind n \<noteq> TkAll
    \<and> name_kind n \<noteq> TkNot \<and> kind_as_name (name_kind n) = Some n \<and> name_kind n \<noteq> TkEof"
  using named_kinds [of "name_kind n" n] named_not_eof [of "name_kind n" n] by (auto simp: head_ok_def name_ok_def)

text \<open>No expression starts with a closing bracket, and none that binds tighter than the unary operators with one.\<close>

lemma binop_level_le: "binop_level op \<le> 9"
  by (cases op) simp_all

lemma show_head:
  "expr_ok e \<Longrightarrow> hd (show_expr L e) \<noteq> TkRParen \<and>
    (10 < L \<longrightarrow> hd (show_expr L e) \<noteq> TkBang \<and> hd (show_expr L e) \<noteq> TkMinus \<and> hd (show_expr L e) \<noteq> TkNot)"
proof (induction L e rule: show_expr.induct)
  case (4 L n s)
  then show ?case using head_name [of n] named_kinds [of "name_kind n" n] by (auto simp: kind_as_name_def NAME_KEYWORDS_def)
next
  case (6 L op l r s)
  then show ?case using binop_level_le [of op] show_nonempty [of _ l] by (auto simp: bracketed_def)
next
  case (7 L op e s)
  then show ?case by (cases op) (auto simp: bracketed_def)
next
  case (11 L m n args s)
  then show ?case using head_name [of m] named_kinds [of "name_kind m" m] by (auto simp: kind_as_name_def NAME_KEYWORDS_def)
qed (auto simp: bracketed_def show_nonempty)

lemma lit_int_simps [simp]:
  "lit_int (TkInteger v) = Some v" "lit_int TkTrue = None" "lit_int TkFalse = None" "lit_int TkNull = None"
  "lit_int TkLParen = None" "lit_int TkFill = None" "lit_int TkAll = None"
  by (simp_all add: lit_int_def)

lemma parses_atoms:
  "parses n 12 (EInt v s)" "parses n 12 (EBool b s)" "parses n 12 (ENull s)"
  by (rule parsesI; cases b; auto simp: parse_level.simps parse_primary_expr_def run)+

lemma parses_name:
  assumes "head_ok m"
  shows "parses n 12 (ENameRef m s)"
proof (rule parsesI)
  fix ts rest :: "token list"
  assume h: "toks (show_expr 12 (ENameRef m s)) rest ts" "rest \<noteq> []" "\<not> continues 12 (tk_kind (hd rest))"
  moreover have "tk_kind (hd rest) \<noteq> TkColonColon" using h(3) by auto
  ultimately obtain t u r where "ts = t # u # r" "tk_kind t = name_kind m" "rest = u # r" "tk_kind u \<noteq> TkColonColon"
    by (cases rest) auto
  then show "\<exists>e'. parse_level 12 (parse_expr_fuel n) ts = Inr (e', rest) \<and> strip e' = strip (ENameRef m s)"
    using head_name [OF assms] by (auto simp: parse_level.simps parse_primary_expr_def run)
qed

lemma parses_bracketed:
  assumes e: "subparses n e" and L: "expr_level e < 12"
  shows "parses n 12 e"
proof (rule parsesI)
  fix ts rest :: "token list"
  assume h: "toks (show_expr 12 e) rest ts" "rest \<noteq> []" "\<not> continues 12 (tk_kind (hd rest))"
  have "show_expr 12 e = TkLParen # show_expr 0 e @ [TkRParen]" using L by (cases e) (auto simp: bracketed_def)
  then obtain t mid u where t: "ts = t # mid" "tk_kind t = TkLParen" "toks (show_expr 0 e) (u # rest) mid" "tk_kind u = TkRParen"
    using h(1) by (auto simp: toks_append)
  obtain e' where "parse_expr_fuel n mid = Inr (e', u # rest)" "strip e' = strip e"
    using subparses_run [OF e t(3)] t(4) by auto
  then show "\<exists>e'. parse_level 12 (parse_expr_fuel n) ts = Inr (e', rest) \<and> strip e' = strip e"
    using t by (simp add: parse_level.simps parse_primary_expr_def run)
qed

lemma parses_fill:
  assumes v: "subparses n v" and c: "subparses n c"
  shows "parses n 12 (EFill v c s)"
proof (rule parsesI)
  fix ts rest :: "token list"
  assume h: "toks (show_expr 12 (EFill v c s)) rest ts" "rest \<noteq> []" "\<not> continues 12 (tk_kind (hd rest))"
  then obtain t p mid u us w where t: "ts = t # p # mid" "tk_kind t = TkFill" "tk_kind p = TkLParen"
    "toks (show_expr 0 v) (u # us) mid" "tk_kind u = TkComma" "toks (show_expr 0 c) (w # rest) us" "tk_kind w = TkRParen"
    by (auto simp: toks_append)
  obtain v' where "parse_expr_fuel n mid = Inr (v', u # us)" "strip v' = strip v"
    using subparses_run [OF v t(4)] t(5) by auto
  moreover obtain c' where "parse_expr_fuel n us = Inr (c', w # rest)" "strip c' = strip c"
    using subparses_run [OF c t(6)] t(7) by auto
  ultimately show "\<exists>e'. parse_level 12 (parse_expr_fuel n) ts = Inr (e', rest) \<and> strip e' = strip (EFill v c s)"
    using t by (simp add: parse_level.simps parse_primary_expr_def run)
qed

lemma parses_all:
  assumes c: "subparses n c" and m: "name_ok m"
  shows "parses n 12 (EAll c m s)"
proof (rule parsesI)
  fix ts rest :: "token list"
  assume h: "toks (show_expr 12 (EAll c m s)) rest ts" "rest \<noteq> []" "\<not> continues 12 (tk_kind (hd rest))"
  then obtain t p mid u v w x y z where t: "ts = t # p # mid" "tk_kind t = TkAll" "tk_kind p = TkLParen"
    "toks (show_expr 0 c) (u # v # w # x # y # z # rest) mid" "tk_kind u = TkComma" "tk_kind v = TkInState"
    "tk_kind w = TkLParen" "tk_kind x = name_kind m" "tk_kind y = TkRParen" "tk_kind z = TkRParen"
    by (auto simp: toks_append)
  obtain c' where "parse_expr_fuel n mid = Inr (c', u # v # w # x # y # z # rest)" "strip c' = strip c"
    using subparses_run [OF c t(4)] t(5) by auto
  then show "\<exists>e'. parse_level 12 (parse_expr_fuel n) ts = Inr (e', rest) \<and> strip e' = strip (EAll c m s)"
    using t name_token [OF m t(8)] by (simp add: parse_level.simps parse_primary_expr_def run)
qed

text \<open>The arguments of a state constructor.\<close>

lemma args_loop:
  assumes "\<forall>a \<in> set args. subparses n a" "toks (concat (map ((#) TkComma) (map (show_expr 0) args))) (u # rest) ts"
    and "tk_kind u = TkRParen" "length ts < k"
  shows "\<exists>xs. ploop k (\<lambda>xs. pbind (eat TkComma) (\<lambda>more. if more then pbind (parse_expr_fuel n) (\<lambda>x. go_on (xs @ [x])) else stop xs))
      acc ts = Inr (acc @ xs, u # rest) \<and> map strip xs = map strip args"
  using assms
proof (induction args arbitrary: acc ts k)
  case Nil
  then show ?case by (cases k) (auto simp: run)
next
  case (Cons a args)
  then obtain t r mid where t: "ts = t # r" "tk_kind t = TkComma" "toks (show_expr 0 a) mid r"
    "toks (concat (map ((#) TkComma) (map (show_expr 0) args))) (u # rest) mid"
    by (auto simp: toks_append)
  obtain w ws where w: "mid = w # ws" "\<not> continues 0 (tk_kind w)"
    using t(4) Cons.prems(3) by (cases args) auto
  obtain a' where a': "parse_expr_fuel n r = Inr (a', mid)" "strip a' = strip a"
    by (rule subparses_run [of n a w ws r]) (use Cons.prems(1) t(3) w in auto)
  obtain j where j: "k = Suc j" using Cons.prems(4) by (cases k) auto
  have "length mid < j" using toks_length [OF t(3)] Cons.prems(4) t(1) j by simp
  from Cons.IH [OF _ t(4) Cons.prems(3) this, of "acc @ [a']"] Cons.prems(1)
  show ?case using a' t(1, 2) j by (auto simp: run)
qed

lemma parses_constructor:
  assumes args: "\<forall>a \<in> set args. subparses n a" and ok: "list_all expr_ok args" and m: "head_ok m" and c: "name_ok c"
  shows "parses n 12 (EStateConstructor m c args s)"
proof (rule parsesI)
  fix ts rest :: "token list"
  assume h: "toks (show_expr 12 (EStateConstructor m c args s)) rest ts" "rest \<noteq> []" "\<not> continues 12 (tk_kind (hd rest))"
  then obtain t p q r mid u where t: "ts = t # p # q # r # mid" "tk_kind t = name_kind m" "tk_kind p = TkColonColon"
    "tk_kind q = name_kind c" "tk_kind r = TkLParen" "toks (with_commas (map (show_expr 0) args)) (u # rest) mid" "tk_kind u = TkRParen"
    by (auto simp: toks_append)
  note hm = head_name [OF m]
  show "\<exists>e'. parse_level 12 (parse_expr_fuel n) ts = Inr (e', rest) \<and> strip e' = strip (EStateConstructor m c args s)"
  proof (cases args)
    case Nil
    then show ?thesis using t hm name_token [OF c t(4)]
      by (simp add: parse_level.simps parse_primary_expr_def run)
  next
    case (Cons a as)
    then obtain us where us: "toks (show_expr 0 a) us mid"
      "toks (concat (map ((#) TkComma) (map (show_expr 0) as))) (u # rest) us"
      using t(6) by (auto simp: toks_append)
    obtain w ws where w: "us = w # ws" "\<not> continues 0 (tk_kind w)"
      using us(2) t(7) by (cases as) auto
    obtain a' where a': "parse_expr_fuel n mid = Inr (a', us)" "strip a' = strip a"
      by (rule subparses_run [of n a w ws mid]) (use args us(1) w Cons in auto)
    obtain xs where "items_after TkComma (parse_expr_fuel n) [a'] us = Inr ([a'] @ xs, u # rest)" "map strip xs = map strip as"
      using args_loop [OF _ us(2) t(7), of n "Suc (length us)" "[a']"] args Cons
      by (auto simp: items_after_def prepeat_def simp del: ploop.simps)
    moreover obtain x xs where "mid = x # xs" "tk_kind x \<noteq> TkRParen"
      using toks_hd [OF us(1) show_nonempty] show_head [of a 0] ok Cons by (cases mid) auto
    ultimately show ?thesis using t hm name_token [OF c t(4)] a' Cons
      by (simp add: parse_level.simps parse_primary_expr_def run)
  qed
qed

section \<open>Every expression\<close>

lemma show_level: "expr_level e \<noteq> L \<Longrightarrow> show_expr L e = show_expr (Suc L) e"
  by (cases e) (auto simp: bracketed_def)

text \<open>A level takes over what the next tighter one reads.\<close>

lemma parses_pass:
  assumes e: "parses n (Suc L) e" "show_expr L e = show_expr (Suc L) e" "expr_ok e" and L: "L = 0 \<or> L = 3 \<or> L = 10"
  shows "parses n L e"
proof (rule parsesI)
  fix ts rest :: "token list"
  assume h: "toks (show_expr L e) rest ts" "rest \<noteq> []" "\<not> continues L (tk_kind (hd rest))"
  then obtain e' where e': "parse_level (Suc L) (parse_expr_fuel n) ts = Inr (e', rest)" "strip e' = strip e"
    using parsesD [OF e(1)] e(2) continues_mono [OF h(3), of "Suc L"] by auto
  obtain t r u us where t: "ts = t # r" "tk_kind t = hd (show_expr L e)" "rest = u # us"
    using toks_hd [OF h(1) show_nonempty] h(2) by (cases ts; cases rest) auto
  have hd: "L = 10 \<Longrightarrow> map_of unary_ops (tk_kind t) = None"
    using show_head [OF e(3), of "Suc L"] t(2) e(2) by (simp add: unary_ops_def)
  have stop: "L = 0 \<Longrightarrow> tk_kind u \<noteq> TkQuestionQuestion" "L = 3 \<Longrightarrow> map_of compare_ops (tk_kind u) = None"
    using h(3) t(3) by (auto simp: compare_ops_def continues_def continuations_def split: if_splits)
  consider "L = 0" | "L = 3" | "L = 10" using L by blast
  then have "parse_level L (parse_expr_fuel n) ts = Inr (e', rest)"
  proof cases
    case 1
    then show ?thesis using e' t stop by (simp add: parse_level.simps parse_coalesce_expr_def run)
  next
    case 2
    then show ?thesis using e' t stop by (simp add: parse_level.simps parse_compare_expr_def run)
  next
    case 3
    then show ?thesis using e' t hd by (simp add: parse_level.simps parse_unary_rec)
  qed
  then show "\<exists>e'. parse_level L (parse_expr_fuel n) ts = Inr (e', rest) \<and> strip e' = strip e" using e'(2) by blast
qed

definition reads_back :: "nat \<Rightarrow> nat \<Rightarrow> ast_expr \<Rightarrow> bool" where
  "reads_back n L e \<longleftrightarrow> parses n L e \<and> (L \<in> set loop_levels \<longrightarrow> loops n L e)"

lemma reads_back_pass:
  assumes "reads_back n (Suc L) e" "expr_level e \<noteq> L" "expr_ok e" "L < 12"
  shows "reads_back n L e"
proof (cases "L \<in> set loop_levels")
  case True
  then show ?thesis
    using assms pass_loops [OF _ show_level] loops_parses by (auto simp: reads_back_def)
next
  case False
  have "L \<in> set (loop_levels @ [0, 3, 10])" using assms(4) by (simp add: loop_levels_def left_levels_def) presburger
  then have "L = 0 \<or> L = 3 \<or> L = 10" using False by auto
  then show ?thesis using assms False parses_pass [OF _ show_level] by (auto simp: reads_back_def)
qed

lemma reads_back_loops: "loops n L e \<Longrightarrow> L \<in> set loop_levels \<Longrightarrow> reads_back n L e"
  by (simp add: reads_back_def loops_parses)

lemma in_loop_levels: "11 \<in> set loop_levels"
  by (simp add: loop_levels_def)

lemma reads_back_loopD: "reads_back n 11 e \<Longrightarrow> loops n 11 e"
  by (simp add: reads_back_def in_loop_levels)

lemma length_with_commas: "a \<in> set as \<Longrightarrow> length (f a) \<le> length (with_commas (map f as))"
proof (cases as)
  case (Cons b bs)
  have "a \<in> set bs \<Longrightarrow> length (f a) \<le> length (concat (map ((#) TkComma) (map f bs)))" by (induction bs) auto
  moreover assume "a \<in> set as"
  ultimately show ?thesis using Cons by auto
qed simp

text \<open>The construct at its own level, from its operands.\<close>

lemma reads_back_own:
  assumes ok: "expr_ok e"
    and sub: "\<And>a. length (show_expr 0 a) < length (show_expr (expr_level e) e) \<Longrightarrow> expr_ok a \<Longrightarrow> subparses n a"
    and same: "\<And>a M. length (show_expr M a) < length (show_expr (expr_level e) e) \<Longrightarrow> M \<le> 12 \<Longrightarrow> expr_ok a \<Longrightarrow> reads_back n M a"
  shows "reads_back n (expr_level e) e"
proof (cases e)
  case (EBinary op l r s)
  show ?thesis
  proof (cases "binop_level op = 3")
    case True
    then have "parses n 3 (EBinary op l r s)"
      using same [of 4 l] same [of 4 r] ok EBinary
      by (intro parses_compare) (auto simp: bracketed_def left_level_def reads_back_def eval_nat_numeral)
    then show ?thesis using EBinary True by (simp add: reads_back_def loop_levels_def left_levels_def)
  next
    case False
    then have L: "binop_level op \<in> set left_levels" by (cases op) (simp_all add: left_levels_def)
    have "loops n (binop_level op) (EBinary op l r s)"
      using same [of "binop_level op" l] same [of "Suc (binop_level op)" r] ok EBinary L False binop_level_le [of op]
      by (intro loops_binary) (auto simp: bracketed_def left_level_def reads_back_def loop_levels_def)
    then show ?thesis using EBinary L by (auto intro!: reads_back_loops simp: loop_levels_def)
  qed
next
  case (EStateConstructor m c args s)
  have "subparses n a" if "a \<in> set args" for a
    using length_with_commas [OF that, of "show_expr 0"] ok EStateConstructor that by (intro sub) (auto simp: list_all_iff)
  then show ?thesis using ok EStateConstructor
    by (auto intro!: parses_constructor simp: reads_back_def loop_levels_def left_levels_def)
next
  case (ECoalesce a b s)
  then show ?thesis using same [of 1 a] same [of 1 b] ok
    by (auto intro!: parses_coalesce simp: reads_back_def loop_levels_def left_levels_def bracketed_def)
next
  case (EUnary op a s)
  then show ?thesis using same [of 10 a] ok
    by (auto intro!: parses_unary simp: reads_back_def loop_levels_def left_levels_def bracketed_def)
next
  case (EMemberAccess b f s)
  then show ?thesis using ok
    by (auto intro!: reads_back_loops [OF loops_member [OF reads_back_loopD [OF same]]] simp: in_loop_levels bracketed_def)
next
  case (EInState b f s)
  then show ?thesis using ok
    by (auto intro!: reads_back_loops [OF loops_in_state [OF reads_back_loopD [OF same]]] simp: in_loop_levels bracketed_def)
next
  case (ESubscript b i s)
  then show ?thesis using ok
    by (auto intro!: reads_back_loops [OF loops_subscript [OF reads_back_loopD [OF same]]] sub simp: in_loop_levels bracketed_def)
next
  case (ESlice b i j s)
  then show ?thesis using ok
    by (auto intro!: reads_back_loops [OF loops_slice [OF reads_back_loopD [OF same]]] sub simp: in_loop_levels bracketed_def)
next
  case (EFill v c s)
  then show ?thesis using sub [of v] sub [of c] ok
    by (auto intro!: parses_fill simp: reads_back_def loop_levels_def left_levels_def)
next
  case (EAll c m s)
  then show ?thesis using sub [of c] ok
    by (auto intro!: parses_all simp: reads_back_def loop_levels_def left_levels_def)
qed (use ok in \<open>auto intro!: parses_atoms parses_name simp: reads_back_def loop_levels_def left_levels_def\<close>)

lemma expr_level_le: "expr_level e \<le> 12"
proof (cases e)
  case (EBinary op l r s)
  then show ?thesis using binop_level_le [of op] by simp
qed simp_all

lemma expr_reads_back:
  "expr_ok e \<Longrightarrow> L \<le> 12 \<Longrightarrow> length (show_expr L e) \<le> n \<Longrightarrow> reads_back n L e"
proof (induction "13 * length (show_expr L e) + (12 - L)" arbitrary: L e n rule: less_induct)
  case less
  have same: "reads_back n M a" if "length (show_expr M a) < length (show_expr L e)" "M \<le> 12" "expr_ok a" for M a
    using less.hyps [of M a n] less.prems that by simp
  obtain m where m: "n = Suc m" using less.prems(3) show_nonempty [of L e] by (cases n) auto
  have sub: "subparses n a" if "length (show_expr 0 a) < length (show_expr L e)" "expr_ok a" for a
    using less.hyps [of 0 a m] less.prems that m by (auto intro!: subparsesI simp: reads_back_def)
  show ?case
  proof (cases "expr_level e = L")
    case True
    then show ?thesis using reads_back_own [OF less.prems(1), of n] sub same by blast
  next
    case False
    show ?thesis
    proof (cases "L = 12")
      case True
      then have lt: "expr_level e < 12" using False expr_level_le [of e] by simp
      then have "length (show_expr 0 e) < length (show_expr 12 e)" by (cases e) (auto simp: bracketed_def)
      then have "parses n 12 e" using sub less.prems(1) True lt by (intro parses_bracketed) auto
      then show ?thesis using True by (simp add: reads_back_def loop_levels_def left_levels_def)
    next
      case L: False
      have "reads_back n (Suc L) e"
        using less.hyps [of "Suc L" e n] less.prems L show_level [OF False] by simp
      then show ?thesis using reads_back_pass False less.prems L by simp
    qed
  qed
qed

lemma printable_binop: "printable (binop_token op)"
  by (cases op) simp_all

lemma printable_unaryop: "printable (unaryop_token op)"
  by (cases op) simp_all

lemma printable_expr: "expr_ok e \<Longrightarrow> list_all printable (show_expr L e)"
proof (induction L e rule: show_expr.induct)
  case (11 L m n args s)
  then have a: "\<forall>a \<in> set args. list_all printable (show_expr 0 a)" by (simp add: list_all_iff)
  then have "list_all printable (with_commas (map (show_expr 0) args))" by (cases args) (auto simp: list_all_iff)
  then show ?case using 11 by (simp add: head_ok_def name_ok_def)
qed (auto simp: bracketed_def head_ok_def name_ok_def printable_binop printable_unaryop)

text \<open>C17. Expressions round-trip through source text: every expression that the language can express, printed
  with brackets only where the precedence and associativity of the grammar need them, is read back by
  lexer and parser as the same expression up to source positions, and the parser stops at the end marker.\<close>

theorem expr_roundtrip:
  assumes "expr_ok e"
  shows "\<exists>ts e'. tokenize (print_tokens (show_expr 0 e)) = Inr ts \<and> parse_expr ts = Inr (e', [last ts]) \<and> strip e' = strip e"
proof -
  obtain ts where ts: "tokenize (print_tokens (show_expr 0 e)) = Inr ts" "map tk_kind ts = show_expr 0 e @ [TkEof]"
    using tokenize_printed [OF printable_expr [OF assms], of "length (print_tokens (show_expr 0 e))" 0 "[]"]
    by (auto simp: tokenize_def)
  then have ne: "ts \<noteq> []" by auto
  have eof: "tk_kind (last ts) = TkEof" using ts(2) last_map [OF ne, of tk_kind] by simp
  have "map tk_kind (butlast ts) = show_expr 0 e" using ts(2) by (metis butlast_snoc map_butlast)
  then have tk: "toks (show_expr 0 e) [last ts] ts" using ne by (auto simp: toks_def intro!: exI [of _ "butlast ts"])
  have "reads_back (length ts) 0 e"
    using toks_length [OF tk] by (intro expr_reads_back assms) auto
  then obtain e' where "parse_level 0 (parse_expr_fuel (length ts)) ts = Inr (e', [last ts])" "strip e' = strip e"
    using parsesD [OF _ tk, of "length ts"] eof by (auto simp: reads_back_def)
  then show ?thesis using ts(1) by (auto simp: parse_expr_def parse_level.simps)
qed

definition sample_expr :: ast_expr where
  "sample_expr =
     EBinary Mul (EBinary Add (ENameRef ''a'' None) (EInt 1 None) None)
       (EUnary Neg (ESubscript (EMemberAccess (ENameRef ''src'' None) ''type'' None) (EInt 2 None) None) None) None"

theorem expr_roundtrip_witness:
  "\<exists>ts e'. tokenize ''( a + 1 ) * - src . type [ 2 ] '' = Inr ts \<and> parse_expr ts = Inr (e', [last ts])
    \<and> strip e' = sample_expr"
proof -
  have "expr_ok sample_expr \<and> print_tokens (show_expr 0 sample_expr) = ''( a + 1 ) * - src . type [ 2 ] ''
      \<and> strip sample_expr = sample_expr"
    by code_simp
  then show ?thesis using expr_roundtrip [of sample_expr] by metis
qed

end
