(* ===== verification/Resolve.thy ===== *)
theory Resolve
  imports ParserSafe
begin

text \<open>
  The module resolver, \<open>crates/wirespec-driver/src/resolve.rs\<close>: a depth-first walk over the import
  declarations, from the entry file, that loads every module once and lists the modules with
  dependencies first. The file system is a parameter; it does not change during the walk. The
  recursion of \<open>visit\<close> carries fuel, for nothing but the number of files bounds its depth.
\<close>

section \<open>Files and paths\<close>

type_synonym path = string

text \<open>What the resolver asks the operating system. \<open>Inl\<close> is the text of an I/O error.\<close>

record file_system =
  fs_canonicalize :: "path \<Rightarrow> string + path"
  fs_read :: "path \<Rightarrow> string + string"
  fs_exists :: "path \<Rightarrow> bool"

abbreviation slash :: char where
  "slash \<equiv> CHR ''/''"

abbreviation dot :: char where
  "dot \<equiv> CHR ''.''"

text \<open>\<open>Path::join\<close>, \<open>Path::parent\<close> and \<open>Path::file_stem\<close> of paths without a trailing slash.\<close>

definition path_join :: "path \<Rightarrow> path \<Rightarrow> path" where
  "path_join b rel =
     (if rel \<noteq> [] \<and> hd rel = slash then rel else if b = [] \<or> last b = slash then b @ rel else b @ slash # rel)"

definition after_last :: "char \<Rightarrow> string \<Rightarrow> string" where
  "after_last c s = rev (takeWhile (\<lambda>x. x \<noteq> c) (rev s))"

definition before_last :: "char \<Rightarrow> string \<Rightarrow> string" where
  "before_last c s = rev (tl (dropWhile (\<lambda>x. x \<noteq> c) (rev s)))"

definition path_parent :: "path \<Rightarrow> path option" where
  "path_parent p =
     (if p = [] \<or> p = [slash] then None
      else if slash \<in> set p \<and> before_last slash p = [] then Some [slash] else Some (before_last slash p))"

definition file_stem :: "path \<Rightarrow> string" where
  "file_stem p =
     (let name = after_last slash p
      in if name = ''..'' then [] else if before_last dot name = [] then name else before_last dot name)"

definition replace_char :: "char \<Rightarrow> char \<Rightarrow> string \<Rightarrow> string" where
  "replace_char a b s = map (\<lambda>c. if c = a then b else c) s"

section \<open>The state of the walk\<close>

record resolved_module =
  rm_path :: path
  rm_module_name :: string
  rm_source_prefix :: string
  rm_source :: string
  rm_ast :: ast_module

text \<open>The messages, with their arguments as data.\<close>

datatype resolve_error =
    CannotResolveEntry path string
  | CannotResolve path string
  | CircularImport path
  | CannotRead path string
  | ParseErrorIn path parse_error
  | NotExported string string
  | ModuleNotFound string "path list"

datatype resolve_failure = RErr resolve_error | RPanic | RFuel

record resolver =
  rv_resolved :: "path \<rightharpoonup> resolved_module"
  rv_in_progress :: "path set"
  rv_order :: "path list"

section \<open>Names and files\<close>

fun exportable_item :: "ast_top_item \<Rightarrow> (string \<times> bool) option" where
  "exportable_item (IConst c) = Some (co_name c, co_exported c)"
| "exportable_item (IEnum e) = Some (en_name e, en_exported e)"
| "exportable_item (IFlags f) = Some (fl_name f, fl_exported f)"
| "exportable_item (IType t) = Some (ty_name t, ty_exported t)"
| "exportable_item (IPacket p) = Some (pk_name p, pk_exported p)"
| "exportable_item (IFrame f) = Some (fr_name f, fr_exported f)"
| "exportable_item (ICapsule c) = Some (ca_name c, ca_exported c)"
| "exportable_item (IContinuationVarInt v) = Some (cv_name v, cv_exported v)"
| "exportable_item (IStateMachine s) = Some (sm_name s, sm_exported s)"
| "exportable_item (IStaticAssert s) = None"
| "exportable_item (IExternAsn1 e) = None"

definition get_exportable_names :: "ast_module \<Rightarrow> string list" where
  "get_exportable_names ast =
     (let items = List.map_filter exportable_item (mo_items ast);
          exported_names = map fst (filter snd items)
      in if exported_names \<noteq> [] then exported_names else map fst items)"

definition extract_module_from_import :: "string \<Rightarrow> bool \<Rightarrow> string" where
  "extract_module_from_import module_path has_name = module_path"

definition find_module :: "file_system \<Rightarrow> string \<Rightarrow> path list \<Rightarrow> resolve_error + path" where
  "find_module fs name search_paths =
     (let rel_path = replace_char dot slash name @ ''.wspec'';
          fallback = name @ slash # name @ ''.wspec'';
          candidates = map (\<lambda>b. path_join b rel_path) search_paths @
            (if dot \<notin> set name then map (\<lambda>b. path_join b fallback) search_paths else [])
      in case find (fs_exists fs) candidates of
           Some candidate \<Rightarrow> Inr candidate
         | None \<Rightarrow> Inl (ModuleNotFound name search_paths))"

definition canonicalize :: "file_system \<Rightarrow> path \<Rightarrow> resolve_failure + path" where
  "canonicalize fs p = rmap_err (\<lambda>e. RErr (CannotResolve p e)) (fs_canonicalize fs p)"

definition read_source :: "file_system \<Rightarrow> path \<Rightarrow> resolve_failure + string" where
  "read_source fs p = rmap_err (\<lambda>e. RErr (CannotRead p e)) (fs_read fs p)"

definition parse_source :: "path \<Rightarrow> string \<Rightarrow> resolve_failure + ast_module" where
  "parse_source p source =
     (case parse source of
        Inr ast \<Rightarrow> Inr ast
      | Inl (PErr e) \<Rightarrow> Inl (RErr (ParseErrorIn p e))
      | Inl PPanic \<Rightarrow> Inl RPanic
      | Inl PFuel \<Rightarrow> Inl RFuel)"

definition resolved_module_of :: "path \<Rightarrow> string \<Rightarrow> ast_module \<Rightarrow> resolved_module" where
  "resolved_module_of p source ast =
     (let name = (case mo_module_decl ast of Some d \<Rightarrow> md_name d | None \<Rightarrow> file_stem p)
      in \<lparr>rm_path = p, rm_module_name = name, rm_source_prefix = replace_char dot (CHR ''_'') name,
          rm_source = source, rm_ast = ast\<rparr>)"

section \<open>The walk\<close>

text \<open>The check behind the visit of a dependency: the imported name is one its module makes importable.\<close>

definition check_export :: "file_system \<Rightarrow> path \<Rightarrow> ast_import \<Rightarrow> resolver \<Rightarrow> resolve_failure + unit" where
  "check_export fs dep_path imp st =
     (case im_name imp of
        None \<Rightarrow> Inr ()
      | Some item \<Rightarrow>
          rbind (canonicalize fs dep_path) (\<lambda>dep_abs.
          case rv_resolved st dep_abs of
            None \<Rightarrow> Inr ()
          | Some m \<Rightarrow>
              if item \<in> set (get_exportable_names (rm_ast m)) then Inr ()
              else Inl (RErr (NotExported (rm_module_name m) item))))"

fun visit_imports :: "(path \<Rightarrow> resolver \<Rightarrow> resolve_failure + resolver) \<Rightarrow> file_system \<Rightarrow> path list
    \<Rightarrow> ast_import list \<Rightarrow> resolver \<Rightarrow> resolve_failure + resolver" where
  "visit_imports v fs sp [] st = Inr st"
| "visit_imports v fs sp (imp # imps) st =
     rbind (rmap_err RErr (find_module fs (extract_module_from_import (im_module imp) (im_name imp \<noteq> None)) sp))
       (\<lambda>dep_path.
     rbind (v dep_path st) (\<lambda>st.
     rbind (check_export fs dep_path imp st) (\<lambda>_.
     visit_imports v fs sp imps st)))"

fun visit :: "nat \<Rightarrow> file_system \<Rightarrow> path list \<Rightarrow> path \<Rightarrow> resolver \<Rightarrow> resolve_failure + resolver" where
  "visit 0 fs sp p st = Inl RFuel"
| "visit (Suc n) fs sp p st =
     rbind (canonicalize fs p) (\<lambda>abs.
     if rv_resolved st abs \<noteq> None then Inr st
     else if abs \<in> rv_in_progress st then Inl (RErr (CircularImport abs))
     else
       rbind (read_source fs abs) (\<lambda>source.
       rbind (parse_source abs source) (\<lambda>ast.
       rbind (visit_imports (visit n fs sp) fs sp (mo_imports ast)
           (st\<lparr>rv_in_progress := insert abs (rv_in_progress st)\<rparr>)) (\<lambda>st.
       Inr (st\<lparr>rv_in_progress := rv_in_progress st - {abs},
               rv_resolved := (rv_resolved st)(abs \<mapsto> resolved_module_of abs source ast),
               rv_order := rv_order st @ [abs]\<rparr>)))))"

text \<open>\<open>resolved.remove(&p).expect(..)\<close> for every path of the order.\<close>

fun take_resolved :: "path list \<Rightarrow> (path \<rightharpoonup> resolved_module) \<Rightarrow> resolve_failure + resolved_module list" where
  "take_resolved [] m = Inr []"
| "take_resolved (p # ps) m =
     (case m p of
        None \<Rightarrow> Inl RPanic
      | Some x \<Rightarrow> rbind (take_resolved ps (m(p := None))) (\<lambda>xs. Inr (x # xs)))"

definition search_paths_of :: "path \<Rightarrow> path list \<Rightarrow> path list" where
  "search_paths_of entry include_paths =
     (case path_parent entry of
        Some parent \<Rightarrow> if parent \<in> set include_paths then include_paths else include_paths @ [parent]
      | None \<Rightarrow> include_paths)"

definition resolve :: "nat \<Rightarrow> file_system \<Rightarrow> path \<Rightarrow> path list \<Rightarrow> resolve_failure + resolved_module list" where
  "resolve fuel fs entry include_paths =
     rbind (rmap_err (\<lambda>e. RErr (CannotResolveEntry entry e)) (fs_canonicalize fs entry)) (\<lambda>entry.
     rbind (visit fuel fs (search_paths_of entry include_paths) entry
         \<lparr>rv_resolved = Map.empty, rv_in_progress = {}, rv_order = []\<rparr>) (\<lambda>st.
     take_resolved (rv_order st) (rv_resolved st)))"

section \<open>The import graph\<close>

text \<open>What a path holds, and where an import of it leads.\<close>

definition load :: "file_system \<Rightarrow> path \<Rightarrow> resolved_module option" where
  "load fs p =
     (case fs_read fs p of
        Inl e \<Rightarrow> None
      | Inr source \<Rightarrow> (case parse source of Inl e \<Rightarrow> None | Inr ast \<Rightarrow> Some (resolved_module_of p source ast)))"

definition import_target :: "file_system \<Rightarrow> path list \<Rightarrow> ast_import \<Rightarrow> path option" where
  "import_target fs sp imp =
     (case find_module fs (im_module imp) sp of
        Inl e \<Rightarrow> None
      | Inr d \<Rightarrow> (case fs_canonicalize fs d of Inl e \<Rightarrow> None | Inr q \<Rightarrow> Some q))"

definition imports_edge :: "file_system \<Rightarrow> path list \<Rightarrow> (path \<times> path) set" where
  "imports_edge fs sp =
     {(p, q). \<exists>m imp. load fs p = Some m \<and> imp \<in> set (mo_imports (rm_ast m)) \<and> import_target fs sp imp = Some q}"

text \<open>The imports of a module that loads all lead to modules that export what is asked of them.\<close>

definition import_ok :: "file_system \<Rightarrow> path list \<Rightarrow> ast_import \<Rightarrow> bool" where
  "import_ok fs sp imp \<longleftrightarrow>
     (\<exists>q m. import_target fs sp imp = Some q \<and> load fs q = Some m
       \<and> (\<forall>item. im_name imp = Some item \<longrightarrow> item \<in> set (get_exportable_names (rm_ast m))))"

definition loads_well :: "file_system \<Rightarrow> path list \<Rightarrow> path \<Rightarrow> bool" where
  "loads_well fs sp p \<longleftrightarrow> (\<exists>m. load fs p = Some m \<and> (\<forall>imp \<in> set (mo_imports (rm_ast m)). import_ok fs sp imp))"

lemma resolved_module_simps [simp]: "rm_path (resolved_module_of p s a) = p" "rm_ast (resolved_module_of p s a) = a"
  by (simp_all add: resolved_module_of_def Let_def)

lemma load_path: "load fs p = Some m \<Longrightarrow> rm_path m = p"
  by (auto simp: load_def split: sum.splits)

lemma parse_source_Inr: "parse_source p s = Inr ast \<longleftrightarrow> parse s = Inr ast"
  by (auto simp: parse_source_def split: sum.splits parse_failure.splits)

lemma load_Some_iff: "load fs p = Some m \<longleftrightarrow>
    (\<exists>source ast. read_source fs p = Inr source \<and> parse_source p source = Inr ast \<and> m = resolved_module_of p source ast)"
  by (auto simp: load_def read_source_def parse_source_Inr rmap_err_eq_Inr_iff split: sum.splits)

lemma canonicalize_Inr: "canonicalize fs p = Inr q \<longleftrightarrow> fs_canonicalize fs p = Inr q"
  by (simp add: canonicalize_def rmap_err_eq_Inr_iff)

section \<open>What a successful walk leaves\<close>

text \<open>A list with the targets of every element in front of it.\<close>

definition deps_first :: "(path \<times> path) set \<Rightarrow> path list \<Rightarrow> bool" where
  "deps_first E ps \<longleftrightarrow> (\<forall>ys p zs. ps = ys @ p # zs \<longrightarrow> E `` {p} \<subseteq> set ys)"

lemma deps_first_Nil [simp]: "deps_first E []"
  by (simp add: deps_first_def)

lemma deps_first_snoc: "deps_first E ps \<Longrightarrow> E `` {p} \<subseteq> set ps \<Longrightarrow> deps_first E (ps @ [p])"
  unfolding deps_first_def
proof (intro allI impI)
  fix ys q zs
  assume h: "\<forall>ys p zs. ps = ys @ p # zs \<longrightarrow> E `` {p} \<subseteq> set ys" "E `` {p} \<subseteq> set ps" "ps @ [p] = ys @ q # zs"
  then show "E `` {q} \<subseteq> set ys" by (cases zs rule: rev_cases) auto
qed

definition resolver_ok :: "file_system \<Rightarrow> path list \<Rightarrow> resolver \<Rightarrow> bool" where
  "resolver_ok fs sp st \<longleftrightarrow>
     distinct (rv_order st) \<and> set (rv_order st) = dom (rv_resolved st) \<and> deps_first (imports_edge fs sp) (rv_order st)
   \<and> (\<forall>p m. rv_resolved st p = Some m \<longrightarrow> load fs p = Some m \<and> loads_well fs sp p)"

text \<open>From one state of the walk to a later one, while the modules under \<open>roots\<close> are visited.\<close>

definition extends :: "file_system \<Rightarrow> path list \<Rightarrow> path set \<Rightarrow> resolver \<Rightarrow> resolver \<Rightarrow> bool" where
  "extends fs sp roots st st' \<longleftrightarrow>
     resolver_ok fs sp st' \<and> rv_in_progress st' = rv_in_progress st
   \<and> dom (rv_resolved st) \<subseteq> dom (rv_resolved st') \<and> dom (rv_resolved st') \<inter> rv_in_progress st \<subseteq> dom (rv_resolved st)
   \<and> dom (rv_resolved st') \<subseteq> dom (rv_resolved st) \<union> (imports_edge fs sp)\<^sup>* `` roots
   \<and> roots \<subseteq> dom (rv_resolved st')"

lemma extends_refl: "resolver_ok fs sp st \<Longrightarrow> roots \<subseteq> dom (rv_resolved st) \<Longrightarrow> extends fs sp roots st st"
  by (auto simp: extends_def)

lemma growth_trans:
  assumes "d1 \<subseteq> d2" "d2 \<inter> P \<subseteq> d1" "d2 \<subseteq> d1 \<union> A" "d2 \<subseteq> d3" "d3 \<inter> P \<subseteq> d2" "d3 \<subseteq> d2 \<union> B"
  shows "d1 \<subseteq> d3 \<and> d3 \<inter> P \<subseteq> d1 \<and> d3 \<subseteq> d1 \<union> (A \<union> B)"
  using assms by blast

lemma extends_trans:
  assumes "extends fs sp A st1 st2" "extends fs sp B st2 st3"
  shows "extends fs sp (A \<union> B) st1 st3"
proof -
  note h = assms [unfolded extends_def]
  have g: "dom (rv_resolved st1) \<subseteq> dom (rv_resolved st3) \<and> dom (rv_resolved st3) \<inter> rv_in_progress st1 \<subseteq> dom (rv_resolved st1)
      \<and> dom (rv_resolved st3) \<subseteq> dom (rv_resolved st1) \<union> ((imports_edge fs sp)\<^sup>* `` A \<union> (imports_edge fs sp)\<^sup>* `` B)"
    by (rule growth_trans [of _ "dom (rv_resolved st2)"]) (use h in simp_all)
  have "A \<subseteq> dom (rv_resolved st3)" using h order_trans [of A "dom (rv_resolved st2)"] by simp
  then show ?thesis unfolding extends_def Image_Un using h g by simp
qed

text \<open>What is asked of the visitor of a single module.\<close>

definition visitor_ok :: "file_system \<Rightarrow> path list \<Rightarrow> (path \<Rightarrow> resolver \<Rightarrow> resolve_failure + resolver) \<Rightarrow> bool" where
  "visitor_ok fs sp v \<longleftrightarrow> (\<forall>p st st'. resolver_ok fs sp st \<longrightarrow> v p st = Inr st' \<longrightarrow>
     (\<exists>q. fs_canonicalize fs p = Inr q \<and> extends fs sp {q} st st'))"

definition targets :: "file_system \<Rightarrow> path list \<Rightarrow> ast_import list \<Rightarrow> path set" where
  "targets fs sp imps = {q. \<exists>imp \<in> set imps. import_target fs sp imp = Some q}"

lemma visit_imports_ok:
  assumes v: "visitor_ok fs sp v"
  shows "resolver_ok fs sp st \<Longrightarrow> visit_imports v fs sp imps st = Inr st' \<Longrightarrow>
    extends fs sp (targets fs sp imps) st st' \<and> (\<forall>imp \<in> set imps. import_ok fs sp imp)"
proof (induction imps arbitrary: st)
  case Nil
  then show ?case by (simp add: extends_refl targets_def)
next
  case (Cons imp imps)
  then obtain d st1 u where d: "find_module fs (im_module imp) sp = Inr d" "v d st = Inr st1"
    "check_export fs d imp st1 = Inr u" "visit_imports v fs sp imps st1 = Inr st'"
    by (auto simp: rbind_eq_Inr_iff rmap_err_eq_Inr_iff extract_module_from_import_def)
  obtain q where q: "fs_canonicalize fs d = Inr q" "extends fs sp {q} st st1"
    using v [unfolded visitor_ok_def] d(2) Cons.prems(1) by blast
  have target: "import_target fs sp imp = Some q" using d(1) q(1) by (simp add: import_target_def)
  have ok1: "resolver_ok fs sp st1" and "q \<in> dom (rv_resolved st1)" using q(2) by (auto simp: extends_def)
  then obtain m where m: "rv_resolved st1 q = Some m" "load fs q = Some m" by (auto simp: resolver_ok_def)
  have "import_ok fs sp imp"
    unfolding import_ok_def
  proof (intro exI conjI allI impI)
    fix item
    assume "im_name imp = Some item"
    then show "item \<in> set (get_exportable_names (rm_ast m))"
      using d(3) m(1) q(1) by (auto simp: check_export_def canonicalize_def rbind_eq_Inr_iff split: if_splits)
  qed (use target m in auto)
  moreover have "targets fs sp (imp # imps) = {q} \<union> targets fs sp imps" using target by (auto simp: targets_def)
  ultimately show ?case using Cons.IH [OF ok1 d(4)] extends_trans [OF q(2)] by auto
qed

lemma visit_ok: "visitor_ok fs sp (visit n fs sp)"
proof (induction n)
  case (Suc n)
  show ?case
    unfolding visitor_ok_def
  proof (intro allI impI)
    fix p st st'
    let ?E = "imports_edge fs sp"
    assume h: "resolver_ok fs sp st" "visit (Suc n) fs sp p st = Inr st'"
    then obtain q where q: "fs_canonicalize fs p = Inr q" by (auto simp: rbind_eq_Inr_iff canonicalize_Inr)
    show "\<exists>q. fs_canonicalize fs p = Inr q \<and> extends fs sp {q} st st'"
    proof (cases "rv_resolved st q")
      case (Some m)
      then show ?thesis using h q by (auto simp: canonicalize_def intro!: extends_refl)
    next
      case None
      let ?st = "st\<lparr>rv_in_progress := insert q (rv_in_progress st)\<rparr>"
      obtain source ast st1 where s: "q \<notin> rv_in_progress st" "read_source fs q = Inr source" "parse_source q source = Inr ast"
        "visit_imports (visit n fs sp) fs sp (mo_imports ast) ?st = Inr st1"
        and st': "st' = st1\<lparr>rv_in_progress := rv_in_progress st1 - {q},
          rv_resolved := (rv_resolved st1)(q \<mapsto> resolved_module_of q source ast), rv_order := rv_order st1 @ [q]\<rparr>"
        using h(2) q None by (auto simp: canonicalize_def rbind_eq_Inr_iff split: if_splits)
      let ?m = "resolved_module_of q source ast"
      have load: "load fs q = Some ?m" using s(2, 3) by (auto simp: load_Some_iff)
      have "resolver_ok fs sp ?st" using h(1) by (simp add: resolver_ok_def)
      then have e: "extends fs sp (targets fs sp (mo_imports ast)) ?st st1" "\<forall>imp \<in> set (mo_imports ast). import_ok fs sp imp"
        using visit_imports_ok [OF Suc _ s(4)] by auto
      have targets: "targets fs sp (mo_imports ast) = ?E `` {q}"
        using load by (auto simp: targets_def imports_edge_def)
      have new: "rv_resolved st1 q = None" using e(1) None by (auto simp: extends_def)
      have well: "loads_well fs sp q" using load e(2) by (auto simp: loads_well_def)
      have ok1: "resolver_ok fs sp st1" using e(1) by (simp add: extends_def)
      have "?E `` {q} \<subseteq> set (rv_order st1)" using e(1) targets by (auto simp: extends_def resolver_ok_def)
      then have "resolver_ok fs sp st'"
        using ok1 new well load unfolding st' resolver_ok_def by (auto intro: deps_first_snoc)
      moreover have "?E\<^sup>* `` (?E `` {q}) \<subseteq> ?E\<^sup>* `` {q}" by (auto intro: converse_rtrancl_into_rtrancl)
      ultimately have "extends fs sp {q} st st'"
        using e(1) s(1) new unfolding st' targets extends_def by auto
      then show ?thesis using q by blast
    qed
  qed
qed (simp add: visitor_ok_def)

section \<open>When the walk succeeds\<close>

text \<open>The modules reachable from one that all load well, without a cycle among them.\<close>

definition all_well :: "file_system \<Rightarrow> path list \<Rightarrow> path \<Rightarrow> bool" where
  "all_well fs sp e \<longleftrightarrow>
     (\<forall>p. (e, p) \<in> (imports_edge fs sp)\<^sup>* \<longrightarrow> loads_well fs sp p \<and> (p, p) \<notin> (imports_edge fs sp)\<^sup>+)"

lemma all_well_edge: "all_well fs sp p \<Longrightarrow> (p, q) \<in> imports_edge fs sp \<Longrightarrow> all_well fs sp q"
  by (auto simp: all_well_def intro: converse_rtrancl_into_rtrancl)

text \<open>The files there are: what canonical paths can name.\<close>

definition files :: "file_system \<Rightarrow> path set" where
  "files fs = {q. \<exists>p. fs_canonicalize fs p = Inr q}"

lemma progress_card:
  "finite F \<Longrightarrow> q \<in> F \<Longrightarrow> q \<notin> P \<Longrightarrow> card (F - P) < Suc n \<Longrightarrow> card (F - insert q P) < n"
proof -
  assume h: "finite F" "q \<in> F" "q \<notin> P" "card (F - P) < Suc n"
  then have "card (F - insert q P) < card (F - P)" by (intro psubset_card_mono) auto
  then show ?thesis using h(4) by simp
qed

lemma visit_imports_succeeds:
  assumes v: "visitor_ok fs sp v"
    and succ: "\<And>p q st. resolver_ok fs sp st \<Longrightarrow> rv_in_progress st = P \<Longrightarrow> fs_canonicalize fs p = Inr q \<Longrightarrow>
      q \<in> T \<Longrightarrow> \<exists>st'. v p st = Inr st'"
  shows "resolver_ok fs sp st \<Longrightarrow> rv_in_progress st = P \<Longrightarrow> \<forall>imp \<in> set imps. import_ok fs sp imp \<Longrightarrow>
    targets fs sp imps \<subseteq> T \<Longrightarrow> \<exists>st'. visit_imports v fs sp imps st = Inr st'"
proof (induction imps arbitrary: st)
  case (Cons imp imps)
  then obtain q m where q: "import_target fs sp imp = Some q" "load fs q = Some m"
    "\<forall>item. im_name imp = Some item \<longrightarrow> item \<in> set (get_exportable_names (rm_ast m))"
    by (auto simp: import_ok_def)
  then obtain d where d: "find_module fs (im_module imp) sp = Inr d" "fs_canonicalize fs d = Inr q"
    by (auto simp: import_target_def split: sum.splits)
  have "q \<in> T" using Cons.prems(4) q(1) by (auto simp: targets_def)
  then obtain st1 where st1: "v d st = Inr st1" using succ [OF Cons.prems(1,2) d(2)] by blast
  then have e: "extends fs sp {q} st st1" using v Cons.prems(1) d(2) unfolding visitor_ok_def by fastforce
  then have ok1: "resolver_ok fs sp st1" "rv_in_progress st1 = P" "q \<in> dom (rv_resolved st1)"
    using Cons.prems(2) by (auto simp: extends_def)
  then have "rv_resolved st1 q = Some m" using q(2) by (auto simp: resolver_ok_def)
  then have c: "check_export fs d imp st1 = Inr ()"
    using q(3) d(2) by (auto simp: check_export_def canonicalize_def split: option.splits)
  have "targets fs sp imps \<subseteq> T" using Cons.prems(4) by (auto simp: targets_def)
  then obtain st' where "visit_imports v fs sp imps st1 = Inr st'" using Cons.IH ok1 Cons.prems(3) by fastforce
  then show ?case using d(1) st1 c by (simp add: extract_module_from_import_def)
qed simp

lemma visit_succeeds:
  assumes fin: "finite (files fs)"
  shows "resolver_ok fs sp st \<Longrightarrow> fs_canonicalize fs p = Inr q \<Longrightarrow> all_well fs sp q \<Longrightarrow>
    \<forall>x \<in> rv_in_progress st. (x, q) \<in> (imports_edge fs sp)\<^sup>+ \<Longrightarrow> card (files fs - rv_in_progress st) < n \<Longrightarrow>
    \<exists>st'. visit n fs sp p st = Inr st'"
proof (induction n arbitrary: p q st)
  case (Suc n)
  let ?E = "imports_edge fs sp"
  show ?case
  proof (cases "rv_resolved st q")
    case (Some m)
    then show ?thesis using Suc.prems(2) by (simp add: canonicalize_def)
  next
    case None
    have "(q, q) \<notin> ?E\<^sup>+" and "loads_well fs sp q" using Suc.prems(3) by (auto simp: all_well_def)
    then have q: "q \<notin> rv_in_progress st" using Suc.prems(4) by blast
    obtain source ast where s: "read_source fs q = Inr source" "parse_source q source = Inr ast"
      and imps: "\<forall>imp \<in> set (mo_imports ast). import_ok fs sp imp"
      and load: "load fs q = Some (resolved_module_of q source ast)"
      using \<open>loads_well fs sp q\<close> by (fastforce simp: loads_well_def load_Some_iff)
    let ?P = "insert q (rv_in_progress st)"
    let ?st = "st\<lparr>rv_in_progress := ?P\<rparr>"
    have tgt: "targets fs sp (mo_imports ast) = ?E `` {q}" using load by (auto simp: targets_def imports_edge_def)
    have "q \<in> files fs" using Suc.prems(2) by (auto simp: files_def)
    then have card: "card (files fs - ?P) < n" using progress_card [OF fin _ q] Suc.prems(5) by blast
    have "\<exists>st1. visit_imports (visit n fs sp) fs sp (mo_imports ast) ?st = Inr st1"
    proof (rule visit_imports_succeeds [OF visit_ok, where P = "?P" and T = "?E `` {q}"])
      fix p' q' and st2 :: resolver
      assume h: "resolver_ok fs sp st2" "rv_in_progress st2 = ?P" "fs_canonicalize fs p' = Inr q'" "q' \<in> ?E `` {q}"
      show "\<exists>st'. visit n fs sp p' st2 = Inr st'"
      proof (rule Suc.IH [OF h(1,3)])
        show "all_well fs sp q'" using all_well_edge Suc.prems(3) h(4) by blast
        show "\<forall>x \<in> rv_in_progress st2. (x, q') \<in> ?E\<^sup>+"
          using h(2,4) Suc.prems(4) by (auto intro: trancl_into_trancl)
      qed (use h(2) card in simp)
    qed (use imps tgt Suc.prems(1) in \<open>simp_all add: resolver_ok_def\<close>)
    then obtain st1 where "visit_imports (visit n fs sp) fs sp (mo_imports ast) ?st = Inr st1" by blast
    then show ?thesis using None q s Suc.prems(2) by (simp add: canonicalize_def)
  qed
qed simp

text \<open>Whatever goes wrong is reported: fuel for every file is enough, and parsing always answers.\<close>

lemma parse_source_reports: "parse_source p s = Inl f \<Longrightarrow> \<exists>e. f = RErr e"
  using parse_answers [of s] by (auto simp: parse_source_def split: sum.splits parse_failure.splits)

lemma check_export_reports: "check_export fs d imp st = Inl f \<Longrightarrow> \<exists>e. f = RErr e"
  by (auto simp: check_export_def canonicalize_def rbind_eq_Inl_iff split: option.splits if_splits sum.splits)
    (cases "fs_canonicalize fs d"; auto)

lemma visit_imports_reports:
  assumes v: "visitor_ok fs sp v"
    and rep: "\<And>p st f. resolver_ok fs sp st \<Longrightarrow> rv_in_progress st = P \<Longrightarrow> v p st = Inl f \<Longrightarrow> \<exists>e. f = RErr e"
  shows "resolver_ok fs sp st \<Longrightarrow> rv_in_progress st = P \<Longrightarrow> visit_imports v fs sp imps st = Inl f \<Longrightarrow> \<exists>e. f = RErr e"
proof (induction imps arbitrary: st)
  case (Cons imp imps)
  show ?case
  proof (cases "find_module fs (im_module imp) sp")
    case (Inl e)
    then show ?thesis using Cons.prems(3) by (auto simp: extract_module_from_import_def)
  next
    case d: (Inr d)
    show ?thesis
    proof (cases "v d st")
      case (Inl f')
      then show ?thesis using Cons.prems d rep by (simp add: extract_module_from_import_def)
    next
      case (Inr st1)
      then have "resolver_ok fs sp st1" "rv_in_progress st1 = P"
        using v Cons.prems(1,2) unfolding visitor_ok_def extends_def by fastforce+
      then show ?thesis
        using Cons.IH [of st1] Cons.prems(3) d Inr check_export_reports [of fs d imp st1]
        by (auto simp: extract_module_from_import_def rbind_eq_Inl_iff)
    qed
  qed
qed simp

lemma visit_reports:
  assumes fin: "finite (files fs)"
  shows "resolver_ok fs sp st \<Longrightarrow> card (files fs - rv_in_progress st) < n \<Longrightarrow> visit n fs sp p st = Inl f \<Longrightarrow> \<exists>e. f = RErr e"
proof (induction n arbitrary: p st f)
  case (Suc n)
  show ?case
  proof (cases "fs_canonicalize fs p")
    case (Inl e)
    then show ?thesis using Suc.prems(3) by (auto simp: canonicalize_def)
  next
    case (Inr q)
    show ?thesis
    proof (cases "rv_resolved st q \<noteq> None \<or> q \<in> rv_in_progress st")
      case True
      then show ?thesis using Suc.prems(3) Inr by (auto simp: canonicalize_def split: if_splits)
    next
      case False
      let ?st = "st\<lparr>rv_in_progress := insert q (rv_in_progress st)\<rparr>"
      have "q \<in> files fs" using Inr by (auto simp: files_def)
      then have card: "card (files fs - rv_in_progress ?st) < n"
        using progress_card [OF fin _ _ Suc.prems(2)] False by simp
      have rep: "\<exists>e. f = RErr e" if "visit_imports (visit n fs sp) fs sp imps ?st = Inl f" for imps f
      proof (rule visit_imports_reports [OF visit_ok, where P = "rv_in_progress ?st"])
        show "\<exists>e. f = RErr e" if "resolver_ok fs sp st2" "rv_in_progress st2 = rv_in_progress ?st" "visit n fs sp p' st2 = Inl f"
          for p' st2 f
          using Suc.IH [OF that(1) _ that(3)] that(2) card by simp
      qed (use that Suc.prems(1) in \<open>simp_all add: resolver_ok_def\<close>)
      show ?thesis
      proof (cases "read_source fs q")
        case (Inl e)
        then show ?thesis using Suc.prems(3) Inr False by (cases "fs_read fs q") (auto simp: canonicalize_def read_source_def)
      next
        case source: (Inr source)
        show ?thesis
        proof (cases "parse_source q source")
          case (Inl e)
          then show ?thesis using Suc.prems(3) \<open>fs_canonicalize fs p = Inr q\<close> False source parse_source_reports [OF Inl]
            by (simp add: canonicalize_def)
        next
          case (Inr ast)
          then show ?thesis using Suc.prems(3) \<open>fs_canonicalize fs p = Inr q\<close> False source rep [of "mo_imports ast"]
            by (auto simp: canonicalize_def rbind_eq_Inl_iff)
        qed
      qed
    qed
  qed
qed simp

section \<open>The resolved program\<close>

abbreviation resolver_start :: resolver where
  "resolver_start \<equiv> \<lparr>rv_resolved = Map.empty, rv_in_progress = {}, rv_order = []\<rparr>"

lemma resolver_start_ok: "resolver_ok fs sp resolver_start"
  by (simp add: resolver_ok_def)

lemma take_resolved_order:
  "distinct ps \<Longrightarrow> set ps \<subseteq> dom m \<Longrightarrow> take_resolved ps m = Inr (map (the \<circ> m) ps)"
proof (induction ps arbitrary: m)
  case (Cons p ps)
  have "map (the \<circ> m(p := None)) ps = map (the \<circ> m) ps" using Cons.prems by auto
  moreover have "set ps \<subseteq> dom (m(p := None))" using Cons.prems by auto
  ultimately show ?case using Cons by auto
qed simp

lemma resolver_ok_modules:
  assumes "resolver_ok fs sp st"
  shows "take_resolved (rv_order st) (rv_resolved st) = Inr (map (the \<circ> load fs) (rv_order st))"
proof -
  have "rv_resolved st p = load fs p" if "p \<in> set (rv_order st)" for p
    using assms that by (auto simp: resolver_ok_def)
  then have "map (the \<circ> rv_resolved st) (rv_order st) = map (the \<circ> load fs) (rv_order st)" by simp
  then show ?thesis using assms take_resolved_order [of "rv_order st" "rv_resolved st"] by (simp add: resolver_ok_def)
qed

text \<open>A file system as the resolver needs it: finitely many files, and canonical paths that stay as they are.\<close>

definition file_system_ok :: "file_system \<Rightarrow> bool" where
  "file_system_ok fs \<longleftrightarrow> finite (files fs) \<and> (\<forall>p q. fs_canonicalize fs p = Inr q \<longrightarrow> fs_canonicalize fs q = Inr q)"

lemma deps_first_acyclic:
  assumes "deps_first E ps" "distinct ps"
  shows "(p, q) \<in> E\<^sup>+ \<Longrightarrow> ps = ys @ p # zs \<Longrightarrow> q \<in> set ys"
proof (induction arbitrary: rule: trancl_induct)
  case (base q)
  then show ?case using assms(1) by (auto simp: deps_first_def)
next
  case (step q r)
  then obtain as bs where ys: "ys = as @ q # bs" by (meson split_list)
  then have "E `` {q} \<subseteq> set as" using assms(1) step.prems by (simp add: deps_first_def)
  then show ?case using step.hyps(2) ys by auto
qed

lemma resolve_result:
  assumes "resolve fuel fs entry include_paths = Inr ms"
  obtains e e' st where "fs_canonicalize fs entry = Inr e" "resolver_ok fs (search_paths_of e include_paths) st"
    "dom (rv_resolved st) \<subseteq> (imports_edge fs (search_paths_of e include_paths))\<^sup>* `` {e'}" "e' \<in> dom (rv_resolved st)"
    "fs_canonicalize fs e = Inr e'" "ms = map (the \<circ> load fs) (rv_order st)"
proof -
  obtain e st where e: "fs_canonicalize fs entry = Inr e"
    "visit fuel fs (search_paths_of e include_paths) e resolver_start = Inr st"
    "take_resolved (rv_order st) (rv_resolved st) = Inr ms"
    using assms by (auto simp: resolve_def rbind_eq_Inr_iff rmap_err_eq_Inr_iff)
  let ?sp = "search_paths_of e include_paths"
  obtain q where q: "fs_canonicalize fs e = Inr q" "extends fs ?sp {q} resolver_start st"
    using visit_ok [of fs ?sp fuel] resolver_start_ok e(2) unfolding visitor_ok_def by blast
  show thesis
    by (rule that [OF e(1) _ _ _ q(1)]) (use q(2) e(3) resolver_ok_modules [of fs ?sp st] in \<open>auto simp: extends_def\<close>)
qed

lemma deps_first_closed:
  assumes "deps_first E ps" "distinct ps" "e \<in> set ps" "set ps \<subseteq> E\<^sup>* `` {e}"
  shows "set ps = E\<^sup>* `` {e}" and "last ps = e"
proof -
  have "E `` set ps \<subseteq> set ps"
  proof
    fix q
    assume "q \<in> E `` set ps"
    then obtain p ys zs where "(p, q) \<in> E" "ps = ys @ p # zs" by (auto dest: split_list)
    then show "q \<in> set ps" using deps_first_acyclic [OF assms(1,2), of p q ys zs] by auto
  qed
  then have "E\<^sup>* `` {e} \<subseteq> set ps" using assms(3) Image_closed_trancl [of E "set ps"] by blast
  then show "set ps = E\<^sup>* `` {e}" using assms(4) by blast
  obtain ys zs where ps: "ps = ys @ e # zs" using assms(3) by (meson split_list)
  have "zs = []"
  proof (rule ccontr)
    assume "zs \<noteq> []"
    then obtain z where z: "z \<in> set zs" by (cases zs) auto
    then have "(e, z) \<in> E\<^sup>+" using assms(2,4) ps by (auto simp: rtrancl_eq_or_trancl)
    then have "z \<in> set ys" using deps_first_acyclic [OF assms(1,2)] ps by blast
    then show False using assms(2) ps z by auto
  qed
  then show "last ps = e" using ps by simp
qed

text \<open>C14. Resolution always ends with a list of modules or an error message: with fuel for one visit more than
  there are files it never runs out, and it never fails to find a module it has listed.\<close>

theorem resolve_terminates:
  assumes "file_system_ok fs" "card (files fs) < fuel"
  shows "(\<exists>ms. resolve fuel fs entry include_paths = Inr ms)
    \<or> (\<exists>e. resolve fuel fs entry include_paths = Inl (RErr e))"
proof (cases "fs_canonicalize fs entry")
  case (Inr e)
  let ?sp = "search_paths_of e include_paths"
  show ?thesis
  proof (cases "visit fuel fs ?sp e resolver_start")
    case (Inl f)
    then have "\<exists>e. f = RErr e"
      using visit_reports [OF _ resolver_start_ok _ Inl] assms by (simp add: file_system_ok_def)
    then show ?thesis using Inl \<open>fs_canonicalize fs entry = Inr e\<close> by (auto simp: resolve_def)
  next
    case (Inr st)
    then have "resolver_ok fs ?sp st"
      using visit_ok [of fs ?sp fuel] resolver_start_ok unfolding visitor_ok_def extends_def by blast
    then show ?thesis using Inr \<open>fs_canonicalize fs entry = Inr e\<close> resolver_ok_modules by (fastforce simp: resolve_def)
  qed
qed (auto simp: resolve_def)

text \<open>C13. Resolution succeeds exactly for well-formed programs: every module reachable from the entry file can
  be read and parsed, each of its imports leads to a module that makes the imported name available, and
  no module imports itself along a path of imports.\<close>

theorem resolve_succeeds_iff:
  assumes "file_system_ok fs" "card (files fs) < fuel"
  shows "(\<exists>ms. resolve fuel fs entry include_paths = Inr ms) \<longleftrightarrow>
    (\<exists>e. fs_canonicalize fs entry = Inr e \<and> all_well fs (search_paths_of e include_paths) e)"
proof (intro iffI; elim exE)
  fix ms
  assume "resolve fuel fs entry include_paths = Inr ms"
  then obtain e e' st where e: "fs_canonicalize fs entry = Inr e" "resolver_ok fs (search_paths_of e include_paths) st"
    "dom (rv_resolved st) \<subseteq> (imports_edge fs (search_paths_of e include_paths))\<^sup>* `` {e'}" "e' \<in> dom (rv_resolved st)"
    "fs_canonicalize fs e = Inr e'"
    by (rule resolve_result)
  have "e' = e" using e(1,5) assms(1) by (auto simp: file_system_ok_def)
  let ?E = "imports_edge fs (search_paths_of e include_paths)"
  have ord: "deps_first ?E (rv_order st)" "distinct (rv_order st)" "set (rv_order st) = dom (rv_resolved st)"
    using e(2) by (simp_all add: resolver_ok_def)
  then have dom: "dom (rv_resolved st) = ?E\<^sup>* `` {e}"
    using deps_first_closed(1) [OF ord(1,2), of e] e(3,4) \<open>e' = e\<close> by simp
  have "(p, p) \<notin> ?E\<^sup>+" if p: "(e, p) \<in> ?E\<^sup>*" for p
  proof
    assume pp: "(p, p) \<in> ?E\<^sup>+"
    have "p \<in> set (rv_order st)" using p dom ord(3) by auto
    then obtain ys zs where "rv_order st = ys @ p # zs" by (meson split_list)
    then show False using deps_first_acyclic [OF ord(1,2) pp] ord(2) by auto
  qed
  moreover have "loads_well fs (search_paths_of e include_paths) p" if "(e, p) \<in> ?E\<^sup>*" for p
  proof -
    have "p \<in> dom (rv_resolved st)" using that dom by simp
    then show ?thesis using e(2) by (auto simp: resolver_ok_def)
  qed
  ultimately show "\<exists>e. fs_canonicalize fs entry = Inr e \<and> all_well fs (search_paths_of e include_paths) e"
    using e(1) by (auto simp: all_well_def)
next
  fix e
  assume e: "fs_canonicalize fs entry = Inr e \<and> all_well fs (search_paths_of e include_paths) e"
  let ?sp = "search_paths_of e include_paths"
  have "fs_canonicalize fs e = Inr e" using e assms(1) unfolding file_system_ok_def by blast
  then obtain st where st: "visit fuel fs ?sp e resolver_start = Inr st"
    using visit_succeeds [OF _ resolver_start_ok, of fs e e ?sp fuel] e assms by (auto simp: file_system_ok_def)
  then have "resolver_ok fs ?sp st"
    using visit_ok [of fs ?sp fuel] resolver_start_ok unfolding visitor_ok_def extends_def by blast
  then show "\<exists>ms. resolve fuel fs entry include_paths = Inr ms" using st e resolver_ok_modules by (auto simp: resolve_def)
qed

text \<open>The modules of a final state of the walk, and where their imports lead.\<close>

definition listed :: "file_system \<Rightarrow> resolver \<Rightarrow> resolved_module list" where
  "listed fs st = map (the \<circ> load fs) (rv_order st)"

lemma listed_nth:
  assumes "resolver_ok fs sp st" "i < length (listed fs st)"
  shows "load fs (rv_order st ! i) = Some (listed fs st ! i) \<and> rm_path (listed fs st ! i) = rv_order st ! i
    \<and> loads_well fs sp (rv_order st ! i)"
proof -
  have "rv_order st ! i \<in> dom (rv_resolved st)"
    using assms by (metis listed_def length_map nth_mem resolver_ok_def)
  then show ?thesis using assms load_path by (fastforce simp: resolver_ok_def listed_def)
qed

lemma listed_paths: "resolver_ok fs sp st \<Longrightarrow> map rm_path (listed fs st) = rv_order st"
  using listed_nth by (intro nth_equalityI) (auto simp: listed_def)

lemma listed_imports:
  assumes ok: "resolver_ok fs sp st" and i: "i < length (listed fs st)"
    and imp: "imp \<in> set (mo_imports (rm_ast (listed fs st ! i)))"
  shows "\<exists>j < i. import_target fs sp imp = Some (rm_path (listed fs st ! j))
    \<and> (\<forall>item. im_name imp = Some item \<longrightarrow> item \<in> set (get_exportable_names (rm_ast (listed fs st ! j))))"
proof -
  note nth = listed_nth [OF ok]
  have "import_ok fs sp imp" using nth [OF i] imp by (auto simp: loads_well_def)
  then obtain q m where q: "import_target fs sp imp = Some q" "load fs q = Some m"
    "\<forall>item. im_name imp = Some item \<longrightarrow> item \<in> set (get_exportable_names (rm_ast m))"
    unfolding import_ok_def by blast
  have len: "i < length (rv_order st)" using i by (simp add: listed_def)
  have "(rv_order st ! i, q) \<in> imports_edge fs sp" using nth [OF i] imp q(1) by (auto simp: imports_edge_def)
  then have "q \<in> set (take i (rv_order st))"
    using ok id_take_nth_drop [OF len] unfolding resolver_ok_def deps_first_def by blast
  then obtain j where j: "j < i" "q = rv_order st ! j" using len by (auto simp: in_set_conv_nth)
  then have "m = listed fs st ! j \<and> rm_path (listed fs st ! j) = q" using nth [of j] i q(2) by simp
  then show ?thesis using j(1) q by (intro exI [of _ j]) simp
qed

text \<open>C12. The resolved program: the modules are exactly those reachable from the entry file, each once, with its
  path, source and syntax tree, the entry last; every import of a module leads to a module before it, which
  exports the imported name.\<close>

theorem resolve_dependencies_first:
  assumes "file_system_ok fs" and res: "resolve fuel fs entry include_paths = Inr ms"
  shows "\<exists>e sp. fs_canonicalize fs entry = Inr e \<and> sp = search_paths_of e include_paths
    \<and> ms \<noteq> [] \<and> rm_path (last ms) = e \<and> distinct (map rm_path ms) \<and> set (map rm_path ms) = (imports_edge fs sp)\<^sup>* `` {e}
    \<and> (\<forall>i < length ms. load fs (rm_path (ms ! i)) = Some (ms ! i)
        \<and> (\<forall>imp \<in> set (mo_imports (rm_ast (ms ! i))). \<exists>j < i. import_target fs sp imp = Some (rm_path (ms ! j))
            \<and> (\<forall>item. im_name imp = Some item \<longrightarrow> item \<in> set (get_exportable_names (rm_ast (ms ! j))))))"
proof -
  obtain e e' st where e: "fs_canonicalize fs entry = Inr e" "resolver_ok fs (search_paths_of e include_paths) st"
    "dom (rv_resolved st) \<subseteq> (imports_edge fs (search_paths_of e include_paths))\<^sup>* `` {e'}" "e' \<in> dom (rv_resolved st)"
    "fs_canonicalize fs e = Inr e'" "ms = listed fs st"
    using resolve_result [OF res] unfolding listed_def .
  have "e' = e" using e(1,5) assms(1) by (auto simp: file_system_ok_def)
  let ?E = "imports_edge fs (search_paths_of e include_paths)" and ?ps = "rv_order st"
  have ord: "deps_first ?E ?ps" "distinct ?ps" "set ?ps = dom (rv_resolved st)"
    using e(2) by (simp_all add: resolver_ok_def)
  note closed = deps_first_closed [OF ord(1,2), of e]
  have paths: "map rm_path ms = ?ps" using listed_paths e(2,6) by simp
  have ne: "ms \<noteq> []" using e(4) ord(3) paths by auto
  have "rm_path (last ms) = e"
    using closed(2) e(3,4) ord(3) \<open>e' = e\<close> paths ne by (metis last_map)
  moreover have "set (map rm_path ms) = ?E\<^sup>* `` {e}" using closed(1) e(3,4) ord(3) \<open>e' = e\<close> paths by simp
  ultimately show ?thesis
    using e(1) ne ord(2) paths listed_nth [OF e(2)] listed_imports [OF e(2)] unfolding e(6) by simp
qed

section \<open>An example\<close>

definition two_files :: file_system where
  "two_files =
     \<lparr>fs_canonicalize = (\<lambda>p. if p = ''/m.wspec'' \<or> p = ''/a.wspec'' then Inr p else Inl ''not found''),
      fs_read = (\<lambda>p. if p = ''/m.wspec'' then Inr ''import a.X'' else if p = ''/a.wspec'' then Inr ''const X: u8 = 1''
                     else Inl ''not found''),
      fs_exists = (\<lambda>p. p = ''/m.wspec'' \<or> p = ''/a.wspec'')\<rparr>"

lemma finite_files:
  assumes "\<And>p. fs_canonicalize fs p = (if p = a \<or> p = b then Inr p else Inl e)"
  shows "file_system_ok fs \<and> card (files fs) < 3"
proof -
  have "fs_canonicalize fs a = Inr a" "fs_canonicalize fs b = Inr b" using assms by simp_all
  then have "a \<in> files fs" "b \<in> files fs" unfolding files_def by blast+
  moreover have "files fs \<subseteq> {a, b}" using assms by (auto simp: files_def split: if_splits)
  ultimately have "files fs = {a, b}" by blast
  moreover have "fs_canonicalize fs q = Inr q" if "fs_canonicalize fs p = Inr q" for p q
    using that assms by (simp split: if_splits)
  ultimately show ?thesis by (simp add: file_system_ok_def card_insert_if)
qed

lemma two_files_ok: "file_system_ok two_files \<and> card (files two_files) < 3"
  by (rule finite_files) (simp add: two_files_def)

lemma two_files_resolve:
  "case resolve 3 two_files ''/m.wspec'' [] of
     Inr ms \<Rightarrow> map rm_path ms = [''/a.wspec'', ''/m.wspec''] | Inl e \<Rightarrow> False"
  by code_simp

theorem resolve_terminates_witness:
  "(\<exists>ms. resolve 3 two_files ''/m.wspec'' [] = Inr ms) \<or> (\<exists>e. resolve 3 two_files ''/m.wspec'' [] = Inl (RErr e))"
  using resolve_terminates two_files_ok by blast

lemma two_files_paths:
  "fs_canonicalize two_files ''/m.wspec'' = Inr ''/m.wspec'' \<and> search_paths_of ''/m.wspec'' [] = [''/'']"
  by code_simp

theorem resolve_succeeds_iff_witness: "all_well two_files [''/''] ''/m.wspec''"
proof -
  obtain ms where "resolve 3 two_files ''/m.wspec'' [] = Inr ms" using two_files_resolve by (auto split: sum.splits)
  then obtain e where "fs_canonicalize two_files ''/m.wspec'' = Inr e" "all_well two_files (search_paths_of e []) e"
    using resolve_succeeds_iff [of two_files 3 "''/m.wspec''" "[]"] two_files_ok by blast
  then show ?thesis using two_files_paths by (metis sum.inject(2))
qed

theorem resolve_dependencies_first_witness:
  "\<exists>ms. resolve 3 two_files ''/m.wspec'' [] = Inr ms \<and> map rm_path ms = [''/a.wspec'', ''/m.wspec'']
    \<and> set (map rm_path ms) = (imports_edge two_files [''/''])\<^sup>* `` {''/m.wspec''}"
proof -
  obtain ms where ms: "resolve 3 two_files ''/m.wspec'' [] = Inr ms" "map rm_path ms = [''/a.wspec'', ''/m.wspec'']"
    using two_files_resolve by (auto split: sum.splits)
  have "set (map rm_path ms) = (imports_edge two_files [''/''])\<^sup>* `` {''/m.wspec''}"
    using resolve_dependencies_first [OF _ ms(1)] two_files_ok two_files_paths by (metis sum.inject(2))
  then show ?thesis using ms by (intro exI [of _ ms] conjI)
qed

end
