(* ===== verification/Driver.thy ===== *)
theory Driver
  imports Resolve Analyzer
begin

text \<open>
  The driver, \<open>crates/wirespec-driver\<close>: \<open>pipeline.rs\<close> takes one module from its source to the codec IR,
  with the types of the modules compiled before it, and \<open>driver.rs\<close> runs the resolver and then the pipeline
  over the modules in dependency order. The table of external types is a hash table; it is kept here as
  an association list in the order of registration. Error texts are kept as data.
\<close>

section \<open>Types from other modules (pipeline.rs)\<close>

record asn1_module_info =
  am_module_name :: string
  am_source :: string

type_synonym asn1_module_map = "string \<rightharpoonup> asn1_module_info"

datatype external_type_kind = EkVarInt | EkPacket | EkFrame | EkCapsule | EkEnum | EkFlags | EkStateMachine

record external_type =
  et_module :: string
  et_name :: string
  et_source_prefix :: string
  et_kind :: external_type_kind

type_synonym external_types = "(string \<times> external_type) list"

definition ext_register :: "string \<Rightarrow> external_type \<Rightarrow> external_types \<Rightarrow> external_types" where
  "ext_register name ext types = AList.update name ext types"

definition ext_get :: "external_types \<Rightarrow> string \<Rightarrow> external_type option" where
  "ext_get types name = map_of types name"

fun decl_kind_of :: "external_type_kind \<Rightarrow> decl_kind" where
  "decl_kind_of EkVarInt = KVarInt"
| "decl_kind_of EkPacket = KPacket"
| "decl_kind_of EkFrame = KFrame"
| "decl_kind_of EkCapsule = KCapsule"
| "decl_kind_of EkEnum = KEnum"
| "decl_kind_of EkFlags = KFlags"
| "decl_kind_of EkStateMachine = KStateMachine"

fun imported_kind_of :: "external_type_kind \<Rightarrow> imported_decl_kind" where
  "imported_kind_of EkVarInt = DkVarInt"
| "imported_kind_of EkPacket = DkPacket"
| "imported_kind_of EkFrame = DkFrame"
| "imported_kind_of EkCapsule = DkCapsule"
| "imported_kind_of EkEnum = DkEnum"
| "imported_kind_of EkFlags = DkFlags"
| "imported_kind_of EkStateMachine = DkPacket"

datatype pipeline_error =
    PeParse parse_error
  | PeSemantic sema_error
  | PeLayout layout_error
  | PeCodec string

datatype pipeline_failure = PipeErr pipeline_error | PipePanic

section \<open>One module\<close>

fun inject_asn1 :: "asn1_module_map \<Rightarrow> ast_top_item \<Rightarrow> ast_top_item" where
  "inject_asn1 asn1 (IExternAsn1 e) =
     (case (ex_rust_module e, asn1 (ex_path e)) of
        (None, Some info) \<Rightarrow> IExternAsn1 (e\<lparr>ex_rust_module := Some (''crate::'' @ am_module_name info)\<rparr>)
      | _ \<Rightarrow> IExternAsn1 e)"
| "inject_asn1 asn1 it = it"

definition imported_ref :: "external_types \<Rightarrow> ast_import \<Rightarrow> imported_type_ref option" where
  "imported_ref types imp =
     (case im_name imp of
        None \<Rightarrow> None
      | Some item \<Rightarrow>
          map_option (\<lambda>ext. \<lparr>ir_import_id = ''import:'' @ item, ir_name = item, ir_source_module = et_module ext,
              ir_source_prefix = et_source_prefix ext, ir_decl_kind = imported_kind_of (et_kind ext)\<rparr>)
            (ext_get types item))"

definition parse_stage :: "string \<Rightarrow> pipeline_failure + ast_module" where
  "parse_stage source =
     (case parse source of
        Inr ast \<Rightarrow> Inr ast
      | Inl (PErr e) \<Rightarrow> Inl (PipeErr (PeParse e))
      | Inl _ \<Rightarrow> Inl PipePanic)"

definition sema_stage :: "hash_order \<Rightarrow> ast_module \<Rightarrow> compliance_profile \<Rightarrow> (string \<times> decl_kind) list
    \<Rightarrow> pipeline_failure + semantic_module" where
  "sema_stage ho ast profile ext =
     (case analyze ho ast profile ext of
        None \<Rightarrow> Inl PipePanic
      | Some r \<Rightarrow> rmap_err (\<lambda>e. PipeErr (PeSemantic e)) r)"

definition codec_stage :: "layout_module \<Rightarrow> pipeline_failure + codec_module" where
  "codec_stage layout =
     rmap_err (\<lambda>e. case e of CodecError msg \<Rightarrow> PipeErr (PeCodec msg) | CodecPanic \<Rightarrow> PipePanic) (lower_codec layout)"

definition compile_module :: "hash_order \<Rightarrow> string \<Rightarrow> compliance_profile \<Rightarrow> external_types \<Rightarrow> asn1_module_map
    \<Rightarrow> pipeline_failure + codec_module" where
  "compile_module ho source profile types asn1 =
     rbind (parse_stage source) (\<lambda>ast.
     rbind (sema_stage ho (ast\<lparr>mo_items := map (inject_asn1 asn1) (mo_items ast)\<rparr>) profile
         (map (\<lambda>(name, et). (name, decl_kind_of (et_kind et))) types)) (\<lambda>sem.
     rbind (rmap_err (\<lambda>e. PipeErr (PeLayout e))
         (lower_layout (sem\<lparr>sem_imports := sem_imports sem @ List.map_filter (imported_ref types) (mo_imports ast)\<rparr>)))
       codec_stage))"

text \<open>What a compiled module makes known to the later ones, in the order it is registered.\<close>

definition exported_types :: "codec_module \<Rightarrow> (string \<times> external_type_kind) list" where
  "exported_types codec =
     map (\<lambda>v. (vi_name v, EkVarInt)) (cm_varints codec) @
     map (\<lambda>p. (cpk_name p, EkPacket)) (cm_packets codec) @
     map (\<lambda>f. (cfr_name f, EkFrame)) (cm_frames codec) @
     map (\<lambda>c. (cca_name c, EkCapsule)) (cm_capsules codec) @
     map (\<lambda>e. (se_name e, if se_is_flags e then EkFlags else EkEnum)) (cm_enums codec) @
     map (\<lambda>s. (ssm_name s, EkStateMachine)) (cm_state_machines codec)"

definition collect_external_types :: "external_types \<Rightarrow> codec_module \<Rightarrow> string \<Rightarrow> string \<Rightarrow> external_types" where
  "collect_external_types registry codec module_name source_prefix =
     fold (\<lambda>(name, kind). ext_register name
         \<lparr>et_module = module_name, et_name = name, et_source_prefix = source_prefix, et_kind = kind\<rparr>)
       (exported_types codec) registry"

section \<open>All modules (driver.rs)\<close>

record compile_request =
  cq_entry :: path
  cq_include_paths :: "path list"
  cq_profile :: compliance_profile
  cq_asn1_modules :: asn1_module_map

record compiled_module =
  cd_module_name :: string
  cd_source_prefix :: string
  cd_codec :: codec_module

datatype driver_error = DeResolve resolve_error | DePipeline pipeline_error

datatype driver_failure = DrErr driver_error | DrPanic | DrFuel

fun driver_of_resolve :: "resolve_failure \<Rightarrow> driver_failure" where
  "driver_of_resolve (RErr e) = DrErr (DeResolve e)"
| "driver_of_resolve RPanic = DrPanic"
| "driver_of_resolve RFuel = DrFuel"

fun driver_of_pipeline :: "pipeline_failure \<Rightarrow> driver_failure" where
  "driver_of_pipeline (PipeErr e) = DrErr (DePipeline e)"
| "driver_of_pipeline PipePanic = DrPanic"

fun compile_modules :: "hash_order \<Rightarrow> compile_request \<Rightarrow> resolved_module list \<Rightarrow> external_types
    \<Rightarrow> compiled_module list \<Rightarrow> driver_failure + compiled_module list" where
  "compile_modules ho req [] types compiled = Inr compiled"
| "compile_modules ho req (m # ms) types compiled =
     rbind (rmap_err driver_of_pipeline
         (compile_module ho (rm_source m) (cq_profile req) types (cq_asn1_modules req))) (\<lambda>codec.
     compile_modules ho req ms (collect_external_types types codec (rm_module_name m) (rm_source_prefix m))
       (compiled @ [\<lparr>cd_module_name = rm_module_name m, cd_source_prefix = rm_source_prefix m, cd_codec = codec\<rparr>]))"

definition compile :: "nat \<Rightarrow> file_system \<Rightarrow> hash_order \<Rightarrow> compile_request \<Rightarrow> driver_failure + compiled_module list" where
  "compile fuel fs ho req =
     rbind (rmap_err driver_of_resolve (resolve fuel fs (cq_entry req) (cq_include_paths req))) (\<lambda>resolved.
     compile_modules ho req resolved [] [])"

section \<open>The types a module declares\<close>

text \<open>The exported types, seen in the semantic module and in the source.\<close>

definition semantic_types :: "semantic_module \<Rightarrow> string list" where
  "semantic_types m =
     map vi_name (sem_varints m) @ map sp_name (sem_packets m) @ map sfr_name (sem_frames m) @
     map sca_name (sem_capsules m) @ map se_name (sem_enums m) @ map ssm_name (sem_state_machines m)"

definition declares_type :: "ast_top_item \<Rightarrow> bool" where
  "declares_type it \<longleftrightarrow> item_kind it \<noteq> None \<and> item_kind it \<noteq> Some KConstDecl"

definition type_names :: "ast_top_item list \<Rightarrow> string list" where
  "type_names items = item_names (filter declares_type items)"

lemma type_names_subset: "set (type_names items) \<subseteq> set (item_names items)"
  by (auto simp: type_names_def item_names_def List.map_filter_def)

lemma distinct_type_names: "distinct (item_names items) \<Longrightarrow> distinct (type_names items)"
  using type_names_subset unfolding type_names_def by (induction items) (auto split: option.splits)

lemma lowered_names:
  "lower_enum_decl a e fl = Inr se \<Longrightarrow> se_name se = en_name e"
  "lower_flags_decl a f = Inr se \<Longrightarrow> se_name se = fl_name f"
  "lower_varint_prefix_match a n flds anns sp = Inr v \<Longrightarrow> vi_name v = n"
  "lower_sema_packet a p = Inr pk \<Longrightarrow> sp_name pk = pk_name p"
  "lower_sema_frame a fr = Inr sfr \<Longrightarrow> sfr_name sfr = fr_name fr"
  "lower_sema_capsule a ca = Inr sca \<Longrightarrow> sca_name sca = ca_name ca"
  "lower_state_machine ho a sm = Inr (m, a') \<Longrightarrow> ssm_name m = sm_name sm"
  by (auto simp: lower_enum_decl_def lower_flags_decl_def lower_varint_prefix_match_def Let_def
      lower_sema_packet_def lower_sema_frame_def lower_sema_capsule_def lower_state_machine_def rbind_eq_Inr_iff
      split: if_splits ast_type_expr.splits)

lemma lower_module_item_types:
  assumes "lower_module_item ho (a, m) it = Inr (a', m')"
  shows "mset (semantic_types m') = mset (semantic_types m) + mset (type_names [it])"
  using assms
  by (cases it)
    (auto simp: rbind_eq_Inr_iff lowered_names semantic_types_def type_names_def declares_type_def Let_def
      lower_continuation_varint_def split: ast_type_decl_body.splits)

lemma lower_module_items_types:
  "lower_module_items ho (a, m) items = Inr (a', m') \<Longrightarrow>
    mset (semantic_types m') = mset (semantic_types m) + mset (type_names items)"
proof (induction items arbitrary: a m)
  case (Cons it items)
  then obtain a1 m1 where s: "lower_module_item ho (a, m) it = Inr (a1, m1)"
    "lower_module_items ho (a1, m1) items = Inr (a', m')" by (auto simp: rbind_eq_Inr_iff)
  have "mset (type_names (it # items)) = mset (type_names [it]) + mset (type_names items)"
    by (auto simp: type_names_def split: option.splits)
  then show ?case using lower_module_item_types [OF s(1)] Cons.IH [OF s(2)] by simp
qed (simp add: type_names_def)

lemma analyzed_types:
  assumes "analyze ho ast profile ext = Some (Inr m)"
  shows "mset (semantic_types m) = mset (type_names (mo_items ast)) \<and> distinct (item_names (mo_items ast))
    \<and> (\<forall>n \<in> set (item_names (mo_items ast)). n \<notin> fst ` set ext) \<and> sem_imports m = []"
  using assms
proof (rule analyze_Inr)
  fix a0 a1 a m0
  assume a0: "a0 = (analyzer_new profile)\<lparr>an_external_types := ext,
       an_registry := register_externals ext (registry_new (parse_endianness ast))\<rparr>"
    and r: "register_all a0 (mo_items ast) = Inr a1"
    and l: "lower_module_items ho (a1, module_start a1 (module_name_of ast) (parse_endianness ast)) (mo_items ast) = Inr (a, m0)"
    and m: "m = m0\<lparr>sem_asn1_externs := an_asn1_externs a, sem_warnings := an_warnings a\<rparr>"
  have taken: "name_taken (register_externals ext r) n" if "n \<in> fst ` set ext \<or> name_taken r n" for n r
    using that
  proof (induction ext arbitrary: r)
    case (Cons x ext)
    have "name_taken (register_external (fst x) (snd x) r) n" if "n = fst x \<or> name_taken r n"
      using that by (auto simp: name_taken_def register_external_def update_conv)
    then show ?case using Cons by (cases x) (auto simp: register_externals_def)
  qed (simp add: register_externals_def)
  have "distinct (item_names (mo_items ast)) \<and> (\<forall>n \<in> set (item_names (mo_items ast)). \<not> refused a0 n)"
    using register_all_succeeds [of a0 "mo_items ast"] r by auto
  then have "distinct (item_names (mo_items ast)) \<and> (\<forall>n \<in> set (item_names (mo_items ast)). n \<notin> fst ` set ext)"
    using taken by (auto simp: refused_def an_taken_def a0)
  moreover have "sem_imports m0 = []"
  proof -
    have "lower_module_item ho (a, m) it = Inr (a', m') \<Longrightarrow> sem_imports m' = sem_imports m" for a m it a' m'
      by (cases it) (auto simp: rbind_eq_Inr_iff Let_def split: ast_type_decl_body.splits)
    then have "lower_module_items ho (a, m) items = Inr (a', m') \<Longrightarrow> sem_imports m' = sem_imports m" for a m items a' m'
      by (induction items arbitrary: a m) (fastforce simp: rbind_eq_Inr_iff)+
    from this [OF l] show ?thesis by (simp add: module_start_def)
  qed
  ultimately show ?thesis
    using lower_module_items_types [OF l] m by (simp add: semantic_types_def module_start_def)
qed

lemma lowered_layout_types:
  assumes "lower_layout sem = Inr lm" "lower_codec lm = Inr cm"
  shows "map fst (exported_types cm) = semantic_types sem \<and> cm_imports cm = sem_imports sem"
proof -
  have "lower_packet p e = Inr lp \<Longrightarrow> lp_name lp = sp_name p" for p e lp
    by (auto simp: lower_packet_def rbind_eq_Inr_iff split: prod.splits)
  moreover have "lower_frame f e = Inr lf \<Longrightarrow> lfr_name lf = sfr_name f" for f e lf
    by (auto simp: lower_frame_def Let_def rbind_eq_Inr_iff)
  moreover have "lower_capsule c e = Inr lc \<Longrightarrow> lca_name lc = sca_name c" for c e lc
    by (auto simp: lower_capsule_def Let_def rbind_eq_Inr_iff split: prod.splits)
  ultimately have "map lp_name (lm_packets lm) = map sp_name (sem_packets sem)"
    "map lfr_name (lm_frames lm) = map sfr_name (sem_frames sem)"
    "map lca_name (lm_capsules lm) = map sca_name (sem_capsules sem)"
    "lm_varints lm = sem_varints sem" "lm_enums lm = sem_enums sem" "lm_state_machines lm = sem_state_machines sem"
    "lm_imports lm = sem_imports sem"
    using assms(1) unfolding lower_layout_Inr by (auto intro: try_map_map)
  moreover have "lower_codec_packet ctx p = Inr cp \<Longrightarrow> cpk_name cp = lp_name p" for ctx p cp
    by (auto simp: lower_codec_packet_def Let_def rbind_eq_Inr_iff)
  moreover have "lower_codec_frame ctx f = Inr cf \<Longrightarrow> cfr_name cf = lfr_name f" for ctx f cf
    by (auto simp: lower_codec_frame_def Let_def rbind_eq_Inr_iff)
  moreover have "lower_codec_capsule ctx c = Inr cc \<Longrightarrow> cca_name cc = lca_name c" for ctx c cc
    by (auto simp: lower_codec_capsule_def Let_def rbind_eq_Inr_iff)
  ultimately have "map cpk_name (cm_packets cm) = map sp_name (sem_packets sem)"
    "map cfr_name (cm_frames cm) = map sfr_name (sem_frames sem)"
    "map cca_name (cm_capsules cm) = map sca_name (sem_capsules sem)"
    using assms(2) unfolding lower_codec_def Let_def rbind_eq_Inr_iff
    by (auto intro: try_map_map [where g = lp_name and h = cpk_name, THEN trans]
        try_map_map [where g = lfr_name and h = cfr_name, THEN trans] try_map_map [where g = lca_name and h = cca_name, THEN trans])
  moreover have "cm_varints cm = lm_varints lm" "cm_enums cm = lm_enums lm" "cm_state_machines cm = lm_state_machines lm"
    "cm_imports cm = lm_imports lm"
    using assms(2) unfolding lower_codec_def Let_def rbind_eq_Inr_iff by auto
  moreover have "lm_varints lm = sem_varints sem" "lm_enums lm = sem_enums sem" "lm_state_machines lm = sem_state_machines sem"
    "lm_imports lm = sem_imports sem"
    using assms(1) unfolding lower_layout_Inr by auto
  ultimately show ?thesis by (simp add: exported_types_def semantic_types_def o_def)
qed

lemma inject_asn1_item [simp]: "item_name (inject_asn1 asn1 it) = item_name it" "item_kind (inject_asn1 asn1 it) = item_kind it"
  by (cases "(asn1, it)" rule: inject_asn1.cases; simp split: option.split)+

lemma inject_asn1_names [simp]:
  "item_names (map (inject_asn1 asn1) items) = item_names items"
  "type_names (map (inject_asn1 asn1) items) = type_names items"
proof -
  show "item_names (map (inject_asn1 asn1) items) = item_names items" for items
    by (induction items) (auto split: option.split)
  moreover have "declares_type \<circ> inject_asn1 asn1 = declares_type" by (simp add: fun_eq_iff declares_type_def)
  ultimately show "type_names (map (inject_asn1 asn1) items) = type_names items"
    by (simp add: type_names_def filter_map)
qed

text \<open>What a compiled module has to do with the table of types it was compiled with.\<close>

lemma compiled_module:
  assumes "compile_module ho source profile types asn1 = Inr codec"
  shows "distinct (map fst (exported_types codec)) \<and> set (map fst (exported_types codec)) \<inter> fst ` set types = {}
    \<and> (\<exists>imps. cm_imports codec = List.map_filter (imported_ref types) imps)"
proof -
  obtain ast sem lm where s: "parse_stage source = Inr ast"
    "sema_stage ho (ast\<lparr>mo_items := map (inject_asn1 asn1) (mo_items ast)\<rparr>) profile
         (map (\<lambda>(name, et). (name, decl_kind_of (et_kind et))) types) = Inr sem"
    "lower_layout (sem\<lparr>sem_imports := sem_imports sem @ List.map_filter (imported_ref types) (mo_imports ast)\<rparr>) = Inr lm"
    "lower_codec lm = Inr codec"
    using assms by (auto simp: compile_module_def codec_stage_def rbind_eq_Inr_iff rmap_err_eq_Inr_iff)
  have "analyze ho (ast\<lparr>mo_items := map (inject_asn1 asn1) (mo_items ast)\<rparr>) profile
      (map (\<lambda>(name, et). (name, decl_kind_of (et_kind et))) types) = Some (Inr sem)"
    using s(2) by (auto simp: sema_stage_def rmap_err_eq_Inr_iff split: option.splits)
  note a = analyzed_types [OF this] and l = lowered_layout_types [OF s(3,4)]
  have names: "mset (map fst (exported_types codec)) = mset (type_names (mo_items ast))"
    using a l by (simp add: semantic_types_def)
  then have "set (map fst (exported_types codec)) \<subseteq> set (item_names (mo_items ast))"
    using type_names_subset by (metis set_mset_mset)
  moreover have "distinct (map fst (exported_types codec))"
    using mset_eq_imp_distinct_iff [OF names] a distinct_type_names by simp
  moreover have "fst ` (set (map (\<lambda>(name, et). (name, decl_kind_of (et_kind et))) types)) = fst ` set types" by force
  moreover have "cm_imports codec = List.map_filter (imported_ref types) (mo_imports ast)" using a l by simp
  ultimately show ?thesis using a by auto
qed

section \<open>The compiled program\<close>

definition program_types :: "compiled_module list \<Rightarrow> string list" where
  "program_types cs = concat (map (\<lambda>c. map fst (exported_types (cd_codec c))) cs)"

definition declared_by :: "compiled_module \<Rightarrow> string \<Rightarrow> string \<Rightarrow> string \<Rightarrow> external_type_kind \<Rightarrow> bool" where
  "declared_by c module_name source_prefix name kind \<longleftrightarrow>
     module_name = cd_module_name c \<and> source_prefix = cd_source_prefix c \<and> (name, kind) \<in> set (exported_types (cd_codec c))"

definition ref_sound :: "compiled_module list \<Rightarrow> imported_type_ref \<Rightarrow> bool" where
  "ref_sound cs r \<longleftrightarrow> (\<exists>c \<in> set cs. \<exists>kind.
     declared_by c (ir_source_module r) (ir_source_prefix r) (ir_name r) kind \<and> ir_decl_kind r = imported_kind_of kind)"

text \<open>The table of external types while the modules are compiled.\<close>

definition table_ok :: "compiled_module list \<Rightarrow> external_types \<Rightarrow> bool" where
  "table_ok cs types \<longleftrightarrow> fst ` set types = set (program_types cs)
   \<and> (\<forall>n et. ext_get types n = Some et \<longrightarrow>
        (\<exists>c \<in> set cs. declared_by c (et_module et) (et_source_prefix et) n (et_kind et)))"

lemma table_ok_ref: "table_ok cs types \<Longrightarrow> imported_ref types imp = Some r \<Longrightarrow> ref_sound cs r"
  by (fastforce simp: table_ok_def ref_sound_def imported_ref_def split: option.splits)

lemma register_keys: "fst ` set (ext_register n et types) = insert n (fst ` set types)"
  by (simp add: ext_register_def dom_update)

lemma register_get: "ext_get (ext_register n et types) k = (if k = n then Some et else ext_get types k)"
  by (simp add: ext_register_def ext_get_def update_conv)

lemma collect_table:
  fixes codec :: codec_module
  assumes "table_ok cs types"
  shows "table_ok (cs @ [\<lparr>cd_module_name = m, cd_source_prefix = p, cd_codec = codec\<rparr>]) (collect_external_types types codec m p)"
proof -
  let ?c = "\<lparr>cd_module_name = m, cd_source_prefix = p, cd_codec = codec\<rparr>"
  let ?add = "\<lambda>(n, k). ext_register n \<lparr>et_module = m, et_name = n, et_source_prefix = p, et_kind = k\<rparr>"
  have keys: "fst ` set (fold ?add es ts) = fst ` set ts \<union> fst ` set es" for es ts
    by (induction es arbitrary: ts) (simp_all add: register_keys split: prod.split)
  have new: "ext_get (fold ?add es ts) n = Some et \<Longrightarrow>
      ext_get ts n = Some et \<or> et_module et = m \<and> et_source_prefix et = p \<and> (n, et_kind et) \<in> set es" for es ts n et
  proof (induction es arbitrary: ts)
    case (Cons e es)
    obtain k l where e: "e = (k, l)" by (cases e)
    have "ext_get (fold ?add es (?add (k, l) ts)) n = Some et" using Cons.prems e by simp
    from Cons.IH [OF this] show ?case using e by (simp add: register_get split: if_splits) auto
  qed simp
  show ?thesis
    unfolding table_ok_def collect_external_types_def
  proof (intro conjI allI impI)
    show "fst ` set (fold ?add (exported_types codec) types) = set (program_types (cs @ [?c]))"
      using assms by (auto simp: keys table_ok_def program_types_def)
  next
    fix n et
    assume "ext_get (fold ?add (exported_types codec) types) n = Some et"
    from new [OF this] have "declared_by ?c (et_module et) (et_source_prefix et) n (et_kind et) \<or>
        (\<exists>c \<in> set cs. declared_by c (et_module et) (et_source_prefix et) n (et_kind et))"
      using assms by (simp add: table_ok_def declared_by_def) blast
    then show "\<exists>c \<in> set (cs @ [?c]). declared_by c (et_module et) (et_source_prefix et) n (et_kind et)" by auto
  qed
qed

lemma compile_modules_ok:
  assumes "compile_modules ho req ms types cs = Inr cs'" "table_ok cs types" "distinct (program_types cs)"
    "\<forall>k < length cs. \<forall>r \<in> set (cm_imports (cd_codec (cs ! k))). ref_sound (take k cs) r"
  shows "distinct (program_types cs') \<and> length cs' = length cs + length ms
    \<and> (\<forall>k < length cs'. \<forall>r \<in> set (cm_imports (cd_codec (cs' ! k))). ref_sound (take k cs') r)
    \<and> map cd_module_name cs' = map cd_module_name cs @ map rm_module_name ms"
  using assms
proof (induction ms arbitrary: types cs)
  case (Cons m ms)
  then obtain codec where codec: "compile_module ho (rm_source m) (cq_profile req) types (cq_asn1_modules req) = Inr codec"
    "compile_modules ho req ms (collect_external_types types codec (rm_module_name m) (rm_source_prefix m))
       (cs @ [\<lparr>cd_module_name = rm_module_name m, cd_source_prefix = rm_source_prefix m, cd_codec = codec\<rparr>]) = Inr cs'"
    by (auto simp: rbind_eq_Inr_iff rmap_err_eq_Inr_iff)
  let ?c = "\<lparr>cd_module_name = rm_module_name m, cd_source_prefix = rm_source_prefix m, cd_codec = codec\<rparr>"
  note c = compiled_module [OF codec(1)]
  have "set (map fst (exported_types codec)) \<inter> set (program_types cs) = {}"
    using c Cons.prems(2) by (simp add: table_ok_def)
  then have "distinct (program_types (cs @ [?c]))"
    using c Cons.prems(3) unfolding program_types_def by (simp del: set_map add: inf_commute)
  moreover have "\<forall>k < length (cs @ [?c]). \<forall>r \<in> set (cm_imports (cd_codec ((cs @ [?c]) ! k))). ref_sound (take k (cs @ [?c])) r"
  proof (intro allI impI ballI)
    fix k r
    assume k: "k < length (cs @ [?c])" and r: "r \<in> set (cm_imports (cd_codec ((cs @ [?c]) ! k)))"
    show "ref_sound (take k (cs @ [?c])) r"
    proof (cases "k = length cs")
      case True
      then obtain imp where "imported_ref types imp = Some r" using c r by (auto simp: List.map_filter_def)
      then show ?thesis using table_ok_ref [OF Cons.prems(2)] True by simp
    next
      case False
      then show ?thesis using Cons.prems(4) k r by (simp add: nth_append)
    qed
  qed
  ultimately show ?case using Cons.IH [OF codec(2) collect_table [OF Cons.prems(2)]] by simp
qed simp

text \<open>C15. A compiled program has one name space of types: no two modules declare a type of the same name, and every
  imported type of a module refers, by module name, source prefix and kind, to an earlier module of the
  program that declares it. There is one compiled module for each resolved one, in dependency order.\<close>

theorem compile_types_apart:
  assumes "compile fuel fs ho req = Inr cs"
  shows "distinct (program_types cs)
    \<and> (\<forall>k < length cs. \<forall>r \<in> set (cm_imports (cd_codec (cs ! k))). ref_sound (take k cs) r)
    \<and> (\<exists>ms. resolve fuel fs (cq_entry req) (cq_include_paths req) = Inr ms \<and> map cd_module_name cs = map rm_module_name ms)"
proof -
  obtain ms where "resolve fuel fs (cq_entry req) (cq_include_paths req) = Inr ms" "compile_modules ho req ms [] [] = Inr cs"
    using assms by (auto simp: compile_def rbind_eq_Inr_iff rmap_err_eq_Inr_iff)
  moreover have "table_ok [] []" by (simp add: table_ok_def program_types_def ext_get_def)
  ultimately show ?thesis using compile_modules_ok [of ho req ms "[]" "[]" cs] by (simp add: program_types_def)
qed

section \<open>An example\<close>

definition typed_files :: file_system where
  "typed_files =
     \<lparr>fs_canonicalize = (\<lambda>p. if p = ''/m.wspec'' \<or> p = ''/a.wspec'' then Inr p else Inl ''not found''),
      fs_read = (\<lambda>p. if p = ''/m.wspec'' then Inr ''import a.P packet Q { p: P }''
                     else if p = ''/a.wspec'' then Inr ''packet P { x: u8 }'' else Inl ''not found''),
      fs_exists = (\<lambda>p. p = ''/m.wspec'' \<or> p = ''/a.wspec'')\<rparr>"

definition typed_request :: compile_request where
  "typed_request = \<lparr>cq_entry = ''/m.wspec'', cq_include_paths = [], cq_profile = Phase2StrictV1_0, cq_asn1_modules = Map.empty\<rparr>"

lemma typed_files_compile:
  "case compile 3 typed_files insertion_order typed_request of
     Inr cs \<Rightarrow> map cd_module_name cs = [''a'', ''m''] \<and> program_types cs = [''P'', ''Q'']
       \<and> map ir_source_module (cm_imports (cd_codec (cs ! 1))) = [''a'']
   | Inl e \<Rightarrow> False"
  by code_simp

theorem compile_types_apart_witness:
  "\<exists>cs. compile 3 typed_files insertion_order typed_request = Inr cs \<and> map cd_module_name cs = [''a'', ''m'']
    \<and> distinct (program_types cs) \<and> (\<forall>k < length cs. \<forall>r \<in> set (cm_imports (cd_codec (cs ! k))). ref_sound (take k cs) r)"
proof -
  obtain cs where cs: "compile 3 typed_files insertion_order typed_request = Inr cs" "map cd_module_name cs = [''a'', ''m'']"
    using typed_files_compile by (auto split: sum.splits)
  show ?thesis using compile_types_apart [OF cs(1)] cs by (intro exI [of _ cs] conjI) blast+
qed

text \<open>The table of external types is keyed by the name alone: an import of a constant is recorded as an import of the
  type of that name, of another module.\<close>

definition shadowed_files :: file_system where
  "shadowed_files =
     \<lparr>fs_canonicalize = (\<lambda>p. if p \<in> {''/m.wspec'', ''/a.wspec'', ''/b.wspec''} then Inr p else Inl ''not found''),
      fs_read = (\<lambda>p. if p = ''/m.wspec'' then Inr ''import b.X import a.Y packet Q { y: Y }''
                     else if p = ''/a.wspec'' then Inr ''packet X { x: u8 } packet Y { y: u8 }''
                     else if p = ''/b.wspec'' then Inr ''const X: u8 = 1'' else Inl ''not found''),
      fs_exists = (\<lambda>p. p \<in> {''/m.wspec'', ''/a.wspec'', ''/b.wspec''})\<rparr>"

lemma import_of_constant_finds_type:
  "case compile 4 shadowed_files insertion_order typed_request of
     Inr cs \<Rightarrow> map cd_module_name cs = [''b'', ''a'', ''m'']
       \<and> map (\<lambda>r. (ir_source_module r, ir_name r)) (cm_imports (cd_codec (cs ! 2))) = [(''a'', ''X''), (''a'', ''Y'')]
   | Inl e \<Rightarrow> False"
  by code_simp

end
