(* ===== verification/Text.thy ===== *)
theory Text
  imports Prelude
begin

text \<open>
  What the code generators need of Rust's strings: \<open>format!\<close> is concatenation, \<open>push_str\<close> of a
  fallible piece is \<open>ocat\<close>, where \<open>None\<close> stands for a panic of the generator (\<open>unreachable!\<close>). Case
  conversion is the one of ASCII, for names are ASCII identifiers of the lexer.
\<close>

section \<open>Pieces of text\<close>

abbreviation nl :: string where
  "nl \<equiv> [CHR 0x0A]"

abbreviation quo :: string where
  "quo \<equiv> [CHR 0x22]"

abbreviation apo :: string where
  "apo \<equiv> [CHR 0x27]"

fun ocat :: "string option list \<Rightarrow> string option" where
  "ocat [] = Some []"
| "ocat (None # ps) = None"
| "ocat (Some s # ps) = map_option (\<lambda>t. s @ t) (ocat ps)"

definition omap_cat :: "('a \<Rightarrow> string option) \<Rightarrow> 'a list \<Rightarrow> string option" where
  "omap_cat f xs = ocat (map f xs)"

lemma ocat_Cons: "ocat (p # ps) = (case p of None \<Rightarrow> None | Some s \<Rightarrow> map_option (\<lambda>t. s @ t) (ocat ps))"
  by (cases p) auto

lemma ocat_append: "ocat (ps @ qs) = (case ocat ps of None \<Rightarrow> None | Some s \<Rightarrow> map_option (\<lambda>t. s @ t) (ocat qs))"
  by (induction ps; cases "ocat qs") (auto simp: ocat_Cons split: option.splits)

lemma ocat_None: "ocat ps = None \<longleftrightarrow> None \<in> set ps"
  by (induction ps) (auto simp: ocat_Cons split: option.splits)

lemma ocat_Some: "ocat ps = Some s \<longleftrightarrow> (\<exists>ss. ps = map Some ss \<and> s = concat ss)"
proof (induction ps arbitrary: s)
  case (Cons p ps)
  show ?case
  proof (cases p)
    case (Some t)
    then have "ocat (p # ps) = Some s \<longleftrightarrow> (\<exists>ss. ps = map Some ss \<and> s = t @ concat ss)"
      using Cons.IH by auto
    then show ?thesis unfolding Some by (auto simp: Cons_eq_map_conv)
  qed (auto simp: Cons_eq_map_conv)
qed auto

lemma omap_cat_simps [simp]: "omap_cat f [] = Some []"
  "omap_cat f (x # xs) = (case f x of None \<Rightarrow> None | Some s \<Rightarrow> map_option (\<lambda>t. s @ t) (omap_cat f xs))"
  by (simp_all add: omap_cat_def ocat_Cons cong: option.case_cong)

lemma omap_cat_None: "omap_cat f xs = None \<longleftrightarrow> (\<exists>x \<in> set xs. f x = None)"
  by (force simp: omap_cat_def ocat_None)

section \<open>Characters and words\<close>

definition is_upper :: "char \<Rightarrow> bool" where
  "is_upper c \<longleftrightarrow> 65 \<le> (of_char c :: nat) \<and> (of_char c :: nat) \<le> 90"

definition is_lower :: "char \<Rightarrow> bool" where
  "is_lower c \<longleftrightarrow> 97 \<le> (of_char c :: nat) \<and> (of_char c :: nat) \<le> 122"

definition is_num :: "char \<Rightarrow> bool" where
  "is_num c \<longleftrightarrow> 48 \<le> (of_char c :: nat) \<and> (of_char c :: nat) \<le> 57"

definition upper_char :: "char \<Rightarrow> char" where
  "upper_char c = (if is_lower c then char_of ((of_char c :: nat) - 32) else c)"

definition lower_char :: "char \<Rightarrow> char" where
  "lower_char c = (if is_upper c then char_of ((of_char c :: nat) + 32) else c)"

definition to_uppercase :: "string \<Rightarrow> string" where
  "to_uppercase = map upper_char"

definition to_lowercase :: "string \<Rightarrow> string" where
  "to_lowercase = map lower_char"

fun split_char :: "char \<Rightarrow> string \<Rightarrow> string list" where
  "split_char c [] = [[]]"
| "split_char c (x # s) =
     (if x = c then [] # split_char c s
      else case split_char c s of [] \<Rightarrow> [[x]] | w # ws \<Rightarrow> (x # w) # ws)"

fun join_with :: "string \<Rightarrow> string list \<Rightarrow> string" where
  "join_with sep [] = []"
| "join_with sep [s] = s"
| "join_with sep (s # t # r) = s @ sep @ join_with sep (t # r)"

text \<open>\<open>s.replace(c, r)\<close>, the part behind the last \<open>c\<close>, the part before the first \<open>c\<close>.\<close>

definition replace_by :: "char \<Rightarrow> string \<Rightarrow> string \<Rightarrow> string" where
  "replace_by c r s = concat (map (\<lambda>x. if x = c then r else [x]) s)"

definition behind_last :: "char \<Rightarrow> string \<Rightarrow> string" where
  "behind_last c s = rev (takeWhile (\<lambda>x. x \<noteq> c) (rev s))"

definition before_first :: "char \<Rightarrow> string \<Rightarrow> string" where
  "before_first c s = takeWhile (\<lambda>x. x \<noteq> c) s"

section \<open>Numbers\<close>

definition hex_digit :: "nat \<Rightarrow> char" where
  "hex_digit d = char_of (if d < 10 then 48 + d else 87 + d)"

fun show_hex :: "nat \<Rightarrow> string" where
  "show_hex n = (if n < 16 then [hex_digit n] else show_hex (n div 16) @ [hex_digit (n mod 16)])"

declare show_hex.simps [simp del]

text \<open>\<open>{:02x}\<close> of a byte.\<close>

definition show_hex2 :: "nat \<Rightarrow> string" where
  "show_hex2 n = (if n < 16 then ''0'' @ show_hex n else show_hex n)"

abbreviation dec :: "'a::len word \<Rightarrow> string" where
  "dec w \<equiv> show_nat (unat w)"

text \<open>The escapes of a quoted literal: backslash, quote, line feed, carriage return and tab.\<close>

definition escape_literal :: "string \<Rightarrow> string" where
  "escape_literal s =
     replace_by (CHR 0x09) (CHR 0x5C # ''t'')
       (replace_by (CHR 0x0D) (CHR 0x5C # ''r'')
         (replace_by (CHR 0x0A) (CHR 0x5C # ''n'')
           (replace_by (CHR 0x22) [CHR 0x5C, CHR 0x22]
             (replace_by (CHR 0x5C) [CHR 0x5C, CHR 0x5C] s))))"

definition escape_char :: "char \<Rightarrow> string" where
  "escape_char c =
     (if c = CHR 0x5C then [CHR 0x5C, CHR 0x5C] else if c = CHR 0x22 then [CHR 0x5C, CHR 0x22]
      else if c = CHR 0x0A then CHR 0x5C # ''n'' else if c = CHR 0x0D then CHR 0x5C # ''r''
      else if c = CHR 0x09 then CHR 0x5C # ''t'' else [c])"

lemma replace_by_append [simp]: "replace_by c r (s @ t) = replace_by c r s @ replace_by c r t"
  by (simp add: replace_by_def)

lemma replace_by_Cons: "replace_by c r (x # s) = (if x = c then r else [x]) @ replace_by c r s"
  by (simp add: replace_by_def)

lemma escape_literal_chars: "escape_literal s = concat (map escape_char s)"
proof (induction s)
  case (Cons x s)
  have one: "escape_literal [x] = escape_char x"
    by (auto simp: escape_literal_def escape_char_def replace_by_def)
  have "escape_literal ([x] @ s) = escape_literal [x] @ escape_literal s"
    unfolding escape_literal_def replace_by_append ..
  then show ?case using one Cons by simp
qed (simp add: escape_literal_def replace_by_def)

end
