(* ===== verification/RustNames.thy ===== *)
theory RustNames
  imports Codec Text
begin

text \<open>
  Names, types and expressions of generated Rust code, \<open>crates/wirespec-backend-rust/src\<close>: naming
  conventions (\<open>names.rs\<close>), the read and write method of a wire type (\<open>type_map.rs\<close>), and the conversion
  of scope expressions (\<open>expr.rs\<close>). A generator that reaches an \<open>unreachable!\<close> has the value \<open>None\<close>.
\<close>

section \<open>Names (names.rs)\<close>

fun snake_loop :: "char option \<Rightarrow> string \<Rightarrow> string" where
  "snake_loop prev [] = []"
| "snake_loop prev (c # s) =
     (case prev of
        Some p \<Rightarrow> if is_upper c \<and> (is_lower p \<or> is_num p) then [CHR ''_''] else []
      | None \<Rightarrow> []) @ lower_char c # snake_loop (Some c) s"

definition to_snake_case :: "string \<Rightarrow> string" where
  "to_snake_case name = snake_loop None name"

fun capitalize :: "string \<Rightarrow> string" where
  "capitalize [] = []"
| "capitalize (c # s) = upper_char c # s"

definition to_pascal_case :: "string \<Rightarrow> string" where
  "to_pascal_case name =
     (if CHR ''_'' \<in> set name
      then concat (map capitalize (filter (\<lambda>s. s \<noteq> []) (split_char (CHR ''_'') name)))
      else capitalize name)"

definition rust_type_name :: "string \<Rightarrow> string \<Rightarrow> string" where
  "rust_type_name prefix name =
     (if prefix = [] then to_pascal_case name else to_pascal_case prefix @ to_pascal_case name)"

definition rust_const_name :: "string \<Rightarrow> string \<Rightarrow> string" where
  "rust_const_name prefix name =
     (let snake = to_snake_case name
      in if prefix = [] then to_uppercase snake
         else to_uppercase (to_snake_case prefix) @ ''_'' @ to_uppercase snake)"

definition rust_keywords :: "string list" where
  "rust_keywords =
     [''Self'', ''abstract'', ''as'', ''async'', ''await'', ''become'', ''box'', ''break'', ''const'', ''continue'',
      ''crate'', ''do'', ''dyn'', ''else'', ''enum'', ''extern'', ''false'', ''final'', ''fn'', ''for'', ''if'', ''impl'',
      ''in'', ''let'', ''loop'', ''macro'', ''match'', ''mod'', ''move'', ''mut'', ''override'', ''priv'', ''pub'', ''ref'',
      ''return'', ''self'', ''static'', ''struct'', ''super'', ''trait'', ''true'', ''try'', ''type'', ''typeof'', ''union'',
      ''unsafe'', ''unsized'', ''use'', ''virtual'', ''where'', ''while'', ''yield'']"

definition is_rust_keyword :: "string \<Rightarrow> bool" where
  "is_rust_keyword name \<longleftrightarrow> name \<in> set rust_keywords"

definition rust_ident :: "string \<Rightarrow> string" where
  "rust_ident name =
     (if take 2 name = ''r#'' then name else if is_rust_keyword name then (''r#'' @ name) else name)"

definition rust_count_ident :: "string \<Rightarrow> string" where
  "rust_count_ident name = rust_ident (name @ ''_count'')"

definition rust_temp_ident :: "string \<Rightarrow> string \<Rightarrow> string \<Rightarrow> string" where
  "rust_temp_ident prefix name suffix = rust_ident (prefix @ name @ suffix)"

section \<open>Types and methods (type_map.rs)\<close>

definition bits_type :: "nat \<Rightarrow> string" where
  "bits_type n = (if n \<le> 8 then ''u8'' else if n \<le> 16 then ''u16'' else if n \<le> 32 then ''u32'' else ''u64'')"

fun wire_type_to_rust :: "wire_type \<Rightarrow> string" where
  "wire_type_to_rust WU8 = ''u8''"
| "wire_type_to_rust WU16 = ''u16''"
| "wire_type_to_rust WU24 = ''u32''"
| "wire_type_to_rust WU32 = ''u32''"
| "wire_type_to_rust WU64 = ''u64''"
| "wire_type_to_rust WI8 = ''i8''"
| "wire_type_to_rust WI16 = ''i16''"
| "wire_type_to_rust WI32 = ''i32''"
| "wire_type_to_rust WI64 = ''i64''"
| "wire_type_to_rust WBool = ''bool''"
| "wire_type_to_rust WBit = ''u8''"
| "wire_type_to_rust (WBits n) = bits_type (unat n)"
| "wire_type_to_rust WVarInt = ''u64''"
| "wire_type_to_rust WContVarInt = ''u64''"
| "wire_type_to_rust WBytes = ''BYTES''"
| "wire_type_to_rust WArray = ''ARRAY''"
| "wire_type_to_rust _ = ''UNKNOWN''"

fun wire_type_to_rust_named :: "wire_type \<Rightarrow> string option" where
  "wire_type_to_rust_named (WStruct name) = Some (to_pascal_case name)"
| "wire_type_to_rust_named (WFrame name) = Some (to_pascal_case name)"
| "wire_type_to_rust_named (WCapsule name) = Some (to_pascal_case name)"
| "wire_type_to_rust_named (WEnum name) = Some (to_pascal_case name)"
| "wire_type_to_rust_named _ = None"

definition wire_value_type_to_rust :: "wire_type \<Rightarrow> string" where
  "wire_value_type_to_rust wt =
     (case wire_type_to_rust_named wt of Some s \<Rightarrow> s | None \<Rightarrow> wire_type_to_rust wt)"

definition wire_type_needs_lifetime :: "wire_type \<Rightarrow> bool" where
  "wire_type_needs_lifetime wt \<longleftrightarrow> wt = WBytes"

fun wire_type_is_named :: "wire_type \<Rightarrow> bool" where
  "wire_type_is_named (WStruct n) = True"
| "wire_type_is_named (WFrame n) = True"
| "wire_type_is_named (WCapsule n) = True"
| "wire_type_is_named _ = False"

text \<open>The method names differ in their prefix only, and have the byte order as their suffix.\<close>

definition order_suffix :: "endianness option \<Rightarrow> string" where
  "order_suffix e = (if e = Some Little then ''le'' else ''be'')"

fun method_suffix :: "wire_type \<Rightarrow> endianness option \<Rightarrow> string option" where
  "method_suffix WU8 e = Some ''u8''"
| "method_suffix WBool e = Some ''u8''"
| "method_suffix WBit e = Some ''u8''"
| "method_suffix WI8 e = Some ''i8''"
| "method_suffix WU16 e = Some (''u16'' @ order_suffix e)"
| "method_suffix WI16 e = Some (''i16'' @ order_suffix e)"
| "method_suffix WU24 e = Some (''u24'' @ order_suffix e)"
| "method_suffix WU32 e = Some (''u32'' @ order_suffix e)"
| "method_suffix WI32 e = Some (''i32'' @ order_suffix e)"
| "method_suffix WU64 e = Some (''u64'' @ order_suffix e)"
| "method_suffix WI64 e = Some (''i64'' @ order_suffix e)"
| "method_suffix _ e = None"

definition cursor_read_method :: "wire_type \<Rightarrow> endianness option \<Rightarrow> string option" where
  "cursor_read_method wt e = map_option (\<lambda>s. ''read_'' @ s) (method_suffix wt e)"

definition writer_write_method :: "wire_type \<Rightarrow> endianness option \<Rightarrow> string option" where
  "writer_write_method wt e = map_option (\<lambda>s. ''write_'' @ s) (method_suffix wt e)"

definition rust_read_expr :: "string \<Rightarrow> wire_type \<Rightarrow> string option \<Rightarrow> endianness option \<Rightarrow> string option" where
  "rust_read_expr cursor_var wt ref_type_name e =
     (let named = (\<lambda>name. let type_name = to_pascal_case name in Some (type_name @ ''::parse('' @ cursor_var @ '')?''));
          varint = (case ref_type_name of
              Some ref_name \<Rightarrow> let parse_fn = (to_snake_case ref_name @ ''_parse'') in Some (parse_fn @ ''('' @ cursor_var @ '')?'')
            | None \<Rightarrow> Some (cursor_var @ ''.read_u64be()?''))
      in case wt of
           WStruct name \<Rightarrow> named name | WFrame name \<Rightarrow> named name | WCapsule name \<Rightarrow> named name
         | WVarInt \<Rightarrow> varint | WContVarInt \<Rightarrow> varint
         | WBool \<Rightarrow> Some (''('' @ cursor_var @ ''.read_u8()? != 0)'')
         | _ \<Rightarrow> map_option (\<lambda>read_method. (cursor_var @ ''.'' @ read_method @ ''()?'')) (cursor_read_method wt e))"

definition rust_write_expr :: "string \<Rightarrow> wire_type \<Rightarrow> string option \<Rightarrow> endianness option \<Rightarrow> string \<Rightarrow> string option" where
  "rust_write_expr writer_var wt ref_type_name e value_expr =
     (let named = Some (value_expr @ ''.serialize('' @ writer_var @ '')?'');
          varint = (case ref_type_name of
              Some ref_name \<Rightarrow> let serialize_fn = (to_snake_case ref_name @ ''_serialize'')
                in Some (serialize_fn @ ''('' @ value_expr @ '', '' @ writer_var @ '')?'')
            | None \<Rightarrow> Some (writer_var @ ''.write_u64be('' @ value_expr @ '')?''))
      in case wt of
           WStruct name \<Rightarrow> named | WFrame name \<Rightarrow> named | WCapsule name \<Rightarrow> named
         | WVarInt \<Rightarrow> varint | WContVarInt \<Rightarrow> varint
         | WBool \<Rightarrow> Some (writer_var @ ''.write_u8(if '' @ value_expr @ '' { 1u8 } else { 0u8 })?'')
         | _ \<Rightarrow> map_option (\<lambda>write_method. (writer_var @ ''.'' @ write_method @ ''('' @ value_expr @
           '')?'')) (writer_write_method wt e))"

definition bitgroup_suffix :: "nat \<Rightarrow> endianness \<Rightarrow> string option" where
  "bitgroup_suffix total_bits e =
     (let suffix = (if e = Little then ''le'' else ''be'')
      in if total_bits = 0 then None
         else if total_bits \<le> 8 then Some ''u8''
         else if total_bits \<le> 16 then Some (''u16'' @ suffix)
         else if total_bits \<le> 32 then Some (''u32'' @ suffix)
         else if total_bits \<le> 64 then Some (''u64'' @ suffix)
         else None)"

definition bitgroup_read_method :: "u16 \<Rightarrow> endianness \<Rightarrow> string option" where
  "bitgroup_read_method total_bits e = map_option (\<lambda>s. ''read_'' @ s) (bitgroup_suffix (unat total_bits) e)"

definition bitgroup_write_method :: "u16 \<Rightarrow> endianness \<Rightarrow> string option" where
  "bitgroup_write_method total_bits e = map_option (\<lambda>s. ''write_'' @ s) (bitgroup_suffix (unat total_bits) e)"

definition bitgroup_rust_type :: "u16 \<Rightarrow> string" where
  "bitgroup_rust_type total_bits =
     (let n = unat total_bits
      in if 1 \<le> n \<and> n \<le> 8 then ''u8'' else if 9 \<le> n \<and> n \<le> 16 then ''u16'' else if 17 \<le> n \<and> n \<le> 32 then ''u32'' else ''u64'')"

fun wire_type_byte_width :: "wire_type \<Rightarrow> nat option" where
  "wire_type_byte_width WU8 = Some 1"
| "wire_type_byte_width WI8 = Some 1"
| "wire_type_byte_width WBool = Some 1"
| "wire_type_byte_width WBit = Some 1"
| "wire_type_byte_width WU16 = Some 2"
| "wire_type_byte_width WI16 = Some 2"
| "wire_type_byte_width WU24 = Some 3"
| "wire_type_byte_width WU32 = Some 4"
| "wire_type_byte_width WI32 = Some 4"
| "wire_type_byte_width WU64 = Some 8"
| "wire_type_byte_width WI64 = Some 8"
| "wire_type_byte_width _ = None"

section \<open>Expressions (expr.rs)\<close>

datatype expr_context = CtxParse | CtxSerialize

fun field_prefix :: "expr_context \<Rightarrow> string" where
  "field_prefix CtxParse = []"
| "field_prefix CtxSerialize = ''self.''"

type_synonym field_aliases = "(string \<times> string) list"

definition resolve_field_alias :: "string \<Rightarrow> field_aliases \<Rightarrow> string option" where
  "resolve_field_alias name aliases = map_of aliases name"

definition extract_field_name :: "string \<Rightarrow> string" where
  "extract_field_name i = before_first (CHR ''['') (behind_last (CHR ''.'') i)"

fun literal_to_rust :: "literal_value \<Rightarrow> string" where
  "literal_to_rust (CLInt n) = (if n < 0 then (''('' @ show_int n @ '')'') else show_int n)"
| "literal_to_rust (CLBool b) = (if b then ''true'' else ''false'')"
| "literal_to_rust (CLString s) = (quo @ escape_literal s @ quo)"
| "literal_to_rust CLNull = ''None''"

definition rust_binary_op :: "string \<Rightarrow> string" where
  "rust_binary_op op = (if op = ''and'' then ''&&'' else if op = ''or'' then ''||'' else op)"

text \<open>A reference to a field: its alias, or the identifier with the prefix of the context.\<close>

definition field_ref_to_rust :: "expr_context \<Rightarrow> field_aliases \<Rightarrow> string \<Rightarrow> string" where
  "field_ref_to_rust ctx aliases value_id =
     (let raw_name = extract_field_name value_id
      in case resolve_field_alias raw_name aliases of
           Some alias \<Rightarrow> alias
         | None \<Rightarrow> (field_prefix ctx @ rust_ident raw_name))"

fun expr_to_rust_with_aliases :: "expr_context \<Rightarrow> field_aliases \<Rightarrow> codec_expr \<Rightarrow> string option" where
  "expr_to_rust_with_aliases ctx aliases (CValueRef r) =
     (if cvr_kind r = CKConst then Some (to_uppercase (cvr_value_id r))
      else Some (field_ref_to_rust ctx aliases (cvr_value_id r)))"
| "expr_to_rust_with_aliases ctx aliases (CLiteral v) = Some (literal_to_rust v)"
| "expr_to_rust_with_aliases ctx aliases (CBinary op l r) =
     ocat [Some ''('', expr_to_rust_with_aliases ctx aliases l, Some ('' '' @ rust_binary_op op @ '' ''),
           expr_to_rust_with_aliases ctx aliases r, Some '')'']"
| "expr_to_rust_with_aliases ctx aliases (CUnary op e) =
     ocat [Some (''('' @ op), expr_to_rust_with_aliases ctx aliases e, Some '')'']"
| "expr_to_rust_with_aliases ctx aliases (CCoalesce e d) =
     ocat [case e of CValueRef r \<Rightarrow> Some (field_ref_to_rust ctx aliases (cvr_value_id r))
           | _ \<Rightarrow> expr_to_rust_with_aliases ctx aliases e,
           Some ''.unwrap_or('', expr_to_rust_with_aliases ctx aliases d, Some '')'']"
| "expr_to_rust_with_aliases ctx aliases (CSubscript b i) =
     ocat [expr_to_rust_with_aliases ctx aliases b, Some ''['', expr_to_rust_with_aliases ctx aliases i, Some '']'']"
| "expr_to_rust_with_aliases ctx aliases _ = None"

definition expr_to_rust :: "expr_context \<Rightarrow> codec_expr \<Rightarrow> string option" where
  "expr_to_rust ctx e = expr_to_rust_with_aliases ctx [] e"

definition boolean_ops :: "string list" where
  "boolean_ops = [''=='', ''!='', ''<'', ''>'', ''<='', ''>='', ''and'', ''or'', ''&&'', ''||'']"

fun expr_is_boolean :: "codec_expr \<Rightarrow> bool" where
  "expr_is_boolean (CBinary op l r) = (op \<in> set boolean_ops)"
| "expr_is_boolean (CUnary op e) = (op = ''!'')"
| "expr_is_boolean (CLiteral (CLBool b)) = True"
| "expr_is_boolean _ = False"

definition expr_to_rust_bool_with_field_aliases :: "expr_context \<Rightarrow> field_aliases \<Rightarrow> codec_expr \<Rightarrow> string option" where
  "expr_to_rust_bool_with_field_aliases ctx aliases e =
     map_option (\<lambda>s. if expr_is_boolean e then s else (''('' @ s @ '') != 0'')) (expr_to_rust_with_aliases ctx aliases e)"

definition expr_to_rust_bool :: "expr_context \<Rightarrow> codec_expr \<Rightarrow> string option" where
  "expr_to_rust_bool ctx e = map_option (\<lambda>s. if expr_is_boolean e then s else (''('' @ s @ '') != 0'')) (expr_to_rust ctx e)"

end
