(* ===== verification/RustParse.thy ===== *)
theory RustParse
  imports RustNames
begin

text \<open>
  The parse half of generated Rust code, \<open>crates/wirespec-backend-rust/src/parse_emit.rs\<close>: one \<open>let\<close> per
  field, in the order of the items, over a cursor. The list of bit groups already read is passed along
  as in the code.
\<close>

section \<open>One field\<close>

definition cursor_arg_of :: "string \<Rightarrow> string" where
  "cursor_arg_of cursor_var = (if cursor_var = ''cur'' then ''cur'' else (''&mut '' @ cursor_var))"

definition rust_parse_expr :: "string \<Rightarrow> wire_type \<Rightarrow> string option \<Rightarrow> endianness option \<Rightarrow> string option" where
  "rust_parse_expr cursor_var wt ref_type_name e =
     (let cursor_arg = cursor_arg_of cursor_var;
          named = (\<lambda>name. let type_name = to_pascal_case name in Some (type_name @ ''::parse('' @ cursor_arg @ '')?''));
          varint = (case ref_type_name of
              Some ref_name \<Rightarrow> let parse_fn = (to_snake_case ref_name @ ''_parse'') in Some (parse_fn @ ''('' @ cursor_arg @ '')?'')
            | None \<Rightarrow> Some (cursor_var @ ''.read_u64be()?''))
      in case wt of
           WStruct name \<Rightarrow> named name | WFrame name \<Rightarrow> named name | WCapsule name \<Rightarrow> named name
         | WVarInt \<Rightarrow> varint | WContVarInt \<Rightarrow> varint
         | WBool \<Rightarrow> Some (''('' @ cursor_var @ ''.read_u8()? != 0)'')
         | _ \<Rightarrow> map_option (\<lambda>read_method. (cursor_var @ ''.'' @ read_method @ ''()?'')) (cursor_read_method wt e))"

fun get_value_ref_id :: "codec_expr \<Rightarrow> string" where
  "get_value_ref_id (CValueRef r) = cvr_value_id r"
| "get_value_ref_id _ = []"

definition let_stmt :: "string \<Rightarrow> string \<Rightarrow> string \<Rightarrow> string" where
  "let_stmt indent name e = (indent @ ''let '' @ name @ '' = '' @ e @ '';'' @ nl)"

definition bitgroup_mask :: "u16 \<Rightarrow> nat" where
  "bitgroup_mask width = (if unat width \<ge> 64 then 2 ^ 64 - 1 else 2 ^ unat width - 1)"

definition group_members_of :: "codec_field list \<Rightarrow> u32 \<Rightarrow> (codec_field \<times> bitgroup_member) list" where
  "group_members_of all_fields group_id =
     List.map_filter (\<lambda>f. case cf_bitgroup_member f of
         Some mbg \<Rightarrow> if bm_group_id mbg = group_id then Some (f, mbg) else None
       | None \<Rightarrow> None) all_fields"

definition bitgroup_var :: "u32 \<Rightarrow> string" where
  "bitgroup_var group_id = (''_bg'' @ dec group_id)"

definition member_parse :: "string \<Rightarrow> string \<Rightarrow> codec_field \<times> bitgroup_member \<Rightarrow> string" where
  "member_parse indent var_name fm =
     (case fm of (f, mbg) \<Rightarrow>
       let mask = show_hex (bitgroup_mask (bm_member_width_bits mbg));
           shift = dec (bm_member_offset_bits mbg);
           target_type = wire_type_to_rust (cf_wire_type f);
           field_name = rust_ident (cf_name f)
       in (indent @ ''let '' @ field_name @ '' = (('' @ var_name @ '' >> '' @ shift @ '') & 0x'' @ mask @ '') as '' @ target_type @ '';'' @ nl))"

definition emit_bitgroup_parse :: "codec_field list \<Rightarrow> string \<Rightarrow> bitgroup_member \<Rightarrow> string \<Rightarrow> string option" where
  "emit_bitgroup_parse all_fields indent bg cursor_var =
     (let group_id = bm_group_id bg; var_name = bitgroup_var group_id
      in map_option (\<lambda>read_method.
           (indent @ ''let '' @ var_name @ '' = '' @ cursor_var @ ''.'' @ read_method @ ''()?;'' @ nl) @
           concat (map (member_parse indent var_name) (group_members_of all_fields group_id)))
         (bitgroup_read_method (bm_total_bits bg) (bm_group_endianness bg)))"

definition emit_array_element_read_indexed :: "codec_field \<Rightarrow> array_spec \<Rightarrow> string \<Rightarrow> string \<Rightarrow> string \<Rightarrow> string option" where
  "emit_array_element_read_indexed f arr indent idx cursor_var =
     (if ar_element_strategy arr \<in> {StPrimitive, StStruct, StVarInt, StContVarInt}
      then map_option (\<lambda>read_expr. (indent @ ''    '' @ rust_ident (cf_name f) @ ''['' @ idx @ ''] = '' @ read_expr @ '';'' @ nl))
             (rust_parse_expr cursor_var (ar_element_wire_type arr) (ar_element_ref_type_name arr) None)
      else None)"

definition max_elems_of :: "codec_field \<Rightarrow> string" where
  "max_elems_of f = (case cf_max_elements f of Some n \<Rightarrow> dec n | None \<Rightarrow> ''256'')"

definition emit_array_parse :: "codec_field \<Rightarrow> array_spec \<Rightarrow> string \<Rightarrow> string \<Rightarrow> field_aliases \<Rightarrow> string option" where
  "emit_array_parse f arr indent cursor_var aliases =
     (let max_elems = max_elems_of f; field_name = rust_ident (cf_name f); count_name = rust_count_ident (cf_name f)
      in case ar_count_expr arr of
           Some count_expr \<Rightarrow>
             ocat [map_option (\<lambda>count_str. (indent @ ''let '' @ count_name @ '' = '' @ count_str @ '' as usize;'' @ nl))
                     (expr_to_rust_with_aliases CtxParse aliases count_expr),
                   Some (indent @ ''if '' @ count_name @ '' > '' @ max_elems @ '' { return Err(Error::Capacity); }'' @ nl),
                   Some (indent @ ''let mut '' @ field_name @ '' = std::array::from_fn(|_| Default::default());'' @ nl),
                   Some (indent @ ''for _i in 0..'' @ count_name @ '' {'' @ nl),
                   emit_array_element_read_indexed f arr indent ''_i'' cursor_var,
                   Some (indent @ ''}'' @ nl)]
         | None \<Rightarrow>
             let actual_cursor = (if ar_within_expr arr \<noteq> None then ''_arr_sub'' else cursor_var)
             in ocat [case ar_within_expr arr of
                        Some within_expr \<Rightarrow>
                          map_option (\<lambda>within_str.
                              (indent @ ''let mut _arr_sub = '' @ cursor_var @ ''.sub_cursor('' @ within_str @ '' as usize)?;'' @ nl))
                            (expr_to_rust_with_aliases CtxParse aliases within_expr)
                      | None \<Rightarrow> Some [],
                      Some (indent @ ''let mut '' @ field_name @ '' = std::array::from_fn(|_| Default::default());'' @ nl),
                      Some (indent @ ''let mut '' @ count_name @ '': usize = 0;'' @ nl),
                      Some (indent @ ''while '' @ actual_cursor @ ''.remaining() > 0 {'' @ nl),
                      Some (indent @ ''    if '' @ count_name @ '' >= '' @ max_elems @ '' { return Err(Error::Capacity); }'' @ nl),
                      emit_array_element_read_indexed f arr indent count_name actual_cursor,
                      Some (indent @ ''    '' @ count_name @ '' += 1;'' @ nl),
                      Some (indent @ ''}'' @ nl)])"

text \<open>The read of a \<open>bytes\<close> type, as an expression.\<close>

definition bytes_read_expr :: "string \<Rightarrow> field_aliases \<Rightarrow> bytes_spec option \<Rightarrow> string option" where
  "bytes_read_expr cursor_var aliases spec =
     (case spec of
        Some (BsFixed n) \<Rightarrow> Some (cursor_var @ ''.read_bytes('' @ dec n @ '')?'')
      | Some (BsLength e) \<Rightarrow>
          map_option (\<lambda>len_expr. (cursor_var @ ''.read_bytes('' @ len_expr @ '' as usize)?'')) (expr_to_rust_with_aliases CtxParse aliases e)
      | Some (BsLengthOrRemaining e) \<Rightarrow>
          let length_name = rust_ident (extract_field_name (get_value_ref_id e))
          in Some (''if let Some(l) = '' @ length_name @ '' { '' @ cursor_var @ ''.read_bytes(l as usize)? } else { '' @ cursor_var @
            ''.read_remaining() }'')
      | Some BsRemaining \<Rightarrow> Some (cursor_var @ ''.read_remaining()'')
      | None \<Rightarrow> Some (cursor_var @ ''.read_remaining()''))"

definition asn1_decode_stmt :: "string \<Rightarrow> string \<Rightarrow> asn1_hint \<Rightarrow> string \<Rightarrow> string" where
  "asn1_decode_stmt indent field_name hint bytes_name =
     (indent @ ''let '' @ field_name @ '' = '' @ ah_encoding hint @ ''::decode::<'' @ ah_type_name hint @ ''>('' @ bytes_name @
       '').map_err(|_| Error::Asn1Decode)?;'' @ nl)"

text \<open>The bytes of an ASN.1 field go through a temporary.\<close>

definition emit_bytes_parse :: "codec_field \<Rightarrow> string \<Rightarrow> string \<Rightarrow> string" where
  "emit_bytes_parse f indent read_expr =
     (let field_name = rust_ident (cf_name f)
      in case cf_asn1_hint f of
           Some hint \<Rightarrow>
             let bytes_name = rust_temp_ident ''_'' (cf_name f) ''_bytes''
             in let_stmt indent bytes_name read_expr @ asn1_decode_stmt indent field_name hint bytes_name
         | None \<Rightarrow> let_stmt indent field_name read_expr)"

definition emit_conditional_parse :: "codec_field \<Rightarrow> string \<Rightarrow> string \<Rightarrow> field_aliases \<Rightarrow> codec_expr \<Rightarrow> string option" where
  "emit_conditional_parse f indent cursor_var aliases cond =
     (let field_name = rust_ident (cf_name f);
          inner_wt = (case cf_inner_wire_type f of Some wt \<Rightarrow> wt | None \<Rightarrow> cf_wire_type f)
      in Option.bind (expr_to_rust_bool_with_field_aliases CtxParse aliases cond) (\<lambda>cond_str.
         map_option (\<lambda>read_expr. (indent @ ''let '' @ field_name @ '' = if '' @ cond_str @ '' { Some('' @ read_expr @
           '') } else { None };'' @ nl))
           (case inner_wt of
              WBytes \<Rightarrow> bytes_read_expr cursor_var aliases (cf_bytes_spec f)
            | WArray \<Rightarrow> None
            | _ \<Rightarrow> rust_parse_expr cursor_var inner_wt (cf_ref_type_name f) (cf_endianness f))))"

definition emit_field_parse :: "codec_field \<Rightarrow> codec_field list \<Rightarrow> string \<Rightarrow> u32 list \<Rightarrow> string \<Rightarrow> field_aliases
    \<Rightarrow> (string \<times> u32 list) option" where
  "emit_field_parse f all_fields indent emitted cursor_var aliases =
     (let keep = map_option (\<lambda>s. (s, emitted));
          plain = map_option (let_stmt indent (rust_ident (cf_name f)))
            (rust_parse_expr cursor_var (cf_wire_type f) (cf_ref_type_name f) (cf_endianness f))
      in case cf_strategy f of
           StPrimitive \<Rightarrow> keep plain
         | StChecksum \<Rightarrow> keep plain
         | StBitGroup \<Rightarrow>
             (case cf_bitgroup_member f of
                Some bg \<Rightarrow>
                  if bm_group_id bg \<in> set emitted then keep (Some [])
                  else map_option (\<lambda>s. (s, emitted @ [bm_group_id bg])) (emit_bitgroup_parse all_fields indent bg cursor_var)
              | None \<Rightarrow> keep (Some []))
         | StBytesFixed \<Rightarrow>
             (case cf_bytes_spec f of
                Some (BsFixed n) \<Rightarrow>
                  keep (Some (indent @ ''let '' @ rust_ident (cf_name f) @ '' = '' @ cursor_var @ ''.read_bytes('' @ dec n @ '')?;'' @ nl))
              | _ \<Rightarrow> keep (Some []))
         | StBytesLength \<Rightarrow>
             (case cf_bytes_spec f of
                Some (BsLength e) \<Rightarrow> keep (map_option (emit_bytes_parse f indent) (bytes_read_expr cursor_var aliases (cf_bytes_spec f)))
              | _ \<Rightarrow> keep (Some []))
         | StBytesRemaining \<Rightarrow> keep (Some (emit_bytes_parse f indent (cursor_var @ ''.read_remaining()'')))
         | StBytesLor \<Rightarrow>
             (case cf_bytes_spec f of
                Some (BsLengthOrRemaining e) \<Rightarrow>
                  keep (map_option (let_stmt indent (rust_ident (cf_name f))) (bytes_read_expr cursor_var aliases (cf_bytes_spec f)))
              | _ \<Rightarrow> keep (Some []))
         | StConditional \<Rightarrow>
             (case cf_condition f of
                Some cond \<Rightarrow> keep (emit_conditional_parse f indent cursor_var aliases cond)
              | None \<Rightarrow> keep (Some []))
         | StArray \<Rightarrow>
             (case cf_array_spec f of
                Some arr \<Rightarrow> keep (emit_array_parse f arr indent cursor_var aliases)
              | None \<Rightarrow> keep (Some []))
         | StStruct \<Rightarrow> keep plain
         | StVarInt \<Rightarrow> keep plain
         | StContVarInt \<Rightarrow> keep plain)"

section \<open>A scope\<close>

definition find_field :: "codec_field list \<Rightarrow> string \<Rightarrow> codec_field option" where
  "find_field flds field_id = List.find (\<lambda>f. cf_field_id f = field_id) flds"

definition emit_require :: "string \<Rightarrow> field_aliases \<Rightarrow> codec_require_item \<Rightarrow> string option" where
  "emit_require indent aliases r =
     map_option (\<lambda>expr_str. (indent @ ''if !('' @ expr_str @ '') { return Err(Error::Constraint); }'' @ nl))
       (expr_to_rust_with_aliases CtxParse aliases (cr_expr r))"

fun parse_items_loop :: "codec_field list \<Rightarrow> string \<Rightarrow> string \<Rightarrow> field_aliases \<Rightarrow> u32 list \<Rightarrow> codec_item list \<Rightarrow> string option" where
  "parse_items_loop flds indent cursor_var aliases emitted [] = Some []"
| "parse_items_loop flds indent cursor_var aliases emitted (CiField field_id # items) =
     (case find_field flds field_id of
        Some f \<Rightarrow>
          Option.bind (emit_field_parse f flds indent emitted cursor_var aliases) (\<lambda>(s, emitted).
            ocat [Some s, parse_items_loop flds indent cursor_var aliases emitted items])
      | None \<Rightarrow> parse_items_loop flds indent cursor_var aliases emitted items)"
| "parse_items_loop flds indent cursor_var aliases emitted (CiDerived d # items) =
     ocat [map_option (let_stmt indent (rust_ident (cd_name d))) (expr_to_rust_with_aliases CtxParse aliases (cd_expr d)),
           parse_items_loop flds indent cursor_var aliases emitted items]"
| "parse_items_loop flds indent cursor_var aliases emitted (CiRequire r # items) =
     ocat [emit_require indent aliases r, parse_items_loop flds indent cursor_var aliases emitted items]"

definition emit_parse_items_with_field_aliases :: "codec_field list \<Rightarrow> codec_item list \<Rightarrow> string \<Rightarrow> string \<Rightarrow> field_aliases
    \<Rightarrow> string option" where
  "emit_parse_items_with_field_aliases flds items indent cursor_var aliases =
     parse_items_loop flds indent cursor_var aliases [] items"

definition emit_parse_items :: "codec_field list \<Rightarrow> codec_item list \<Rightarrow> string \<Rightarrow> string option" where
  "emit_parse_items flds items indent = emit_parse_items_with_field_aliases flds items indent ''cur'' []"

section \<open>Frames and capsules\<close>

fun pattern_to_rust :: "variant_pattern \<Rightarrow> string" where
  "pattern_to_rust (VpExact v) = show_int v"
| "pattern_to_rust (VpRangeInclusive s e) = (show_int s @ ''..='' @ show_int e)"
| "pattern_to_rust VpWildcard = ''_''"

text \<open>The field names of a struct expression.\<close>

fun init_field :: "codec_field list \<Rightarrow> string \<Rightarrow> codec_item \<Rightarrow> string" where
  "init_field flds indent (CiField field_id) =
     (case find_field flds field_id of
        Some f \<Rightarrow> (indent @ rust_ident (cf_name f) @ '','' @ nl) @
          (if cf_strategy f = StArray then (indent @ rust_count_ident (cf_name f) @ '','' @ nl) else [])
      | None \<Rightarrow> [])"
| "init_field flds indent (CiDerived d) = (indent @ rust_ident (cd_name d) @ '','' @ nl)"
| "init_field flds indent (CiRequire r) = []"

fun is_require :: "codec_item \<Rightarrow> bool" where
  "is_require (CiRequire r) = True"
| "is_require _ = False"

fun emit_require_item :: "string \<Rightarrow> field_aliases \<Rightarrow> codec_item \<Rightarrow> string option" where
  "emit_require_item indent aliases (CiRequire r) = emit_require indent aliases r"
| "emit_require_item indent aliases _ = Some []"

definition emit_variant_parse_arm :: "string \<Rightarrow> string \<Rightarrow> codec_variant_scope \<Rightarrow> string option" where
  "emit_variant_parse_arm indent tag_field_name v =
     (let variant_name = to_pascal_case (cvs_name v);
          inner = (indent @ ''        '');
          aliases = [(tag_field_name, ''_tag_val'')]
      in ocat
          ([Some (indent @ ''    '' @ pattern_to_rust (cvs_pattern v) @ '' => {'' @ nl)] @
           (if cvs_fields v = [] \<and> list_all is_require (cvs_items v)
            then map (emit_require_item inner aliases) (cvs_items v) @ [Some (inner @ ''Self::'' @ variant_name @ nl)]
            else [emit_parse_items_with_field_aliases (cvs_fields v) (cvs_items v) inner ''cur'' aliases,
                  Some (if cvs_fields v = [] then (inner @ ''Self::'' @ variant_name @ nl)
                        else (inner @ ''Self::'' @ variant_name @ '' {'' @ nl) @
                          concat (map (init_field (cvs_fields v) (inner @ ''    '')) (cvs_items v)) @ (inner @ ''}'' @ nl))]) @
           [Some (indent @ ''    }'' @ nl)]))"

definition emit_frame_parse_body :: "codec_frame \<Rightarrow> string \<Rightarrow> string option" where
  "emit_frame_parse_body frame indent =
     ocat [map_option (\<lambda>tag_read_expr. (indent @ ''let _tag_val = '' @ tag_read_expr @ '';'' @ nl))
             (rust_parse_expr ''cur'' (tg_wire_type (cfr_tag frame)) (tg_ref_type_name (cfr_tag frame)) (tg_endianness (cfr_tag frame))),
           Some (indent @ ''let _result = match _tag_val {'' @ nl),
           omap_cat (emit_variant_parse_arm indent (tg_field_name (cfr_tag frame))) (cfr_variants frame),
           Some (indent @ ''};'' @ nl),
           Some (indent @ ''Ok((_result, _tag_val))'' @ nl)]"

definition emit_capsule_variant_arm :: "string \<Rightarrow> string \<Rightarrow> codec_variant_scope \<Rightarrow> string option" where
  "emit_capsule_variant_arm indent payload_type v =
     (let variant_name = to_pascal_case (cvs_name v);
          inner = (indent @ ''        '')
      in ocat
          [Some (indent @ ''    '' @ pattern_to_rust (cvs_pattern v) @ '' => {'' @ nl),
           emit_parse_items_with_field_aliases (cvs_fields v) (cvs_items v) inner ''sub'' [],
           Some (if cvs_fields v = [] then (inner @ payload_type @ ''::'' @ variant_name @ nl)
                 else (inner @ payload_type @ ''::'' @ variant_name @ '' {'' @ nl) @
                   concat (map (init_field (cvs_fields v) (inner @ ''    '')) (cvs_items v)) @ (inner @ ''}'' @ nl)),
           Some (indent @ ''    }'' @ nl)])"

text \<open>The struct expression of a capsule names no element counts of arrays.\<close>

fun capsule_init_field :: "codec_field list \<Rightarrow> string \<Rightarrow> codec_item \<Rightarrow> string" where
  "capsule_init_field flds indent (CiField field_id) =
     (case find_field flds field_id of
        Some f \<Rightarrow> (indent @ ''    '' @ rust_ident (cf_name f) @ '','' @ nl)
      | None \<Rightarrow> [])"
| "capsule_init_field flds indent (CiDerived d) = (indent @ ''    '' @ rust_ident (cd_name d) @ '','' @ nl)"
| "capsule_init_field flds indent (CiRequire r) = []"

definition emit_capsule_parse_body :: "codec_capsule \<Rightarrow> string \<Rightarrow> string option" where
  "emit_capsule_parse_body capsule indent =
     (let payload_type = (to_pascal_case (cca_name capsule) @ ''Payload'');
          tag_match_expr = (case cca_tag_expr capsule of
              Some e \<Rightarrow> expr_to_rust CtxParse e
            | None \<Rightarrow> Some (rust_ident (tg_field_name (cca_tag capsule))));
          within_expr = rust_ident (cca_within_field capsule)
      in ocat
          [emit_parse_items (cca_header_fields capsule) (cca_header_items capsule) indent,
           Some (indent @ ''let mut sub = cur.sub_cursor('' @ within_expr @ '' as usize)?;'' @ nl),
           map_option (\<lambda>tag_match. (indent @ ''let payload = match '' @ tag_match @ '' {'' @ nl)) tag_match_expr,
           omap_cat (emit_capsule_variant_arm indent payload_type) (cca_variants capsule),
           Some (indent @ ''};'' @ nl),
           Some (indent @ ''Ok(Self {'' @ nl),
           Some (concat (map (capsule_init_field (cca_header_fields capsule) indent) (cca_header_items capsule))),
           Some (indent @ ''    payload,'' @ nl),
           Some (indent @ ''})'' @ nl)])"

end
