(* ===== verification/RustSer.thy ===== *)
theory RustSer
  imports RustParse
begin

text \<open>
  The serialize half of generated Rust code, \<open>crates/wirespec-backend-rust/src/serialize_emit.rs\<close>: the
  writes of the fields, and the sums of \<open>serialized_len\<close>. Packets and capsule headers name their
  fields with the prefix \<open>self.\<close>; the fields of a variant are bound by the match arm.
\<close>

section \<open>Fields of a packet\<close>

definition prefixed_field :: "string \<Rightarrow> string \<Rightarrow> string" where
  "prefixed_field val_prefix name = (val_prefix @ rust_ident name)"

definition prefixed_count_field :: "string \<Rightarrow> string \<Rightarrow> string" where
  "prefixed_count_field val_prefix name = (val_prefix @ rust_count_ident name)"

definition borrowed_value_expr :: "wire_type \<Rightarrow> string \<Rightarrow> string" where
  "borrowed_value_expr wt value_expr = (if wt = WBytes \<or> wire_type_is_named wt then value_expr else (''*'' @ value_expr))"

fun representative :: "variant_pattern \<Rightarrow> string" where
  "representative (VpExact v) = show_int v"
| "representative (VpRangeInclusive s e) = show_int s"
| "representative VpWildcard = ''0''"

definition variant_tag_len_stmt :: "codec_variant_scope \<Rightarrow> wire_type \<Rightarrow> string option \<Rightarrow> string \<Rightarrow> string" where
  "variant_tag_len_stmt v tag_wire_type tag_ref indent =
     (case wire_type_byte_width tag_wire_type of
        Some w \<Rightarrow> (indent @ ''len += '' @ show_nat w @ '';'' @ nl)
      | None \<Rightarrow>
          if tag_wire_type = WVarInt \<or> tag_wire_type = WContVarInt
          then (case tag_ref of
                  Some ref_name \<Rightarrow>
                    let wire_size_fn = (to_snake_case ref_name @ ''_wire_size'')
                    in (indent @ ''len += '' @ wire_size_fn @ ''('' @ representative (cvs_pattern v) @ '');'' @ nl)
                | None \<Rightarrow> (indent @ ''len += 8; /* varint */'' @ nl))
          else [])"

text \<open>The length fields that the encoded ASN.1 payload behind them determines.\<close>

definition asn1_length_field :: "codec_field \<Rightarrow> string option" where
  "asn1_length_field f =
     (case (cf_asn1_hint f, cf_bytes_spec f) of
        (Some hint, Some (BsLength (CValueRef r))) \<Rightarrow> Some (extract_field_name (cvr_value_id r))
      | _ \<Rightarrow> None)"

definition collect_asn1_length_field_names :: "codec_field list \<Rightarrow> string list" where
  "collect_asn1_length_field_names flds = List.map_filter asn1_length_field flds"

text \<open>The members of a bit group are masked, shifted and joined into a word of the group's type.\<close>

definition member_serialize :: "string \<Rightarrow> string \<Rightarrow> string \<Rightarrow> (string \<Rightarrow> string) \<Rightarrow> codec_field \<times> bitgroup_member \<Rightarrow> string" where
  "member_serialize indent var_name container_type field_ref fm =
     (case fm of (f, mbg) \<Rightarrow>
       let mask = show_hex (bitgroup_mask (bm_member_width_bits mbg)); shift = dec (bm_member_offset_bits mbg)
       in (indent @ var_name @ '' |= (('' @ field_ref (cf_name f) @ '' as '' @ container_type @ '') & 0x'' @ mask @ '') << '' @ shift @ '';'' @ nl))"

definition bitgroup_serialize :: "codec_field list \<Rightarrow> string \<Rightarrow> (string \<Rightarrow> string) \<Rightarrow> bitgroup_member \<Rightarrow> string option" where
  "bitgroup_serialize all_fields indent field_ref bg =
     (let var_name = bitgroup_var (bm_group_id bg); container_type = bitgroup_rust_type (bm_total_bits bg)
      in map_option (\<lambda>write_method.
           (indent @ ''let mut '' @ var_name @ '': '' @ container_type @ '' = 0;'' @ nl) @
           concat (map (member_serialize indent var_name container_type field_ref) (group_members_of all_fields (bm_group_id bg))) @
           (indent @ ''w.'' @ write_method @ ''('' @ var_name @ '')?;'' @ nl))
         (bitgroup_write_method (bm_total_bits bg) (bm_group_endianness bg)))"

definition emit_bitgroup_serialize :: "codec_field list \<Rightarrow> string \<Rightarrow> string \<Rightarrow> bitgroup_member \<Rightarrow> string option" where
  "emit_bitgroup_serialize all_fields indent val_prefix bg =
     bitgroup_serialize all_fields indent (prefixed_field val_prefix) bg"

definition emit_array_serialize :: "codec_field \<Rightarrow> array_spec \<Rightarrow> string \<Rightarrow> string \<Rightarrow> string option" where
  "emit_array_serialize f arr indent val_prefix =
     (let count_ref = prefixed_count_field val_prefix (cf_name f); field_ref = prefixed_field val_prefix (cf_name f)
      in ocat
          [Some (indent @ ''for _i in 0..'' @ count_ref @ '' {'' @ nl),
           if ar_element_strategy arr \<in> {StPrimitive, StStruct, StVarInt, StContVarInt}
           then map_option (\<lambda>write_expr. (indent @ ''    '' @ write_expr @ '';'' @ nl))
                  (rust_write_expr ''w'' (ar_element_wire_type arr) (ar_element_ref_type_name arr) None (field_ref @ ''[_i]''))
           else None,
           Some (indent @ ''}'' @ nl)])"

text \<open>An ASN.1 field is encoded first; its recomputed length goes before it.\<close>

definition emit_asn1_serialize :: "codec_field \<Rightarrow> codec_field list \<Rightarrow> string \<Rightarrow> asn1_hint \<Rightarrow> string \<Rightarrow> string option" where
  "emit_asn1_serialize f all_fields indent hint encoded_value =
     (let encoded_name = rust_temp_ident ''_'' (cf_name f) ''_encoded''
      in ocat
          [Some (indent @ ''let '' @ encoded_name @ '' = '' @ ah_encoding hint @ ''::encode('' @ encoded_value @
            '').map_err(|_| Error::Asn1Encode)?;'' @ nl),
           case cf_bytes_spec f of
             Some (BsLength (CValueRef r)) \<Rightarrow>
               (case List.find (\<lambda>af. cf_name af = extract_field_name (cvr_value_id r)) all_fields of
                  Some lf \<Rightarrow>
                    map_option (\<lambda>write_method.
                        (indent @ ''w.'' @ write_method @ ''('' @ encoded_name @ ''.len() as '' @ wire_type_to_rust (cf_wire_type lf) @ '')?;'' @ nl))
                      (writer_write_method (cf_wire_type lf) (cf_endianness lf))
                | None \<Rightarrow> Some [])
           | _ \<Rightarrow> Some [],
           Some (indent @ ''w.write_bytes(&'' @ encoded_name @ '')?;'' @ nl)])"

definition write_stmt :: "string \<Rightarrow> codec_field \<Rightarrow> string \<Rightarrow> string option" where
  "write_stmt indent f value_expr =
     map_option (\<lambda>write_expr. (indent @ write_expr @ '';'' @ nl))
       (rust_write_expr ''w'' (cf_wire_type f) (cf_ref_type_name f) (cf_endianness f) value_expr)"

definition inner_wire_type_of :: "codec_field \<Rightarrow> wire_type" where
  "inner_wire_type_of f = (case cf_inner_wire_type f of Some wt \<Rightarrow> wt | None \<Rightarrow> cf_wire_type f)"

text \<open>\<open>pattern\<close> is \<open>ref val\<close> in a packet and \<open>val\<close> in a variant.\<close>

definition emit_conditional_serialize :: "codec_field \<Rightarrow> string \<Rightarrow> string \<Rightarrow> string \<Rightarrow> string option" where
  "emit_conditional_serialize f indent pattern option_ref =
     (case inner_wire_type_of f of
        WBytes \<Rightarrow> Some (indent @ ''if let Some('' @ pattern @ '') = '' @ option_ref @ '' { w.write_bytes(val)?; }'' @ nl)
      | WArray \<Rightarrow> None
      | inner_wt \<Rightarrow>
          map_option (\<lambda>write_expr. (indent @ ''if let Some('' @ pattern @ '') = '' @ option_ref @ '' { '' @ write_expr @ ''; }'' @ nl))
            (rust_write_expr ''w'' inner_wt (cf_ref_type_name f) (cf_endianness f) (borrowed_value_expr inner_wt ''val'')))"

definition emit_field_serialize :: "codec_field \<Rightarrow> codec_field list \<Rightarrow> string \<Rightarrow> string \<Rightarrow> u32 list
    \<Rightarrow> (string \<times> u32 list) option" where
  "emit_field_serialize f all_fields indent val_prefix emitted =
     (let keep = map_option (\<lambda>s. (s, emitted));
          field_ref = prefixed_field val_prefix (cf_name f);
          bytes = (case cf_asn1_hint f of
              Some hint \<Rightarrow> emit_asn1_serialize f all_fields indent hint (''&'' @ field_ref)
            | None \<Rightarrow> Some (indent @ ''w.write_bytes('' @ field_ref @ '')?;'' @ nl))
      in case cf_strategy f of
           StPrimitive \<Rightarrow> keep (write_stmt indent f field_ref)
         | StChecksum \<Rightarrow> keep (write_stmt indent f field_ref)
         | StBitGroup \<Rightarrow>
             (case cf_bitgroup_member f of
                Some bg \<Rightarrow>
                  if bm_group_id bg \<in> set emitted then keep (Some [])
                  else map_option (\<lambda>s. (s, emitted @ [bm_group_id bg])) (emit_bitgroup_serialize all_fields indent val_prefix bg)
              | None \<Rightarrow> keep (Some []))
         | StBytesFixed \<Rightarrow> keep bytes
         | StBytesLength \<Rightarrow> keep bytes
         | StBytesRemaining \<Rightarrow> keep bytes
         | StBytesLor \<Rightarrow> keep bytes
         | StConditional \<Rightarrow> keep (emit_conditional_serialize f indent ''ref val'' field_ref)
         | StArray \<Rightarrow>
             (case cf_array_spec f of
                Some arr \<Rightarrow> keep (emit_array_serialize f arr indent val_prefix)
              | None \<Rightarrow> keep (Some []))
         | StStruct \<Rightarrow> keep (write_stmt indent f field_ref)
         | StVarInt \<Rightarrow> keep (write_stmt indent f field_ref)
         | StContVarInt \<Rightarrow> keep (write_stmt indent f field_ref))"

text \<open>The loop over the items, for any emission of a single field.\<close>

fun serialize_items_loop :: "(codec_field \<Rightarrow> u32 list \<Rightarrow> (string \<times> u32 list) option) \<Rightarrow> codec_field list \<Rightarrow> u32 list
    \<Rightarrow> codec_item list \<Rightarrow> string option" where
  "serialize_items_loop emit flds emitted [] = Some []"
| "serialize_items_loop emit flds emitted (CiField field_id # items) =
     (case find_field flds field_id of
        Some f \<Rightarrow>
          if cf_name f \<in> set (collect_asn1_length_field_names flds) then serialize_items_loop emit flds emitted items
          else Option.bind (emit f emitted) (\<lambda>(s, emitted). ocat [Some s, serialize_items_loop emit flds emitted items])
      | None \<Rightarrow> serialize_items_loop emit flds emitted items)"
| "serialize_items_loop emit flds emitted (CiDerived d # items) = serialize_items_loop emit flds emitted items"
| "serialize_items_loop emit flds emitted (CiRequire r # items) = serialize_items_loop emit flds emitted items"

definition emit_serialize_items :: "codec_field list \<Rightarrow> codec_item list \<Rightarrow> string \<Rightarrow> string \<Rightarrow> string option" where
  "emit_serialize_items flds items indent val_prefix =
     serialize_items_loop (\<lambda>f. emit_field_serialize f flds indent val_prefix) flds [] items"

section \<open>Lengths of a packet\<close>

definition div_ceil8 :: "u16 \<Rightarrow> nat" where
  "div_ceil8 n = (unat n + 7) div 8"

definition emit_field_serialized_len :: "codec_field \<Rightarrow> string \<Rightarrow> string \<Rightarrow> u32 list \<Rightarrow> string \<times> u32 list" where
  "emit_field_serialized_len f indent val_prefix emitted =
     (let keep = (\<lambda>s. (s, emitted));
          field_ref = prefixed_field val_prefix (cf_name f);
          scalar = (case wire_type_byte_width (cf_wire_type f) of Some w \<Rightarrow> (indent @ ''len += '' @ show_nat w @ '';'' @
            nl) | None \<Rightarrow> []);
          bytes = (case cf_asn1_hint f of
              Some hint \<Rightarrow> (indent @ ''len += '' @ ah_encoding hint @ ''::encode(&'' @ field_ref @ '').map(|b| b.len()).unwrap_or(0);'' @
                nl)
            | None \<Rightarrow> (indent @ ''len += '' @ field_ref @ ''.len();'' @ nl));
          varint = (case cf_ref_type_name f of
              Some ref_name \<Rightarrow> let wire_size_fn = (to_snake_case ref_name @ ''_wire_size'') in (indent @ ''len += '' @ wire_size_fn @
                ''('' @ field_ref @ '');'' @ nl)
            | None \<Rightarrow> (indent @ ''len += 8; /* varint */'' @ nl));
          nested = (indent @ ''if let Some(ref v) = '' @ field_ref @ '' { len += v.serialized_len(); }'' @ nl);
          optional_varint = (case cf_ref_type_name f of
              Some ref_name \<Rightarrow> let wire_size_fn = (to_snake_case ref_name @ ''_wire_size'')
                in (indent @ ''if let Some(ref v) = '' @ field_ref @ '' { len += '' @ wire_size_fn @ ''(*v); }'' @ nl)
            | None \<Rightarrow> (indent @ ''if '' @ field_ref @ ''.is_some() { len += 8; }'' @ nl))
      in case cf_strategy f of
           StPrimitive \<Rightarrow> keep scalar
         | StChecksum \<Rightarrow> keep scalar
         | StBitGroup \<Rightarrow>
             (case cf_bitgroup_member f of
                Some bg \<Rightarrow>
                  if bm_group_id bg \<in> set emitted then keep []
                  else ((indent @ ''len += '' @ show_nat (div_ceil8 (bm_total_bits bg)) @ '';'' @ nl), emitted @ [bm_group_id bg])
              | None \<Rightarrow> keep [])
         | StBytesFixed \<Rightarrow>
             keep (case cf_bytes_spec f of Some (BsFixed n) \<Rightarrow> (indent @ ''len += '' @ dec n @ '';'' @ nl) | _ \<Rightarrow> [])
         | StBytesLength \<Rightarrow> keep bytes
         | StBytesRemaining \<Rightarrow> keep bytes
         | StBytesLor \<Rightarrow> keep bytes
         | StConditional \<Rightarrow>
             keep (case inner_wire_type_of f of
                     WBytes \<Rightarrow> (indent @ ''if let Some(ref b) = '' @ field_ref @ '' { len += b.len(); }'' @ nl)
                   | WStruct n \<Rightarrow> nested | WFrame n \<Rightarrow> nested | WCapsule n \<Rightarrow> nested
                   | WVarInt \<Rightarrow> optional_varint | WContVarInt \<Rightarrow> optional_varint
                   | inner_wt \<Rightarrow>
                       (case wire_type_byte_width inner_wt of
                          Some w \<Rightarrow> (indent @ ''if '' @ field_ref @ ''.is_some() { len += '' @ show_nat w @ ''; }'' @ nl)
                        | None \<Rightarrow> []))
         | StArray \<Rightarrow>
             keep (case cf_array_spec f of
                     Some arr \<Rightarrow>
                       let count_ref = prefixed_count_field val_prefix (cf_name f)
                       in (case wire_type_byte_width (ar_element_wire_type arr) of
                             Some w \<Rightarrow> (indent @ ''len += '' @ count_ref @ '' * '' @ show_nat w @ '';'' @ nl)
                           | None \<Rightarrow>
                               (indent @ ''for _i in 0..'' @ count_ref @ '' {'' @ nl) @
                               (indent @ ''    len += '' @ field_ref @ ''[_i].serialized_len();'' @ nl) @
                               (indent @ ''}'' @ nl))
                   | None \<Rightarrow> [])
         | StStruct \<Rightarrow> keep (indent @ ''len += '' @ field_ref @ ''.serialized_len();'' @ nl)
         | StVarInt \<Rightarrow> keep varint
         | StContVarInt \<Rightarrow> keep varint)"

fun len_items_loop :: "(codec_field \<Rightarrow> u32 list \<Rightarrow> string \<times> u32 list) \<Rightarrow> codec_field list \<Rightarrow> u32 list \<Rightarrow> codec_item list \<Rightarrow> string" where
  "len_items_loop emit flds emitted [] = []"
| "len_items_loop emit flds emitted (CiField field_id # items) =
     (case find_field flds field_id of
        Some f \<Rightarrow> (case emit f emitted of (s, emitted) \<Rightarrow> s @ len_items_loop emit flds emitted items)
      | None \<Rightarrow> len_items_loop emit flds emitted items)"
| "len_items_loop emit flds emitted (CiDerived d # items) = len_items_loop emit flds emitted items"
| "len_items_loop emit flds emitted (CiRequire r # items) = len_items_loop emit flds emitted items"

definition emit_serialized_len_items :: "codec_field list \<Rightarrow> codec_item list \<Rightarrow> string \<Rightarrow> string \<Rightarrow> string" where
  "emit_serialized_len_items flds items indent val_prefix =
     len_items_loop (\<lambda>f. emit_field_serialized_len f indent val_prefix) flds [] items"

section \<open>Fields of a variant\<close>

fun variant_field_name :: "codec_field list \<Rightarrow> codec_item \<Rightarrow> string list" where
  "variant_field_name flds (CiField field_id) =
     (case find_field flds field_id of
        Some f \<Rightarrow> rust_ident (cf_name f) # (if cf_strategy f = StArray then [rust_count_ident (cf_name f)] else [])
      | None \<Rightarrow> [])"
| "variant_field_name flds (CiDerived d) = [rust_ident (cd_name d)]"
| "variant_field_name flds (CiRequire r) = []"

definition collect_variant_field_names :: "codec_variant_scope \<Rightarrow> string list" where
  "collect_variant_field_names v = concat (map (variant_field_name (cvs_fields v)) (cvs_items v))"

definition emit_variant_field_serialize :: "codec_field \<Rightarrow> codec_field list \<Rightarrow> string \<Rightarrow> u32 list \<Rightarrow> (string \<times> u32 list) option" where
  "emit_variant_field_serialize f all_fields indent emitted =
     (let keep = map_option (\<lambda>s. (s, emitted));
          field_name = rust_ident (cf_name f);
          count_name = rust_count_ident (cf_name f);
          scalar = map_option (\<lambda>write_expr. (indent @ ''{ let val = '' @ field_name @ ''; '' @ write_expr @ ''; }'' @ nl))
            (rust_write_expr ''w'' (cf_wire_type f) (cf_ref_type_name f) (cf_endianness f) ''*val'');
          bytes = (case cf_asn1_hint f of
              Some hint \<Rightarrow> emit_asn1_serialize f all_fields indent hint field_name
            | None \<Rightarrow> Some (indent @ ''w.write_bytes('' @ field_name @ '')?;'' @ nl))
      in case cf_strategy f of
           StPrimitive \<Rightarrow> keep scalar
         | StChecksum \<Rightarrow> keep scalar
         | StBitGroup \<Rightarrow>
             (case cf_bitgroup_member f of
                Some bg \<Rightarrow>
                  if bm_group_id bg \<in> set emitted then keep (Some [])
                  else map_option (\<lambda>s. (s, emitted @ [bm_group_id bg]))
                         (bitgroup_serialize all_fields indent (\<lambda>name. (''*'' @ rust_ident name)) bg)
              | None \<Rightarrow> keep (Some []))
         | StBytesFixed \<Rightarrow> keep bytes
         | StBytesLength \<Rightarrow> keep bytes
         | StBytesRemaining \<Rightarrow> keep bytes
         | StBytesLor \<Rightarrow> keep bytes
         | StConditional \<Rightarrow> keep (emit_conditional_serialize f indent ''val'' field_name)
         | StArray \<Rightarrow>
             (case cf_array_spec f of
                Some arr \<Rightarrow>
                  keep (ocat
                    [Some (indent @ ''for _i in 0..*'' @ count_name @ '' {'' @ nl),
                     if ar_element_strategy arr \<in> {StPrimitive, StStruct, StVarInt, StContVarInt}
                     then map_option (\<lambda>write_expr. (indent @ ''    '' @ write_expr @ '';'' @ nl))
                            (rust_write_expr ''w'' (ar_element_wire_type arr) (ar_element_ref_type_name arr) None (field_name @ ''[_i]''))
                     else Some [],
                     Some (indent @ ''}'' @ nl)])
              | None \<Rightarrow> keep (Some []))
         | StStruct \<Rightarrow> keep (write_stmt indent f field_name)
         | StVarInt \<Rightarrow> keep (write_stmt indent f (''*'' @ field_name))
         | StContVarInt \<Rightarrow> keep (write_stmt indent f (''*'' @ field_name)))"

definition emit_variant_serialize_fields :: "codec_variant_scope \<Rightarrow> string \<Rightarrow> string option" where
  "emit_variant_serialize_fields v indent =
     serialize_items_loop (\<lambda>f. emit_variant_field_serialize f (cvs_fields v) indent) (cvs_fields v) [] (cvs_items v)"

definition emit_variant_field_serialized_len :: "codec_field \<Rightarrow> string \<Rightarrow> u32 list \<Rightarrow> string \<times> u32 list" where
  "emit_variant_field_serialized_len f indent emitted =
     (let keep = (\<lambda>s. (s, emitted));
          field_name = rust_ident (cf_name f);
          count_name = rust_count_ident (cf_name f);
          scalar = (case wire_type_byte_width (cf_wire_type f) of Some w \<Rightarrow> (indent @ ''len += '' @ show_nat w @ '';'' @
            nl) | None \<Rightarrow> []);
          bytes = (case cf_asn1_hint f of
              Some hint \<Rightarrow> (indent @ ''len += '' @ ah_encoding hint @ ''::encode('' @ field_name @ '').map(|b| b.len()).unwrap_or(0);'' @
                nl)
            | None \<Rightarrow> (indent @ ''len += '' @ field_name @ ''.len();'' @ nl));
          varint = (case cf_ref_type_name f of
              Some ref_name \<Rightarrow> let wire_size_fn = (to_snake_case ref_name @ ''_wire_size'') in (indent @ ''len += '' @ wire_size_fn @
                ''(*'' @ field_name @ '');'' @ nl)
            | None \<Rightarrow> (indent @ ''len += 8; /* varint */'' @ nl));
          nested = (indent @ ''if let Some(v) = '' @ field_name @ '' { len += v.serialized_len(); }'' @ nl);
          optional_varint = (case cf_ref_type_name f of
              Some ref_name \<Rightarrow> let wire_size_fn = (to_snake_case ref_name @ ''_wire_size'')
                in (indent @ ''if let Some(v) = '' @ field_name @ '' { len += '' @ wire_size_fn @ ''(*v); }'' @ nl)
            | None \<Rightarrow> (indent @ ''if '' @ field_name @ ''.is_some() { len += 8; }'' @ nl))
      in case cf_strategy f of
           StPrimitive \<Rightarrow> keep scalar
         | StChecksum \<Rightarrow> keep scalar
         | StBitGroup \<Rightarrow>
             (case cf_bitgroup_member f of
                Some bg \<Rightarrow>
                  if bm_group_id bg \<in> set emitted then keep []
                  else ((indent @ ''len += '' @ show_nat (div_ceil8 (bm_total_bits bg)) @ '';'' @ nl), emitted @ [bm_group_id bg])
              | None \<Rightarrow> keep [])
         | StBytesFixed \<Rightarrow>
             keep (case cf_bytes_spec f of Some (BsFixed n) \<Rightarrow> (indent @ ''len += '' @ dec n @ '';'' @ nl) | _ \<Rightarrow> [])
         | StBytesLength \<Rightarrow> keep bytes
         | StBytesRemaining \<Rightarrow> keep bytes
         | StBytesLor \<Rightarrow> keep bytes
         | StConditional \<Rightarrow>
             keep (case inner_wire_type_of f of
                     WBytes \<Rightarrow> (indent @ ''if let Some(v) = '' @ field_name @ '' { len += v.len(); }'' @ nl)
                   | WStruct n \<Rightarrow> nested | WFrame n \<Rightarrow> nested | WCapsule n \<Rightarrow> nested
                   | WVarInt \<Rightarrow> optional_varint | WContVarInt \<Rightarrow> optional_varint
                   | inner_wt \<Rightarrow>
                       (case wire_type_byte_width inner_wt of
                          Some w \<Rightarrow> (indent @ ''if '' @ field_name @ ''.is_some() { len += '' @ show_nat w @ ''; }'' @ nl)
                        | None \<Rightarrow> []))
         | StArray \<Rightarrow>
             keep (case cf_array_spec f of
                     Some arr \<Rightarrow>
                       (case wire_type_byte_width (ar_element_wire_type arr) of
                          Some w \<Rightarrow> (indent @ ''len += *'' @ count_name @ '' * '' @ show_nat w @ '';'' @ nl)
                        | None \<Rightarrow>
                            (indent @ ''for _i in 0..*'' @ count_name @ '' {'' @ nl) @
                            (indent @ ''    len += '' @ field_name @ ''[_i].serialized_len();'' @ nl) @
                            (indent @ ''}'' @ nl))
                   | None \<Rightarrow> [])
         | StStruct \<Rightarrow> keep (indent @ ''len += '' @ field_name @ ''.serialized_len();'' @ nl)
         | StVarInt \<Rightarrow> keep varint
         | StContVarInt \<Rightarrow> keep varint)"

definition emit_variant_serialized_len_fields :: "codec_variant_scope \<Rightarrow> string \<Rightarrow> string" where
  "emit_variant_serialized_len_fields v indent =
     len_items_loop (\<lambda>f. emit_variant_field_serialized_len f indent) (cvs_fields v) [] (cvs_items v)"

section \<open>Frames and capsules\<close>

text \<open>The head of a match arm: the variant, with its fields bound.\<close>

definition arm_head :: "string \<Rightarrow> string \<Rightarrow> codec_variant_scope \<Rightarrow> string" where
  "arm_head indent type_path v =
     (indent @ ''    '' @ type_path @ ''::'' @ to_pascal_case (cvs_name v) @ '' { '' @ join_with '', '' (collect_variant_field_names v) @
       '' } => {'' @ nl)"

definition serialize_arm :: "string \<Rightarrow> string \<Rightarrow> codec_variant_scope \<Rightarrow> string option" where
  "serialize_arm indent type_path v =
     (if cvs_fields v = [] then Some (indent @ ''    '' @ type_path @ ''::'' @ to_pascal_case (cvs_name v) @ '' => {}'' @ nl)
      else ocat [Some (arm_head indent type_path v),
                 emit_variant_serialize_fields v (indent @ ''        ''),
                 Some (indent @ ''    }'' @ nl)])"

definition emit_frame_serialize_body :: "codec_frame \<Rightarrow> string \<Rightarrow> string option" where
  "emit_frame_serialize_body frame indent =
     ocat [map_option (\<lambda>tag_write_expr. (indent @ tag_write_expr @ '';'' @ nl))
             (rust_write_expr ''w'' (tg_wire_type (cfr_tag frame)) (tg_ref_type_name (cfr_tag frame))
               (tg_endianness (cfr_tag frame)) ''tag''),
           Some (indent @ ''match self {'' @ nl),
           omap_cat (serialize_arm indent ''Self'') (cfr_variants frame),
           Some (indent @ ''}'' @ nl)]"

definition frame_len_arm :: "codec_frame \<Rightarrow> string \<Rightarrow> codec_variant_scope \<Rightarrow> string" where
  "frame_len_arm frame indent v =
     (let inner = (indent @ ''        '');
          tag_len = variant_tag_len_stmt v (tg_wire_type (cfr_tag frame)) (tg_ref_type_name (cfr_tag frame)) inner
      in if cvs_fields v = []
         then (indent @ ''    Self::'' @ to_pascal_case (cvs_name v) @ '' => {'' @ nl) @ tag_len @ (indent @ ''    }'' @ nl)
         else arm_head indent ''Self'' v @ tag_len @ emit_variant_serialized_len_fields v inner @ (indent @ ''    }'' @ nl))"

definition emit_frame_serialized_len_body :: "codec_frame \<Rightarrow> string \<Rightarrow> string" where
  "emit_frame_serialized_len_body frame indent =
     (indent @ ''match self {'' @ nl) @ concat (map (frame_len_arm frame indent) (cfr_variants frame)) @ (indent @ ''}'' @ nl)"

definition payload_type_of :: "codec_capsule \<Rightarrow> string" where
  "payload_type_of capsule = (to_pascal_case (cca_name capsule) @ ''Payload'')"

definition emit_capsule_serialize_body :: "codec_capsule \<Rightarrow> string \<Rightarrow> string option" where
  "emit_capsule_serialize_body capsule indent =
     ocat [Some (indent @ ''match &self.payload {'' @ nl),
           omap_cat (serialize_arm indent (payload_type_of capsule)) (cca_variants capsule),
           Some (indent @ ''}'' @ nl)]"

definition capsule_len_arm :: "string \<Rightarrow> string \<Rightarrow> codec_variant_scope \<Rightarrow> string" where
  "capsule_len_arm indent payload_type v =
     (if cvs_fields v = [] then (indent @ ''    '' @ payload_type @ ''::'' @ to_pascal_case (cvs_name v) @ '' => {}'' @ nl)
      else arm_head indent payload_type v @ emit_variant_serialized_len_fields v (indent @ ''        '') @ (indent @ ''    }'' @ nl))"

definition emit_capsule_serialized_len_body :: "codec_capsule \<Rightarrow> string \<Rightarrow> string" where
  "emit_capsule_serialized_len_body capsule indent =
     (indent @ ''match &self.payload {'' @ nl) @ concat (map (capsule_len_arm indent (payload_type_of capsule)) (cca_variants capsule)) @
     (indent @ ''}'' @ nl)"

end
