(* ===== verification/RustEmit.thy ===== *)
theory RustEmit
  imports RustSer "HOL-Library.List_Lexorder" "HOL-Library.Char_ord"
begin

unbundle bit_operations_syntax

text \<open>
  The source file of a generated Rust module, \<open>crates/wirespec-backend-rust/src/emit.rs\<close>: structs,
  enums, their \<open>parse\<close>, \<open>serialize\<close> and \<open>serialized_len\<close>, variable-length integers and constants.
  The state machines are in \<open>RustMachine\<close>. Machine arithmetic of the generator is the one of a
  release build.
\<close>

section \<open>Enumerations are their underlying type\<close>

fun semantic_type_to_wire_type_simple :: "semantic_type \<Rightarrow> wire_type option" where
  "semantic_type_to_wire_type_simple (Primitive wire e) = Some (primitive_to_wire wire)"
| "semantic_type_to_wire_type_simple _ = None"

definition find_enum :: "semantic_enum list \<Rightarrow> string \<Rightarrow> semantic_enum option" where
  "find_enum enums name = List.find (\<lambda>e. se_name e = name) enums"

text \<open>The enumeration behind a field or an array element.\<close>

definition field_enum :: "semantic_enum list \<Rightarrow> codec_field \<Rightarrow> semantic_enum option" where
  "field_enum enums f =
     (case cf_wire_type f of WEnum name \<Rightarrow> if cf_strategy f = StStruct then find_enum enums name else None | _ \<Rightarrow> None)"

definition element_enum :: "semantic_enum list \<Rightarrow> codec_field \<Rightarrow> (array_spec \<times> semantic_enum) option" where
  "element_enum enums f =
     (case cf_array_spec f of
        Some arr \<Rightarrow>
          (case ar_element_wire_type arr of
             WEnum name \<Rightarrow> if cf_strategy f = StArray then map_option (\<lambda>e. (arr, e)) (find_enum enums name) else None
           | _ \<Rightarrow> None)
      | None \<Rightarrow> None)"

definition resolve_enum_field :: "semantic_enum list \<Rightarrow> codec_field \<Rightarrow> codec_field option" where
  "resolve_enum_field enums f =
     (case field_enum enums f of
        Some e \<Rightarrow>
          map_option (\<lambda>wt. f\<lparr>cf_strategy := StPrimitive, cf_wire_type := wt, cf_ref_type_name := None,
              cf_endianness := (case se_underlying_type e of Primitive w en \<Rightarrow> en | _ \<Rightarrow> cf_endianness f)\<rparr>)
            (semantic_type_to_wire_type_simple (se_underlying_type e))
      | None \<Rightarrow>
          (case element_enum enums f of
             Some (arr, e) \<Rightarrow>
               map_option (\<lambda>wt. f\<lparr>cf_array_spec := Some (arr\<lparr>ar_element_wire_type := wt, ar_element_strategy := StPrimitive,
                   ar_element_ref_type_name := None\<rparr>)\<rparr>)
                 (semantic_type_to_wire_type_simple (se_underlying_type e))
           | None \<Rightarrow> Some f))"

definition resolve_enum_fields :: "codec_field list \<Rightarrow> semantic_enum list \<Rightarrow> codec_field list option" where
  "resolve_enum_fields flds enums = those (map (resolve_enum_field enums) flds)"

definition resolve_enum_variants :: "codec_variant_scope list \<Rightarrow> semantic_enum list \<Rightarrow> codec_variant_scope list option" where
  "resolve_enum_variants variants enums =
     those (map (\<lambda>v. map_option (\<lambda>flds. v\<lparr>cvs_fields := flds\<rparr>) (resolve_enum_fields (cvs_fields v) enums)) variants)"

section \<open>Lifetimes\<close>

definition field_needs_lifetime :: "codec_field \<Rightarrow> bool" where
  "field_needs_lifetime f \<longleftrightarrow>
     (if cf_strategy f \<in> {StBytesFixed, StBytesLength, StBytesRemaining, StBytesLor} then cf_asn1_hint f = None
      else if cf_strategy f = StConditional then inner_wire_type_of f = WBytes \<or> wire_type_is_named (inner_wire_type_of f)
      else if cf_strategy f = StStruct then (case cf_wire_type f of WEnum n \<Rightarrow> False | _ \<Rightarrow> True)
      else False)"

definition fields_need_lifetime :: "codec_field list \<Rightarrow> bool" where
  "fields_need_lifetime flds \<longleftrightarrow> list_ex field_needs_lifetime flds"

definition packet_needs_lifetime :: "codec_packet \<Rightarrow> bool" where
  "packet_needs_lifetime p \<longleftrightarrow> fields_need_lifetime (cpk_fields p)"

definition frame_needs_lifetime :: "codec_frame \<Rightarrow> bool" where
  "frame_needs_lifetime f \<longleftrightarrow> list_ex (\<lambda>v. fields_need_lifetime (cvs_fields v)) (cfr_variants f)"

definition capsule_needs_lifetime :: "codec_capsule \<Rightarrow> bool" where
  "capsule_needs_lifetime c \<longleftrightarrow> fields_need_lifetime (cca_header_fields c) \<or>
     list_ex (\<lambda>v. fields_need_lifetime (cvs_fields v)) (cca_variants c)"

definition lifetime_suffix :: "bool \<Rightarrow> string" where
  "lifetime_suffix needs = (if needs then (''<'' @ apo @ ''a>'') else [])"

text \<open>The set of names is only asked for membership.\<close>

definition collect_named_types_needing_lifetime :: "codec_module \<Rightarrow> string list" where
  "collect_named_types_needing_lifetime m =
     map cpk_name (filter packet_needs_lifetime (cm_packets m)) @
     map cfr_name (filter frame_needs_lifetime (cm_frames m)) @
     map cca_name (filter capsule_needs_lifetime (cm_capsules m))"

section \<open>Types and literals\<close>

fun primitive_to_rust :: "primitive_wire_type \<Rightarrow> string" where
  "primitive_to_rust U8 = ''u8''" | "primitive_to_rust U16 = ''u16''" | "primitive_to_rust U24 = ''u32''"
| "primitive_to_rust U32 = ''u32''" | "primitive_to_rust U64 = ''u64''" | "primitive_to_rust I8 = ''i8''"
| "primitive_to_rust I16 = ''i16''" | "primitive_to_rust I32 = ''i32''" | "primitive_to_rust I64 = ''i64''"
| "primitive_to_rust Bool = ''bool''" | "primitive_to_rust Bit = ''u8''"

fun semantic_type_to_rust :: "semantic_type \<Rightarrow> string" where
  "semantic_type_to_rust (Primitive wire e) = primitive_to_rust wire"
| "semantic_type_to_rust (Bits w) = bits_type (unat w)"
| "semantic_type_to_rust (PacketRef i name) = to_pascal_case name"
| "semantic_type_to_rust (FrameRef i name) = to_pascal_case name"
| "semantic_type_to_rust (CapsuleRef i name) = to_pascal_case name"
| "semantic_type_to_rust (EnumRef i name fl) = to_pascal_case name"
| "semantic_type_to_rust (VarIntRef i name) = ''u64''"
| "semantic_type_to_rust (Array t c w) = (''Vec<'' @ semantic_type_to_rust t @ ''>'')"
| "semantic_type_to_rust (Bytes k s e) = ''Vec<u8>''"

text \<open>\<open>{:?}\<close> of a string, for ASCII text.\<close>

definition str_debug_char :: "char \<Rightarrow> string" where
  "str_debug_char c =
     (let n = of_char c :: nat
      in if n = 0 then CHR 0x5C # ''0'' else if n < 32 \<and> n \<notin> {9, 10, 13} \<or> n = 127 then ([CHR 0x5C] @ ''u{'' @ show_hex n @
        ''}'') else escape_char c)"

definition debug_str :: "string \<Rightarrow> string" where
  "debug_str s = (quo @ concat (map str_debug_char s) @ quo)"

fun semantic_literal_to_rust :: "semantic_literal \<Rightarrow> string" where
  "semantic_literal_to_rust (SLInt n) = show_int n"
| "semantic_literal_to_rust (SLBool b) = (if b then ''true'' else ''false'')"
| "semantic_literal_to_rust (SLString s) = debug_str s"
| "semantic_literal_to_rust SLNull = ''0''"

definition emit_const :: "semantic_const \<Rightarrow> string" where
  "emit_const c =
     (''pub const '' @ to_uppercase (sc_name c) @ '': '' @ semantic_type_to_rust (sc_ty c) @ '' = '' @ semantic_literal_to_rust (sc_value c) @
       '';'' @ nl)"

definition emit_enum_member :: "semantic_enum \<Rightarrow> string \<Rightarrow> semantic_enum_member \<Rightarrow> string" where
  "emit_enum_member e type_name m =
     (let const_name = (to_uppercase (to_snake_case (se_name e)) @ ''_'' @ to_uppercase (to_snake_case (sm_member_name m)))
      in (''pub const '' @ const_name @ '': '' @ type_name @ '' = '' @ show_int (sm_member_value m) @ '';'' @ nl))"

definition emit_enum :: "semantic_enum \<Rightarrow> string" where
  "emit_enum e =
     (let type_name = to_pascal_case (se_name e)
      in (''pub type '' @ type_name @ '' = '' @ semantic_type_to_rust (se_underlying_type e) @ '';'' @ nl) @
         concat (map (emit_enum_member e type_name) (se_members e)) @ nl)"

section \<open>Struct fields\<close>

definition rust_field_type :: "wire_type \<Rightarrow> string list \<Rightarrow> string" where
  "rust_field_type wt named =
     (let with_lifetime = (\<lambda>name. let type_name = to_pascal_case name
            in if name \<in> set named then (type_name @ ''<'' @ apo @ ''a>'') else type_name)
      in case wt of
           WBytes \<Rightarrow> (''&'' @ apo @ ''a [u8]'')
         | WStruct name \<Rightarrow> with_lifetime name | WFrame name \<Rightarrow> with_lifetime name | WCapsule name \<Rightarrow> with_lifetime name
         | WEnum name \<Rightarrow> to_pascal_case name
         | _ \<Rightarrow> wire_type_to_rust wt)"

text \<open>The declaration of one field; \<open>lead\<close> is the indentation with \<open>pub\<close>, or without it in a variant.\<close>

definition field_decl :: "string \<Rightarrow> string list \<Rightarrow> codec_field \<Rightarrow> string" where
  "field_decl lead named f =
     (let field_name = rust_ident (cf_name f);
          bytes = (case cf_asn1_hint f of
              Some hint \<Rightarrow> (lead @ field_name @ '': '' @ ah_type_name hint @ '','' @ nl)
            | None \<Rightarrow> (lead @ field_name @ '': &'' @ apo @ ''a [u8],'' @ nl))
      in case cf_strategy f of
           StConditional \<Rightarrow> (lead @ field_name @ '': Option<'' @ rust_field_type (inner_wire_type_of f) named @ ''>,'' @ nl)
         | StArray \<Rightarrow>
             (case cf_array_spec f of
                Some arr \<Rightarrow>
                  (lead @ field_name @ '': ['' @ rust_field_type (ar_element_wire_type arr) named @ ''; '' @ max_elems_of f @ ''],'' @ nl) @
                  (lead @ rust_count_ident (cf_name f) @ '': usize,'' @ nl)
              | None \<Rightarrow> [])
         | StBytesFixed \<Rightarrow> bytes | StBytesLength \<Rightarrow> bytes | StBytesRemaining \<Rightarrow> bytes | StBytesLor \<Rightarrow> bytes
         | StStruct \<Rightarrow> (lead @ field_name @ '': '' @ rust_field_type (cf_wire_type f) named @ '','' @ nl)
         | StVarInt \<Rightarrow> (lead @ field_name @ '': u64,'' @ nl)
         | StContVarInt \<Rightarrow> (lead @ field_name @ '': u64,'' @ nl)
         | _ \<Rightarrow> (lead @ field_name @ '': '' @ wire_type_to_rust (cf_wire_type f) @ '','' @ nl))"

definition emit_single_struct_field :: "string list \<Rightarrow> codec_field \<Rightarrow> string" where
  "emit_single_struct_field named f = field_decl ''    pub '' named f"

definition emit_variant_single_field :: "string list \<Rightarrow> codec_field \<Rightarrow> string" where
  "emit_variant_single_field named f = field_decl ''        '' named f"

fun struct_item :: "(codec_field \<Rightarrow> string) \<Rightarrow> string \<Rightarrow> codec_field list \<Rightarrow> codec_item \<Rightarrow> string" where
  "struct_item decl lead flds (CiField field_id) =
     (case find_field flds field_id of Some f \<Rightarrow> decl f | None \<Rightarrow> [])"
| "struct_item decl lead flds (CiDerived d) = (lead @ rust_ident (cd_name d) @ '': '' @ wire_type_to_rust (cd_wire_type d) @ '','' @ nl)"
| "struct_item decl lead flds (CiRequire r) = []"

definition emit_struct_fields :: "codec_field list \<Rightarrow> codec_item list \<Rightarrow> string list \<Rightarrow> string" where
  "emit_struct_fields flds items named = concat (map (struct_item (emit_single_struct_field named) ''    pub '' flds) items)"

definition emit_variant_struct_fields :: "codec_variant_scope \<Rightarrow> string list \<Rightarrow> string" where
  "emit_variant_struct_fields v named =
     concat (map (struct_item (emit_variant_single_field named) ''        '' (cvs_fields v)) (cvs_items v))"

definition emit_struct_init_fields :: "codec_field list \<Rightarrow> codec_item list \<Rightarrow> string \<Rightarrow> string" where
  "emit_struct_init_fields flds items indent = concat (map (init_field flds indent) items)"

definition default_value_expr_for_field :: "codec_field \<Rightarrow> string" where
  "default_value_expr_for_field f =
     (if cf_strategy f = StArray then ''std::array::from_fn(|_| Default::default())''
      else if cf_asn1_hint f \<noteq> None then (''panic!('' @ quo @ ''Default padding is unavailable for ASN.1-backed fields'' @ quo @ '')'')
      else ''Default::default()'')"

fun default_item :: "codec_field list \<Rightarrow> string \<Rightarrow> codec_item \<Rightarrow> string" where
  "default_item flds indent (CiField field_id) =
     (case find_field flds field_id of
        Some f \<Rightarrow> (indent @ rust_ident (cf_name f) @ '': '' @ default_value_expr_for_field f @ '','' @ nl) @
          (if cf_strategy f = StArray then (indent @ rust_count_ident (cf_name f) @ '': Default::default(),'' @ nl) else [])
      | None \<Rightarrow> [])"
| "default_item flds indent (CiDerived d) = (indent @ rust_ident (cd_name d) @ '': Default::default(),'' @ nl)"
| "default_item flds indent (CiRequire r) = []"

definition emit_default_struct_items :: "codec_field list \<Rightarrow> codec_item list \<Rightarrow> string \<Rightarrow> string" where
  "emit_default_struct_items flds items indent = concat (map (default_item flds indent) items)"

fun is_derived :: "codec_item \<Rightarrow> bool" where
  "is_derived (CiDerived d) = True"
| "is_derived _ = False"

definition variant_is_unit :: "codec_variant_scope \<Rightarrow> bool" where
  "variant_is_unit v \<longleftrightarrow> cvs_fields v = [] \<and> \<not> list_ex is_derived (cvs_items v)"

definition emit_default_enum_impl :: "string \<Rightarrow> string \<Rightarrow> codec_variant_scope list \<Rightarrow> string" where
  "emit_default_enum_impl enum_name lt variants =
     (case variants of
        [] \<Rightarrow> []
      | first_variant # _ \<Rightarrow>
          let first_name = to_pascal_case (cvs_name first_variant)
          in (''impl'' @ lt @ '' Default for '' @ enum_name @ lt @ '' {'' @ nl) @
             (''    fn default() -> Self {'' @ nl) @
             (if variant_is_unit first_variant then (''        Self::'' @ first_name @ nl)
              else (''        Self::'' @ first_name @ '' {'' @ nl) @
                emit_default_struct_items (cvs_fields first_variant) (cvs_items first_variant) ''            '' @
                (''        }'' @ nl)) @
             (''    }'' @ nl) @ (''}'' @ nl @ nl))"

definition struct_default_impl :: "string \<Rightarrow> string \<Rightarrow> string \<Rightarrow> string" where
  "struct_default_impl lt type_name body =
     (''impl'' @ lt @ '' Default for '' @ type_name @ lt @ '' {'' @ nl) @
     (''    fn default() -> Self {'' @ nl) @
     (''        Self {'' @ nl) @
     body @
     (''        }'' @ nl) @ (''    }'' @ nl) @ (''}'' @ nl @ nl)"

section \<open>Checksums\<close>

definition offset_stmt :: "codec_field list \<Rightarrow> string \<Rightarrow> string \<Rightarrow> codec_item \<Rightarrow> string" where
  "offset_stmt flds cksum_field_name stmt it =
     (case it of
        CiField field_id \<Rightarrow>
          (case find_field flds field_id of Some f \<Rightarrow> if cf_name f = cksum_field_name then stmt else [] | None \<Rightarrow> [])
      | _ \<Rightarrow> [])"

text \<open>Every item is emitted by a call of its own, with a list of emitted bit groups of its own.\<close>

definition emit_parse_items_with_cksum_tracking :: "codec_field list \<Rightarrow> codec_item list \<Rightarrow> string \<Rightarrow> string \<Rightarrow> string option" where
  "emit_parse_items_with_cksum_tracking flds items indent cksum_field_name =
     omap_cat (\<lambda>it.
         ocat [Some (offset_stmt flds cksum_field_name (indent @ ''_cksum_offset = cur.consumed() - _start;'' @ nl) it),
               emit_parse_items flds [it] indent]) items"

definition emit_serialize_items_with_cksum_tracking :: "codec_field list \<Rightarrow> codec_item list \<Rightarrow> string \<Rightarrow> string \<Rightarrow> string
    \<Rightarrow> string option" where
  "emit_serialize_items_with_cksum_tracking flds items indent val_prefix cksum_field_name =
     omap_cat (\<lambda>it.
         ocat [Some (offset_stmt flds cksum_field_name (indent @ ''_cksum_offset = w.written() - _start;'' @ nl) it),
               emit_serialize_items flds [it] indent val_prefix]) items"

definition emit_checksum_verify_rust :: "checksum_plan \<Rightarrow> string \<Rightarrow> string option" where
  "emit_checksum_verify_rust plan indent =
     (let algo = cp_algorithm_id plan
      in case map_option ck_verify_mode (lookup_algorithm algo) of
           Some ZeroSum \<Rightarrow> Some (
             (indent @ ''{'' @ nl) @
             (indent @ ''    let _cksum = '' @ algo @ ''_checksum(&cur.bytes()[_start..cur.consumed()]);'' @ nl) @
             (indent @ ''    if _cksum != 0 { return Err(Error::Checksum); }'' @ nl) @
             (indent @ ''}'' @ nl))
         | Some RecomputeCompare \<Rightarrow> Some (
             (indent @ ''{'' @ nl) @
             (indent @ ''    let _scope = &cur.bytes()[_start..cur.consumed()];'' @ nl) @
             (indent @ ''    let _computed = '' @ algo @ ''_verify(_scope, _cksum_offset, '' @ dec (cp_field_width_bytes plan) @ '');'' @ nl) @
             (indent @ ''    if '' @ cp_field_name plan @ '' != _computed { return Err(Error::Checksum); }'' @ nl) @
             (indent @ ''}'' @ nl))
         | None \<Rightarrow> None)"

definition cksum_byte_stmt :: "string \<Rightarrow> nat \<Rightarrow> nat \<Rightarrow> string" where
  "cksum_byte_stmt indent width i =
     (let shift = (width - 1 - i) * 8
      in (indent @ ''    _written[_start + _cksum_offset + '' @ show_nat i @ ''] = ((_val >> '' @ show_nat shift @ '') & 0xFF) as u8;'' @ nl))"

definition emit_checksum_compute_rust :: "checksum_plan \<Rightarrow> string \<Rightarrow> string option" where
  "emit_checksum_compute_rust plan indent =
     (let algo = cp_algorithm_id plan; width = unat (cp_field_width_bytes plan)
      in map_option (\<lambda>body. (indent @ ''// Checksum compute ('' @ algo @ '')'' @ nl) @ body)
        (case map_option ck_verify_mode (lookup_algorithm algo) of
           Some ZeroSum \<Rightarrow> Some (
             (indent @ ''{'' @ nl) @
             (indent @ ''    let _written = w.as_written_mut();'' @ nl) @
             (indent @ ''    '' @ algo @ ''_checksum_compute(&mut _written[_start..], _cksum_offset);'' @ nl) @
             (indent @ ''}'' @ nl))
         | Some RecomputeCompare \<Rightarrow> Some (
             (indent @ ''{'' @ nl) @
             (indent @ ''    let _end = w.written();'' @ nl) @
             (indent @ ''    let _written = w.as_written_mut();'' @ nl) @
             (indent @ ''    let _val = '' @ algo @ ''_compute(&mut _written[_start.._end], _cksum_offset);'' @ nl) @
             concat (map (cksum_byte_stmt indent width) [0..<width]) @
             (indent @ ''}'' @ nl))
         | None \<Rightarrow> None))"

section \<open>Packets\<close>

definition is_asn1 :: "codec_field \<Rightarrow> bool" where
  "is_asn1 f \<longleftrightarrow> cf_asn1_hint f \<noteq> None"

definition cursor_lifetime :: "bool \<Rightarrow> string" where
  "cursor_lifetime needs_lt = (if needs_lt then (''<'' @ apo @ ''a>'') else (''<'' @ apo @ ''_>''))"

definition serialized_len_note :: "bool \<Rightarrow> string" where
  "serialized_len_note has_asn1 =
     (if has_asn1 then
        (''    /// Note: for ASN.1 fields, this method encodes the payload to compute the length.'' @ nl) @
        (''    /// For best performance, use `serialize()` directly with a pre-allocated buffer.'' @ nl)
      else [])"

definition packet_parse_fn :: "codec_packet \<Rightarrow> codec_field list \<Rightarrow> string option" where
  "packet_parse_fn packet resolved_fields =
     (let plan = cpk_checksum_plan packet;
          needs_offset = (case plan of Some p \<Rightarrow> cp_input_model p = CiRecomputeWithSkippedField | None \<Rightarrow> False)
      in ocat
          [Some (''    pub fn parse(cur: &mut Cursor'' @ cursor_lifetime (packet_needs_lifetime packet) @ '') -> Result<Self> {'' @ nl),
           Some (if plan \<noteq> None then (''        let _start = cur.consumed();'' @ nl) else []),
           Some (if needs_offset then (''        let mut _cksum_offset: usize = 0;'' @ nl) else []),
           (case plan of
              Some p \<Rightarrow>
                if needs_offset
                then emit_parse_items_with_cksum_tracking resolved_fields (cpk_items packet) ''        '' (cp_field_name p)
                else emit_parse_items resolved_fields (cpk_items packet) ''        ''
            | None \<Rightarrow> emit_parse_items resolved_fields (cpk_items packet) ''        ''),
           (case plan of Some p \<Rightarrow> emit_checksum_verify_rust p ''        '' | None \<Rightarrow> Some []),
           Some (''        Ok(Self {'' @ nl),
           Some (emit_struct_init_fields resolved_fields (cpk_items packet) ''            ''),
           Some (''        })'' @ nl), Some (''    }'' @ nl @ nl)])"

definition packet_serialize_fn :: "codec_packet \<Rightarrow> codec_field list \<Rightarrow> string option" where
  "packet_serialize_fn packet resolved_fields =
     ocat [Some (''    pub fn serialize(&self, w: &mut Writer<'' @ apo @ ''_>) -> Result<()> {'' @ nl),
           (case cpk_checksum_plan packet of
              Some p \<Rightarrow>
                ocat [Some (''        let _start = w.written();'' @ nl),
                      Some (''        let mut _cksum_offset: usize = 0;'' @ nl),
                      emit_serialize_items_with_cksum_tracking resolved_fields (cpk_items packet) ''        '' ''self.''
                        (cp_field_name p)]
            | None \<Rightarrow> emit_serialize_items resolved_fields (cpk_items packet) ''        '' ''self.''),
           (case cpk_checksum_plan packet of Some p \<Rightarrow> emit_checksum_compute_rust p ''        '' | None \<Rightarrow> Some []),
           Some (''        Ok(())'' @ nl), Some (''    }'' @ nl @ nl)]"

definition packet_len_fn :: "codec_packet \<Rightarrow> codec_field list \<Rightarrow> string" where
  "packet_len_fn packet resolved_fields =
     serialized_len_note (list_ex is_asn1 resolved_fields) @
     (''    pub fn serialized_len(&self) -> usize {'' @ nl) @
     (''        let mut len = 0usize;'' @ nl) @
     emit_serialized_len_items resolved_fields (cpk_items packet) ''        '' ''self.'' @
     (''        len'' @ nl) @ (''    }'' @ nl)"

definition emit_packet :: "codec_packet \<Rightarrow> semantic_enum list \<Rightarrow> string list \<Rightarrow> string option" where
  "emit_packet packet enums named =
     (let type_name = to_pascal_case (cpk_name packet); lt = lifetime_suffix (packet_needs_lifetime packet)
      in Option.bind (resolve_enum_fields (cpk_fields packet) enums) (\<lambda>resolved_fields.
         ocat
          [Some (''#[derive(Debug, Clone, PartialEq)]'' @ nl),
           Some (''pub struct '' @ type_name @ lt @ '' {'' @ nl),
           Some (emit_struct_fields (cpk_fields packet) (cpk_items packet) named),
           Some (''}'' @ nl @ nl),
           Some (if list_ex is_asn1 (cpk_fields packet) then []
                 else struct_default_impl lt type_name
                        (emit_default_struct_items (cpk_fields packet) (cpk_items packet) ''            '')),
           Some (''impl'' @ lt @ '' '' @ type_name @ lt @ '' {'' @ nl),
           packet_parse_fn packet resolved_fields,
           packet_serialize_fn packet resolved_fields,
           Some (packet_len_fn packet resolved_fields),
           Some (''}'' @ nl @ nl)]))"

section \<open>Frames\<close>

definition frame_variant_decl :: "string list \<Rightarrow> codec_variant_scope \<Rightarrow> string" where
  "frame_variant_decl named v =
     (if variant_is_unit v then (''    '' @ to_pascal_case (cvs_name v) @ '','' @ nl)
      else (''    '' @ to_pascal_case (cvs_name v) @ '' {'' @ nl) @ emit_variant_struct_fields v named @ (''    },'' @ nl))"

definition variant_has_asn1 :: "codec_variant_scope \<Rightarrow> bool" where
  "variant_has_asn1 v \<longleftrightarrow> list_ex is_asn1 (cvs_fields v)"

definition emit_frame :: "codec_frame \<Rightarrow> semantic_enum list \<Rightarrow> string list \<Rightarrow> string option" where
  "emit_frame frame enums named =
     (let type_name = to_pascal_case (cfr_name frame);
          needs_lt = frame_needs_lifetime frame;
          lt = lifetime_suffix needs_lt;
          tag_type = wire_type_to_rust (tg_wire_type (cfr_tag frame))
      in Option.bind (resolve_enum_variants (cfr_variants frame) enums) (\<lambda>resolved_variants.
         let resolved_frame = frame\<lparr>cfr_variants := resolved_variants\<rparr>
         in ocat
          [Some (''#[derive(Debug, Clone, PartialEq)]'' @ nl),
           Some (''pub enum '' @ type_name @ lt @ '' {'' @ nl),
           Some (concat (map (frame_variant_decl named) (cfr_variants frame))),
           Some (''}'' @ nl @ nl),
           Some (if list_ex variant_has_asn1 (cfr_variants frame) then []
                 else emit_default_enum_impl type_name lt (cfr_variants frame)),
           Some (''impl'' @ lt @ '' '' @ type_name @ lt @ '' {'' @ nl),
           Some (''    pub fn parse(cur: &mut Cursor'' @ cursor_lifetime needs_lt @ '') -> Result<(Self, '' @ tag_type @ '')> {'' @ nl),
           emit_frame_parse_body resolved_frame ''        '',
           Some (''    }'' @ nl @ nl),
           Some (''    pub fn serialize(&self, tag: '' @ tag_type @ '', w: &mut Writer<'' @ apo @ ''_>) -> Result<()> {'' @ nl),
           emit_frame_serialize_body resolved_frame ''        '',
           Some (''        Ok(())'' @ nl),
           Some (''    }'' @ nl @ nl),
           Some (serialized_len_note (list_ex variant_has_asn1 resolved_variants)),
           Some (''    pub fn serialized_len(&self) -> usize {'' @ nl),
           Some (''        let mut len = 0usize;'' @ nl),
           Some (emit_frame_serialized_len_body resolved_frame ''        ''),
           Some (''        len'' @ nl), Some (''    }'' @ nl), Some (''}'' @ nl @ nl)]))"

section \<open>Capsules\<close>

definition capsule_variant_decl :: "string list \<Rightarrow> codec_variant_scope \<Rightarrow> string" where
  "capsule_variant_decl named v =
     (if cvs_fields v = [] then (''    '' @ to_pascal_case (cvs_name v) @ '','' @ nl)
      else (''    '' @ to_pascal_case (cvs_name v) @ '' {'' @ nl) @ emit_variant_struct_fields v named @ (''    },'' @ nl))"

definition emit_capsule :: "codec_capsule \<Rightarrow> semantic_enum list \<Rightarrow> string list \<Rightarrow> string option" where
  "emit_capsule capsule enums named =
     (let type_name = to_pascal_case (cca_name capsule);
          needs_lt = capsule_needs_lifetime capsule;
          lt = lifetime_suffix needs_lt;
          has_asn1 = list_ex is_asn1 (cca_header_fields capsule) \<or> list_ex variant_has_asn1 (cca_variants capsule)
      in Option.bind (resolve_enum_fields (cca_header_fields capsule) enums) (\<lambda>resolved_header_fields.
         Option.bind (resolve_enum_variants (cca_variants capsule) enums) (\<lambda>resolved_variants.
         let resolved_capsule = capsule\<lparr>cca_header_fields := resolved_header_fields, cca_variants := resolved_variants\<rparr>
         in ocat
          [Some (''#[derive(Debug, Clone, PartialEq)]'' @ nl),
           Some (''pub struct '' @ type_name @ lt @ '' {'' @ nl),
           Some (emit_struct_fields (cca_header_fields capsule) (cca_header_items capsule) named),
           Some (''    pub payload: '' @ type_name @ ''Payload'' @ lt @ '','' @ nl),
           Some (''}'' @ nl @ nl),
           Some (''#[derive(Debug, Clone, PartialEq)]'' @ nl),
           Some (''pub enum '' @ type_name @ ''Payload'' @ lt @ '' {'' @ nl),
           Some (concat (map (capsule_variant_decl named) (cca_variants capsule))),
           Some (''}'' @ nl @ nl),
           Some (if has_asn1 then []
                 else struct_default_impl lt type_name
                        (emit_default_struct_items (cca_header_fields capsule) (cca_header_items capsule) ''            '' @
                         (''            payload: Default::default(),'' @ nl)) @
                      emit_default_enum_impl (type_name @ ''Payload'') lt (cca_variants capsule)),
           Some (''impl'' @ lt @ '' '' @ type_name @ lt @ '' {'' @ nl),
           Some (''    pub fn parse(cur: &mut Cursor'' @ cursor_lifetime needs_lt @ '') -> Result<Self> {'' @ nl),
           emit_capsule_parse_body resolved_capsule ''        '',
           Some (''    }'' @ nl @ nl),
           Some (''    pub fn serialize(&self, w: &mut Writer<'' @ apo @ ''_>) -> Result<()> {'' @ nl),
           emit_serialize_items resolved_header_fields (cca_header_items capsule) ''        '' ''self.'',
           emit_capsule_serialize_body resolved_capsule ''        '',
           Some (''        Ok(())'' @ nl),
           Some (''    }'' @ nl @ nl),
           Some (serialized_len_note (list_ex is_asn1 resolved_header_fields \<or> list_ex variant_has_asn1 resolved_variants)),
           Some (''    pub fn serialized_len(&self) -> usize {'' @ nl),
           Some (''        let mut len = 0usize;'' @ nl),
           Some (emit_serialized_len_items resolved_header_fields (cca_header_items capsule) ''        '' ''self.''),
           Some (emit_capsule_serialized_len_body resolved_capsule ''        ''),
           Some (''        len'' @ nl), Some (''    }'' @ nl), Some (''}'' @ nl @ nl)])))"

section \<open>Variable-length integers\<close>

definition vi_is_strict :: "semantic_varint \<Rightarrow> bool" where
  "vi_is_strict vi \<longleftrightarrow> vi_strict vi \<and> length (vi_branches vi) > 1"

definition vi_prefix_width :: "semantic_varint \<Rightarrow> u32" where
  "vi_prefix_width vi = (case vi_prefix_bits vi of Some n \<Rightarrow> ucast n | None \<Rightarrow> 2)"

text \<open>\<open>(1u16 << n) as u8 - 1\<close>.\<close>

definition low_mask :: "nat \<Rightarrow> u8" where
  "low_mask n = ucast (push_bit (n mod 16) (1 :: u16)) - 1"

definition branch_parse_arm :: "semantic_varint \<Rightarrow> semantic_varint_branch \<Rightarrow> string" where
  "branch_parse_arm vi b =
     (let total_bytes = ucast (vb_total_bytes b) :: u32;
          mask = show_hex2 (unat (low_mask (unat (8 - ucast (vi_prefix_width vi) :: u8))))
      in (''        '' @ dec (vb_prefix_value b) @ '' => {'' @ nl) @
         (if total_bytes = 1 then (''            let val = (first & 0x'' @ mask @ '') as u64;'' @ nl)
          else (''            let mut val = ((first & 0x'' @ mask @ '') as u64) << '' @ dec ((total_bytes - 1) * 8) @ '';'' @ nl) @
            concat (map (\<lambda>i. (''            val |= (cur.read_u8()? as u64) << '' @ dec ((total_bytes - 1 - of_nat i) * 8) @ '';'' @ nl))
              [1..<unat total_bytes])) @
         (if vi_is_strict vi then (''            val'' @ nl) else (''            Ok(val)'' @ nl)) @
         (''        }'' @ nl))"

definition strict_check :: "semantic_varint_branch list \<Rightarrow> nat \<Rightarrow> string" where
  "strict_check branches i =
     (''    if prefix == '' @ dec (vb_prefix_value (branches ! i)) @ '' && val <= '' @ dec (vb_max_value (branches ! (i - 1))) @
       '' { return Err(Error::Noncanonical); }'' @ nl)"

definition varint_prefix_parse_fn :: "semantic_varint \<Rightarrow> string \<Rightarrow> string" where
  "varint_prefix_parse_fn vi snake =
     (''pub fn '' @ snake @ ''_parse(cur: &mut Cursor<'' @ apo @ ''_>) -> Result<u64> {'' @ nl) @
     (''    let first = cur.read_u8()?;'' @ nl) @
     (''    let prefix = first >> '' @ dec (8 - vi_prefix_width vi) @ '';'' @ nl) @
     (if vi_is_strict vi then (''    let val = match prefix {'' @ nl) else (''    match prefix {'' @ nl)) @
     concat (map (branch_parse_arm vi) (vi_branches vi)) @
     (if vi_is_strict vi then
        (''        _ => { return Err(Error::InvalidTag); }'' @ nl) @
        (''    };'' @ nl) @
        (''    // @strict: reject non-canonical encodings'' @ nl) @
        concat (map (strict_check (vi_branches vi)) [1..<length (vi_branches vi)]) @
        (''    Ok(val)'' @ nl)
      else (''        _ => Err(Error::InvalidTag),'' @ nl) @ (''    }'' @ nl)) @
     (''}'' @ nl @ nl)"

definition branch_serialize_arm :: "semantic_varint \<Rightarrow> nat \<times> semantic_varint_branch \<Rightarrow> string" where
  "branch_serialize_arm vi ib =
     (case ib of (i, b) \<Rightarrow>
       let total_bytes = ucast (vb_total_bytes b) :: u32;
           prefix_byte = show_hex2 (unat (push_bit (unat (8 - vi_prefix_width vi) mod 8) (ucast (vb_prefix_value b) :: u8)))
       in (if i = 0 then (''    if val <= '' @ dec (vb_max_value b)) else (''    } else if val <= '' @ dec (vb_max_value b))) @ ('' {'' @ nl) @
          (if total_bytes = 1 then (''        w.write_u8(0x'' @ prefix_byte @ '' | (val as u8))?;'' @ nl)
           else (''        w.write_u8(0x'' @ prefix_byte @ '' | ((val >> '' @ dec ((total_bytes - 1) * 8) @ '') as u8))?;'' @ nl) @
             concat (map (\<lambda>j. let shift = (total_bytes - 1 - of_nat j) * 8
                 in if shift = 0 then (''        w.write_u8(val as u8)?;'' @ nl)
                    else (''        w.write_u8((val >> '' @ dec shift @ '') as u8)?;'' @ nl))
               [1..<unat total_bytes])))"

definition varint_prefix_serialize_fn :: "semantic_varint \<Rightarrow> string \<Rightarrow> string" where
  "varint_prefix_serialize_fn vi snake =
     (''pub fn '' @ snake @ ''_serialize(val: u64, w: &mut Writer<'' @ apo @ ''_>) -> Result<()> {'' @ nl) @
     concat (map (branch_serialize_arm vi) (enumerate 0 (vi_branches vi))) @
     (if vi_branches vi \<noteq> [] then
        (''    } else {'' @ nl) @ (''        return Err(Error::Overflow);'' @ nl) @ (''    }'' @ nl) else []) @
     (''    Ok(())'' @ nl) @ (''}'' @ nl @ nl)"

definition branch_size_arm :: "nat \<times> semantic_varint_branch \<Rightarrow> string" where
  "branch_size_arm ib =
     (case ib of (i, b) \<Rightarrow>
       (if i = 0 then (''    if val <= '') else (''    else if val <= '')) @ (dec (vb_max_value b) @ '' { '' @ dec (vb_total_bytes b) @ '' }'' @ nl))"

definition varint_prefix_size_fn :: "semantic_varint \<Rightarrow> string \<Rightarrow> string" where
  "varint_prefix_size_fn vi snake =
     (''pub fn '' @ snake @ ''_wire_size(val: u64) -> usize {'' @ nl) @
     concat (map branch_size_arm (enumerate 0 (vi_branches vi))) @
     (''    else { '' @ dec (vi_max_bytes vi) @ '' }'' @ nl) @ (''}'' @ nl @ nl)"

definition emit_varint_prefix_match :: "semantic_varint \<Rightarrow> string \<Rightarrow> string" where
  "emit_varint_prefix_match vi snake =
     varint_prefix_parse_fn vi snake @ varint_prefix_serialize_fn vi snake @ varint_prefix_size_fn vi snake"

definition emit_varint_continuation_bit :: "semantic_varint \<Rightarrow> string \<Rightarrow> string" where
  "emit_varint_continuation_bit vi snake =
     (let value_bits = (case vi_value_bits_per_byte vi of Some n \<Rightarrow> ucast n | None \<Rightarrow> 7) :: u32;
          max_bytes = dec (vi_max_bytes vi);
          value_mask = low_mask (unat value_bits);
          vm = show_hex2 (unat value_mask);
          km = show_hex2 (unat (NOT value_mask))
      in (''pub fn '' @ snake @ ''_parse(cur: &mut Cursor<'' @ apo @ ''_>) -> Result<u64> {'' @ nl) @
         (''    let mut value: u64 = 0;'' @ nl) @
         (''    let mut shift: u32 = 0;'' @ nl) @
         (''    for _ in 0..'' @ max_bytes @ '' {'' @ nl) @
         (''        let byte = cur.read_u8()?;'' @ nl) @
         (''        let chunk = (byte & 0x'' @ vm @ '') as u64;'' @ nl) @
         (''        value |= chunk << shift;'' @ nl) @
         (''        if (byte & 0x'' @ km @ '') == 0 { return Ok(value); }'' @ nl) @
         (''        shift += '' @ dec value_bits @ '';'' @ nl) @
         (''    }'' @ nl) @
         (''    Err(Error::Overflow)'' @ nl) @
         (''}'' @ nl @ nl) @
         (''pub fn '' @ snake @ ''_serialize(mut val: u64, w: &mut Writer<'' @ apo @ ''_>) -> Result<()> {'' @ nl) @
         (''    for _ in 0..'' @ max_bytes @ '' {'' @ nl) @
         (''        let mut byte = (val & 0x'' @ vm @ '') as u8;'' @ nl) @
         (''        val >>= '' @ dec value_bits @ '';'' @ nl) @
         (''        if val != 0 { byte |= 0x'' @ km @ ''; }'' @ nl) @
         (''        w.write_u8(byte)?;'' @ nl) @
         (''        if val == 0 { return Ok(()); }'' @ nl) @
         (''    }'' @ nl) @
         (''    Err(Error::Overflow)'' @ nl) @
         (''}'' @ nl @ nl) @
         (''pub fn '' @ snake @ ''_wire_size(val: u64) -> usize {'' @ nl) @
         (''    let mut v = val;'' @ nl) @
         (''    let mut n = 1usize;'' @ nl) @
         (''    while v >= (1u64 << '' @ dec value_bits @ '') && n < '' @ max_bytes @ '' {'' @ nl) @
         (''        v >>= '' @ dec value_bits @ '';'' @ nl) @
         (''        n += 1;'' @ nl) @
         (''    }'' @ nl) @
         (''    n'' @ nl) @
         (''}'' @ nl @ nl))"

definition emit_varint :: "semantic_varint \<Rightarrow> string" where
  "emit_varint vi =
     (let snake = to_snake_case (vi_name vi)
      in case vi_encoding vi of
           PrefixMatch \<Rightarrow> emit_varint_prefix_match vi snake
         | ContinuationBit \<Rightarrow> emit_varint_continuation_bit vi snake)"

end
