(* ===== verification/RustMachine.thy ===== *)
theory RustMachine
  imports RustEmit
begin

text \<open>
  State machines of a generated Rust module, and the module itself (\<open>emit.rs\<close>, \<open>lib.rs\<close> of
  \<open>crates/wirespec-backend-rust/src\<close>): the state and event enums, the constructor, and \<open>dispatch\<close>, a match on
  the pair of state and event.
\<close>

section \<open>Expressions of a transition\<close>

datatype sm_expr_mode = ModeValue | ModeBorrow

definition find_state_definition :: "semantic_state list \<Rightarrow> string \<Rightarrow> string \<Rightarrow> string \<Rightarrow> semantic_state option" where
  "find_state_definition ss mname state_id state_name =
     (let expected_state_id = (''sm:'' @ mname @ ''/state:'' @ state_name)
      in case List.find (\<lambda>s. state_id \<noteq> [] \<and> sst_state_id s = state_id) ss of
           Some s \<Rightarrow> Some s
         | None \<Rightarrow>
             (case List.find (\<lambda>s. sst_state_id s = expected_state_id) ss of
                Some s \<Rightarrow> Some s
              | None \<Rightarrow> List.find (\<lambda>s. sst_name s = state_name) ss))"

text \<open>The pattern of a state without its fields.\<close>

definition state_pattern :: "semantic_state list \<Rightarrow> string \<Rightarrow> string \<Rightarrow> string \<Rightarrow> string" where
  "state_pattern ss mname state_id state_name =
     (let path = (to_pascal_case mname @ ''::'' @ to_pascal_case state_name)
      in case find_state_definition ss mname state_id state_name of
           Some s \<Rightarrow> if sst_fields s \<noteq> [] then (path @ '' { .. }'') else path
         | None \<Rightarrow> path)"

fun sm_literal_to_rust :: "semantic_literal \<Rightarrow> string" where
  "sm_literal_to_rust (SLInt n) = (if n < 0 then (''('' @ show_int n @ '')'') else show_int n)"
| "sm_literal_to_rust (SLBool b) = (if b then ''true'' else ''false'')"
| "sm_literal_to_rust (SLString s) = debug_str s"
| "sm_literal_to_rust SLNull = ''0''"

definition peer_ref_to_rust :: "sm_expr_mode \<Rightarrow> transition_peer_ref \<Rightarrow> string" where
  "peer_ref_to_rust mode r =
     (if pr_path r = [] then ''()''
      else let field_name = rust_ident (last (pr_path r))
        in if pr_peer r = Dst \<or> mode = ModeBorrow then field_name else (field_name @ ''.clone()''))"

fun sm_expr_to_rust_mode :: "semantic_state list \<Rightarrow> sm_expr_mode \<Rightarrow> semantic_expr \<Rightarrow> string" where
  "sm_expr_to_rust_mode ss mode (SLiteral v) = sm_literal_to_rust v"
| "sm_expr_to_rust_mode ss mode (STransitionPeerRef r) = peer_ref_to_rust mode r"
| "sm_expr_to_rust_mode ss mode (SValueRef r) = rust_ident (vr_value_id r)"
| "sm_expr_to_rust_mode ss mode (SBinary op l r) =
     (''('' @ sm_expr_to_rust_mode ss ModeValue l @ '' '' @ rust_binary_op op @ '' '' @ sm_expr_to_rust_mode ss ModeValue r @ '')'')"
| "sm_expr_to_rust_mode ss mode (SUnary op e) = (''('' @ op @ sm_expr_to_rust_mode ss ModeValue e @ '')'')"
| "sm_expr_to_rust_mode ss mode (SSubscript b i) =
     (let get_expr = (sm_expr_to_rust_mode ss ModeBorrow b @ ''.get(('' @ sm_expr_to_rust_mode ss ModeValue i @
       '') as usize).ok_or(Error::InvalidState)?'')
      in case mode of ModeValue \<Rightarrow> (''('' @ get_expr @ '').clone()'') | ModeBorrow \<Rightarrow> get_expr)"
| "sm_expr_to_rust_mode ss mode (SCoalesce e d) =
     (sm_expr_to_rust_mode ss ModeValue e @ ''.unwrap_or('' @ sm_expr_to_rust_mode ss ModeValue d @ '')'')"
| "sm_expr_to_rust_mode ss mode (SInState e sm_id mname state_id state_name) =
     (''matches!('' @ sm_expr_to_rust_mode ss ModeBorrow e @ '', '' @ state_pattern ss mname state_id state_name @ '')'')"
| "sm_expr_to_rust_mode ss mode (SStateConstructor sm_id mname state_id state_name args) =
     (let path = (to_pascal_case mname @ ''::'' @ to_pascal_case state_name);
          arg_strs = map (sm_expr_to_rust_mode ss ModeValue) args
      in if args = [] then path
         else case find_state_definition ss mname state_id state_name of
                Some s \<Rightarrow>
                  let flds = map (\<lambda>(name, v). (name @ '': '' @ v)) (zip (map (\<lambda>f. rust_ident (stf_name f)) (sst_fields s)) arg_strs)
                  in (path @ '' { '' @ join_with '', '' flds @ '' }'')
              | None \<Rightarrow> (path @ '' { /* args: '' @ join_with '', '' arg_strs @ '' */ }''))"
| "sm_expr_to_rust_mode ss mode (SFill v c) =
     (''vec!['' @ sm_expr_to_rust_mode ss ModeValue v @ ''; '' @ sm_expr_to_rust_mode ss ModeValue c @ '']'')"
| "sm_expr_to_rust_mode ss mode (SSlice b s e) =
     (let slice = (sm_expr_to_rust_mode ss ModeBorrow b @ ''.get(('' @ sm_expr_to_rust_mode ss ModeValue s @ '') as usize..('' @
       sm_expr_to_rust_mode ss ModeValue e @ '') as usize).ok_or(Error::InvalidState)?'')
      in case mode of ModeValue \<Rightarrow> (''('' @ slice @ '').to_vec()'') | ModeBorrow \<Rightarrow> (''&('' @ slice @ '')''))"
| "sm_expr_to_rust_mode ss mode (SAll c sm_id mname state_id state_name) =
     (''('' @ sm_expr_to_rust_mode ss ModeBorrow c @ '').iter().all(|_ai| matches!(_ai, '' @ state_pattern ss mname state_id state_name @ ''))'')"

definition sm_expr_to_rust_ctx :: "semantic_state list \<Rightarrow> semantic_expr \<Rightarrow> string" where
  "sm_expr_to_rust_ctx ss e = sm_expr_to_rust_mode ss ModeValue e"

section \<open>Actions\<close>

definition compound_op :: "string \<Rightarrow> string option" where
  "compound_op op =
     (if op = ''+='' then Some ''+'' else if op = ''-='' then Some ''-'' else if op = ''*='' then Some ''*''
      else if op = ''/='' then Some ''/'' else None)"

fun find_action_for_field :: "semantic_action list \<Rightarrow> string \<Rightarrow> semantic_state list \<Rightarrow> string option" where
  "find_action_for_field [] field_name ss = None"
| "find_action_for_field (a # as) field_name ss =
     (case sac_target a of
        STransitionPeerRef r \<Rightarrow>
          if pr_peer r = Dst \<and> pr_path r \<noteq> [] \<and> last (pr_path r) = field_name
          then (let value_str = sm_expr_to_rust_ctx ss (sac_value a); field_ident = rust_ident field_name
                in Some (case compound_op (sac_op a) of
                           Some op \<Rightarrow> (''(*'' @ field_ident @ '' '' @ op @ '' '' @ value_str @ '')'')
                         | None \<Rightarrow> value_str))
          else find_action_for_field as field_name ss
      | _ \<Rightarrow> find_action_for_field as field_name ss)"

definition post_action :: "string \<Rightarrow> semantic_state list \<Rightarrow> semantic_action \<Rightarrow> string" where
  "post_action dst_state_name ss a =
     (case sac_target a of
        SSubscript (STransitionPeerRef r) index \<Rightarrow>
          if pr_peer r \<noteq> Dst \<or> pr_path r = [] then []
          else let field_name = rust_ident (last (pr_path r));
                   index_expr = sm_expr_to_rust_ctx ss index;
                   value_expr = sm_expr_to_rust_ctx ss (sac_value a);
                   assigned_expr = (case compound_op (sac_op a) of
                       Some op \<Rightarrow> (field_name @ ''.get(_idx).ok_or(Error::InvalidState)?.clone() '' @ op @ '' '' @ value_expr)
                     | None \<Rightarrow> value_expr)
            in (''                if let Self::'' @ dst_state_name @ '' { ref mut '' @ field_name @ '', .. } = new_state {'' @ nl) @
               (''                    let _idx = ('' @ index_expr @ '') as usize;'' @ nl) @
               (''                    *'' @ field_name @ ''.get_mut(_idx).ok_or(Error::InvalidState)? = '' @ assigned_expr @ '';'' @ nl) @
               (''                }'' @ nl)
      | _ \<Rightarrow> [])"

definition emit_post_construction_actions :: "semantic_action list \<Rightarrow> string \<Rightarrow> semantic_state list \<Rightarrow> string" where
  "emit_post_construction_actions actions dst_state_name ss = concat (map (post_action dst_state_name ss) actions)"

definition is_sm_field_copy_type :: "semantic_state_field \<Rightarrow> bool" where
  "is_sm_field_copy_type f \<longleftrightarrow> stf_child_sm_name f = None \<and>
     (case stf_ty f of Primitive w e \<Rightarrow> True | Bits n \<Rightarrow> True | _ \<Rightarrow> False)"

fun extract_delegate_child_field :: "semantic_expr \<Rightarrow> string option" where
  "extract_delegate_child_field (STransitionPeerRef r) =
     (if pr_peer r = Src \<and> pr_path r \<noteq> [] then Some (hd (pr_path r)) else None)"
| "extract_delegate_child_field (SSubscript b i) = extract_delegate_child_field b"
| "extract_delegate_child_field _ = None"

section \<open>State and event enums\<close>

definition sm_field_type_to_rust :: "semantic_state_field \<Rightarrow> string" where
  "sm_field_type_to_rust f =
     (case (stf_ty f, stf_child_sm_name f) of
        (Array t c w, Some child_sm) \<Rightarrow> (''Vec<'' @ to_pascal_case child_sm @ ''>'')
      | (Array t c w, None) \<Rightarrow> (''Vec<'' @ semantic_type_to_rust t @ ''>'')
      | (_, Some child_sm) \<Rightarrow> to_pascal_case child_sm
      | (ty, None) \<Rightarrow> semantic_type_to_rust ty)"

definition variant_decl :: "string \<Rightarrow> (string \<times> string) list \<Rightarrow> string" where
  "variant_decl name flds =
     (if flds = [] then (''    '' @ name @ '','' @ nl)
      else (''    '' @ name @ '' {'' @ nl) @ concat (map (\<lambda>(fname, ty). (''        '' @ rust_ident fname @ '': '' @ ty @ '','' @ nl)) flds) @
        (''    },'' @ nl))"

definition state_enum :: "semantic_state_machine \<Rightarrow> string" where
  "state_enum sm =
     (''#[derive(Debug, Clone, PartialEq)]'' @ nl) @
     (''pub enum '' @ to_pascal_case (ssm_name sm) @ '' {'' @ nl) @
     concat (map (\<lambda>s. variant_decl (to_pascal_case (sst_name s))
         (map (\<lambda>f. (stf_name f, sm_field_type_to_rust f)) (sst_fields s))) (ssm_states sm)) @
     (''}'' @ nl @ nl)"

definition event_enum :: "semantic_state_machine \<Rightarrow> string" where
  "event_enum sm =
     (if ssm_events sm = [] then []
      else (''#[derive(Debug, Clone, PartialEq)]'' @ nl) @
        (''pub enum '' @ to_pascal_case (ssm_name sm) @ ''Event {'' @ nl) @
        concat (map (\<lambda>ev. variant_decl (to_pascal_case (sev_name ev))
            (map (\<lambda>p. (sep_name p, semantic_type_to_rust (sep_ty p))) (sev_params ev))) (ssm_events sm)) @
        (''}'' @ nl @ nl))"

definition initial_value :: "semantic_state_field \<Rightarrow> string" where
  "initial_value f =
     (case stf_default_value f of
        Some lit \<Rightarrow> semantic_literal_to_rust lit
      | None \<Rightarrow>
          (case stf_child_sm_name f of
             Some child_sm \<Rightarrow> (case stf_ty f of Array t c w \<Rightarrow> ''Vec::new()'' | _ \<Rightarrow> (to_pascal_case child_sm @
               ''::new()''))
           | None \<Rightarrow> ''0''))"

definition new_fn :: "semantic_state_machine \<Rightarrow> string" where
  "new_fn sm =
     (case List.find (\<lambda>s. sst_state_id s = ssm_initial_state_id sm) (ssm_states sm) of
        None \<Rightarrow> []
      | Some s \<Rightarrow>
          let initial_name = to_pascal_case (sst_name s)
          in (''    pub fn new() -> Self {'' @ nl) @
             (if sst_fields s = [] then (''        Self::'' @ initial_name @ nl)
              else (''        Self::'' @ initial_name @ '' {'' @ nl) @
                concat (map (\<lambda>f. (''            '' @ rust_ident (stf_name f) @ '': '' @ initial_value f @ '','' @ nl)) (sst_fields s)) @
                (''        }'' @ nl)) @
             (''    }'' @ nl @ nl))"

section \<open>Dispatch\<close>

definition find_state_by_id :: "semantic_state_machine \<Rightarrow> string \<Rightarrow> semantic_state option" where
  "find_state_by_id sm state_id = List.find (\<lambda>s. sst_state_id s = state_id) (ssm_states sm)"

definition find_event_by_id :: "semantic_state_machine \<Rightarrow> string \<Rightarrow> semantic_event option" where
  "find_event_by_id sm event_id = List.find (\<lambda>e. sev_event_id e = event_id) (ssm_events sm)"

definition src_pattern :: "string \<Rightarrow> semantic_state option \<Rightarrow> string" where
  "src_pattern src_state_name src =
     (case src of
        Some s \<Rightarrow>
          if sst_fields s = [] then (''Self::'' @ src_state_name)
          else (''Self::'' @ src_state_name @ '' { '' @ join_with '', '' (map (\<lambda>f. rust_ident (stf_name f)) (sst_fields s)) @ '' }'')
      | None \<Rightarrow> (''Self::'' @ src_state_name))"

definition event_pattern :: "string \<Rightarrow> string \<Rightarrow> semantic_event option \<Rightarrow> string" where
  "event_pattern mname event_name ev =
     (case ev of
        Some e \<Rightarrow>
          if sev_params e = [] then (mname @ ''Event::'' @ event_name)
          else (mname @ ''Event::'' @ event_name @ '' { '' @ join_with '', '' (map (\<lambda>p. rust_ident (sep_name p)) (sev_params e)) @ '' }'')
      | None \<Rightarrow> (mname @ ''Event::'' @ event_name))"

text \<open>The arms that turn an ordinal into an event of the child; none when the child's events have
  parameters.\<close>

definition event_conversion :: "semantic_state_machine list \<Rightarrow> string \<Rightarrow> bool \<Rightarrow> string option" where
  "event_conversion all_sms child_sm integer_like =
     (if integer_like then
        (case List.find (\<lambda>s. ssm_name s = child_sm) all_sms of
           Some child_def \<Rightarrow>
             if list_all (\<lambda>ev. sev_params ev = []) (ssm_events child_def)
             then Some (concat (map (\<lambda>(ordinal, ev).
                 (''                        '' @ show_nat ordinal @ '' => '' @ to_pascal_case child_sm @ ''Event::'' @ to_pascal_case (sev_name ev) @
                   '','' @ nl))
               (enumerate 0 (ssm_events child_def))))
             else Some []
         | None \<Rightarrow> None)
      else None)"

definition delegate_index :: "semantic_state list \<Rightarrow> semantic_event option \<Rightarrow> semantic_expr \<Rightarrow> string" where
  "delegate_index ss event_def target =
     (case target of
        SSubscript b index \<Rightarrow>
          (case index of
             SValueRef r \<Rightarrow>
               if (case event_def of Some ev \<Rightarrow> vr_value_id r \<in> set (map sep_name (sev_params ev)) | None \<Rightarrow> False)
               then (rust_ident (vr_value_id r) @ ''.clone()'')
               else sm_expr_to_rust_ctx ss index
           | _ \<Rightarrow> sm_expr_to_rust_ctx ss index)
      | _ \<Rightarrow> ''0'')"

text \<open>The call of the child's \<open>dispatch\<close>, on the place \<open>child\<close>.\<close>

definition forward_event :: "string option \<Rightarrow> bool \<Rightarrow> string \<Rightarrow> string \<Rightarrow> string" where
  "forward_event conversion runtime_error event_param child =
     (if runtime_error then (''                    return Err(Error::InvalidState);'' @ nl)
      else case conversion of
             Some arms \<Rightarrow>
               (''                    let _child_event = match '' @ event_param @ ''.clone() {'' @ nl) @
               arms @
               (''                        _ => return Err(Error::InvalidState),'' @ nl) @
               (''                    };'' @ nl) @
               (''                    '' @ child @ ''.dispatch(&_child_event)?;'' @ nl)
           | None \<Rightarrow> (''                    '' @ child @ ''.dispatch('' @ event_param @ '')?;'' @ nl))"

definition is_subscript :: "semantic_expr \<Rightarrow> bool" where
  "is_subscript e = (case e of SSubscript b i \<Rightarrow> True | _ \<Rightarrow> False)"

definition emit_delegate :: "semantic_state_machine \<Rightarrow> semantic_state_machine list \<Rightarrow> semantic_state list \<Rightarrow> semantic_transition
    \<Rightarrow> semantic_delegate \<Rightarrow> string" where
  "emit_delegate sm all_sms ss t delegate =
     (let mname = to_pascal_case (ssm_name sm);
          src_state_name = to_pascal_case (str_src_state_name t);
          event_def = find_event_by_id sm (str_event_id t);
          child_field = extract_delegate_child_field (sdg_target delegate);
          child_sm = Option.bind child_field (\<lambda>fname. Option.bind (find_state_by_id sm (str_src_state_id t)) (\<lambda>s.
            Option.bind (List.find (\<lambda>f. stf_name f = fname) (sst_fields s)) stf_child_sm_name))
      in (''                // delegate: auto-copy + forward to child SM'' @ nl) @
         (''                let mut new_state = self.clone();'' @ nl) @
         (case (child_field, child_sm) of
            (Some field_name, Some child_sm_str) \<Rightarrow>
              let event_param = rust_ident (sdg_event_name delegate);
                  is_indexed = is_subscript (sdg_target delegate);
                  integer_like = (case Option.bind event_def (\<lambda>ev. List.find (\<lambda>p. sep_name p = event_param) (sev_params ev)) of
                      Some p \<Rightarrow> is_integer_like (sep_ty p) | None \<Rightarrow> False);
                  child = rust_ident field_name;
                  conversion = event_conversion all_sms child_sm_str integer_like;
                  runtime_error = (integer_like \<and> conversion = Some []);
                  old_place = (if is_indexed then (child @ ''.get(_idx).ok_or(Error::InvalidState)?'') else (''&*'' @ child));
                  new_place = (if is_indexed then (''&'' @ child @ ''[_idx]'') else (''&*'' @ child));
                  target_place = (if is_indexed then (child @ ''.get_mut(_idx).ok_or(Error::InvalidState)?'') else child)
              in (''                if let Self::'' @ src_state_name @ '' { ref mut '' @ child @ '', .. } = new_state {'' @ nl) @
                 (if is_indexed then (''                    let _idx = ('' @ delegate_index ss event_def (sdg_target delegate) @ '') as usize;'' @
                   nl) else []) @
                 (''                    let _old = std::mem::discriminant('' @ old_place @ '');'' @ nl) @
                 forward_event conversion runtime_error event_param target_place @
                 (if ssm_has_child_state_changed sm then
                    (''                    if std::mem::discriminant('' @ new_place @ '') != _old {'' @ nl) @
                    (''                        let _ = new_state.dispatch(&'' @ mname @ ''Event::ChildStateChanged);'' @ nl) @
                    (''                    }'' @ nl)
                  else []) @
                 (''                }'' @ nl)
          | _ \<Rightarrow> (''                // delegate: could not resolve child field for '' @ sdg_event_name delegate @ nl)) @
         (''                *self = new_state;'' @ nl) @
         (''                Ok(())'' @ nl))"

text \<open>A field of the destination: assigned, copied from the source, its default, or zero.\<close>

definition dst_field_init :: "semantic_transition \<Rightarrow> semantic_state list \<Rightarrow> semantic_state option \<Rightarrow> semantic_state_field \<Rightarrow> string" where
  "dst_field_init t ss src f =
     (let name = rust_ident (stf_name f);
          src_has_field = (case src of Some s \<Rightarrow> list_ex (\<lambda>g. stf_name g = stf_name f) (sst_fields s) | None \<Rightarrow> False)
      in case find_action_for_field (str_actions t) (stf_name f) ss of
           Some expr_str \<Rightarrow> (''                    '' @ name @ '': '' @ expr_str @ '','' @ nl)
         | None \<Rightarrow>
             if src_has_field then
               let copy_expr = (if is_sm_field_copy_type f then (''*'' @ name) else (name @ ''.clone()''))
               in (''                    '' @ name @ '': '' @ copy_expr @ '','' @ nl)
             else case stf_default_value f of
                    Some lit \<Rightarrow> (''                    '' @ name @ '': '' @ semantic_literal_to_rust lit @ '','' @ nl)
                  | None \<Rightarrow> (''                    '' @ name @ '': 0,'' @ nl))"

definition emit_step :: "semantic_state_machine \<Rightarrow> semantic_state list \<Rightarrow> semantic_transition \<Rightarrow> string" where
  "emit_step sm ss t =
     (let dst_state_name = to_pascal_case (str_dst_state_name t);
          src = find_state_by_id sm (str_src_state_id t)
      in (case find_state_by_id sm (str_dst_state_id t) of
            Some dst \<Rightarrow>
              if sst_fields dst = [] then (''                let mut new_state = Self::'' @ dst_state_name @ '';'' @ nl)
              else (''                let mut new_state = Self::'' @ dst_state_name @ '' {'' @ nl) @
                concat (map (dst_field_init t ss src) (sst_fields dst)) @
                (''                };'' @ nl)
          | None \<Rightarrow> (''                let mut new_state = Self::'' @ dst_state_name @ '';'' @ nl)) @
         emit_post_construction_actions (str_actions t) dst_state_name ss @
         (''                *self = new_state;'' @ nl) @
         (''                Ok(())'' @ nl))"

definition emit_transition_arm :: "semantic_state_machine \<Rightarrow> semantic_state_machine list \<Rightarrow> semantic_state list
    \<Rightarrow> semantic_transition \<Rightarrow> string" where
  "emit_transition_arm sm all_sms ss t =
     (let mname = to_pascal_case (ssm_name sm);
          src_pat = src_pattern (to_pascal_case (str_src_state_name t)) (find_state_by_id sm (str_src_state_id t));
          event_pat = event_pattern mname (to_pascal_case (str_event_name t)) (find_event_by_id sm (str_event_id t))
      in (''            ('' @ src_pat @ '', '' @ event_pat @ '') => {'' @ nl) @
         (case str_guard t of
            Some guard \<Rightarrow> (''                if !('' @ sm_expr_to_rust_ctx ss guard @ '') { return Err(Error::InvalidState); }'' @ nl)
          | None \<Rightarrow> []) @
         (case str_delegate t of
            Some delegate \<Rightarrow> emit_delegate sm all_sms ss t delegate
          | None \<Rightarrow> emit_step sm ss t) @
         (''            }'' @ nl))"

definition dispatch_fn :: "semantic_state_machine \<Rightarrow> semantic_state_machine list \<Rightarrow> semantic_state list \<Rightarrow> string" where
  "dispatch_fn sm all_sms ss =
     (if ssm_events sm = [] \<or> ssm_transitions sm = [] then []
      else (''    pub fn dispatch(&mut self, event: &'' @ to_pascal_case (ssm_name sm) @ ''Event) -> Result<()> {'' @ nl) @
        (''        match (&*self, event) {'' @ nl) @
        concat (map (emit_transition_arm sm all_sms ss) (ssm_transitions sm)) @
        (''            _ => Err(Error::InvalidState),'' @ nl) @
        (''        }'' @ nl) @
        (''    }'' @ nl))"

definition emit_state_machine :: "semantic_state_machine \<Rightarrow> semantic_state_machine list \<Rightarrow> string" where
  "emit_state_machine sm all_sms =
     (let ss = concat (map ssm_states all_sms)
      in state_enum sm @ event_enum sm @
         (''impl '' @ to_pascal_case (ssm_name sm) @ '' {'' @ nl) @
         new_fn sm @ dispatch_fn sm all_sms ss @
         (''}'' @ nl @ nl))"

section \<open>The module\<close>

definition module_fields :: "codec_module \<Rightarrow> codec_field list" where
  "module_fields m =
     concat (map cpk_fields (cm_packets m)) @
     concat (map (\<lambda>f. concat (map cvs_fields (cfr_variants f))) (cm_frames m)) @
     concat (map (\<lambda>c. cca_header_fields c @ concat (map cvs_fields (cca_variants c))) (cm_capsules m))"

definition module_hints :: "codec_module \<Rightarrow> asn1_hint list" where
  "module_hints m = List.map_filter cf_asn1_hint (module_fields m)"

definition asn1_use :: "asn1_hint list \<Rightarrow> string \<Rightarrow> string" where
  "asn1_use hints mod_path =
     (let types = sort (remdups (map ah_type_name (filter (\<lambda>h. ah_rust_module h = Some mod_path) hints)))
      in if length types = 1 then (''use '' @ mod_path @ ''::'' @ hd types @ '';'' @ nl)
         else (''use '' @ mod_path @ ''::{'' @ join_with '', '' types @ ''};'' @ nl))"

definition asn1_header :: "codec_module \<Rightarrow> string" where
  "asn1_header m =
     (let hints = module_hints m
      in if hints = [] then []
         else concat (map (\<lambda>enc. (''use rasn::'' @ enc @ '';'' @ nl)) (sort (remdups (map ah_encoding hints)))) @
           concat (map (asn1_use hints) (sort (remdups (List.map_filter ah_rust_module hints)))) @ nl)"

definition emit_source :: "codec_module \<Rightarrow> string \<Rightarrow> string option" where
  "emit_source m prefix =
     (let named = collect_named_types_needing_lifetime m
      in ocat
          [Some (''// Auto-generated by wirespec. Do not edit.'' @ nl),
           Some (''#![allow(unused_imports, unused_variables, dead_code, unused_mut, unused_parens, unreachable_patterns)]'' @ nl @ nl),
           Some (''use wirespec_rt::*;'' @ nl @ nl),
           Some (asn1_header m),
           Some (concat (map emit_varint (cm_varints m))),
           Some (concat (map emit_const (cm_consts m))),
           Some (if cm_consts m \<noteq> [] then nl else []),
           Some (concat (map emit_enum (cm_enums m))),
           omap_cat (\<lambda>p. emit_packet p (cm_enums m) named) (cm_packets m),
           omap_cat (\<lambda>f. emit_frame f (cm_enums m) named) (cm_frames m),
           omap_cat (\<lambda>c. emit_capsule c (cm_enums m) named) (cm_capsules m),
           Some (concat (map (\<lambda>sm. emit_state_machine sm (cm_state_machines m)) (cm_state_machines m)))])"

end
