(* ===== verification/RustSem.thy ===== *)
theory RustSem
  imports RustSer Runtime
begin

text \<open>
  The meaning of the generated Rust code of a packet. Statements and expressions that the generator
  prints are a small language: \<open>show_stmt\<close> is its text, \<open>run_parse\<close> and \<open>run_ser\<close> its execution
  over the cursor and the writer of the run-time library. Integer values are mathematical integers in the
  range of their Rust type; an array value is the elements below its count. The value of an expression of the
  source is a parameter \<open>ev\<close>, a function of the local variables and of the text, and so are the calls of
  functions generated elsewhere.
\<close>

section \<open>Values and calls\<close>

datatype rval = RInt int | RBool bool | RBytes "u8 list" | ROpt "rval option" | RArr "rval list"
  | RStruct "(string \<times> rval) list"

type_synonym env = "string \<Rightarrow> rval option"

text \<open>An error that the code returns, or a step that the Rust compiler would refuse.\<close>

datatype gen_error = Raised rt_error | Stuck

text \<open>A function generated elsewhere: \<open>parse\<close> and \<open>serialize\<close> of a type, or of a variable-length integer.\<close>

datatype callee = CalleeType string | CalleeVarint string

text \<open>The methods of cursor and writer by the suffix of their names.\<close>

definition lift_read :: "(cursor \<Rightarrow> rt_error + ('a::len word \<times> cursor)) \<Rightarrow> cursor \<Rightarrow> rt_error + (int \<times> cursor)" where
  "lift_read rd c = rmap (\<lambda>(v, c'). (uint v, c')) (rd c)"

definition lift_write :: "('a::len word \<Rightarrow> writer \<Rightarrow> rt_error + writer) \<Rightarrow> int \<Rightarrow> writer \<Rightarrow> rt_error + writer" where
  "lift_write wr k = wr (word_of_int k)"

definition read_table :: "(string \<times> (cursor \<Rightarrow> rt_error + (int \<times> cursor))) list" where
  "read_table =
     [(''u8'', lift_read read_u8), (''u16be'', lift_read read_u16be), (''u16le'', lift_read read_u16le),
      (''u24be'', lift_read read_u24be), (''u24le'', lift_read read_u24le), (''u32be'', lift_read read_u32be),
      (''u32le'', lift_read read_u32le), (''u64be'', lift_read read_u64be), (''u64le'', lift_read read_u64le),
      (''i8'', read_i8), (''i16be'', read_i16be), (''i16le'', read_i16le), (''i32be'', read_i32be),
      (''i32le'', read_i32le), (''i64be'', read_i64be), (''i64le'', read_i64le)]"

definition write_table :: "(string \<times> (int \<Rightarrow> writer \<Rightarrow> rt_error + writer)) list" where
  "write_table =
     [(''u8'', lift_write write_u8), (''u16be'', lift_write write_u16be), (''u16le'', lift_write write_u16le),
      (''u24be'', lift_write write_u24be), (''u24le'', lift_write write_u24le), (''u32be'', lift_write write_u32be),
      (''u32le'', lift_write write_u32le), (''u64be'', lift_write write_u64be), (''u64le'', lift_write write_u64le),
      (''i8'', write_i8), (''i16be'', write_i16be), (''i16le'', write_i16le), (''i32be'', write_i32be),
      (''i32le'', write_i32le), (''i64be'', write_i64be), (''i64le'', write_i64le)]"

definition cursor_method :: "string \<Rightarrow> (cursor \<Rightarrow> rt_error + (int \<times> cursor)) option" where
  "cursor_method m = (if take 5 m = ''read_'' then map_of read_table (drop 5 m) else None)"

definition writer_method :: "string \<Rightarrow> (int \<Rightarrow> writer \<Rightarrow> rt_error + writer) option" where
  "writer_method m = (if take 6 m = ''write_'' then map_of write_table (drop 6 m) else None)"

section \<open>Statements of \<open>parse\<close>\<close>

datatype len_arg = LenFixed u64 | LenText string

datatype read_expr = RdMethod string | RdBool | RdCall callee | RdBytes len_arg | RdRemaining | RdLor string

datatype parse_stmt =
    PLet string read_expr
  | PLetIf string string read_expr
  | PLetText string string
  | PRequire string
  | PMember string string nat nat string
  | PArray string string string nat read_expr
  | PFill string string "string option" nat read_expr

fun callee_parse :: "callee \<Rightarrow> string" where
  "callee_parse (CalleeType name) = (to_pascal_case name @ ''::parse'')"
| "callee_parse (CalleeVarint name) = (to_snake_case name @ ''_parse'')"

fun show_read :: "string \<Rightarrow> read_expr \<Rightarrow> string" where
  "show_read cur (RdMethod m) = (cur @ ''.'' @ m @ ''()?'')"
| "show_read cur RdBool = (''('' @ cur @ ''.read_u8()? != 0)'')"
| "show_read cur (RdCall f) = (callee_parse f @ ''('' @ cursor_arg_of cur @ '')?'')"
| "show_read cur (RdBytes (LenFixed n)) = (cur @ ''.read_bytes('' @ dec n @ '')?'')"
| "show_read cur (RdBytes (LenText t)) = (cur @ ''.read_bytes('' @ t @ '' as usize)?'')"
| "show_read cur RdRemaining = (cur @ ''.read_remaining()'')"
| "show_read cur (RdLor x) = (''if let Some(l) = '' @ x @ '' { '' @ cur @ ''.read_bytes(l as usize)? } else { '' @ cur @ ''.read_remaining() }'')"

fun show_stmt :: "string \<Rightarrow> string \<Rightarrow> parse_stmt \<Rightarrow> string" where
  "show_stmt indent cur (PLet x r) = (indent @ ''let '' @ x @ '' = '' @ show_read cur r @ '';'' @ nl)"
| "show_stmt indent cur (PLetIf x cond r) = (indent @ ''let '' @ x @ '' = if '' @ cond @ '' { Some('' @ show_read cur r @ '') } else { None };'' @
  nl)"
| "show_stmt indent cur (PLetText x t) = (indent @ ''let '' @ x @ '' = '' @ t @ '';'' @ nl)"
| "show_stmt indent cur (PRequire t) = (indent @ ''if !('' @ t @ '') { return Err(Error::Constraint); }'' @ nl)"
| "show_stmt indent cur (PMember x g s m ty) = (indent @ ''let '' @ x @ '' = (('' @ g @ '' >> '' @ show_nat s @ '') & 0x'' @ show_hex m @ '') as '' @
  ty @ '';'' @ nl)"
| "show_stmt indent cur (PArray x n t k r) =
     (indent @ ''let '' @ n @ '' = '' @ t @ '' as usize;'' @ nl) @
     (indent @ ''if '' @ n @ '' > '' @ show_nat k @ '' { return Err(Error::Capacity); }'' @ nl) @
     (indent @ ''let mut '' @ x @ '' = std::array::from_fn(|_| Default::default());'' @ nl) @
     (indent @ ''for _i in 0..'' @ n @ '' {'' @ nl) @
     (indent @ ''    '' @ x @ ''[_i] = '' @ show_read cur r @ '';'' @ nl) @
     (indent @ ''}'' @ nl)"
| "show_stmt indent cur (PFill x n within k r) =
     (let sub = (if within \<noteq> None then ''_arr_sub'' else cur)
      in (case within of Some t \<Rightarrow> (indent @ ''let mut _arr_sub = '' @ cur @ ''.sub_cursor('' @ t @ '' as usize)?;'' @
        nl) | None \<Rightarrow> []) @
         (indent @ ''let mut '' @ x @ '' = std::array::from_fn(|_| Default::default());'' @ nl) @
         (indent @ ''let mut '' @ n @ '': usize = 0;'' @ nl) @
         (indent @ ''while '' @ sub @ ''.remaining() > 0 {'' @ nl) @
         (indent @ ''    if '' @ n @ '' >= '' @ show_nat k @ '' { return Err(Error::Capacity); }'' @ nl) @
         (indent @ ''    '' @ x @ ''['' @ n @ ''] = '' @ show_read sub r @ '';'' @ nl) @
         (indent @ ''    '' @ n @ '' += 1;'' @ nl) @
         (indent @ ''}'' @ nl))"

definition show_stmts :: "string \<Rightarrow> string \<Rightarrow> parse_stmt list \<Rightarrow> string" where
  "show_stmts indent cur ss = concat (map (show_stmt indent cur) ss)"

section \<open>Execution of \<open>parse\<close>\<close>

definition as_usize :: "int \<Rightarrow> nat" where
  "as_usize n = nat (n mod 2 ^ 64)"

definition type_bits :: "string \<Rightarrow> nat" where
  "type_bits ty = (if ty = ''u8'' then 8 else if ty = ''u16'' then 16 else if ty = ''u32'' then 32 else 64)"

fun run_read :: "(env \<Rightarrow> string \<Rightarrow> rval option) \<Rightarrow> (callee \<Rightarrow> cursor \<Rightarrow> gen_error + (rval \<times> cursor)) \<Rightarrow> env \<Rightarrow> read_expr
    \<Rightarrow> cursor \<Rightarrow> gen_error + (rval \<times> cursor)" where
  "run_read ev pcall env (RdMethod m) c =
     (case cursor_method m of
        None \<Rightarrow> Inl Stuck
      | Some rd \<Rightarrow> rmap (\<lambda>(v, c). (RInt v, c)) (rmap_err Raised (rd c)))"
| "run_read ev pcall env RdBool c = rmap (\<lambda>(v, c). (RBool (v \<noteq> 0), c)) (rmap_err Raised (read_u8 c))"
| "run_read ev pcall env (RdCall f) c = pcall f c"
| "run_read ev pcall env (RdBytes (LenFixed n)) c = rmap (\<lambda>(v, c). (RBytes v, c)) (rmap_err Raised (read_bytes (unat n) c))"
| "run_read ev pcall env (RdBytes (LenText t)) c =
     (case ev env t of
        Some (RInt n) \<Rightarrow> rmap (\<lambda>(v, c). (RBytes v, c)) (rmap_err Raised (read_bytes (as_usize n) c))
      | _ \<Rightarrow> Inl Stuck)"
| "run_read ev pcall env RdRemaining c = (case read_remaining c of (v, c) \<Rightarrow> Inr (RBytes v, c))"
| "run_read ev pcall env (RdLor x) c =
     (case env x of
        Some (ROpt (Some (RInt n))) \<Rightarrow> rmap (\<lambda>(v, c). (RBytes v, c)) (rmap_err Raised (read_bytes (as_usize n) c))
      | Some (ROpt None) \<Rightarrow> (case read_remaining c of (v, c) \<Rightarrow> Inr (RBytes v, c))
      | _ \<Rightarrow> Inl Stuck)"

fun read_times :: "(cursor \<Rightarrow> gen_error + (rval \<times> cursor)) \<Rightarrow> nat \<Rightarrow> cursor \<Rightarrow> gen_error + (rval list \<times> cursor)" where
  "read_times rd 0 c = Inr ([], c)"
| "read_times rd (Suc n) c =
     rbind (rd c) (\<lambda>(v, c). rbind (read_times rd n c) (\<lambda>(vs, c). Inr (v # vs, c)))"

text \<open>The loop of a filling array, with room for \<open>n\<close> more elements.\<close>

fun read_fill :: "(cursor \<Rightarrow> gen_error + (rval \<times> cursor)) \<Rightarrow> nat \<Rightarrow> cursor \<Rightarrow> gen_error + (rval list \<times> cursor)" where
  "read_fill rd 0 c = (if remaining c = 0 then Inr ([], c) else Inl (Raised Capacity))"
| "read_fill rd (Suc n) c =
     (if remaining c = 0 then Inr ([], c)
      else rbind (rd c) (\<lambda>(v, c). rbind (read_fill rd n c) (\<lambda>(vs, c). Inr (v # vs, c))))"

fun run_stmt :: "(env \<Rightarrow> string \<Rightarrow> rval option) \<Rightarrow> (callee \<Rightarrow> cursor \<Rightarrow> gen_error + (rval \<times> cursor)) \<Rightarrow> parse_stmt
    \<Rightarrow> env \<times> cursor \<Rightarrow> gen_error + (env \<times> cursor)" where
  "run_stmt ev pcall (PLet x r) (env, c) = rmap (\<lambda>(v, c). (env(x \<mapsto> v), c)) (run_read ev pcall env r c)"
| "run_stmt ev pcall (PLetIf x cond r) (env, c) =
     (case ev env cond of
        Some (RBool True) \<Rightarrow> rmap (\<lambda>(v, c). (env(x \<mapsto> ROpt (Some v)), c)) (run_read ev pcall env r c)
      | Some (RBool False) \<Rightarrow> Inr (env(x \<mapsto> ROpt None), c)
      | _ \<Rightarrow> Inl Stuck)"
| "run_stmt ev pcall (PLetText x t) (env, c) =
     (case ev env t of Some v \<Rightarrow> Inr (env(x \<mapsto> v), c) | None \<Rightarrow> Inl Stuck)"
| "run_stmt ev pcall (PRequire t) (env, c) =
     (case ev env t of
        Some (RBool b) \<Rightarrow> if b then Inr (env, c) else Inl (Raised Constraint)
      | _ \<Rightarrow> Inl Stuck)"
| "run_stmt ev pcall (PMember x g s m ty) (env, c) =
     (case env g of
        Some (RInt v) \<Rightarrow> Inr (env(x \<mapsto> RInt (take_bit (type_bits ty) (and (drop_bit s v) (int m)))), c)
      | _ \<Rightarrow> Inl Stuck)"
| "run_stmt ev pcall (PArray x n t k r) (env, c) =
     (case ev env t of
        Some (RInt i) \<Rightarrow>
          let env = env(n \<mapsto> RInt (int (as_usize i)))
          in if as_usize i > k then Inl (Raised Capacity)
             else rmap (\<lambda>(vs, c). (env(x \<mapsto> RArr vs), c)) (read_times (run_read ev pcall env r) (as_usize i) c)
      | _ \<Rightarrow> Inl Stuck)"
| "run_stmt ev pcall (PFill x n within k r) (env, c) =
     (case within of
        None \<Rightarrow>
          rmap (\<lambda>(vs, c). (env(x \<mapsto> RArr vs, n \<mapsto> RInt (int (length vs))), c)) (read_fill (run_read ev pcall env r) k c)
      | Some t \<Rightarrow>
          (case ev env t of
             Some (RInt i) \<Rightarrow>
               rbind (rmap_err Raised (sub_cursor (as_usize i) c)) (\<lambda>(sub, c).
               rmap (\<lambda>(vs, sub). (env(x \<mapsto> RArr vs, n \<mapsto> RInt (int (length vs))), c))
                 (read_fill (run_read ev pcall env r) k sub))
           | _ \<Rightarrow> Inl Stuck))"

fun run_parse :: "(env \<Rightarrow> string \<Rightarrow> rval option) \<Rightarrow> (callee \<Rightarrow> cursor \<Rightarrow> gen_error + (rval \<times> cursor)) \<Rightarrow> parse_stmt list
    \<Rightarrow> env \<times> cursor \<Rightarrow> gen_error + (env \<times> cursor)" where
  "run_parse ev pcall [] s = Inr s"
| "run_parse ev pcall (p # ps) s = rbind (run_stmt ev pcall p s) (run_parse ev pcall ps)"

lemma run_parse_append: "run_parse ev pcall (ps @ qs) s = rbind (run_parse ev pcall ps s) (run_parse ev pcall qs)"
  by (induction ps arbitrary: s) (auto simp: rbind_assoc intro: rbind_cong)

section \<open>Statements of \<open>serialize\<close>\<close>

datatype write_expr = WrMethod string | WrBool | WrCall callee

datatype ser_stmt =
    SWrite string write_expr
  | SBytes string
  | SOptBytes string
  | SOpt string bool write_expr
  | SArr string string write_expr
  | SGroup string string "(string \<times> nat \<times> nat) list" string

fun show_write :: "string \<Rightarrow> write_expr \<Rightarrow> string" where
  "show_write v (WrMethod m) = (''w.'' @ m @ ''('' @ v @ '')?'')"
| "show_write v WrBool = (''w.write_u8(if '' @ v @ '' { 1u8 } else { 0u8 })?'')"
| "show_write v (WrCall (CalleeType name)) = (v @ ''.serialize(w)?'')"
| "show_write v (WrCall (CalleeVarint name)) = (to_snake_case name @ ''_serialize('' @ v @ '', w)?'')"

fun show_ser :: "string \<Rightarrow> string \<Rightarrow> ser_stmt \<Rightarrow> string" where
  "show_ser indent prefix (SWrite x we) = (indent @ show_write (prefix @ x) we @ '';'' @ nl)"
| "show_ser indent prefix (SBytes x) = (indent @ ''w.write_bytes('' @ prefix @ x @ '')?;'' @ nl)"
| "show_ser indent prefix (SOptBytes x) = (indent @ ''if let Some(ref val) = '' @ prefix @ x @ '' { w.write_bytes(val)?; }'' @ nl)"
| "show_ser indent prefix (SOpt x deref we) =
     (indent @ ''if let Some(ref val) = '' @ prefix @ x @ '' { '' @ show_write (if deref then ''*val'' else ''val'') we @ ''; }'' @ nl)"
| "show_ser indent prefix (SArr x n we) =
     (indent @ ''for _i in 0..'' @ prefix @ n @ '' {'' @ nl) @
     (indent @ ''    '' @ show_write (prefix @ x @ ''[_i]'') we @ '';'' @ nl) @
     (indent @ ''}'' @ nl)"
| "show_ser indent prefix (SGroup g ty ms m) =
     (indent @ ''let mut '' @ g @ '': '' @ ty @ '' = 0;'' @ nl) @
     concat (map (\<lambda>(x, msk, s). (indent @ g @ '' |= (('' @ prefix @ x @ '' as '' @ ty @ '') & 0x'' @ show_hex msk @ '') << '' @ show_nat s @
       '';'' @ nl)) ms) @
     (indent @ ''w.'' @ m @ ''('' @ g @ '')?;'' @ nl)"

definition show_sers :: "string \<Rightarrow> string \<Rightarrow> ser_stmt list \<Rightarrow> string" where
  "show_sers indent prefix ss = concat (map (show_ser indent prefix) ss)"

section \<open>Execution of \<open>serialize\<close>\<close>

fun run_write :: "(callee \<Rightarrow> rval \<Rightarrow> writer \<Rightarrow> gen_error + writer) \<Rightarrow> write_expr \<Rightarrow> rval \<Rightarrow> writer \<Rightarrow> gen_error + writer" where
  "run_write scall (WrMethod m) v w =
     (case (writer_method m, v) of
        (Some wr, RInt k) \<Rightarrow> rmap_err Raised (wr k w)
      | _ \<Rightarrow> Inl Stuck)"
| "run_write scall WrBool v w =
     (case v of RBool b \<Rightarrow> rmap_err Raised (write_u8 (if b then 1 else 0) w) | _ \<Rightarrow> Inl Stuck)"
| "run_write scall (WrCall f) v w = scall f v w"

fun write_all :: "(rval \<Rightarrow> writer \<Rightarrow> gen_error + writer) \<Rightarrow> rval list \<Rightarrow> writer \<Rightarrow> gen_error + writer" where
  "write_all wr [] w = Inr w"
| "write_all wr (v # vs) w = rbind (wr v w) (write_all wr vs)"

text \<open>The members of a bit group, joined in a word of the group's type.\<close>

fun join_members :: "env \<Rightarrow> nat \<Rightarrow> (string \<times> nat \<times> nat) list \<Rightarrow> int \<Rightarrow> int option" where
  "join_members self bits [] acc = Some acc"
| "join_members self bits ((x, msk, s) # ms) acc =
     (case self x of
        Some (RInt v) \<Rightarrow> join_members self bits ms (or acc (take_bit bits (push_bit s (and (take_bit bits v) (int msk)))))
      | _ \<Rightarrow> None)"

fun run_ser_stmt :: "(callee \<Rightarrow> rval \<Rightarrow> writer \<Rightarrow> gen_error + writer) \<Rightarrow> env \<Rightarrow> ser_stmt \<Rightarrow> writer \<Rightarrow> gen_error + writer" where
  "run_ser_stmt scall self (SWrite x we) w =
     (case self x of Some v \<Rightarrow> run_write scall we v w | None \<Rightarrow> Inl Stuck)"
| "run_ser_stmt scall self (SBytes x) w =
     (case self x of Some (RBytes bs) \<Rightarrow> rmap_err Raised (write_bytes bs w) | _ \<Rightarrow> Inl Stuck)"
| "run_ser_stmt scall self (SOptBytes x) w =
     (case self x of
        Some (ROpt (Some (RBytes bs))) \<Rightarrow> rmap_err Raised (write_bytes bs w)
      | Some (ROpt None) \<Rightarrow> Inr w
      | _ \<Rightarrow> Inl Stuck)"
| "run_ser_stmt scall self (SOpt x deref we) w =
     (case self x of
        Some (ROpt (Some v)) \<Rightarrow> run_write scall we v w
      | Some (ROpt None) \<Rightarrow> Inr w
      | _ \<Rightarrow> Inl Stuck)"
| "run_ser_stmt scall self (SArr x n we) w =
     (case (self x, self n) of
        (Some (RArr vs), Some (RInt k)) \<Rightarrow> if k = int (length vs) then write_all (run_write scall we) vs w else Inl Stuck
      | _ \<Rightarrow> Inl Stuck)"
| "run_ser_stmt scall self (SGroup g ty ms m) w =
     (case (join_members self (type_bits ty) ms 0, writer_method m) of
        (Some k, Some wr) \<Rightarrow> rmap_err Raised (wr k w)
      | _ \<Rightarrow> Inl Stuck)"

fun run_ser :: "(callee \<Rightarrow> rval \<Rightarrow> writer \<Rightarrow> gen_error + writer) \<Rightarrow> env \<Rightarrow> ser_stmt list \<Rightarrow> writer \<Rightarrow> gen_error + writer" where
  "run_ser scall self [] w = Inr w"
| "run_ser scall self (s # ss) w = rbind (run_ser_stmt scall self s w) (run_ser scall self ss)"

lemma run_ser_append: "run_ser scall self (ss @ ts) w = rbind (run_ser scall self ss w) (run_ser scall self ts)"
  by (induction ss arbitrary: w) (auto simp: rbind_assoc intro: rbind_cong)

end
