(* ===== verification/RustGen.thy ===== *)
theory RustGen
  imports RustSem
begin

text \<open>
  The statements that the Rust generator prints for a packet. \<open>gen_parse\<close> and \<open>gen_ser\<close> follow the cases of
  \<open>emit_field_parse\<close> and \<open>emit_field_serialize\<close>; the lemmas \<open>parse_text\<close> and \<open>serialize_text\<close> say that the emitted
  text is the text of these statements. Fields with an ASN.1 hint are left out: their decoders are
  third-party code.
\<close>

section \<open>Parse\<close>

definition gen_read :: "wire_type \<Rightarrow> string option \<Rightarrow> endianness option \<Rightarrow> read_expr option" where
  "gen_read wt ref_type_name e =
     (let varint = (case ref_type_name of Some r \<Rightarrow> Some (RdCall (CalleeVarint r)) | None \<Rightarrow> Some (RdMethod ''read_u64be''))
      in case wt of
           WStruct name \<Rightarrow> Some (RdCall (CalleeType name)) | WFrame name \<Rightarrow> Some (RdCall (CalleeType name))
         | WCapsule name \<Rightarrow> Some (RdCall (CalleeType name))
         | WVarInt \<Rightarrow> varint | WContVarInt \<Rightarrow> varint
         | WBool \<Rightarrow> Some RdBool
         | _ \<Rightarrow> map_option RdMethod (cursor_read_method wt e))"

lemma gen_read_text: "rust_parse_expr cur wt r e = map_option (show_read cur) (gen_read wt r e)"
  by (cases wt; cases r) (simp_all add: rust_parse_expr_def gen_read_def Let_def option.map_comp o_def)

definition gen_bytes :: "field_aliases \<Rightarrow> bytes_spec option \<Rightarrow> read_expr option" where
  "gen_bytes aliases spec =
     (case spec of
        Some (BsFixed n) \<Rightarrow> Some (RdBytes (LenFixed n))
      | Some (BsLength e) \<Rightarrow> map_option (\<lambda>t. RdBytes (LenText t)) (expr_to_rust_with_aliases CtxParse aliases e)
      | Some (BsLengthOrRemaining e) \<Rightarrow> Some (RdLor (rust_ident (extract_field_name (get_value_ref_id e))))
      | Some BsRemaining \<Rightarrow> Some RdRemaining
      | None \<Rightarrow> Some RdRemaining)"

lemma gen_bytes_text: "bytes_read_expr cur aliases spec = map_option (show_read cur) (gen_bytes aliases spec)"
  by (auto simp: bytes_read_expr_def gen_bytes_def Let_def option.map_comp o_def split: option.splits bytes_spec.splits)

definition max_elems :: "codec_field \<Rightarrow> nat" where
  "max_elems f = (case cf_max_elements f of Some n \<Rightarrow> unat n | None \<Rightarrow> 256)"

lemma max_elems_text: "max_elems_of f = show_nat (max_elems f)"
proof -
  have "show_nat 256 = ''256''" by code_simp
  then show ?thesis by (simp add: max_elems_of_def max_elems_def split: option.split)
qed

definition gen_array :: "codec_field \<Rightarrow> array_spec \<Rightarrow> field_aliases \<Rightarrow> parse_stmt option" where
  "gen_array f arr aliases =
     (let x = rust_ident (cf_name f); n = rust_count_ident (cf_name f)
      in if ar_element_strategy arr \<notin> {StPrimitive, StStruct, StVarInt, StContVarInt} then None
         else Option.bind (gen_read (ar_element_wire_type arr) (ar_element_ref_type_name arr) None) (\<lambda>r.
           case ar_count_expr arr of
             Some e \<Rightarrow> map_option (\<lambda>t. PArray x n t (max_elems f) r) (expr_to_rust_with_aliases CtxParse aliases e)
           | None \<Rightarrow>
               (case ar_within_expr arr of
                  Some e \<Rightarrow> map_option (\<lambda>t. PFill x n (Some t) (max_elems f) r) (expr_to_rust_with_aliases CtxParse aliases e)
                | None \<Rightarrow> Some (PFill x n None (max_elems f) r))))"

lemma gen_array_text: "emit_array_parse f arr indent cur aliases = map_option (show_stmt indent cur) (gen_array f arr aliases)"
proof (cases "ar_element_strategy arr \<in> {StPrimitive, StStruct, StVarInt, StContVarInt}")
  case True
  then show ?thesis
    by (cases "gen_read (ar_element_wire_type arr) (ar_element_ref_type_name arr) None")
      (auto simp: emit_array_parse_def gen_array_def Let_def emit_array_element_read_indexed_def gen_read_text max_elems_text
        ocat_Cons split: option.splits)
next
  case False
  then show ?thesis
    by (auto simp: emit_array_parse_def gen_array_def Let_def emit_array_element_read_indexed_def ocat_Cons split: option.splits)
qed

definition conditional_read :: "codec_field \<Rightarrow> field_aliases \<Rightarrow> wire_type \<Rightarrow> read_expr option" where
  "conditional_read f aliases wt =
     (case wt of
        WBytes \<Rightarrow> gen_bytes aliases (cf_bytes_spec f)
      | WArray \<Rightarrow> None
      | wt \<Rightarrow> gen_read wt (cf_ref_type_name f) (cf_endianness f))"

definition gen_conditional :: "codec_field \<Rightarrow> field_aliases \<Rightarrow> codec_expr \<Rightarrow> parse_stmt option" where
  "gen_conditional f aliases cond =
     Option.bind (expr_to_rust_bool_with_field_aliases CtxParse aliases cond) (\<lambda>t.
     map_option (PLetIf (rust_ident (cf_name f)) t) (conditional_read f aliases (inner_wire_type_of f)))"

lemma conditional_read_text:
  "(case wt of WBytes \<Rightarrow> bytes_read_expr cur aliases (cf_bytes_spec f) | WArray \<Rightarrow> None
    | _ \<Rightarrow> rust_parse_expr cur wt (cf_ref_type_name f) (cf_endianness f))
   = map_option (show_read cur) (conditional_read f aliases wt)"
  by (simp add: conditional_read_def gen_bytes_text gen_read_text split: wire_type.split)

lemma gen_conditional_text:
  "emit_conditional_parse f indent cur aliases cond = map_option (show_stmt indent cur) (gen_conditional f aliases cond)"
  unfolding emit_conditional_parse_def gen_conditional_def Let_def inner_wire_type_of_def [symmetric] conditional_read_text
  by (cases "expr_to_rust_bool_with_field_aliases CtxParse aliases cond") (simp_all add: option.map_comp o_def)

definition gen_member :: "string \<Rightarrow> codec_field \<times> bitgroup_member \<Rightarrow> parse_stmt" where
  "gen_member g fm =
     (case fm of (f, m) \<Rightarrow> PMember (rust_ident (cf_name f)) g (unat (bm_member_offset_bits m))
       (bitgroup_mask (bm_member_width_bits m)) (wire_type_to_rust (cf_wire_type f)))"

definition gen_group :: "codec_field list \<Rightarrow> bitgroup_member \<Rightarrow> parse_stmt list option" where
  "gen_group flds bg =
     map_option (\<lambda>m. PLet (bitgroup_var (bm_group_id bg)) (RdMethod m) #
         map (gen_member (bitgroup_var (bm_group_id bg))) (group_members_of flds (bm_group_id bg)))
       (bitgroup_read_method (bm_total_bits bg) (bm_group_endianness bg))"

lemma gen_group_text: "emit_bitgroup_parse flds indent bg cur = map_option (show_stmts indent cur) (gen_group flds bg)"
proof -
  have m: "member_parse indent g = (\<lambda>fm. show_stmt indent cur (gen_member g fm))" for g
    by (auto simp: member_parse_def gen_member_def Let_def fun_eq_iff)
  have "concat (map (member_parse indent g) fms) = show_stmts indent cur (map (gen_member g) fms)" for g fms
    by (simp add: show_stmts_def m o_def)
  then show ?thesis
    by (simp add: emit_bitgroup_parse_def gen_group_def Let_def option.map_comp o_def show_stmts_def)
qed

definition gen_parse :: "codec_field \<Rightarrow> codec_field list \<Rightarrow> u32 list \<Rightarrow> field_aliases \<Rightarrow> (parse_stmt list \<times> u32 list) option" where
  "gen_parse f flds emitted aliases =
     (let one = map_option (\<lambda>s. ([s], emitted));
          plain = one (map_option (PLet (rust_ident (cf_name f))) (gen_read (cf_wire_type f) (cf_ref_type_name f) (cf_endianness f)));
          bytes = one (map_option (PLet (rust_ident (cf_name f))) (gen_bytes aliases (cf_bytes_spec f)));
          none = Some ([], emitted)
      in case cf_strategy f of
           StPrimitive \<Rightarrow> plain
         | StChecksum \<Rightarrow> plain
         | StBitGroup \<Rightarrow>
             (case cf_bitgroup_member f of
                Some bg \<Rightarrow>
                  if bm_group_id bg \<in> set emitted then none
                  else map_option (\<lambda>ss. (ss, emitted @ [bm_group_id bg])) (gen_group flds bg)
              | None \<Rightarrow> none)
         | StBytesFixed \<Rightarrow> (case cf_bytes_spec f of Some (BsFixed n) \<Rightarrow> bytes | _ \<Rightarrow> none)
         | StBytesLength \<Rightarrow> (case cf_bytes_spec f of Some (BsLength e) \<Rightarrow> bytes | _ \<Rightarrow> none)
         | StBytesRemaining \<Rightarrow> one (Some (PLet (rust_ident (cf_name f)) RdRemaining))
         | StBytesLor \<Rightarrow> (case cf_bytes_spec f of Some (BsLengthOrRemaining e) \<Rightarrow> bytes | _ \<Rightarrow> none)
         | StConditional \<Rightarrow> (case cf_condition f of Some cond \<Rightarrow> one (gen_conditional f aliases cond) | None \<Rightarrow> none)
         | StArray \<Rightarrow> (case cf_array_spec f of Some arr \<Rightarrow> one (gen_array f arr aliases) | None \<Rightarrow> none)
         | StStruct \<Rightarrow> plain
         | StVarInt \<Rightarrow> plain
         | StContVarInt \<Rightarrow> plain)"

lemma show_one [simp]: "show_stmts indent cur [s] = show_stmt indent cur s" "show_stmts indent cur [] = []"
  by (simp_all add: show_stmts_def)

lemma let_stmt_text: "map_option (let_stmt indent x) (map_option (show_read cur) r) = map_option (show_stmt indent cur) (map_option (PLet x) r)"
  by (simp add: option.map_comp o_def let_stmt_def)

lemma gen_parse_text:
  assumes "cf_asn1_hint f = None"
  shows "emit_field_parse f flds indent emitted cur aliases
    = map_option (\<lambda>(ss, em). (show_stmts indent cur ss, em)) (gen_parse f flds emitted aliases)"
proof -
  have bytes: "emit_bytes_parse f indent t = let_stmt indent (rust_ident (cf_name f)) t" for t
    using assms by (simp add: emit_bytes_parse_def)
  have b: "map_option (emit_bytes_parse f indent) = map_option (let_stmt indent (rust_ident (cf_name f)))"
    unfolding bytes ..
  note texts = gen_read_text gen_bytes_text gen_array_text gen_conditional_text gen_group_text
  show ?thesis
    unfolding emit_field_parse_def gen_parse_def Let_def b bytes texts let_stmt_text
    by (cases "cf_strategy f")
      (auto simp: option.map_comp o_def case_prod_unfold let_stmt_def gen_bytes_def
        split: option.split bytes_spec.split)
qed

fun gen_parse_items :: "codec_field list \<Rightarrow> field_aliases \<Rightarrow> u32 list \<Rightarrow> codec_item list \<Rightarrow> parse_stmt list option" where
  "gen_parse_items flds aliases emitted [] = Some []"
| "gen_parse_items flds aliases emitted (CiField field_id # items) =
     (case find_field flds field_id of
        Some f \<Rightarrow>
          Option.bind (gen_parse f flds emitted aliases) (\<lambda>(ss, emitted).
            map_option (\<lambda>ts. ss @ ts) (gen_parse_items flds aliases emitted items))
      | None \<Rightarrow> gen_parse_items flds aliases emitted items)"
| "gen_parse_items flds aliases emitted (CiDerived d # items) =
     Option.bind (expr_to_rust_with_aliases CtxParse aliases (cd_expr d)) (\<lambda>t.
       map_option (\<lambda>ts. PLetText (rust_ident (cd_name d)) t # ts) (gen_parse_items flds aliases emitted items))"
| "gen_parse_items flds aliases emitted (CiRequire r # items) =
     Option.bind (expr_to_rust_with_aliases CtxParse aliases (cr_expr r)) (\<lambda>t.
       map_option (\<lambda>ts. PRequire t # ts) (gen_parse_items flds aliases emitted items))"

definition no_asn1 :: "codec_field list \<Rightarrow> bool" where
  "no_asn1 flds \<longleftrightarrow> list_all (\<lambda>f. cf_asn1_hint f = None) flds"

lemma find_field_in: "find_field flds i = Some f \<Longrightarrow> f \<in> set flds \<and> cf_field_id f = i"
  unfolding find_field_def by (drule find_eq_Some_in) simp

lemma show_append [simp]: "show_stmts indent cur (ss @ ts) = show_stmts indent cur ss @ show_stmts indent cur ts"
  "show_stmts indent cur (s # ts) = show_stmt indent cur s @ show_stmts indent cur ts"
  by (simp_all add: show_stmts_def)

lemma parse_loop_text:
  "no_asn1 flds \<Longrightarrow> parse_items_loop flds indent cur aliases emitted items
    = map_option (show_stmts indent cur) (gen_parse_items flds aliases emitted items)"
proof (induction flds aliases emitted items rule: gen_parse_items.induct)
  case (2 flds aliases emitted field_id items)
  show ?case
  proof (cases "find_field flds field_id")
    case None
    then show ?thesis using 2 by simp
  next
    case (Some f)
    then have "cf_asn1_hint f = None" using 2(3) find_field_in by (fastforce simp: no_asn1_def list_all_iff)
    from gen_parse_text [OF this] Some 2 show ?thesis
      by (cases "gen_parse f flds emitted aliases") (auto simp: ocat_Cons split: option.splits)
  qed
next
  case (3 flds aliases emitted d items)
  then show ?case
    by (cases "expr_to_rust_with_aliases CtxParse aliases (cd_expr d)") (auto simp: ocat_Cons let_stmt_def split: option.splits)
next
  case (4 flds aliases emitted r items)
  then show ?case
    by (cases "expr_to_rust_with_aliases CtxParse aliases (cr_expr r)") (auto simp: ocat_Cons emit_require_def split: option.splits)
qed simp

lemma parse_text:
  "no_asn1 flds \<Longrightarrow> emit_parse_items flds items indent
    = map_option (show_stmts indent ''cur'') (gen_parse_items flds [] [] items)"
  by (simp add: emit_parse_items_def emit_parse_items_with_field_aliases_def parse_loop_text)

section \<open>Serialize\<close>

definition gen_write :: "wire_type \<Rightarrow> string option \<Rightarrow> endianness option \<Rightarrow> write_expr option" where
  "gen_write wt ref_type_name e =
     (let varint = (case ref_type_name of Some r \<Rightarrow> Some (WrCall (CalleeVarint r)) | None \<Rightarrow> Some (WrMethod ''write_u64be''))
      in case wt of
           WStruct name \<Rightarrow> Some (WrCall (CalleeType name)) | WFrame name \<Rightarrow> Some (WrCall (CalleeType name))
         | WCapsule name \<Rightarrow> Some (WrCall (CalleeType name))
         | WVarInt \<Rightarrow> varint | WContVarInt \<Rightarrow> varint
         | WBool \<Rightarrow> Some WrBool
         | _ \<Rightarrow> map_option WrMethod (writer_write_method wt e))"

lemma gen_write_text: "rust_write_expr ''w'' wt r e v = map_option (show_write v) (gen_write wt r e)"
  by (cases wt; cases r) (simp_all add: rust_write_expr_def gen_write_def Let_def option.map_comp o_def)

definition gen_array_write :: "codec_field \<Rightarrow> array_spec \<Rightarrow> ser_stmt option" where
  "gen_array_write f arr =
     (if ar_element_strategy arr \<in> {StPrimitive, StStruct, StVarInt, StContVarInt}
      then map_option (SArr (rust_ident (cf_name f)) (rust_count_ident (cf_name f)))
             (gen_write (ar_element_wire_type arr) (ar_element_ref_type_name arr) None)
      else None)"

lemma gen_array_write_text:
  "emit_array_serialize f arr indent prefix = map_option (show_ser indent prefix) (gen_array_write f arr)"
  by (simp add: emit_array_serialize_def gen_array_write_def Let_def gen_write_text option.map_comp o_def ocat_Cons
      prefixed_field_def prefixed_count_field_def split: option.split)

definition conditional_write :: "codec_field \<Rightarrow> wire_type \<Rightarrow> ser_stmt option" where
  "conditional_write f wt =
     (case wt of
        WBytes \<Rightarrow> Some (SOptBytes (rust_ident (cf_name f)))
      | WArray \<Rightarrow> None
      | wt \<Rightarrow> map_option (SOpt (rust_ident (cf_name f)) (\<not> wire_type_is_named wt))
              (gen_write wt (cf_ref_type_name f) (cf_endianness f)))"

lemma conditional_write_text:
  "emit_conditional_serialize f indent ''ref val'' (prefixed_field prefix (cf_name f))
    = map_option (show_ser indent prefix) (conditional_write f (inner_wire_type_of f))"
  unfolding emit_conditional_serialize_def conditional_write_def
  by (simp add: gen_write_text option.map_comp o_def prefixed_field_def borrowed_value_expr_def split: wire_type.split)

definition gen_member_write :: "codec_field \<times> bitgroup_member \<Rightarrow> string \<times> nat \<times> nat" where
  "gen_member_write fm =
     (case fm of (f, m) \<Rightarrow> (rust_ident (cf_name f), bitgroup_mask (bm_member_width_bits m), unat (bm_member_offset_bits m)))"

definition gen_group_write :: "codec_field list \<Rightarrow> bitgroup_member \<Rightarrow> ser_stmt option" where
  "gen_group_write flds bg =
     map_option (SGroup (bitgroup_var (bm_group_id bg)) (bitgroup_rust_type (bm_total_bits bg))
         (map gen_member_write (group_members_of flds (bm_group_id bg))))
       (bitgroup_write_method (bm_total_bits bg) (bm_group_endianness bg))"

lemma gen_group_write_text:
  "emit_bitgroup_serialize flds indent prefix bg = map_option (show_ser indent prefix) (gen_group_write flds bg)"
proof -
  have m: "member_serialize indent g ty (prefixed_field prefix)
      = (\<lambda>fm. case gen_member_write fm of (x, msk, s) \<Rightarrow>
           (indent @ g @ '' |= (('' @ prefix @ x @ '' as '' @ ty @ '') & 0x'' @ show_hex msk @ '') << '' @ show_nat s @ '';'' @ nl))" for g ty
    by (auto simp: member_serialize_def gen_member_write_def Let_def prefixed_field_def fun_eq_iff)
  show ?thesis
    by (simp add: emit_bitgroup_serialize_def bitgroup_serialize_def gen_group_write_def Let_def option.map_comp o_def m)
qed

definition gen_ser :: "codec_field \<Rightarrow> codec_field list \<Rightarrow> u32 list \<Rightarrow> (ser_stmt list \<times> u32 list) option" where
  "gen_ser f flds emitted =
     (let one = map_option (\<lambda>s. ([s], emitted));
          plain = one (map_option (SWrite (rust_ident (cf_name f))) (gen_write (cf_wire_type f) (cf_ref_type_name f) (cf_endianness f)));
          bytes = one (Some (SBytes (rust_ident (cf_name f))));
          none = Some ([], emitted)
      in case cf_strategy f of
           StPrimitive \<Rightarrow> plain
         | StChecksum \<Rightarrow> plain
         | StBitGroup \<Rightarrow>
             (case cf_bitgroup_member f of
                Some bg \<Rightarrow>
                  if bm_group_id bg \<in> set emitted then none
                  else map_option (\<lambda>s. ([s], emitted @ [bm_group_id bg])) (gen_group_write flds bg)
              | None \<Rightarrow> none)
         | StBytesFixed \<Rightarrow> bytes
         | StBytesLength \<Rightarrow> bytes
         | StBytesRemaining \<Rightarrow> bytes
         | StBytesLor \<Rightarrow> bytes
         | StConditional \<Rightarrow> one (conditional_write f (inner_wire_type_of f))
         | StArray \<Rightarrow> (case cf_array_spec f of Some arr \<Rightarrow> one (gen_array_write f arr) | None \<Rightarrow> none)
         | StStruct \<Rightarrow> plain
         | StVarInt \<Rightarrow> plain
         | StContVarInt \<Rightarrow> plain)"

lemma show_ser_one [simp]: "show_sers indent prefix [] = []"
  "show_sers indent prefix (s # ss) = show_ser indent prefix s @ show_sers indent prefix ss"
  "show_sers indent prefix (ss @ ts) = show_sers indent prefix ss @ show_sers indent prefix ts"
  by (simp_all add: show_sers_def)

lemma gen_ser_text:
  assumes "cf_asn1_hint f = None"
  shows "emit_field_serialize f flds indent prefix emitted
    = map_option (\<lambda>(ss, em). (show_sers indent prefix ss, em)) (gen_ser f flds emitted)"
proof -
  have w: "write_stmt indent f (prefixed_field prefix (cf_name f)) = map_option (show_ser indent prefix)
      (map_option (SWrite (rust_ident (cf_name f))) (gen_write (cf_wire_type f) (cf_ref_type_name f) (cf_endianness f)))"
    by (simp add: write_stmt_def gen_write_text option.map_comp o_def prefixed_field_def)
  note texts = gen_array_write_text conditional_write_text gen_group_write_text
  show ?thesis
    unfolding emit_field_serialize_def gen_ser_def Let_def w texts
    by (cases "cf_strategy f")
      (auto simp: option.map_comp o_def case_prod_unfold assms prefixed_field_def split: option.split)
qed

fun gen_ser_items :: "codec_field list \<Rightarrow> u32 list \<Rightarrow> codec_item list \<Rightarrow> ser_stmt list option" where
  "gen_ser_items flds emitted [] = Some []"
| "gen_ser_items flds emitted (CiField field_id # items) =
     (case find_field flds field_id of
        Some f \<Rightarrow>
          Option.bind (gen_ser f flds emitted) (\<lambda>(ss, emitted). map_option (\<lambda>ts. ss @ ts) (gen_ser_items flds emitted items))
      | None \<Rightarrow> gen_ser_items flds emitted items)"
| "gen_ser_items flds emitted (CiDerived d # items) = gen_ser_items flds emitted items"
| "gen_ser_items flds emitted (CiRequire r # items) = gen_ser_items flds emitted items"

lemma no_asn1_lengths: "no_asn1 flds \<Longrightarrow> collect_asn1_length_field_names flds = []"
  by (induction flds) (auto simp: no_asn1_def collect_asn1_length_field_names_def asn1_length_field_def List.map_filter_def)

lemma serialize_loop_text:
  "no_asn1 flds \<Longrightarrow> serialize_items_loop (\<lambda>f. emit_field_serialize f flds indent prefix) flds emitted items
    = map_option (show_sers indent prefix) (gen_ser_items flds emitted items)"
proof (induction flds emitted items rule: gen_ser_items.induct)
  case (2 flds emitted field_id items)
  show ?case
  proof (cases "find_field flds field_id")
    case None
    then show ?thesis using 2 by simp
  next
    case (Some f)
    then have "cf_asn1_hint f = None" using 2(3) find_field_in by (fastforce simp: no_asn1_def list_all_iff)
    from gen_ser_text [OF this] Some 2 show ?thesis
      by (cases "gen_ser f flds emitted") (auto simp: ocat_Cons no_asn1_lengths split: option.splits)
  qed
qed simp_all

lemma serialize_text:
  "no_asn1 flds \<Longrightarrow> emit_serialize_items flds items indent prefix
    = map_option (show_sers indent prefix) (gen_ser_items flds [] items)"
  by (simp add: emit_serialize_items_def serialize_loop_text)

end
