(* ===== verification/RustBytes.thy ===== *)
theory RustBytes
  imports RustSem
begin

unbundle bit_operations_syntax

text \<open>
  What a write leaves in the buffer, and what a read of the same name takes from it. \<open>put\<close> is the
  algebra of writes: a write that succeeds is a \<open>put\<close> of its bytes. \<open>reads_back\<close> is the contract of a
  read: in front of the bytes of a value it returns the value and moves behind them. The lemmas
  \<open>scalar_pair\<close> and \<open>method_pair\<close> give both for every method name of the run-time library.
\<close>

named_theorems byte_simps \<open>writes as puts\<close>

section \<open>Puts\<close>

lemma put_ok: "writer_ok w \<Longrightarrow> put bs w = Inr w' \<Longrightarrow> writer_ok w'"
  by (auto simp: put_eq writer_ok_def split: if_splits)

lemma put_pos: "writer_ok w \<Longrightarrow> put bs w = Inr w' \<Longrightarrow> wpos w' = wpos w + length bs"
  by (auto simp: put_eq split: if_splits)

lemma put_length: "writer_ok w \<Longrightarrow> put bs w = Inr w' \<Longrightarrow> length (buf w') = length (buf w)"
  by (auto simp: put_eq split: if_splits)

lemma put_as_written: "writer_ok w \<Longrightarrow> put bs w = Inr w' \<Longrightarrow> as_written w' = as_written w @ bs"
  by (auto simp: put_eq as_written_def patch_def min_absorb2 split: if_splits)

lemma put_nil [simp]: "writer_ok w \<Longrightarrow> put [] w = Inr w"
  by (simp add: put_eq writer_ok_def patch_def)

lemma patch_patch: "p + length bs + length cs \<le> length xs \<Longrightarrow>
    patch (patch xs p bs) (p + length bs) cs = patch xs p (bs @ cs)"
  by (simp add: patch_def ac_simps)

lemma put_append:
  assumes "writer_ok w" "put bs w = Inr w1" "put cs w1 = Inr w2"
  shows "put (bs @ cs) w = Inr w2"
proof -
  have "writer_ok w1" using put_ok assms by blast
  with assms show ?thesis by (auto simp: put_eq patch_patch split: if_splits)
qed

lemma put_length_bound: "writer_ok w \<Longrightarrow> put bs w = Inr w' \<Longrightarrow> length bs < 2 ^ 63"
  by (auto simp: put_eq writer_ok_def split: if_splits)

section \<open>Reads\<close>

text \<open>\<open>at_bytes c bs\<close>: the unread part of the cursor is \<open>bs\<close>.\<close>

definition at_bytes :: "cursor \<Rightarrow> u8 list \<Rightarrow> bool" where
  "at_bytes c bs \<longleftrightarrow> cursor_ok c \<and> drop (pos c) (data c) = bs"

definition reads_back :: "(cursor \<Rightarrow> 'e + ('v \<times> cursor)) \<Rightarrow> 'v \<Rightarrow> u8 list \<Rightarrow> bool" where
  "reads_back rd v bs \<longleftrightarrow> (\<forall>c rest. at_bytes c (bs @ rest) \<longrightarrow> rd c = Inr (v, advance (length bs) c))"

lemma reads_backD: "reads_back rd v bs \<Longrightarrow> at_bytes c (bs @ rest) \<Longrightarrow> rd c = Inr (v, advance (length bs) c)"
  by (auto simp: reads_back_def)

lemma at_bytes_room: "at_bytes c (bs @ rest) \<Longrightarrow> pos c + length bs \<le> length (data c)"
proof -
  assume a: "at_bytes c (bs @ rest)"
  then have "length (data c) - pos c = length bs + length rest" "pos c \<le> length (data c)"
    by (auto simp: at_bytes_def cursor_ok_def dest: arg_cong [where f = length])
  then show ?thesis by linarith
qed

lemma at_bytes_advance: "at_bytes c (bs @ rest) \<Longrightarrow> at_bytes (advance (length bs) c) rest"
  using at_bytes_room [of c bs rest]
  by (auto simp: at_bytes_def cursor_ok_def advance_def add.commute simp flip: drop_drop)

lemma at_bytes_slice: "at_bytes c (bs @ rest) \<Longrightarrow> slice (data c) (pos c) (length bs) = bs"
  by (simp add: at_bytes_def slice_def)

lemma at_bytes_remaining: "at_bytes c bs \<Longrightarrow> remaining c = length bs"
  by (auto simp: at_bytes_def remaining_def)

lemma advance_advance [simp]: "advance n (advance m c) = advance (m + n) c"
  by (simp add: advance_def add.assoc)

lemma advance_0 [simp]: "advance 0 c = c"
  by (simp add: advance_def)

lemma read_bytes_back: "reads_back (read_bytes (length bs)) bs bs"
proof -
  have "read_bytes (length bs) c = Inr (bs, advance (length bs) c)" if "at_bytes c (bs @ rest)" for c rest
    using at_bytes_slice [OF that] at_bytes_room [OF that] that by (simp add: read_bytes_eq at_bytes_def)
  then show ?thesis by (simp add: reads_back_def)
qed

lemma read_remaining_back: "at_bytes c bs \<Longrightarrow> read_remaining c = (bs, advance (length bs) c)"
  by (auto simp: at_bytes_def read_remaining_def advance_def cursor_ok_def)

lemma sub_cursor_back:
  assumes "at_bytes c (bs @ rest)"
  shows "\<exists>s. sub_cursor (length bs) c = Inr (s, advance (length bs) c) \<and> at_bytes s bs"
proof -
  have "slice (data c) (pos c) (length bs) = bs" "pos c + length bs \<le> length (data c)" "cursor_ok c"
    using assms by (auto simp: at_bytes_slice at_bytes_room at_bytes_def)
  then show ?thesis by (auto simp: sub_cursor_eq at_bytes_def cursor_ok_def)
qed

section \<open>Methods\<close>

context wire_scalar
begin

lemma write_is_put: "writer_ok w \<Longrightarrow> wr v w = put (enc v) w"
  by (simp add: wr_eq put_eq length_enc)

lemma read_is_back: "valid v \<Longrightarrow> reads_back rd v (enc v)"
proof -
  assume v: "valid v"
  have "rd c = Inr (v, advance (length (enc v)) c)" if "at_bytes c (enc v @ rest)" for c rest
    using that at_bytes_room [OF that] at_bytes_slice [OF that] v
    by (auto simp: rd_eq length_enc dec_enc at_bytes_def)
  then show ?thesis by (simp add: reads_back_def)
qed

end

text \<open>A pair of integer methods on a range of values.\<close>

definition paired :: "(cursor \<Rightarrow> rt_error + (int \<times> cursor)) \<Rightarrow> (int \<Rightarrow> writer \<Rightarrow> rt_error + writer) \<Rightarrow> nat \<Rightarrow> int set \<Rightarrow> bool" where
  "paired rd wr n R \<longleftrightarrow> 0 < n \<and> (\<forall>k \<in> R. \<exists>bs. length bs = n \<and> (\<forall>w. writer_ok w \<longrightarrow> wr k w = put bs w) \<and> reads_back rd k bs)"

lemma paired_signed:
  assumes "wire_scalar n enc de (\<lambda>k. a \<le> k \<and> k < b) rd wr"
  shows "paired rd wr n {a..<b}"
  unfolding paired_def
proof (intro conjI ballI)
  show "0 < n" using wire_scalar.width_pos [OF assms] .
  fix k
  assume "k \<in> {a..<b}"
  then have "a \<le> k \<and> k < b" by auto
  then have "length (enc k) = n \<and> (\<forall>w. writer_ok w \<longrightarrow> wr k w = put (enc k) w) \<and> reads_back rd k (enc k)"
    using wire_scalar.write_is_put [OF assms] wire_scalar.read_is_back [OF assms] wire_scalar.length_enc [OF assms]
    by simp
  then show "\<exists>bs. length bs = n \<and> (\<forall>w. writer_ok w \<longrightarrow> wr k w = put bs w) \<and> reads_back rd k bs" by blast
qed

lemma paired_unsigned:
  fixes rd :: "cursor \<Rightarrow> rt_error + ('a::len word \<times> cursor)"
  assumes "wire_scalar n enc de P rd wr" "m \<le> LENGTH('a)"
    and "\<And>k. 0 \<le> k \<Longrightarrow> k < 2 ^ m \<Longrightarrow> P (word_of_int k)"
  shows "paired (lift_read rd) (lift_write wr) n {0..<2 ^ m}"
  unfolding paired_def
proof (intro conjI ballI)
  show "0 < n" using wire_scalar.width_pos [OF assms(1)] .
  fix k :: int
  assume k: "k \<in> {0..<2 ^ m}"
  let ?v = "word_of_int k :: 'a word"
  have "(2::int) ^ m \<le> 2 ^ LENGTH('a)" using assms(2) by simp
  then have "0 \<le> k" "k < 2 ^ LENGTH('a)" using k by (auto simp del: power_increasing_iff)
  then have u: "uint ?v = k" by (simp add: uint_word_of_int)
  have "reads_back rd ?v (enc ?v)" using wire_scalar.read_is_back [OF assms(1)] assms(3) k by simp
  then have "reads_back (lift_read rd) k (enc ?v)" by (auto simp: reads_back_def lift_read_def u)
  moreover have "\<forall>w. writer_ok w \<longrightarrow> lift_write wr k w = put (enc ?v) w"
    using wire_scalar.write_is_put [OF assms(1)] by (simp add: lift_write_def)
  ultimately show "\<exists>bs. length bs = n \<and> (\<forall>w. writer_ok w \<longrightarrow> lift_write wr k w = put bs w) \<and> reads_back (lift_read rd) k bs"
    using wire_scalar.length_enc [OF assms(1)] by blast
qed

lemma u24_range_below: "0 \<le> k \<Longrightarrow> k < 2 ^ 24 \<Longrightarrow> u24_range (word_of_int k)"
  unfolding u24_range_def
  by (simp only: word_uint_eq_iff unsigned_take_bit_eq uint_word_of_int) (simp add: take_bit_eq_mod)


text \<open>The values that a method carries, by the suffix of its name.\<close>

definition suffix_width :: "(string \<times> nat \<times> int set) list" where
  "suffix_width =
     [(''u8'', 1, {0..<2 ^ 8}), (''u16be'', 2, {0..<2 ^ 16}), (''u16le'', 2, {0..<2 ^ 16}),
      (''u24be'', 3, {0..<2 ^ 24}), (''u24le'', 3, {0..<2 ^ 24}), (''u32be'', 4, {0..<2 ^ 32}),
      (''u32le'', 4, {0..<2 ^ 32}), (''u64be'', 8, {0..<2 ^ 64}), (''u64le'', 8, {0..<2 ^ 64}),
      (''i8'', 1, {- (2 ^ 7)..<2 ^ 7}), (''i16be'', 2, {- (2 ^ 15)..<2 ^ 15}), (''i16le'', 2, {- (2 ^ 15)..<2 ^ 15}),
      (''i32be'', 4, {- (2 ^ 31)..<2 ^ 31}), (''i32le'', 4, {- (2 ^ 31)..<2 ^ 31}),
      (''i64be'', 8, {- (2 ^ 63)..<2 ^ 63}), (''i64le'', 8, {- (2 ^ 63)..<2 ^ 63})]"

lemmas paired_u8 = paired_unsigned [OF sc_u8.wire_scalar_axioms, of 8, simplified]
lemmas paired_u16 = paired_unsigned [OF sc_u16be.wire_scalar_axioms, of 16, simplified]
  paired_unsigned [OF sc_u16le.wire_scalar_axioms, of 16, simplified]
lemmas paired_u24 = paired_unsigned [OF sc_u24be.wire_scalar_axioms, of 24, OF _ u24_range_below, simplified]
  paired_unsigned [OF sc_u24le.wire_scalar_axioms, of 24, OF _ u24_range_below, simplified]
lemmas paired_u32 = paired_unsigned [OF sc_u32be.wire_scalar_axioms, of 32, simplified]
  paired_unsigned [OF sc_u32le.wire_scalar_axioms, of 32, simplified]
lemmas paired_u64 = paired_unsigned [OF sc_u64be.wire_scalar_axioms, of 64, simplified]
  paired_unsigned [OF sc_u64le.wire_scalar_axioms, of 64, simplified]
lemmas paired_signs = paired_signed [OF sc_i8.signed.wire_scalar_axioms, simplified]
  paired_signed [OF sc_i16be.signed.wire_scalar_axioms, simplified]
  paired_signed [OF sc_i16le.signed.wire_scalar_axioms, simplified]
  paired_signed [OF sc_i32be.signed.wire_scalar_axioms, simplified]
  paired_signed [OF sc_i32le.signed.wire_scalar_axioms, simplified]
  paired_signed [OF sc_i64be.signed.wire_scalar_axioms, simplified]
  paired_signed [OF sc_i64le.signed.wire_scalar_axioms, simplified]

lemmas paired_methods = paired_u8 paired_u16 paired_u24 paired_u32 paired_u64 paired_signs

lemma tables_paired:
  "list_all2 (\<lambda>(s, rd) ((s', wr), (s'', n, R)). s = s' \<and> s = s'' \<and> paired rd wr n R) read_table (zip write_table suffix_width)"
  by (simp add: read_table_def write_table_def suffix_width_def paired_methods)

lemma paired_lookup:
  assumes "list_all2 (\<lambda>(s, rd) ((s', wr), (s'', n, R)). s = s' \<and> s = s'' \<and> paired rd wr n R) rs (zip ws ns)"
    and "length ws = length rs" "length ns = length rs" "map_of ns s = Some (n, R)"
  shows "\<exists>rd wr. map_of rs s = Some rd \<and> map_of ws s = Some wr \<and> paired rd wr n R"
  using assms
proof (induction rs arbitrary: ws ns)
  case (Cons r rs)
  then show ?case
    by (cases ws; cases ns) (auto split: if_splits)
qed simp

lemma method_pair:
  assumes "map_of suffix_width s = Some (n, R)"
  shows "\<exists>rd wr. cursor_method (''read_'' @ s) = Some rd \<and> writer_method (''write_'' @ s) = Some wr \<and> paired rd wr n R"
proof -
  have "length write_table = length read_table" "length suffix_width = length read_table"
    by (simp_all add: read_table_def write_table_def suffix_width_def)
  from paired_lookup [OF tables_paired this assms] show ?thesis
    by (simp add: cursor_method_def writer_method_def)
qed

end
