(* ===== verification/RustRound.thy ===== *)
theory RustRound
  imports RustGen RustBytes
begin

unbundle bit_operations_syntax

text \<open>
  What the generated \<open>serialize\<close> of a packet writes, the generated \<open>parse\<close> reads back. \<open>fits_items\<close> says
  which values a packet can carry: every field is in the range of its wire type, the length and count
  expressions have the lengths that are there, the conditions of optional fields tell whether they are
  there, the \<open>require\<close> items hold, and only the last field takes the rest of the input. The calls of
  functions generated for other types meet the locale \<open>nested_calls\<close>.
\<close>

section \<open>Values that fit\<close>

definition agrees :: "env \<Rightarrow> string set \<Rightarrow> env \<Rightarrow> bool" where
  "agrees self B env \<longleftrightarrow> (\<forall>x \<in> B. env x = self x)"

text \<open>An expression of the source whose text has one value as soon as the variables of \<open>B\<close> are bound.\<close>

definition evaluates :: "(env \<Rightarrow> string \<Rightarrow> rval option) \<Rightarrow> env \<Rightarrow> string set \<Rightarrow> codec_expr \<Rightarrow> rval \<Rightarrow> bool" where
  "evaluates ev self B e v \<longleftrightarrow>
     (case expr_to_rust_with_aliases CtxParse [] e of
        Some t \<Rightarrow> \<forall>env. agrees self B env \<longrightarrow> ev env t = Some v
      | None \<Rightarrow> False)"

definition tests :: "(env \<Rightarrow> string \<Rightarrow> rval option) \<Rightarrow> env \<Rightarrow> string set \<Rightarrow> codec_expr \<Rightarrow> bool \<Rightarrow> bool" where
  "tests ev self B e b \<longleftrightarrow>
     (case expr_to_rust_bool_with_field_aliases CtxParse [] e of
        Some t \<Rightarrow> \<forall>env. agrees self B env \<longrightarrow> ev env t = Some (RBool b)
      | None \<Rightarrow> False)"

definition scalar_fits :: "(callee \<Rightarrow> rval \<Rightarrow> bool) \<Rightarrow> wire_type \<Rightarrow> string option \<Rightarrow> endianness option \<Rightarrow> rval \<Rightarrow> bool" where
  "scalar_fits valid wt r e v \<longleftrightarrow>
     (case gen_write wt r e of
        Some (WrMethod m) \<Rightarrow>
          (case (v, map_of suffix_width (drop 6 m)) of (RInt k, Some (n, R)) \<Rightarrow> k \<in> R | _ \<Rightarrow> False)
      | Some WrBool \<Rightarrow> (case v of RBool b \<Rightarrow> True | _ \<Rightarrow> False)
      | Some (WrCall f) \<Rightarrow> valid f v
      | None \<Rightarrow> False)"

definition bytes_fit :: "(env \<Rightarrow> string \<Rightarrow> rval option) \<Rightarrow> env \<Rightarrow> bool \<Rightarrow> string set \<Rightarrow> bytes_spec option \<Rightarrow> u8 list \<Rightarrow> bool" where
  "bytes_fit ev self at_end B spec bs \<longleftrightarrow>
     (case spec of
        Some (BsFixed n) \<Rightarrow> length bs = unat n
      | Some (BsLength e) \<Rightarrow> evaluates ev self B e (RInt (int (length bs)))
      | Some (BsLengthOrRemaining e) \<Rightarrow>
          let x = rust_ident (extract_field_name (get_value_ref_id e))
          in x \<in> B \<and> (self x = Some (ROpt (Some (RInt (int (length bs))))) \<or> self x = Some (ROpt None) \<and> at_end)
      | Some BsRemaining \<Rightarrow> at_end
      | None \<Rightarrow> at_end)"

text \<open>The bits of the members of a group, as offset and width.\<close>

definition member_bits :: "codec_field \<times> bitgroup_member \<Rightarrow> nat \<times> nat" where
  "member_bits fm = (unat (bm_member_offset_bits (snd fm)), unat (bm_member_width_bits (snd fm)))"

definition disjoint_bits :: "(nat \<times> nat) list \<Rightarrow> bool" where
  "disjoint_bits rs \<longleftrightarrow> sorted_wrt (\<lambda>(o1, w1) (o2, w2). o1 + w1 \<le> o2 \<or> o2 + w2 \<le> o1) rs"

definition member_fits :: "env \<Rightarrow> string \<Rightarrow> nat \<Rightarrow> codec_field \<times> bitgroup_member \<Rightarrow> bool" where
  "member_fits self g bits fm \<longleftrightarrow>
     (let x = rust_ident (cf_name (fst fm)); (off, width) = member_bits fm
      in x \<noteq> g \<and> off + width \<le> bits \<and> width \<le> type_bits (wire_type_to_rust (cf_wire_type (fst fm))) \<and>
         (case self x of Some (RInt k) \<Rightarrow> 0 \<le> k \<and> k < 2 ^ width | _ \<Rightarrow> False))"

definition group_fits :: "env \<Rightarrow> string set \<Rightarrow> codec_field list \<Rightarrow> bitgroup_member \<Rightarrow> bool" where
  "group_fits self B flds bg \<longleftrightarrow>
     (let g = bitgroup_var (bm_group_id bg); fms = group_members_of flds (bm_group_id bg)
      in g \<notin> B \<and> list_all (member_fits self g (unat (bm_total_bits bg))) fms \<and> disjoint_bits (map member_bits fms))"

definition size_is :: "(writer \<Rightarrow> 'e + writer) \<Rightarrow> nat \<Rightarrow> bool" where
  "size_is wr n \<longleftrightarrow> (\<forall>w w'. writer_ok w \<longrightarrow> wr w = Inr w' \<longrightarrow> wpos w' = wpos w + n)"

definition nonempty :: "(writer \<Rightarrow> 'e + writer) \<Rightarrow> bool" where
  "nonempty wr \<longleftrightarrow> (\<forall>w w'. writer_ok w \<longrightarrow> wr w = Inr w' \<longrightarrow> wpos w < wpos w')"

definition array_fits :: "(env \<Rightarrow> string \<Rightarrow> rval option) \<Rightarrow> (callee \<Rightarrow> rval \<Rightarrow> writer \<Rightarrow> gen_error + writer)
    \<Rightarrow> (callee \<Rightarrow> rval \<Rightarrow> bool) \<Rightarrow> env \<Rightarrow> bool \<Rightarrow> string set \<Rightarrow> codec_field \<Rightarrow> array_spec \<Rightarrow> rval list \<Rightarrow> bool" where
  "array_fits ev scall valid self at_end B f arr vs \<longleftrightarrow>
     (case gen_write (ar_element_wire_type arr) (ar_element_ref_type_name arr) None of
        None \<Rightarrow> False
      | Some we \<Rightarrow>
          length vs \<le> max_elems f \<and>
          (\<forall>v \<in> set vs. scalar_fits valid (ar_element_wire_type arr) (ar_element_ref_type_name arr) None v) \<and>
          (case ar_count_expr arr of
             Some e \<Rightarrow> length vs < 2 ^ 64 \<and> evaluates ev self B e (RInt (int (length vs)))
           | None \<Rightarrow>
               (\<forall>v \<in> set vs. nonempty (run_write scall we v)) \<and>
               (case ar_within_expr arr of
                  Some e \<Rightarrow> \<exists>n. size_is (write_all (run_write scall we) vs) n \<and> evaluates ev self B e (RInt (int n))
                | None \<Rightarrow> at_end)))"

definition inner_fits :: "(env \<Rightarrow> string \<Rightarrow> rval option) \<Rightarrow> (callee \<Rightarrow> rval \<Rightarrow> bool) \<Rightarrow> env \<Rightarrow> bool \<Rightarrow> string set
    \<Rightarrow> codec_field \<Rightarrow> rval \<Rightarrow> bool" where
  "inner_fits ev valid self at_end B f v \<longleftrightarrow>
     (if inner_wire_type_of f = WBytes
      then (case v of RBytes bs \<Rightarrow> bytes_fit ev self at_end B (cf_bytes_spec f) bs | _ \<Rightarrow> False)
      else scalar_fits valid (inner_wire_type_of f) (cf_ref_type_name f) (cf_endianness f) v)"

definition field_fits :: "(env \<Rightarrow> string \<Rightarrow> rval option) \<Rightarrow> (callee \<Rightarrow> rval \<Rightarrow> writer \<Rightarrow> gen_error + writer)
    \<Rightarrow> (callee \<Rightarrow> rval \<Rightarrow> bool) \<Rightarrow> env \<Rightarrow> codec_field list \<Rightarrow> bool \<Rightarrow> string set \<Rightarrow> u32 list \<Rightarrow> codec_field \<Rightarrow> bool" where
  "field_fits ev scall valid self flds at_end B emitted f \<longleftrightarrow>
     (let v = self (rust_ident (cf_name f));
          plain = (case v of Some v \<Rightarrow> scalar_fits valid (cf_wire_type f) (cf_ref_type_name f) (cf_endianness f) v | None \<Rightarrow> False);
          bytes = (\<lambda>spec. case v of Some (RBytes bs) \<Rightarrow> bytes_fit ev self at_end B spec bs | _ \<Rightarrow> False)
      in case cf_strategy f of
           StPrimitive \<Rightarrow> plain | StChecksum \<Rightarrow> plain | StStruct \<Rightarrow> plain | StVarInt \<Rightarrow> plain | StContVarInt \<Rightarrow> plain
         | StBitGroup \<Rightarrow>
             (case cf_bitgroup_member f of
                Some bg \<Rightarrow> bm_group_id bg \<in> set emitted \<or> group_fits self B flds bg
              | None \<Rightarrow> False)
         | StBytesFixed \<Rightarrow> (case cf_bytes_spec f of Some (BsFixed n) \<Rightarrow> bytes (cf_bytes_spec f) | _ \<Rightarrow> False)
         | StBytesLength \<Rightarrow> (case cf_bytes_spec f of Some (BsLength e) \<Rightarrow> bytes (cf_bytes_spec f) | _ \<Rightarrow> False)
         | StBytesRemaining \<Rightarrow> bytes (Some BsRemaining)
         | StBytesLor \<Rightarrow> (case cf_bytes_spec f of Some (BsLengthOrRemaining e) \<Rightarrow> bytes (cf_bytes_spec f) | _ \<Rightarrow> False)
         | StConditional \<Rightarrow>
             (case cf_condition f of
                Some cond \<Rightarrow>
                  (case v of
                     Some (ROpt None) \<Rightarrow> tests ev self B cond False
                   | Some (ROpt (Some v)) \<Rightarrow> tests ev self B cond True \<and> inner_fits ev valid self at_end B f v
                   | _ \<Rightarrow> False)
              | None \<Rightarrow> False)
         | StArray \<Rightarrow>
             (case cf_array_spec f of
                Some arr \<Rightarrow>
                  (case (v, self (rust_count_ident (cf_name f))) of
                     (Some (RArr vs), Some (RInt n)) \<Rightarrow>
                       n = int (length vs) \<and> array_fits ev scall valid self at_end B f arr vs
                   | _ \<Rightarrow> False)
              | None \<Rightarrow> False))"

text \<open>The variables that the parse statements of a field bind, and the groups they have read.\<close>

definition group_names :: "codec_field list \<Rightarrow> u32 \<Rightarrow> string set" where
  "group_names flds group_id = (\<lambda>fm. rust_ident (cf_name (fst fm))) ` set (group_members_of flds group_id)"

definition field_binds :: "codec_field list \<Rightarrow> u32 list \<Rightarrow> codec_field \<Rightarrow> string set" where
  "field_binds flds emitted f =
     (case cf_strategy f of
        StBitGroup \<Rightarrow>
          (case cf_bitgroup_member f of
             Some bg \<Rightarrow> if bm_group_id bg \<in> set emitted then {} else group_names flds (bm_group_id bg)
           | None \<Rightarrow> {})
      | StArray \<Rightarrow> {rust_ident (cf_name f), rust_count_ident (cf_name f)}
      | _ \<Rightarrow> {rust_ident (cf_name f)})"

definition next_emitted :: "u32 list \<Rightarrow> codec_field \<Rightarrow> u32 list" where
  "next_emitted emitted f =
     (case (cf_strategy f, cf_bitgroup_member f) of
        (StBitGroup, Some bg) \<Rightarrow> if bm_group_id bg \<in> set emitted then emitted else emitted @ [bm_group_id bg]
      | _ \<Rightarrow> emitted)"

fun is_field_item :: "codec_item \<Rightarrow> bool" where
  "is_field_item (CiField i) = True"
| "is_field_item _ = False"

text \<open>\<open>open_end\<close>: the packet may end in a field that takes the rest of the input.\<close>

fun fits_items :: "(env \<Rightarrow> string \<Rightarrow> rval option) \<Rightarrow> (callee \<Rightarrow> rval \<Rightarrow> writer \<Rightarrow> gen_error + writer)
    \<Rightarrow> (callee \<Rightarrow> rval \<Rightarrow> bool) \<Rightarrow> env \<Rightarrow> codec_field list \<Rightarrow> bool \<Rightarrow> string set \<Rightarrow> u32 list \<Rightarrow> codec_item list \<Rightarrow> bool" where
  "fits_items ev scall valid self flds open_end B emitted [] = True"
| "fits_items ev scall valid self flds open_end B emitted (CiField i # items) =
     (case find_field flds i of
        None \<Rightarrow> False
      | Some f \<Rightarrow>
          field_fits ev scall valid self flds (open_end \<and> \<not> list_ex is_field_item items) B emitted f \<and>
          fits_items ev scall valid self flds open_end (B \<union> field_binds flds emitted f) (next_emitted emitted f) items)"
| "fits_items ev scall valid self flds open_end B emitted (CiDerived d # items) =
     (case self (rust_ident (cd_name d)) of
        None \<Rightarrow> False
      | Some v \<Rightarrow> evaluates ev self B (cd_expr d) v \<and>
          fits_items ev scall valid self flds open_end (insert (rust_ident (cd_name d)) B) emitted items)"
| "fits_items ev scall valid self flds open_end B emitted (CiRequire r # items) =
     (evaluates ev self B (cr_expr r) (RBool True) \<and> fits_items ev scall valid self flds open_end B emitted items)"


section \<open>Scalars\<close>

definition carries :: "(writer \<Rightarrow> 'e + writer) \<Rightarrow> (cursor \<Rightarrow> 'f + ('v \<times> cursor)) \<Rightarrow> 'v \<Rightarrow> bool" where
  "carries wr rd v \<longleftrightarrow>
     (\<forall>w w'. writer_ok w \<longrightarrow> wr w = Inr w' \<longrightarrow> (\<exists>bs. put bs w = Inr w' \<and> reads_back rd v bs))"

lemma carriesE:
  assumes "carries wr rd v" "writer_ok w" "wr w = Inr w'"
  obtains bs where "put bs w = Inr w'" "reads_back rd v bs" "writer_ok w'"
  using assms put_ok unfolding carries_def by blast

locale nested_calls =
  fixes pcall :: "callee \<Rightarrow> cursor \<Rightarrow> gen_error + (rval \<times> cursor)"
    and scall :: "callee \<Rightarrow> rval \<Rightarrow> writer \<Rightarrow> gen_error + writer"
    and valid :: "callee \<Rightarrow> rval \<Rightarrow> bool"
  assumes nested: "valid f v \<Longrightarrow> carries (scall f v) (pcall f) v"

lemma method_carries:
  assumes "map_of suffix_width s = Some (n, R)" "k \<in> R"
  shows "carries (run_write scall (WrMethod (''write_'' @ s)) (RInt k)) (run_read ev pcall env (RdMethod (''read_'' @ s))) (RInt k)"
proof -
  from method_pair [OF assms(1)] obtain rd wr where m: "cursor_method (''read_'' @ s) = Some rd"
    "writer_method (''write_'' @ s) = Some wr" "paired rd wr n R" by blast
  from m(3) assms(2) obtain bs where bs: "\<forall>w. writer_ok w \<longrightarrow> wr k w = put bs w" "reads_back rd k bs"
    unfolding paired_def by blast
  have "reads_back (run_read ev pcall env (RdMethod (''read_'' @ s))) (RInt k) bs"
    using bs(2) m(1) by (auto simp: reads_back_def)
  then show ?thesis using bs(1) m(2) by (auto simp: carries_def rmap_err_eq_Inr_iff)
qed

lemma bool_carries: "carries (run_write scall WrBool (RBool b)) (run_read ev pcall env RdBool) (RBool b)"
proof -
  have "reads_back read_u8 (if b then 1 else 0) [if b then 1 else 0]"
    by (rule sc_u8.read_is_back) simp
  then have "reads_back (run_read ev pcall env RdBool) (RBool b) [if b then 1 else 0]"
    by (auto simp: reads_back_def)
  moreover have "writer_ok w \<Longrightarrow> write_u8 (if b then 1 else 0) w = put [if b then 1 else 0] w" for w
    by (rule sc_u8.write_is_put)
  ultimately show ?thesis by (auto simp: carries_def rmap_err_eq_Inr_iff)
qed

lemma scalar_fits_method: "gen_write wt r e = Some (WrMethod (''write_'' @ s)) \<Longrightarrow> scalar_fits valid wt r e v \<Longrightarrow>
    \<exists>k n R. v = RInt k \<and> map_of suffix_width s = Some (n, R) \<and> k \<in> R"
  by (cases v; cases "map_of suffix_width s") (auto simp: scalar_fits_def)

lemma gen_write_read: "gen_write wt r e = Some we \<Longrightarrow> gen_read wt r e = Some re \<Longrightarrow>
    (\<exists>s. we = WrMethod (''write_'' @ s) \<and> re = RdMethod (''read_'' @ s)) \<or> we = WrBool \<and> re = RdBool
    \<or> (\<exists>f. we = WrCall f \<and> re = RdCall f)"
  by (cases wt; cases r) (auto simp: gen_write_def gen_read_def cursor_read_method_def writer_write_method_def)

context nested_calls
begin

lemma scalar_carries:
  assumes "gen_write wt r e = Some we" "gen_read wt r e = Some re" "scalar_fits valid wt r e v"
  shows "carries (run_write scall we v) (run_read ev pcall env re) v"
proof -
  consider s where "we = WrMethod (''write_'' @ s)" "re = RdMethod (''read_'' @ s)"
    | "we = WrBool" "re = RdBool" | f where "we = WrCall f" "re = RdCall f"
    using gen_write_read [OF assms(1,2)] by blast
  then show ?thesis
  proof cases
    case 1
    then obtain k n R where "v = RInt k" "map_of suffix_width s = Some (n, R)" "k \<in> R"
      using scalar_fits_method assms(1,3) by blast
    then show ?thesis using 1 method_carries by blast
  next
    case 2
    then show ?thesis using assms(1,3) bool_carries by (auto simp: scalar_fits_def split: rval.splits)
  next
    case 3
    have "run_write scall (WrCall f) v = scall f v" "run_read ev pcall env (RdCall f) = pcall f" by auto
    then show ?thesis using 3 assms(1,3) nested by (auto simp: scalar_fits_def)
  qed
qed

end


section \<open>Bit groups\<close>

definition member_value :: "env \<Rightarrow> codec_field \<times> bitgroup_member \<Rightarrow> int" where
  "member_value self fm = (case self (rust_ident (cf_name (fst fm))) of Some (RInt k) \<Rightarrow> k | _ \<Rightarrow> 0)"

definition joined :: "env \<Rightarrow> (codec_field \<times> bitgroup_member) list \<Rightarrow> int \<Rightarrow> int" where
  "joined self fms acc = fold (\<lambda>fm acc. acc OR push_bit (fst (member_bits fm)) (member_value self fm)) fms acc"

lemma mask_int: "unat w \<le> 64 \<Longrightarrow> int (bitgroup_mask w) = mask (unat w)"
  by (cases "unat w = 64") (simp_all add: bitgroup_mask_def mask_eq_exp_minus_1 of_nat_diff)

lemma member_fitsE:
  assumes "member_fits self g bits fm"
  obtains k off width where "self (rust_ident (cf_name (fst fm))) = Some (RInt k)" "member_value self fm = k"
    "member_bits fm = (off, width)" "take_bit width k = k" "off + width \<le> bits" "rust_ident (cf_name (fst fm)) \<noteq> g"
    "width \<le> type_bits (wire_type_to_rust (cf_wire_type (fst fm)))"
proof -
  obtain off width where b: "member_bits fm = (off, width)" by fastforce
  from assms b obtain k where k: "self (rust_ident (cf_name (fst fm))) = Some (RInt k)" "0 \<le> k" "k < 2 ^ width"
    by (auto simp: member_fits_def Let_def split: option.splits rval.splits)
  then have "take_bit width k = k" by (simp add: take_bit_int_eq_self)
  with that k(1) b assms show thesis by (auto simp: member_fits_def Let_def member_value_def)
qed

lemma take_push_fit:
  assumes "take_bit width k = (k::int)" "off + width \<le> n"
  shows "take_bit n (push_bit off (take_bit n k AND mask width)) = push_bit off k"
proof -
  have "take_bit n k AND mask width = take_bit (min width n) k"
    by (simp only: take_bit_eq_mask [symmetric] take_bit_take_bit)
  then have "take_bit n k AND mask width = k" using assms by (simp add: min_absorb1)
  moreover have "take_bit (n - off) (take_bit width k) = take_bit width k"
    using assms(2) by (simp add: min_absorb2)
  ultimately show ?thesis using assms by (simp add: take_bit_push_bit)
qed

lemma join_members_eq:
  assumes "list_all (member_fits self g bits) fms" "bits \<le> n" "n \<le> 64"
  shows "join_members self n (map gen_member_write fms) acc = Some (joined self fms acc)"
  using assms(1)
proof (induction fms arbitrary: acc)
  case (Cons fm fms)
  then have "member_fits self g bits fm" by simp
  then obtain k off width where m: "self (rust_ident (cf_name (fst fm))) = Some (RInt k)" "member_value self fm = k"
    "member_bits fm = (off, width)" "take_bit width k = k" "off + width \<le> bits" by (rule member_fitsE)
  have w: "gen_member_write fm = (rust_ident (cf_name (fst fm)), bitgroup_mask (bm_member_width_bits (snd fm)), off)"
    "width = unat (bm_member_width_bits (snd fm))"
    using m(3) by (auto simp: gen_member_write_def member_bits_def split: prod.split)
  have "int (bitgroup_mask (bm_member_width_bits (snd fm))) = mask width"
    using m(5) assms w(2) by (simp add: mask_int)
  then have "take_bit n (push_bit off (take_bit n k AND int (bitgroup_mask (bm_member_width_bits (snd fm))))) = push_bit off k"
    using take_push_fit [OF m(4), of off n] m(5) assms by simp
  then have "join_members self n (map gen_member_write (fm # fms)) acc
      = join_members self n (map gen_member_write fms) (acc OR push_bit off k)"
    by (simp only: list.map w(1) join_members.simps m(1) option.case rval.case)
  also have "\<dots> = Some (joined self fms (acc OR push_bit off k))" using Cons by simp
  also have "joined self fms (acc OR push_bit off k) = joined self (fm # fms) acc" using m by (simp add: joined_def)
  finally show ?case .
qed (simp add: joined_def)

lemma bit_joined: "bit (joined self fms acc) n \<longleftrightarrow>
    bit acc n \<or> (\<exists>fm \<in> set fms. fst (member_bits fm) \<le> n \<and> bit (member_value self fm) (n - fst (member_bits fm)))"
  by (induction fms arbitrary: acc) (auto simp: joined_def bit_simps)

lemma fit_bit: "take_bit width k = (k::int) \<Longrightarrow> bit k n \<Longrightarrow> n < width"
  by (metis bit_take_bit_iff)

lemma joined_bound:
  assumes "list_all (member_fits self g bits) fms"
  shows "0 \<le> joined self fms 0 \<and> joined self fms 0 < 2 ^ bits"
proof -
  have "take_bit bits (joined self fms 0) = joined self fms 0"
  proof (rule bit_eqI)
    fix n
    have "n < bits" if "fm \<in> set fms" "fst (member_bits fm) \<le> n" "bit (member_value self fm) (n - fst (member_bits fm))" for fm
    proof -
      have "member_fits self g bits fm" using assms that(1) by (simp add: list_all_iff)
      then show ?thesis using that(2,3) by (elim member_fitsE) (auto dest!: fit_bit)
    qed
    then show "bit (take_bit bits (joined self fms 0)) n = bit (joined self fms 0) n"
      by (auto simp: bit_take_bit_iff bit_joined)
  qed
  then show ?thesis by (simp add: take_bit_int_eq_self_iff)
qed

lemma disjoint_nth: "disjoint_bits rs \<Longrightarrow> i < length rs \<Longrightarrow> j < length rs \<Longrightarrow> i \<noteq> j \<Longrightarrow>
    fst (rs ! i) + snd (rs ! i) \<le> fst (rs ! j) \<or> fst (rs ! j) + snd (rs ! j) \<le> fst (rs ! i)"
  unfolding disjoint_bits_def sorted_wrt_iff_nth_less case_prod_unfold
  by (metis linorder_neqE_nat)

lemma joined_extract:
  assumes "list_all (member_fits self g bits) fms" "disjoint_bits (map member_bits fms)" "fm \<in> set fms"
    and "member_bits fm = (off, width)"
  shows "take_bit width (drop_bit off (joined self fms 0)) = member_value self fm"
proof (rule bit_eqI)
  fix n
  from assms(3) obtain i where i: "i < length fms" "fm = fms ! i" by (auto simp: in_set_conv_nth)
  have fit: "take_bit (snd (member_bits fm')) (member_value self fm') = member_value self fm'" if "fm' \<in> set fms" for fm'
  proof -
    have "member_fits self g bits fm'" using assms(1) that by (simp add: list_all_iff)
    then show ?thesis by (elim member_fitsE) simp
  qed
  have other: "bit (member_value self fm) n"
    if "n < width" "fm' \<in> set fms" "fst (member_bits fm') \<le> off + n" "bit (member_value self fm') (off + n - fst (member_bits fm'))" for fm'
  proof -
    from that(2) obtain j where j: "j < length fms" "fm' = fms ! j" by (auto simp: in_set_conv_nth)
    have lt: "off + n - fst (member_bits fm') < snd (member_bits fm')" using fit_bit [OF fit that(4)] that(2) by simp
    have "i = j"
    proof (rule ccontr)
      assume "i \<noteq> j"
      with assms(2) i(1) j(1) have "fst (member_bits (fms ! i)) + snd (member_bits (fms ! i)) \<le> fst (member_bits (fms ! j))
          \<or> fst (member_bits (fms ! j)) + snd (member_bits (fms ! j)) \<le> fst (member_bits (fms ! i))"
        using disjoint_nth [OF assms(2), of i j] by simp
      then show False using that(1,3) lt i j assms(4) by auto
    qed
    then show ?thesis using that(4) i j assms(4) by simp
  qed
  show "bit (take_bit width (drop_bit off (joined self fms 0))) n = bit (member_value self fm) n"
  proof
    assume "bit (take_bit width (drop_bit off (joined self fms 0))) n"
    then show "bit (member_value self fm) n" using other by (auto simp: bit_simps bit_joined ac_simps)
  next
    assume b: "bit (member_value self fm) n"
    then have "n < width" using fit_bit [OF fit [OF assms(3)]] assms(4) by simp
    then show "bit (take_bit width (drop_bit off (joined self fms 0))) n"
      using b assms(3,4) by (force simp: bit_simps bit_joined)
  qed
qed


text \<open>The statements of a group.\<close>

lemma agrees_update: "agrees self B env \<Longrightarrow> self x = Some v \<Longrightarrow> agrees self (insert x B) (env(x \<mapsto> v))"
  by (auto simp: agrees_def)

lemma agrees_fresh: "agrees self B env \<Longrightarrow> x \<notin> B \<Longrightarrow> agrees self B (env(x \<mapsto> v))"
  by (auto simp: agrees_def)

lemma run_members:
  assumes "env g = Some (RInt k)"
    and "\<And>fm. fm \<in> set fms \<Longrightarrow> \<exists>v. run_stmt ev pcall (gen_member g fm) = (\<lambda>(env, c). case env g of
            Some (RInt i) \<Rightarrow> Inr (env(rust_ident (cf_name (fst fm)) \<mapsto> RInt (v i)), c) | _ \<Rightarrow> Inl Stuck)
          \<and> self (rust_ident (cf_name (fst fm))) = Some (RInt (v k)) \<and> rust_ident (cf_name (fst fm)) \<noteq> g"
    and "agrees self B env"
  shows "\<exists>env'. run_parse ev pcall (map (gen_member g) fms) (env, c) = Inr (env', c)
    \<and> agrees self (B \<union> (\<lambda>fm. rust_ident (cf_name (fst fm))) ` set fms) env'"
  using assms
proof (induction fms arbitrary: env B)
  case (Cons fm fms)
  let ?x = "rust_ident (cf_name (fst fm))"
  from Cons.prems(2) [of fm] obtain v where v: "run_stmt ev pcall (gen_member g fm) (env, c) = Inr (env(?x \<mapsto> RInt (v k)), c)"
    "self ?x = Some (RInt (v k))" "?x \<noteq> g" using Cons.prems(1) by auto
  have "\<exists>env'. run_parse ev pcall (map (gen_member g) fms) (env(?x \<mapsto> RInt (v k)), c) = Inr (env', c)
      \<and> agrees self (insert ?x B \<union> (\<lambda>fm. rust_ident (cf_name (fst fm))) ` set fms) env'"
    by (rule Cons.IH [OF _ _ agrees_update [OF Cons.prems(3) v(2)]]) (use Cons.prems v(3) in auto)
  then show ?case using v(1) by simp
qed auto

lemma bitgroup_suffix_width:
  assumes "bitgroup_suffix (unat bits) e = Some s"
  shows "\<exists>n. unat bits \<le> type_bits (bitgroup_rust_type bits) \<and> type_bits (bitgroup_rust_type bits) \<le> 64
    \<and> map_of suffix_width s = Some (n, {0..<2 ^ type_bits (bitgroup_rust_type bits)})"
proof -
  let ?o = "if e = Little then ''le'' else ''be''"
  from assms consider "0 < unat bits" "unat bits \<le> 8" "s = ''u8''" | "8 < unat bits" "unat bits \<le> 16" "s = ''u16'' @ ?o"
    | "16 < unat bits" "unat bits \<le> 32" "s = ''u32'' @ ?o" | "32 < unat bits" "unat bits \<le> 64" "s = ''u64'' @ ?o"
    unfolding bitgroup_suffix_def Let_def by (simp split: if_split_asm)
  then show ?thesis
  proof cases
    case 1
    then have "type_bits (bitgroup_rust_type bits) = 8" by (simp add: bitgroup_rust_type_def type_bits_def)
    with 1 show ?thesis by (simp add: suffix_width_def)
  next
    case 2
    then have "type_bits (bitgroup_rust_type bits) = 16" by (simp add: bitgroup_rust_type_def type_bits_def)
    with 2 show ?thesis by (simp add: suffix_width_def)
  next
    case 3
    then have "type_bits (bitgroup_rust_type bits) = 32" by (simp add: bitgroup_rust_type_def type_bits_def)
    with 3 show ?thesis by (simp add: suffix_width_def)
  next
    case 4
    then have "type_bits (bitgroup_rust_type bits) = 64" by (simp add: bitgroup_rust_type_def type_bits_def)
    with 4 show ?thesis by (simp add: suffix_width_def)
  qed
qed

lemma bitgroup_methods:
  assumes "bitgroup_read_method bits e = Some m" "bitgroup_write_method bits e = Some m'"
  shows "\<exists>s n. m = ''read_'' @ s \<and> m' = ''write_'' @ s \<and> unat bits \<le> type_bits (bitgroup_rust_type bits)
    \<and> type_bits (bitgroup_rust_type bits) \<le> 64 \<and> map_of suffix_width s = Some (n, {0..<2 ^ type_bits (bitgroup_rust_type bits)})"
proof -
  from assms obtain s where s: "bitgroup_suffix (unat bits) e = Some s" "m = ''read_'' @ s" "m' = ''write_'' @ s"
    unfolding bitgroup_read_method_def bitgroup_write_method_def by (elim map_option_eq_Some [THEN iffD1, THEN exE]) simp
  with bitgroup_suffix_width [OF s(1)] show ?thesis by blast
qed

lemma member_extract:
  assumes "list_all (member_fits self g bits) fms" "disjoint_bits (map member_bits fms)" "fm \<in> set fms" "bits \<le> 64"
  shows "\<exists>v. run_stmt ev pcall (gen_member g fm) = (\<lambda>(env, c). case env g of
            Some (RInt i) \<Rightarrow> Inr (env(rust_ident (cf_name (fst fm)) \<mapsto> RInt (v i)), c) | _ \<Rightarrow> Inl Stuck)
          \<and> self (rust_ident (cf_name (fst fm))) = Some (RInt (v (joined self fms 0))) \<and> rust_ident (cf_name (fst fm)) \<noteq> g"
proof -
  have "member_fits self g bits fm" using assms(1,3) by (simp add: list_all_iff)
  then obtain k off width where m: "self (rust_ident (cf_name (fst fm))) = Some (RInt k)" "member_value self fm = k"
    "member_bits fm = (off, width)" "take_bit width k = k" "off + width \<le> bits" "rust_ident (cf_name (fst fm)) \<noteq> g"
    "width \<le> type_bits (wire_type_to_rust (cf_wire_type (fst fm)))" by (rule member_fitsE)
  let ?tb = "type_bits (wire_type_to_rust (cf_wire_type (fst fm)))"
  let ?v = "\<lambda>i. take_bit ?tb (take_bit width (drop_bit off i))"
  have w: "width = unat (bm_member_width_bits (snd fm))" "off = unat (bm_member_offset_bits (snd fm))"
    using m(3) by (auto simp: member_bits_def)
  have mask: "int (bitgroup_mask (bm_member_width_bits (snd fm))) = mask width"
    using m(5) assms(4) w by (simp add: mask_int)
  have "run_stmt ev pcall (gen_member g fm) (env, c) = (case env g of
            Some (RInt i) \<Rightarrow> Inr (env(rust_ident (cf_name (fst fm)) \<mapsto> RInt (?v i)), c) | _ \<Rightarrow> Inl Stuck)" for env c
    by (simp add: gen_member_def case_prod_unfold w(2) [symmetric] mask take_bit_eq_mask [symmetric]
        split: option.split rval.split)
  moreover have "?v (joined self fms 0) = k"
    using joined_extract [OF assms(1-3) m(3)] m(2,4,7) take_bit_take_bit [of ?tb width k] by (simp add: min_absorb2)
  ultimately show ?thesis using m(1,6) by (intro exI [of _ ?v]) auto
qed

section \<open>Transport\<close>

text \<open>The bytes that the statements \<open>ss\<close> write make the statements \<open>ps\<close> bind the values of \<open>self\<close>.\<close>

definition transports :: "(env \<Rightarrow> string \<Rightarrow> rval option) \<Rightarrow> (callee \<Rightarrow> cursor \<Rightarrow> gen_error + (rval \<times> cursor))
    \<Rightarrow> (callee \<Rightarrow> rval \<Rightarrow> writer \<Rightarrow> gen_error + writer) \<Rightarrow> env \<Rightarrow> bool \<Rightarrow> string set \<Rightarrow> ser_stmt list \<Rightarrow> parse_stmt list
    \<Rightarrow> string set \<Rightarrow> bool" where
  "transports ev pcall scall self fin B ss ps B' \<longleftrightarrow>
     (\<forall>w w'. writer_ok w \<longrightarrow> run_ser scall self ss w = Inr w' \<longrightarrow>
        (\<exists>bs. put bs w = Inr w' \<and>
          (\<forall>c rest env. at_bytes c (bs @ rest) \<longrightarrow> (fin \<longrightarrow> rest = []) \<longrightarrow> agrees self B env \<longrightarrow>
             (\<exists>env'. run_parse ev pcall ps (env, c) = Inr (env', advance (length bs) c) \<and> agrees self B' env'))))"

lemma rbind_Inr [simp]: "rbind m Inr = m"
  by (cases m) simp_all

lemma run_none [simp]: "run_ser scall self [] = Inr" "run_parse ev pcall [] = Inr"
  by (simp_all add: fun_eq_iff)

lemma transports_nil: "transports ev pcall scall self fin B [] [] B"
  unfolding transports_def by (auto intro!: exI [of _ "[]"])

lemma transports_append:
  assumes "transports ev pcall scall self (fin \<and> ss2 = []) B ss1 ps1 B1" "transports ev pcall scall self fin B1 ss2 ps2 B2"
  shows "transports ev pcall scall self fin B (ss1 @ ss2) (ps1 @ ps2) B2"
  unfolding transports_def
proof (intro allI impI)
  fix w w'
  assume w: "writer_ok w" "run_ser scall self (ss1 @ ss2) w = Inr w'"
  then obtain w1 where w1: "run_ser scall self ss1 w = Inr w1" "run_ser scall self ss2 w1 = Inr w'"
    by (auto simp: run_ser_append rbind_eq_Inr_iff)
  from assms(1) w(1) w1(1) obtain b1 where b1: "put b1 w = Inr w1"
    "\<And>c rest env. at_bytes c (b1 @ rest) \<Longrightarrow> (fin \<and> ss2 = [] \<longrightarrow> rest = []) \<Longrightarrow> agrees self B env \<Longrightarrow>
       \<exists>env'. run_parse ev pcall ps1 (env, c) = Inr (env', advance (length b1) c) \<and> agrees self B1 env'"
    unfolding transports_def by blast
  from b1(1) w(1) have ok: "writer_ok w1" by (rule put_ok [rotated])
  from assms(2) ok w1(2) obtain b2 where b2: "put b2 w1 = Inr w'"
    "\<And>c rest env. at_bytes c (b2 @ rest) \<Longrightarrow> (fin \<longrightarrow> rest = []) \<Longrightarrow> agrees self B1 env \<Longrightarrow>
       \<exists>env'. run_parse ev pcall ps2 (env, c) = Inr (env', advance (length b2) c) \<and> agrees self B2 env'"
    unfolding transports_def by blast
  have idle: "ss2 = [] \<longrightarrow> b2 = []" using w1(2) put_pos [OF ok b2(1)] by auto
  have "\<exists>env'. run_parse ev pcall (ps1 @ ps2) (env, c) = Inr (env', advance (length (b1 @ b2)) c) \<and> agrees self B2 env'"
    if c: "at_bytes c ((b1 @ b2) @ rest)" "fin \<longrightarrow> rest = []" "agrees self B env" for c rest env
  proof -
    have "b2 @ rest = []" if "fin" "ss2 = []"
    proof -
      have "b2 = []" using idle that(2) by (rule mp)
      then show ?thesis using c(2) that(1) by simp
    qed
    then obtain env1 where e1: "run_parse ev pcall ps1 (env, c) = Inr (env1, advance (length b1) c)" "agrees self B1 env1"
      using b1(2) [of c "b2 @ rest" env] c(1,3) by (metis append.assoc)
    have "at_bytes (advance (length b1) c) (b2 @ rest)" using at_bytes_advance c(1) by simp
    from b2(2) [OF this c(2) e1(2)] e1(1) show ?thesis by (auto simp: run_parse_append)
  qed
  with put_append [OF w(1) b1(1) b2(1)] show "\<exists>bs. put bs w = Inr w' \<and> (\<forall>c rest env. at_bytes c (bs @ rest) \<longrightarrow>
      (fin \<longrightarrow> rest = []) \<longrightarrow> agrees self B env \<longrightarrow>
      (\<exists>env'. run_parse ev pcall (ps1 @ ps2) (env, c) = Inr (env', advance (length bs) c) \<and> agrees self B2 env'))"
    by blast
qed

lemma transports_group:
  assumes "gen_group flds bg = Some ps" "gen_group_write flds bg = Some s" "group_fits self B flds bg"
  shows "transports ev pcall scall self fin B [s] ps (B \<union> group_names flds (bm_group_id bg))"
  unfolding transports_def
proof (intro allI impI)
  fix w w'
  assume w: "writer_ok w" "run_ser scall self [s] w = Inr w'"
  let ?fms = "group_members_of flds (bm_group_id bg)" and ?g = "bitgroup_var (bm_group_id bg)"
  let ?n = "type_bits (bitgroup_rust_type (bm_total_bits bg))"
  let ?k = "joined self ?fms 0"
  from assms(1,2) obtain m m' where m: "bitgroup_read_method (bm_total_bits bg) (bm_group_endianness bg) = Some m"
    "bitgroup_write_method (bm_total_bits bg) (bm_group_endianness bg) = Some m'"
    "ps = PLet ?g (RdMethod m) # map (gen_member ?g) ?fms"
    "s = SGroup ?g (bitgroup_rust_type (bm_total_bits bg)) (map gen_member_write ?fms) m'"
    by (auto simp: gen_group_def gen_group_write_def)
  from bitgroup_methods [OF m(1,2)] obtain sx n where sx: "m = ''read_'' @ sx" "m' = ''write_'' @ sx"
    "unat (bm_total_bits bg) \<le> ?n" "?n \<le> 64" "map_of suffix_width sx = Some (n, {0..<2 ^ ?n})" by blast
  from assms(3) have fits: "?g \<notin> B" "list_all (member_fits self ?g (unat (bm_total_bits bg))) ?fms"
    "disjoint_bits (map member_bits ?fms)" by (auto simp: group_fits_def Let_def)
  have "(2::int) ^ unat (bm_total_bits bg) \<le> 2 ^ ?n" using sx(3) by simp
  then have k: "?k \<in> {0..<2 ^ ?n}" using joined_bound [OF fits(2)] less_le_trans by fastforce
  have join: "join_members self ?n (map gen_member_write ?fms) 0 = Some ?k"
    using join_members_eq [OF fits(2) sx(3,4)] .
  have "carries (run_write scall (WrMethod m') (RInt ?k)) (run_read ev pcall Map.empty (RdMethod m)) (RInt ?k)"
    unfolding sx(1,2) using sx(5) k by (rule method_carries)
  moreover have "run_write scall (WrMethod m') (RInt ?k) w = Inr w'"
    using w(2) join m(4) by (auto split: option.splits)
  ultimately obtain bs where bs: "put bs w = Inr w'" "reads_back (run_read ev pcall Map.empty (RdMethod m)) (RInt ?k) bs"
    using w(1) by (elim carriesE)
  have env: "run_read ev pcall env (RdMethod m) = run_read ev pcall Map.empty (RdMethod m)" for env
    by (rule ext) simp
  have "\<exists>env'. run_parse ev pcall ps (env, c) = Inr (env', advance (length bs) c)
      \<and> agrees self (B \<union> group_names flds (bm_group_id bg)) env'"
    if c: "at_bytes c (bs @ rest)" "agrees self B env" for c rest env
  proof -
    have "run_stmt ev pcall (PLet ?g (RdMethod m)) (env, c) = Inr (env(?g \<mapsto> RInt ?k), advance (length bs) c)"
      using reads_backD [OF bs(2) c(1)] by (simp only: run_stmt.simps env [of env] rmap.simps prod.case)
    moreover have "unat (bm_total_bits bg) \<le> 64" using sx(3,4) by simp
    then have "\<exists>env'. run_parse ev pcall (map (gen_member ?g) ?fms) (env(?g \<mapsto> RInt ?k), advance (length bs) c)
        = Inr (env', advance (length bs) c) \<and> agrees self (B \<union> (\<lambda>fm. rust_ident (cf_name (fst fm))) ` set ?fms) env'"
      by (intro run_members [where k = ?k] member_extract [OF fits(2,3)] agrees_fresh c(2) fits(1)) auto
    ultimately show ?thesis unfolding m(3) group_names_def by (simp del: run_stmt.simps)
  qed
  then show "\<exists>bs. put bs w = Inr w' \<and> (\<forall>c rest env. at_bytes c (bs @ rest) \<longrightarrow> (fin \<longrightarrow> rest = []) \<longrightarrow> agrees self B env \<longrightarrow>
      (\<exists>env'. run_parse ev pcall ps (env, c) = Inr (env', advance (length bs) c)
        \<and> agrees self (B \<union> group_names flds (bm_group_id bg)) env'))"
    using bs(1) by blast
qed


section \<open>Single statements\<close>

lemma transports_one:
  assumes "\<And>w w'. writer_ok w \<Longrightarrow> run_ser_stmt scall self s w = Inr w' \<Longrightarrow>
    \<exists>bs. put bs w = Inr w' \<and> (\<forall>c rest env. at_bytes c (bs @ rest) \<longrightarrow> (fin \<longrightarrow> rest = []) \<longrightarrow> agrees self B env \<longrightarrow>
      (\<exists>env'. run_stmt ev pcall p (env, c) = Inr (env', advance (length bs) c) \<and> agrees self B' env'))"
  shows "transports ev pcall scall self fin B [s] [p] B'"
  using assms unfolding transports_def by (simp del: run_ser_stmt.simps run_stmt.simps)

lemma as_usize_nat: "n < 2 ^ 63 \<Longrightarrow> as_usize (int n) = n"
  by (simp add: as_usize_def)

lemma gen_read_env: "gen_read wt r e = Some re \<Longrightarrow> run_read ev pcall env re = run_read ev pcall Map.empty re"
  by (cases wt; cases r) (auto simp: gen_read_def fun_eq_iff)

lemma evaluatesE:
  assumes "evaluates ev self B e v" "agrees self B env" "expr_to_rust_with_aliases CtxParse [] e = Some t"
  shows "ev env t = Some v"
  using assms by (simp add: evaluates_def)

lemma testsE:
  assumes "tests ev self B e b" "agrees self B env" "expr_to_rust_bool_with_field_aliases CtxParse [] e = Some t"
  shows "ev env t = Some (RBool b)"
  using assms by (simp add: tests_def)

lemma bytes_read:
  assumes "bytes_fit ev self fin B spec bs" "gen_bytes [] spec = Some r" "agrees self B env"
    and c: "at_bytes c (bs @ rest)" "fin \<longrightarrow> rest = []" and len: "length bs < 2 ^ 63"
  shows "run_read ev pcall env r c = Inr (RBytes bs, advance (length bs) c)"
proof -
  have rd: "read_bytes (length bs) c = Inr (bs, advance (length bs) c)" using read_bytes_back c(1) by (rule reads_backD)
  have rem: "read_remaining c = (bs, advance (length bs) c)" if fin
    using c that read_remaining_back [of c bs] by simp
  show ?thesis
  proof (cases spec)
    case None
    then show ?thesis using assms(1,2) rem by (simp add: bytes_fit_def gen_bytes_def)
  next
    case (Some s)
    show ?thesis
    proof (cases s)
      case (BsLength e)
      then obtain t where t: "r = RdBytes (LenText t)" "expr_to_rust_with_aliases CtxParse [] e = Some t"
        using Some assms(2) by (auto simp: gen_bytes_def)
      have "ev env t = Some (RInt (int (length bs)))"
        using BsLength Some assms(1,3) t(2) evaluatesE by (auto simp: bytes_fit_def)
      then show ?thesis using t(1) rd as_usize_nat [OF len] by simp
    next
      case (BsLengthOrRemaining e)
      let ?x = "rust_ident (extract_field_name (get_value_ref_id e))"
      have "r = RdLor ?x" "env ?x = self ?x"
        using BsLengthOrRemaining Some assms(1-3) by (auto simp: gen_bytes_def bytes_fit_def agrees_def Let_def)
      then show ?thesis
        using BsLengthOrRemaining Some assms(1) rd rem as_usize_nat [OF len] by (auto simp: bytes_fit_def Let_def)
    qed (use Some assms(1,2) rd rem in \<open>auto simp: bytes_fit_def gen_bytes_def\<close>)
  qed
qed

lemma transports_bytes:
  assumes "self x = Some (RBytes bs)" "bytes_fit ev self fin B spec bs" "gen_bytes [] spec = Some r"
  shows "transports ev pcall scall self fin B [SBytes x] [PLet x r] (insert x B)"
proof (rule transports_one)
  fix w w'
  assume w: "writer_ok w" "run_ser_stmt scall self (SBytes x) w = Inr w'"
  then have put: "put bs w = Inr w'" using assms(1) by (simp add: write_bytes_def rmap_err_eq_Inr_iff)
  note read = bytes_read [OF assms(2,3) _ _ _ put_length_bound [OF w(1) put]]
  show "\<exists>bs. put bs w = Inr w' \<and> (\<forall>c rest env. at_bytes c (bs @ rest) \<longrightarrow> (fin \<longrightarrow> rest = []) \<longrightarrow> agrees self B env \<longrightarrow>
      (\<exists>env'. run_stmt ev pcall (PLet x r) (env, c) = Inr (env', advance (length bs) c) \<and> agrees self (insert x B) env'))"
    using put by (intro exI [of _ bs]) (auto simp: read agrees_update assms(1) simp del: fun_upd_apply)
qed

context nested_calls
begin

lemma transports_scalar:
  assumes "gen_write wt r e = Some we" "gen_read wt r e = Some re" "scalar_fits valid wt r e v" "self x = Some v"
  shows "transports ev pcall scall self fin B [SWrite x we] [PLet x re] (insert x B)"
proof (rule transports_one)
  fix w w'
  assume w: "writer_ok w" "run_ser_stmt scall self (SWrite x we) w = Inr w'"
  then have "run_write scall we v w = Inr w'" using assms(4) by simp
  with scalar_carries [OF assms(1-3)] w(1)
  obtain bs where bs: "put bs w = Inr w'" "reads_back (run_read ev pcall Map.empty re) v bs" by (rule carriesE)
  have "run_stmt ev pcall (PLet x re) (env, c) = Inr (env(x \<mapsto> v), advance (length bs) c)"
    if "at_bytes c (bs @ rest)" for c rest env
    using reads_backD [OF bs(2) that] gen_read_env [OF assms(2), of ev pcall env] by simp
  then show "\<exists>bs. put bs w = Inr w' \<and> (\<forall>c rest env. at_bytes c (bs @ rest) \<longrightarrow> (fin \<longrightarrow> rest = []) \<longrightarrow> agrees self B env \<longrightarrow>
      (\<exists>env'. run_stmt ev pcall (PLet x re) (env, c) = Inr (env', advance (length bs) c) \<and> agrees self (insert x B) env'))"
    using bs(1) agrees_update assms(4) by (intro exI [of _ bs]) (auto simp del: run_stmt.simps fun_upd_apply)
qed

lemma transports_optional:
  assumes "gen_write wt r e = Some we" "gen_read wt r e = Some re" "tests ev self B cond b"
    and "expr_to_rust_bool_with_field_aliases CtxParse [] cond = Some t"
    and "self x = Some (ROpt (if b then Some v else None))" "b \<longrightarrow> scalar_fits valid wt r e v"
  shows "transports ev pcall scall self fin B [SOpt x d we] [PLetIf x t re] (insert x B)"
proof (rule transports_one)
  fix w w'
  assume w: "writer_ok w" "run_ser_stmt scall self (SOpt x d we) w = Inr w'"
  show "\<exists>bs. put bs w = Inr w' \<and> (\<forall>c rest env. at_bytes c (bs @ rest) \<longrightarrow> (fin \<longrightarrow> rest = []) \<longrightarrow> agrees self B env \<longrightarrow>
      (\<exists>env'. run_stmt ev pcall (PLetIf x t re) (env, c) = Inr (env', advance (length bs) c) \<and> agrees self (insert x B) env'))"
  proof (cases b)
    case True
    then have "run_write scall we v w = Inr w'" using assms(5) w(2) by simp
    have "scalar_fits valid wt r e v" using True assms(6) by simp
    then have "carries (run_write scall we v) (run_read ev pcall Map.empty re) v" by (rule scalar_carries [OF assms(1,2)])
    from this w(1) \<open>run_write scall we v w = Inr w'\<close>
    obtain bs where bs: "put bs w = Inr w'" "reads_back (run_read ev pcall Map.empty re) v bs" by (rule carriesE)
    have "run_stmt ev pcall (PLetIf x t re) (env, c) = Inr (env(x \<mapsto> ROpt (Some v)), advance (length bs) c)"
      if "at_bytes c (bs @ rest)" "agrees self B env" for c rest env
      using reads_backD [OF bs(2) that(1)] gen_read_env [OF assms(2), of ev pcall env] True
        testsE [OF assms(3) that(2) assms(4)] by simp
    then show ?thesis using bs(1) agrees_update assms(5) True
      by (intro exI [of _ bs]) (auto simp del: run_stmt.simps fun_upd_apply)
  next
    case False
    then have "put [] w = Inr w'" using assms(5) w by simp
    moreover have "run_stmt ev pcall (PLetIf x t re) (env, c) = Inr (env(x \<mapsto> ROpt None), c)"
      if "agrees self B env" for c env
      using False testsE [OF assms(3) that assms(4)] by simp
    ultimately show ?thesis using agrees_update assms(5) False
      by (intro exI [of _ "[]"]) (auto simp del: run_stmt.simps fun_upd_apply)
  qed
qed

end

lemma transports_optional_bytes:
  assumes "gen_bytes [] spec = Some re" "tests ev self B cond b"
    and "expr_to_rust_bool_with_field_aliases CtxParse [] cond = Some t"
    and "self x = Some (ROpt (if b then Some (RBytes bs) else None))" "b \<longrightarrow> bytes_fit ev self fin B spec bs"
  shows "transports ev pcall scall self fin B [SOptBytes x] [PLetIf x t re] (insert x B)"
proof (rule transports_one)
  fix w w'
  assume w: "writer_ok w" "run_ser_stmt scall self (SOptBytes x) w = Inr w'"
  show "\<exists>bs. put bs w = Inr w' \<and> (\<forall>c rest env. at_bytes c (bs @ rest) \<longrightarrow> (fin \<longrightarrow> rest = []) \<longrightarrow> agrees self B env \<longrightarrow>
      (\<exists>env'. run_stmt ev pcall (PLetIf x t re) (env, c) = Inr (env', advance (length bs) c) \<and> agrees self (insert x B) env'))"
  proof (cases b)
    case True
    then have put: "put bs w = Inr w'" using assms(4) w(2) by (simp add: write_bytes_def rmap_err_eq_Inr_iff)
    have fit: "bytes_fit ev self fin B spec bs" using True assms(5) by simp
    have "run_stmt ev pcall (PLetIf x t re) (env, c) = Inr (env(x \<mapsto> ROpt (Some (RBytes bs))), advance (length bs) c)"
      if "at_bytes c (bs @ rest)" "fin \<longrightarrow> rest = []" "agrees self B env" for c rest env
      using bytes_read [OF fit assms(1) that(3,1,2) put_length_bound [OF w(1) put]] True
        testsE [OF assms(2) that(3) assms(3)] by simp
    then show ?thesis using put agrees_update assms(4) True
      by (intro exI [of _ bs]) (auto simp del: run_stmt.simps fun_upd_apply)
  next
    case False
    then have "put [] w = Inr w'" using assms(4) w by simp
    moreover have "run_stmt ev pcall (PLetIf x t re) (env, c) = Inr (env(x \<mapsto> ROpt None), c)"
      if "agrees self B env" for c env
      using False testsE [OF assms(2) that assms(3)] by simp
    ultimately show ?thesis using agrees_update assms(4) False
      by (intro exI [of _ "[]"]) (auto simp del: run_stmt.simps fun_upd_apply)
  qed
qed


section \<open>Arrays\<close>

lemma write_all_times:
  assumes "\<forall>v \<in> set vs. carries (wr v) rd v" "writer_ok w" "write_all wr vs w = Inr w'"
  shows "\<exists>bs. put bs w = Inr w' \<and>
    (\<forall>c rest. at_bytes c (bs @ rest) \<longrightarrow> read_times rd (length vs) c = Inr (vs, advance (length bs) c)) \<and>
    ((\<forall>v \<in> set vs. nonempty (wr v)) \<longrightarrow>
       (\<forall>c n. at_bytes c bs \<longrightarrow> length vs \<le> n \<longrightarrow> read_fill rd n c = Inr (vs, advance (length bs) c)))"
  using assms
proof (induction vs arbitrary: w)
  case Nil
  have "read_fill rd n c = Inr ([], c)" if "at_bytes c []" for n c
    using at_bytes_remaining [OF that] by (cases n) simp_all
  with Nil show ?case by (intro exI [of _ "[]"]) auto
next
  case (Cons v vs)
  then obtain w1 where w1: "wr v w = Inr w1" "write_all wr vs w1 = Inr w'" by (auto simp: rbind_eq_Inr_iff)
  have "carries (wr v) rd v" using Cons.prems(1) by simp
  from this Cons.prems(2) w1(1) obtain b1 where b1: "put b1 w = Inr w1" "reads_back rd v b1" "writer_ok w1" by (rule carriesE)
  have "\<forall>v \<in> set vs. carries (wr v) rd v" using Cons.prems(1) by simp
  from Cons.IH [OF this b1(3) w1(2)] obtain b2 where b2: "put b2 w1 = Inr w'"
    "\<And>c rest. at_bytes c (b2 @ rest) \<Longrightarrow> read_times rd (length vs) c = Inr (vs, advance (length b2) c)"
    "\<And>c n. \<forall>v \<in> set vs. nonempty (wr v) \<Longrightarrow> at_bytes c b2 \<Longrightarrow> length vs \<le> n \<Longrightarrow> read_fill rd n c = Inr (vs, advance (length b2) c)"
    by blast
  have "read_times rd (length (v # vs)) c = Inr (v # vs, advance (length (b1 @ b2)) c)" if "at_bytes c ((b1 @ b2) @ rest)" for c rest
    using that reads_backD [OF b1(2), of c "b2 @ rest"] b2(2) [OF at_bytes_advance, of c b1 rest] by simp
  moreover have "read_fill rd n c = Inr (v # vs, advance (length (b1 @ b2)) c)"
    if c: "\<forall>v \<in> set (v # vs). nonempty (wr v)" "at_bytes c (b1 @ b2)" "length (v # vs) \<le> n" for c n
  proof -
    have "wpos w < wpos w1" using c(1) Cons.prems(2) w1(1) by (auto simp: nonempty_def)
    then have "remaining c \<noteq> 0" using put_pos [OF Cons.prems(2) b1(1)] at_bytes_remaining [OF c(2)] by auto
    moreover obtain m where "n = Suc m" "length vs \<le> m" using c(3) by (cases n) auto
    moreover have "\<forall>v \<in> set vs. nonempty (wr v)" using c(1) by simp
    ultimately show ?thesis
      using reads_backD [OF b1(2) c(2)] b2(3) [OF _ at_bytes_advance [OF c(2)]] by simp
  qed
  ultimately show ?case
    using put_append [OF Cons.prems(2) b1(1) b2(1)] by (intro exI [of _ "b1 @ b2"]) (auto simp del: read_times.simps)
qed

context nested_calls
begin

lemma transports_array:
  assumes "gen_array_write f arr = Some s" "gen_array f arr [] = Some p" "array_fits ev scall valid self fin B f arr vs"
    and "self (rust_ident (cf_name f)) = Some (RArr vs)" "self (rust_count_ident (cf_name f)) = Some (RInt (int (length vs)))"
  shows "transports ev pcall scall self fin B [s] [p] (B \<union> {rust_ident (cf_name f), rust_count_ident (cf_name f)})"
proof (rule transports_one)
  fix w w'
  assume w: "writer_ok w" "run_ser_stmt scall self s w = Inr w'"
  let ?x = "rust_ident (cf_name f)" and ?n = "rust_count_ident (cf_name f)"
  from assms(1) obtain we where we: "gen_write (ar_element_wire_type arr) (ar_element_ref_type_name arr) None = Some we"
    "s = SArr ?x ?n we" "ar_element_strategy arr \<in> {StPrimitive, StStruct, StVarInt, StContVarInt}"
    by (auto simp: gen_array_write_def split: if_splits)
  with assms(2) obtain re where re: "gen_read (ar_element_wire_type arr) (ar_element_ref_type_name arr) None = Some re"
    by (cases "gen_read (ar_element_wire_type arr) (ar_element_ref_type_name arr) None") (auto simp: gen_array_def Let_def)
  let ?rd = "run_read ev pcall Map.empty re"
  have fits: "length vs \<le> max_elems f" "\<And>v. v \<in> set vs \<Longrightarrow> scalar_fits valid (ar_element_wire_type arr) (ar_element_ref_type_name arr) None v"
    using assms(3) we(1) by (auto simp: array_fits_def)
  have all: "write_all (run_write scall we) vs w = Inr w'" using w(2) we(2) assms(4,5) by simp
  have "\<forall>v \<in> set vs. carries (run_write scall we v) ?rd v" using scalar_carries [OF we(1) re fits(2)] by blast
  from write_all_times [OF this w(1) all] obtain bs where bs: "put bs w = Inr w'"
    "\<And>c rest. at_bytes c (bs @ rest) \<Longrightarrow> read_times ?rd (length vs) c = Inr (vs, advance (length bs) c)"
    "\<And>c n. \<forall>v \<in> set vs. nonempty (run_write scall we v) \<Longrightarrow> at_bytes c bs \<Longrightarrow> length vs \<le> n \<Longrightarrow>
       read_fill ?rd n c = Inr (vs, advance (length bs) c)" by blast
  have env: "agrees self (B \<union> {?x, ?n}) (env(?x \<mapsto> RArr vs, ?n \<mapsto> RInt (int (length vs))))"
    "agrees self (B \<union> {?x, ?n}) (env(?n \<mapsto> RInt (int (length vs)), ?x \<mapsto> RArr vs))"
    if "agrees self B env" for env using that assms(4,5) by (auto simp: agrees_def)
  have "\<exists>env'. run_stmt ev pcall p (env, c) = Inr (env', advance (length bs) c) \<and> agrees self (B \<union> {?x, ?n}) env'"
    if c: "at_bytes c (bs @ rest)" "fin \<longrightarrow> rest = []" "agrees self B env" for c rest env
  proof (cases "ar_count_expr arr")
    case (Some e)
    with assms(2) we(3) re obtain t where t: "p = PArray ?x ?n t (max_elems f) re" "expr_to_rust_with_aliases CtxParse [] e = Some t"
      by (auto simp: gen_array_def Let_def)
    have "ev env t = Some (RInt (int (length vs)))" "length vs < 2 ^ 64"
      using assms(3) we(1) Some evaluatesE [OF _ c(3) t(2)] by (auto simp: array_fits_def)
    then show ?thesis
      using t(1) fits(1) bs(2) [OF c(1)] env(2) [OF c(3)] gen_read_env [OF re, of ev pcall "env(?n \<mapsto> RInt (int (length vs)))"]
      by (simp add: as_usize_def)
  next
    case None
    with assms(3) we(1) have ne: "\<forall>v \<in> set vs. nonempty (run_write scall we v)" by (auto simp: array_fits_def)
    show ?thesis
    proof (cases "ar_within_expr arr")
      case None
      then have p: "p = PFill ?x ?n None (max_elems f) re" and fin
        using \<open>ar_count_expr arr = None\<close> assms(2,3) we re by (auto simp: gen_array_def array_fits_def Let_def)
      then have "at_bytes c bs" using c(1,2) by simp
      then show ?thesis
        using p bs(3) [OF ne _ fits(1)] env(1) [OF c(3)] gen_read_env [OF re, of ev pcall env] by simp
    next
      case (Some e)
      then obtain t n where t: "p = PFill ?x ?n (Some t) (max_elems f) re" "expr_to_rust_with_aliases CtxParse [] e = Some t"
        "size_is (write_all (run_write scall we) vs) n" "evaluates ev self B e (RInt (int n))"
        using \<open>ar_count_expr arr = None\<close> assms(2,3) we re by (auto simp: gen_array_def array_fits_def Let_def)
      have "n = length bs" using t(3) all w(1) put_pos [OF w(1) bs(1)] by (auto simp: size_is_def)
      then have "ev env t = Some (RInt (int (length bs)))" using evaluatesE [OF t(4) c(3) t(2)] by simp
      moreover obtain sub where "sub_cursor (length bs) c = Inr (sub, advance (length bs) c)" "at_bytes sub bs"
        using sub_cursor_back [OF c(1)] by blast
      ultimately show ?thesis
        using t(1) bs(3) [OF ne _ fits(1)] env(1) [OF c(3)] gen_read_env [OF re, of ev pcall env]
          as_usize_nat [OF put_length_bound [OF w(1) bs(1)]] by simp
    qed
  qed
  then show "\<exists>bs. put bs w = Inr w' \<and> (\<forall>c rest env. at_bytes c (bs @ rest) \<longrightarrow> (fin \<longrightarrow> rest = []) \<longrightarrow> agrees self B env \<longrightarrow>
      (\<exists>env'. run_stmt ev pcall p (env, c) = Inr (env', advance (length bs) c) \<and> agrees self (B \<union> {?x, ?n}) env'))"
    using bs(1) by blast
qed

end


section \<open>Fields and items\<close>

lemma gen_plain:
  assumes "cf_strategy f \<in> {StPrimitive, StChecksum, StStruct, StVarInt, StContVarInt}"
    and "gen_ser f flds emitted = Some (ss, em)" "gen_parse f flds emitted [] = Some (ps, em')"
  shows "\<exists>we re. gen_write (cf_wire_type f) (cf_ref_type_name f) (cf_endianness f) = Some we
    \<and> gen_read (cf_wire_type f) (cf_ref_type_name f) (cf_endianness f) = Some re
    \<and> ss = [SWrite (rust_ident (cf_name f)) we] \<and> ps = [PLet (rust_ident (cf_name f)) re] \<and> em = emitted \<and> em' = emitted"
  using assms by (auto simp: gen_ser_def gen_parse_def Let_def)

lemma bytes_value: "(case v of Some (RBytes bs) \<Rightarrow> P bs | _ \<Rightarrow> False) \<longleftrightarrow> (\<exists>bs. v = Some (RBytes bs) \<and> P bs)"
  by (auto split: option.splits rval.splits)

lemma field_fits_bytes:
  assumes "cf_strategy f \<in> {StBytesFixed, StBytesLength, StBytesRemaining, StBytesLor}"
    and "field_fits ev scall valid self flds fin B emitted f" "gen_parse f flds emitted [] = Some (ps, em')"
  shows "\<exists>bs spec r. self (rust_ident (cf_name f)) = Some (RBytes bs) \<and> bytes_fit ev self fin B spec bs \<and> gen_bytes [] spec = Some r
    \<and> ps = [PLet (rust_ident (cf_name f)) r] \<and> em' = emitted"
proof -
  let ?x = "rust_ident (cf_name f)"
  have given: "\<exists>bs spec r. self ?x = Some (RBytes bs) \<and> bytes_fit ev self fin B spec bs \<and> gen_bytes [] spec = Some r
    \<and> ps = [PLet ?x r] \<and> em' = emitted"
    if "gen_parse f flds emitted [] = map_option (\<lambda>r. ([PLet ?x r], emitted)) (gen_bytes [] spec)"
      "field_fits ev scall valid self flds fin B emitted f \<longleftrightarrow> (\<exists>bs. self ?x = Some (RBytes bs) \<and> bytes_fit ev self fin B spec bs)" for spec
    using that assms(2,3) by (cases "gen_bytes [] spec") auto
  have plain: "gen_parse f flds emitted [] = map_option (\<lambda>r. ([PLet ?x r], emitted)) (gen_bytes [] (cf_bytes_spec f))"
    "field_fits ev scall valid self flds fin B emitted f
      \<longleftrightarrow> (\<exists>bs. self ?x = Some (RBytes bs) \<and> bytes_fit ev self fin B (cf_bytes_spec f) bs)"
    if "cf_strategy f \<noteq> StBytesRemaining"
    using that assms(1,2) unfolding gen_parse_def field_fits_def Let_def bytes_value
    by (cases "cf_bytes_spec f"; cases "the (cf_bytes_spec f)"; auto simp: option.map_comp o_def)+
  show ?thesis
  proof (cases "cf_strategy f = StBytesRemaining")
    case True
    then show ?thesis
      by (intro given [of "Some BsRemaining"]) (simp_all add: gen_parse_def gen_bytes_def field_fits_def bytes_value)
  next
    case False
    from plain [OF this] show ?thesis by (rule given)
  qed
qed

lemma field_fits_optional:
  assumes "cf_strategy f = StConditional" "field_fits ev scall valid self flds fin B emitted f"
  shows "\<exists>cond b v. cf_condition f = Some cond \<and> self (rust_ident (cf_name f)) = Some (ROpt (if b then Some v else None))
    \<and> tests ev self B cond b \<and> (b \<longrightarrow> inner_fits ev valid self fin B f v)"
proof -
  from assms obtain cond where cond: "cf_condition f = Some cond"
    by (cases "cf_condition f") (auto simp: field_fits_def Let_def)
  with assms obtain p where p: "self (rust_ident (cf_name f)) = Some (ROpt p)"
    unfolding field_fits_def Let_def by (cases "self (rust_ident (cf_name f))") (auto split: rval.splits)
  have "case p of None \<Rightarrow> tests ev self B cond False | Some v \<Rightarrow> tests ev self B cond True \<and> inner_fits ev valid self fin B f v"
    using assms cond p by (simp add: field_fits_def split: option.splits)
  then show ?thesis using cond p by (cases p) force+
qed

lemma array_value: "(case (a, b) of (Some (RArr vs), Some (RInt n)) \<Rightarrow> P vs n | _ \<Rightarrow> False)
    \<longleftrightarrow> (\<exists>vs n. a = Some (RArr vs) \<and> b = Some (RInt n) \<and> P vs n)"
proof (cases a)
  case (Some v)
  then show ?thesis by (cases v; cases b; cases "the b") auto
qed simp

lemma field_fits_array:
  assumes "cf_strategy f = StArray" "field_fits ev scall valid self flds fin B emitted f"
  shows "\<exists>arr vs. cf_array_spec f = Some arr \<and> self (rust_ident (cf_name f)) = Some (RArr vs)
    \<and> self (rust_count_ident (cf_name f)) = Some (RInt (int (length vs))) \<and> array_fits ev scall valid self fin B f arr vs"
proof (cases "cf_array_spec f")
  case None
  with assms show ?thesis by (simp add: field_fits_def)
next
  case (Some arr)
  with assms show ?thesis unfolding field_fits_def Let_def array_value by simp
qed

context nested_calls
begin

lemma field_transports:
  assumes "gen_ser f flds emitted = Some (ss, em)" "gen_parse f flds emitted [] = Some (ps, em')"
    and "field_fits ev scall valid self flds fin B emitted f"
  shows "transports ev pcall scall self fin B ss ps (B \<union> field_binds flds emitted f) \<and> em = next_emitted emitted f \<and> em' = em"
proof -
  let ?x = "rust_ident (cf_name f)"
  have bytes: ?thesis
    if "cf_strategy f \<in> {StBytesFixed, StBytesLength, StBytesRemaining, StBytesLor}" "self ?x = Some (RBytes bs)"
      "bytes_fit ev self fin B spec bs" "gen_bytes [] spec = Some r" "ps = [PLet ?x r]" "em' = emitted" for bs spec r
    using that assms(1) transports_bytes [of self ?x bs ev fin B spec r pcall scall]
    by (auto simp: gen_ser_def Let_def field_binds_def next_emitted_def)
  consider "cf_strategy f \<in> {StPrimitive, StChecksum, StStruct, StVarInt, StContVarInt}" | "cf_strategy f = StBitGroup"
    | "cf_strategy f \<in> {StBytesFixed, StBytesLength, StBytesRemaining, StBytesLor}"
    | "cf_strategy f = StConditional" | "cf_strategy f = StArray" by (cases "cf_strategy f") auto
  then show ?thesis
  proof cases
    case 1
    from gen_plain [OF 1 assms(1,2)] obtain we re where
      g: "gen_write (cf_wire_type f) (cf_ref_type_name f) (cf_endianness f) = Some we" "ss = [SWrite ?x we]" "em = emitted"
        "gen_read (cf_wire_type f) (cf_ref_type_name f) (cf_endianness f) = Some re" "ps = [PLet ?x re]" "em' = emitted" by blast
    from 1 assms(3) obtain v where v: "self ?x = Some v"
      "scalar_fits valid (cf_wire_type f) (cf_ref_type_name f) (cf_endianness f) v"
      by (auto simp: field_fits_def Let_def split: option.splits)
    from transports_scalar [where self = self, OF g(1,4) v(2,1)] 1 g show ?thesis by (auto simp: field_binds_def next_emitted_def)
  next
    case 2
    with assms(3) obtain bg where bg: "cf_bitgroup_member f = Some bg"
      "bm_group_id bg \<in> set emitted \<or> group_fits self B flds bg" by (auto simp: field_fits_def Let_def split: option.splits)
    show ?thesis
    proof (cases "bm_group_id bg \<in> set emitted")
      case True
      with 2 bg assms(1,2) show ?thesis
        by (auto simp: gen_ser_def gen_parse_def Let_def field_binds_def next_emitted_def transports_nil)
    next
      case False
      then have "gen_ser f flds emitted = map_option (\<lambda>s. ([s], emitted @ [bm_group_id bg])) (gen_group_write flds bg)"
        "gen_parse f flds emitted [] = map_option (\<lambda>ss. (ss, emitted @ [bm_group_id bg])) (gen_group flds bg)"
        using 2 bg(1) by (simp_all add: gen_ser_def gen_parse_def)
      with assms(1,2) obtain s where s: "gen_group_write flds bg = Some s" "gen_group flds bg = Some ps" "ss = [s]"
        "em = emitted @ [bm_group_id bg]" "em' = em" by fastforce
      have "group_fits self B flds bg" using bg(2) False by simp
      then have "transports ev pcall scall self fin B [s] ps (B \<union> group_names flds (bm_group_id bg))"
        by (rule transports_group [OF s(2,1)])
      moreover have "field_binds flds emitted f = group_names flds (bm_group_id bg)"
        "next_emitted emitted f = emitted @ [bm_group_id bg]"
        using 2 bg(1) False by (simp_all add: field_binds_def next_emitted_def)
      ultimately show ?thesis using s(3-5) by simp
    qed
  next
    case 3
    from field_fits_bytes [OF 3 assms(3,2)] bytes [OF 3] show ?thesis by blast
  next
    case 4
    from field_fits_optional [OF 4 assms(3)] obtain cond b v where c: "cf_condition f = Some cond"
      "self ?x = Some (ROpt (if b then Some v else None))" "tests ev self B cond b"
      "b \<Longrightarrow> inner_fits ev valid self fin B f v" by blast
    from 4 c(1) assms(2) obtain t re where t: "expr_to_rust_bool_with_field_aliases CtxParse [] cond = Some t"
      "conditional_read f [] (inner_wire_type_of f) = Some re" "ps = [PLetIf ?x t re]" "em' = emitted"
      by (auto simp: gen_parse_def gen_conditional_def Let_def bind_eq_Some_conv)
    from 4 assms(1) obtain s where s: "conditional_write f (inner_wire_type_of f) = Some s" "ss = [s]" "em = emitted"
      by (auto simp: gen_ser_def Let_def)
    have e: "field_binds flds emitted f = {?x}" "next_emitted emitted f = emitted"
      using 4 by (auto simp: field_binds_def next_emitted_def)
    show ?thesis
    proof (cases "inner_wire_type_of f = WBytes")
      case True
      obtain bs where bs: "self ?x = Some (ROpt (if b then Some (RBytes bs) else None))"
        "b \<longrightarrow> bytes_fit ev self fin B (cf_bytes_spec f) bs"
        using c(2,4) True by (cases b; cases v) (auto simp: inner_fits_def)
      have "gen_bytes [] (cf_bytes_spec f) = Some re" "s = SOptBytes ?x"
        using True t(2) s(1) by (auto simp: conditional_read_def conditional_write_def)
      with transports_optional_bytes [OF _ c(3) t(1) bs] s t e show ?thesis by auto
    next
      case False
      then have "scalar_fits valid (inner_wire_type_of f) (cf_ref_type_name f) (cf_endianness f) v" if b using that c(4) by (simp add: inner_fits_def)
      moreover obtain we d where "gen_write (inner_wire_type_of f) (cf_ref_type_name f) (cf_endianness f) = Some we"
          "s = SOpt ?x d we" "gen_read (inner_wire_type_of f) (cf_ref_type_name f) (cf_endianness f) = Some re"
        using False t(2) s(1) by (cases "inner_wire_type_of f") (auto simp: conditional_read_def conditional_write_def)
      ultimately show ?thesis using transports_optional [OF _ _ c(3) t(1) c(2)] s t e by auto
    qed
  next
    case 5
    from field_fits_array [OF 5 assms(3)] obtain arr vs where v: "cf_array_spec f = Some arr" "self ?x = Some (RArr vs)"
      "self (rust_count_ident (cf_name f)) = Some (RInt (int (length vs)))" "array_fits ev scall valid self fin B f arr vs"
      by blast
    from 5 v(1) assms(1,2) obtain s p where g: "gen_array_write f arr = Some s" "ss = [s]" "em = emitted"
      "gen_array f arr [] = Some p" "ps = [p]" "em' = emitted" by (auto simp: gen_ser_def gen_parse_def Let_def)
    from transports_array [OF g(1,4) v(4,2,3)] 5 g show ?thesis by (auto simp: field_binds_def next_emitted_def)
  qed
qed

end


lemma transports_mono: "transports ev pcall scall self F B ss ps B' \<Longrightarrow> (F \<Longrightarrow> F') \<Longrightarrow> transports ev pcall scall self F' B ss ps B'"
  unfolding transports_def by blast

lemma transports_let: "evaluates ev self B e v \<Longrightarrow> expr_to_rust_with_aliases CtxParse [] e = Some t \<Longrightarrow> self x = Some v \<Longrightarrow>
    transports ev pcall scall self fin B [] [PLetText x t] (insert x B)"
  unfolding transports_def by (auto intro!: exI [of _ "[]"] simp: agrees_update simp del: fun_upd_apply dest: evaluatesE)

lemma transports_require: "evaluates ev self B e (RBool True) \<Longrightarrow> expr_to_rust_with_aliases CtxParse [] e = Some t \<Longrightarrow>
    transports ev pcall scall self fin B [] [PRequire t] B"
  unfolding transports_def by (auto intro!: exI [of _ "[]"] dest: evaluatesE)

text \<open>The fields of the struct that the generated code declares for the items.\<close>

definition item_names :: "codec_field list \<Rightarrow> codec_item list \<Rightarrow> string set" where
  "item_names flds items = (\<Union>i \<in> set items. set (variant_field_name flds i))"

lemma item_bound_simps [simp]: "item_names flds [] = {}"
  "item_names flds (i # items) = set (variant_field_name flds i) \<union> item_names flds items"
  by (auto simp: item_names_def)

lemma group_names_member: "f \<in> set flds \<Longrightarrow> cf_bitgroup_member f = Some bg \<Longrightarrow> rust_ident (cf_name f) \<in> group_names flds (bm_group_id bg)"
  unfolding group_names_def group_members_of_def List.map_filter_def by force

lemma field_names_bound:
  assumes "field_fits ev scall valid self flds fin B emitted f" "f \<in> set flds" "\<forall>i \<in> set emitted. group_names flds i \<subseteq> B"
  shows "insert (rust_ident (cf_name f)) (if cf_strategy f = StArray then {rust_count_ident (cf_name f)} else {})
      \<subseteq> B \<union> field_binds flds emitted f
    \<and> (\<forall>i \<in> set (next_emitted emitted f). group_names flds i \<subseteq> B \<union> field_binds flds emitted f)"
proof (cases "cf_strategy f = StBitGroup")
  case True
  with assms(1) obtain bg where "cf_bitgroup_member f = Some bg" by (auto simp: field_fits_def Let_def split: option.splits)
  with True group_names_member [OF assms(2)] assms(3) show ?thesis
    by (auto simp: field_binds_def next_emitted_def)
next
  case False
  then have "next_emitted emitted f = emitted" by (cases "cf_strategy f") (auto simp: next_emitted_def)
  moreover have "insert (rust_ident (cf_name f)) (if cf_strategy f = StArray then {rust_count_ident (cf_name f)} else {})
      \<subseteq> field_binds flds emitted f"
    using False by (cases "cf_strategy f") (auto simp: field_binds_def)
  ultimately show ?thesis using assms(3) by auto
qed

lemma no_field_items: "gen_ser_items flds emitted items = Some ss \<Longrightarrow> \<not> list_ex is_field_item items \<Longrightarrow> ss = []"
proof (induction items)
  case (Cons i items)
  then show ?case by (cases i) auto
qed simp

context nested_calls
begin

lemma items_transport:
  assumes "gen_ser_items flds emitted items = Some ss" "gen_parse_items flds [] emitted items = Some ps"
    and "fits_items ev scall valid self flds open_end B emitted items" "\<forall>i \<in> set emitted. group_names flds i \<subseteq> B"
  shows "\<exists>B'. transports ev pcall scall self open_end B ss ps B' \<and> B \<union> item_names flds items \<subseteq> B'"
  using assms
proof (induction items arbitrary: emitted B ss ps)
  case Nil
  then have "transports ev pcall scall self open_end B ss ps B" using transports_nil by simp
  then show ?case by auto
next
  case (Cons item items)
  show ?case
  proof (cases item)
    case (CiField i)
    with Cons.prems(3) obtain f where f: "find_field flds i = Some f"
      "field_fits ev scall valid self flds (open_end \<and> \<not> list_ex is_field_item items) B emitted f"
      "fits_items ev scall valid self flds open_end (B \<union> field_binds flds emitted f) (next_emitted emitted f) items"
      by (auto split: option.splits)
    from CiField f(1) Cons.prems(1) obtain s1 em s2 where s: "gen_ser f flds emitted = Some (s1, em)"
      "gen_ser_items flds em items = Some s2" "ss = s1 @ s2" by (auto simp: bind_eq_Some_conv)
    from CiField f(1) Cons.prems(2) obtain p1 em' p2 where p: "gen_parse f flds emitted [] = Some (p1, em')"
      "gen_parse_items flds [] em' items = Some p2" "ps = p1 @ p2" by (auto simp: bind_eq_Some_conv)
    from field_transports [OF s(1) p(1) f(2)] have t1: "transports ev pcall scall self (open_end \<and> \<not> list_ex is_field_item items) B s1 p1
        (B \<union> field_binds flds emitted f)" and em: "em = next_emitted emitted f" "em' = em" by auto
    have "f \<in> set flds" using find_field_in f(1) by blast
    note names = field_names_bound [OF f(2) this Cons.prems(4)]
    from Cons.IH [OF s(2) p(2) [unfolded em(2)]] f(3) names em(1) obtain B' where
      B': "transports ev pcall scall self open_end (B \<union> field_binds flds emitted f) s2 p2 B'"
        "B \<union> field_binds flds emitted f \<union> item_names flds items \<subseteq> B'" by blast
    have "transports ev pcall scall self (open_end \<and> s2 = []) B s1 p1 (B \<union> field_binds flds emitted f)"
      using t1 by (rule transports_mono) (use no_field_items [OF s(2)] in auto)
    from transports_append [OF this B'(1)] have "transports ev pcall scall self open_end B ss ps B'" unfolding s(3) p(3) .
    moreover have "set (variant_field_name flds item) \<subseteq> B \<union> field_binds flds emitted f"
      using names CiField f(1) by (auto split: if_splits)
    ultimately show ?thesis using B'(2) by auto
  next
    case (CiDerived d)
    let ?x = "rust_ident (cd_name d)"
    from CiDerived Cons.prems(3) obtain v where v: "self ?x = Some v" "evaluates ev self B (cd_expr d) v"
      "fits_items ev scall valid self flds open_end (insert ?x B) emitted items" by (auto split: option.splits)
    from CiDerived Cons.prems(2) obtain t p2 where t: "expr_to_rust_with_aliases CtxParse [] (cd_expr d) = Some t"
      "gen_parse_items flds [] emitted items = Some p2" "ps = [PLetText ?x t] @ p2" by (auto simp: bind_eq_Some_conv)
    have "\<forall>i \<in> set emitted. group_names flds i \<subseteq> insert ?x B" using Cons.prems(4) by blast
    from Cons.IH [OF _ t(2) v(3) this] CiDerived Cons.prems(1) obtain B' where
      B': "transports ev pcall scall self open_end (insert ?x B) ss p2 B'" "insert ?x B \<union> item_names flds items \<subseteq> B'" by auto
    from transports_append [OF transports_let [OF v(2) t(1) v(1)] B'(1)]
    have "transports ev pcall scall self open_end B ss ps B'" using t(3) by simp
    then show ?thesis using B'(2) CiDerived by auto
  next
    case (CiRequire r)
    from CiRequire Cons.prems(3) have v: "evaluates ev self B (cr_expr r) (RBool True)"
      "fits_items ev scall valid self flds open_end B emitted items" by auto
    from CiRequire Cons.prems(2) obtain t p2 where t: "expr_to_rust_with_aliases CtxParse [] (cr_expr r) = Some t"
      "gen_parse_items flds [] emitted items = Some p2" "ps = [PRequire t] @ p2" by (auto simp: bind_eq_Some_conv)
    from Cons.IH [OF _ t(2) v(2) Cons.prems(4)] CiRequire Cons.prems(1) obtain B' where
      B': "transports ev pcall scall self open_end B ss p2 B'" "B \<union> item_names flds items \<subseteq> B'" by auto
    from transports_append [OF transports_require [OF v(1) t(1)] B'(1)]
    have "transports ev pcall scall self open_end B ss ps B'" using t(3) by simp
    then show ?thesis using B'(2) CiRequire by auto
  qed
qed

lemma items_round_trip:
  assumes "gen_ser_items flds [] items = Some ss" "gen_parse_items flds [] [] items = Some ps"
    and "fits_items ev scall valid self flds open_end {} [] items" "writer_ok w" "run_ser scall self ss w = Inr w'"
  shows "\<exists>bs. put bs w = Inr w' \<and>
    (\<forall>c rest. at_bytes c (bs @ rest) \<longrightarrow> (open_end \<longrightarrow> rest = []) \<longrightarrow>
       (\<exists>env. run_parse ev pcall ps (Map.empty, c) = Inr (env, advance (length bs) c) \<and> (\<forall>x \<in> item_names flds items. env x = self x)))"
proof -
  from items_transport [OF assms(1-3)] obtain B where B: "transports ev pcall scall self open_end {} ss ps B"
    "item_names flds items \<subseteq> B" by auto
  from B(1) assms(4,5) obtain bs where bs: "put bs w = Inr w'"
    "\<And>c rest env. at_bytes c (bs @ rest) \<Longrightarrow> (open_end \<longrightarrow> rest = []) \<Longrightarrow> agrees self {} env \<Longrightarrow>
      \<exists>env'. run_parse ev pcall ps (env, c) = Inr (env', advance (length bs) c) \<and> agrees self B env'"
    unfolding transports_def by blast
  have "agrees self {} Map.empty" by (simp add: agrees_def)
  with bs B(2) show ?thesis unfolding agrees_def by blast
qed

end

end
