(* ===== verification/RustVarint.thy ===== *)
theory RustVarint
  imports RustEmit RustBytes
begin

unbundle bit_operations_syntax

text \<open>
  The functions that the Rust generator emits for a variable-length integer, \<open>emit_varint\<close> in
  \<open>crates/wirespec-backend-rust/src/emit.rs\<close>, as functions over the cursor and the writer. A prefix-match
  integer has its length in the top bits of its first byte; a continuation-bit integer is a
  sequence of groups of bits, the lowest first. \<open>prefix_round_trip\<close> and \<open>continuation_round_trip\<close> say that
  what is written is read back, strict checks included.
\<close>

section \<open>Prefix match\<close>

definition value_mask_of :: "semantic_varint \<Rightarrow> u8" where
  "value_mask_of vi = low_mask (unat (8 - ucast (vi_prefix_width vi) :: u8))"

text \<open>The bytes behind the first one, the highest first.\<close>

fun read_tail :: "nat \<Rightarrow> u64 \<Rightarrow> cursor \<Rightarrow> rt_error + (u64 \<times> cursor)" where
  "read_tail 0 val c = Inr (val, c)"
| "read_tail (Suc k) val c = rbind (read_u8 c) (\<lambda>(b, c). read_tail k (val OR push_bit (k * 8) (ucast b)) c)"

fun write_tail :: "nat \<Rightarrow> u64 \<Rightarrow> writer \<Rightarrow> rt_error + writer" where
  "write_tail 0 val w = Inr w"
| "write_tail (Suc k) val w = rbind (write_u8 (ucast (drop_bit (k * 8) val)) w) (write_tail k val)"

definition strict_ok :: "semantic_varint_branch list \<Rightarrow> u8 \<Rightarrow> u64 \<Rightarrow> bool" where
  "strict_ok branches p val \<longleftrightarrow>
     list_all (\<lambda>i. \<not> (ucast p = vb_prefix_value (branches ! i) \<and> val \<le> vb_max_value (branches ! (i - 1)))) [1..<length branches]"

definition prefix_parse :: "semantic_varint \<Rightarrow> cursor \<Rightarrow> rt_error + (u64 \<times> cursor)" where
  "prefix_parse vi c =
     rbind (read_u8 c) (\<lambda>(b, c).
       let p = drop_bit (unat (8 - vi_prefix_width vi)) b
       in case List.find (\<lambda>br. vb_prefix_value br = ucast p) (vi_branches vi) of
            None \<Rightarrow> Inl InvalidTag
          | Some br \<Rightarrow>
              let n = unat (vb_total_bytes br) - 1
              in rbind (read_tail n (push_bit (n * 8) (ucast (b AND value_mask_of vi))) c) (\<lambda>(val, c).
                   if vi_is_strict vi \<and> \<not> strict_ok (vi_branches vi) p val then Inl Noncanonical else Inr (val, c)))"

definition prefix_byte :: "semantic_varint \<Rightarrow> semantic_varint_branch \<Rightarrow> u8" where
  "prefix_byte vi br = push_bit (unat (8 - vi_prefix_width vi) mod 8) (ucast (vb_prefix_value br))"

definition prefix_serialize :: "semantic_varint \<Rightarrow> u64 \<Rightarrow> writer \<Rightarrow> rt_error + writer" where
  "prefix_serialize vi val w =
     (case List.find (\<lambda>br. val \<le> vb_max_value br) (vi_branches vi) of
        Some br \<Rightarrow>
          let n = unat (vb_total_bytes br) - 1
          in rbind (write_u8 (prefix_byte vi br OR ucast (drop_bit (n * 8) val)) w) (write_tail n val)
      | None \<Rightarrow> if vi_branches vi = [] then Inr w else Inl Overflow)"

section \<open>Continuation bit\<close>

definition group_bits :: "semantic_varint \<Rightarrow> nat" where
  "group_bits vi = (case vi_value_bits_per_byte vi of Some n \<Rightarrow> unat n | None \<Rightarrow> 7)"

fun cont_parse :: "nat \<Rightarrow> nat \<Rightarrow> u64 \<Rightarrow> nat \<Rightarrow> cursor \<Rightarrow> rt_error + (u64 \<times> cursor)" where
  "cont_parse bits 0 val shift c = Inl Overflow"
| "cont_parse bits (Suc n) val shift c =
     rbind (read_u8 c) (\<lambda>(byte, c).
       let val = val OR push_bit (shift mod 64) (ucast (byte AND low_mask bits))
       in if byte AND NOT (low_mask bits) = 0 then Inr (val, c) else cont_parse bits n val (shift + bits) c)"

fun cont_serialize :: "nat \<Rightarrow> nat \<Rightarrow> u64 \<Rightarrow> writer \<Rightarrow> rt_error + writer" where
  "cont_serialize bits 0 val w = Inl Overflow"
| "cont_serialize bits (Suc n) val w =
     (let byte = ucast (val AND ucast (low_mask bits)) :: u8; val = drop_bit bits val
      in rbind (write_u8 (if val \<noteq> 0 then byte OR NOT (low_mask bits) else byte) w) (\<lambda>w.
           if val = 0 then Inr w else cont_serialize bits n val w))"

definition varint_parse :: "semantic_varint \<Rightarrow> cursor \<Rightarrow> rt_error + (u64 \<times> cursor)" where
  "varint_parse vi c =
     (case vi_encoding vi of
        PrefixMatch \<Rightarrow> prefix_parse vi c
      | ContinuationBit \<Rightarrow> cont_parse (group_bits vi) (unat (vi_max_bytes vi)) 0 0 c)"

definition varint_serialize :: "semantic_varint \<Rightarrow> u64 \<Rightarrow> writer \<Rightarrow> rt_error + writer" where
  "varint_serialize vi val w =
     (case vi_encoding vi of
        PrefixMatch \<Rightarrow> prefix_serialize vi val w
      | ContinuationBit \<Rightarrow> cont_serialize (group_bits vi) (unat (vi_max_bytes vi)) val w)"

section \<open>What is written is read back\<close>

text \<open>The branches of a prefix-match integer, as the analyzer makes them.\<close>

definition branch_ok :: "nat \<Rightarrow> semantic_varint_branch \<Rightarrow> bool" where
  "branch_ok width br \<longleftrightarrow>
     unat (vb_prefix_value br) < 2 ^ width \<and> 1 \<le> unat (vb_total_bytes br) \<and> unat (vb_total_bytes br) \<le> 8 \<and>
     unat (vb_max_value br) < 2 ^ (8 * unat (vb_total_bytes br) - width)"

definition varint_ok :: "semantic_varint \<Rightarrow> bool" where
  "varint_ok vi \<longleftrightarrow>
     (case vi_encoding vi of
        PrefixMatch \<Rightarrow>
          let width = unat (vi_prefix_width vi)
          in 1 \<le> width \<and> width \<le> 7 \<and> vi_branches vi \<noteq> [] \<and> list_all (branch_ok width) (vi_branches vi) \<and>
             distinct (map vb_prefix_value (vi_branches vi))
      | ContinuationBit \<Rightarrow> 1 \<le> group_bits vi \<and> group_bits vi \<le> 7)"

lemma read_u8_back: "at_bytes c (b # rest) \<Longrightarrow> read_u8 c = Inr (b, advance 1 c)"
  using reads_backD [OF sc_u8.read_is_back [OF TrueI], of c b rest] by simp

lemma write_u8_put: "writer_ok w \<Longrightarrow> write_u8 b w = put [b] w"
  by (rule sc_u8.write_is_put)

lemma tail_step: "take_bit (8 + k * 8) val = push_bit (k * 8) (ucast (ucast (drop_bit (k * 8) val) :: u8)) OR take_bit (k * 8) (val :: u64)"
  by (rule bit_word_eqI) (auto simp: bit_simps)

lemma tail_round_trip:
  assumes "writer_ok w" "write_tail k val w = Inr w'"
  shows "\<exists>bs. put bs w = Inr w' \<and> (\<forall>acc. reads_back (read_tail k acc) (acc OR take_bit (k * 8) val) bs)"
  using assms
proof (induction k arbitrary: w)
  case 0
  then show ?case by (intro exI [of _ "[]"]) (auto simp: reads_back_def)
next
  case (Suc k)
  let ?b = "ucast (drop_bit (k * 8) val) :: u8"
  from Suc.prems obtain w1 where w1: "put [?b] w = Inr w1" "write_tail k val w1 = Inr w'"
    by (auto simp: write_u8_put rbind_eq_Inr_iff)
  from Suc.IH [OF put_ok [OF Suc.prems(1) w1(1)] w1(2)] obtain bs where bs: "put bs w1 = Inr w'"
    "\<And>acc. reads_back (read_tail k acc) (acc OR take_bit (k * 8) val) bs" by blast
  have "read_tail (Suc k) acc c = Inr (acc OR take_bit (Suc k * 8) val, advance (length (?b # bs)) c)"
    if c: "at_bytes c ((?b # bs) @ rest)" for acc c rest
    using read_u8_back [of c ?b "bs @ rest"] reads_backD [OF bs(2) at_bytes_advance [of c "[?b]"]] c
    by (simp add: tail_step or.assoc del: take_bit_Suc)
  then have "reads_back (read_tail (Suc k) acc) (acc OR take_bit (Suc k * 8) val) (?b # bs)" for acc
    unfolding reads_back_def by blast
  with put_append [OF Suc.prems(1) w1(1) bs(1)] show ?case by (metis append_Cons append_Nil)
qed


lemma low_mask_eq: "n \<le> 8 \<Longrightarrow> low_mask n = mask n"
proof -
  assume "n \<le> 8"
  then consider "n = 0" | "n = 1" | "n = 2" | "n = 3" | "n = 4" | "n = 5" | "n = 6" | "n = 7" | "n = 8" by linarith
  then show ?thesis by cases (simp_all add: low_mask_def mask_eq_exp_minus_1 push_bit_eq_mult)
qed

lemma width_diff:
  assumes "1 \<le> unat (n :: u32)" "unat n \<le> 7"
  shows "unat (8 - n) = 8 - unat n" "unat (8 - ucast n :: u8) = 8 - unat n"
proof -
  have "n \<le> 8" using assms(2) by (simp add: word_le_nat_alt)
  then show "unat (8 - n) = 8 - unat n" by (simp add: unat_sub)
  have u: "unat (ucast n :: u8) = unat n" using assms(2) by (simp add: unsigned_ucast_eq take_bit_nat_eq_self)
  then have "(ucast n :: u8) \<le> 8" using assms(2) by (simp add: word_le_nat_alt)
  then show "unat (8 - ucast n :: u8) = 8 - unat n" using u by (simp add: unat_sub)
qed

lemma high_bits_clear: "unat (v :: 'a::len word) < 2 ^ n \<Longrightarrow> take_bit n v = v"
  by (simp add: word_unat_eq_iff unsigned_take_bit_eq take_bit_nat_eq_self)

text \<open>The first byte: the prefix above the top bits of the value.\<close>

lemma first_byte:
  assumes "1 \<le> m" "m \<le> 7" "take_bit m (pv :: u64) = pv" "take_bit (8 - m) (h :: u64) = h"
  shows "drop_bit (8 - m) (push_bit (8 - m) (ucast pv) OR ucast h :: u8) = ucast pv"
    "(push_bit (8 - m) (ucast pv) OR ucast h :: u8) AND mask (8 - m) = ucast h"
    "ucast (ucast pv :: u8) = pv"
proof -
  have pv: "bit pv i \<Longrightarrow> i < m" and h: "bit h i \<Longrightarrow> i < 8 - m" for i
    using assms(3,4) by (metis bit_take_bit_iff)+
  show "drop_bit (8 - m) (push_bit (8 - m) (ucast pv) OR ucast h :: u8) = ucast pv"
    by (rule bit_word_eqI) (use assms(1,2) in \<open>auto simp: bit_simps dest: pv h\<close>)
  show "(push_bit (8 - m) (ucast pv) OR ucast h :: u8) AND mask (8 - m) = ucast h"
    by (rule bit_word_eqI) (auto simp: bit_simps dest: h)
  show "ucast (ucast pv :: u8) = pv"
    by (rule bit_word_eqI) (use assms(1,2) in \<open>auto simp: bit_simps dest: pv\<close>)
qed


lemma find_distinct: "distinct (map f xs) \<Longrightarrow> x \<in> set xs \<Longrightarrow> List.find (\<lambda>y. f y = f x) xs = Some x"
  by (induction xs) (auto simp: image_iff)

lemma strict_ok_first:
  assumes "List.find (\<lambda>br. val \<le> vb_max_value br) brs = Some br" "distinct (map vb_prefix_value brs)"
    and "ucast p = vb_prefix_value br"
  shows "strict_ok brs p val"
proof -
  from assms(1) obtain j where j: "j < length brs" "br = brs ! j" "\<And>i. i < j \<Longrightarrow> \<not> val \<le> vb_max_value (brs ! i)"
    by (auto simp: find_Some_iff)
  have "\<not> (ucast p = vb_prefix_value (brs ! i) \<and> val \<le> vb_max_value (brs ! (i - 1)))" if "1 \<le> i" "i < length brs" for i
  proof
    assume a: "ucast p = vb_prefix_value (brs ! i) \<and> val \<le> vb_max_value (brs ! (i - 1))"
    then have "i = j" using assms(2,3) j(1,2) that(2) by (simp add: distinct_conv_nth) metis
    then show False using j(3) [of "i - 1"] that(1) a by simp
  qed
  then show ?thesis by (simp add: strict_ok_def list_all_iff)
qed

lemma prefix_round_trip:
  assumes "varint_ok vi" "vi_encoding vi = PrefixMatch" "writer_ok w" "prefix_serialize vi val w = Inr w'"
  shows "\<exists>bs. put bs w = Inr w' \<and> reads_back (prefix_parse vi) val bs"
proof -
  let ?m = "unat (vi_prefix_width vi)"
  have ok: "1 \<le> ?m" "?m \<le> 7" "vi_branches vi \<noteq> []" "list_all (branch_ok ?m) (vi_branches vi)"
    "distinct (map vb_prefix_value (vi_branches vi))" using assms(1,2) by (auto simp: varint_ok_def Let_def)
  from assms(4) ok(3) obtain br where br: "List.find (\<lambda>br. val \<le> vb_max_value br) (vi_branches vi) = Some br"
    by (auto simp: prefix_serialize_def split: option.splits)
  let ?n = "unat (vb_total_bytes br) - 1"
  let ?h = "drop_bit (?n * 8) val" and ?pv = "vb_prefix_value br"
  have mem: "br \<in> set (vi_branches vi)" "val \<le> vb_max_value br" using find_eq_Some_in [OF br] by auto
  with ok(4) have b: "branch_ok ?m br" by (simp add: list_all_iff)
  have "unat val < 2 ^ (8 * unat (vb_total_bytes br) - ?m)"
    using b mem(2) by (auto simp: branch_ok_def word_le_nat_alt)
  moreover have "8 * unat (vb_total_bytes br) - ?m = ?n * 8 + (8 - ?m)" using b ok(2) by (auto simp: branch_ok_def)
  ultimately have v: "take_bit (?n * 8 + (8 - ?m)) val = val" by (simp add: high_bits_clear)
  then have h: "take_bit (8 - ?m) ?h = ?h" by (metis drop_bit_take_bit add_diff_cancel_left')
  have "take_bit (8 + ?n * 8) val = val"
    using v by (metis (no_types, lifting) add.commute diff_le_self min.absorb2 nat_add_left_cancel_le take_bit_take_bit)
  then have whole: "push_bit (?n * 8) (ucast (ucast ?h :: u8)) OR take_bit (?n * 8) val = val" by (simp flip: tail_step)
  have pv: "take_bit ?m ?pv = ?pv" using b by (intro high_bits_clear) (auto simp: branch_ok_def)
  note fb = first_byte [OF ok(1,2) pv h]
  let ?b = "prefix_byte vi br OR ucast ?h"
  have pb: "prefix_byte vi br = push_bit (8 - ?m) (ucast ?pv)"
    using ok(1,2) by (simp add: prefix_byte_def width_diff)
  have mask: "value_mask_of vi = mask (8 - ?m)"
    using ok(1,2) by (simp add: value_mask_of_def width_diff low_mask_eq)
  from assms(4) br obtain w1 where w1: "put [?b] w = Inr w1" "write_tail ?n val w1 = Inr w'"
    by (auto simp: prefix_serialize_def Let_def write_u8_put [OF assms(3)] rbind_eq_Inr_iff)
  from tail_round_trip [OF put_ok [OF assms(3) w1(1)] w1(2)] obtain bs where bs: "put bs w1 = Inr w'"
    "\<And>acc. reads_back (read_tail ?n acc) (acc OR take_bit (?n * 8) val) bs" by blast
  have "prefix_parse vi c = Inr (val, advance (length ([?b] @ bs)) c)" if c: "at_bytes c (([?b] @ bs) @ rest)" for c rest
  proof -
    have p: "drop_bit (unat (8 - vi_prefix_width vi)) ?b = ucast ?pv" using fb(1) pb ok(1,2) by (simp add: width_diff)
    have found: "List.find (\<lambda>y. vb_prefix_value y = ucast (ucast ?pv :: u8)) (vi_branches vi) = Some br"
      unfolding fb(3) using find_distinct [OF ok(5) mem(1)] .
    have strict: "strict_ok (vi_branches vi) (ucast ?pv) val" using strict_ok_first [OF br ok(5)] fb(3) by simp
    have tail: "read_tail ?n (push_bit (?n * 8) (ucast (?b AND value_mask_of vi))) (advance 1 c)
        = Inr (val, advance (length ([?b] @ bs)) c)"
      using reads_backD [OF bs(2) at_bytes_advance [of c "[?b]"]] c fb(2) whole unfolding mask pb by simp
    have first: "read_u8 c = Inr (?b, advance 1 c)" using read_u8_back [of c ?b "bs @ rest"] c by simp
    show ?thesis
      unfolding prefix_parse_def by (simp only: first found tail p rbind.simps prod.case Let_def option.case) (simp add: strict)
  qed
  then have "reads_back (prefix_parse vi) val ([?b] @ bs)" unfolding reads_back_def by blast
  with put_append [OF assms(3) w1(1) bs(1)] show ?thesis by blast
qed


text \<open>A group of bits with the continuation bits above it.\<close>

lemma group_byte:
  assumes "1 \<le> n" "n \<le> 7"
  shows "((ucast (val AND ucast (mask n :: u8)) :: u8) OR NOT (mask n)) AND mask n = ucast (take_bit n (val :: u64))"
    "(ucast (val AND ucast (mask n :: u8)) :: u8) AND mask n = ucast (take_bit n val)"
    "((ucast (val AND ucast (mask n :: u8)) :: u8) OR NOT (mask n)) AND NOT (mask n) \<noteq> 0"
    "(ucast (val AND ucast (mask n :: u8)) :: u8) AND NOT (mask n) = 0"
proof -
  show "((ucast (val AND ucast (mask n :: u8)) :: u8) OR NOT (mask n)) AND mask n = ucast (take_bit n val)"
    by (rule bit_word_eqI) (use assms in \<open>auto simp: bit_simps\<close>)
  show "(ucast (val AND ucast (mask n :: u8)) :: u8) AND mask n = ucast (take_bit n val)"
    by (rule bit_word_eqI) (use assms in \<open>auto simp: bit_simps\<close>)
  show "(ucast (val AND ucast (mask n :: u8)) :: u8) AND NOT (mask n) = 0"
    by (rule bit_word_eqI) (use assms in \<open>auto simp: bit_simps\<close>)
  have "bit (((ucast (val AND ucast (mask n :: u8)) :: u8) OR NOT (mask n)) AND NOT (mask n)) 7"
    using assms by (simp add: bit_simps)
  then show "((ucast (val AND ucast (mask n :: u8)) :: u8) OR NOT (mask n)) AND NOT (mask n) \<noteq> 0"
    by (metis bit_0_eq bot_apply bot_bool_def)
qed

lemma group_step:
  assumes "n \<le> 7"
  shows "push_bit shift (ucast (ucast (take_bit n val) :: u8)) OR push_bit (shift + n) (drop_bit n val) = push_bit shift (val :: u64)"
proof (rule bit_word_eqI)
  fix i
  have "shift + n \<le> i \<Longrightarrow> n + (i - (shift + n)) = i - shift" by simp
  then show "bit (push_bit shift (ucast (ucast (take_bit n val) :: u8)) OR push_bit (shift + n) (drop_bit n val)) i
      = bit (push_bit shift val) i" if "i < LENGTH(64)"
    using that assms by (cases "shift + n \<le> i") (auto simp: bit_simps)
qed

lemma cont_round_trip:
  assumes "1 \<le> bits" "bits \<le> 7" "val = 0 \<and> shift = 0 \<or> shift < 64 \<and> val \<noteq> 0 \<and> take_bit (64 - shift) val = val"
    and "writer_ok w" "cont_serialize bits n val w = Inr w'"
  shows "\<exists>bs. put bs w = Inr w' \<and> (\<forall>acc. reads_back (cont_parse bits n acc shift) (acc OR push_bit shift val) bs)"
  using assms(3-5)
proof (induction n arbitrary: val shift w)
  case (Suc n)
  have lm: "low_mask bits = mask bits" using assms(2) by (simp add: low_mask_eq)
  note gb = group_byte [OF assms(1,2), of val]
  have shift: "shift mod 64 = shift" using Suc.prems(1) by auto
  let ?g = "ucast (val AND ucast (mask bits :: u8)) :: u8" and ?rest = "drop_bit bits val"
  define b where "b = (if ?rest \<noteq> 0 then ?g OR NOT (mask bits) else ?g)"
  from Suc.prems(2,3) obtain w1 where w1: "put [b] w = Inr w1"
    "if ?rest = 0 then w' = w1 else cont_serialize bits n ?rest w1 = Inr w'"
    unfolding b_def by (auto simp: Let_def lm write_u8_put rbind_eq_Inr_iff split: if_splits)
  have parse: "cont_parse bits (Suc n) acc shift c =
      (let acc = acc OR push_bit shift (ucast (ucast (take_bit bits val) :: u8))
       in if ?rest = 0 then Inr (acc, advance 1 c) else cont_parse bits n acc (shift + bits) (advance 1 c))"
    if "at_bytes c (b # more)" for acc c more
    using read_u8_back [OF that] gb by (simp add: b_def lm shift Let_def)
  show ?case
  proof (cases "?rest = 0")
    case True
    have "push_bit shift (ucast (ucast (take_bit bits val) :: u8)) = push_bit shift val"
      using group_step [OF assms(2), of shift val] True by simp
    then have "cont_parse bits (Suc n) acc shift c = Inr (acc OR push_bit shift val, advance (length [b]) c)"
      if "at_bytes c ([b] @ more)" for acc c more
      using parse [of c more acc] that True by (simp add: Let_def del: cont_parse.simps)
    then have "reads_back (cont_parse bits (Suc n) acc shift) (acc OR push_bit shift val) [b]" for acc
      unfolding reads_back_def by blast
    moreover have "put [b] w = Inr w'" using w1 True by simp
    ultimately show ?thesis by blast
  next
    case False
    have "\<exists>i. bit ?rest i" using False by (auto simp: bit_eq_iff)
    then obtain i where i: "bit val (bits + i)" by (auto simp: bit_simps)
    then have "val \<noteq> 0" by auto
    with Suc.prems(1) have s: "shift < 64" "take_bit (64 - shift) val = val" by auto
    have "bits + i < 64 - shift" using i s(2) by (metis bit_take_bit_iff)
    then have "shift + bits < 64" by simp
    moreover have "take_bit (64 - (shift + bits)) ?rest = ?rest"
    proof -
      have "take_bit (64 - (shift + bits)) ?rest = drop_bit bits (take_bit (64 - (shift + bits) + bits) val)"
        by (simp add: take_bit_drop_bit add.commute)
      also have "64 - (shift + bits) + bits = 64 - shift" using \<open>shift + bits < 64\<close> by simp
      finally show ?thesis using s(2) by simp
    qed
    ultimately have "?rest = 0 \<and> shift + bits = 0 \<or> shift + bits < 64 \<and> ?rest \<noteq> 0 \<and> take_bit (64 - (shift + bits)) ?rest = ?rest"
      using False by blast
    from Suc.IH [OF this put_ok [OF Suc.prems(2) w1(1)]] w1(2) False obtain bs where bs: "put bs w1 = Inr w'"
      "\<And>acc. reads_back (cont_parse bits n acc (shift + bits)) (acc OR push_bit (shift + bits) ?rest) bs" by auto
    have "cont_parse bits (Suc n) acc shift c = Inr (acc OR push_bit shift val, advance (length ([b] @ bs)) c)"
      if c: "at_bytes c (([b] @ bs) @ more)" for acc c more
    proof -
      have "at_bytes c (b # bs @ more)" using c by simp
      from parse [OF this, of acc] reads_backD [OF bs(2) at_bytes_advance [of c "[b]" "bs @ more"]] c False
      show ?thesis by (simp add: or.assoc group_step [OF assms(2)] del: cont_parse.simps)
    qed
    then have "reads_back (cont_parse bits (Suc n) acc shift) (acc OR push_bit shift val) ([b] @ bs)" for acc
      unfolding reads_back_def by blast
    with put_append [OF Suc.prems(2) w1(1) bs(1)] show ?thesis by blast
  qed
qed simp

lemma varint_carries:
  assumes "varint_ok vi" "writer_ok w" "varint_serialize vi val w = Inr w'"
  shows "\<exists>bs. put bs w = Inr w' \<and> reads_back (varint_parse vi) val bs"
proof (cases "vi_encoding vi")
  case PrefixMatch
  then show ?thesis using prefix_round_trip [OF assms(1) _ assms(2)] assms(3)
    by (simp add: varint_serialize_def varint_parse_def [abs_def])
next
  case ContinuationBit
  then have b: "1 \<le> group_bits vi" "group_bits vi \<le> 7" using assms(1) by (auto simp: varint_ok_def)
  have "val = 0 \<and> (0::nat) = 0 \<or> (0::nat) < 64 \<and> val \<noteq> 0 \<and> take_bit (64 - 0) val = val"
    by (auto simp: take_bit_word_full)
  moreover have "cont_serialize (group_bits vi) (unat (vi_max_bytes vi)) val w = Inr w'"
    using ContinuationBit assms(3) by (simp add: varint_serialize_def)
  ultimately obtain bs where
    "put bs w = Inr w'" "\<And>acc. reads_back (cont_parse (group_bits vi) (unat (vi_max_bytes vi)) acc 0) (acc OR push_bit 0 val) bs"
    using cont_round_trip [OF b _ assms(2)] by blast
  from this(1) this(2) [of 0] ContinuationBit show ?thesis by (auto simp: varint_parse_def [abs_def])
qed

end
