(* ===== verification/RustModule.thy ===== *)
theory RustModule
  imports RustRound RustVarint
begin

unbundle bit_operations_syntax

text \<open>
  The generated \<open>parse\<close> and \<open>serialize\<close> of the packets of a module together: a field of a packet type
  calls the functions of that packet, a field of a variable-length integer those of the
  integer. The packets are listed so that each one uses packets behind it only. The locale
  \<open>nested_calls\<close> is interpreted on them, and every packet without a checksum meets the round trip.
\<close>

definition packet_names :: "codec_packet \<Rightarrow> string list" where
  "packet_names p = concat (map (variant_field_name (cpk_fields p)) (cpk_items p))"

definition struct_of :: "string list \<Rightarrow> env \<Rightarrow> rval option" where
  "struct_of names env = map_option RStruct (those (map (\<lambda>x. map_option (Pair x) (env x)) names))"

definition packet_parse :: "(env \<Rightarrow> string \<Rightarrow> rval option) \<Rightarrow> (callee \<Rightarrow> cursor \<Rightarrow> gen_error + (rval \<times> cursor)) \<Rightarrow> codec_packet
    \<Rightarrow> cursor \<Rightarrow> gen_error + (rval \<times> cursor)" where
  "packet_parse ev pcall p c =
     (case gen_parse_items (cpk_fields p) [] [] (cpk_items p) of
        None \<Rightarrow> Inl Stuck
      | Some ss \<Rightarrow>
          rbind (run_parse ev pcall ss (Map.empty, c)) (\<lambda>(env, c).
            case struct_of (packet_names p) env of Some v \<Rightarrow> Inr (v, c) | None \<Rightarrow> Inl Stuck))"

definition packet_serialize :: "(callee \<Rightarrow> rval \<Rightarrow> writer \<Rightarrow> gen_error + writer) \<Rightarrow> codec_packet \<Rightarrow> rval \<Rightarrow> writer \<Rightarrow> gen_error + writer" where
  "packet_serialize scall p v w =
     (case (v, gen_ser_items (cpk_fields p) [] (cpk_items p)) of
        (RStruct xs, Some ss) \<Rightarrow> run_ser scall (map_of xs) ss w
      | _ \<Rightarrow> Inl Stuck)"

text \<open>A value of the struct of a packet that the packet can carry.\<close>

definition packet_valid :: "bool \<Rightarrow> (env \<Rightarrow> string \<Rightarrow> rval option) \<Rightarrow> (callee \<Rightarrow> rval \<Rightarrow> writer \<Rightarrow> gen_error + writer)
    \<Rightarrow> (callee \<Rightarrow> rval \<Rightarrow> bool) \<Rightarrow> codec_packet \<Rightarrow> rval \<Rightarrow> bool" where
  "packet_valid open_end ev scall valid p v \<longleftrightarrow>
     (case v of
        RStruct xs \<Rightarrow>
          map fst xs = packet_names p \<and> distinct (packet_names p) \<and>
          gen_parse_items (cpk_fields p) [] [] (cpk_items p) \<noteq> None \<and>
          fits_items ev scall valid (map_of xs) (cpk_fields p) open_end {} [] (cpk_items p)
      | _ \<Rightarrow> False)"

definition find_varint :: "semantic_varint list \<Rightarrow> string \<Rightarrow> semantic_varint option" where
  "find_varint vs name = List.find (\<lambda>vi. vi_name vi = name) vs"

fun pcall_of :: "(env \<Rightarrow> string \<Rightarrow> rval option) \<Rightarrow> semantic_varint list \<Rightarrow> codec_packet list \<Rightarrow> callee \<Rightarrow> cursor
    \<Rightarrow> gen_error + (rval \<times> cursor)" where
  "pcall_of ev vs [] f c =
     (case f of
        CalleeVarint name \<Rightarrow>
          (case find_varint vs name of
             Some vi \<Rightarrow> rmap (\<lambda>(v, c). (RInt (uint v), c)) (rmap_err Raised (varint_parse vi c))
           | None \<Rightarrow> Inl Stuck)
      | CalleeType name \<Rightarrow> Inl Stuck)"
| "pcall_of ev vs (p # ps) f c =
     (if f = CalleeType (cpk_name p) then packet_parse ev (pcall_of ev vs ps) p c else pcall_of ev vs ps f c)"

fun scall_of :: "semantic_varint list \<Rightarrow> codec_packet list \<Rightarrow> callee \<Rightarrow> rval \<Rightarrow> writer \<Rightarrow> gen_error + writer" where
  "scall_of vs [] f v w =
     (case (f, v) of
        (CalleeVarint name, RInt k) \<Rightarrow>
          (case find_varint vs name of
             Some vi \<Rightarrow> rmap_err Raised (varint_serialize vi (word_of_int k) w)
           | None \<Rightarrow> Inl Stuck)
      | _ \<Rightarrow> Inl Stuck)"
| "scall_of vs (p # ps) f v w =
     (if f = CalleeType (cpk_name p) then packet_serialize (scall_of vs ps) p v w else scall_of vs ps f v w)"

fun valid_of :: "(env \<Rightarrow> string \<Rightarrow> rval option) \<Rightarrow> semantic_varint list \<Rightarrow> codec_packet list \<Rightarrow> callee \<Rightarrow> rval \<Rightarrow> bool" where
  "valid_of ev vs [] f v =
     (case (f, v) of
        (CalleeVarint name, RInt k) \<Rightarrow>
          (case find_varint vs name of Some vi \<Rightarrow> varint_ok vi \<and> 0 \<le> k \<and> k < 2 ^ 64 | None \<Rightarrow> False)
      | _ \<Rightarrow> False)"
| "valid_of ev vs (p # ps) f v =
     (if f = CalleeType (cpk_name p) then packet_valid False ev (scall_of vs ps) (valid_of ev vs ps) p v
      else valid_of ev vs ps f v)"

section \<open>The contract of nested calls\<close>

lemma struct_of_bound:
  assumes "distinct (map fst xs)" "\<forall>x \<in> set (map fst xs). env x = map_of xs x"
  shows "struct_of (map fst xs) env = Some (RStruct xs)"
proof -
  have "those (map (\<lambda>x. map_option (Pair x) (env x)) (map fst ys)) = Some ys" if "set ys \<subseteq> set xs" for ys
    using that
  proof (induction ys)
    case (Cons y ys)
    then have "map_of xs (fst y) = Some (snd y)" using assms(1) by (cases y) simp
    then have "env (fst y) = Some (snd y)" using assms(2) Cons.prems by force
    with Cons show ?case by simp
  qed simp
  from this [of xs] show ?thesis by (simp add: struct_of_def)
qed

lemma packet_names_items: "set (packet_names p) = item_names (cpk_fields p) (cpk_items p)"
  by (simp add: packet_names_def item_names_def)

context nested_calls
begin

lemma packet_carries:
  assumes "packet_valid open_end ev scall valid p v" "writer_ok w" "packet_serialize scall p v w = Inr w'"
  shows "\<exists>bs. put bs w = Inr w' \<and>
    (\<forall>c rest. at_bytes c (bs @ rest) \<longrightarrow> (open_end \<longrightarrow> rest = []) \<longrightarrow> packet_parse ev pcall p c = Inr (v, advance (length bs) c))"
proof -
  from assms(1) obtain xs where xs: "v = RStruct xs" "map fst xs = packet_names p" "distinct (packet_names p)"
    "gen_parse_items (cpk_fields p) [] [] (cpk_items p) \<noteq> None"
    "fits_items ev scall valid (map_of xs) (cpk_fields p) open_end {} [] (cpk_items p)"
    by (cases v) (auto simp: packet_valid_def)
  from xs(4) obtain ps where ps: "gen_parse_items (cpk_fields p) [] [] (cpk_items p) = Some ps" by blast
  from assms(3) xs(1) obtain ss where ss: "gen_ser_items (cpk_fields p) [] (cpk_items p) = Some ss"
    "run_ser scall (map_of xs) ss w = Inr w'" by (auto simp: packet_serialize_def split: option.splits)
  from items_round_trip [OF ss(1) ps xs(5) assms(2) ss(2)] obtain bs where bs: "put bs w = Inr w'"
    "\<And>c rest. at_bytes c (bs @ rest) \<Longrightarrow> (open_end \<longrightarrow> rest = []) \<Longrightarrow>
       \<exists>env. run_parse ev pcall ps (Map.empty, c) = Inr (env, advance (length bs) c)
         \<and> (\<forall>x \<in> item_names (cpk_fields p) (cpk_items p). env x = map_of xs x)" by blast
  have "packet_parse ev pcall p c = Inr (v, advance (length bs) c)"
    if c: "at_bytes c (bs @ rest)" "open_end \<longrightarrow> rest = []" for c rest
  proof -
    from bs(2) [OF c] obtain env where env: "run_parse ev pcall ps (Map.empty, c) = Inr (env, advance (length bs) c)"
      "\<forall>x \<in> set (map fst xs). env x = map_of xs x" unfolding packet_names_items [symmetric] xs(2) by blast
    have "struct_of (packet_names p) env = Some v"
      using struct_of_bound [OF _ env(2)] xs(1-3) by simp
    with env(1) ps show ?thesis by (simp add: packet_parse_def)
  qed
  with bs(1) show ?thesis by blast
qed

end

lemma varint_call:
  assumes "valid_of ev vs [] f v"
  shows "carries (scall_of vs [] f v) (pcall_of ev vs [] f) v"
proof -
  from assms obtain name k vi where f: "f = CalleeVarint name" "v = RInt k" "find_varint vs name = Some vi"
    "varint_ok vi" "0 \<le> k" "k < 2 ^ 64"
    by (cases f; cases v) (auto split: option.splits)
  have k: "uint (word_of_int k :: u64) = k" using f(5,6) by (simp add: uint_word_of_int)
  have "\<exists>bs. put bs w = Inr w' \<and> reads_back (pcall_of ev vs [] f) v bs"
    if w: "writer_ok w" "scall_of vs [] f v w = Inr w'" for w w'
  proof -
    from w(2) f(1-3) have "varint_serialize vi (word_of_int k) w = Inr w'" by (simp add: rmap_err_eq_Inr_iff)
    from varint_carries [OF f(4) w(1) this] obtain bs where "put bs w = Inr w'" "reads_back (varint_parse vi) (word_of_int k) bs"
      by blast
    moreover from this(2) have "reads_back (pcall_of ev vs [] f) v bs" using f(1-3) k by (auto simp: reads_back_def)
    ultimately show ?thesis by blast
  qed
  then show ?thesis by (simp add: carries_def)
qed

lemma module_call: "valid_of ev vs ps f v \<Longrightarrow> carries (scall_of vs ps f v) (pcall_of ev vs ps f) v"
proof (induction ps arbitrary: f v)
  case Nil
  then show ?case by (rule varint_call)
next
  case (Cons p ps)
  have calls: "nested_calls (pcall_of ev vs ps) (scall_of vs ps) (valid_of ev vs ps)"
    using Cons.IH by unfold_locales
  show ?case
  proof (cases "f = CalleeType (cpk_name p)")
    case True
    then have "packet_valid False ev (scall_of vs ps) (valid_of ev vs ps) p v" using Cons.prems by simp
    from nested_calls.packet_carries [OF calls this] True show ?thesis
      by (simp add: carries_def reads_back_def)
  next
    case False
    have "scall_of vs (p # ps) f v = scall_of vs ps f v" "pcall_of ev vs (p # ps) f = pcall_of ev vs ps f"
      using False by auto
    then show ?thesis using Cons False by simp
  qed
qed

interpretation module_calls: nested_calls "pcall_of ev vs ps" "scall_of vs ps" "valid_of ev vs ps" for ev vs ps
  by unfold_locales (rule module_call)


section \<open>The round trip\<close>


text \<open>A packet of two bit fields, a prefix-match integer, a length and bytes of that length.\<close>

definition demo_field :: "string \<Rightarrow> field_strategy \<Rightarrow> wire_type \<Rightarrow> codec_field" where
  "demo_field name strategy wt =
     \<lparr>cf_field_id = name, cf_scope_id = ''p'', cf_field_index = 0, cf_name = name, cf_wire_type = wt, cf_strategy = strategy,
      cf_memory_tier = None, cf_endianness = None, cf_is_optional = False, cf_inner_wire_type = None, cf_condition = None,
      cf_ref_type_name = None, cf_bit_width = None, cf_bytes_spec = None, cf_array_spec = None, cf_bitgroup_member = None,
      cf_max_elements = None, cf_checksum_algorithm = None, cf_asn1_hint = None, cf_span = None\<rparr>"

definition demo_member :: "u16 \<Rightarrow> bitgroup_member" where
  "demo_member off =
     \<lparr>bm_group_id = 0, bm_total_bits = 8, bm_member_offset_bits = off, bm_member_width_bits = 4, bm_group_endianness = Big\<rparr>"

definition demo_packet :: codec_packet where
  "demo_packet =
     \<lparr>cpk_scope_id = ''p'', cpk_name = ''P'',
      cpk_fields =
        [(demo_field ''kind'' StBitGroup (WBits 4))\<lparr>cf_bitgroup_member := Some (demo_member 4)\<rparr>,
         (demo_field ''flags'' StBitGroup (WBits 4))\<lparr>cf_bitgroup_member := Some (demo_member 0)\<rparr>,
         (demo_field ''num'' StVarInt WVarInt)\<lparr>cf_ref_type_name := Some ''Num''\<rparr>,
         demo_field ''len'' StPrimitive WU8,
         (demo_field ''body'' StBytesLength WBytes)\<lparr>cf_bytes_spec :=
            Some (BsLength (CValueRef \<lparr>cvr_value_id = ''len'', cvr_kind = CKField\<rparr>))\<rparr>],
      cpk_items = map CiField [''kind'', ''flags'', ''num'', ''len'', ''body''],
      cpk_checksum_plan = None\<rparr>"

definition demo_varint :: semantic_varint where
  "demo_varint =
     \<lparr>vi_varint_id = ''Num'', vi_name = ''Num'', vi_encoding = PrefixMatch, vi_prefix_bits = Some 1,
      vi_branches =
        [\<lparr>vb_prefix_value = 0, vb_prefix_bits = 1, vb_value_bits = 7, vb_total_bytes = 1, vb_max_value = 127, vb_prefix_mask = 127\<rparr>,
         \<lparr>vb_prefix_value = 1, vb_prefix_bits = 1, vb_value_bits = 15, vb_total_bytes = 2, vb_max_value = 32767, vb_prefix_mask = 127\<rparr>],
      vi_value_bits_per_byte = None, vi_max_bytes = 2, vi_byte_order = Big, vi_strict = True, vi_span = None\<rparr>"

definition demo_value :: rval where
  "demo_value =
     RStruct [(''kind'', RInt 5), (''flags'', RInt 9), (''num'', RInt 300), (''len'', RInt 3), (''body'', RBytes [1, 2, 3])]"

lemma demo_stmts:
  "gen_ser_items (cpk_fields demo_packet) [] (cpk_items demo_packet) =
    Some [SGroup ''_bg0'' ''u8'' [(''kind'', 15, 4), (''flags'', 15, 0)] ''write_u8'',
          SWrite ''num'' (WrCall (CalleeVarint ''Num'')), SWrite ''len'' (WrMethod ''write_u8''), SBytes ''body'']"
  by code_simp

lemma demo_method: "writer_method ''write_u8'' = Some (lift_write write_u8)"
  by (simp add: writer_method_def write_table_def)

lemma demo_find: "find_varint [demo_varint] ''Num'' = Some demo_varint"
  by (simp add: find_varint_def demo_varint_def)

lemma demo_join: "join_members (map_of [(''kind'', RInt 5), (''flags'', RInt 9), (''num'', RInt 300), (''len'', RInt 3), (''body'', RBytes [1, 2, 3])])
    8 [(''kind'', 15, 4), (''flags'', 15, 0)] 0 = Some 0x59"
  by simp

lemma demo_num: "writer_ok w \<Longrightarrow> varint_serialize demo_varint 300 w = rbind (put [0x81] w) (put [0x2C])"
proof -
  assume w: "writer_ok w"
  have "List.find (\<lambda>br. 300 \<le> vb_max_value br) (vi_branches demo_varint) = Some (vi_branches demo_varint ! 1)"
    by (simp add: demo_varint_def)
  moreover have "prefix_byte demo_varint (vi_branches demo_varint ! 1) = 0x80"
    by (simp add: demo_varint_def prefix_byte_def vi_prefix_width_def)
  moreover have "vb_total_bytes (vi_branches demo_varint ! 1) = 2" "vi_encoding demo_varint = PrefixMatch"
    by (simp_all add: demo_varint_def)
  ultimately have "varint_serialize demo_varint 300 w = rbind (write_u8 0x81 w) (write_tail 1 300)"
    by (simp add: varint_serialize_def prefix_serialize_def)
  also have "\<dots> = rbind (put [0x81] w) (write_u8 0x2C)"
  proof -
    have "ucast (drop_bit (0 * 8) (300 :: u64)) = (0x2C :: u8)" by simp
    then have "write_tail 1 300 x = rbind (write_u8 0x2C x) (write_tail 0 300)" for x
      by (simp only: One_nat_def write_tail.simps)
    moreover have "write_tail 0 300 = Inr" by (simp add: fun_eq_iff)
    ultimately show ?thesis unfolding write_u8_put [OF w] by (intro rbind_cong) simp_all
  qed
  also have "\<dots> = rbind (put [0x81] w) (put [0x2C])"
    by (rule rbind_cong) (use w in \<open>auto intro!: write_u8_put dest: put_ok\<close>)
  finally show ?thesis .
qed

lemma demo_serialize:
  "packet_serialize (scall_of [demo_varint] []) demo_packet demo_value \<lparr>buf = [0, 0, 0, 0, 0, 0, 0, 0], wpos = 0\<rparr>
    = Inr \<lparr>buf = [0x59, 0x81, 0x2C, 3, 1, 2, 3, 0], wpos = 7\<rparr>"
  unfolding packet_serialize_def demo_value_def demo_stmts
  by (simp only: prod.case rval.case option.case run_ser.simps run_ser_stmt.simps type_bits_def if_True simp_thms demo_join demo_method)
    (simp add: demo_method lift_write_def write_u8_put put_eq writer_ok_def patch_def demo_find demo_num write_bytes_def)

lemma demo_varint_ok: "varint_ok demo_varint"
  by (simp add: varint_ok_def demo_varint_def branch_ok_def vi_prefix_width_def)

lemma demo_idents: "rust_ident ''kind'' = ''kind''" "rust_ident ''flags'' = ''flags''" "rust_ident ''num'' = ''num''"
  "rust_ident ''len'' = ''len''" "rust_ident ''body'' = ''body''" "bitgroup_var 0 = ''_bg0''"
  "rust_ident (extract_field_name ''len'') = ''len''"
  "field_ref_to_rust CtxParse [] ''len'' = ''len''"
  "rust_ident (before_first CHR ''['' (behind_last CHR ''.'' ''len'')) = ''len''"
  by code_simp+

lemma demo_gens: "gen_write WVarInt (Some ''Num'') None = Some (WrCall (CalleeVarint ''Num''))"
  "gen_write WU8 None None = Some (WrMethod ''write_u8'')" "map_of suffix_width ''u8'' = Some (1, {0..<2 ^ 8})"
  "expr_to_rust_with_aliases CtxParse [] (CValueRef \<lparr>cvr_value_id = ''len'', cvr_kind = CKField\<rparr>) = Some ''len''"
  by (simp_all add: gen_write_def writer_write_method_def suffix_width_def field_ref_to_rust_def resolve_field_alias_def demo_idents
      Let_def extract_field_name_def) 

lemma demo_group:
  "group_members_of (cpk_fields demo_packet) 0 =
    [(cpk_fields demo_packet ! 0, demo_member 4), (cpk_fields demo_packet ! 1, demo_member 0)]"
  by code_simp

lemma demo_valid:
  "packet_valid False (\<lambda>env t. env t) (scall_of [demo_varint] []) (valid_of (\<lambda>env t. env t) [demo_varint] []) demo_packet demo_value"
proof -
  let ?self = "map_of [(''kind'', RInt 5), (''flags'', RInt 9), (''num'', RInt 300), (''len'', RInt 3), (''body'', RBytes [1, 2, 3])]"
  have names: "packet_names demo_packet = [''kind'', ''flags'', ''num'', ''len'', ''body'']" by code_simp
  have gen: "gen_parse_items (cpk_fields demo_packet) [] [] (cpk_items demo_packet) \<noteq> None" by code_simp
  have mf: "member_fits ?self ''_bg0'' 8 (cpk_fields demo_packet ! 0, demo_member 4)"
    "member_fits ?self ''_bg0'' 8 (cpk_fields demo_packet ! 1, demo_member 0)"
    by (simp_all add: member_fits_def member_bits_def demo_member_def demo_packet_def demo_field_def demo_idents
        bits_type_def type_bits_def)
  have "group_fits ?self {} (cpk_fields demo_packet) (demo_member 4)"
    using mf by (simp add: group_fits_def demo_group demo_idents demo_member_def disjoint_bits_def member_bits_def)
  then show ?thesis
    unfolding packet_valid_def demo_value_def
    by (simp add: names gen, simp add: demo_packet_def demo_field_def find_field_def,
        simp add: field_fits_def scalar_fits_def next_emitted_def field_binds_def demo_idents demo_gens demo_member_def
          demo_find demo_varint_ok bytes_fit_def evaluates_def agrees_def)
qed


end
