(* ===== verification/RustFacts.thy ===== *)
theory RustFacts
  imports RustModule
begin

text \<open>
  Facts about the Rust generator: the texts of a packet are the texts of the statement lists of
  \<open>RustGen\<close>, the parse code of a packet with a checksum reads a bit group once for each of its members, and the
  length of a bit group is right for whole machine words only.
\<close>

lemma demo_no_asn1: "no_asn1 (cpk_fields demo_packet)"
  by (simp add: no_asn1_def demo_packet_def demo_field_def)



lemma item_in_group:
  assumes "find_field flds i = Some f" "cf_strategy f = StBitGroup" "cf_bitgroup_member f = Some bg"
  shows "emit_parse_items flds [CiField i] indent = emit_bitgroup_parse flds indent bg ''cur''"
    "cf_name f \<noteq> cksum \<Longrightarrow> offset_stmt flds cksum stmt (CiField i) = []"
  using assms
  by (cases "emit_bitgroup_parse flds indent bg ''cur''";
      simp add: emit_parse_items_def emit_parse_items_with_field_aliases_def emit_field_parse_def offset_stmt_def ocat_Cons)+




lemma group_method_8: "writer_method ''write_u8'' = Some (lift_write write_u8)"
  by (simp add: writer_method_def write_table_def)

lemma group_methods_16: "writer_method ''write_u16le'' = Some (lift_write write_u16le)"
  "writer_method ''write_u16be'' = Some (lift_write write_u16be)"
  by (simp_all add: writer_method_def write_table_def)

lemma group_methods_32: "writer_method ''write_u32le'' = Some (lift_write write_u32le)"
  "writer_method ''write_u32be'' = Some (lift_write write_u32be)"
  by (simp_all add: writer_method_def write_table_def)

lemma group_methods_64: "writer_method ''write_u64le'' = Some (lift_write write_u64le)"
  "writer_method ''write_u64be'' = Some (lift_write write_u64be)"
  by (simp_all add: writer_method_def write_table_def)

lemma bitgroup_width:
  assumes "bitgroup_suffix n e = Some s" "writer_method (''write_'' @ s) = Some wr" "writer_ok w" "wr k w = Inr w'"
  shows "wpos w' = wpos w + (if n \<le> 8 then 1 else if n \<le> 16 then 2 else if n \<le> 32 then 4 else 8)"
proof -
  let ?o = "if e = Little then ''le'' else ''be''"
  from assms(1) consider "0 < n" "n \<le> 8" "s = ''u8''" | "8 < n" "n \<le> 16" "s = ''u16'' @ ?o"
    | "16 < n" "n \<le> 32" "s = ''u32'' @ ?o" | "32 < n" "n \<le> 64" "s = ''u64'' @ ?o"
    unfolding bitgroup_suffix_def Let_def by (simp split: if_split_asm)
  then show ?thesis
  proof cases
    case 1
    have "wr = lift_write write_u8" using assms(2) 1 group_method_8 by simp
    then have "wpos w' = wpos w + 1" using assms(3,4) sc_u8.write_frame unfolding lift_write_def by blast
    with 1 show ?thesis by simp
  next
    case 2
    have "wr = lift_write write_u16le \<or> wr = lift_write write_u16be"
      using assms(2) 2 group_methods_16 by (cases "e = Little") simp_all
    then have "wpos w' = wpos w + 2" using assms(3,4) sc_u16le.write_frame sc_u16be.write_frame unfolding lift_write_def by blast
    with 2 show ?thesis by simp
  next
    case 3
    have "wr = lift_write write_u32le \<or> wr = lift_write write_u32be"
      using assms(2) 3 group_methods_32 by (cases "e = Little") simp_all
    then have "wpos w' = wpos w + 4" using assms(3,4) sc_u32le.write_frame sc_u32be.write_frame unfolding lift_write_def by blast
    with 3 show ?thesis by simp
  next
    case 4
    have "wr = lift_write write_u64le \<or> wr = lift_write write_u64be"
      using assms(2) 4 group_methods_64 by (cases "e = Little") simp_all
    then have "wpos w' = wpos w + 8" using assms(3,4) sc_u64le.write_frame sc_u64be.write_frame unfolding lift_write_def by blast
    with 4 show ?thesis by simp
  qed
qed

text \<open>C0. For a bit group of whole bytes, the number of bytes that the generated write puts out is the number
  that \<open>serialized_len\<close> counts exactly when the group has 8, 16, 32 or 64 bits; groups of 24, 40, 48 and 56
  bits take the next larger machine word on the wire.\<close>

lemma bitgroup_length_exact_iff:
  assumes "unat bits mod 8 = 0" "bitgroup_write_method bits e = Some m" "writer_method m = Some wr" "writer_ok w" "wr k w = Inr w'"
  shows "wpos w' = wpos w + div_ceil8 bits \<longleftrightarrow> unat bits \<in> {8, 16, 32, 64}"
proof -
  from assms(2) obtain s where s: "bitgroup_suffix (unat bits) e = Some s" "m = ''write_'' @ s"
    by (auto simp: bitgroup_write_method_def)
  have range: "0 < unat bits" "unat bits \<le> 64" using s(1) by (auto simp: bitgroup_suffix_def Let_def split: if_splits)
  have "wpos w' = wpos w + (if unat bits \<le> 8 then 1 else if unat bits \<le> 16 then 2 else if unat bits \<le> 32 then 4 else 8)"
    using bitgroup_width [OF s(1)] assms(3-5) s(2) by simp
  moreover obtain q where q: "unat bits = 8 * q" using assms(1) by (auto simp: mod_eq_0_iff_dvd elim: dvdE)
  then have "q \<in> {1, 2, 3, 4, 5, 6, 7, 8}" using range by auto
  ultimately show ?thesis using q by (auto simp: div_ceil8_def)
qed


lemma demo_write_group: "lift_write write_u32be 5 \<lparr>buf = [0, 0, 0, 0], wpos = 0\<rparr> = Inr \<lparr>buf = [0, 0, 0, 5], wpos = 4\<rparr>"
proof -
  have "to_be_bytes 4 (5 :: u32) = [0, 0, 0, 5]" by code_simp
  then show ?thesis by (simp add: lift_write_def write_u32be_def put_eq writer_ok_def patch_def)
qed

lemma bitgroup_length_exact_iff_witness:
  "wpos \<lparr>buf = [0, 0, 0, 5], wpos = 4\<rparr> = wpos \<lparr>buf = [0, 0, 0, 0], wpos = 0\<rparr> + div_ceil8 24
    \<longleftrightarrow> unat (24 :: u16) \<in> {8, 16, 32, 64}"
  by (rule bitgroup_length_exact_iff [OF _ _ group_methods_32(2) _ demo_write_group, where e = Big])
    (simp_all add: bitgroup_write_method_def bitgroup_suffix_def writer_ok_def)

end
