(* ===== verification/CNames.thy ===== *)
theory CNames
  imports RustMachine
begin

text \<open>
  Names, types and expressions of generated C code, \<open>crates/wirespec-backend-c/src\<close>: naming conventions
  (\<open>names.rs\<close>), the read and write functions of a wire type (\<open>type_map.rs\<close>), the conversion of scope
  expressions and of state-machine expressions (\<open>expr.rs\<close>). The module prefix that \<open>expr.rs\<close> keeps in a
  thread-local variable is an argument here: \<open>emit_source\<close> sets it before it converts any expression.
  Signed types are read and written by the functions of the unsigned type of their width.
\<close>

section \<open>Names (names.rs)\<close>

definition c_type_name :: "string \<Rightarrow> string \<Rightarrow> string" where
  "c_type_name prefix name = (prefix @ ''_'' @ to_snake_case name @ ''_t'')"

definition c_func_name :: "string \<Rightarrow> string \<Rightarrow> string \<Rightarrow> string" where
  "c_func_name prefix name suffix = (prefix @ ''_'' @ to_snake_case name @ ''_'' @ suffix)"

definition c_enum_member :: "string \<Rightarrow> string \<Rightarrow> string \<Rightarrow> string" where
  "c_enum_member prefix enum_name member =
     (to_uppercase prefix @ ''_'' @ to_uppercase (to_snake_case enum_name) @ ''_'' @ member)"

definition c_frame_tag_type :: "string \<Rightarrow> string \<Rightarrow> string" where
  "c_frame_tag_type prefix frame_name = (prefix @ ''_'' @ to_snake_case frame_name @ ''_tag_t'')"

definition c_frame_tag_value :: "string \<Rightarrow> string \<Rightarrow> string \<Rightarrow> string" where
  "c_frame_tag_value prefix frame_name variant =
     (to_uppercase prefix @ ''_'' @ to_uppercase (to_snake_case frame_name) @ ''_'' @ to_uppercase (to_snake_case variant))"

definition c_include_guard :: "string \<Rightarrow> string" where
  "c_include_guard prefix = (to_uppercase prefix @ ''_H'')"

section \<open>Types and functions (type_map.rs)\<close>

definition c_bits_type :: "nat \<Rightarrow> string" where
  "c_bits_type n =
     (if n \<le> 8 then ''uint8_t'' else if n \<le> 16 then ''uint16_t'' else if n \<le> 32 then ''uint32_t'' else ''uint64_t'')"

fun wire_type_to_c :: "wire_type \<Rightarrow> string \<Rightarrow> string" where
  "wire_type_to_c WU8 prefix = ''uint8_t''"
| "wire_type_to_c WU16 prefix = ''uint16_t''"
| "wire_type_to_c WU24 prefix = ''uint32_t''"
| "wire_type_to_c WU32 prefix = ''uint32_t''"
| "wire_type_to_c WU64 prefix = ''uint64_t''"
| "wire_type_to_c WI8 prefix = ''int8_t''"
| "wire_type_to_c WI16 prefix = ''int16_t''"
| "wire_type_to_c WI32 prefix = ''int32_t''"
| "wire_type_to_c WI64 prefix = ''int64_t''"
| "wire_type_to_c WBool prefix = ''bool''"
| "wire_type_to_c WBit prefix = ''uint8_t''"
| "wire_type_to_c (WBits n) prefix = c_bits_type (unat n)"
| "wire_type_to_c WVarInt prefix = ''uint64_t''"
| "wire_type_to_c WContVarInt prefix = ''uint64_t''"
| "wire_type_to_c WBytes prefix = ''wirespec_bytes_t''"
| "wire_type_to_c (WStruct name) prefix = c_type_name prefix name"
| "wire_type_to_c (WFrame name) prefix = c_type_name prefix name"
| "wire_type_to_c (WCapsule name) prefix = c_type_name prefix name"
| "wire_type_to_c (WEnum name) prefix = c_type_name prefix name"
| "wire_type_to_c WArray prefix = ''/* array */''"

text \<open>The unsigned type of the same width.\<close>

fun unsigned_of :: "wire_type \<Rightarrow> wire_type" where
  "unsigned_of WI8 = WU8"
| "unsigned_of WI16 = WU16"
| "unsigned_of WI32 = WU32"
| "unsigned_of WI64 = WU64"
| "unsigned_of wt = wt"

definition cursor_read_fn :: "wire_type \<Rightarrow> endianness option \<Rightarrow> string option" where
  "cursor_read_fn wt e = map_option (\<lambda>s. ''wirespec_cursor_read_'' @ s) (method_suffix (unsigned_of wt) e)"

definition write_fn :: "wire_type \<Rightarrow> endianness option \<Rightarrow> string option" where
  "write_fn wt e = map_option (\<lambda>s. ''wirespec_write_'' @ s) (method_suffix (unsigned_of wt) e)"

definition bitgroup_read_fn :: "u16 \<Rightarrow> endianness \<Rightarrow> string option" where
  "bitgroup_read_fn total_bits e = map_option (\<lambda>s. ''wirespec_cursor_read_'' @ s) (bitgroup_suffix (unat total_bits) e)"

definition bitgroup_write_fn :: "u16 \<Rightarrow> endianness \<Rightarrow> string option" where
  "bitgroup_write_fn total_bits e = map_option (\<lambda>s. ''wirespec_write_'' @ s) (bitgroup_suffix (unat total_bits) e)"

definition bitgroup_c_type :: "u16 \<Rightarrow> string" where
  "bitgroup_c_type total_bits =
     (let n = unat total_bits
      in if 1 \<le> n \<and> n \<le> 8 then ''uint8_t'' else if 9 \<le> n \<and> n \<le> 16 then ''uint16_t''
         else if 17 \<le> n \<and> n \<le> 32 then ''uint32_t'' else ''uint64_t'')"

text \<open>The same table as in the Rust backend.\<close>

definition c_wire_type_byte_width :: "wire_type \<Rightarrow> nat option" where
  "c_wire_type_byte_width wt =
     (if wt \<in> {WU8, WI8, WBool, WBit} then Some 1 else if wt \<in> {WU16, WI16} then Some 2
      else if wt = WU24 then Some 3 else if wt \<in> {WU32, WI32} then Some 4
      else if wt \<in> {WU64, WI64} then Some 8 else None)"

definition needs_signed_cast :: "wire_type \<Rightarrow> bool" where
  "needs_signed_cast wt \<longleftrightarrow> wt \<in> {WI8, WI16, WI32, WI64}"

definition unsigned_c_type :: "wire_type \<Rightarrow> string option" where
  "unsigned_c_type wt =
     (if needs_signed_cast wt then Some (wire_type_to_c (unsigned_of wt) []) else None)"

section \<open>Expressions of a scope (expr.rs)\<close>

text \<open>In a variant, the fields of the header are found in the enclosing structure.\<close>

datatype c_context = CParse | CSerialize | CVariantParse string "string list" | CVariantSerialize string "string list"

fun resolve_prefix :: "c_context \<Rightarrow> string \<Rightarrow> string" where
  "resolve_prefix CParse name = ''out->''"
| "resolve_prefix CSerialize name = ''val->''"
| "resolve_prefix (CVariantParse variant_prefix header_names) name =
     (if name \<in> set header_names then ''out->'' else variant_prefix)"
| "resolve_prefix (CVariantSerialize variant_prefix header_names) name =
     (if name \<in> set header_names then ''val->'' else variant_prefix)"

definition c_int_literal :: "int \<Rightarrow> string" where
  "c_int_literal n =
     (if n < 0 then (''('' @ show_int n @ '')'')
      else if n > 4294967295 then (show_int n @ ''ULL'')
      else if n > 65535 then (show_int n @ ''UL'')
      else show_int n)"

fun c_literal :: "literal_value \<Rightarrow> string" where
  "c_literal (CLInt n) = c_int_literal n"
| "c_literal (CLBool b) = (if b then ''true'' else ''false'')"
| "c_literal (CLString s) = (quo @ escape_literal s @ quo)"
| "c_literal CLNull = ''0''"

definition c_field_ref :: "c_context \<Rightarrow> string \<Rightarrow> string" where
  "c_field_ref ctx value_id = (let name = extract_field_name value_id in (resolve_prefix ctx name @ name))"

definition c_const_ref :: "string \<Rightarrow> string \<Rightarrow> string" where
  "c_const_ref prefix value_id =
     (let name_upper = to_uppercase (to_snake_case value_id)
      in if prefix = [] then name_upper else (to_uppercase prefix @ ''_'' @ name_upper))"

definition has_ref :: "c_context \<Rightarrow> string \<Rightarrow> string" where
  "has_ref ctx value_id = (let name = extract_field_name value_id in (resolve_prefix ctx name @ ''has_'' @ name))"

fun expr_to_c :: "string \<Rightarrow> c_context \<Rightarrow> codec_expr \<Rightarrow> string option" where
  "expr_to_c prefix ctx (CValueRef r) =
     Some (if cvr_kind r = CKConst then c_const_ref prefix (cvr_value_id r) else c_field_ref ctx (cvr_value_id r))"
| "expr_to_c prefix ctx (CLiteral v) = Some (c_literal v)"
| "expr_to_c prefix ctx (CBinary op l r) =
     ocat [Some ''('', expr_to_c prefix ctx l, Some ('' '' @ rust_binary_op op @ '' ''), expr_to_c prefix ctx r, Some '')'']"
| "expr_to_c prefix ctx (CUnary op e) = ocat [Some (''('' @ op), expr_to_c prefix ctx e, Some '')'']"
| "expr_to_c prefix ctx (CCoalesce e d) =
     ocat [Some ''('', case e of CValueRef r \<Rightarrow> Some (has_ref ctx (cvr_value_id r)) | _ \<Rightarrow> expr_to_c prefix ctx e,
           Some '' ? '', expr_to_c prefix ctx e, Some '' : '', expr_to_c prefix ctx d, Some '')'']"
| "expr_to_c prefix ctx (CSubscript b i) =
     ocat [expr_to_c prefix ctx b, Some ''['', expr_to_c prefix ctx i, Some '']'']"
| "expr_to_c prefix ctx _ = None"

section \<open>Expressions of a transition (expr.rs)\<close>

record sm_context =
  sx_src :: string
  sx_dst :: string
  sx_event :: string
  sx_sm :: "semantic_state_machine option"
  sx_prefix :: string

fun is_bytes_type :: "semantic_type \<Rightarrow> bool" where
  "is_bytes_type (Bytes k n l) = True"
| "is_bytes_type _ = False"

fun is_bytes_expr :: "semantic_expr \<Rightarrow> sm_context \<Rightarrow> bool" where
  "is_bytes_expr (STransitionPeerRef r) ctx =
     (case (pr_path r, sx_sm ctx) of
        (field_name # _, Some sm) \<Rightarrow>
          (case pr_peer r of
             EventParam \<Rightarrow>
               (case List.find (\<lambda>p. sep_name p = field_name) (concat (map sev_params (ssm_events sm))) of
                  Some p \<Rightarrow> is_bytes_type (sep_ty p) | None \<Rightarrow> False)
           | _ \<Rightarrow>
               (case List.find (\<lambda>f. stf_name f = field_name) (concat (map sst_fields (ssm_states sm))) of
                  Some f \<Rightarrow> is_bytes_type (stf_ty f) | None \<Rightarrow> False))
      | _ \<Rightarrow> False)"
| "is_bytes_expr _ ctx = False"

fun sm_literal_to_c :: "semantic_literal \<Rightarrow> string" where
  "sm_literal_to_c (SLInt n) = c_int_literal n"
| "sm_literal_to_c (SLBool b) = (if b then ''true'' else ''false'')"
| "sm_literal_to_c (SLString s) = (quo @ escape_literal s @ quo)"
| "sm_literal_to_c SLNull = ''0''"

definition peer_ref_to_c :: "sm_context \<Rightarrow> transition_peer_ref \<Rightarrow> string" where
  "peer_ref_to_c ctx r =
     (let path = join_with ''.'' (pr_path r)
      in case pr_peer r of
           Src \<Rightarrow> (''sm->'' @ sx_src ctx @ ''.'' @ path)
         | Dst \<Rightarrow> (''dst.'' @ sx_dst ctx @ ''.'' @ path)
         | EventParam \<Rightarrow> (''event->'' @ sx_event ctx @ ''.'' @ path))"

definition state_tag :: "string \<Rightarrow> string \<Rightarrow> string \<Rightarrow> string" where
  "state_tag prefix mname state_name =
     (to_uppercase prefix @ ''_'' @ to_uppercase (to_snake_case mname) @ ''_'' @ to_uppercase (to_snake_case state_name))"

definition bytes_comparison :: "string \<Rightarrow> string \<Rightarrow> string \<Rightarrow> string" where
  "bytes_comparison op l r =
     (if op = ''=='' then (''('' @ l @ ''.len == '' @ r @ ''.len && memcmp('' @ l @ ''.ptr, '' @ r @ ''.ptr, '' @ l @ ''.len) == 0)'')
      else (''('' @ l @ ''.len != '' @ r @ ''.len || memcmp('' @ l @ ''.ptr, '' @ r @ ''.ptr, '' @ l @ ''.len) != 0)''))"

text \<open>The designated initialiser of a state: the arguments behind the state's fields have no name.\<close>

definition constructor_names :: "sm_context \<Rightarrow> string \<Rightarrow> string list" where
  "constructor_names ctx state_name =
     (case Option.bind (sx_sm ctx) (\<lambda>sm. List.find (\<lambda>s. sst_name s = state_name) (ssm_states sm)) of
        Some s \<Rightarrow> map (\<lambda>f. to_snake_case (stf_name f)) (sst_fields s)
      | None \<Rightarrow> [])"

definition state_initializers :: "string list \<Rightarrow> string list \<Rightarrow> string" where
  "state_initializers names vals =
     join_with '', '' (map (\<lambda>(name, v). (''.'' @ name @ '' = '' @ v)) (zip names vals) @ drop (length names) vals)"

fun sema_expr_to_c :: "semantic_expr \<Rightarrow> sm_context \<Rightarrow> string" where
  "sema_expr_to_c (STransitionPeerRef r) ctx = peer_ref_to_c ctx r"
| "sema_expr_to_c (SValueRef r) ctx =
     (if vr_kind r = KConst then to_uppercase (vr_value_id r)
      else (''sm->'' @ sx_src ctx @ ''.'' @ extract_field_name (vr_value_id r)))"
| "sema_expr_to_c (SLiteral v) ctx = sm_literal_to_c v"
| "sema_expr_to_c (SBinary op l r) ctx =
     (let l_str = sema_expr_to_c l ctx; r_str = sema_expr_to_c r ctx
      in if (op = ''=='' \<or> op = ''!='') \<and> is_bytes_expr l ctx then bytes_comparison op l_str r_str
         else (''('' @ l_str @ '' '' @ rust_binary_op op @ '' '' @ r_str @ '')''))"
| "sema_expr_to_c (SUnary op e) ctx = (''('' @ op @ sema_expr_to_c e ctx @ '')'')"
| "sema_expr_to_c (SSubscript b i) ctx = (sema_expr_to_c b ctx @ ''['' @ sema_expr_to_c i ctx @ '']'')"
| "sema_expr_to_c (SInState e sm_id mname state_id state_name) ctx =
     (''('' @ sema_expr_to_c e ctx @ ''.tag == '' @ state_tag (sx_prefix ctx) mname state_name @ '')'')"
| "sema_expr_to_c (SStateConstructor sm_id mname state_id state_name args) ctx =
     (let arg_strs = map (\<lambda>a. sema_expr_to_c a ctx) args;
          tag = state_tag (sx_prefix ctx) mname state_name;
          sm_type = (sx_prefix ctx @ ''_'' @ to_snake_case mname @ ''_t'')
      in if args = [] then (''(('' @ sm_type @ ''){ .tag = '' @ tag @ '' })'')
         else (''(('' @ sm_type @ ''){ .tag = '' @ tag @ '', .'' @ to_snake_case state_name @ '' = { '' @
           state_initializers (constructor_names ctx state_name) arg_strs @ '' } })''))"
| "sema_expr_to_c (SFill v c) ctx = ''/* fill: see action emission */''"
| "sema_expr_to_c (SSlice b s e) ctx =
     (''/* slice: '' @ sema_expr_to_c b ctx @ ''['' @ sema_expr_to_c s ctx @ ''..'' @ sema_expr_to_c e ctx @ ''] */'')"
| "sema_expr_to_c (SAll c sm_id mname state_id state_name) ctx =
     (case c of
        SSlice b s e \<Rightarrow>
          (''({ bool _all_ok = true; for (size_t _aj = (size_t)('' @ sema_expr_to_c s ctx @ ''); _aj < (size_t)('' @ sema_expr_to_c e ctx @
            ''); _aj++) { if ('' @ sema_expr_to_c b ctx @ ''[_aj].tag != '' @ state_tag (sx_prefix ctx) mname state_name @
            '') { _all_ok = false; break; } } _all_ok; })'')
      | _ \<Rightarrow> (''({ bool _all_ok = true; /* all check on '' @ sema_expr_to_c c ctx @ '' */ _all_ok; })''))"
| "sema_expr_to_c (SCoalesce e d) ctx =
     (let e_str = sema_expr_to_c e ctx in (''('' @ e_str @ '' ? '' @ e_str @ '' : '' @ sema_expr_to_c d ctx @ '')''))"

section \<open>Facts\<close>

text \<open>The two backends agree on which types have a primitive reader, and on the bytes it takes.\<close>

lemma cursor_read_fn_iff: "cursor_read_fn wt e \<noteq> None \<longleftrightarrow> cursor_read_method wt e \<noteq> None"
  by (cases wt) (auto simp: cursor_read_fn_def cursor_read_method_def)

lemma c_wire_type_byte_width_eq: "c_wire_type_byte_width wt = wire_type_byte_width wt"
  by (cases wt) (auto simp: c_wire_type_byte_width_def)

lemma write_fn_iff: "write_fn wt e \<noteq> None \<longleftrightarrow> cursor_read_fn wt e \<noteq> None"
  by (auto simp: write_fn_def cursor_read_fn_def)

end
