(* ===== verification/CParse.thy ===== *)
theory CParse
  imports CNames
begin

text \<open>
  The parse half of generated C code, \<open>crates/wirespec-backend-c/src/parse_emit.rs\<close>: a call of a reader
  with its error check per field, in the order of the items. The structure that is filled is named by the
  prefix \<open>sp\<close>, such as \<open>out->\<close>. Fields of a capsule's payload read from the cursor \<open>sub\<close>; what is not
  written for it by hand is the ordinary code with the cursor's name replaced in the text.
\<close>

section \<open>Text\<close>

definition contains_str :: "string \<Rightarrow> string \<Rightarrow> bool" where
  "contains_str pat s \<longleftrightarrow> list_ex (\<lambda>i. take (length pat) (drop i s) = pat) [0..<Suc (length s)]"

text \<open>\<open>s.replace(pat, rep)\<close> of a nonempty pattern; \<open>skip\<close> characters of a match are left to pass over.\<close>

fun replace_from :: "nat \<Rightarrow> string \<Rightarrow> string \<Rightarrow> string \<Rightarrow> string" where
  "replace_from skip pat rep [] = []"
| "replace_from (Suc k) pat rep (c # s) = replace_from k pat rep s"
| "replace_from 0 pat rep (c # s) =
     (if take (length pat) (c # s) = pat then rep @ replace_from (length pat - 1) pat rep s
      else c # replace_from 0 pat rep s)"

definition replace_str :: "string \<Rightarrow> string \<Rightarrow> string \<Rightarrow> string" where
  "replace_str pat rep s = replace_from 0 pat rep s"

section \<open>Calls\<close>

definition ret_check :: "string \<Rightarrow> string" where
  "ret_check indent = (indent @ ''if (r != WIRESPEC_OK) return r;'' @ nl)"

text \<open>A call of a reader \<open>f\<close> on cursor \<open>cur\<close> that stores to \<open>lval\<close>, with its check.\<close>

definition read_call :: "string \<Rightarrow> string \<Rightarrow> string \<Rightarrow> string \<Rightarrow> string" where
  "read_call indent f cur lval = (indent @ ''r = '' @ f @ ''('' @ cur @ '', &'' @ lval @ '');'' @ nl) @ ret_check indent"

definition parse_fn_of :: "string \<Rightarrow> string \<Rightarrow> string" where
  "parse_fn_of prefix name = c_func_name prefix name ''parse_cursor''"

definition emit_primitive_read :: "string \<Rightarrow> string \<Rightarrow> string \<Rightarrow> codec_field \<Rightarrow> string option" where
  "emit_primitive_read indent cur sp f =
     Option.bind (cursor_read_fn (cf_wire_type f) (cf_endianness f)) (\<lambda>read_fn.
       if needs_signed_cast (cf_wire_type f)
       then map_option (\<lambda>utype. (indent @ ''r = '' @ read_fn @ ''('' @ cur @ '', ('' @ utype @ '' *)&'' @ sp @ cf_name f @ '');'' @ nl) @
         ret_check indent)
              (unsigned_c_type (cf_wire_type f))
       else Some (read_call indent read_fn cur (sp @ cf_name f)))"

text \<open>A type with a parser of its own; without a name nothing is emitted.\<close>

definition emit_named_read :: "string \<Rightarrow> string \<Rightarrow> string \<Rightarrow> string \<Rightarrow> codec_field \<Rightarrow> string" where
  "emit_named_read prefix indent cur sp f =
     (case cf_ref_type_name f of
        Some ref_name \<Rightarrow> read_call indent (parse_fn_of prefix ref_name) cur (sp @ cf_name f)
      | None \<Rightarrow> [])"

definition emit_bytes_read :: "string \<Rightarrow> string \<Rightarrow> string \<Rightarrow> string \<Rightarrow> codec_field \<Rightarrow> string" where
  "emit_bytes_read indent cur sp amount f =
     (indent @ ''r = wirespec_cursor_read_bytes('' @ cur @ '', '' @ amount @ '', &'' @ sp @ cf_name f @ '');'' @ nl) @ ret_check indent"

text \<open>The rest of the input, taken from the members of the cursor.\<close>

definition emit_remaining_read :: "string \<Rightarrow> string \<Rightarrow> string \<Rightarrow> string \<Rightarrow> codec_field \<Rightarrow> string" where
  "emit_remaining_read indent cur access sp f =
     (indent @ sp @ cf_name f @ ''.ptr = '' @ access @ ''base + '' @ access @ ''pos;'' @ nl) @
     (indent @ sp @ cf_name f @ ''.len = wirespec_cursor_remaining('' @ cur @ '');'' @ nl) @
     (indent @ access @ ''pos = '' @ access @ ''len;'' @ nl)"

section \<open>Bit groups\<close>

definition c_member_parse :: "string \<Rightarrow> string \<Rightarrow> string \<Rightarrow> codec_field \<times> bitgroup_member \<Rightarrow> string" where
  "c_member_parse indent sp var_name fm =
     (case fm of (f, mbg) \<Rightarrow>
       let mask = show_hex (bitgroup_mask (bm_member_width_bits mbg));
           shift = dec (bm_member_offset_bits mbg);
           ctype = wire_type_to_c (cf_wire_type f) [];
           cast_type = (if contains_str ''int'' ctype then ctype else ''uint8_t'')
       in (indent @ ''    '' @ sp @ cf_name f @ '' = ('' @ cast_type @ '')(('' @ var_name @ '' >> '' @ shift @ '') & 0x'' @ mask @ '');'' @ nl))"

definition c_bitgroup_parse :: "codec_field list \<Rightarrow> string \<Rightarrow> string \<Rightarrow> bitgroup_member \<Rightarrow> string option" where
  "c_bitgroup_parse all_fields indent sp bg =
     (let group_id = bm_group_id bg; var_name = bitgroup_var group_id
      in map_option (\<lambda>read_fn.
           (indent @ ''{'' @ nl) @
           (indent @ ''    '' @ bitgroup_c_type (bm_total_bits bg) @ '' '' @ var_name @ '';'' @ nl) @
           read_call (indent @ ''    '') read_fn ''cur'' var_name @
           concat (map (c_member_parse indent sp var_name) (group_members_of all_fields group_id)) @
           (indent @ ''}'' @ nl))
         (bitgroup_read_fn (bm_total_bits bg) (bm_group_endianness bg)))"

section \<open>Arrays\<close>

text \<open>One element of an array, at the place \<open>lval\<close>; big-endian whatever the order of the field.\<close>

definition c_element_read :: "string \<Rightarrow> string \<Rightarrow> string \<Rightarrow> array_spec \<Rightarrow> string \<Rightarrow> string option" where
  "c_element_read prefix indent cur arr lval =
     (case ar_element_strategy arr of
        StPrimitive \<Rightarrow>
          map_option (\<lambda>read_fn. read_call indent read_fn cur lval) (cursor_read_fn (ar_element_wire_type arr) None)
      | st \<Rightarrow>
          if st \<in> {StStruct, StVarInt, StContVarInt}
          then Some (case ar_element_ref_type_name arr of
              Some ref_name \<Rightarrow> read_call indent (parse_fn_of prefix ref_name) cur lval
            | None \<Rightarrow> [])
          else None)"

definition c_array_parse :: "codec_field \<Rightarrow> array_spec \<Rightarrow> string \<Rightarrow> string \<Rightarrow> string \<Rightarrow> c_context \<Rightarrow> string option" where
  "c_array_parse f arr prefix indent sp ctx =
     (let lval = (sp @ cf_name f); max_elems = max_elems_of f
      in case ar_count_expr arr of
           Some count_expr \<Rightarrow>
             ocat [map_option (\<lambda>count_str. (indent @ lval @ ''_count = (uint32_t)'' @ count_str @ '';'' @ nl))
                     (expr_to_c prefix ctx count_expr),
                   Some (indent @ ''if ('' @ lval @ ''_count > '' @ max_elems @ '') return WIRESPEC_ERR_CAPACITY;'' @ nl),
                   Some (indent @ ''for (uint32_t _i = 0; _i < '' @ lval @ ''_count; _i++) {'' @ nl),
                   c_element_read prefix (indent @ ''    '') ''cur'' arr (lval @ ''[_i]''),
                   Some (indent @ ''}'' @ nl)]
         | None \<Rightarrow>
             let cur = (if ar_within_expr arr \<noteq> None then ''&_arr_sub'' else ''cur'')
             in ocat [case ar_within_expr arr of
                        Some within_expr \<Rightarrow>
                          map_option (\<lambda>within_c.
                              (indent @ ''{'' @ nl) @
                              (indent @ ''    wirespec_cursor_t _arr_sub;'' @ nl) @
                              (indent @ ''    r = wirespec_cursor_sub(cur, (size_t)'' @ within_c @ '', &_arr_sub);'' @ nl) @
                              ret_check (indent @ ''    ''))
                            (expr_to_c prefix ctx within_expr)
                      | None \<Rightarrow> Some [],
                      Some (indent @ ''    '' @ lval @ ''_count = 0;'' @ nl),
                      Some (indent @ ''    while (wirespec_cursor_remaining('' @ cur @ '') > 0) {'' @ nl),
                      Some (indent @ ''        if ('' @ lval @ ''_count >= '' @ max_elems @ '') return WIRESPEC_ERR_CAPACITY;'' @ nl),
                      c_element_read prefix (indent @ ''        '') cur arr (lval @ ''['' @ lval @ ''_count]''),
                      Some (indent @ ''        '' @ lval @ ''_count++;'' @ nl),
                      Some (indent @ ''    }'' @ nl),
                      Some (if ar_within_expr arr \<noteq> None then (indent @ ''}'' @ nl) else [])])"

section \<open>One field\<close>

text \<open>\<open>called\<close> says which types of an optional field are read by a parser of their own.\<close>

definition c_conditional_parse :: "(wire_type \<Rightarrow> bool) \<Rightarrow> string \<Rightarrow> string \<Rightarrow> string \<Rightarrow> string \<Rightarrow> c_context \<Rightarrow> codec_field
    \<Rightarrow> string option" where
  "c_conditional_parse called prefix indent cur sp ctx f =
     (case cf_condition f of
        None \<Rightarrow> Some []
      | Some cond \<Rightarrow>
          let inner_wt = (case cf_inner_wire_type f of Some wt \<Rightarrow> wt | None \<Rightarrow> cf_wire_type f);
              lval = (sp @ cf_name f); inner = (indent @ ''    '')
          in ocat [Some (indent @ sp @ ''has_'' @ cf_name f @ '' = false;'' @ nl),
                   map_option (\<lambda>cond_str. (indent @ ''if ('' @ cond_str @ '') {'' @ nl)) (expr_to_c prefix ctx cond),
                   (case cf_ref_type_name f of
                      Some ref_name \<Rightarrow>
                        if called inner_wt then Some (read_call inner (parse_fn_of prefix ref_name) cur lval)
                        else map_option (\<lambda>read_fn. read_call inner read_fn cur lval) (cursor_read_fn inner_wt (cf_endianness f))
                    | None \<Rightarrow>
                        map_option (\<lambda>read_fn. read_call inner read_fn cur lval) (cursor_read_fn inner_wt (cf_endianness f))),
                   Some (inner @ sp @ ''has_'' @ cf_name f @ '' = true;'' @ nl),
                   Some (indent @ ''}'' @ nl)])"

fun is_wstruct :: "wire_type \<Rightarrow> bool" where
  "is_wstruct (WStruct n) = True"
| "is_wstruct _ = False"

definition is_called :: "wire_type \<Rightarrow> bool" where
  "is_called wt \<longleftrightarrow> is_wstruct wt \<or> wt = WVarInt \<or> wt = WContVarInt"

definition c_lor_parse :: "string \<Rightarrow> string \<Rightarrow> string \<Rightarrow> c_context \<Rightarrow> codec_expr \<Rightarrow> codec_field \<Rightarrow> string option" where
  "c_lor_parse prefix indent sp ctx e f =
     (let length_name = extract_field_name (get_value_ref_id e); inner = (indent @ ''    '')
      in map_option (\<lambda>len_expr.
           (indent @ ''if ('' @ sp @ ''has_'' @ length_name @ '') {'' @ nl) @
           emit_bytes_read inner ''cur'' sp (''(size_t)'' @ len_expr) f @
           (indent @ ''} else {'' @ nl) @
           emit_remaining_read inner ''cur'' ''cur->'' sp f @
           (indent @ ''}'' @ nl)) (expr_to_c prefix ctx e))"

definition c_field_parse :: "codec_field \<Rightarrow> codec_field list \<Rightarrow> string \<Rightarrow> string \<Rightarrow> string \<Rightarrow> c_context \<Rightarrow> u32 list
    \<Rightarrow> (string \<times> u32 list) option" where
  "c_field_parse f all_fields prefix indent sp ctx emitted =
     (let keep = map_option (\<lambda>s. (s, emitted));
          named = emit_named_read prefix indent ''cur'' sp f
      in case cf_strategy f of
           StPrimitive \<Rightarrow> keep (emit_primitive_read indent ''cur'' sp f)
         | StChecksum \<Rightarrow> keep (emit_primitive_read indent ''cur'' sp f)
         | StBitGroup \<Rightarrow>
             (case cf_bitgroup_member f of
                Some bg \<Rightarrow>
                  if bm_group_id bg \<in> set emitted then keep (Some [])
                  else map_option (\<lambda>s. (s, emitted @ [bm_group_id bg])) (c_bitgroup_parse all_fields indent sp bg)
              | None \<Rightarrow> keep (Some []))
         | StBytesFixed \<Rightarrow>
             keep (Some (case cf_bytes_spec f of Some (BsFixed n) \<Rightarrow> emit_bytes_read indent ''cur'' sp (dec n) f | _ \<Rightarrow> []))
         | StBytesLength \<Rightarrow>
             (case cf_bytes_spec f of
                Some (BsLength e) \<Rightarrow>
                  keep (map_option (\<lambda>len_expr. emit_bytes_read indent ''cur'' sp (''(size_t)'' @ len_expr) f) (expr_to_c prefix ctx e))
              | _ \<Rightarrow> keep (Some []))
         | StBytesRemaining \<Rightarrow> keep (Some (emit_remaining_read indent ''cur'' ''cur->'' sp f))
         | StBytesLor \<Rightarrow>
             (case cf_bytes_spec f of
                Some (BsLengthOrRemaining e) \<Rightarrow> keep (c_lor_parse prefix indent sp ctx e f)
              | _ \<Rightarrow> keep (Some []))
         | StConditional \<Rightarrow> keep (c_conditional_parse is_called prefix indent ''cur'' sp ctx f)
         | StArray \<Rightarrow>
             (case cf_array_spec f of
                Some arr \<Rightarrow> keep (c_array_parse f arr prefix indent sp ctx)
              | None \<Rightarrow> keep (Some []))
         | StStruct \<Rightarrow> keep (Some named)
         | StVarInt \<Rightarrow> keep (Some named)
         | StContVarInt \<Rightarrow> keep (Some named))"

section \<open>A scope\<close>

definition c_derived_stmt :: "string \<Rightarrow> string \<Rightarrow> string \<Rightarrow> c_context \<Rightarrow> codec_derived_item \<Rightarrow> string option" where
  "c_derived_stmt prefix indent sp ctx d =
     map_option (\<lambda>expr_str. (indent @ sp @ cd_name d @ '' = '' @ expr_str @ '';'' @ nl)) (expr_to_c prefix ctx (cd_expr d))"

definition c_require_stmt :: "string \<Rightarrow> string \<Rightarrow> c_context \<Rightarrow> codec_require_item \<Rightarrow> string option" where
  "c_require_stmt prefix indent ctx r =
     map_option (\<lambda>expr_str. (indent @ ''if (!('' @ expr_str @ '')) return WIRESPEC_ERR_CONSTRAINT;'' @
       nl)) (expr_to_c prefix ctx (cr_expr r))"

fun c_items_loop :: "codec_field list \<Rightarrow> string \<Rightarrow> string \<Rightarrow> string \<Rightarrow> c_context \<Rightarrow> u32 list \<Rightarrow> codec_item list \<Rightarrow> string option" where
  "c_items_loop flds prefix indent sp ctx emitted [] = Some []"
| "c_items_loop flds prefix indent sp ctx emitted (CiField field_id # items) =
     (case find_field flds field_id of
        Some f \<Rightarrow>
          Option.bind (c_field_parse f flds prefix indent sp ctx emitted) (\<lambda>(s, emitted).
            ocat [Some s, c_items_loop flds prefix indent sp ctx emitted items])
      | None \<Rightarrow> c_items_loop flds prefix indent sp ctx emitted items)"
| "c_items_loop flds prefix indent sp ctx emitted (CiDerived d # items) =
     ocat [c_derived_stmt prefix indent sp ctx d, c_items_loop flds prefix indent sp ctx emitted items]"
| "c_items_loop flds prefix indent sp ctx emitted (CiRequire r # items) =
     ocat [c_require_stmt prefix indent ctx r, c_items_loop flds prefix indent sp ctx emitted items]"

definition c_parse_items_with_ctx :: "codec_field list \<Rightarrow> codec_item list \<Rightarrow> string \<Rightarrow> string \<Rightarrow> string \<Rightarrow> c_context
    \<Rightarrow> string option" where
  "c_parse_items_with_ctx flds items prefix indent sp ctx = c_items_loop flds prefix indent sp ctx [] items"

definition c_parse_items :: "codec_field list \<Rightarrow> codec_item list \<Rightarrow> string \<Rightarrow> string \<Rightarrow> string \<Rightarrow> string option" where
  "c_parse_items flds items prefix indent sp = c_parse_items_with_ctx flds items prefix indent sp CParse"

section \<open>Dispatch on a tag\<close>

text \<open>A variant of more than 4096 values has no labels: it is a guarded block of the \<open>default\<close> case.\<close>

fun is_large_range :: "variant_pattern \<Rightarrow> bool" where
  "is_large_range (VpRangeInclusive s e) = (e - s + 1 > 4096)"
| "is_large_range _ = False"

fun case_labels :: "string \<Rightarrow> variant_pattern \<Rightarrow> string" where
  "case_labels indent (VpExact v) = (indent @ ''    case '' @ show_int v @ '':'' @ nl)"
| "case_labels indent (VpRangeInclusive s e) = concat (map (\<lambda>v. (indent @ ''    case '' @ show_int v @ '':'' @ nl)) [s..e])"
| "case_labels indent VpWildcard = []"

definition wildcard_variant :: "codec_variant_scope list \<Rightarrow> codec_variant_scope option" where
  "wildcard_variant vs = List.find (\<lambda>v. cvs_pattern v = VpWildcard) (rev vs)"

fun deferred_guard :: "string \<Rightarrow> string \<Rightarrow> variant_pattern \<Rightarrow> string" where
  "deferred_guard indent tag (VpRangeInclusive s e) = (indent @ ''if ('' @ tag @ '' >= '' @ show_int s @ '' && '' @ tag @ '' <= '' @ show_int e @
    '') {'' @ nl)"
| "deferred_guard indent tag _ = []"

definition c_switch :: "string \<Rightarrow> string \<Rightarrow> codec_variant_scope list \<Rightarrow> (string \<Rightarrow> codec_variant_scope \<Rightarrow> string option)
    \<Rightarrow> string option" where
  "c_switch indent tag vs body =
     (let listed = filter (\<lambda>v. cvs_pattern v \<noteq> VpWildcard) vs;
          def_indent = (indent @ ''        '')
      in ocat
          [Some (indent @ ''switch ('' @ tag @ '') {'' @ nl),
           omap_cat (\<lambda>v. if is_large_range (cvs_pattern v) then map_option (\<lambda>s. []) (body def_indent v)
               else ocat [Some (case_labels indent (cvs_pattern v)), body def_indent v]) listed,
           Some (indent @ ''    default:'' @ nl),
           omap_cat (\<lambda>v. if is_large_range (cvs_pattern v)
               then ocat [Some (deferred_guard def_indent tag (cvs_pattern v)), body def_indent v, Some (def_indent @ ''}'' @ nl)]
               else Some []) listed,
           (case wildcard_variant vs of
              Some wv \<Rightarrow> body def_indent wv
            | None \<Rightarrow> Some (def_indent @ ''return WIRESPEC_ERR_INVALID_TAG;'' @ nl)),
           Some (indent @ ''}'' @ nl)])"

section \<open>Frames\<close>

definition c_variant_prefix :: "string \<Rightarrow> codec_variant_scope \<Rightarrow> string" where
  "c_variant_prefix sp v = (sp @ ''value.'' @ to_snake_case (cvs_name v) @ ''.'')"

definition c_variant_case_body :: "codec_frame \<Rightarrow> string \<Rightarrow> string \<Rightarrow> string \<Rightarrow> codec_variant_scope \<Rightarrow> string option" where
  "c_variant_case_body frame prefix sp indent v =
     (let variant_prefix = c_variant_prefix sp v;
          ctx = CVariantParse variant_prefix [tg_field_name (cfr_tag frame)]
      in ocat
          [Some (indent @ sp @ ''tag = '' @ c_frame_tag_value prefix (cfr_name frame) (cvs_name v) @ '';'' @ nl),
           c_parse_items_with_ctx (cvs_fields v) (cvs_items v) prefix indent variant_prefix ctx,
           Some (indent @ ''break;'' @ nl)])"

definition c_tag_read :: "codec_frame \<Rightarrow> string \<Rightarrow> string \<Rightarrow> string option" where
  "c_tag_read frame prefix indent =
     (let tag = cfr_tag frame
      in if tg_wire_type tag = WVarInt \<or> tg_wire_type tag = WContVarInt
         then Some ((indent @ ''uint64_t _tag_val;'' @ nl) @
           (case tg_ref_type_name tag of
              Some ref_name \<Rightarrow> read_call indent (parse_fn_of prefix ref_name) ''cur'' ''_tag_val''
            | None \<Rightarrow> (indent @ ''r = wirespec_cursor_read_u8(cur, (uint8_t *)&_tag_val);'' @ nl) @ ret_check indent))
         else map_option (\<lambda>read_fn.
             (indent @ wire_type_to_c (tg_wire_type tag) prefix @ '' _tag_val;'' @ nl) @ read_call indent read_fn ''cur'' ''_tag_val'')
           (cursor_read_fn (tg_wire_type tag) (tg_endianness tag)))"

definition c_frame_parse_body :: "codec_frame \<Rightarrow> string \<Rightarrow> string \<Rightarrow> string option" where
  "c_frame_parse_body frame prefix indent =
     ocat [c_tag_read frame prefix indent,
           Some (indent @ ''out->frame_type = _tag_val;'' @ nl),
           c_switch indent ''_tag_val'' (cfr_variants frame) (c_variant_case_body frame prefix ''out->'')]"

section \<open>Capsules\<close>

definition c_capsule_field_parse :: "codec_field \<Rightarrow> codec_field list \<Rightarrow> string \<Rightarrow> string \<Rightarrow> string \<Rightarrow> c_context \<Rightarrow> string option" where
  "c_capsule_field_parse f all_fields prefix indent sp ctx =
     (let cur = ''&sub'';
          renamed = map_option (\<lambda>(s, emitted). replace_str ''cur->'' ''sub.'' (replace_str ''(cur, '' ''(&sub, '' s))
            (c_field_parse f all_fields prefix indent sp ctx [])
      in case cf_strategy f of
           StPrimitive \<Rightarrow> emit_primitive_read indent cur sp f
         | StChecksum \<Rightarrow> emit_primitive_read indent cur sp f
         | StStruct \<Rightarrow> Some (emit_named_read prefix indent cur sp f)
         | StVarInt \<Rightarrow> Some (emit_named_read prefix indent cur sp f)
         | StContVarInt \<Rightarrow> Some (emit_named_read prefix indent cur sp f)
         | StConditional \<Rightarrow> c_conditional_parse is_wstruct prefix indent cur sp ctx f
         | StBytesRemaining \<Rightarrow> Some (emit_remaining_read indent cur ''sub.'' sp f)
         | StBytesFixed \<Rightarrow>
             Some (case cf_bytes_spec f of Some (BsFixed n) \<Rightarrow> emit_bytes_read indent cur sp (dec n) f | _ \<Rightarrow> [])
         | StBytesLength \<Rightarrow>
             (case cf_bytes_spec f of
                Some (BsLength e) \<Rightarrow>
                  map_option (\<lambda>len_expr. emit_bytes_read indent cur sp (''(size_t)'' @ len_expr) f) (expr_to_c prefix ctx e)
              | _ \<Rightarrow> Some [])
         | _ \<Rightarrow> renamed)"

fun c_capsule_item :: "codec_field list \<Rightarrow> string \<Rightarrow> string \<Rightarrow> string \<Rightarrow> c_context \<Rightarrow> codec_item \<Rightarrow> string option" where
  "c_capsule_item flds prefix indent sp ctx (CiField field_id) =
     (case find_field flds field_id of
        Some f \<Rightarrow> c_capsule_field_parse f flds prefix indent sp ctx
      | None \<Rightarrow> Some [])"
| "c_capsule_item flds prefix indent sp ctx (CiDerived d) = c_derived_stmt prefix indent sp ctx d"
| "c_capsule_item flds prefix indent sp ctx (CiRequire r) = c_require_stmt prefix indent ctx r"

definition c_capsule_case_body :: "codec_capsule \<Rightarrow> string \<Rightarrow> string \<Rightarrow> string \<Rightarrow> codec_variant_scope \<Rightarrow> string option" where
  "c_capsule_case_body capsule prefix sp indent v =
     (let variant_prefix = c_variant_prefix sp v;
          ctx = CVariantParse variant_prefix (map cf_name (cca_header_fields capsule))
      in ocat
          [Some (indent @ sp @ ''tag = '' @ c_frame_tag_value prefix (cca_name capsule) (cvs_name v) @ '';'' @ nl),
           omap_cat (c_capsule_item (cvs_fields v) prefix indent variant_prefix ctx) (cvs_items v),
           Some (indent @ ''break;'' @ nl)])"

definition c_capsule_parse_body :: "codec_capsule \<Rightarrow> string \<Rightarrow> string \<Rightarrow> string option" where
  "c_capsule_parse_body capsule prefix indent =
     (let tag_switch_expr = (case cca_tag_expr capsule of
              Some e \<Rightarrow> expr_to_c prefix CParse e
            | None \<Rightarrow> Some (''out->'' @ tg_field_name (cca_tag capsule)))
      in ocat
          [c_parse_items (cca_header_fields capsule) (cca_header_items capsule) prefix indent ''out->'',
           Some (indent @ ''wirespec_cursor_t sub;'' @ nl),
           Some (indent @ ''r = wirespec_cursor_sub(cur, (size_t)(out->'' @ cca_within_field capsule @ ''), &sub);'' @ nl),
           Some (ret_check indent),
           Option.bind tag_switch_expr (\<lambda>tag.
             c_switch indent tag (cca_variants capsule) (c_capsule_case_body capsule prefix ''out->'')),
           Some (indent @ ''if (wirespec_cursor_remaining(&sub) != 0) return WIRESPEC_ERR_TRAILING_DATA;'' @ nl)])"

end
