(* ===== verification/CSer.thy ===== *)
theory CSer
  imports CParse
begin

text \<open>
  The serialize half of generated C code, \<open>crates/wirespec-backend-c/src/serialize_emit.rs\<close>: a call of a
  writer with its error check per field, and the sum of the lengths. The code has two copies of the field
  writer, one for the members of \<open>val\<close> and one for the members of a variant; they print the same text up to
  the prefix of the member, so the first is the second with the prefix \<open>val->\<close>.
\<close>

section \<open>Calls\<close>

text \<open>A writer of the run-time library.\<close>

definition write_call :: "string \<Rightarrow> string \<Rightarrow> string \<Rightarrow> string" where
  "write_call indent f v = (indent @ ''r = '' @ f @ ''(buf, cap, &pos, '' @ v @ '');'' @ nl) @ ret_check indent"

text \<open>The serializer of another type, which gets the rest of the buffer and reports what it has written.\<close>

definition serialize_call :: "string \<Rightarrow> string \<Rightarrow> string \<Rightarrow> string" where
  "serialize_call indent f v =
     (indent @ ''{'' @ nl) @
     (indent @ ''    size_t _written = 0;'' @ nl) @
     (indent @ ''    r = '' @ f @ ''('' @ v @ '', buf + pos, cap - pos, &_written);'' @ nl) @
     ret_check (indent @ ''    '') @
     (indent @ ''    pos += _written;'' @ nl) @
     (indent @ ''}'' @ nl)"

definition serialize_fn_of :: "string \<Rightarrow> string \<Rightarrow> string" where
  "serialize_fn_of prefix name = c_func_name prefix name ''serialize''"

text \<open>Structures are passed by address, integers by value.\<close>

definition emit_primitive_write :: "string \<Rightarrow> wire_type \<Rightarrow> endianness option \<Rightarrow> string \<Rightarrow> string option" where
  "emit_primitive_write indent wt e v =
     Option.bind (write_fn wt e) (\<lambda>f.
       if needs_signed_cast wt then map_option (\<lambda>utype. write_call indent f (''('' @ utype @ '')'' @ v)) (unsigned_c_type wt)
       else Some (write_call indent f v))"

definition emit_named_write :: "string \<Rightarrow> string \<Rightarrow> string \<Rightarrow> string option \<Rightarrow> string \<Rightarrow> string" where
  "emit_named_write prefix indent amp ref_type_name v =
     (case ref_type_name of
        Some ref_name \<Rightarrow> serialize_call indent (serialize_fn_of prefix ref_name) (amp @ v)
      | None \<Rightarrow> [])"

section \<open>Bit groups and arrays\<close>

definition c_member_serialize :: "string \<Rightarrow> string \<Rightarrow> string \<Rightarrow> string \<Rightarrow> codec_field \<times> bitgroup_member \<Rightarrow> string" where
  "c_member_serialize indent vp container_type var_name fm =
     (case fm of (f, mbg) \<Rightarrow>
       let mask = show_hex (bitgroup_mask (bm_member_width_bits mbg)); shift = dec (bm_member_offset_bits mbg)
       in (indent @ ''    '' @ var_name @ '' |= (('' @ container_type @ '')('' @ vp @ cf_name f @ '' & 0x'' @ mask @ '')) << '' @ shift @ '';'' @
         nl))"

definition c_bitgroup_serialize :: "codec_field list \<Rightarrow> string \<Rightarrow> string \<Rightarrow> bitgroup_member \<Rightarrow> string option" where
  "c_bitgroup_serialize all_fields indent vp bg =
     (let group_id = bm_group_id bg; var_name = bitgroup_var group_id;
          container_type = bitgroup_c_type (bm_total_bits bg)
      in map_option (\<lambda>f.
           (indent @ ''{'' @ nl) @
           (indent @ ''    '' @ container_type @ '' '' @ var_name @ '' = 0;'' @ nl) @
           concat (map (c_member_serialize indent vp container_type var_name) (group_members_of all_fields group_id)) @
           write_call (indent @ ''    '') f var_name @
           (indent @ ''}'' @ nl))
         (bitgroup_write_fn (bm_total_bits bg) (bm_group_endianness bg)))"

definition c_array_serialize :: "codec_field \<Rightarrow> array_spec \<Rightarrow> string \<Rightarrow> string \<Rightarrow> string \<Rightarrow> string option" where
  "c_array_serialize f arr prefix indent vp =
     (let elem = (vp @ cf_name f @ ''[_i]''); inner = (indent @ ''    '')
      in ocat
          [Some (indent @ ''for (uint32_t _i = 0; _i < '' @ vp @ cf_name f @ ''_count; _i++) {'' @ nl),
           (case ar_element_strategy arr of
              StPrimitive \<Rightarrow> map_option (\<lambda>w. write_call inner w elem) (write_fn (ar_element_wire_type arr) None)
            | StStruct \<Rightarrow> Some (emit_named_write prefix inner ''&'' (ar_element_ref_type_name arr) elem)
            | StVarInt \<Rightarrow> Some (emit_named_write prefix inner [] (ar_element_ref_type_name arr) elem)
            | StContVarInt \<Rightarrow> Some (emit_named_write prefix inner [] (ar_element_ref_type_name arr) elem)
            | _ \<Rightarrow> None),
           Some (indent @ ''}'' @ nl)])"

section \<open>One field\<close>

definition c_conditional_serialize :: "codec_field \<Rightarrow> string \<Rightarrow> string \<Rightarrow> string \<Rightarrow> string option" where
  "c_conditional_serialize f prefix indent vp =
     (let inner_wt = (case cf_inner_wire_type f of Some wt \<Rightarrow> wt | None \<Rightarrow> cf_wire_type f);
          inner = (indent @ ''    ''); v = (vp @ cf_name f)
      in ocat
          [Some (indent @ ''if ('' @ vp @ ''has_'' @ cf_name f @ '') {'' @ nl),
           (if cf_ref_type_name f \<noteq> None \<and> is_called inner_wt
            then Some (emit_named_write prefix inner (if is_wstruct inner_wt then ''&'' else []) (cf_ref_type_name f) v)
            else map_option (\<lambda>w. write_call inner w v) (write_fn inner_wt (cf_endianness f))),
           Some (indent @ ''}'' @ nl)])"

definition c_variant_field_serialize :: "codec_field \<Rightarrow> codec_field list \<Rightarrow> string \<Rightarrow> string \<Rightarrow> string \<Rightarrow> u32 list
    \<Rightarrow> (string \<times> u32 list) option" where
  "c_variant_field_serialize f all_fields prefix indent vp emitted =
     (let keep = map_option (\<lambda>s. (s, emitted));
          v = (vp @ cf_name f);
          by_value = Some (emit_named_write prefix indent [] (cf_ref_type_name f) v);
          bytes = Some ((indent @ ''r = wirespec_write_bytes(buf, cap, &pos, '' @ v @ ''.ptr, '' @ v @ ''.len);'' @ nl) @ ret_check indent)
      in case cf_strategy f of
           StPrimitive \<Rightarrow> keep (emit_primitive_write indent (cf_wire_type f) (cf_endianness f) v)
         | StChecksum \<Rightarrow> keep (emit_primitive_write indent (cf_wire_type f) (cf_endianness f) v)
         | StBitGroup \<Rightarrow>
             (case cf_bitgroup_member f of
                Some bg \<Rightarrow>
                  if bm_group_id bg \<in> set emitted then keep (Some [])
                  else map_option (\<lambda>s. (s, emitted @ [bm_group_id bg])) (c_bitgroup_serialize all_fields indent vp bg)
              | None \<Rightarrow> keep (Some []))
         | StBytesFixed \<Rightarrow> keep bytes
         | StBytesLength \<Rightarrow> keep bytes
         | StBytesRemaining \<Rightarrow> keep bytes
         | StBytesLor \<Rightarrow> keep bytes
         | StConditional \<Rightarrow> keep (c_conditional_serialize f prefix indent vp)
         | StArray \<Rightarrow>
             keep (case cf_array_spec f of Some arr \<Rightarrow> c_array_serialize f arr prefix indent vp | None \<Rightarrow> Some [])
         | StStruct \<Rightarrow> keep (Some (emit_named_write prefix indent ''&'' (cf_ref_type_name f) v))
         | StVarInt \<Rightarrow> keep by_value
         | StContVarInt \<Rightarrow> keep by_value)"

definition c_field_serialize :: "codec_field \<Rightarrow> codec_field list \<Rightarrow> string \<Rightarrow> string \<Rightarrow> u32 list \<Rightarrow> (string \<times> u32 list) option" where
  "c_field_serialize f all_fields prefix indent emitted = c_variant_field_serialize f all_fields prefix indent ''val->'' emitted"

section \<open>A scope\<close>

text \<open>The writers of the fields in the order of the items; derived values and requirements write nothing.\<close>

fun c_scope_loop :: "(codec_field \<Rightarrow> u32 list \<Rightarrow> (string \<times> u32 list) option) \<Rightarrow> codec_field list \<Rightarrow> u32 list \<Rightarrow> codec_item list
    \<Rightarrow> string option" where
  "c_scope_loop emit flds emitted [] = Some []"
| "c_scope_loop emit flds emitted (CiField field_id # items) =
     (case find_field flds field_id of
        Some f \<Rightarrow>
          Option.bind (emit f emitted) (\<lambda>(s, emitted). ocat [Some s, c_scope_loop emit flds emitted items])
      | None \<Rightarrow> c_scope_loop emit flds emitted items)"
| "c_scope_loop emit flds emitted (CiDerived d # items) = c_scope_loop emit flds emitted items"
| "c_scope_loop emit flds emitted (CiRequire r # items) = c_scope_loop emit flds emitted items"

definition c_serialize_items :: "codec_field list \<Rightarrow> codec_item list \<Rightarrow> string \<Rightarrow> string \<Rightarrow> string option" where
  "c_serialize_items flds items prefix indent =
     c_scope_loop (\<lambda>f. c_field_serialize f flds prefix indent) flds [] items"

definition c_variant_serialize_items :: "codec_field list \<Rightarrow> codec_item list \<Rightarrow> string \<Rightarrow> string \<Rightarrow> string \<Rightarrow> string option" where
  "c_variant_serialize_items flds items prefix indent vp =
     c_scope_loop (\<lambda>f. c_variant_field_serialize f flds prefix indent vp) flds [] items"

section \<open>Frames\<close>

definition c_tag_write :: "codec_frame \<Rightarrow> string \<Rightarrow> string \<Rightarrow> string option" where
  "c_tag_write frame prefix indent =
     (let tag = cfr_tag frame
      in if tg_wire_type tag = WVarInt \<or> tg_wire_type tag = WContVarInt
         then let ref_name = (case tg_ref_type_name tag of Some n \<Rightarrow> n | None \<Rightarrow> tg_field_name tag)
           in Some ((indent @ ''{'' @ nl) @
               (indent @ ''    size_t _written;'' @ nl) @
               (indent @ ''    r = '' @ serialize_fn_of prefix ref_name @ ''(val->frame_type, buf + pos, cap - pos, &_written);'' @ nl) @
               ret_check (indent @ ''    '') @
               (indent @ ''    pos += _written;'' @ nl) @
               (indent @ ''}'' @ nl))
         else emit_primitive_write indent (tg_wire_type tag) (tg_endianness tag) ''val->frame_type'')"

definition c_variant_arm :: "codec_frame \<Rightarrow> string \<Rightarrow> string \<Rightarrow> codec_variant_scope \<Rightarrow> string option" where
  "c_variant_arm frame prefix indent v =
     (let inner_indent = (indent @ ''        '')
      in ocat
          [Some (indent @ ''    case '' @ c_frame_tag_value prefix (cfr_name frame) (cvs_name v) @ '': {'' @ nl),
           c_variant_serialize_items (cvs_fields v) (cvs_items v) prefix inner_indent (c_variant_prefix ''val->'' v),
           Some (inner_indent @ ''break;'' @ nl),
           Some (indent @ ''    }'' @ nl)])"

definition c_frame_serialize_body :: "codec_frame \<Rightarrow> string \<Rightarrow> string \<Rightarrow> string option" where
  "c_frame_serialize_body frame prefix indent =
     ocat [c_tag_write frame prefix indent,
           Some (indent @ ''switch (val->tag) {'' @ nl),
           omap_cat (c_variant_arm frame prefix indent) (cfr_variants frame),
           Some (indent @ ''    default: break;'' @ nl),
           Some (indent @ ''}'' @ nl)]"

section \<open>Serialized length\<close>

definition c_conditional_len :: "codec_field \<Rightarrow> string \<Rightarrow> string \<Rightarrow> string \<Rightarrow> string" where
  "c_conditional_len f prefix indent vp =
     (let inner_wt = (case cf_inner_wire_type f of Some wt \<Rightarrow> wt | None \<Rightarrow> cf_wire_type f); v = (vp @ cf_name f)
      in case c_wire_type_byte_width inner_wt of
           Some w \<Rightarrow> (indent @ ''if ('' @ vp @ ''has_'' @ cf_name f @ '') len += '' @ show_nat w @ '';'' @ nl)
         | None \<Rightarrow>
             (case cf_ref_type_name f of
                Some ref_name \<Rightarrow>
                  if is_wstruct inner_wt
                  then (indent @ ''if ('' @ vp @ ''has_'' @ cf_name f @ '') len += '' @ c_func_name prefix ref_name ''serialized_len'' @ ''(&'' @ v @
                    '');'' @ nl)
                  else if is_called inner_wt
                  then (indent @ ''if ('' @ vp @ ''has_'' @ cf_name f @ '') len += '' @ c_func_name prefix ref_name ''wire_size'' @ ''('' @ v @
                    '');'' @ nl)
                  else []
              | None \<Rightarrow> []))"

definition c_array_len :: "codec_field \<Rightarrow> array_spec \<Rightarrow> string \<Rightarrow> string \<Rightarrow> string \<Rightarrow> string" where
  "c_array_len f arr prefix indent vp =
     (case c_wire_type_byte_width (ar_element_wire_type arr) of
        Some w \<Rightarrow> (indent @ ''len += '' @ vp @ cf_name f @ ''_count * '' @ show_nat w @ '';'' @ nl)
      | None \<Rightarrow>
          (case ar_element_ref_type_name arr of
             Some ref_name \<Rightarrow>
               (indent @ ''for (uint32_t _i = 0; _i < '' @ vp @ cf_name f @ ''_count; _i++) {'' @ nl) @
               (indent @ ''    len += '' @ c_func_name prefix ref_name ''serialized_len'' @ ''(&'' @ vp @ cf_name f @ ''[_i]);'' @ nl) @
               (indent @ ''}'' @ nl)
           | None \<Rightarrow> []))"

definition c_field_serialized_len :: "codec_field \<Rightarrow> string \<Rightarrow> string \<Rightarrow> string \<Rightarrow> u32 list \<Rightarrow> string \<times> u32 list" where
  "c_field_serialized_len f prefix indent vp emitted =
     (let v = (vp @ cf_name f);
          primitive = (case c_wire_type_byte_width (cf_wire_type f) of
              Some w \<Rightarrow> (indent @ ''len += '' @ show_nat w @ '';'' @ nl) | None \<Rightarrow> []);
          bytes = (indent @ ''len += '' @ v @ ''.len;'' @ nl);
          varint = (case cf_ref_type_name f of
              Some ref_name \<Rightarrow> (indent @ ''len += '' @ c_func_name prefix ref_name ''wire_size'' @ ''('' @ v @ '');'' @
                nl) | None \<Rightarrow> [])
      in case cf_strategy f of
           StPrimitive \<Rightarrow> (primitive, emitted)
         | StChecksum \<Rightarrow> (primitive, emitted)
         | StBitGroup \<Rightarrow>
             (case cf_bitgroup_member f of
                Some bg \<Rightarrow>
                  if bm_group_id bg \<in> set emitted then ([], emitted)
                  else ((indent @ ''len += '' @ show_nat (div_ceil8 (bm_total_bits bg)) @ '';'' @ nl), emitted @ [bm_group_id bg])
              | None \<Rightarrow> ([], emitted))
         | StBytesFixed \<Rightarrow>
             (case cf_bytes_spec f of Some (BsFixed n) \<Rightarrow> (indent @ ''len += '' @ dec n @ '';'' @ nl) | _ \<Rightarrow> [], emitted)
         | StBytesLength \<Rightarrow> (bytes, emitted)
         | StBytesRemaining \<Rightarrow> (bytes, emitted)
         | StBytesLor \<Rightarrow> (bytes, emitted)
         | StConditional \<Rightarrow> (c_conditional_len f prefix indent vp, emitted)
         | StArray \<Rightarrow> (case cf_array_spec f of Some arr \<Rightarrow> c_array_len f arr prefix indent vp | None \<Rightarrow> [], emitted)
         | StStruct \<Rightarrow>
             (case cf_ref_type_name f of
                Some ref_name \<Rightarrow> (indent @ ''len += '' @ c_func_name prefix ref_name ''serialized_len'' @ ''(&'' @ v @ '');'' @ nl)
              | None \<Rightarrow> [], emitted)
         | StVarInt \<Rightarrow> (varint, emitted)
         | StContVarInt \<Rightarrow> (varint, emitted))"

fun c_len_loop :: "codec_field list \<Rightarrow> string \<Rightarrow> string \<Rightarrow> string \<Rightarrow> u32 list \<Rightarrow> codec_item list \<Rightarrow> string" where
  "c_len_loop flds prefix indent vp emitted [] = []"
| "c_len_loop flds prefix indent vp emitted (CiField field_id # items) =
     (case find_field flds field_id of
        Some f \<Rightarrow>
          (case c_field_serialized_len f prefix indent vp emitted of
             (s, emitted) \<Rightarrow> s @ c_len_loop flds prefix indent vp emitted items)
      | None \<Rightarrow> c_len_loop flds prefix indent vp emitted items)"
| "c_len_loop flds prefix indent vp emitted (CiDerived d # items) = c_len_loop flds prefix indent vp emitted items"
| "c_len_loop flds prefix indent vp emitted (CiRequire r # items) = c_len_loop flds prefix indent vp emitted items"

definition c_serialized_len_items :: "codec_field list \<Rightarrow> codec_item list \<Rightarrow> string \<Rightarrow> string \<Rightarrow> string \<Rightarrow> string" where
  "c_serialized_len_items flds items prefix indent vp = c_len_loop flds prefix indent vp [] items"

end
