(* ===== verification/CHeader.thy ===== *)
theory CHeader
  imports CSer Delegation
begin

text \<open>
  The header of a generated C module, \<open>crates/wirespec-backend-c/src/header.rs\<close>: constants, enums,
  structures in the order of their dependencies, state machines, and the declarations of the functions.
\<close>

section \<open>Types\<close>

type_synonym import_prefixes = "string \<Rightarrow> string option"

text \<open>A later import of the same name replaces an earlier one.\<close>

definition build_import_prefix_map :: "codec_module \<Rightarrow> import_prefixes" where
  "build_import_prefix_map m = map_of (rev (map (\<lambda>imp. (ir_name imp, ir_source_prefix imp)) (cm_imports m)))"

fun primitive_to_c :: "primitive_wire_type \<Rightarrow> string" where
  "primitive_to_c U8 = ''uint8_t''"
| "primitive_to_c U16 = ''uint16_t''"
| "primitive_to_c U24 = ''uint32_t''"
| "primitive_to_c U32 = ''uint32_t''"
| "primitive_to_c U64 = ''uint64_t''"
| "primitive_to_c I8 = ''int8_t''"
| "primitive_to_c I16 = ''int16_t''"
| "primitive_to_c I32 = ''int32_t''"
| "primitive_to_c I64 = ''int64_t''"
| "primitive_to_c Bool = ''bool''"
| "primitive_to_c Bit = ''uint8_t''"

definition imported_type_name :: "string \<Rightarrow> import_prefixes \<Rightarrow> string \<Rightarrow> string" where
  "imported_type_name prefix ips name =
     c_type_name (case ips name of Some p \<Rightarrow> p | None \<Rightarrow> prefix) name"

fun semantic_type_to_c_imp :: "semantic_type \<Rightarrow> string \<Rightarrow> import_prefixes \<Rightarrow> string" where
  "semantic_type_to_c_imp (Primitive w e) prefix ips = primitive_to_c w"
| "semantic_type_to_c_imp (Bits n) prefix ips = c_bits_type (unat n)"
| "semantic_type_to_c_imp (VarIntRef i name) prefix ips =
     (if prefix = [] then ''uint64_t'' else imported_type_name prefix ips name)"
| "semantic_type_to_c_imp (PacketRef i name) prefix ips =
     (if prefix = [] then ''uint32_t'' else imported_type_name prefix ips name)"
| "semantic_type_to_c_imp (EnumRef i name f) prefix ips =
     (if prefix = [] then ''uint32_t'' else imported_type_name prefix ips name)"
| "semantic_type_to_c_imp (FrameRef i name) prefix ips =
     (if prefix = [] then ''uint32_t'' else imported_type_name prefix ips name)"
| "semantic_type_to_c_imp (CapsuleRef i name) prefix ips =
     (if prefix = [] then ''uint32_t'' else imported_type_name prefix ips name)"
| "semantic_type_to_c_imp (Bytes k n e) prefix ips = ''wirespec_bytes_t''"
| "semantic_type_to_c_imp (Array t c w) prefix ips = semantic_type_to_c_imp t prefix ips"

definition semantic_type_to_c :: "semantic_type \<Rightarrow> string" where
  "semantic_type_to_c ty = semantic_type_to_c_imp ty [] (\<lambda>n. None)"

fun semantic_literal_to_c :: "semantic_literal \<Rightarrow> string" where
  "semantic_literal_to_c (SLInt v) = show_int v"
| "semantic_literal_to_c (SLBool b) = (if b then ''1'' else ''0'')"
| "semantic_literal_to_c (SLString s) = (quo @ s @ quo)"
| "semantic_literal_to_c SLNull = ''0''"

section \<open>Constants, enums and imports\<close>

fun import_lines :: "string set \<Rightarrow> imported_type_ref list \<Rightarrow> string" where
  "import_lines seen [] = []"
| "import_lines seen (imp # imps) =
     (let p = ir_source_prefix imp
      in (if p \<in> seen then [] else (''#include '' @ quo @ p @ ''.h'' @ quo @ nl)) @ import_lines (insert p seen) imps)"

definition emit_import_includes :: "codec_module \<Rightarrow> string" where
  "emit_import_includes m = import_lines {} (cm_imports m)"

definition const_define :: "string \<Rightarrow> semantic_const \<Rightarrow> string" where
  "const_define prefix c =
     (''#define '' @ to_uppercase prefix @ ''_'' @ to_uppercase (to_snake_case (sc_name c)) @ '' (('' @ semantic_type_to_c (sc_ty c) @ '')'' @
       semantic_literal_to_c (sc_value c) @ '')'' @ nl)"

definition emit_const_defines :: "codec_module \<Rightarrow> string \<Rightarrow> string" where
  "emit_const_defines m prefix =
     concat (map (const_define prefix) (cm_consts m)) @ (if cm_consts m \<noteq> [] then nl else [])"

definition c_emit_enum :: "string \<Rightarrow> semantic_enum \<Rightarrow> string" where
  "c_emit_enum prefix e =
     (let tname = c_type_name prefix (se_name e)
      in (''typedef '' @ semantic_type_to_c (se_underlying_type e) @ '' '' @ tname @ '';'' @ nl) @
         concat (map (\<lambda>mb. (''#define '' @ c_enum_member prefix (se_name e) (sm_member_name mb) @ '' (('' @ tname @ '')'' @
           show_int (sm_member_value mb) @ '')'' @ nl))
           (se_members e)) @ nl)"

definition emit_varint_header :: "codec_module \<Rightarrow> string \<Rightarrow> string" where
  "emit_varint_header m prefix =
     concat (map (\<lambda>vi. (''typedef uint64_t '' @ prefix @ ''_'' @ to_snake_case (vi_name vi) @ ''_t;'' @ nl @ nl)) (cm_varints m))"

definition emit_varint_func_decls :: "string \<Rightarrow> semantic_varint \<Rightarrow> string" where
  "emit_varint_func_decls prefix vi =
     (let base = (prefix @ ''_'' @ to_snake_case (vi_name vi))
      in (''wirespec_result_t '' @ base @ ''_parse('' @ nl @ ''    const uint8_t *buf, size_t len,'' @ nl @ ''    '' @ base @
        ''_t *out, size_t *consumed);'' @ nl) @
         (''wirespec_result_t '' @ base @ ''_serialize('' @ nl @ ''    '' @ base @ ''_t val,'' @ nl @
           ''    uint8_t *buf, size_t cap, size_t *written);'' @ nl) @
         (''size_t '' @ base @ ''_wire_size('' @ base @ ''_t val);'' @ nl) @ nl)"

section \<open>Structures\<close>

text \<open>\<open>trim_end_matches("_t")\<close> takes off every \<open>_t\<close> at the end, here of the reversed name.\<close>

function trim_rev :: "string \<Rightarrow> string" where
  "trim_rev s = (if take 2 s = ''t_'' then trim_rev (drop 2 s) else s)"
  by pat_completeness auto
termination
  by (relation "measure length") (auto dest: arg_cong [of _ _ length])

declare trim_rev.simps [simp del]

definition struct_name :: "string \<Rightarrow> string \<Rightarrow> string" where
  "struct_name prefix name = rev (trim_rev (rev (c_type_name prefix name)))"

definition c_array_member :: "string \<Rightarrow> string \<Rightarrow> codec_field \<Rightarrow> array_spec \<Rightarrow> string" where
  "c_array_member prefix indent f arr =
     (indent @ wire_type_to_c (ar_element_wire_type arr) prefix @ '' '' @ cf_name f @ ''['' @ max_elems_of f @ ''];'' @ nl) @
     (indent @ ''uint32_t '' @ cf_name f @ ''_count;'' @ nl)"

definition c_field_decl :: "codec_field \<Rightarrow> string \<Rightarrow> string \<Rightarrow> string" where
  "c_field_decl f prefix indent =
     (let plain = (indent @ wire_type_to_c (cf_wire_type f) prefix @ '' '' @ cf_name f @ '';'' @ nl);
          bytes = (indent @ ''wirespec_bytes_t '' @ cf_name f @ '';'' @ nl);
          varint = (indent @ ''uint64_t '' @ cf_name f @ '';'' @ nl)
      in case cf_strategy f of
           StBitGroup \<Rightarrow> plain
         | StConditional \<Rightarrow>
             (indent @ ''bool has_'' @ cf_name f @ '';'' @ nl) @
             (case cf_inner_wire_type f of
                Some inner \<Rightarrow> (indent @ wire_type_to_c inner prefix @ '' '' @ cf_name f @ '';'' @ nl)
              | None \<Rightarrow> plain)
         | StArray \<Rightarrow> (case cf_array_spec f of Some arr \<Rightarrow> c_array_member prefix indent f arr | None \<Rightarrow> [])
         | StBytesFixed \<Rightarrow> bytes
         | StBytesLength \<Rightarrow> bytes
         | StBytesRemaining \<Rightarrow> bytes
         | StBytesLor \<Rightarrow> bytes
         | StStruct \<Rightarrow>
             (case cf_ref_type_name f of
                Some name \<Rightarrow> (indent @ c_type_name prefix name @ '' '' @ cf_name f @ '';'' @ nl)
              | None \<Rightarrow> plain)
         | StVarInt \<Rightarrow> varint
         | StContVarInt \<Rightarrow> varint
         | StPrimitive \<Rightarrow> plain
         | StChecksum \<Rightarrow> plain)"

definition c_single_field :: "codec_field \<Rightarrow> string \<Rightarrow> string" where
  "c_single_field f prefix = c_field_decl f prefix ''    ''"

definition c_derived_decl :: "string \<Rightarrow> string \<Rightarrow> codec_derived_item \<Rightarrow> string" where
  "c_derived_decl prefix indent d = (indent @ wire_type_to_c (cd_wire_type d) prefix @ '' '' @ cd_name d @ '';'' @ nl)"

fun c_struct_item :: "codec_field list \<Rightarrow> string \<Rightarrow> codec_item \<Rightarrow> string" where
  "c_struct_item flds prefix (CiField field_id) =
     (case find_field flds field_id of Some f \<Rightarrow> c_single_field f prefix | None \<Rightarrow> [])"
| "c_struct_item flds prefix (CiDerived d) = c_derived_decl prefix ''    '' d"
| "c_struct_item flds prefix (CiRequire r) = []"

definition c_struct_fields :: "codec_field list \<Rightarrow> codec_item list \<Rightarrow> string \<Rightarrow> string" where
  "c_struct_fields flds items prefix = concat (map (c_struct_item flds prefix) items)"

definition emit_packet_struct :: "codec_packet \<Rightarrow> string \<Rightarrow> string" where
  "emit_packet_struct p prefix =
     (''struct '' @ struct_name prefix (cpk_name p) @ '' {'' @ nl) @ c_struct_fields (cpk_fields p) (cpk_items p) prefix @ (''};'' @ nl @ nl)"

fun derived_member :: "string \<Rightarrow> string \<Rightarrow> codec_item \<Rightarrow> string" where
  "derived_member prefix indent (CiDerived d) = c_derived_decl prefix indent d"
| "derived_member prefix indent _ = []"

text \<open>The members of a variant; a variant without fields still needs one for C.\<close>

definition variant_struct :: "string \<Rightarrow> codec_variant_scope \<Rightarrow> string" where
  "variant_struct prefix v =
     (let vname = to_snake_case (cvs_name v)
      in if cvs_fields v = [] then (''        struct { uint8_t _dummy; } '' @ vname @ '';'' @ nl)
         else (''        struct {'' @ nl) @
           concat (map (\<lambda>f. c_field_decl f prefix ''            '') (cvs_fields v)) @
           concat (map (derived_member prefix ''            '') (cvs_items v)) @
           (''        } '' @ vname @ '';'' @ nl))"

definition tag_enum :: "string \<Rightarrow> string \<Rightarrow> codec_variant_scope list \<Rightarrow> string" where
  "tag_enum prefix name vs =
     (''typedef enum {'' @ nl) @
     concat (map (\<lambda>v. (''    '' @ c_frame_tag_value prefix name (cvs_name v) @ '' = '' @ dec (cvs_ordinal v) @ '','' @ nl)) vs) @
     (''} '' @ c_frame_tag_type prefix name @ '';'' @ nl @ nl)"

definition c_emit_frame :: "codec_frame \<Rightarrow> string \<Rightarrow> string" where
  "c_emit_frame fr prefix =
     tag_enum prefix (cfr_name fr) (cfr_variants fr) @
     (''struct '' @ struct_name prefix (cfr_name fr) @ '' {'' @ nl) @
     (''    '' @ wire_type_to_c (tg_wire_type (cfr_tag fr)) prefix @ '' frame_type;'' @ nl) @
     (''    '' @ c_frame_tag_type prefix (cfr_name fr) @ '' tag;'' @ nl) @
     (''    union {'' @ nl) @
     concat (map (variant_struct prefix) (cfr_variants fr)) @
     (''    } value;'' @ nl) @
     (''};'' @ nl @ nl)"

definition emit_capsule_struct :: "codec_capsule \<Rightarrow> string \<Rightarrow> string" where
  "emit_capsule_struct c prefix =
     tag_enum prefix (cca_name c) (cca_variants c) @
     (''struct '' @ struct_name prefix (cca_name c) @ '' {'' @ nl) @
     concat (map (\<lambda>f. c_single_field f prefix) (cca_header_fields c)) @
     concat (map (derived_member prefix ''    '') (cca_header_items c)) @
     (''    '' @ c_frame_tag_type prefix (cca_name c) @ '' tag;'' @ nl) @
     (''    union {'' @ nl) @
     concat (map (variant_struct prefix) (cca_variants c)) @
     (''    } value;'' @ nl) @
     (''};'' @ nl @ nl)"

definition forward_decl :: "string \<Rightarrow> string \<Rightarrow> string" where
  "forward_decl prefix name = (''typedef struct '' @ struct_name prefix name @ '' '' @ c_type_name prefix name @ '';'' @ nl)"

definition emit_forward_decls :: "codec_module \<Rightarrow> string \<Rightarrow> string" where
  "emit_forward_decls m prefix =
     concat (map (\<lambda>p. forward_decl prefix (cpk_name p)) (cm_packets m)) @
     concat (map (\<lambda>f. forward_decl prefix (cfr_name f)) (cm_frames m)) @
     concat (map (\<lambda>c. forward_decl prefix (cca_name c)) (cm_capsules m)) @ nl"

definition emit_func_decls :: "string \<Rightarrow> string \<Rightarrow> string" where
  "emit_func_decls prefix name =
     (let tname = c_type_name prefix name
      in (''wirespec_result_t '' @ c_func_name prefix name ''parse'' @ ''(const uint8_t *buf, size_t len, '' @ tname @
        '' *out, size_t *consumed);'' @ nl) @
         (''wirespec_result_t '' @ c_func_name prefix name ''serialize'' @ ''(const '' @ tname @
           '' *val, uint8_t *buf, size_t cap, size_t *written);'' @ nl) @
         (''size_t '' @ c_func_name prefix name ''serialized_len'' @ ''(const '' @ tname @ '' *val);'' @ nl) @ nl)"

section \<open>The order of the structures\<close>

datatype type_def = TdPacket codec_packet | TdFrame codec_frame | TdCapsule codec_capsule

definition field_refs :: "codec_field \<Rightarrow> string list" where
  "field_refs f =
     (case cf_ref_type_name f of Some name \<Rightarrow> [name] | None \<Rightarrow> []) @
     (case cf_array_spec f of
        Some arr \<Rightarrow> (case ar_element_ref_type_name arr of Some name \<Rightarrow> [name] | None \<Rightarrow> [])
      | None \<Rightarrow> [])"

definition collect_field_type_refs :: "codec_field list \<Rightarrow> string list" where
  "collect_field_type_refs flds = remdups (concat (map field_refs flds))"

text \<open>The names, with what they refer to and what they define.\<close>

definition type_entries :: "codec_module \<Rightarrow> (string \<times> string list \<times> type_def) list" where
  "type_entries m =
     map (\<lambda>p. (cpk_name p, collect_field_type_refs (cpk_fields p), TdPacket p)) (cm_packets m) @
     map (\<lambda>f. (cfr_name f, collect_field_type_refs (concat (map cvs_fields (cfr_variants f))), TdFrame f)) (cm_frames m) @
     map (\<lambda>c. (cca_name c, collect_field_type_refs (cca_header_fields c @ concat (map cvs_fields (cca_variants c))), TdCapsule c))
       (cm_capsules m)"

text \<open>The dependencies inside the module; of two entries of a name the later one counts.\<close>

definition type_deps :: "(string \<times> string list \<times> 'a) list \<Rightarrow> string \<Rightarrow> string list" where
  "type_deps es n =
     (case map_of (rev es) n of
        Some (refs, td) \<Rightarrow> filter (\<lambda>r. r \<in> set (map fst es)) refs
      | None \<Rightarrow> [])"

definition graph_names :: "(string \<times> 'a) list \<Rightarrow> string list" where
  "graph_names es = remdups (map fst es)"

definition dependents :: "hash_order \<Rightarrow> (string \<times> string list \<times> 'a) list \<Rightarrow> string \<Rightarrow> string list" where
  "dependents ho es d = filter (\<lambda>n. d \<in> set (type_deps es n)) (ho_names ho (graph_names es))"

definition in_degrees :: "(string \<times> string list \<times> 'a) list \<Rightarrow> degrees" where
  "in_degrees es = map (\<lambda>n. (n, length (type_deps es n))) (graph_names es)"

text \<open>One name has been put in order: those that depend on it wait for one type less.\<close>

fun release :: "string list \<Rightarrow> degrees \<Rightarrow> string list \<Rightarrow> (degrees \<times> string list) option" where
  "release [] d queue = Some (d, queue)"
| "release (t # ts) d queue =
     (case map_of d t of
        Some (Suc k) \<Rightarrow> release ts (AList.update t k d) (if k = 0 then queue @ [t] else queue)
      | _ \<Rightarrow> None)"

lemma release_relax: "release ts d queue = Some r \<Longrightarrow> relax ts d queue = Some r"
  by (induction ts d queue rule: release.induct) (auto split: option.splits nat.splits)

function order_loop :: "(string \<Rightarrow> string list) \<Rightarrow> degrees \<Rightarrow> string list \<Rightarrow> string list \<Rightarrow> string list option" where
  "order_loop dep d [] acc = Some acc"
| "order_loop dep d (n # queue) acc =
     (case release (dep n) d queue of
        None \<Rightarrow> None
      | Some (d', queue') \<Rightarrow> order_loop dep d' queue' (acc @ [n]))"
  by pat_completeness auto
termination
  by (relation "measure (\<lambda>(dep, d, queue, acc). degree_sum d + length queue)")
    (auto dest!: sym [of "Some _"] release_relax relax_measure)

text \<open>Types on a cycle are appended in the order of the module.\<close>

definition type_order :: "hash_order \<Rightarrow> hash_order \<Rightarrow> (string \<times> string list \<times> 'a) list \<Rightarrow> string list option" where
  "type_order ho ho' es =
     (let d = in_degrees es; ready = filter (\<lambda>n. map_of d n = Some 0) (ho_names ho' (graph_names es))
      in map_option (\<lambda>sorted. sorted @ filter (\<lambda>n. n \<notin> set sorted) (map fst es)) (order_loop (dependents ho es) d ready []))"

fun emit_type_def :: "string \<Rightarrow> type_def \<Rightarrow> string" where
  "emit_type_def prefix (TdPacket p) = emit_packet_struct p prefix"
| "emit_type_def prefix (TdFrame f) = c_emit_frame f prefix"
| "emit_type_def prefix (TdCapsule c) = emit_capsule_struct c prefix"

definition emit_types_in_dependency_order :: "hash_order \<Rightarrow> hash_order \<Rightarrow> codec_module \<Rightarrow> string \<Rightarrow> string option" where
  "emit_types_in_dependency_order ho ho' m prefix =
     (let es = type_entries m
      in map_option (\<lambda>names. concat (map (\<lambda>n. case map_of (rev es) n of
             Some (refs, td) \<Rightarrow> emit_type_def prefix td | None \<Rightarrow> []) names))
           (type_order ho ho' es))"

section \<open>State machines\<close>

definition sm_tag_enum :: "string \<Rightarrow> string \<Rightarrow> string list \<Rightarrow> string" where
  "sm_tag_enum tag_type tag_prefix names =
     (''typedef enum {'' @ nl) @
     concat (map (\<lambda>n. (''    '' @ tag_prefix @ ''_'' @ to_uppercase (to_snake_case n) @ '','' @ nl)) names) @
     (''} '' @ tag_type @ '';'' @ nl @ nl)"

definition sm_state_field :: "string \<Rightarrow> string \<Rightarrow> import_prefixes \<Rightarrow> semantic_state_field \<Rightarrow> string" where
  "sm_state_field prefix indent ips f =
     (let ctype = semantic_type_to_c_imp (stf_ty f) prefix ips; many = (indent @ ctype @ '' '' @ stf_name f @ ''[256];'' @ nl @ indent @
       ''uint32_t '' @ stf_name f @ ''_count;'' @ nl)
      in case stf_ty f of
           Array t c w \<Rightarrow>
             (case c of
                Some (SLiteral (SLInt n)) \<Rightarrow> (indent @ ctype @ '' '' @ stf_name f @ ''['' @ show_int n @ ''];'' @ nl)
              | _ \<Rightarrow> many)
         | _ \<Rightarrow> (indent @ ctype @ '' '' @ stf_name f @ '';'' @ nl))"

text \<open>A member of the union, for a state or an event.\<close>

definition union_member :: "string \<Rightarrow> string list \<Rightarrow> string" where
  "union_member name lines =
     (if lines = [] then (''        struct { uint8_t _unused; } '' @ name @ '';'' @ nl)
      else (''        struct {'' @ nl) @ concat lines @ (''        } '' @ name @ '';'' @ nl))"

definition sm_state_struct :: "semantic_state_machine \<Rightarrow> string \<Rightarrow> import_prefixes \<Rightarrow> string" where
  "sm_state_struct sm prefix ips =
     (let sname = (prefix @ ''_'' @ to_snake_case (ssm_name sm))
      in (''typedef struct '' @ sname @ '' '' @ sname @ ''_t;'' @ nl) @
         (''struct '' @ sname @ '' {'' @ nl) @
         (''    '' @ sname @ ''_state_tag_t tag;'' @ nl) @
         (''    union {'' @ nl) @
         concat (map (\<lambda>s. union_member (to_snake_case (sst_name s))
             (map (sm_state_field prefix ''            '' ips) (sst_fields s))) (ssm_states sm)) @
         (''    };'' @ nl) @
         (''};'' @ nl @ nl))"

definition sm_event_struct :: "semantic_state_machine \<Rightarrow> string \<Rightarrow> import_prefixes \<Rightarrow> string" where
  "sm_event_struct sm prefix ips =
     (let sname = (prefix @ ''_'' @ to_snake_case (ssm_name sm) @ ''_event'')
      in (''typedef struct {'' @ nl) @
         (''    '' @ sname @ ''_tag_t tag;'' @ nl) @
         (''    union {'' @ nl) @
         concat (map (\<lambda>ev. union_member (to_snake_case (sev_name ev))
             (map (\<lambda>p. (''            '' @ semantic_type_to_c_imp (sep_ty p) prefix ips @ '' '' @ sep_name p @ '';'' @ nl)) (sev_params ev)))
           (ssm_events sm)) @
         (''    };'' @ nl) @
         (''} '' @ sname @ ''_t;'' @ nl @ nl))"

definition sm_init_helper :: "semantic_state_machine \<Rightarrow> string \<Rightarrow> string" where
  "sm_init_helper sm prefix =
     (case List.find (\<lambda>s. sst_state_id s = ssm_initial_state_id sm) (ssm_states sm) of
        None \<Rightarrow> []
      | Some s \<Rightarrow>
          let base = (prefix @ ''_'' @ to_snake_case (ssm_name sm)); snake = to_snake_case (sst_name s)
          in (''static inline void '' @ base @ ''_init('' @ base @ ''_t *sm) {'' @ nl) @
             (''    sm->tag = '' @ state_tag prefix (ssm_name sm) (sst_name s) @ '';'' @ nl) @
             concat (map (\<lambda>f. case stf_default_value f of
                 Some lit \<Rightarrow> (''    sm->'' @ snake @ ''.'' @ stf_name f @ '' = '' @ semantic_literal_to_c lit @ '';'' @
                   nl) | None \<Rightarrow> []) (sst_fields s)) @
             (''}'' @ nl @ nl))"

definition state_machine_header :: "semantic_state_machine \<Rightarrow> string \<Rightarrow> import_prefixes \<Rightarrow> string" where
  "state_machine_header sm prefix ips =
     (let base = (prefix @ ''_'' @ to_snake_case (ssm_name sm));
          tag_prefix = (to_uppercase prefix @ ''_'' @ to_uppercase (to_snake_case (ssm_name sm)))
      in (''/* ---- State machine: '' @ ssm_name sm @ '' ---- */'' @ nl @ nl) @
         sm_tag_enum (base @ ''_state_tag_t'') tag_prefix (map sst_name (ssm_states sm)) @
         sm_state_struct sm prefix ips @
         sm_tag_enum (base @ ''_event_tag_t'') (tag_prefix @ ''_EVENT'') (map sev_name (ssm_events sm)) @
         sm_event_struct sm prefix ips @
         (''wirespec_result_t '' @ base @ ''_dispatch('' @ nl @ ''    '' @ base @ ''_t *sm,'' @ nl @ ''    const '' @ base @ ''_event_t *event);'' @
           nl @ nl) @
         sm_init_helper sm prefix)"

section \<open>The header\<close>

definition emit_header :: "hash_order \<Rightarrow> hash_order \<Rightarrow> codec_module \<Rightarrow> string \<Rightarrow> string option" where
  "emit_header ho ho' m prefix =
     (let guard = c_include_guard prefix; ips = build_import_prefix_map m
      in ocat
          [Some (''#ifndef '' @ guard @ nl),
           Some (''#define '' @ guard @ nl @ nl),
           Some (''#include <stdint.h>'' @ nl),
           Some (''#include <stdbool.h>'' @ nl),
           Some (''#include <stddef.h>'' @ nl),
           Some (''#include '' @ quo @ ''wirespec_runtime.h'' @ quo @ nl),
           Some (emit_import_includes m),
           Some nl,
           Some (emit_const_defines m prefix),
           Some (concat (map (c_emit_enum prefix) (cm_enums m))),
           Some (emit_varint_header m prefix),
           Some (emit_forward_decls m prefix),
           emit_types_in_dependency_order ho ho' m prefix,
           Some (concat (map (\<lambda>sm. state_machine_header sm prefix ips) (cm_state_machines m))),
           Some (''/* ---- Function declarations ---- */'' @ nl @ nl),
           Some (concat (map (emit_varint_func_decls prefix) (cm_varints m))),
           Some (concat (map (\<lambda>p. emit_func_decls prefix (cpk_name p)) (cm_packets m))),
           Some (concat (map (\<lambda>f. emit_func_decls prefix (cfr_name f)) (cm_frames m))),
           Some (concat (map (\<lambda>c. emit_func_decls prefix (cca_name c)) (cm_capsules m))),
           Some (''#endif /* '' @ guard @ '' */'' @ nl)])"

end
