(* ===== verification/CSource.thy ===== *)
theory CSource
  imports CHeader
begin

text \<open>
  The source file of a generated C module, \<open>crates/wirespec-backend-c/src/source.rs\<close>: the functions of
  packets, frames and capsules around the statements of \<open>CParse\<close> and \<open>CSer\<close>, checksums, variable-length
  integers, the dispatch of state machines, and the fuzz harness. \<open>None\<close> is a panic of the generator.
\<close>

section \<open>Enum fields\<close>

definition c_underlying_type :: "semantic_type \<Rightarrow> wire_type" where
  "c_underlying_type ty = (case ty of Primitive w e \<Rightarrow> primitive_to_wire w | _ \<Rightarrow> WU8)"

definition c_resolve_enum_field :: "semantic_enum list \<Rightarrow> codec_field \<Rightarrow> codec_field" where
  "c_resolve_enum_field enums f =
     (case field_enum enums f of
        Some e \<Rightarrow>
          f\<lparr>cf_strategy := StPrimitive, cf_wire_type := c_underlying_type (se_underlying_type e), cf_ref_type_name := None,
            cf_endianness := (case se_underlying_type e of Primitive w en \<Rightarrow> en | _ \<Rightarrow> cf_endianness f)\<rparr>
      | None \<Rightarrow> f)"

definition c_resolve_enum_fields :: "codec_field list \<Rightarrow> semantic_enum list \<Rightarrow> codec_field list" where
  "c_resolve_enum_fields flds enums = map (c_resolve_enum_field enums) flds"

definition c_resolve_variant :: "semantic_enum list \<Rightarrow> codec_variant_scope \<Rightarrow> codec_variant_scope" where
  "c_resolve_variant enums v = v\<lparr>cvs_fields := c_resolve_enum_fields (cvs_fields v) enums\<rparr>"

definition resolve_frame :: "codec_frame \<Rightarrow> semantic_enum list \<Rightarrow> codec_frame" where
  "resolve_frame frame enums = frame\<lparr>cfr_variants := map (c_resolve_variant enums) (cfr_variants frame)\<rparr>"

definition resolve_capsule :: "codec_capsule \<Rightarrow> semantic_enum list \<Rightarrow> codec_capsule" where
  "resolve_capsule capsule enums =
     capsule\<lparr>cca_header_fields := c_resolve_enum_fields (cca_header_fields capsule) enums,
       cca_variants := map (c_resolve_variant enums) (cca_variants capsule)\<rparr>"

section \<open>Checksums\<close>

definition needs_offset :: "checksum_plan option \<Rightarrow> bool" where
  "needs_offset plan = (case plan of Some p \<Rightarrow> cp_input_model p = CiRecomputeWithSkippedField | None \<Rightarrow> False)"

definition c_parse_items_with_cksum :: "codec_field list \<Rightarrow> codec_item list \<Rightarrow> string \<Rightarrow> string \<Rightarrow> string \<Rightarrow> string
    \<Rightarrow> string option" where
  "c_parse_items_with_cksum flds items prefix indent sp cksum_field_name =
     omap_cat (\<lambda>it.
         ocat [Some (offset_stmt flds cksum_field_name (indent @ ''_cksum_offset = wirespec_cursor_consumed(cur);'' @ nl) it),
               c_parse_items flds [it] prefix indent sp]) items"

definition c_serialize_items_with_cksum :: "codec_field list \<Rightarrow> codec_item list \<Rightarrow> string \<Rightarrow> string \<Rightarrow> string \<Rightarrow> string option" where
  "c_serialize_items_with_cksum flds items prefix indent cksum_field_name =
     omap_cat (\<lambda>it.
         ocat [Some (offset_stmt flds cksum_field_name (indent @ ''_cksum_offset = pos;'' @ nl) it),
               c_serialize_items flds [it] prefix indent]) items"

definition cksum_c_type :: "checksum_plan \<Rightarrow> string" where
  "cksum_c_type plan = (if cp_field_width_bytes plan = 2 then ''uint16_t'' else ''uint32_t'')"

definition emit_checksum_verify :: "checksum_plan \<Rightarrow> string \<Rightarrow> string option" where
  "emit_checksum_verify plan indent =
     (let algo = cp_algorithm_id plan; ctype = cksum_c_type plan
      in case map_option ck_verify_mode (lookup_algorithm algo) of
           Some ZeroSum \<Rightarrow> Some (
             (indent @ ''{'' @ nl) @
             (indent @ ''    '' @ ctype @ '' _cksum = wirespec_'' @ algo @ ''_checksum(buf, *consumed);'' @ nl) @
             (indent @ ''    if (_cksum != 0) return WIRESPEC_ERR_CHECKSUM;'' @ nl) @
             (indent @ ''}'' @ nl))
         | Some RecomputeCompare \<Rightarrow> Some (
             (indent @ ''{'' @ nl) @
             (indent @ ''    '' @ ctype @ '' _computed = wirespec_'' @ algo @ ''_verify('' @ nl) @
             (indent @ ''        buf, *consumed, _cksum_offset, '' @ dec (cp_field_width_bytes plan) @ '');'' @ nl) @
             (indent @ ''    if (out->'' @ cp_field_name plan @ '' != _computed)'' @ nl) @
             (indent @ ''        return WIRESPEC_ERR_CHECKSUM;'' @ nl) @
             (indent @ ''}'' @ nl))
         | None \<Rightarrow> None)"

text \<open>The bytes of a recomputed checksum are stored from the most significant on, whatever the order of the
  field.\<close>

definition c_cksum_byte_stmt :: "string \<Rightarrow> nat \<Rightarrow> nat \<Rightarrow> string" where
  "c_cksum_byte_stmt indent width i =
     (indent @ ''    buf[_cksum_offset + '' @ show_nat i @ ''] = (uint8_t)((_val >> '' @ show_nat ((width - 1 - i) * 8) @ '') & 0xFF);'' @ nl)"

definition emit_checksum_compute :: "checksum_plan \<Rightarrow> string \<Rightarrow> string option" where
  "emit_checksum_compute plan indent =
     (let algo = cp_algorithm_id plan; width = unat (cp_field_width_bytes plan)
      in map_option (\<lambda>body. (indent @ ''/* @checksum('' @ algo @ ''): auto-compute and patch */'' @ nl) @ body)
        (case map_option ck_verify_mode (lookup_algorithm algo) of
           Some ZeroSum \<Rightarrow> Some (indent @ ''wirespec_'' @ algo @ ''_checksum_compute(buf, pos, _cksum_offset);'' @ nl)
         | Some RecomputeCompare \<Rightarrow> Some (
             (indent @ ''{'' @ nl) @
             (indent @ ''    '' @ cksum_c_type plan @ '' _val = wirespec_'' @ algo @ ''_compute(buf, pos, _cksum_offset);'' @ nl) @
             concat (map (c_cksum_byte_stmt indent width) [0..<width]) @
             (indent @ ''}'' @ nl))
         | None \<Rightarrow> None))"

section \<open>Functions of a type\<close>

text \<open>The end of a function that returns a result.\<close>

definition fn_end :: string where
  "fn_end = (''    (void)r;'' @ nl @ ''    return WIRESPEC_OK;'' @ nl @ ''}'' @ nl @ nl)"

definition cursor_fn_head :: "string \<Rightarrow> string \<Rightarrow> bool \<Rightarrow> string" where
  "cursor_fn_head prefix name offset_arg =
     (''static wirespec_result_t '' @ parse_fn_of prefix name @ ''(wirespec_cursor_t *cur, '' @ c_type_name prefix name @ '' *out'') @
     (if offset_arg then '', size_t *_cksum_offset_out'' else []) @ '')''"

definition public_parse_head :: "string \<Rightarrow> string \<Rightarrow> string" where
  "public_parse_head prefix name =
     (''wirespec_result_t '' @ c_func_name prefix name ''parse'' @ ''(const uint8_t *buf, size_t len, '' @ c_type_name prefix name @
       '' *out, size_t *consumed) {'' @ nl) @
     (''    wirespec_cursor_t cur;'' @ nl) @
     (''    wirespec_cursor_init(&cur, buf, len);'' @ nl)"

definition public_parse_tail :: string where
  "public_parse_tail =
     (''    if (r != WIRESPEC_OK) return r;'' @ nl) @
     (''    *consumed = wirespec_cursor_consumed(&cur);'' @ nl)"

definition serialize_head :: "string \<Rightarrow> string \<Rightarrow> string" where
  "serialize_head prefix name =
     (''wirespec_result_t '' @ serialize_fn_of prefix name @ ''(const '' @ c_type_name prefix name @
       '' *val, uint8_t *buf, size_t cap, size_t *written) {'' @ nl) @
     (''    wirespec_result_t r;'' @ nl) @
     (''    size_t pos = 0;'' @ nl)"

definition len_head :: "string \<Rightarrow> string \<Rightarrow> string" where
  "len_head prefix name =
     (''size_t '' @ c_func_name prefix name ''serialized_len'' @ ''(const '' @ c_type_name prefix name @ '' *val) {'' @ nl) @
     (''    (void)val;'' @ nl) @
     (''    size_t len = 0;'' @ nl)"

text \<open>Parse functions of a type without checksum.\<close>

definition plain_parse_fns :: "string \<Rightarrow> string \<Rightarrow> string option \<Rightarrow> string option" where
  "plain_parse_fns prefix name body =
     ocat [Some (cursor_fn_head prefix name False @ ('' {'' @ nl @ ''    wirespec_result_t r;'' @ nl)),
           body,
           Some fn_end,
           Some (public_parse_head prefix name),
           Some (''    wirespec_result_t r = '' @ parse_fn_of prefix name @ ''(&cur, out);'' @ nl),
           Some public_parse_tail,
           Some fn_end]"

section \<open>Packets\<close>

definition emit_packet_parse :: "codec_packet \<Rightarrow> string \<Rightarrow> semantic_enum list \<Rightarrow> string option" where
  "emit_packet_parse packet prefix enums =
     (let name = cpk_name packet; plan = cpk_checksum_plan packet; with_offset = needs_offset plan;
          resolved_fields = c_resolve_enum_fields (cpk_fields packet) enums
      in ocat
          [Some (cursor_fn_head prefix name with_offset @ ('' {'' @ nl @ ''    wirespec_result_t r;'' @ nl)),
           Some (if with_offset then (''    size_t _cksum_offset = 0;'' @ nl) else []),
           (case plan of
              Some p \<Rightarrow>
                if with_offset
                then ocat [c_parse_items_with_cksum resolved_fields (cpk_items packet) prefix ''    '' ''out->'' (cp_field_name p),
                           Some (''    *_cksum_offset_out = _cksum_offset;'' @ nl)]
                else c_parse_items resolved_fields (cpk_items packet) prefix ''    '' ''out->''
            | None \<Rightarrow> c_parse_items resolved_fields (cpk_items packet) prefix ''    '' ''out->''),
           Some fn_end,
           Some (public_parse_head prefix name),
           Some (if with_offset
                 then (''    size_t _cksum_offset = 0;'' @ nl) @
                   (''    wirespec_result_t r = '' @ parse_fn_of prefix name @ ''(&cur, out, &_cksum_offset);'' @ nl)
                 else (''    wirespec_result_t r = '' @ parse_fn_of prefix name @ ''(&cur, out);'' @ nl)),
           Some public_parse_tail,
           (case plan of Some p \<Rightarrow> emit_checksum_verify p ''    '' | None \<Rightarrow> Some []),
           Some fn_end])"

definition emit_packet_serialize :: "codec_packet \<Rightarrow> string \<Rightarrow> semantic_enum list \<Rightarrow> string option" where
  "emit_packet_serialize packet prefix enums =
     (let resolved_fields = c_resolve_enum_fields (cpk_fields packet) enums
      in ocat
          [Some (serialize_head prefix (cpk_name packet)),
           (case cpk_checksum_plan packet of
              Some p \<Rightarrow>
                ocat [Some (''    size_t _cksum_offset = 0;'' @ nl),
                      c_serialize_items_with_cksum resolved_fields (cpk_items packet) prefix ''    '' (cp_field_name p),
                      emit_checksum_compute p ''    '']
            | None \<Rightarrow> c_serialize_items resolved_fields (cpk_items packet) prefix ''    ''),
           Some (''    *written = pos;'' @ nl),
           Some fn_end])"

definition emit_packet_serialized_len :: "codec_packet \<Rightarrow> string \<Rightarrow> semantic_enum list \<Rightarrow> string" where
  "emit_packet_serialized_len packet prefix enums =
     len_head prefix (cpk_name packet) @
     c_serialized_len_items (c_resolve_enum_fields (cpk_fields packet) enums) (cpk_items packet) prefix ''    '' ''val->'' @
     (''    return len;'' @ nl @ ''}'' @ nl @ nl)"

section \<open>Frames\<close>

definition emit_frame_parse :: "codec_frame \<Rightarrow> string \<Rightarrow> string option" where
  "emit_frame_parse frame prefix = plain_parse_fns prefix (cfr_name frame) (c_frame_parse_body frame prefix ''    '')"

definition emit_frame_serialize :: "codec_frame \<Rightarrow> string \<Rightarrow> string option" where
  "emit_frame_serialize frame prefix =
     ocat [Some (serialize_head prefix (cfr_name frame)),
           c_frame_serialize_body frame prefix ''    '',
           Some (''    *written = pos;'' @ nl),
           Some fn_end]"

text \<open>The lengths of the variants, by the tag of the value.\<close>

definition variant_len_switch :: "string \<Rightarrow> string \<Rightarrow> codec_variant_scope list \<Rightarrow> string" where
  "variant_len_switch prefix name vs =
     (''    switch (val->tag) {'' @ nl) @
     concat (map (\<lambda>v.
         (''    case '' @ c_frame_tag_value prefix name (cvs_name v) @ '':'' @ nl) @
         c_serialized_len_items (cvs_fields v) (cvs_items v) prefix ''        '' (c_variant_prefix ''val->'' v) @
         (''        break;'' @ nl)) vs) @
     (''    default: break;'' @ nl) @
     (''    }'' @ nl) @
     (''    return len;'' @ nl @ ''}'' @ nl @ nl)"

definition emit_frame_serialized_len :: "codec_frame \<Rightarrow> string \<Rightarrow> string" where
  "emit_frame_serialized_len frame prefix =
     (let tag = cfr_tag frame
      in len_head prefix (cfr_name frame) @
         (if tg_wire_type tag = WVarInt \<or> tg_wire_type tag = WContVarInt
          then (case tg_ref_type_name tag of
                  Some ref_name \<Rightarrow> (''    len += '' @ c_func_name prefix ref_name ''wire_size'' @ ''(val->frame_type);'' @ nl)
                | None \<Rightarrow> [])
          else (case c_wire_type_byte_width (tg_wire_type tag) of Some w \<Rightarrow> (''    len += '' @ show_nat w @ '';'' @
            nl) | None \<Rightarrow> [])) @
         variant_len_switch prefix (cfr_name frame) (cfr_variants frame))"

section \<open>Capsules\<close>

definition emit_capsule_parse :: "codec_capsule \<Rightarrow> string \<Rightarrow> string option" where
  "emit_capsule_parse capsule prefix = plain_parse_fns prefix (cca_name capsule) (c_capsule_parse_body capsule prefix ''    '')"

definition emit_capsule_serialize :: "codec_capsule \<Rightarrow> string \<Rightarrow> string option" where
  "emit_capsule_serialize capsule prefix =
     ocat [Some (serialize_head prefix (cca_name capsule)),
           c_serialize_items (cca_header_fields capsule) (cca_header_items capsule) prefix ''    '',
           Some (''    switch (val->tag) {'' @ nl),
           omap_cat (\<lambda>v. ocat
               [Some (''    case '' @ c_frame_tag_value prefix (cca_name capsule) (cvs_name v) @ '': {'' @ nl),
                c_variant_serialize_items (cvs_fields v) (cvs_items v) prefix ''        '' (c_variant_prefix ''val->'' v),
                Some (''        break;'' @ nl),
                Some (''    }'' @ nl)]) (cca_variants capsule),
           Some (''    default: break;'' @ nl),
           Some (''    }'' @ nl),
           Some (''    *written = pos;'' @ nl),
           Some fn_end]"

definition emit_capsule_serialized_len :: "codec_capsule \<Rightarrow> string \<Rightarrow> string" where
  "emit_capsule_serialized_len capsule prefix =
     len_head prefix (cca_name capsule) @
     c_serialized_len_items (cca_header_fields capsule) (cca_header_items capsule) prefix ''    '' ''val->'' @
     variant_len_switch prefix (cca_name capsule) (cca_variants capsule)"

section \<open>Guards and actions\<close>

definition emit_guard :: "semantic_expr \<Rightarrow> sm_context \<Rightarrow> string \<Rightarrow> string" where
  "emit_guard guard ctx indent =
     (case guard of
        SAll collection sm_id mname state_id state_name \<Rightarrow>
          (case collection of
             SSlice b s e \<Rightarrow>
               (indent @ ''{'' @ nl) @
               (indent @ ''    bool _all_ok = true;'' @ nl) @
               (indent @ ''    for (size_t _aj = (size_t)('' @ sema_expr_to_c s ctx @ ''); _aj < (size_t)('' @ sema_expr_to_c e ctx @
                 ''); _aj++) {'' @ nl) @
               (indent @ ''        if ('' @ sema_expr_to_c b ctx @ ''[_aj].tag != '' @ state_tag (sx_prefix ctx) mname state_name @
                 '') { _all_ok = false; break; }'' @ nl) @
               (indent @ ''    }'' @ nl) @
               (indent @ ''    if (!_all_ok) return WIRESPEC_ERR_CONSTRAINT;'' @ nl) @
               (indent @ ''}'' @ nl)
           | _ \<Rightarrow> (indent @ ''/* all() guard: non-slice collection ('' @ sema_expr_to_c collection ctx @ '') '' @ [CHR 0xE2] @
             [CHR 0x80] @ [CHR 0x94] @ '' treating as no-op */'' @ nl))
      | _ \<Rightarrow> (indent @ ''if (!('' @ sema_expr_to_c guard ctx @ '')) return WIRESPEC_ERR_INVALID_STATE;'' @ nl))"

text \<open>C has no assignment of arrays: a target named like an array field of some state is copied.\<close>

definition is_array_target :: "sm_context \<Rightarrow> semantic_expr \<Rightarrow> bool" where
  "is_array_target ctx target =
     (case target of
        STransitionPeerRef r \<Rightarrow>
          (case (pr_path r, sx_sm ctx) of
             (field_name # _, Some sm) \<Rightarrow>
               list_ex (\<lambda>s. list_ex (\<lambda>f. stf_name f = field_name \<and> (case stf_ty f of Array t c w \<Rightarrow> True | _ \<Rightarrow> False))
                 (sst_fields s)) (ssm_states sm)
           | _ \<Rightarrow> False)
      | _ \<Rightarrow> False)"

definition emit_action :: "semantic_action \<Rightarrow> sm_context \<Rightarrow> string \<Rightarrow> string" where
  "emit_action a ctx indent =
     (let target_c = sema_expr_to_c (sac_target a) ctx
      in case sac_value a of
           SFill v c \<Rightarrow>
             (indent @ ''/* fill: count validated at compile time by sema */'' @ nl) @
             (indent @ ''for (size_t _fi = 0; _fi < (size_t)('' @ sema_expr_to_c c ctx @ ''); _fi++) {'' @ nl) @
             (indent @ ''    '' @ target_c @ ''[_fi] = '' @ sema_expr_to_c v ctx @ '';'' @ nl) @
             (indent @ ''}'' @ nl)
         | v \<Rightarrow>
             let value_c = sema_expr_to_c v ctx
             in if is_array_target ctx (sac_target a)
                then (indent @ ''memcpy('' @ target_c @ '', '' @ value_c @ '', sizeof('' @ target_c @ ''));'' @ nl)
                else (indent @ target_c @ '' '' @ sac_op a @ '' '' @ value_c @ '';'' @ nl))"

section \<open>Delegation\<close>

definition delegate_field :: "semantic_state_machine \<Rightarrow> string \<Rightarrow> string \<Rightarrow> semantic_state_field option" where
  "delegate_field sm src_snake fname =
     Option.bind (List.find (\<lambda>s. to_snake_case (sst_name s) = src_snake) (ssm_states sm))
       (\<lambda>s. List.find (\<lambda>f. stf_name f = fname) (sst_fields s))"

definition fixed_count :: "semantic_type \<Rightarrow> int option" where
  "fixed_count ty = (case ty of Array t (Some (SLiteral (SLInt n))) w \<Rightarrow> Some n | _ \<Rightarrow> None)"

text \<open>The call of the child at the place \<open>child\<close>, and the event that tells the parent of its step.\<close>

definition child_dispatch :: "semantic_state_machine \<Rightarrow> string \<Rightarrow> string \<Rightarrow> string \<Rightarrow> string \<Rightarrow> string" where
  "child_dispatch sm prefix child_snake child indent =
     (let base = (prefix @ ''_'' @ to_snake_case (ssm_name sm));
          upper = (to_uppercase prefix @ ''_'' @ to_uppercase (to_snake_case (ssm_name sm)))
      in (indent @ prefix @ ''_'' @ child_snake @ ''_state_tag_t _old_tag = '' @ child @ ''.tag;'' @ nl) @
         (indent @ ''wirespec_result_t _rc = '' @ prefix @ ''_'' @ child_snake @ ''_dispatch('' @ nl @ indent @ ''    &'' @ child @
           '', &_child_ev);'' @ nl) @
         (indent @ ''if (_rc != WIRESPEC_OK) return _rc;'' @ nl) @
         (if \<not> ssm_has_child_state_changed sm then (indent @ ''(void)_old_tag;'' @ nl)
          else
            (indent @ ''if ('' @ child @ ''.tag != _old_tag) {'' @ nl) @
            (indent @ ''    '' @ base @ ''_event_t _csc_ev;'' @ nl) @
            (indent @ ''    _csc_ev.tag = '' @ upper @ ''_EVENT_CHILD_STATE_CHANGED;'' @ nl) @
            (indent @ ''    *sm = dst;'' @ nl) @
            (indent @ ''    wirespec_result_t _csc_rc = '' @ base @ ''_dispatch(sm, &_csc_ev);'' @ nl) @
            (indent @ ''    if (_csc_rc != WIRESPEC_OK && _csc_rc != WIRESPEC_ERR_INVALID_STATE)'' @ nl) @
            (indent @ ''        return _csc_rc;'' @ nl) @
            (indent @ ''    return WIRESPEC_OK;'' @ nl) @
            (indent @ ''}'' @ nl)))"

definition c_emit_delegate :: "semantic_delegate \<Rightarrow> semantic_state_machine \<Rightarrow> sm_context \<Rightarrow> string \<Rightarrow> string \<Rightarrow> string \<Rightarrow> string option" where
  "c_emit_delegate delegate sm ctx prefix src_snake indent =
     (case Option.bind (extract_delegate_child_field (sdg_target delegate)) (\<lambda>fname.
             Option.bind (delegate_field sm src_snake fname) (\<lambda>f. map_option (\<lambda>child_name. (fname, f, child_name)) (stf_child_sm_name f))) of
        None \<Rightarrow> None
      | Some (field_name, f, child_name) \<Rightarrow>
          let child_snake = to_snake_case child_name;
              lval = (''dst.'' @ src_snake @ ''.'' @ to_snake_case field_name)
          in Some (
               (indent @ ''/* delegate: child dispatch to '' @ child_name @ '' */'' @ nl) @
               (indent @ ''dst = *sm;'' @ nl) @
               (indent @ prefix @ ''_'' @ child_snake @ ''_event_t _child_ev;'' @ nl) @
               (indent @ ''_child_ev.tag = ('' @ prefix @ ''_'' @ child_snake @ ''_event_tag_t)event->'' @ to_snake_case (sx_event ctx) @ ''.'' @
                 to_snake_case (sdg_event_name delegate) @ '';'' @ nl) @
               (case sdg_target delegate of
                  SSubscript b index \<Rightarrow>
                    (indent @ ''{'' @ nl) @
                    (indent @ ''    size_t _idx = (size_t)('' @ sema_expr_to_c index ctx @ '');'' @ nl) @
                    (case fixed_count (stf_ty f) of
                       Some n \<Rightarrow> (indent @ ''    if (_idx >= '' @ show_int n @ '') return WIRESPEC_ERR_BOUNDS;'' @ nl)
                     | None \<Rightarrow> []) @
                    child_dispatch sm prefix child_snake (lval @ ''[_idx]'') (indent @ ''    '') @
                    (indent @ ''}'' @ nl)
                | _ \<Rightarrow> child_dispatch sm prefix child_snake lval indent)))"

section \<open>Dispatch\<close>

text \<open>\<open>if\<close> for the first of a chain.\<close>

definition chain_kw :: "bool \<Rightarrow> string" where
  "chain_kw first = (if first then ''if'' else (''} else if''))"

definition transition_block :: "semantic_state_machine \<Rightarrow> string \<Rightarrow> string \<Rightarrow> nat \<times> semantic_transition \<Rightarrow> string option" where
  "transition_block sm prefix src_state_name it =
     (case it of (i, t) \<Rightarrow>
       let src_snake = to_snake_case src_state_name; dst_snake = to_snake_case (str_dst_state_name t);
           base = (prefix @ ''_'' @ to_snake_case (ssm_name sm));
           upper = (to_uppercase prefix @ ''_'' @ to_uppercase (to_snake_case (ssm_name sm)));
           ctx = \<lparr>sx_src = src_snake, sx_dst = dst_snake, sx_event = to_snake_case (str_event_name t), sx_sm = Some sm,
             sx_prefix = prefix\<rparr>;
           indent = ''            ''
       in ocat
           [Some (''        '' @ chain_kw (i = 0) @ '' (event->tag == '' @ upper @ ''_EVENT_'' @ to_uppercase (to_snake_case (str_event_name t)) @
             '') {'' @ nl),
            Some (case str_guard t of Some guard \<Rightarrow> emit_guard guard ctx indent | None \<Rightarrow> []),
            Some (indent @ base @ ''_t dst;'' @ nl),
            Some (indent @ ''dst.tag = '' @ upper @ ''_'' @ to_uppercase dst_snake @ '';'' @ nl),
            Some (concat (map (\<lambda>a. emit_action a ctx indent) (str_actions t))),
            (case str_delegate t of Some d \<Rightarrow> c_emit_delegate d sm ctx prefix src_snake indent | None \<Rightarrow> Some []),
            Some (indent @ ''*sm = dst;'' @ nl),
            Some (indent @ ''return WIRESPEC_OK;'' @ nl)])"

definition state_group :: "semantic_state_machine \<Rightarrow> string \<Rightarrow> nat \<times> string \<Rightarrow> string option" where
  "state_group sm prefix is =
     (case is of (i, src_state_name) \<Rightarrow>
       ocat [Some (''    '' @ chain_kw (i = 0) @ '' (src_tag == '' @ state_tag prefix (ssm_name sm) src_state_name @ '') {'' @ nl),
             omap_cat (transition_block sm prefix src_state_name)
               (enumerate 0 (filter (\<lambda>t. str_src_state_name t = src_state_name) (ssm_transitions sm))),
             Some (''        }'' @ nl)])"

definition wildcard_block :: "semantic_state_machine \<Rightarrow> string \<Rightarrow> semantic_transition \<Rightarrow> string" where
  "wildcard_block sm prefix t =
     (let dst_snake = to_snake_case (str_dst_state_name t);
          base = (prefix @ ''_'' @ to_snake_case (ssm_name sm));
          upper = (to_uppercase prefix @ ''_'' @ to_uppercase (to_snake_case (ssm_name sm)));
          ctx = \<lparr>sx_src = ''_wildcard'', sx_dst = dst_snake, sx_event = to_snake_case (str_event_name t), sx_sm = Some sm,
            sx_prefix = prefix\<rparr>
      in (''    if (event->tag == '' @ upper @ ''_EVENT_'' @ to_uppercase (to_snake_case (str_event_name t)) @ '') {'' @ nl) @
         (''        '' @ base @ ''_t dst;'' @ nl) @
         (''        dst.tag = '' @ upper @ ''_'' @ to_uppercase dst_snake @ '';'' @ nl) @
         concat (map (\<lambda>a. emit_action a ctx ''        '') (str_actions t)) @
         (''        *sm = dst;'' @ nl) @
         (''        return WIRESPEC_OK;'' @ nl) @
         (''    }'' @ nl))"

text \<open>The groups come in the order of the names of their states.\<close>

definition emit_sm_dispatch :: "semantic_state_machine \<Rightarrow> string \<Rightarrow> string option" where
  "emit_sm_dispatch sm prefix =
     (let base = (prefix @ ''_'' @ to_snake_case (ssm_name sm));
          srcs = sort (remdups (filter (\<lambda>n. n \<noteq> ''*'') (map str_src_state_name (ssm_transitions sm))));
          wildcards = filter (\<lambda>t. str_src_state_name t = ''*'') (ssm_transitions sm)
      in ocat
          [Some (''wirespec_result_t '' @ base @ ''_dispatch('' @ nl @ ''    '' @ base @ ''_t *sm,'' @ nl @ ''    const '' @ base @
            ''_event_t *event)'' @ nl @ ''{'' @ nl),
           Some (''    '' @ base @ ''_state_tag_t src_tag = sm->tag;'' @ nl @ nl),
           omap_cat (state_group sm prefix) (enumerate 0 srcs),
           Some (if wildcards \<noteq> [] then
                   (if srcs \<noteq> [] then (''    }'' @ nl @ nl @ ''    /* Wildcard transitions */'' @ nl) else []) @
                   concat (map (wildcard_block sm prefix) wildcards)
                 else if srcs \<noteq> [] then (''    }'' @ nl) else []),
           Some (nl @ ''    return WIRESPEC_ERR_INVALID_STATE;'' @ nl @ ''}'' @ nl @ nl)])"

section \<open>Variable-length integers\<close>

definition show_hex_upper :: "nat \<Rightarrow> string" where
  "show_hex_upper n = to_uppercase (show_hex n)"

definition show_hex2_upper :: "nat \<Rightarrow> string" where
  "show_hex2_upper n = to_uppercase (show_hex2 n)"

definition c_prefix_bits :: "semantic_varint \<Rightarrow> u8" where
  "c_prefix_bits vi = (case vi_prefix_bits vi of Some n \<Rightarrow> n | None \<Rightarrow> 2)"

definition varint_parse_cursor_fn :: "string \<Rightarrow> string" where
  "varint_parse_cursor_fn base =
     (''static inline wirespec_result_t '' @ base @ ''_parse_cursor('' @ nl @ ''    wirespec_cursor_t *cur, '' @ base @ ''_t *out)'' @ nl @ ''{'' @
       nl) @
     (''    size_t consumed = 0;'' @ nl) @
     (''    wirespec_result_t r = '' @ base @ ''_parse('' @ nl @ ''        cur->base + cur->pos, wirespec_cursor_remaining(cur),'' @ nl @
       ''        out, &consumed);'' @ nl) @
     (''    if (r != WIRESPEC_OK) return r;'' @ nl) @
     (''    cur->pos += consumed;'' @ nl) @
     (''    return WIRESPEC_OK;'' @ nl) @
     (''}'' @ nl @ nl)"

definition varint_parse_head :: "string \<Rightarrow> string" where
  "varint_parse_head base = (''wirespec_result_t'' @ nl @ base @ ''_parse(const uint8_t *buf, size_t len,'' @ nl @ ''    '' @ base @
    ''_t *out, size_t *consumed)'' @ nl @ ''{'' @ nl)"

definition varint_serialize_head :: "string \<Rightarrow> string" where
  "varint_serialize_head base = (''wirespec_result_t'' @ nl @ base @ ''_serialize('' @ base @ ''_t val,'' @ nl @
    ''    uint8_t *buf, size_t cap, size_t *written)'' @ nl @ ''{'' @ nl)"

text \<open>The strict check compares with the branch in front of it, found by the value of the prefix.\<close>

definition c_strict_check :: "semantic_varint \<Rightarrow> semantic_varint_branch \<Rightarrow> string option" where
  "c_strict_check vi b =
     (if vi_strict vi \<and> vb_prefix_value b > 0 then
        let i = unat (vb_prefix_value b) - 1
        in if i < length (vi_branches vi)
           then Some (''        if (*out <= '' @ dec (vb_max_value (vi_branches vi ! i)) @ ''ULL) return WIRESPEC_ERR_NONCANONICAL;'' @ nl)
           else None
      else Some [])"

definition c_branch_parse :: "semantic_varint \<Rightarrow> semantic_varint_branch \<Rightarrow> string option" where
  "c_branch_parse vi b =
     (let n = ucast (vb_total_bytes b) :: u64;
          first_mask = show_hex_upper (unat (push_bit (unat (8 - c_prefix_bits vi) mod 64) (1 :: u64) - 1))
      in ocat
          [Some (''    case '' @ dec (vb_prefix_value b) @ '': {'' @ nl),
           Some (if n > 1 then (''        if (len < '' @ dec n @ '') return WIRESPEC_ERR_SHORT_BUFFER;'' @ nl) else []),
           Some (if n = 1 then (''        *out = buf[0] & 0x'' @ first_mask @ '';'' @ nl)
                 else (''        *out = ((uint64_t)(buf[0] & 0x'' @ first_mask @ '') << '' @ dec ((n - 1) * 8) @ '')'' @ nl) @
                   concat (map (\<lambda>i. if of_nat i = n - 1 then (''             | (uint64_t)buf['' @ show_nat i @ ''];'' @ nl)
                       else (''             | ((uint64_t)buf['' @ show_nat i @ ''] << '' @ dec ((n - 1 - of_nat i) * 8) @ '')'' @ nl)) [1..<unat n])),
           Some (''        *consumed = '' @ dec n @ '';'' @ nl),
           c_strict_check vi b,
           Some (''        break;'' @ nl),
           Some (''    }'' @ nl)])"

definition c_branch_serialize :: "semantic_varint \<Rightarrow> nat \<times> semantic_varint_branch \<Rightarrow> string" where
  "c_branch_serialize vi ib =
     (case ib of (i, b) \<Rightarrow>
       let n = ucast (vb_total_bytes b) :: u64;
           prefix_marker = push_bit (unat (8 - c_prefix_bits vi) mod 64) (vb_prefix_value b);
           marker = (if prefix_marker = 0 then [] else (''0x'' @ show_hex2_upper (unat prefix_marker) @ '' | ''))
       in (if i = 0 then (''    if (val <= '' @ dec (vb_max_value b) @ ''ULL) {'' @ nl)
           else (''    } else if (val <= '' @ dec (vb_max_value b) @ ''ULL) {'' @ nl)) @
          (''        if (cap < '' @ dec n @ '') return WIRESPEC_ERR_SHORT_BUFFER;'' @ nl) @
          (if n = 1 then (''        buf[0] = '' @ marker @ ''(uint8_t)val;'' @ nl)
           else (''        buf[0] = '' @ marker @ ''(uint8_t)(val >> '' @ dec ((n - 1) * 8) @ '');'' @ nl) @
             concat (map (\<lambda>j. let shift = (n - 1 - of_nat j) * 8
                 in if shift = 0 then (''        buf['' @ show_nat j @ ''] = (uint8_t)val;'' @ nl)
                    else (''        buf['' @ show_nat j @ ''] = (uint8_t)(val >> '' @ dec shift @ '');'' @ nl)) [1..<unat n])) @
          (''        *written = '' @ dec n @ '';'' @ nl))"

definition c_branch_size :: "semantic_varint \<Rightarrow> nat \<times> semantic_varint_branch \<Rightarrow> string" where
  "c_branch_size vi ib =
     (case ib of (i, b) \<Rightarrow>
       if i < length (vi_branches vi) - 1 then (''    if (val <= '' @ dec (vb_max_value b) @ ''ULL) return '' @ dec (vb_total_bytes b) @ '';'' @ nl)
       else (''    return '' @ dec (vb_total_bytes b) @ '';'' @ nl))"

definition c_varint_prefix_match :: "semantic_varint \<Rightarrow> string \<Rightarrow> string option" where
  "c_varint_prefix_match vi prefix =
     (let base = (prefix @ ''_'' @ to_snake_case (vi_name vi))
      in ocat
          [Some (varint_parse_head base),
           Some (''    if (len < 1) return WIRESPEC_ERR_SHORT_BUFFER;'' @ nl @ nl),
           Some (''    uint8_t prefix = buf[0] >> '' @ dec (8 - c_prefix_bits vi) @ '';'' @ nl),
           Some (''    switch (prefix) {'' @ nl),
           omap_cat (c_branch_parse vi) (vi_branches vi),
           Some (''    default:'' @ nl @ ''        return WIRESPEC_ERR_INVALID_TAG;'' @ nl @ ''    }'' @ nl @ ''    return WIRESPEC_OK;'' @ nl @
             ''}'' @ nl @ nl),
           Some (varint_serialize_head base),
           Some (concat (map (c_branch_serialize vi) (enumerate 0 (vi_branches vi)))),
           Some (''    } else {'' @ nl @ ''        return WIRESPEC_ERR_OVERFLOW;'' @ nl @ ''    }'' @ nl @ ''    return WIRESPEC_OK;'' @ nl @ ''}'' @
             nl @ nl),
           Some (''size_t'' @ nl @ base @ ''_wire_size('' @ base @ ''_t val)'' @ nl @ ''{'' @ nl),
           Some (concat (map (c_branch_size vi) (enumerate 0 (vi_branches vi)))),
           Some (''}'' @ nl @ nl),
           Some (varint_parse_cursor_fn base)])"

definition c_cont_serialize_body :: "endianness \<Rightarrow> string \<Rightarrow> string \<Rightarrow> string \<Rightarrow> string" where
  "c_cont_serialize_body e max_bytes vm value_bits =
     (case e of
        Little \<Rightarrow>
          (''    size_t i = 0;'' @ nl) @
          (''    do {'' @ nl) @
          (''        if (i >= cap) return WIRESPEC_ERR_SHORT_BUFFER;'' @ nl) @
          (''        if (i >= '' @ max_bytes @ '') return WIRESPEC_ERR_OVERFLOW;'' @ nl) @
          (''        buf[i] = (uint8_t)(val & 0x'' @ vm @ '');'' @ nl) @
          (''        val >>= '' @ value_bits @ '';'' @ nl) @
          (''        if (val > 0) {'' @ nl) @
          (''            buf[i] |= 0x80;'' @ nl) @
          (''        }'' @ nl) @
          (''        i++;'' @ nl) @
          (''    } while (val > 0);'' @ nl) @
          (''    *written = i;'' @ nl)
      | Big \<Rightarrow>
          (''    uint8_t tmp['' @ max_bytes @ ''];'' @ nl) @
          (''    size_t n = 0;'' @ nl) @
          (''    do {'' @ nl) @
          (''        if (n >= '' @ max_bytes @ '') return WIRESPEC_ERR_OVERFLOW;'' @ nl) @
          (''        tmp[n++] = (uint8_t)(val & 0x'' @ vm @ '');'' @ nl) @
          (''        val >>= '' @ value_bits @ '';'' @ nl) @
          (''    } while (val > 0);'' @ nl) @
          (''    if (n > cap) return WIRESPEC_ERR_SHORT_BUFFER;'' @ nl) @
          (''    for (size_t i = 0; i < n; i++) {'' @ nl) @
          (''        buf[i] = tmp[n - 1 - i];'' @ nl) @
          (''        if (i < n - 1) {'' @ nl) @
          (''            buf[i] |= 0x80;'' @ nl) @
          (''        }'' @ nl) @
          (''    }'' @ nl) @
          (''    *written = n;'' @ nl))"

definition c_varint_continuation_bit :: "semantic_varint \<Rightarrow> string \<Rightarrow> string" where
  "c_varint_continuation_bit vi prefix =
     (let base = (prefix @ ''_'' @ to_snake_case (vi_name vi));
          bits = (case vi_value_bits_per_byte vi of Some n \<Rightarrow> unat n | None \<Rightarrow> 7);
          value_bits = show_nat bits; max_bytes = dec (vi_max_bytes vi); vm = show_hex2_upper (unat (low_mask bits))
      in varint_parse_head base @
         (''    uint64_t result = 0;'' @ nl) @
         (''    for (size_t i = 0; i < '' @ max_bytes @ ''; i++) {'' @ nl) @
         (''        if (i >= len) return WIRESPEC_ERR_SHORT_BUFFER;'' @ nl) @
         (''        uint8_t byte = buf[i];'' @ nl) @
         (case vi_byte_order vi of
            Little \<Rightarrow> (''        result |= (uint64_t)(byte & 0x'' @ vm @ '') << (i * '' @ value_bits @ '');'' @ nl)
          | Big \<Rightarrow> (''        result = (result << '' @ value_bits @ '') | (uint64_t)(byte & 0x'' @ vm @ '');'' @ nl)) @
         (''        if ((byte & 0x80) == 0) {'' @ nl) @
         (''            *out = result;'' @ nl) @
         (''            *consumed = i + 1;'' @ nl) @
         (''            return WIRESPEC_OK;'' @ nl) @
         (''        }'' @ nl) @
         (''    }'' @ nl) @
         (''    return WIRESPEC_ERR_OVERFLOW;'' @ nl) @
         (''}'' @ nl @ nl) @
         varint_serialize_head base @
         c_cont_serialize_body (vi_byte_order vi) max_bytes vm value_bits @
         (''    return WIRESPEC_OK;'' @ nl) @
         (''}'' @ nl @ nl) @
         (''size_t'' @ nl @ base @ ''_wire_size('' @ base @ ''_t val)'' @ nl @ ''{'' @ nl) @
         (''    size_t n = 1;'' @ nl) @
         (''    while (val >> '' @ value_bits @ '') { n++; val >>= '' @ value_bits @ ''; }'' @ nl) @
         (''    if (n > '' @ max_bytes @ '') n = '' @ max_bytes @ '';'' @ nl) @
         (''    return n;'' @ nl) @
         (''}'' @ nl @ nl) @
         varint_parse_cursor_fn base)"

definition emit_varint_source :: "semantic_varint \<Rightarrow> string \<Rightarrow> string option" where
  "emit_varint_source vi prefix =
     (case vi_encoding vi of
        PrefixMatch \<Rightarrow> c_varint_prefix_match vi prefix
      | ContinuationBit \<Rightarrow> Some (c_varint_continuation_bit vi prefix))"

section \<open>The source file\<close>

definition c_emit_source :: "codec_module \<Rightarrow> string \<Rightarrow> string option" where
  "c_emit_source m prefix =
     (let enums = cm_enums m
      in ocat
          [Some (''#include '' @ quo @ prefix @ ''.h'' @ quo @ nl @ nl),
           Some (concat (map (\<lambda>p. cursor_fn_head prefix (cpk_name p) (needs_offset (cpk_checksum_plan p)) @ ('';'' @ nl)) (cm_packets m))),
           Some (concat (map (\<lambda>f. cursor_fn_head prefix (cfr_name f) False @ ('';'' @ nl)) (cm_frames m))),
           Some (concat (map (\<lambda>c. cursor_fn_head prefix (cca_name c) False @ ('';'' @ nl)) (cm_capsules m))),
           Some nl,
           omap_cat (\<lambda>vi. emit_varint_source vi prefix) (cm_varints m),
           omap_cat (\<lambda>p. ocat [emit_packet_parse p prefix enums, emit_packet_serialize p prefix enums,
               Some (emit_packet_serialized_len p prefix enums)]) (cm_packets m),
           omap_cat (\<lambda>fr. let f = resolve_frame fr enums
               in ocat [emit_frame_parse f prefix, emit_frame_serialize f prefix, Some (emit_frame_serialized_len f prefix)])
             (cm_frames m),
           omap_cat (\<lambda>cp. let c = resolve_capsule cp enums
               in ocat [emit_capsule_parse c prefix, emit_capsule_serialize c prefix, Some (emit_capsule_serialized_len c prefix)])
             (cm_capsules m),
           omap_cat (\<lambda>sm. emit_sm_dispatch sm prefix) (cm_state_machines m)])"

text \<open>The fuzz harness drives the first frame, else the first capsule, else the first packet.\<close>

definition fuzz_target :: "codec_module \<Rightarrow> string option" where
  "fuzz_target m =
     (case cm_frames m of
        f # _ \<Rightarrow> Some (cfr_name f)
      | [] \<Rightarrow>
          (case cm_capsules m of
             c # _ \<Rightarrow> Some (cca_name c)
           | [] \<Rightarrow> (case cm_packets m of p # _ \<Rightarrow> Some (cpk_name p) | [] \<Rightarrow> None)))"

definition emit_fuzz_source :: "codec_module \<Rightarrow> string \<Rightarrow> string option" where
  "emit_fuzz_source m prefix =
     map_option (\<lambda>name. let base = (prefix @ ''_'' @ to_snake_case name) in
         (''/* Auto-generated fuzz harness -- DO NOT EDIT */'' @ nl @ ''#include '' @ quo @ prefix @ ''.h'' @ quo @ nl @ ''#include <stdint.h>'' @
           nl @ ''#include <stddef.h>'' @ nl @ ''#include <string.h>'' @ nl @ nl) @
         (''int LLVMFuzzerTestOneInput(const uint8_t *data, size_t size) {'' @ nl) @
         (''    /* Phase 1: Parse fuzz input */'' @ nl @ ''    '' @ base @ ''_t obj;'' @ nl @ ''    size_t consumed;'' @ nl) @
         (''    wirespec_result_t r = '' @ base @ ''_parse(data, size, &obj, &consumed);'' @ nl @ ''    if (r != WIRESPEC_OK) return 0;'' @ nl @ nl) @
         (''    /* Phase 2: Serialize back */'' @ nl @ ''    uint8_t buf[65536];'' @ nl @ ''    size_t written;'' @ nl) @
         (''    r = '' @ base @ ''_serialize(&obj, buf, sizeof(buf), &written);'' @ nl @ ''    if (r != WIRESPEC_OK) return 0;'' @ nl @ nl) @
         (''    /* Phase 3: Re-parse our own output -- must succeed */'' @ nl @ ''    '' @ base @ ''_t obj2;'' @ nl @ ''    size_t consumed2;'' @
           nl) @
         (''    r = '' @ base @ ''_parse(buf, written, &obj2, &consumed2);'' @ nl @ ''    if (r != WIRESPEC_OK) __builtin_trap();'' @ nl) @
         (''    if (consumed2 != written) __builtin_trap();'' @ nl @ nl) @
         (''    /* Phase 4: Re-serialize -- must be identical */'' @ nl @ ''    uint8_t buf2[65536];'' @ nl @ ''    size_t written2;'' @ nl) @
         (''    r = '' @ base @ ''_serialize(&obj2, buf2, sizeof(buf2), &written2);'' @ nl @ ''    if (r != WIRESPEC_OK) __builtin_trap();'' @ nl) @
         (''    if (written != written2 || memcmp(buf, buf2, written) != 0) __builtin_trap();'' @ nl @ nl @ ''    return 0;'' @ nl @ ''}'' @
           nl)) (fuzz_target m)"

end
