(* ===== verification/Backend.thy ===== *)
theory Backend
  imports CSource
begin

text \<open>
  The interface between compiler and backends, \<open>crates/wirespec-backend-api/src/lib.rs\<close>, and its two
  implementations, \<open>lib.rs\<close> and \<open>checksum_binding.rs\<close> of the C and Rust backends. A sink is a function
  that takes an artifact and a state. The options of a target are a value of any type in the code; here the
  two option types are constructors. A generator that panics has the result \<open>None\<close>.
\<close>

section \<open>Artifacts and sinks\<close>

type_synonym target_id = string
type_synonym artifact_kind = string

definition C_HEADER :: artifact_kind where "C_HEADER = ''c-header''"
definition C_SOURCE :: artifact_kind where "C_SOURCE = ''c-source''"
definition C_FUZZ_SOURCE :: artifact_kind where "C_FUZZ_SOURCE = ''c-fuzz-source''"
definition RUST_SOURCE :: artifact_kind where "RUST_SOURCE = ''rust-source''"

record artifact =
  af_target :: target_id
  af_kind :: artifact_kind
  af_module_name :: string
  af_module_prefix :: string
  af_relative_path :: string
  af_contents :: string

record artifact_meta =
  am_kind :: artifact_kind
  am_relative_path :: string
  am_byte_len :: nat

record backend_output =
  bo_target :: target_id
  bo_artifacts :: "artifact_meta list"

section \<open>Errors\<close>

datatype backend_error =
    UnsupportedTarget target_id
  | UnsupportedProfile target_id string string
  | UnsupportedOption target_id string string
  | UnsupportedFeature target_id string string
  | MissingChecksumBinding target_id string
  | InvalidCodecInput target_id string
  | EmitFailure target_id string
  | IoError target_id string string

fun display_backend_error :: "backend_error \<Rightarrow> string" where
  "display_backend_error (UnsupportedTarget t) = (''unsupported target: '' @ t)"
| "display_backend_error (UnsupportedProfile t profile reason) = (''target '' @ t @ '' does not support profile '' @ profile @ '': '' @ reason)"
| "display_backend_error (UnsupportedOption t opt reason) = (''target '' @ t @ '': unsupported option '' @ apo @ opt @ apo @ '': '' @ reason)"
| "display_backend_error (UnsupportedFeature t feature reason) = (''target '' @ t @ '': unsupported feature '' @ apo @ feature @ apo @ '': '' @
  reason)"
| "display_backend_error (MissingChecksumBinding t algorithm) = (''target '' @ t @ '': no checksum binding for '' @ apo @ algorithm @ apo)"
| "display_backend_error (InvalidCodecInput t reason) = (''target '' @ t @ '': invalid codec input: '' @ reason)"
| "display_backend_error (EmitFailure t reason) = (''target '' @ t @ '': emit failure: '' @ reason)"
| "display_backend_error (IoError t path reason) = (''target '' @ t @ '': I/O error at '' @ path @ '': '' @ reason)"

type_synonym 'k sink = "artifact \<Rightarrow> 'k \<Rightarrow> backend_error + 'k"

text \<open>The in-memory sink keeps what is written, in order.\<close>

type_synonym memory_sink = "(artifact_meta \<times> string) list"

definition memory_write :: "memory_sink sink" where
  "memory_write a k =
     Inr (k @ [(\<lparr>am_kind = af_kind a, am_relative_path = af_relative_path a, am_byte_len = length (af_contents a)\<rparr>,
       af_contents a)])"

section \<open>Checksum bindings\<close>

datatype compute_style = PatchInPlace | ReturnValue

record checksum_backend_binding =
  cb_verify_symbol :: "string option"
  cb_compute_symbol :: string
  cb_compute_style :: compute_style

definition no_binding_for :: "string \<Rightarrow> backend_error + checksum_backend_binding" where
  "no_binding_for algorithm = Inl (MissingChecksumBinding ''unknown'' algorithm)"

definition TARGET_C :: target_id where "TARGET_C = ''c''"
definition TARGET_RUST :: target_id where "TARGET_RUST = ''rust''"

definition c_binding_for :: "string \<Rightarrow> backend_error + checksum_backend_binding" where
  "c_binding_for algorithm =
     (let recompute = (\<lambda>v c. Inr \<lparr>cb_verify_symbol = Some v, cb_compute_symbol = c, cb_compute_style = ReturnValue\<rparr>)
      in if algorithm = ''internet''
         then Inr \<lparr>cb_verify_symbol = Some ''wirespec_internet_checksum'',
           cb_compute_symbol = ''wirespec_internet_checksum_compute'', cb_compute_style = PatchInPlace\<rparr>
         else if algorithm = ''crc32'' then recompute ''wirespec_crc32_verify'' ''wirespec_crc32_compute''
         else if algorithm = ''crc32c'' then recompute ''wirespec_crc32c_verify'' ''wirespec_crc32c_compute''
         else if algorithm = ''fletcher16'' then recompute ''wirespec_fletcher16_verify'' ''wirespec_fletcher16_compute''
         else Inl (MissingChecksumBinding TARGET_C algorithm))"

definition rust_binding_for :: "string \<Rightarrow> backend_error + checksum_backend_binding" where
  "rust_binding_for algorithm =
     (let recompute = (\<lambda>v c. Inr \<lparr>cb_verify_symbol = Some v, cb_compute_symbol = c, cb_compute_style = ReturnValue\<rparr>)
      in if algorithm = ''internet''
         then Inr \<lparr>cb_verify_symbol = Some ''wirespec_rt::internet_checksum'',
           cb_compute_symbol = ''wirespec_rt::internet_checksum_compute'', cb_compute_style = PatchInPlace\<rparr>
         else if algorithm = ''crc32'' then recompute ''wirespec_rt::crc32_verify'' ''wirespec_rt::crc32_compute''
         else if algorithm = ''crc32c'' then recompute ''wirespec_rt::crc32c_verify'' ''wirespec_rt::crc32c_compute''
         else if algorithm = ''fletcher16'' then recompute ''wirespec_rt::fletcher16_verify'' ''wirespec_rt::fletcher16_compute''
         else Inl (MissingChecksumBinding TARGET_RUST algorithm))"

section \<open>Backends\<close>

datatype target_options = CBackendOptions bool | RustBackendOptions

record backend_context =
  bc_module_name :: string
  bc_module_prefix :: string
  bc_source_prefixes :: "(string \<times> string) list"
  bc_compliance_profile :: string
  bc_emit_comments :: bool
  bc_target_options :: target_options
  bc_checksum_bindings :: "string \<Rightarrow> backend_error + checksum_backend_binding"
  bc_is_entry_module :: bool

text \<open>A list of artifacts goes to the sink one by one; the first error stops.\<close>

fun write_artifacts :: "'k sink \<Rightarrow> artifact list \<Rightarrow> 'k \<Rightarrow> backend_error + (artifact_meta list \<times> 'k)" where
  "write_artifacts wr [] k = Inr ([], k)"
| "write_artifacts wr (a # as) k =
     rbind (wr a k) (\<lambda>k. rbind (write_artifacts wr as k) (\<lambda>(ms, k).
       Inr (\<lparr>am_kind = af_kind a, am_relative_path = af_relative_path a, am_byte_len = length (af_contents a)\<rparr> # ms, k)))"

definition module_artifact :: "target_id \<Rightarrow> artifact_kind \<Rightarrow> string \<Rightarrow> string \<Rightarrow> string \<Rightarrow> artifact" where
  "module_artifact target kind prefix path contents =
     \<lparr>af_target = target, af_kind = kind, af_module_name = prefix, af_module_prefix = prefix,
      af_relative_path = path, af_contents = contents\<rparr>"

record c_lowered_module =
  cl_header_content :: string
  cl_source_content :: string
  cl_fuzz_content :: "string option"
  cl_prefix :: string
  cl_emit_fuzz :: bool

definition c_lower :: "hash_order \<Rightarrow> hash_order \<Rightarrow> codec_module \<Rightarrow> backend_context \<Rightarrow> (backend_error + c_lowered_module) option" where
  "c_lower ho ho' m ctx =
     (case bc_target_options ctx of
        CBackendOptions emit_fuzz \<Rightarrow>
          Option.bind (emit_header ho ho' m (bc_module_prefix ctx)) (\<lambda>header_content.
          Option.bind (c_emit_source m (bc_module_prefix ctx)) (\<lambda>source_content.
            Some (Inr \<lparr>cl_header_content = header_content, cl_source_content = source_content,
              cl_fuzz_content = (if emit_fuzz then emit_fuzz_source m (bc_module_prefix ctx) else None),
              cl_prefix = bc_module_prefix ctx, cl_emit_fuzz = emit_fuzz\<rparr>)))
      | _ \<Rightarrow> Some (Inl (UnsupportedOption TARGET_C ''target_options'' ''expected CBackendOptions'')))"

definition c_artifacts :: "c_lowered_module \<Rightarrow> artifact list" where
  "c_artifacts l =
     (let p = cl_prefix l
      in [module_artifact TARGET_C C_HEADER p (p @ ''.h'') (cl_header_content l),
          module_artifact TARGET_C C_SOURCE p (p @ ''.c'') (cl_source_content l)] @
         (case cl_fuzz_content l of
            Some fuzz \<Rightarrow> [module_artifact TARGET_C C_FUZZ_SOURCE p (p @ ''_fuzz.c'') fuzz]
          | None \<Rightarrow> []))"

definition c_emit :: "'k sink \<Rightarrow> c_lowered_module \<Rightarrow> 'k \<Rightarrow> backend_error + (backend_output \<times> 'k)" where
  "c_emit wr l k =
     rbind (write_artifacts wr (c_artifacts l) k) (\<lambda>(ms, k). Inr (\<lparr>bo_target = TARGET_C, bo_artifacts = ms\<rparr>, k))"

definition c_lower_and_emit :: "hash_order \<Rightarrow> hash_order \<Rightarrow> 'k sink \<Rightarrow> codec_module \<Rightarrow> backend_context \<Rightarrow> 'k
    \<Rightarrow> (backend_error + (backend_output \<times> 'k)) option" where
  "c_lower_and_emit ho ho' wr m ctx k = map_option (\<lambda>r. rbind r (\<lambda>l. c_emit wr l k)) (c_lower ho ho' m ctx)"

record rust_lowered_module =
  rl_source :: string
  rl_prefix :: string

definition rust_lower :: "codec_module \<Rightarrow> backend_context \<Rightarrow> (backend_error + rust_lowered_module) option" where
  "rust_lower m ctx =
     (case bc_target_options ctx of
        RustBackendOptions \<Rightarrow>
          map_option (\<lambda>source. Inr \<lparr>rl_source = source, rl_prefix = bc_module_prefix ctx\<rparr>) (emit_source m (bc_module_prefix ctx))
      | _ \<Rightarrow> Some (Inl (UnsupportedOption TARGET_RUST ''target_options'' ''expected RustBackendOptions'')))"

definition rust_emit :: "'k sink \<Rightarrow> rust_lowered_module \<Rightarrow> 'k \<Rightarrow> backend_error + (backend_output \<times> 'k)" where
  "rust_emit wr l k =
     (let p = rl_prefix l
      in rbind (write_artifacts wr [module_artifact TARGET_RUST RUST_SOURCE p (p @ ''.rs'') (rl_source l)] k)
           (\<lambda>(ms, k). Inr (\<lparr>bo_target = TARGET_RUST, bo_artifacts = ms\<rparr>, k)))"

definition rust_lower_and_emit :: "'k sink \<Rightarrow> codec_module \<Rightarrow> backend_context \<Rightarrow> 'k
    \<Rightarrow> (backend_error + (backend_output \<times> 'k)) option" where
  "rust_lower_and_emit wr m ctx k = map_option (\<lambda>r. rbind r (\<lambda>l. rust_emit wr l k)) (rust_lower m ctx)"

section \<open>The registry\<close>

text \<open>Factories by target, sorted by name; a later registration replaces an earlier one.\<close>

record 'k backend_factory =
  bf_id :: target_id
  bf_create :: "codec_module \<Rightarrow> backend_context \<Rightarrow> 'k \<Rightarrow> (backend_error + (backend_output \<times> 'k)) option"
  bf_default_options :: target_options

type_synonym 'k backend_registry = "(string \<times> 'k backend_factory) list"

definition register_backend :: "'k backend_factory \<Rightarrow> 'k backend_registry \<Rightarrow> 'k backend_registry" where
  "register_backend f reg = AList.update (bf_id f) f reg"

definition get_factory :: "'k backend_registry \<Rightarrow> target_id \<Rightarrow> backend_error + 'k backend_factory" where
  "get_factory reg target =
     (case map_of reg target of Some f \<Rightarrow> Inr f | None \<Rightarrow> Inl (UnsupportedTarget target))"

definition available_targets :: "'k backend_registry \<Rightarrow> target_id list" where
  "available_targets reg = sort (map fst reg)"

definition build_registry :: "hash_order \<Rightarrow> hash_order \<Rightarrow> 'k sink \<Rightarrow> 'k backend_registry" where
  "build_registry ho ho' wr =
     register_backend \<lparr>bf_id = TARGET_RUST, bf_create = rust_lower_and_emit wr, bf_default_options = RustBackendOptions\<rparr>
       (register_backend \<lparr>bf_id = TARGET_C, bf_create = c_lower_and_emit ho ho' wr,
          bf_default_options = CBackendOptions False\<rparr> [])"

section \<open>Facts\<close>

text \<open>Writing to memory keeps every artifact with its length, in the order of the list.\<close>

lemma write_artifacts_memory:
  "write_artifacts memory_write as k =
     Inr (map (\<lambda>a. \<lparr>am_kind = af_kind a, am_relative_path = af_relative_path a, am_byte_len = length (af_contents a)\<rparr>) as,
       k @ map (\<lambda>a. (\<lparr>am_kind = af_kind a, am_relative_path = af_relative_path a, am_byte_len = length (af_contents a)\<rparr>, af_contents a)) as)"
  by (induction as arbitrary: k) (simp_all add: memory_write_def)

lemma build_registry_targets: "available_targets (build_registry ho ho' wr) = [''c'', ''rust'']"
  by (simp add: available_targets_def build_registry_def register_backend_def TARGET_C_def TARGET_RUST_def)

lemma get_factory_iff:
  "(\<exists>f. get_factory (build_registry ho ho' wr) t = Inr f) \<longleftrightarrow> t \<in> {''c'', ''rust''}"
  by (auto simp: get_factory_def build_registry_def register_backend_def TARGET_C_def TARGET_RUST_def)

text \<open>Both backends know the algorithms of the catalogue and no other.\<close>

lemma bindings_complete:
  "(\<exists>b. c_binding_for a = Inr b) \<longleftrightarrow> lookup_algorithm a \<noteq> None"
  "(\<exists>b. rust_binding_for a = Inr b) \<longleftrightarrow> lookup_algorithm a \<noteq> None"
  by (auto simp: c_binding_for_def rust_binding_for_def lookup_algorithm_def CATALOG_def Let_def)

end
