(* ===== verification/COrder.thy ===== *)
theory COrder
  imports CHeader Analyzer Driver
begin

text \<open>
  The order in which a C header defines its structures, \<open>emit_types_in_dependency_order\<close> of
  \<open>header.rs\<close>: for every order in which the hash tables are visited the sort ends, names every type of
  the module once and, where the types do not contain each other in a circle, puts every type behind
  the types it contains by value.
\<close>

section \<open>Dependencies\<close>

definition deps_earlier :: "('a \<Rightarrow> 'a list) \<Rightarrow> 'a list \<Rightarrow> bool" where
  "deps_earlier f xs \<longleftrightarrow> (\<forall>i < length xs. set (f (xs ! i)) \<subseteq> set (take i xs))"

lemma deps_earlier_Nil [simp]: "deps_earlier f []"
  by (simp add: deps_earlier_def)

lemma deps_earlier_snoc [simp]:
  "deps_earlier f (xs @ [x]) \<longleftrightarrow> deps_earlier f xs \<and> set (f x) \<subseteq> set xs"
  by (auto simp: deps_earlier_def nth_append less_Suc_eq all_conj_distrib imp_conjR)

definition contains :: "(string \<times> string list \<times> 'a) list \<Rightarrow> (string \<times> string) set" where
  "contains es = {(d, n). d \<in> set (type_deps es n)}"

lemma type_deps_names: "d \<in> set (type_deps es n) \<Longrightarrow> d \<in> set (map fst es) \<and> n \<in> set (map fst es)"
proof -
  assume d: "d \<in> set (type_deps es n)"
  then obtain p where p: "map_of (rev es) n = Some p" by (cases "map_of (rev es) n") (auto simp: type_deps_def)
  then have "n \<in> set (map fst es)" using map_of_SomeD [OF p] by force
  with p d show ?thesis by (cases p) (auto simp: type_deps_def)
qed

lemma type_deps_distinct:
  "(\<And>n refs td. (n, refs, td) \<in> set es \<Longrightarrow> distinct refs) \<Longrightarrow> distinct (type_deps es n)"
  by (auto simp: type_deps_def split: option.splits dest!: map_of_SomeD)

lemma type_entries_distinct: "(n, refs, td) \<in> set (type_entries m) \<Longrightarrow> distinct refs"
  by (auto simp: type_entries_def collect_field_type_refs_def)

section \<open>The sort\<close>

lemma release_is_relax: "(\<And>t. t \<in> set ts \<Longrightarrow> map_of d t \<noteq> None) \<Longrightarrow> release ts d q = relax ts d q"
proof (induction ts d q rule: release.induct)
  case (2 t ts d queue)
  then obtain c where c: "map_of d t = Some c" by (meson list.set_intros(1) option.exhaust)
  with 2 show ?case by (cases c) (simp_all add: update_conv')
qed simp

definition order_inv :: "(string \<times> string list \<times> 'a) list \<Rightarrow> string list \<Rightarrow> degrees \<Rightarrow> string list \<Rightarrow> bool" where
  "order_inv es acc d queue \<longleftrightarrow>
     set (acc @ queue) \<subseteq> set (map fst es) \<and> distinct (acc @ queue)
     \<and> (\<forall>n. map_of d n = (if n \<in> set (map fst es) then Some (card (set (type_deps es n) - set acc)) else None))
     \<and> (\<forall>n \<in> set (map fst es). set (type_deps es n) \<subseteq> set acc \<longleftrightarrow> n \<in> set (acc @ queue))
     \<and> deps_earlier (type_deps es) acc"

lemma order_inv_step:
  assumes ho: "hash_order_ok ho" and inv: "order_inv es acc d (n # queue)"
  shows "\<exists>d' queue'. release (dependents ho es n) d queue = Some (d', queue') \<and> order_inv es (acc @ [n]) d' queue'"
proof -
  let ?N = "set (map fst es)" and ?ts = "dependents ho es n" and ?D = "\<lambda>k. set (type_deps es k)"
  have sub: "set (acc @ n # queue) \<subseteq> ?N" "distinct (acc @ n # queue)" "deps_earlier (type_deps es) acc"
    and d: "\<And>k. map_of d k = (if k \<in> ?N then Some (card (?D k - set acc)) else None)"
    and zero: "\<And>k. k \<in> ?N \<Longrightarrow> ?D k \<subseteq> set acc \<longleftrightarrow> k \<in> set (acc @ n # queue)"
    using inv unfolding order_inv_def by blast+
  have ts: "distinct ?ts" "\<And>k. k \<in> set ?ts \<longleftrightarrow> k \<in> ?N \<and> n \<in> ?D k"
    using hash_order_set [OF ho] by (auto simp: dependents_def graph_names_def)
  have n: "n \<notin> set acc" using sub(2) by auto
  have pos: "map_of d t \<noteq> Some 0" "map_of d t \<noteq> None" if "t \<in> set ?ts" for t
    using that n by (auto simp: d ts(2))
  have rr: "release ?ts d queue = relax ?ts d queue" by (rule release_is_relax) (rule pos(2))
  from relax_spec [OF ts(1) pos(1), of queue] obtain d' where
    r: "release ?ts d queue = Some (d', queue @ filter (\<lambda>t. map_of d t = Some 1) ?ts)" and
    m: "\<And>k. map_of d' k = (if k \<in> set ?ts then map_option (\<lambda>k. k - 1) (map_of d k) else map_of d k)"
    unfolding rr by (auto simp del: One_nat_def)
  let ?new = "filter (\<lambda>t. map_of d t = Some 1) ?ts"
  have diff: "?D k - set (acc @ [n]) = ?D k - set acc - {n}" for k by auto
  have new: "k \<in> set ?new \<longleftrightarrow> k \<in> ?N \<and> ?D k \<subseteq> set (acc @ [n]) \<and> \<not> ?D k \<subseteq> set acc" for k
  proof -
    let ?X = "?D k - set acc"
    have "k \<in> set ?new \<longleftrightarrow> k \<in> ?N \<and> n \<in> ?D k \<and> card ?X = 1" 
      by (cases "k \<in> ?N") (simp_all only: set_filter mem_Collect_eq ts(2) d if_True if_False option.inject simp_thms)
    moreover have "n \<in> ?D k \<and> card ?X = 1 \<longleftrightarrow> ?X = {n}"
    proof
      assume c: "n \<in> ?D k \<and> card ?X = 1"
      then obtain x where x: "?X = {x}" using card_1_singletonE by blast
      have "n \<in> ?X" using c n by simp
      with x show "?X = {n}" by simp
    next
      assume "?X = {n}"
      then show "n \<in> ?D k \<and> card ?X = 1" by auto
    qed
    moreover have "?X = {n} \<longleftrightarrow> ?D k \<subseteq> set (acc @ [n]) \<and> \<not> ?D k \<subseteq> set acc" using n by auto
    ultimately show ?thesis by blast
  qed
  have "order_inv es (acc @ [n]) d' (queue @ ?new)"
    unfolding order_inv_def
  proof (intro conjI allI ballI)
    show "set ((acc @ [n]) @ queue @ ?new) \<subseteq> ?N" using sub(1) new by auto
    have "k \<notin> set ?new" if "k \<in> set (acc @ n # queue)" for k
      using zero [of k] that sub(1) new [of k] by blast
    then show "distinct ((acc @ [n]) @ queue @ ?new)" using sub(2) ts(1) by auto
    show "map_of d' k = (if k \<in> ?N then Some (card (?D k - set (acc @ [n]))) else None)" for k
      using n by (auto simp: m d ts(2) diff card_Diff_singleton_if simp del: set_append)
    show "?D k \<subseteq> set (acc @ [n]) \<longleftrightarrow> k \<in> set ((acc @ [n]) @ queue @ ?new)" if "k \<in> ?N" for k
      using zero [OF that] new [of k] that by auto
    have "?D n \<subseteq> set acc" using zero [of n] sub(1) by simp
    then show "deps_earlier (type_deps es) (acc @ [n])" using sub(3) by simp
  qed
  with r show ?thesis by blast
qed

lemma order_loop_runs:
  "hash_order_ok ho \<Longrightarrow> order_inv es acc d queue \<Longrightarrow>
    \<exists>xs d'. order_loop (dependents ho es) d queue acc = Some xs \<and> order_inv es xs d' []"
proof (induction "dependents ho es" d queue acc rule: order_loop.induct)
  case (1 d acc)
  then show ?case by auto
next
  case (2 d n queue acc)
  from order_inv_step [OF "2.prems"] obtain d' queue' where
    s: "release (dependents ho es n) d queue = Some (d', queue')" "order_inv es (acc @ [n]) d' queue'" by blast
  from "2.hyps" [OF s(1) refl "2.prems"(1) s(2)] s(1) show ?case by simp
qed

lemma order_inv_initial:
  assumes "hash_order_ok ho'" and dd: "\<And>n. distinct (type_deps es n)"
  shows "order_inv es [] (in_degrees es) (filter (\<lambda>n. map_of (in_degrees es) n = Some 0) (ho_names ho' (graph_names es)))"
proof -
  have d: "map_of (in_degrees es) n = (if n \<in> set (map fst es) then Some (card (set (type_deps es n))) else None)" for n
    by (simp add: in_degrees_def map_of_map_restrict restrict_map_def distinct_card [OF dd] graph_names_def)
  show ?thesis using hash_order_set [OF assms(1)] by (auto simp: order_inv_def d graph_names_def)
qed

lemma order_inv_final:
  assumes inv: "order_inv es xs d []" and ac: "acyclic (contains es)"
  shows "set xs = set (map fst es)"
proof (rule ccontr)
  let ?S = "set (map fst es) - set xs"
  assume "set xs \<noteq> set (map fst es)"
  moreover have "set xs \<subseteq> set (map fst es)" using inv by (simp add: order_inv_def)
  ultimately have "?S \<noteq> {}" by blast
  moreover have "\<exists>m \<in> ?S. (m, n) \<in> contains es" if "n \<in> ?S" for n
  proof -
    have "\<not> set (type_deps es n) \<subseteq> set xs" using inv that unfolding order_inv_def append_Nil2 by blast
    then show ?thesis using type_deps_names by (fastforce simp: contains_def)
  qed
  ultimately show False using ac no_source_cyclic [of ?S "contains es"] by auto
qed

lemma type_order_spec:
  assumes "hash_order_ok ho" "hash_order_ok ho'" "\<And>n. distinct (type_deps es n)" "distinct (map fst es)"
  shows "\<exists>order. type_order ho ho' es = Some order \<and> mset order = mset (map fst es)
    \<and> (acyclic (contains es) \<longrightarrow> deps_earlier (type_deps es) order)"
proof -
  from order_loop_runs [OF assms(1) order_inv_initial [OF assms(2,3)]] obtain xs d' where
    xs: "type_order ho ho' es = Some (xs @ filter (\<lambda>n. n \<notin> set xs) (map fst es))" and inv: "order_inv es xs d' []"
    by (auto simp: type_order_def Let_def)
  have "distinct xs" "set xs \<subseteq> set (map fst es)" "deps_earlier (type_deps es) xs" using inv by (simp_all add: order_inv_def)
  moreover from this(1,2) have "mset (xs @ filter (\<lambda>n. n \<notin> set xs) (map fst es)) = mset (map fst es)"
    using assms(4) by (subst set_eq_iff_mset_eq_distinct [symmetric]) auto
  moreover have "filter (\<lambda>n. n \<notin> set xs) (map fst es) = []" if "acyclic (contains es)"
    using order_inv_final [OF inv that] by (simp add: filter_empty_conv)
  ultimately show ?thesis using xs by auto
qed


lemma map_of_rev_distinct: "distinct (map fst xs) \<Longrightarrow> map_of (rev xs) = map_of xs"
  by (rule map_of_eqI) (auto simp: rev_map [symmetric])

text \<open>C34. The structures of a C header are written in one of the orders of the module's packets, frames and
  capsules that name each exactly once, whatever the order in which the hash tables are visited; where the
  types do not contain each other in a circle, every type stands behind all types of the module it contains.\<close>

theorem c_types_in_order:
  assumes "hash_order_ok ho" "hash_order_ok ho'" "distinct (map fst (type_entries m))"
  shows "\<exists>order. emit_types_in_dependency_order ho ho' m prefix =
        Some (concat (map (\<lambda>n. emit_type_def prefix (snd (the (map_of (type_entries m) n)))) order))
    \<and> mset order = mset (map fst (type_entries m))
    \<and> (acyclic (contains (type_entries m)) \<longrightarrow> deps_earlier (type_deps (type_entries m)) order)"
proof -
  let ?es = "type_entries m"
  have dd: "distinct (type_deps ?es n)" for n by (rule type_deps_distinct) (rule type_entries_distinct)
  obtain order where o: "type_order ho ho' ?es = Some order" "mset order = mset (map fst ?es)"
      "acyclic (contains ?es) \<longrightarrow> deps_earlier (type_deps ?es) order"
    using type_order_spec [OF assms(1,2) dd assms(3)] by blast
  have "(case map_of ?es n of Some (refs, td) \<Rightarrow> emit_type_def prefix td | None \<Rightarrow> [])
      = emit_type_def prefix (snd (the (map_of ?es n)))" if "n \<in> set order" for n
  proof -
    have "n \<in> set (map fst ?es)" using that mset_eq_setD [OF o(2)] by simp
    then obtain p where "map_of ?es n = Some p" by (metis domIff dom_map_of_conv_image_fst list.set_map option.exhaust)
    then show ?thesis by (cases p) simp
  qed
  then have texts: "map (\<lambda>n. case map_of ?es n of Some (refs, td) \<Rightarrow> emit_type_def prefix td | None \<Rightarrow> []) order
      = map (\<lambda>n. emit_type_def prefix (snd (the (map_of ?es n)))) order" by (rule map_cong [OF refl])
  show ?thesis
    by (rule exI [of _ order])
      (simp only: o emit_types_in_dependency_order_def Let_def map_of_rev_distinct [OF assms(3)] option.map texts simp_thms, rule o(3))
qed

text \<open>The orders of two packets that do not contain each other are both possible, so that the header of one
  module differs between two runs of the compiler.\<close>

definition pair_source :: string where
  "pair_source = ''packet Outer { p: Left, q: Right } packet Left { a: u8 } packet Right { b: u16 }''"

lemma pair_orders:
  "case compile_module insertion_order pair_source Phase2StrictV1_0 [] Map.empty of
     Inr m \<Rightarrow> map (\<lambda>(n, refs, td). (n, refs)) (type_entries m) = [(''Outer'', [''Left'', ''Right'']), (''Left'', []), (''Right'', [])]
       \<and> type_order insertion_order insertion_order (type_entries m) = Some [''Left'', ''Right'', ''Outer'']
       \<and> type_order insertion_order reversed_order (type_entries m) = Some [''Right'', ''Left'', ''Outer'']
   | Inl e \<Rightarrow> False"
  by code_simp

definition pair_module :: codec_module where
  "pair_module = projr (compile_module insertion_order pair_source Phase2StrictV1_0 [] Map.empty)"

lemma pair_entries: "map (\<lambda>(n, refs, td). (n, refs)) (type_entries pair_module) = [(''Outer'', [''Left'', ''Right'']), (''Left'', []), (''Right'', [])]"
  using pair_orders by (auto simp: pair_module_def split: sum.splits)

lemma pair_names: "map fst (type_entries pair_module) = [''Outer'', ''Left'', ''Right'']"
  using arg_cong [OF pair_entries, of "map fst"] by (simp add: o_def case_prod_beta)

lemma header_order_varies:
  "type_order insertion_order insertion_order (type_entries pair_module) \<noteq>
   type_order insertion_order reversed_order (type_entries pair_module)"
  using pair_orders by (auto simp: pair_module_def split: sum.splits)

lemma type_deps_refs: "type_deps es n =
    (case map_of (rev (map (\<lambda>(n, refs, td). (n, refs)) es)) n of
       Some refs \<Rightarrow> filter (\<lambda>r. r \<in> set (map fst (map (\<lambda>(n, refs, td). (n, refs)) es))) refs | None \<Rightarrow> [])"
proof -
  have "map_of (map (\<lambda>(n, refs, td). (n, refs)) xs) n = map_option fst (map_of xs n)" for xs :: "(string \<times> string list \<times> 'a) list"
    by (induction xs) auto
  then show ?thesis by (simp add: type_deps_def rev_map o_def case_prod_beta split: option.splits)
qed

lemma pair_acyclic: "acyclic (contains (type_entries pair_module))"
  by (rule rank_acyclic [of _ "\<lambda>n. if n = ''Outer'' then 1 else 0"])
    (auto simp: contains_def type_deps_refs pair_entries split: if_splits)

theorem c_types_in_order_witness:
  "\<exists>order. emit_types_in_dependency_order reversed_order insertion_order pair_module ''p'' =
        Some (concat (map (\<lambda>n. emit_type_def ''p'' (snd (the (map_of (type_entries pair_module) n)))) order))
    \<and> mset order = mset [''Outer'', ''Left'', ''Right''] \<and> deps_earlier (type_deps (type_entries pair_module)) order"
  using c_types_in_order [OF reversed_order_ok insertion_order_ok, of pair_module "''p''"] pair_acyclic
  unfolding pair_names by auto

end
