(* ===== verification/Tla.thy ===== *)
theory Tla
  imports Delegation RustMachine
begin

text \<open>
  The TLA+ specification of a state machine, \<open>crates/wirespec-backend-tlaplus/src\<close>: \<open>emit.rs\<close> and
  \<open>generate_tlaplus\<close> of \<open>lib.rs\<close>. The state is one record variable \<open>sm\<close> with a tag and the fields of all
  states; a field that the state does not have is \<open>NullVal\<close>. A child machine is the tag of its state.
  \<open>None\<close> stands for a failed \<open>expect\<close>.
\<close>

section \<open>Children\<close>

record child_info =
  ci_field_name :: string
  ci_child_sm :: semantic_state_machine
  ci_is_array :: bool
  ci_array_count :: "u32 option"

definition array_shape :: "semantic_type \<Rightarrow> bool \<times> u32 option" where
  "array_shape ty =
     (case ty of
        Array t c w \<Rightarrow> (True, case c of Some (SLiteral (SLInt n)) \<Rightarrow> Some (word_of_int n) | _ \<Rightarrow> None)
      | _ \<Rightarrow> (False, None))"

definition child_info_of :: "semantic_state_machine list \<Rightarrow> semantic_state_field \<Rightarrow> child_info option" where
  "child_info_of all_sms f =
     Option.bind (stf_child_sm_name f) (\<lambda>n.
       map_option (\<lambda>c. \<lparr>ci_field_name = stf_name f, ci_child_sm = c, ci_is_array = fst (array_shape (stf_ty f)),
           ci_array_count = snd (array_shape (stf_ty f))\<rparr>)
         (List.find (\<lambda>s. ssm_name s = n) all_sms))"

text \<open>A field name counts once, by its first occurrence with a child.\<close>

fun child_loop :: "semantic_state_machine list \<Rightarrow> string set \<Rightarrow> semantic_state_field list \<Rightarrow> child_info list" where
  "child_loop all_sms seen [] = []"
| "child_loop all_sms seen (f # fs) =
     (if stf_child_sm_name f = None then child_loop all_sms seen fs
      else if stf_name f \<in> seen then child_loop all_sms seen fs
      else (case child_info_of all_sms f of Some c \<Rightarrow> [c] | None \<Rightarrow> []) @ child_loop all_sms (insert (stf_name f) seen) fs)"

definition resolve_child_sms :: "semantic_state_machine \<Rightarrow> semantic_state_machine list \<Rightarrow> child_info list" where
  "resolve_child_sms sm all_sms = child_loop all_sms {} (concat (map sst_fields (ssm_states sm)))"

definition find_child :: "child_info list \<Rightarrow> string \<Rightarrow> child_info option" where
  "find_child children name = List.find (\<lambda>c. ci_field_name c = name) children"

definition array_count_text :: "child_info \<Rightarrow> string" where
  "array_count_text c = (case ci_array_count c of Some n \<Rightarrow> dec n | None \<Rightarrow> ''0'')"

definition initial_state_of :: "semantic_state_machine \<Rightarrow> semantic_state option" where
  "initial_state_of sm = List.find (\<lambda>s. sst_state_id s = ssm_initial_state_id sm) (ssm_states sm)"

section \<open>Expressions\<close>

definition tla_pascal_case :: "string \<Rightarrow> string" where
  "tla_pascal_case s = concat (map capitalize (split_char (CHR ''_'') s))"

fun literal_to_tla :: "semantic_literal \<Rightarrow> string" where
  "literal_to_tla (SLInt v) = show_int v"
| "literal_to_tla (SLBool b) = (if b then ''TRUE'' else ''FALSE'')"
| "literal_to_tla (SLString s) = (quo @ s @ quo)"
| "literal_to_tla SLNull = ''NullVal''"

definition tla_binary_op :: "string \<Rightarrow> string" where
  "tla_binary_op op =
     (if op = ''=='' then ''='' else if op = ''!='' then ''/='' else if op = ''and'' then (''/'' @ [CHR 0x5C])
      else if op = ''or'' then ([CHR 0x5C] @ ''/'') else op)"

definition tla_unary :: "string \<Rightarrow> string \<Rightarrow> string" where
  "tla_unary op v =
     (if op = ''not'' \<or> op = ''!'' then (''~('' @ v @ '')'') else if op = ''<>'' then (''<>('' @ v @ '')'') else if op = ''[]'' then (''[]('' @
       v @ '')'')
      else (op @ v))"

definition peer_ref_to_tla :: "transition_peer_ref \<Rightarrow> string" where
  "peer_ref_to_tla r =
     (let prefix = (case pr_peer r of Src \<Rightarrow> ''sm'' | Dst \<Rightarrow> (''sm'' @ apo) | EventParam \<Rightarrow> [])
      in if pr_path r = [] then prefix
         else if prefix = [] then join_with ''.'' (pr_path r)
         else (prefix @ ''.'' @ join_with ''.'' (pr_path r)))"

fun expr_to_tla :: "semantic_expr \<Rightarrow> string" where
  "expr_to_tla (SLiteral v) = literal_to_tla v"
| "expr_to_tla (SBinary op l r) = (''('' @ expr_to_tla l @ '' '' @ tla_binary_op op @ '' '' @ expr_to_tla r @ '')'')"
| "expr_to_tla (SUnary op e) = tla_unary op (expr_to_tla e)"
| "expr_to_tla (STransitionPeerRef r) = peer_ref_to_tla r"
| "expr_to_tla (SValueRef r) = vr_value_id r"
| "expr_to_tla (SInState e sm_id mname state_id state_name) =
     (let field_ref = expr_to_tla e
      in if take 3 field_ref = ''sm.'' \<and> field_ref \<noteq> ''sm'' then (field_ref @ '' = '' @ quo @ state_name @ quo)
         else (''sm.tag = '' @ quo @ state_name @ quo))"
| "expr_to_tla (SCoalesce e d) =
     (let e_str = expr_to_tla e in (''IF '' @ e_str @ '' /= NullVal THEN '' @ e_str @ '' ELSE '' @ expr_to_tla d))"
| "expr_to_tla (SSubscript b i) = (expr_to_tla b @ ''['' @ expr_to_tla i @ '']'')"
| "expr_to_tla (SStateConstructor sm_id mname state_id state_name args) =
     (if args = [] then (''Mk'' @ state_name) else (''Mk'' @ state_name @ ''('' @ join_with '', '' (map expr_to_tla args) @ '')''))"
| "expr_to_tla (SFill v c) = (''[i '' @ [CHR 0x5C] @ ''in 1..'' @ expr_to_tla c @ '' |-> '' @ expr_to_tla v @ '']'')"
| "expr_to_tla (SSlice b s e) = (''SubSeq('' @ expr_to_tla b @ '', '' @ expr_to_tla s @ '' + 1, '' @ expr_to_tla e @ '')'')"
| "expr_to_tla (SAll c sm_id mname state_id state_name) =
     (let c_str = expr_to_tla c in ([CHR 0x5C] @ ''A idx '' @ [CHR 0x5C] @ ''in DOMAIN '' @ c_str @ '' : '' @ c_str @ ''[idx].tag = '' @ quo @
       state_name @ quo))"

definition tla_compare_op :: "string \<Rightarrow> string" where
  "tla_compare_op op = (if op = ''=='' then ''='' else if op = ''!='' then ''/='' else op)"

fun verify_formula_to_tla :: "semantic_verify_formula \<Rightarrow> string" where
  "verify_formula_to_tla (SVInState state_name) = (''sm.tag = '' @ quo @ state_name @ quo)"
| "verify_formula_to_tla (SVNot f) = (''~('' @ verify_formula_to_tla f @ '')'')"
| "verify_formula_to_tla (SVAnd f g) = (''('' @ verify_formula_to_tla f @ '' /'' @ [CHR 0x5C] @ '' '' @ verify_formula_to_tla g @ '')'')"
| "verify_formula_to_tla (SVOr f g) = (''('' @ verify_formula_to_tla f @ '' '' @ [CHR 0x5C] @ ''/ '' @ verify_formula_to_tla g @ '')'')"
| "verify_formula_to_tla (SVImplies f g) = (''('' @ verify_formula_to_tla f @ '' => '' @ verify_formula_to_tla g @ '')'')"
| "verify_formula_to_tla (SVAlways f) = (''[]('' @ verify_formula_to_tla f @ '')'')"
| "verify_formula_to_tla (SVEventually f) = (''<>('' @ verify_formula_to_tla f @ '')'')"
| "verify_formula_to_tla (SVLeadsTo f g) = (''('' @ verify_formula_to_tla f @ '') ~> ('' @ verify_formula_to_tla g @ '')'')"
| "verify_formula_to_tla (SVFieldRef field_name) = (''sm.'' @ field_name)"
| "verify_formula_to_tla (SVLiteral v) = show_int v"
| "verify_formula_to_tla (SVBoolLiteral b) = (if b then ''TRUE'' else ''FALSE'')"
| "verify_formula_to_tla (SVCompare f op g) = (''('' @ verify_formula_to_tla f @ '' '' @ tla_compare_op op @ '' '' @ verify_formula_to_tla g @ '')'')"

section \<open>Fields and domains\<close>

text \<open>The fields of all states, each name once; the type of a child field is a marker.\<close>

definition field_type :: "child_info list \<Rightarrow> semantic_state_field \<Rightarrow> semantic_type" where
  "field_type children f =
     (case find_child children (stf_name f) of
        Some c \<Rightarrow>
          let cname = ssm_name (ci_child_sm c)
          in if ci_is_array c
             then PacketRef (''child_sm_array_tag:'' @ cname @ '':'' @ array_count_text c) cname
             else PacketRef (''child_sm_tag:'' @ cname) cname
      | None \<Rightarrow> stf_ty f)"

fun field_loop :: "child_info list \<Rightarrow> string set \<Rightarrow> semantic_state_field list \<Rightarrow> (string \<times> semantic_type) list" where
  "field_loop children seen [] = []"
| "field_loop children seen (f # fs) =
     (if stf_name f \<in> seen then field_loop children seen fs
      else (stf_name f, field_type children f) # field_loop children (insert (stf_name f) seen) fs)"

definition collect_all_fields :: "semantic_state_machine \<Rightarrow> child_info list \<Rightarrow> (string \<times> semantic_type) list" where
  "collect_all_fields sm children = field_loop children {} (concat (map sst_fields (ssm_states sm)))"

fun needs_bounded_nat :: "semantic_type \<Rightarrow> bool" where
  "needs_bounded_nat (Primitive w e) = (w \<in> {U8, U16, U24, U32, U64})"
| "needs_bounded_nat (Bytes k n e) = False"
| "needs_bounded_nat _ = True"

fun needs_bounded_int :: "semantic_type \<Rightarrow> bool" where
  "needs_bounded_int (Primitive w e) = (w \<in> {I8, I16, I32, I64})"
| "needs_bounded_int _ = False"

fun sym_bytes_size :: "semantic_type \<Rightarrow> u64 option" where
  "sym_bytes_size (Bytes k n e) = Some (case n of Some m \<Rightarrow> m | None \<Rightarrow> 8)"
| "sym_bytes_size _ = None"

definition emit_value_domains :: "(string \<times> semantic_type) list \<Rightarrow> string" where
  "emit_value_domains flds =
     (let nat_dom = list_ex (\<lambda>(n, ty). needs_bounded_nat ty) flds;
          int_dom = list_ex (\<lambda>(n, ty). needs_bounded_int ty) flds;
          sizes = sort (remdups (List.map_filter (\<lambda>(n, ty). sym_bytes_size ty) flds))
      in (if nat_dom then (''BoundedNat == 0..(Bound - 1)'' @ nl) else []) @
         (if int_dom then (''BoundedInt == -(Bound - 1)..(Bound - 1)'' @ nl) else []) @
         concat (map (\<lambda>n. (''SymBytes'' @ dec n @ '' == {'' @ quo @ ''sym_bytes'' @ dec n @ ''_'' @ quo @ '' '' @ [CHR 0x5C] @
           ''o ToString(i) : i '' @ [CHR 0x5C] @ ''in 0..(Bound - 1)}'' @ nl)) sizes) @
         (if nat_dom \<or> int_dom \<or> sizes \<noteq> [] then nl else []))"

fun type_to_tla_domain :: "semantic_type \<Rightarrow> string" where
  "type_to_tla_domain (Primitive w e) =
     (if w = Bool then ''BOOLEAN'' else if w \<in> {I8, I16, I32, I64} then ''BoundedInt'' else ''BoundedNat'')"
| "type_to_tla_domain (Bytes k n e) = (''SymBytes'' @ dec (case n of Some m \<Rightarrow> m | None \<Rightarrow> 8))"
| "type_to_tla_domain _ = ''BoundedNat''"

definition type_ok_line :: "child_info list \<Rightarrow> string \<times> semantic_type \<Rightarrow> string" where
  "type_ok_line children nt =
     (case nt of (name, ty) \<Rightarrow>
       (case find_child children name of
          Some c \<Rightarrow>
            let tag_set = (ssm_name (ci_child_sm c) @ ''StateTag'')
            in if ci_is_array c
               then (''    /'' @ [CHR 0x5C] @ '' (sm.'' @ name @ '' = NullVal '' @ [CHR 0x5C] @ ''/ '' @ [CHR 0x5C] @ ''A i '' @ [CHR 0x5C] @
                 ''in DOMAIN sm.'' @ name @ '' : sm.'' @ name @ ''[i] '' @ [CHR 0x5C] @ ''in '' @ tag_set @ '')'' @ nl)
               else (''    /'' @ [CHR 0x5C] @ '' sm.'' @ name @ '' '' @ [CHR 0x5C] @ ''in '' @ tag_set @ '' '' @ [CHR 0x5C] @ ''cup {NullVal}'' @ nl)
        | None \<Rightarrow> (''    /'' @ [CHR 0x5C] @ '' sm.'' @ name @ '' '' @ [CHR 0x5C] @ ''in '' @ type_to_tla_domain ty @ '' '' @ [CHR 0x5C] @
          ''cup {NullVal}'' @ nl)))"

definition emit_type_ok :: "(string \<times> semantic_type) list \<Rightarrow> child_info list \<Rightarrow> string" where
  "emit_type_ok flds children =
     (''TypeOK =='' @ nl @ ''    /'' @ [CHR 0x5C] @ '' sm.tag '' @ [CHR 0x5C] @ ''in StateTag'' @ nl) @ concat (map (type_ok_line children) flds) @
       nl"

section \<open>States\<close>

text \<open>The fields that a state's constructor takes as arguments.\<close>

definition unbound_fields :: "child_info list \<Rightarrow> semantic_state \<Rightarrow> semantic_state_field list" where
  "unbound_fields children s =
     filter (\<lambda>f. stf_default_value f = None \<and> find_child children (stf_name f) = None) (sst_fields s)"

definition find_state_field :: "semantic_state \<Rightarrow> string \<Rightarrow> semantic_state_field option" where
  "find_state_field s fname = List.find (\<lambda>f. stf_name f = fname) (sst_fields s)"

definition mk_part :: "child_info list \<Rightarrow> semantic_state \<Rightarrow> string \<Rightarrow> string" where
  "mk_part children s fname =
     (case find_child children fname of
        Some c \<Rightarrow>
          let child_initial = (case initial_state_of (ci_child_sm c) of Some st \<Rightarrow> sst_name st | None \<Rightarrow> ''UNKNOWN'')
          in if find_state_field s fname = None then (fname @ '' |-> NullVal'')
             else if ci_is_array c
             then (fname @ '' |-> [i '' @ [CHR 0x5C] @ ''in 1..'' @ array_count_text c @ '' |-> '' @ quo @ child_initial @ quo @ '']'')
             else (fname @ '' |-> '' @ quo @ child_initial @ quo)
      | None \<Rightarrow>
          (case find_state_field s fname of
             Some f \<Rightarrow> (case stf_default_value f of Some d \<Rightarrow> (fname @ '' |-> '' @
               literal_to_tla d) | None \<Rightarrow> (fname @ '' |-> '' @ fname @ ''_v''))
           | None \<Rightarrow> (fname @ '' |-> NullVal'')))"

definition mk_helper :: "(string \<times> semantic_type) list \<Rightarrow> child_info list \<Rightarrow> semantic_state \<Rightarrow> string" where
  "mk_helper all_fields children s =
     (let params = map (\<lambda>f. (stf_name f @ ''_v'')) (unbound_fields children s)
      in (''Mk'' @ sst_name s) @ (if params = [] then [] else (''('' @ join_with '', '' params @ '')'')) @ ('' =='' @ nl) @
         ''    ['' @ join_with '', '' ((''tag |-> '' @ quo @ sst_name s @ quo) # map (\<lambda>(fname, ty). mk_part children s fname) all_fields) @
           ('']'' @ nl @ nl))"

definition emit_mk_helpers :: "semantic_state_machine \<Rightarrow> (string \<times> semantic_type) list \<Rightarrow> child_info list \<Rightarrow> string" where
  "emit_mk_helpers sm all_fields children = concat (map (mk_helper all_fields children) (ssm_states sm))"

definition emit_init :: "semantic_state_machine \<Rightarrow> child_info list \<Rightarrow> string option" where
  "emit_init sm children =
     map_option (\<lambda>s.
         let flds = unbound_fields children s
         in (''Init =='' @ nl) @
            (if flds = [] then (''    sm = Mk'' @ sst_name s @ nl @ nl)
             else (''    sm '' @ [CHR 0x5C] @ ''in {Mk'' @ sst_name s @ ''('') @ join_with '', '' (map (\<lambda>f. (stf_name f @ ''_v'')) flds) @
               ('') : '') @
               join_with '', '' (map (\<lambda>f. (stf_name f @ ''_v '' @ [CHR 0x5C] @ ''in '' @ type_to_tla_domain (stf_ty f))) flds) @ (''}'' @
                 nl @ nl)))
       (initial_state_of sm)"

section \<open>Groups of transitions\<close>

text \<open>Transitions of one state on one event are one action; groups in the order of their first member.\<close>

record transition_group =
  gr_indices :: "nat list"
  gr_action_name :: string

fun add_to_group :: "string \<times> string \<Rightarrow> nat \<Rightarrow> ((string \<times> string) \<times> nat list) list \<Rightarrow> ((string \<times> string) \<times> nat list) list" where
  "add_to_group key i [] = [(key, [i])]"
| "add_to_group key i ((k, is) # gs) = (if k = key then (k, is @ [i]) # gs else (k, is) # add_to_group key i gs)"

definition group_key_of :: "semantic_transition \<Rightarrow> string \<times> string" where
  "group_key_of t = (str_src_state_name t, str_event_name t)"

definition keyed_groups :: "semantic_transition list \<Rightarrow> ((string \<times> string) \<times> nat list) list" where
  "keyed_groups ts = fold (\<lambda>(i, t) gs. add_to_group (group_key_of t) i gs) (enumerate 0 ts) []"

definition group_name :: "((string \<times> string) \<times> nat list) list \<Rightarrow> string \<times> string \<Rightarrow> string" where
  "group_name gs key =
     (case key of (src, event) \<Rightarrow>
       let event_pascal = tla_pascal_case event
       in if length (filter (\<lambda>g. snd (fst g) = event) gs) > 1 then (event_pascal @ ''From'' @ src) else event_pascal)"

fun name_groups :: "((string \<times> string) \<times> nat list) list \<Rightarrow> string list \<Rightarrow> ((string \<times> string) \<times> nat list) list
    \<Rightarrow> transition_group list" where
  "name_groups all seen [] = []"
| "name_groups all seen ((key, is) # gs) =
     (let action_name = group_name all key;
          final_name = (if action_name \<in> set seen then (action_name @ ''_'' @ show_nat (hd is)) else action_name)
      in \<lparr>gr_indices = is, gr_action_name = final_name\<rparr> # name_groups all (seen @ [final_name]) gs)"

definition compute_transition_groups :: "semantic_state_machine \<Rightarrow> transition_group list" where
  "compute_transition_groups sm =
     (let gs = keyed_groups (ssm_transitions sm) in name_groups gs [] gs)"

section \<open>Delegation\<close>

definition dispatch_case :: "semantic_state_machine \<Rightarrow> semantic_transition \<Rightarrow> string option" where
  "dispatch_case sm t =
     map_option (\<lambda>i. (''child_state = '' @ quo @ str_src_state_name t @ quo @ '' /'' @ [CHR 0x5C] @ '' ev = '' @ show_nat i @ '' -> '' @
       quo @ str_dst_state_name t @ quo))
       (position (\<lambda>e. sev_event_id e = str_event_id t) (ssm_events sm))"

definition emit_child_dispatch :: "child_info \<Rightarrow> string option" where
  "emit_child_dispatch c =
     (let sm = ci_child_sm c
      in map_option (\<lambda>cases.
           ([CHR 0x5C] @ ''* Dispatch operator for child SM '' @ ssm_name sm @ nl) @
           (ssm_name sm @ ''Dispatch(child_state, ev) =='' @ nl) @
           (case cases of
              [] \<Rightarrow> (''    '' @ quo @ ''INVALID'' @ quo @ nl @ nl)
            | x # xs \<Rightarrow>
                (''    CASE '' @ x @ nl) @ concat (map (\<lambda>y. (''      [] '' @ y @ nl)) xs) @ (''      [] OTHER -> '' @ quo @ ''INVALID'' @
                  quo @ nl @ nl)))
         (those (map (dispatch_case sm) (ssm_transitions sm))))"

fun extract_delegate_index :: "semantic_expr \<Rightarrow> semantic_expr option" where
  "extract_delegate_index (SSubscript b i) = Some i"
| "extract_delegate_index _ = None"

definition delegate_action :: "semantic_transition \<Rightarrow> semantic_delegate \<Rightarrow> string \<Rightarrow> child_info \<Rightarrow> string \<Rightarrow> string" where
  "delegate_action t d fname c action_name =
     (let cname = ssm_name (ci_child_sm c)
      in ([CHR 0x5C] @ ''* delegate transition '' @ str_src_state_name t @ '' -> '' @ str_dst_state_name t @ '' { on '' @ str_event_name t @ '' }'' @
        nl) @
         (action_name @ '' =='' @ nl) @
         (''    /'' @ [CHR 0x5C] @ '' sm.tag = '' @ quo @ str_src_state_name t @ quo @ nl) @
         (if ci_is_array c then
            let idx_var = (case extract_delegate_index (sdg_target d) of Some ie \<Rightarrow> expr_to_tla ie | None \<Rightarrow> ''idx'')
            in (''    /'' @ [CHR 0x5C] @ '' '' @ [CHR 0x5C] @ ''E '' @ idx_var @ '' '' @ [CHR 0x5C] @ ''in 1..Len(sm.'' @ fname @ ''), ev '' @
              [CHR 0x5C] @ ''in BoundedNat:'' @ nl) @
               (''        /'' @ [CHR 0x5C] @ '' LET new_child == '' @ cname @ ''Dispatch(sm.'' @ fname @ ''['' @ idx_var @ ''], ev)'' @ nl) @
               (''           IN /'' @ [CHR 0x5C] @ '' new_child /= '' @ quo @ ''INVALID'' @ quo @ nl) @
               (''              /'' @ [CHR 0x5C] @ '' LET new_'' @ fname @ '' == [sm.'' @ fname @ '' EXCEPT !['' @ idx_var @ ''] = new_child]'' @
                 nl) @
               (''                 IN sm'' @ apo @ '' = [sm EXCEPT !.'' @ fname @ '' = new_'' @ fname @ '']'' @ nl)
          else
            (''    /'' @ [CHR 0x5C] @ '' '' @ [CHR 0x5C] @ ''E ev '' @ [CHR 0x5C] @ ''in BoundedNat:'' @ nl) @
            (''        /'' @ [CHR 0x5C] @ '' LET new_child == '' @ cname @ ''Dispatch(sm.'' @ fname @ '', ev)'' @ nl) @
            (''           IN /'' @ [CHR 0x5C] @ '' new_child /= '' @ quo @ ''INVALID'' @ quo @ nl) @
            (''              /'' @ [CHR 0x5C] @ '' sm'' @ apo @ '' = [sm EXCEPT !.'' @ fname @ '' = new_child]'' @ nl)) @
         nl)"

section \<open>Transitions\<close>

definition assigns_field :: "string \<Rightarrow> semantic_action \<Rightarrow> bool" where
  "assigns_field fname a =
     (case sac_target a of
        STransitionPeerRef r \<Rightarrow> pr_peer r = Dst \<and> (case pr_path r of p # _ \<Rightarrow> p = fname | [] \<Rightarrow> False)
      | _ \<Rightarrow> False)"

definition actions_override_defaults :: "semantic_state \<Rightarrow> semantic_action list \<Rightarrow> bool" where
  "actions_override_defaults dst actions =
     list_ex (\<lambda>a. case sac_target a of
         STransitionPeerRef r \<Rightarrow>
           pr_peer r = Dst \<and>
           (case pr_path r of
              p # _ \<Rightarrow> (case find_state_field dst p of Some f \<Rightarrow> stf_default_value f \<noteq> None | None \<Rightarrow> False)
            | [] \<Rightarrow> False)
       | _ \<Rightarrow> False) actions"

definition inline_part :: "semantic_state \<Rightarrow> semantic_action list \<Rightarrow> string \<Rightarrow> string" where
  "inline_part dst actions fname =
     (case List.find (assigns_field fname) actions of
        Some a \<Rightarrow> (fname @ '' |-> '' @ expr_to_tla (sac_value a))
      | None \<Rightarrow>
          (case find_state_field dst fname of
             Some f \<Rightarrow> (case stf_default_value f of Some d \<Rightarrow> (fname @ '' |-> '' @
               literal_to_tla d) | None \<Rightarrow> (fname @ '' |-> NullVal''))
           | None \<Rightarrow> (fname @ '' |-> NullVal'')))"

definition build_inline_record :: "semantic_state \<Rightarrow> (string \<times> semantic_type) list \<Rightarrow> semantic_action list \<Rightarrow> string" where
  "build_inline_record dst all_fields actions =
     ''['' @ join_with '', '' ((''tag |-> '' @ quo @ sst_name dst @ quo) # map (\<lambda>(fname, ty). inline_part dst actions fname) all_fields) @
       '']''"

text \<open>The value of an action goes in as it is, whatever the operator of the assignment.\<close>

definition build_mk_args :: "semantic_state \<Rightarrow> semantic_action list \<Rightarrow> string list" where
  "build_mk_args dst actions =
     map (\<lambda>f. case List.find (assigns_field (stf_name f)) actions of
         Some a \<Rightarrow> expr_to_tla (sac_value a) | None \<Rightarrow> ''NullVal'')
       (filter (\<lambda>f. stf_default_value f = None) (sst_fields dst))"

definition emit_dst_state :: "semantic_state_machine \<Rightarrow> semantic_transition \<Rightarrow> string \<Rightarrow> string" where
  "emit_dst_state sm t indent =
     (case List.find (\<lambda>s. sst_name s = str_dst_state_name t) (ssm_states sm) of
        None \<Rightarrow> []
      | Some dst \<Rightarrow>
          if actions_override_defaults dst (str_actions t)
          then (indent @ ''/'' @ [CHR 0x5C] @ '' sm'' @ apo @ '' = '' @ build_inline_record dst (collect_all_fields sm []) (str_actions t) @ nl)
          else let mk_args = build_mk_args dst (str_actions t)
            in if mk_args = [] then (indent @ ''/'' @ [CHR 0x5C] @ '' sm'' @ apo @ '' = Mk'' @ sst_name dst @ nl)
               else (indent @ ''/'' @ [CHR 0x5C] @ '' sm'' @ apo @ '' = Mk'' @ sst_name dst @ ''('' @ join_with '', '' mk_args @ '')'' @ nl))"

definition param_quantifier :: "semantic_event_param list \<Rightarrow> string" where
  "param_quantifier params =
     (if params = [] then []
      else (''    /'' @ [CHR 0x5C] @ '' '' @ [CHR 0x5C] @ ''E '') @ join_with '', '' (map (\<lambda>p. (sep_name p @ '' '' @ [CHR 0x5C] @ ''in '' @
        type_to_tla_domain (sep_ty p))) params) @ ('':'' @ nl))"

definition event_params :: "semantic_state_machine \<Rightarrow> semantic_transition \<Rightarrow> semantic_event_param list" where
  "event_params sm t =
     (case List.find (\<lambda>e. sev_event_id e = str_event_id t) (ssm_events sm) of Some e \<Rightarrow> sev_params e | None \<Rightarrow> [])"

definition plain_action :: "semantic_state_machine \<Rightarrow> semantic_transition \<Rightarrow> string \<Rightarrow> string" where
  "plain_action sm t action_name =
     (let params = event_params sm t; indent = (if params = [] then ''    '' else ''        '')
      in ([CHR 0x5C] @ ''* transition '' @ str_src_state_name t @ '' -> '' @ str_dst_state_name t @ '' { on '' @ str_event_name t @ '' }'' @ nl) @
         (action_name @ '' =='' @ nl) @
         (''    /'' @ [CHR 0x5C] @ '' sm.tag = '' @ quo @ str_src_state_name t @ quo @ nl) @
         param_quantifier params @
         (case str_guard t of Some guard \<Rightarrow> (indent @ ''/'' @ [CHR 0x5C] @ '' '' @ expr_to_tla guard @ nl) | None \<Rightarrow> []) @
         emit_dst_state sm t indent @ nl)"

definition guarded_branch :: "semantic_state_machine \<Rightarrow> string \<Rightarrow> nat \<times> semantic_transition \<Rightarrow> string" where
  "guarded_branch sm base_indent it =
     (case it of (i, t) \<Rightarrow>
       (case str_guard t of
          Some guard \<Rightarrow> (if i = 0 then (base_indent @ ''/'' @ [CHR 0x5C] @ '' '' @ [CHR 0x5C] @ ''/ '') else (base_indent @ ''   '' @
            [CHR 0x5C] @ ''/ '')) @ (''/'' @ [CHR 0x5C] @ '' '' @ expr_to_tla guard @ nl)
        | None \<Rightarrow> []) @
       emit_dst_state sm t (base_indent @ ''      ''))"

definition guarded_action :: "semantic_state_machine \<Rightarrow> semantic_transition list \<Rightarrow> string \<Rightarrow> string" where
  "guarded_action sm ts action_name =
     (let t0 = hd ts; params = event_params sm t0;
          descs = map (\<lambda>t. (str_src_state_name t @ '' -> '' @ str_dst_state_name t)) ts
      in ([CHR 0x5C] @ ''* guarded branches on '' @ str_event_name t0 @ '': '' @ join_with '', '' descs @ nl) @
         (action_name @ '' =='' @ nl) @
         (''    /'' @ [CHR 0x5C] @ '' sm.tag = '' @ quo @ str_src_state_name t0 @ quo @ nl) @
         param_quantifier params @
         concat (map (guarded_branch sm (if params = [] then ''    '' else ''        '')) (enumerate 0 ts)) @ nl)"

definition emit_group :: "semantic_state_machine \<Rightarrow> child_info list \<Rightarrow> transition_group \<Rightarrow> string" where
  "emit_group sm children g =
     (let ts = map (\<lambda>i. ssm_transitions sm ! i) (gr_indices g); t = hd ts
      in if length ts = 1 then
           (case Option.bind (str_delegate t) (\<lambda>d. Option.bind (extract_delegate_child_field (sdg_target d)) (\<lambda>fname.
                   map_option (\<lambda>c. (d, fname, c)) (find_child children fname))) of
              Some (d, fname, c) \<Rightarrow> delegate_action t d fname c (gr_action_name g)
            | None \<Rightarrow> plain_action sm t (gr_action_name g))
         else guarded_action sm ts (gr_action_name g))"

definition emit_transitions :: "semantic_state_machine \<Rightarrow> child_info list \<Rightarrow> string" where
  "emit_transitions sm children = concat (map (emit_group sm children) (compute_transition_groups sm))"

definition emit_next :: "string list \<Rightarrow> string" where
  "emit_next names = ([CHR 0x5C] @ ''* Next-state relation'' @ nl @ ''Next =='' @ nl) @ concat (map (\<lambda>n. (''    '' @ [CHR 0x5C] @ ''/ '' @
    n @ nl)) names) @ nl"

section \<open>Guard exclusivity\<close>

fun guard_pairs :: "string list \<Rightarrow> string list" where
  "guard_pairs [] = []"
| "guard_pairs (g # gs) = map (\<lambda>h. (''~('' @ g @ '' /'' @ [CHR 0x5C] @ '' '' @ h @ '')'')) gs @ guard_pairs gs"

definition exclusivity_name :: "semantic_transition \<Rightarrow> string" where
  "exclusivity_name t = (''GuardExclusive_'' @ str_src_state_name t @ ''_'' @ tla_pascal_case (str_event_name t))"

definition guarded_groups :: "semantic_state_machine \<Rightarrow> semantic_transition list list" where
  "guarded_groups sm =
     map (\<lambda>g. map (\<lambda>i. ssm_transitions sm ! i) (gr_indices g))
       (filter (\<lambda>g. length (gr_indices g) > 1) (compute_transition_groups sm))"

definition exclusivity :: "semantic_transition list \<Rightarrow> string" where
  "exclusivity ts =
     (let t0 = hd ts;
          pairs = guard_pairs (map (\<lambda>t. case str_guard t of Some guard \<Rightarrow> expr_to_tla guard | None \<Rightarrow> ''TRUE'') ts)
      in ([CHR 0x5C] @ ''* Guard exclusivity for '' @ str_event_name t0 @ '' in state '' @ str_src_state_name t0 @ nl) @
         (exclusivity_name t0 @ '' =='' @ nl) @
         (''    sm.tag = '' @ quo @ str_src_state_name t0 @ quo @ '' =>'' @ nl) @
         (if length pairs = 1 then (''        '' @ hd pairs @ nl) else concat (map (\<lambda>p. (''        /'' @ [CHR 0x5C] @ '' '' @ p @
           nl)) pairs)) @ nl)"

definition emit_guard_exclusivity :: "semantic_state_machine \<Rightarrow> string" where
  "emit_guard_exclusivity sm = concat (map exclusivity (guarded_groups sm))"

section \<open>The specification and its configuration\<close>

definition quoted_names :: "string list \<Rightarrow> string" where
  "quoted_names names = join_with '', '' (map (\<lambda>s. (quo @ s @ quo)) names)"

definition has_terminals :: "semantic_state_machine \<Rightarrow> bool" where
  "has_terminals sm \<longleftrightarrow> list_ex sst_is_terminal (ssm_states sm)"

fun is_property :: "semantic_verify_decl \<Rightarrow> bool" where
  "is_property (Property name f) = True"
| "is_property _ = False"

definition wants_no_deadlock :: "semantic_state_machine \<Rightarrow> bool" where
  "wants_no_deadlock sm \<longleftrightarrow> ssm_verify_declarations sm = [] \<or> NoDeadlock \<in> set (ssm_verify_declarations sm)"

definition wants_all_reach_closed :: "semantic_state_machine \<Rightarrow> bool" where
  "wants_all_reach_closed sm \<longleftrightarrow>
     has_terminals sm \<and> (ssm_verify_declarations sm = [] \<or> AllReachClosed \<in> set (ssm_verify_declarations sm))"

definition wants_fairness :: "semantic_state_machine \<Rightarrow> bool" where
  "wants_fairness sm \<longleftrightarrow>
     (if ssm_verify_declarations sm \<noteq> []
      then AllReachClosed \<in> set (ssm_verify_declarations sm) \<or> list_ex is_property (ssm_verify_declarations sm)
      else has_terminals sm)"

fun user_property :: "semantic_verify_decl \<Rightarrow> string" where
  "user_property (Property name f) = ([CHR 0x5C] @ ''* User property: '' @ name @ nl @ name @ '' == '' @ verify_formula_to_tla f @ nl @ nl)"
| "user_property _ = []"

definition emit_spec :: "semantic_state_machine \<Rightarrow> semantic_state_machine list \<Rightarrow> string option" where
  "emit_spec sm all_sms =
     (let children = resolve_child_sms sm all_sms; all_fields = collect_all_fields sm children
      in ocat
          [Some (''---- MODULE '' @ ssm_name sm @ '' ----'' @ nl),
           Some (''EXTENDS Integers, Sequences, TLC'' @ nl @ nl),
           Some ([CHR 0x5C] @ ''* Value domains (bounded for model checking)'' @ nl @ ''CONSTANT Bound'' @ nl @ ''ASSUME Bound '' @ [CHR 0x5C] @
             ''in Nat /'' @ [CHR 0x5C] @ '' Bound > 0'' @ nl @ nl),
           Some (emit_value_domains all_fields),
           Some (''NullVal == '' @ quo @ ''@@null'' @ quo @ nl @ nl),
           Some (concat (map (\<lambda>c. (ssm_name (ci_child_sm c) @ ''StateTag == {'' @ quoted_names (map sst_name (ssm_states (ci_child_sm c))) @
             ''}'' @ nl))
             children)),
           Some (if children \<noteq> [] then nl else []),
           Some (''StateTag == {'' @ quoted_names (map sst_name (ssm_states sm)) @ ''}'' @ nl),
           Some (''TerminalStates == {'' @ quoted_names (map sst_name (filter sst_is_terminal (ssm_states sm))) @ ''}'' @ nl @ nl),
           Some (''VARIABLE sm'' @ nl @ nl),
           Some (emit_type_ok all_fields children),
           Some (emit_mk_helpers sm all_fields children),
           emit_init sm children,
           omap_cat emit_child_dispatch children,
           Some (emit_transitions sm children),
           Some (emit_next (map gr_action_name (compute_transition_groups sm))),
           Some ([CHR 0x5C] @ ''* Specification'' @ nl),
           Some (if wants_fairness sm then (''Spec == Init /'' @ [CHR 0x5C] @ '' [][Next]_sm /'' @ [CHR 0x5C] @ '' WF_sm(Next)'' @ nl @
             nl) else (''Spec == Init /'' @ [CHR 0x5C] @ '' [][Next]_sm'' @ nl @ nl)),
           Some (if wants_no_deadlock sm then
               ([CHR 0x5C] @ ''* NoDeadlock: terminal states or transitions enabled'' @ nl) @
               (''NoDeadlock == sm.tag '' @ [CHR 0x5C] @ ''in TerminalStates '' @ [CHR 0x5C] @ ''/ ENABLED(Next)'' @ nl @ nl) else []),
           Some (emit_guard_exclusivity sm),
           Some (if wants_all_reach_closed sm then
               ([CHR 0x5C] @ ''* AllReachClosed: eventually reach a terminal state'' @ nl) @
               (''AllReachClosed == <>(sm.tag '' @ [CHR 0x5C] @ ''in TerminalStates)'' @ nl @ nl) else []),
           Some (concat (map user_property (ssm_verify_declarations sm))),
           Some (''===='' @ nl)])"

fun property_line :: "semantic_verify_decl \<Rightarrow> string" where
  "property_line (Property name f) = (nl @ ''PROPERTY '' @ name @ nl)"
| "property_line _ = []"

definition emit_config :: "semantic_state_machine \<Rightarrow> u32 \<Rightarrow> string" where
  "emit_config sm bound =
     (''INIT Init'' @ nl @ ''NEXT Next'' @ nl @ ''CONSTANT Bound = '' @ dec bound @ nl @ nl @ ''INVARIANT TypeOK'' @ nl) @
     (if wants_no_deadlock sm then (''INVARIANT NoDeadlock'' @ nl) else []) @
     concat (map (\<lambda>ts. (''INVARIANT '' @ exclusivity_name (hd ts) @ nl)) (guarded_groups sm)) @
     (if wants_all_reach_closed sm then (nl @ ''PROPERTY AllReachClosed'' @ nl) else []) @
     concat (map property_line (ssm_verify_declarations sm))"

record tlaplus_output =
  tla_spec :: string
  tla_config :: string

definition has_nested_delegate :: "semantic_state_machine \<Rightarrow> semantic_state_machine list \<Rightarrow> bool" where
  "has_nested_delegate sm all_sms \<longleftrightarrow>
     list_ex (\<lambda>f. case Option.bind (stf_child_sm_name f) (\<lambda>n. List.find (\<lambda>s. ssm_name s = n) all_sms) of
         Some c \<Rightarrow> list_ex (\<lambda>t. str_delegate t \<noteq> None) (ssm_transitions c)
       | None \<Rightarrow> False) (concat (map sst_fields (ssm_states sm)))"

definition generate_tlaplus :: "semantic_state_machine \<Rightarrow> semantic_state_machine list \<Rightarrow> u32 option
    \<Rightarrow> (string + tlaplus_output) option" where
  "generate_tlaplus sm all_sms cli_bound =
     (if has_nested_delegate sm all_sms then Some (Inl ''nested delegates not supported in TLA+ generation'')
      else let bound = (case cli_bound of Some n \<Rightarrow> n | None \<Rightarrow> (case ssm_verify_bound sm of Some n \<Rightarrow> n | None \<Rightarrow> 3))
        in map_option (\<lambda>spec. Inr \<lparr>tla_spec = spec, tla_config = emit_config sm bound\<rparr>) (emit_spec sm all_sms))"

end
