(* ===== verification/TlaFacts.thy ===== *)
theory TlaFacts
  imports Tla
begin

text \<open>
  The actions of a TLA+ module: \<open>compute_transition_groups\<close> of \<open>emit.rs\<close> makes one action of all
  transitions from one state on one event and gives it a name.
\<close>

section \<open>Groups\<close>

definition first_occurrences :: "'a list \<Rightarrow> 'a list" where
  "first_occurrences xs = rev (remdups (rev xs))"

lemma first_occurrences_snoc:
  "first_occurrences (xs @ [x]) = (if x \<in> set xs then first_occurrences xs else first_occurrences xs @ [x])"
  by (simp add: first_occurrences_def)

lemma first_occurrences_props [simp]:
  "set (first_occurrences xs) = set xs" "distinct (first_occurrences xs)" "first_occurrences [] = []"
  by (simp_all add: first_occurrences_def)

text \<open>The positions at which the list has the value.\<close>

definition positions :: "'a list \<Rightarrow> 'a \<Rightarrow> nat list" where
  "positions ks k = filter (\<lambda>i. ks ! i = k) [0..<length ks]"

lemma positions_snoc: "positions (ks @ [x]) k = positions ks k @ (if x = k then [length ks] else [])"
  by (auto simp: positions_def nth_append intro: filter_cong)

lemma positions_empty: "positions ks k = [] \<longleftrightarrow> k \<notin> set ks"
  by (auto simp: positions_def filter_empty_conv in_set_conv_nth)

lemma hd_positions: "k \<in> set ks \<Longrightarrow> hd (positions ks k) \<in> set (positions ks k)"
  by (metis hd_in_set positions_empty)

lemma add_to_group_spec:
  "distinct (map fst gs) \<Longrightarrow> add_to_group k i gs =
     (if k \<in> set (map fst gs) then map (\<lambda>(k', is). (k', if k' = k then is @ [i] else is)) gs else gs @ [(k, [i])])"
proof (induction gs)
  case (Cons g gs)
  have "map (\<lambda>(k', is). (k', if k' = k then is @ [i] else is)) gs = gs" if "k \<notin> set (map fst gs)"
    using that by (intro map_idI) (auto simp: image_iff)
  with Cons show ?case by (cases g) auto
qed simp

lemma keyed_groups_spec:
  "keyed_groups ts = map (\<lambda>k. (k, positions (map group_key_of ts) k)) (first_occurrences (map group_key_of ts))"
proof (induction ts rule: rev_induct)
  case (snoc t ts)
  let ?ks = "map group_key_of ts" and ?k = "group_key_of t"
  have step: "keyed_groups (ts @ [t]) = add_to_group ?k (length ts) (keyed_groups ts)"
    by (simp add: keyed_groups_def enumerate_append_eq)
  show ?case
    unfolding step snoc.IH
    by (subst add_to_group_spec) (auto simp: o_def first_occurrences_snoc positions_snoc positions_empty)
qed (simp add: keyed_groups_def)

lemma name_groups_indices: "map gr_indices (name_groups all seen gs) = map snd gs"
  by (induction all seen gs rule: name_groups.induct) (simp_all add: Let_def)


section \<open>Names\<close>

definition plain :: "string \<Rightarrow> bool" where
  "plain s \<longleftrightarrow> CHR ''_'' \<notin> set s"

lemma plain_append [simp]: "plain (s @ t) \<longleftrightarrow> plain s \<and> plain t"
  by (simp add: plain_def)

lemma of_char_upper: "is_lower c \<Longrightarrow> (of_char (upper_char c) :: nat) = of_char c - 32"
proof -
  assume l: "is_lower c"
  have "(of_char c :: nat) - 32 < 256" using l unfolding is_lower_def by linarith
  then show ?thesis using l by (simp add: upper_char_def)
qed

lemma upper_char_underscore [simp]: "upper_char c = CHR ''_'' \<longleftrightarrow> c = CHR ''_''" "CHR ''_'' = upper_char c \<longleftrightarrow> c = CHR ''_''"
proof -
  have "upper_char c \<noteq> CHR ''_''" if l: "is_lower c"
  proof
    assume "upper_char c = CHR ''_''"
    then have "of_char c - 32 = (95 :: nat)" using of_char_upper [OF l] by simp
    then show False using l unfolding is_lower_def by linarith
  qed
  then show "upper_char c = CHR ''_'' \<longleftrightarrow> c = CHR ''_''" by (auto simp: upper_char_def is_lower_def)
  then show "CHR ''_'' = upper_char c \<longleftrightarrow> c = CHR ''_''" by metis
qed

lemma split_char_plain: "w \<in> set (split_char c s) \<Longrightarrow> c \<notin> set w"
  by (induction c s arbitrary: w rule: split_char.induct) (auto split: if_splits list.splits)

lemma capitalize_plain: "plain (capitalize w) \<longleftrightarrow> plain w"
  by (cases w) (auto simp: plain_def)

lemma tla_pascal_plain: "plain (tla_pascal_case s)"
  using split_char_plain capitalize_plain by (fastforce simp: tla_pascal_case_def plain_def)

lemma show_nat_plain: "plain (show_nat n)"
proof (induction n rule: show_nat.induct)
  case (1 n)
  have d: "plain [digit k]" if "k < 10" for k
  proof -
    have "of_char (digit k) \<noteq> (of_char (CHR ''_'') :: nat)" using that by (simp add: digit_def)
    then have "digit k \<noteq> CHR ''_''" by metis
    then show ?thesis by (auto simp: plain_def)
  qed
  show ?case by (subst show_nat.simps) (use 1 d in auto)
qed

lemma numbered_inj:
  assumes "plain s" "plain t" "s @ ''_'' @ show_nat i = t @ ''_'' @ show_nat j"
  shows "i = j"
proof -
  have "s = takeWhile (\<lambda>c. c \<noteq> CHR ''_'') (s @ ''_'' @ show_nat i)" "t = takeWhile (\<lambda>c. c \<noteq> CHR ''_'') (t @ ''_'' @ show_nat j)"
    using assms(1,2) by (auto simp: plain_def takeWhile_append)
  then have "s = t" using assms(3) by metis
  then show ?thesis using assms(3) by (simp add: show_nat_inj)
qed

lemma name_groups_distinct:
  assumes "\<And>g. g \<in> set gs \<Longrightarrow> plain (group_name all (fst g))" "distinct (map (\<lambda>g. hd (snd g)) gs)"
    and "\<And>s i. s @ ''_'' @ show_nat i \<in> set seen \<Longrightarrow> plain s \<Longrightarrow> i \<notin> set (map (\<lambda>g. hd (snd g)) gs)"
  shows "distinct (map gr_action_name (name_groups all seen gs))
    \<and> set (map gr_action_name (name_groups all seen gs)) \<inter> set seen = {}"
  using assms
proof (induction all seen gs rule: name_groups.induct)
  case (2 all seen key "is" gs)
  let ?a = "group_name all key"
  define f where "f = (if ?a \<in> set seen then ?a @ ''_'' @ show_nat (hd is) else ?a)"
  have a: "plain ?a" using "2.prems"(1) [of "(key, is)"] by simp
  have f: "f \<notin> set seen" using "2.prems"(3) [of ?a "hd is"] a by (auto simp: f_def)
  have shape: "i = hd is" if "s @ ''_'' @ show_nat i = f" "plain s" for s i
  proof (cases "?a \<in> set seen")
    case True
    then show ?thesis using that a numbered_inj [of s ?a i "hd is"] by (simp add: f_def)
  next
    case False
    then have "plain (s @ ''_'' @ show_nat i)" using that a by (simp add: f_def)
    then show ?thesis by (simp add: plain_def)
  qed
  have "distinct (map gr_action_name (name_groups all (seen @ [f]) gs))
    \<and> set (map gr_action_name (name_groups all (seen @ [f]) gs)) \<inter> set (seen @ [f]) = {}"
  proof (rule "2.IH" [OF refl f_def])
    show "\<And>g. g \<in> set gs \<Longrightarrow> plain (group_name all (fst g))" using "2.prems"(1) by simp
    show "distinct (map (\<lambda>g. hd (snd g)) gs)" using "2.prems"(2) by simp
    show "i \<notin> set (map (\<lambda>g. hd (snd g)) gs)" if "s @ ''_'' @ show_nat i \<in> set (seen @ [f])" "plain s" for s i
    proof (cases "s @ ''_'' @ show_nat i = f")
      case True
      then show ?thesis using shape [OF True that(2)] "2.prems"(2) by simp
    next
      case False
      then have "s @ ''_'' @ show_nat i \<in> set seen" using that(1) by simp
      from "2.prems"(3) [OF this that(2)] show ?thesis by simp
    qed
  qed
  then show ?case using f by (auto simp: Let_def f_def [symmetric])
qed simp

lemma group_name_plain: "plain (fst key) \<Longrightarrow> plain (group_name gs key)"
  by (cases key) (simp add: group_name_def Let_def tla_pascal_plain, simp add: plain_def)

text \<open>C36. Where no name of a state has an underscore, no two actions of a TLA+ module have the same name.\<close>

theorem tla_action_names_distinct:
  assumes "\<And>t. t \<in> set (ssm_transitions sm) \<Longrightarrow> CHR ''_'' \<notin> set (str_src_state_name t)"
  shows "distinct (map gr_action_name (compute_transition_groups sm))"
proof -
  let ?ks = "map group_key_of (ssm_transitions sm)" and ?gs = "keyed_groups (ssm_transitions sm)"
  have "plain (group_name ?gs (fst g))" if "g \<in> set ?gs" for g
  proof -
    have "fst g \<in> set ?ks" using that by (auto simp: keyed_groups_spec)
    then have "plain (fst (fst g))" using assms by (auto simp: group_key_of_def plain_def)
    then show ?thesis by (rule group_name_plain)
  qed
  moreover have "distinct (map (\<lambda>g. hd (snd g)) ?gs)"
  proof -
    have "?ks ! hd (positions ?ks k) = k" if "k \<in> set ?ks" for k
      using hd_positions [OF that] by (simp add: positions_def)
    then have "inj_on (\<lambda>k. hd (positions ?ks k)) (set ?ks)" by (intro inj_on_inverseI [of _ "\<lambda>i. ?ks ! i"]) simp
    then have "distinct (map (\<lambda>k. hd (positions ?ks k)) (first_occurrences ?ks))" by (simp add: distinct_map)
    then show ?thesis unfolding keyed_groups_spec map_map o_def snd_conv .
  qed
  ultimately show ?thesis using name_groups_distinct [of ?gs ?gs "[]"] by (simp add: compute_transition_groups_def Let_def)
qed


definition edge :: "string \<Rightarrow> string \<Rightarrow> semantic_transition" where
  "edge src ev =
     \<lparr>str_transition_id = [], str_src_state_id = src, str_src_state_name = src, str_dst_state_id = src, str_dst_state_name = src,
      str_event_id = ev, str_event_name = ev, str_guard = None, str_actions = [], str_delegate = None, str_span = None\<rparr>"

definition machine_of :: "semantic_transition list \<Rightarrow> semantic_state_machine" where
  "machine_of ts =
     \<lparr>ssm_sm_id = ''sm:M'', ssm_name = ''M'', ssm_derive_traits = [], ssm_states = [], ssm_events = [],
      ssm_initial_state_id = [], ssm_transitions = ts, ssm_has_child_state_changed = False, ssm_verify_bound = None,
      ssm_verify_declarations = [], ssm_span = None\<rparr>"

definition open_close :: semantic_state_machine where
  "open_close = machine_of [edge ''A'' ''open_it'', edge ''B'' ''open_it'', edge ''A'' ''openIt'', edge ''B'' ''openIt'', edge ''A'' ''open_it'']"

lemma open_close_groups:
  "map (\<lambda>g. (gr_action_name g, gr_indices g)) (compute_transition_groups open_close) =
     [(''OpenItFromA'', [0, 4]), (''OpenItFromB'', [1]), (''OpenItFromA_2'', [2]), (''OpenItFromB_3'', [3])]"
  by code_simp

lemma tla_action_names_distinct_witness:
  "distinct (map gr_action_name (compute_transition_groups open_close))"
  by (rule tla_action_names_distinct) (auto simp: open_close_def machine_of_def edge_def)

text \<open>With underscores in the names of states, the name made to avoid a clash can be that of another action.\<close>

lemma tla_action_names_clash:
  "map gr_action_name (compute_transition_groups (machine_of [edge ''A_3'' ''ev'', edge ''A'' ''ev'', edge ''B'' ''Ev'', edge ''A'' ''Ev'']))
     = [''EvFromA_3'', ''EvFromA'', ''EvFromB'', ''EvFromA_3'']"
  by code_simp

end
