(* ===== verification/StrOps.thy ===== *)
theory StrOps
  imports Text Lexer
begin

text \<open>
  What the language server and the command line use of Rust's string type: parts of a text, searching,
  trimming, lines and words. A text is the list of its bytes, so that the characters of the code are the
  groups of a leading byte and its continuation bytes. Taking a part that is out of range or cuts a
  character in two panics, here \<open>None\<close>.
\<close>

section \<open>Texts\<close>

definition is_continuation :: "char \<Rightarrow> bool" where
  "is_continuation c \<longleftrightarrow> 128 \<le> (of_char c :: nat) \<and> (of_char c :: nat) < 192"

definition char_boundary :: "string \<Rightarrow> nat \<Rightarrow> bool" where
  "char_boundary s i \<longleftrightarrow> i \<le> length s \<and> (i < length s \<longrightarrow> \<not> is_continuation (s ! i))"

definition slice :: "string \<Rightarrow> nat \<Rightarrow> nat \<Rightarrow> string option" where
  "slice s i j = (if i \<le> j \<and> char_boundary s i \<and> char_boundary s j then Some (take (j - i) (drop i s)) else None)"

fun find_str :: "string \<Rightarrow> string \<Rightarrow> nat option" where
  "find_str w [] = (if w = [] then Some 0 else None)"
| "find_str w (c # s) = (if take (length w) (c # s) = w then Some 0 else map_option Suc (find_str w s))"

definition rfind_char :: "char \<Rightarrow> string \<Rightarrow> nat option" where
  "rfind_char c s = map_option (\<lambda>i. length s - 1 - i) (position (\<lambda>x. x = c) (rev s))"

text \<open>The length of the white-space character at the head of a text, zero if there is none.\<close>

fun blank_length :: "string \<Rightarrow> nat" where
  "blank_length (a # b # c # s) =
     (let x = byte a; y = byte b; z = byte c
      in if 9 \<le> x \<and> x \<le> 13 \<or> x = 32 then 1
         else if x = 0xC2 \<and> (y = 0x85 \<or> y = 0xA0) then 2
         else if x = 0xE1 \<and> y = 0x9A \<and> z = 0x80 \<or>
           x = 0xE2 \<and> y = 0x80 \<and> (0x80 \<le> z \<and> z \<le> 0x8A \<or> z = 0xA8 \<or> z = 0xA9 \<or> z = 0xAF) \<or>
           x = 0xE2 \<and> y = 0x81 \<and> z = 0x9F \<or> x = 0xE3 \<and> y = 0x80 \<and> z = 0x80 then 3
         else 0)"
| "blank_length [a, b] =
     (let x = byte a; y = byte b
      in if 9 \<le> x \<and> x \<le> 13 \<or> x = 32 then 1 else if x = 0xC2 \<and> (y = 0x85 \<or> y = 0xA0) then 2 else 0)"
| "blank_length [a] = (let x = byte a in if 9 \<le> x \<and> x \<le> 13 \<or> x = 32 then 1 else 0)"
| "blank_length [] = 0"

lemma blank_length_le: "blank_length s \<le> length s"
  by (cases s rule: blank_length.cases) (auto simp: Let_def)

function trim_start :: "string \<Rightarrow> string" where
  "trim_start s = (if blank_length s = 0 then s else trim_start (drop (blank_length s) s))"
  by pat_completeness auto
termination
proof (relation "measure length", goal_cases)
  case (2 s)
  then show ?case using blank_length_le [of s] by (cases s) auto
qed simp

declare trim_start.simps [simp del]

text \<open>The white-space character at the end of a text ends at its last byte.\<close>

definition blank_suffix :: "string \<Rightarrow> nat" where
  "blank_suffix s =
     (case List.find (\<lambda>k. k \<le> length s \<and> blank_length (drop (length s - k) s) = k) [1, 2, 3] of Some k \<Rightarrow> k | None \<Rightarrow> 0)"

lemma blank_suffix_le: "blank_suffix s \<le> length s"
  by (auto simp: blank_suffix_def find_Some_iff split: option.splits)

function trim_end :: "string \<Rightarrow> string" where
  "trim_end s = (if blank_suffix s = 0 then s else trim_end (take (length s - blank_suffix s) s))"
  by pat_completeness auto
termination
proof (relation "measure length", goal_cases)
  case (2 s)
  then show ?case using blank_suffix_le [of s] by simp
qed simp

declare trim_end.simps [simp del]

definition ends_with :: "string \<Rightarrow> string \<Rightarrow> bool" where
  "ends_with s w \<longleftrightarrow> length w \<le> length s \<and> drop (length s - length w) s = w"

definition starts_with :: "string \<Rightarrow> string \<Rightarrow> bool" where
  "starts_with s w \<longleftrightarrow> take (length w) s = w"

definition word_char :: "char \<Rightarrow> bool" where
  "word_char c \<longleftrightarrow> is_upper c \<or> is_lower c \<or> is_num c \<or> c = CHR ''_''"

section \<open>Lines and words\<close>

definition strip_prefix :: "string \<Rightarrow> string \<Rightarrow> string option" where
  "strip_prefix w s = (if starts_with s w then Some (drop (length w) s) else None)"

definition strip_cr :: "string \<Rightarrow> string" where
  "strip_cr s = (if ends_with s [CHR 0x0D] then butlast s else s)"

text \<open>\<open>str::lines\<close>: a line feed ends a line, with a carriage return before it, and there is no empty last line.\<close>

definition lines_of :: "string \<Rightarrow> string list" where
  "lines_of s =
     (let parts = split_char (CHR 0x0A) s
      in map strip_cr (butlast parts) @ (if last parts = [] then [] else [last parts]))"

definition contains_str :: "string \<Rightarrow> string \<Rightarrow> bool" where
  "contains_str s w \<longleftrightarrow> find_str w s \<noteq> None"

definition trim :: "string \<Rightarrow> string" where
  "trim s = trim_start (trim_end s)"

text \<open>\<open>split_whitespace\<close>: the words between white space, \<open>w\<close> being the one at work.\<close>

function split_blanks :: "string \<Rightarrow> string \<Rightarrow> string list" where
  "split_blanks w [] = (if w = [] then [] else [w])"
| "split_blanks w (c # s) =
     (case blank_length (c # s) of
        0 \<Rightarrow> split_blanks (w @ [c]) s
      | Suc n \<Rightarrow> (if w = [] then [] else [w]) @ split_blanks [] (drop n s))"
  by pat_completeness auto
termination
  by (relation "measure (\<lambda>(w, s). length s)") auto

definition split_whitespace :: "string \<Rightarrow> string list" where
  "split_whitespace s = split_blanks [] s"

text \<open>\<open>trim_start_matches\<close>, \<open>trim_end_matches\<close> and \<open>replace\<close> of a text that is not empty.\<close>

function trim_start_matches :: "string \<Rightarrow> string \<Rightarrow> string" where
  "trim_start_matches w s = (if w \<noteq> [] \<and> starts_with s w then trim_start_matches w (drop (length w) s) else s)"
  by pat_completeness auto
termination
proof (relation "measure (\<lambda>(w, s). length s)", goal_cases)
  case (2 w s)
  then have "s \<noteq> []" by (auto simp: starts_with_def)
  then show ?case using 2 by simp
qed simp

declare trim_start_matches.simps [simp del]

definition trim_end_matches :: "string \<Rightarrow> string \<Rightarrow> string" where
  "trim_end_matches w s = rev (trim_start_matches (rev w) (rev s))"

fun replace_all_from :: "nat \<Rightarrow> string \<Rightarrow> string \<Rightarrow> string \<Rightarrow> string" where
  "replace_all_from skip pat rep [] = []"
| "replace_all_from (Suc n) pat rep (c # s) = replace_all_from n pat rep s"
| "replace_all_from 0 pat rep (c # s) =
     (if starts_with (c # s) pat then rep @ replace_all_from (length pat - 1) pat rep s else c # replace_all_from 0 pat rep s)"

end
