(* ===== verification/LspPosition.thy ===== *)
theory LspPosition
  imports Analyzer Parser StrOps
begin

text \<open>
  Positions of the language server, \<open>position.rs\<close> of \<open>crates/wirespec-lsp/src\<close>: between offsets in bytes and
  zero-based lines and columns in bytes. A source is the list of its bytes, so that the characters of the
  code are the groups of a leading byte and its continuation bytes. A panic is \<open>None\<close>.
\<close>

section \<open>Positions\<close>

record position =
  po_line :: u32
  po_character :: u32

record range =
  rg_start :: position
  rg_end :: position

definition offset_to_position :: "string \<Rightarrow> usize \<Rightarrow> position" where
  "offset_to_position source off =
     (case offset_to_line_col source off of
        (line, col) \<Rightarrow> \<lparr>po_line = of_nat (line - 1), po_character = of_nat (col - 1)\<rparr>)"

definition span_to_range :: "string \<Rightarrow> span \<Rightarrow> range" where
  "span_to_range source s =
     \<lparr>rg_start = offset_to_position source (unat (offset s)),
      rg_end = offset_to_position source (min (unat (offset s + len s)) (length source))\<rparr>"

text \<open>\<open>i\<close> is the index of the first byte of the rest, \<open>start\<close> the index where line \<open>line\<close> starts.\<close>

fun position_loop :: "nat \<Rightarrow> nat \<Rightarrow> nat \<Rightarrow> nat \<Rightarrow> nat \<Rightarrow> string \<Rightarrow> nat option" where
  "position_loop lno cno line start i [] = None"
| "position_loop lno cno line start i (c # s) =
     (if is_continuation c then position_loop lno cno line start (Suc i) s
      else if line = lno \<and> cno \<le> i - start then Some i
      else if is_newline c then position_loop lno cno (Suc line) (Suc i) (Suc i) s
      else position_loop lno cno line start (Suc i) s)"

definition position_to_offset :: "string \<Rightarrow> position \<Rightarrow> usize" where
  "position_to_offset source p =
     (case position_loop (unat (po_line p)) (unat (po_character p)) 0 0 0 source of
        Some i \<Rightarrow> i | None \<Rightarrow> length source)"

definition word_at_offset :: "string \<Rightarrow> usize \<Rightarrow> (usize \<times> usize \<times> string) option" where
  "word_at_offset source off =
     (if length source < off then None
      else let start = off - length (takeWhile word_char (rev (take off source)));
               stop = off + length (takeWhile word_char (drop off source))
           in map_option (\<lambda>w. (start, stop, w)) (slice source start stop))"

section \<open>Offsets and positions correspond\<close>

definition line_of :: "string \<Rightarrow> nat \<Rightarrow> nat" where
  "line_of s i = length (filter is_newline (take i s))"

definition column_of :: "string \<Rightarrow> nat \<Rightarrow> nat" where
  "column_of s i = length (takeWhile (\<lambda>c. \<not> is_newline c) (rev (take i s)))"

lemma line_of_Suc: "i < length s \<Longrightarrow> line_of s (Suc i) = (if is_newline (s ! i) then Suc (line_of s i) else line_of s i)"
  by (simp add: line_of_def take_Suc_conv_app_nth)

lemma column_of_Suc: "i < length s \<Longrightarrow> column_of s (Suc i) = (if is_newline (s ! i) then 0 else Suc (column_of s i))"
  by (simp add: column_of_def take_Suc_conv_app_nth)

lemma column_of_le: "column_of s i \<le> i"
  unfolding column_of_def by (metis length_rev length_take length_takeWhile_le min.cobounded2 order_trans)

lemma position_takeWhile: "position p xs = (if \<exists>x \<in> set xs. p x then Some (length (takeWhile (\<lambda>x. \<not> p x) xs)) else None)"
  by (induction xs) auto

lemma line_col_eq: "off \<le> length s \<Longrightarrow> offset_to_line_col s off = (Suc (line_of s off), Suc (column_of s off))"
proof -
  assume off: "off \<le> length s"
  let ?b = "take off s"
  have c: "column_of s off < off" if "\<exists>x \<in> set ?b. is_newline x"
  proof -
    have "takeWhile (\<lambda>c. \<not> is_newline c) (rev ?b) \<noteq> rev ?b" using that by (auto simp: takeWhile_eq_all_conv)
    then have "length (takeWhile (\<lambda>c. \<not> is_newline c) (rev ?b)) \<noteq> length ?b"
      by (metis length_rev take_all_iff order_refl takeWhile_eq_take)
    then show ?thesis using off length_takeWhile_le [of "\<lambda>c. \<not> is_newline c" "rev ?b"] by (simp add: column_of_def)
  qed
  have "column_of s off = off" if "\<not> (\<exists>x \<in> set ?b. is_newline x)"
  proof -
    have "takeWhile (\<lambda>c. \<not> is_newline c) (rev ?b) = rev ?b" using that by (simp add: takeWhile_eq_all_conv)
    then show ?thesis unfolding column_of_def using off by (metis length_rev length_take min.absorb2)
  qed
  note all = this
  show ?thesis
  proof (cases "\<exists>x \<in> set ?b. is_newline x")
    case True
    with c [OF True] off show ?thesis
      by (simp add: offset_to_line_col_def Let_def rfind_newline_def position_takeWhile line_of_def column_of_def [symmetric])
  next
    case False
    with all [OF False] off show ?thesis
      by (simp add: offset_to_line_col_def Let_def rfind_newline_def position_takeWhile line_of_def)
  qed
qed

lemma line_of_mono: "i \<le> j \<Longrightarrow> line_of s i \<le> line_of s j"
proof -
  assume "i \<le> j"
  then have "take j s = take i s @ take (j - i) (drop i s)" by (metis le_add_diff_inverse take_add)
  then show ?thesis by (simp add: line_of_def)
qed

lemma same_line: "i \<le> j \<Longrightarrow> j \<le> length s \<Longrightarrow> line_of s i = line_of s j \<Longrightarrow> column_of s j = column_of s i + (j - i)"
proof (induction j)
  case (Suc j)
  show ?case
  proof (cases "i = Suc j")
    case False
    then have i: "i \<le> j" using Suc.prems(1) by simp
    have "line_of s i \<le> line_of s j" "line_of s j \<le> line_of s (Suc j)" using i by (simp_all add: line_of_mono)
    then have "line_of s i = line_of s j" "line_of s (Suc j) = line_of s j" using Suc.prems(3) by simp_all
    with Suc i show ?thesis by (auto simp: line_of_Suc column_of_Suc split: if_splits)
  qed simp
qed simp

lemma position_loop_finds:
  assumes "off \<le> length s" "char_boundary s off"
  shows "i \<le> off \<Longrightarrow> position_loop (line_of s off) (column_of s off) (line_of s i) (i - column_of s i) i (drop i s)
    = (if off < length s then Some off else None)"
proof (induction "off - i" arbitrary: i)
  case 0
  then have i: "i = off" by simp
  show ?case
  proof (cases "off < length s")
    case True
    then have "drop i s = s ! off # drop (Suc off) s" by (simp add: i Cons_nth_drop_Suc)
    then show ?thesis using True assms(2) column_of_le [of s off] by (simp add: i char_boundary_def)
  qed (use assms(1) i in simp)
next
  case (Suc k)
  then have i: "i < off" "i < length s" using assms(1) by simp_all
  then have d: "drop i s = s ! i # drop (Suc i) s" by (simp add: Cons_nth_drop_Suc)
  have stay: "\<not> (line_of s i = line_of s off \<and> column_of s off \<le> i - (i - column_of s i))"
    using same_line [of i off s] i assms(1) column_of_le [of s i] by auto
  have "position_loop (line_of s off) (column_of s off) (line_of s (Suc i)) (Suc i - column_of s (Suc i)) (Suc i) (drop (Suc i) s)
      = (if off < length s then Some off else None)"
    using Suc.hyps(2) i by (intro Suc.hyps(1)) simp_all
  moreover have "is_newline c \<Longrightarrow> \<not> is_continuation c" for c by (auto simp: is_newline_def is_continuation_def)
  ultimately show ?case using stay i column_of_le [of s i]
    by (auto simp: d line_of_Suc column_of_Suc)
qed

text \<open>C38. The language server's two conversions agree: the position of an offset, taken back, is the offset, for every
  offset at which a character starts or the source ends, in sources below 4 GiB.\<close>

theorem position_round_trip:
  assumes "char_boundary source off" "length source < 2 ^ 32"
  shows "position_to_offset source (offset_to_position source off) = off"
proof -
  have off: "off \<le> length source" using assms(1) by (simp add: char_boundary_def)
  have "line_of source off \<le> length source"
    unfolding line_of_def by (metis length_filter_le length_take min.bounded_iff)
  moreover have "column_of source off \<le> length source" using column_of_le off order_trans by blast
  ultimately have u: "unat (of_nat (line_of source off) :: u32) = line_of source off"
      "unat (of_nat (column_of source off) :: u32) = column_of source off"
    using assms(2) by (simp_all add: unat_of_nat)
  have "position_loop (line_of source off) (column_of source off) 0 0 0 source = (if off < length source then Some off else None)"
    using position_loop_finds [OF off assms(1), of 0] by (simp add: line_of_def column_of_def)
  then show ?thesis using off by (simp add: position_to_offset_def offset_to_position_def line_col_eq u)
qed

lemma position_round_trip_witness:
  "offset_to_position (''ab'' @ [CHR 0x0A, CHR 0xC3, CHR 0xA4, CHR ''x'']) 5 = \<lparr>po_line = 1, po_character = 2\<rparr>
    \<and> position_to_offset (''ab'' @ [CHR 0x0A, CHR 0xC3, CHR 0xA4, CHR ''x'']) \<lparr>po_line = 1, po_character = 2\<rparr> = 5"
proof -
  let ?s = "''ab'' @ [CHR 0x0A, CHR 0xC3, CHR 0xA4, CHR ''x'']"
  have p: "offset_to_position ?s 5 = \<lparr>po_line = 1, po_character = 2\<rparr>" by code_simp
  have "char_boundary ?s 5" by code_simp
  from position_round_trip [OF this] p show ?thesis by simp
qed

end
