(* ===== verification/LspTokens.thy ===== *)
theory LspTokens
  imports LspPosition
begin

text \<open>
  Colouring of sources, \<open>semantic_tokens.rs\<close> of \<open>crates/wirespec-lsp/src\<close>: tokens are collected from the
  comments of the text and from the syntax tree, sorted by offset, and each is encoded relative to the one
  before. \<open>None\<close> is a panic, where a part of the text out of range is taken.
\<close>

section \<open>Tokens\<close>

datatype token_type = TtKeyword | TtType | TtProperty | TtVariable | TtNumber | TtString | TtComment | TtDecorator
  | TtEnum | TtEnumMember

definition legend :: "token_type list" where
  "legend = [TtKeyword, TtType, TtProperty, TtVariable, TtNumber, TtString, TtComment, TtDecorator, TtEnum, TtEnumMember]"

fun token_index :: "token_type \<Rightarrow> u32" where
  "token_index TtKeyword = 0"
| "token_index TtType = 1"
| "token_index TtProperty = 2"
| "token_index TtVariable = 3"
| "token_index TtNumber = 4"
| "token_index TtString = 5"
| "token_index TtComment = 6"
| "token_index TtDecorator = 7"
| "token_index TtEnum = 8"
| "token_index TtEnumMember = 9"

lemma token_index_legend: "legend ! unat (token_index t) = t"
  by (cases t) (simp_all add: legend_def)

record raw_token =
  rt_offset :: usize
  rt_length :: usize
  rt_type :: token_type

abbreviation raw :: "usize \<Rightarrow> usize \<Rightarrow> token_type \<Rightarrow> raw_token" where
  "raw off n ty \<equiv> \<lparr>rt_offset = off, rt_length = n, rt_type = ty\<rparr>"

text \<open>A word found or not, after a search that may panic.\<close>

definition mark :: "string \<Rightarrow> token_type \<Rightarrow> usize option option \<Rightarrow> raw_token list option" where
  "mark word ty r = map_option (\<lambda>found. case found of Some off \<Rightarrow> [raw off (length word) ty] | None \<Rightarrow> []) r"

text \<open>Tokens are pushed one after the other; a panic anywhere is a panic of the whole.\<close>

definition gather :: "'a list option list \<Rightarrow> 'a list option" where
  "gather ps = map_option concat (those ps)"

section \<open>Searching\<close>

definition bounded_at :: "string \<Rightarrow> nat \<Rightarrow> nat \<Rightarrow> bool" where
  "bounded_at s a b \<longleftrightarrow> (a = 0 \<or> \<not> word_char (s ! (a - 1))) \<and> (length s \<le> b \<or> \<not> word_char (s ! b))"

function whole_word :: "string \<Rightarrow> string \<Rightarrow> nat \<Rightarrow> usize option option" where
  "whole_word s w i =
     (case slice s i (length s) of
        None \<Rightarrow> None
      | Some rest \<Rightarrow>
          (case find_str w rest of
             None \<Rightarrow> Some None
           | Some p \<Rightarrow> if bounded_at s (i + p) (i + p + length w) then Some (Some (i + p)) else whole_word s w (i + p + 1)))"
  by pat_completeness auto
termination
  by (relation "measure (\<lambda>(s, w, i). Suc (length s) - i)") (auto simp: slice_def char_boundary_def split: if_splits)

declare whole_word.simps [simp del]

definition span_text :: "string \<Rightarrow> span \<Rightarrow> string option" where
  "span_text source s = slice source (unat (offset s)) (min (unat (span_end s)) (length source))"

definition find_word_in_span :: "string \<Rightarrow> span \<Rightarrow> string \<Rightarrow> usize option option" where
  "find_word_in_span source s w =
     Option.bind (span_text source s) (\<lambda>t. map_option (map_option (\<lambda>i. unat (offset s) + i)) (whole_word t w 0))"

definition find_word_at_start_of_span :: "string \<Rightarrow> span \<Rightarrow> string \<Rightarrow> usize option option" where
  "find_word_at_start_of_span source s w =
     map_option (\<lambda>t.
       let prefix = takeWhile (\<lambda>c. c \<noteq> CHR '':'') t
       in case find_str w prefix of
            None \<Rightarrow> None
          | Some p \<Rightarrow> if bounded_at prefix p (p + length w) then Some (unat (offset s) + p) else None)
       (span_text source s)"

definition find_word_after :: "string \<Rightarrow> usize \<Rightarrow> string \<Rightarrow> usize option option" where
  "find_word_after source after w =
     Option.bind (slice source after (length source)) (\<lambda>t. map_option (map_option (\<lambda>i. after + i)) (whole_word t w 0))"

definition find_char_in_span :: "string \<Rightarrow> span \<Rightarrow> char \<Rightarrow> usize option option" where
  "find_char_in_span source s c =
     map_option (\<lambda>t. map_option (\<lambda>i. unat (offset s) + i) (position (\<lambda>x. x = c) t)) (span_text source s)"

definition emit_keyword_at_start :: "string \<Rightarrow> span \<Rightarrow> string \<Rightarrow> raw_token list option" where
  "emit_keyword_at_start source s keyword =
     (let start = unat (offset s); stop = unat (span_end s)
      in if length source < stop then Some []
         else map_option (\<lambda>t.
           let trimmed = trim_start t
           in if starts_with trimmed keyword then [raw (start + (length t - length trimmed)) (length keyword) TtKeyword] else [])
           (slice source start stop))"

section \<open>Comments and annotations\<close>

text \<open>The rest of a string literal, behind the opening quote; a backslash hides the byte after it.\<close>

fun skip_literal :: "string \<Rightarrow> string" where
  "skip_literal [] = []"
| "skip_literal (c # s) =
     (if c = CHR 0x22 then s
      else if c = CHR 0x5C then (case s of [] \<Rightarrow> [] | d # s' \<Rightarrow> skip_literal s')
      else skip_literal s)"

lemma skip_literal_length: "length (skip_literal s) \<le> length s"
proof (induction s rule: skip_literal.induct)
  case (2 c s)
  then show ?case by (cases s) (auto simp: le_SucI)
qed simp

text \<open>\<open>n\<close> is the length of the source and \<open>s\<close> what is left of it.\<close>

function collect_comments :: "nat \<Rightarrow> string \<Rightarrow> raw_token list" where
  "collect_comments n [] = []"
| "collect_comments n (c # s) =
     (if c = CHR ''#'' \<or> c = CHR ''/'' \<and> s \<noteq> [] \<and> hd s = CHR ''/''
      then let rest = dropWhile (\<lambda>x. \<not> is_newline x) (c # s)
           in raw (n - Suc (length s)) (Suc (length s) - length rest) TtComment # collect_comments n rest
      else if c = CHR 0x22 then collect_comments n (skip_literal s)
      else collect_comments n s)"
  by pat_completeness auto
termination
proof (relation "measure (\<lambda>(n, s). length s)", goal_cases)
  case (2 n c s x)
  then have "\<not> is_newline c" by (auto simp: is_newline_def)
  then show ?case using 2 length_dropWhile_le [of "\<lambda>x. \<not> is_newline x" s] by simp
next
  case (3 n c s)
  show ?case using skip_literal_length [of s] by simp
qed simp_all

definition collect_annotation :: "ast_annotation \<Rightarrow> raw_token list" where
  "collect_annotation a =
     (case an_span a of Some s \<Rightarrow> [raw (unat (offset s)) (unat (len s)) TtDecorator] | None \<Rightarrow> [])"

definition collect_annotations :: "ast_annotation list \<Rightarrow> raw_token list" where
  "collect_annotations as = concat (map collect_annotation as)"

section \<open>Types\<close>

definition in_span :: "string \<Rightarrow> span option \<Rightarrow> string \<Rightarrow> token_type \<Rightarrow> raw_token list option" where
  "in_span source sp w ty =
     (case sp of Some s \<Rightarrow> mark w ty (find_word_in_span source s w) | None \<Rightarrow> Some [])"

definition keyword_in :: "string \<Rightarrow> span option \<Rightarrow> string \<Rightarrow> raw_token list option" where
  "keyword_in source sp w = (case sp of Some s \<Rightarrow> emit_keyword_at_start source s w | None \<Rightarrow> Some [])"

text \<open>The \<open>fill\<close> of an array type, in the text of its span.\<close>

definition fill_keyword :: "string \<Rightarrow> span \<Rightarrow> raw_token list option" where
  "fill_keyword source s =
     Option.bind (slice source (unat (offset s)) (unat (span_end s))) (\<lambda>t.
       if find_str ''fill'' t \<noteq> None then mark ''fill'' TtKeyword (find_word_in_span source s ''fill'') else Some [])"

fun collect_type_expr :: "string \<Rightarrow> ast_type_expr \<Rightarrow> raw_token list option"
and collect_branch_type :: "string \<Rightarrow> ast_match_branch \<Rightarrow> raw_token list option" where
  "collect_type_expr source (TNamed n sp) = in_span source sp n TtType"
| "collect_type_expr source (TMatch f bs sp) =
     gather (keyword_in source sp ''match'' # map (collect_branch_type source) bs)"
| "collect_type_expr source (TArray t c w sp) =
     gather [case sp of Some s \<Rightarrow> fill_keyword source s | None \<Rightarrow> Some [], collect_type_expr source t]"
| "collect_type_expr source (TOptional e t sp) = gather [keyword_in source sp ''if'', collect_type_expr source t]"
| "collect_type_expr source (TBytes k n e sp) = in_span source sp ''bytes'' TtType"
| "collect_type_expr source (TBits w sp) =
     gather [in_span source sp ''bits'' TtType, in_span source sp (dec w) TtNumber]"
| "collect_type_expr source (TAsn1 n e l sp) = in_span source sp n TtType"
| "collect_branch_type source (MatchBranch p t sp) = collect_type_expr source t"

section \<open>Fields\<close>

definition collect_field_def :: "string \<Rightarrow> ast_field_def \<Rightarrow> raw_token list option" where
  "collect_field_def source f =
     gather [Some (collect_annotations (fd_annotations f)),
       case fd_span f of
         Some s \<Rightarrow> gather [mark (fd_name f) TtProperty (find_word_at_start_of_span source s (fd_name f)),
             collect_type_expr source (fd_type_expr f)]
       | None \<Rightarrow> Some []]"

definition collect_derived_field :: "string \<Rightarrow> ast_derived_field \<Rightarrow> raw_token list option" where
  "collect_derived_field source d =
     gather [keyword_in source (df_span d) ''let'', in_span source (df_span d) (df_name d) TtProperty,
       in_span source (df_span d) (df_type_name d) TtType]"

fun collect_field_item :: "string \<Rightarrow> ast_field_item \<Rightarrow> raw_token list option" where
  "collect_field_item source (FField f) = collect_field_def source f"
| "collect_field_item source (FDerived d) = collect_derived_field source d"
| "collect_field_item source (FRequire r) = keyword_in source (rq_span r) ''require''"

section \<open>Items\<close>

text \<open>The number behind the last \<open>=\<close> of a constant and behind the first \<open>=\<close> of a member.\<close>

definition number_after :: "usize \<Rightarrow> string \<Rightarrow> (char \<Rightarrow> bool) \<Rightarrow> nat \<Rightarrow> raw_token list" where
  "number_after start t in_number eq =
     (let after_eq = drop (eq + 1) t; trimmed = trim_start after_eq; n = length (takeWhile in_number trimmed)
      in if n > 0 then [raw (start + eq + 1 + (length after_eq - length trimmed)) n TtNumber] else [])"

definition collect_literal_value :: "string \<Rightarrow> span \<Rightarrow> ast_literal_value \<Rightarrow> raw_token list option" where
  "collect_literal_value source s v =
     Option.bind (slice source (unat (offset s)) (unat (span_end s))) (\<lambda>t.
       case v of
         LInt i \<Rightarrow>
           (case rfind_char (CHR ''='') t of
              Some eq \<Rightarrow> Some (number_after (unat (offset s)) t (\<lambda>c. word_char c \<or> c = CHR ''-'') eq)
            | None \<Rightarrow> mark (show_int i) TtNumber (find_word_in_span source s (show_int i)))
       | LBool b \<Rightarrow> Some []
       | LString str \<Rightarrow>
           map_option (\<lambda>r. case r of Some off \<Rightarrow> [raw off (length str + 2) TtString] | None \<Rightarrow> [])
             (find_char_in_span source s (CHR 0x22))
       | LNull \<Rightarrow> Some [])"

text \<open>The keyword of a declaration, after \<open>export\<close> where the declaration is exported.\<close>

definition declared_keyword :: "string \<Rightarrow> span \<Rightarrow> bool \<Rightarrow> string \<Rightarrow> raw_token list option" where
  "declared_keyword source s exported keyword =
     (if exported
      then gather [emit_keyword_at_start source s ''export'',
        mark keyword TtKeyword (find_word_after source (unat (offset s) + 6) keyword)]
      else emit_keyword_at_start source s keyword)"

definition at_span :: "span option \<Rightarrow> (span \<Rightarrow> raw_token list option) list \<Rightarrow> raw_token list option" where
  "at_span sp fs = (case sp of Some s \<Rightarrow> gather (map (\<lambda>f. f s) fs) | None \<Rightarrow> Some [])"

definition word :: "string \<Rightarrow> string \<Rightarrow> token_type \<Rightarrow> span \<Rightarrow> raw_token list option" where
  "word source w ty s = mark w ty (find_word_in_span source s w)"

definition collect_const :: "string \<Rightarrow> ast_const_decl \<Rightarrow> raw_token list option" where
  "collect_const source c =
     gather [Some (collect_annotations (co_annotations c)),
       at_span (co_span c)
         [\<lambda>s. declared_keyword source s (co_exported c) ''const'',
          word source (co_name c) TtProperty,
          word source (co_type_name c) TtType,
          \<lambda>s. collect_literal_value source s (co_value c)]]"

definition collect_enum_member :: "string \<Rightarrow> ast_enum_member \<Rightarrow> raw_token list option" where
  "collect_enum_member source m =
     at_span (em_span m)
       [word source (em_name m) TtEnumMember,
        \<lambda>s. Option.bind (slice source (unat (offset s)) (unat (span_end s))) (\<lambda>t.
          case position (\<lambda>x. x = CHR ''='') t of
            Some eq \<Rightarrow> Some (number_after (unat (offset s)) t word_char eq)
          | None \<Rightarrow> word source (show_int (em_value m)) TtNumber s)]"

definition collect_enum :: "string \<Rightarrow> ast_enum_decl \<Rightarrow> raw_token list option" where
  "collect_enum source e =
     gather (Some (collect_annotations (en_annotations e)) #
       at_span (en_span e)
         [\<lambda>s. declared_keyword source s (en_exported e) ''enum'',
          word source (en_name e) TtEnum,
          word source (en_underlying_type e) TtType] #
       map (collect_enum_member source) (en_members e))"

definition collect_flags :: "string \<Rightarrow> ast_flags_decl \<Rightarrow> raw_token list option" where
  "collect_flags source f =
     gather (Some (collect_annotations (fl_annotations f)) #
       at_span (fl_span f)
         [\<lambda>s. declared_keyword source s (fl_exported f) ''flags'',
          word source (fl_name f) TtEnum,
          word source (fl_underlying_type f) TtType] #
       map (collect_enum_member source) (fl_members f))"

definition collect_type_decl :: "string \<Rightarrow> ast_type_decl \<Rightarrow> raw_token list option" where
  "collect_type_decl source t =
     gather (Some (collect_annotations (ty_annotations t)) #
       at_span (ty_span t)
         [\<lambda>s. declared_keyword source s (ty_exported t) ''type'',
          word source (ty_name t) TtType] #
       (case ty_body t of BodyFields fs \<Rightarrow> map (collect_field_def source) fs | BodyAlias a \<Rightarrow> []))"

definition collect_packet :: "string \<Rightarrow> ast_packet_decl \<Rightarrow> raw_token list option" where
  "collect_packet source p =
     gather (Some (collect_annotations (pk_annotations p)) #
       at_span (pk_span p)
         [\<lambda>s. declared_keyword source s (pk_exported p) ''packet'',
          word source (pk_name p) TtType] #
       map (collect_field_item source) (pk_fields p))"

definition branch_items :: "ast_frame_branch list \<Rightarrow> ast_field_item list" where
  "branch_items bs = concat (map fb_fields bs)"

definition collect_frame :: "string \<Rightarrow> ast_frame_decl \<Rightarrow> raw_token list option" where
  "collect_frame source f =
     gather (Some (collect_annotations (fr_annotations f)) #
       at_span (fr_span f)
         [\<lambda>s. declared_keyword source s (fr_exported f) ''frame'',
          word source (fr_name f) TtType] #
       map (collect_field_item source) (branch_items (fr_branches f)))"

definition collect_capsule :: "string \<Rightarrow> ast_capsule_decl \<Rightarrow> raw_token list option" where
  "collect_capsule source c =
     gather (Some (collect_annotations (ca_annotations c)) #
       at_span (ca_span c)
         [\<lambda>s. declared_keyword source s (ca_exported c) ''capsule'',
          word source (ca_name c) TtType] #
       map (collect_field_item source) (ca_fields c @ branch_items (ca_branches c)))"

text \<open>These two look for their keywords from the start of the span on, or from behind \<open>export\<close>.\<close>

definition searched_keywords :: "string \<Rightarrow> span \<Rightarrow> bool \<Rightarrow> string list \<Rightarrow> raw_token list option" where
  "searched_keywords source s exported keywords =
     gather ((if exported then emit_keyword_at_start source s ''export'' else Some []) #
       map (\<lambda>k. mark k TtKeyword (find_word_after source (unat (offset s) + (if exported then 6 else 0)) k)) keywords)"

definition collect_varint :: "string \<Rightarrow> ast_continuation_varint_decl \<Rightarrow> raw_token list option" where
  "collect_varint source v =
     gather [Some (collect_annotations (cv_annotations v)),
       at_span (cv_span v)
         [\<lambda>s. searched_keywords source s (cv_exported v) [''type''],
          word source (cv_name v) TtType]]"

definition collect_state_machine :: "string \<Rightarrow> ast_state_machine_decl \<Rightarrow> raw_token list option" where
  "collect_state_machine source m =
     gather [Some (collect_annotations (sm_annotations m)),
       at_span (sm_span m)
         [\<lambda>s. searched_keywords source s (sm_exported m) [''state'', ''machine''],
          word source (sm_name m) TtType]]"

definition collect_static_assert :: "string \<Rightarrow> ast_static_assert_decl \<Rightarrow> raw_token list option" where
  "collect_static_assert source a = keyword_in source (sa_span a) ''static_assert''"

text \<open>The path behind the first quote of the span, up to the next quote of the source.\<close>

definition collect_extern_asn1 :: "string \<Rightarrow> ast_extern_asn1 \<Rightarrow> raw_token list option" where
  "collect_extern_asn1 source e =
     at_span (ex_span e)
       [\<lambda>s. emit_keyword_at_start source s ''extern'',
        \<lambda>s. map_option (\<lambda>r. case r of
            None \<Rightarrow> []
          | Some q \<Rightarrow>
              (case position (\<lambda>x. x = CHR 0x22) (drop (q + 1) source) of
                 Some e \<Rightarrow> [raw q (e + 2) TtString] | None \<Rightarrow> []))
          (find_char_in_span source s (CHR 0x22))]"

fun collect_top_item :: "string \<Rightarrow> ast_top_item \<Rightarrow> raw_token list option" where
  "collect_top_item source (IConst c) = collect_const source c"
| "collect_top_item source (IEnum e) = collect_enum source e"
| "collect_top_item source (IFlags f) = collect_flags source f"
| "collect_top_item source (IType t) = collect_type_decl source t"
| "collect_top_item source (IPacket p) = collect_packet source p"
| "collect_top_item source (IFrame f) = collect_frame source f"
| "collect_top_item source (ICapsule c) = collect_capsule source c"
| "collect_top_item source (IContinuationVarInt v) = collect_varint source v"
| "collect_top_item source (IStateMachine m) = collect_state_machine source m"
| "collect_top_item source (IStaticAssert a) = collect_static_assert source a"
| "collect_top_item source (IExternAsn1 e) = collect_extern_asn1 source e"

section \<open>Encoding\<close>

record semantic_token =
  sk_delta_line :: u32
  sk_delta_start :: u32
  sk_length :: u32
  sk_type :: u32
  sk_modifiers :: u32

fun delta_encode :: "string \<Rightarrow> u32 \<Rightarrow> u32 \<Rightarrow> raw_token list \<Rightarrow> semantic_token list" where
  "delta_encode source prev_line prev_start [] = []"
| "delta_encode source prev_line prev_start (t # ts) =
     (let p = offset_to_position source (rt_offset t); delta_line = po_line p - prev_line
      in \<lparr>sk_delta_line = delta_line,
          sk_delta_start = (if delta_line = 0 then po_character p - prev_start else po_character p),
          sk_length = of_nat (rt_length t), sk_type = token_index (rt_type t), sk_modifiers = 0\<rparr>
         # delta_encode source (po_line p) (po_character p) ts)"

definition raw_tokens :: "string \<Rightarrow> ast_module \<Rightarrow> raw_token list option" where
  "raw_tokens source m =
     map_option (sort_key rt_offset)
       (gather (Some (collect_comments (length source) source) #
          (case mo_module_decl m of Some d \<Rightarrow> keyword_in source (md_span d) ''module'' | None \<Rightarrow> Some []) #
          Some (collect_annotations (mo_annotations m)) #
          map (collect_top_item source) (mo_items m)))"

definition compute_semantic_tokens :: "string \<Rightarrow> ast_module \<Rightarrow> semantic_token list option" where
  "compute_semantic_tokens source m = map_option (delta_encode source 0 0) (raw_tokens source m)"

section \<open>The client's view\<close>

text \<open>What a client makes of the tokens: absolute lines and columns.\<close>

fun decode_tokens :: "nat \<Rightarrow> nat \<Rightarrow> semantic_token list \<Rightarrow> (nat \<times> nat \<times> u32 \<times> token_type) list" where
  "decode_tokens l c [] = []"
| "decode_tokens l c (t # ts) =
     (let l' = l + unat (sk_delta_line t);
          c' = (if sk_delta_line t = 0 then c + unat (sk_delta_start t) else unat (sk_delta_start t))
      in (l', c', sk_length t, legend ! unat (sk_type t)) # decode_tokens l' c' ts)"

lemma unat_diff32:
  assumes "a \<le> b" "b < 2 ^ 32"
  shows "unat (of_nat b - of_nat a :: u32) = b - a"
proof -
  have u: "unat (of_nat a :: u32) = a" "unat (of_nat b :: u32) = b" using assms by (simp_all add: unat_of_nat)
  then have "(of_nat a :: u32) \<le> of_nat b" using assms by (simp add: word_le_nat_alt)
  then show ?thesis using u by (simp add: unat_sub)
qed

definition clipped :: "string \<Rightarrow> raw_token \<Rightarrow> nat" where
  "clipped source t = min (rt_offset t) (length source)"

lemma token_position:
  "offset_to_position source (rt_offset t) =
     \<lparr>po_line = of_nat (line_of source (clipped source t)), po_character = of_nat (column_of source (clipped source t))\<rparr>"
proof -
  have "offset_to_line_col source (rt_offset t) = offset_to_line_col source (clipped source t)"
    by (simp add: offset_to_line_col_def clipped_def Let_def)
  then show ?thesis by (simp add: offset_to_position_def line_col_eq clipped_def)
qed

lemma small_positions:
  assumes "length source < 2 ^ 32" "p \<le> length source"
  shows "line_of source p < 2 ^ 32" "column_of source p < 2 ^ 32"
proof -
  have "line_of source p \<le> length source" unfolding line_of_def by (metis length_filter_le length_take min.bounded_iff)
  then show "line_of source p < 2 ^ 32" using assms(1) by linarith
  show "column_of source p < 2 ^ 32" using assms column_of_le [of source p] by linarith
qed

lemma decode_encode:
  assumes small: "length source < 2 ^ 32"
  shows "p \<le> length source \<Longrightarrow> sorted (p # map (clipped source) ts) \<Longrightarrow>
    decode_tokens (line_of source p) (column_of source p)
      (delta_encode source (of_nat (line_of source p)) (of_nat (column_of source p)) ts) =
    map (\<lambda>t. (line_of source (clipped source t), column_of source (clipped source t), of_nat (rt_length t), rt_type t)) ts"
proof (induction ts arbitrary: p)
  case (Cons t ts)
  let ?q = "clipped source t"
  let ?dl = "of_nat (line_of source ?q) - of_nat (line_of source p) :: u32"
  have q: "p \<le> ?q" "?q \<le> length source" using Cons.prems by (simp_all add: clipped_def)
  note sq = small_positions [OF small q(2)]
  have le: "line_of source p \<le> line_of source ?q" using q(1) by (rule line_of_mono)
  have dl: "unat ?dl = line_of source ?q - line_of source p" using unat_diff32 [OF le sq(1)] .
  have z: "?dl = 0 \<longleftrightarrow> line_of source ?q = line_of source p"
    using dl le by (metis diff_is_0_eq le_antisym unat_0 unat_eq_zero order_refl)
  have uq: "unat (of_nat (column_of source ?q) :: u32) = column_of source ?q" using sq(2) by (simp add: unat_of_nat)
  have dc: "unat (of_nat (column_of source ?q) - of_nat (column_of source p) :: u32) = column_of source ?q - column_of source p
      \<and> column_of source p \<le> column_of source ?q" if "line_of source ?q = line_of source p"
  proof -
    have "column_of source p \<le> column_of source ?q" using same_line [OF q] that by simp
    then show ?thesis using unat_diff32 [OF _ sq(2)] by blast
  qed
  have IH: "decode_tokens (line_of source ?q) (column_of source ?q)
      (delta_encode source (of_nat (line_of source ?q)) (of_nat (column_of source ?q)) ts) =
    map (\<lambda>t. (line_of source (clipped source t), column_of source (clipped source t), of_nat (rt_length t), rt_type t)) ts"
    using Cons.prems q by (intro Cons.IH) auto
  show ?case
  proof (cases "line_of source ?q = line_of source p")
    case True
    then show ?thesis using dc [OF True] IH by (simp add: Let_def token_position token_index_legend)
  next
    case False
    then have "?dl \<noteq> 0" using z by simp
    then show ?thesis using IH le dl uq by (simp add: Let_def token_position token_index_legend)
  qed
qed simp

text \<open>C37. The colouring a client decodes is the one that was computed: for a source below 4 GiB, each token of the answer
  has the line, column, length and type of a token that was collected, in the order of their offsets, and no
  difference between two positions wraps.\<close>

theorem semantic_tokens_decode:
  assumes "compute_semantic_tokens source m = Some tokens" "length source < 2 ^ 32"
  shows "\<exists>ts. raw_tokens source m = Some ts \<and> sorted (map rt_offset ts) \<and>
    decode_tokens 0 0 tokens =
      map (\<lambda>t. (line_of source (clipped source t), column_of source (clipped source t), of_nat (rt_length t), rt_type t)) ts"
proof -
  obtain ts where ts: "raw_tokens source m = Some ts" "tokens = delta_encode source 0 0 ts"
    using assms(1) by (auto simp: compute_semantic_tokens_def)
  have s: "sorted (map rt_offset ts)" using ts(1) by (auto simp: raw_tokens_def)
  then have "sorted (0 # map (clipped source) ts)"
    by (auto simp: clipped_def sorted_map elim!: sorted_wrt_mono_rel [rotated])
  from decode_encode [OF assms(2) le0 this] show ?thesis using ts s by (simp add: line_of_def column_of_def)
qed

definition example_text :: string where
  "example_text = ''# demo'' @ [CHR 0x0A] @ ''packet P { a: u8 }'' @ [CHR 0x0A] @ ''const MAX: u8 = 10''"

lemma example_decoded:
  "case parse example_text of
     Inr m \<Rightarrow> map_option (decode_tokens 0 0) (compute_semantic_tokens example_text m) =
       Some [(0, 0, 6, TtComment), (1, 0, 6, TtKeyword), (1, 11, 1, TtProperty), (1, 14, 2, TtType), (2, 0, 5, TtKeyword)]
   | Inl e \<Rightarrow> False"
  by code_simp

lemma semantic_tokens_decode_witness:
  "\<exists>m tokens ts. compute_semantic_tokens example_text m = Some tokens \<and> raw_tokens example_text m = Some ts
    \<and> length ts = 5 \<and> sorted (map rt_offset ts)"
proof (cases "parse example_text")
  case (Inl e)
  show ?thesis using example_decoded unfolding Inl sum.case by (rule FalseE)
next
  case (Inr m)
  have "map_option (decode_tokens 0 0) (compute_semantic_tokens example_text m) =
      Some [(0, 0, 6, TtComment), (1, 0, 6, TtKeyword), (1, 11, 1, TtProperty), (1, 14, 2, TtType), (2, 0, 5, TtKeyword)]"
    using example_decoded unfolding Inr sum.case .
  then obtain tokens where t: "compute_semantic_tokens example_text m = Some tokens" and
    d: "decode_tokens 0 0 tokens = [(0, 0, 6, TtComment), (1, 0, 6, TtKeyword), (1, 11, 1, TtProperty), (1, 14, 2, TtType), (2, 0, 5, TtKeyword)]"
    unfolding map_option_eq_Some by (elim exE conjE) (rule that)
  have n: "length (decode_tokens 0 0 tokens) = 5" unfolding d by (simp only: list.size)
  have "length example_text < 2 ^ 32" by (simp add: example_text_def)
  from semantic_tokens_decode [OF t this] obtain ts where
    "raw_tokens example_text m = Some ts" "sorted (map rt_offset ts)" "length (decode_tokens 0 0 tokens) = length ts"
    by (elim exE conjE) (rule that, assumption+, simp only: length_map)
  with t n show ?thesis by (intro exI conjI) (assumption | simp)+
qed

end
