(* ===== verification/LspCompletion.thy ===== *)
theory LspCompletion
  imports LspPosition
begin

text \<open>
  Completion, \<open>completion.rs\<close> of \<open>crates/wirespec-lsp/src\<close>: the context of the cursor is guessed from the text
  before it, and the proposals follow from the context. \<open>None\<close> is a panic.
\<close>

section \<open>Proposals\<close>

datatype completion_kind = CkKeyword | CkFunction | CkStruct | CkEnum | CkClass | CkValue

record completion_item =
  cp_label :: string
  cp_kind :: completion_kind
  cp_insert_text :: "string option"
  cp_snippet :: bool

definition lit :: "string \<Rightarrow> string" where
  "lit s = concat (map (\<lambda>c. if c = CHR ''^'' then [CHR 0x0A] else if c = CHR ''~'' then [CHR 0x09] else [c]) s)"

definition TOP_LEVEL_KEYWORDS :: "(string \<times> string) list" where
  "TOP_LEVEL_KEYWORDS = map (map_prod id lit)
     [(''packet'', ''packet ${1:Name} {^~$0^}''),
      (''frame'', ''frame ${1:Name} (${2:tag}: ${3:u8}) {^~$0^}''),
      (''capsule'', ''capsule ${1:Name} {^~$0^}''),
      (''enum'', ''enum ${1:Name} : ${2:u8} {^~$0^}''),
      (''flags'', ''flags ${1:Name} : ${2:u8} {^~$0^}''),
      (''const'', ''const ${1:NAME}: ${2:u8} = ${3:0}''),
      (''type'', ''type ${1:Name} (varint)''),
      (''state machine'', ''state machine ${1:Name} {^~$0^}''),
      (''extern asn1'', ''extern asn1 '' @ [CHR 0x22] @ ''${1:path}'' @ [CHR 0x22] @ '' {^~$0^}''),
      (''import'', ''import ${1:module}''),
      (''module'', ''module ${1:name}'')]"

definition TYPE_KEYWORDS :: "string list" where
  "TYPE_KEYWORDS = [''u8'', ''u16'', ''u24'', ''u32'', ''u64'', ''i8'', ''i16'', ''i32'', ''i64'', ''bool'', ''bytes'', ''bits'',
     ''bit'', ''remaining'', ''fill'']"

definition ANNOTATION_NAMES :: "(string \<times> string) list" where
  "ANNOTATION_NAMES =
     [(''endian'', ''endian(${1:big})''), (''checksum'', ''checksum(${1:algorithm})''), (''strict'', ''strict''),
      (''doc'', ''doc('' @ [CHR 0x22] @ ''${1:description}'' @ [CHR 0x22] @ '')''),
      (''max_len'', ''max_len(${1:255})''), (''derive'', ''derive(${1:Debug})'')]"

definition SM_KEYWORDS :: "string list" where
  "SM_KEYWORDS = [''transition'', ''initial'', ''state'', ''on'', ''guard'', ''action'', ''delegate'']"

definition ENCODING_NAMES :: "string list" where
  "ENCODING_NAMES = [''uper'', ''ber'', ''der'', ''aper'', ''oer'', ''coer'']"

definition keyword_item :: "string \<Rightarrow> string option \<Rightarrow> completion_item" where
  "keyword_item label snippet =
     \<lparr>cp_label = label, cp_kind = CkKeyword, cp_insert_text = snippet, cp_snippet = snippet \<noteq> None\<rparr>"

definition type_item :: "string \<Rightarrow> completion_item" where
  "type_item label = \<lparr>cp_label = label, cp_kind = CkKeyword, cp_insert_text = None, cp_snippet = False\<rparr>"

definition annotation_item :: "string \<Rightarrow> string \<Rightarrow> completion_item" where
  "annotation_item label snippet =
     \<lparr>cp_label = label, cp_kind = CkFunction, cp_insert_text = Some snippet, cp_snippet = True\<rparr>"

definition user_type_item :: "string \<Rightarrow> completion_kind \<Rightarrow> completion_item" where
  "user_type_item label kind = \<lparr>cp_label = label, cp_kind = kind, cp_insert_text = None, cp_snippet = False\<rparr>"

section \<open>The context\<close>

datatype completion_context = CtAnnotation | CtType | CtEncoding | CtStateMachine | CtTopLevel

text \<open>The search goes on in \<open>search\<close>, and \<open>base\<close> is meant to be where that starts in the text. In the code the
  rest is taken of the whole text, at a position counted in the last rest.\<close>

function rfind_keyword_loop :: "string \<Rightarrow> string \<Rightarrow> string \<Rightarrow> nat \<Rightarrow> nat option \<Rightarrow> nat option option" where
  "rfind_keyword_loop txt kw search base found =
     (case find_str kw search of
        None \<Rightarrow> Some found
      | Some pos \<Rightarrow>
          let abs = base + pos; after = abs + length kw
          in if abs \<noteq> 0 \<and> length txt \<le> abs - 1 then None
             else let before_ok = (abs = 0 \<or> \<not> word_char (txt ! (abs - 1)));
                      after_ok = (length txt \<le> after \<or> \<not> word_char (txt ! after));
                      found' = (if before_ok \<and> after_ok then Some abs else found)
                  in (case slice txt (pos + 1) (length txt) of
                        None \<Rightarrow> None
                      | Some rest \<Rightarrow> rfind_keyword_loop txt kw rest (abs + 1) found'))"
  by pat_completeness auto
termination
  by (relation "measure (\<lambda>(txt, kw, search, base, found). length txt + 2 - base)") auto

declare rfind_keyword_loop.simps [simp del]

definition rfind_keyword :: "string \<Rightarrow> string \<Rightarrow> nat option option" where
  "rfind_keyword txt kw = rfind_keyword_loop txt kw txt 0 None"

text \<open>The depth of braces, or \<open>None\<close> when one closes too many.\<close>

fun brace_depth :: "nat \<Rightarrow> string \<Rightarrow> nat option" where
  "brace_depth d [] = Some d"
| "brace_depth d (c # s) =
     (if c = CHR ''{'' then brace_depth (Suc d) s
      else if c = CHR ''}'' then (case d of 0 \<Rightarrow> None | Suc k \<Rightarrow> brace_depth k s)
      else brace_depth d s)"

definition inside_state_machine :: "string \<Rightarrow> usize \<Rightarrow> bool option" where
  "inside_state_machine source off =
     Option.bind (slice source 0 (min off (length source))) (\<lambda>prefix.
     Option.bind (rfind_keyword prefix ''state machine'') (\<lambda>found.
       case found of
         None \<Rightarrow> Some False
       | Some pos \<Rightarrow> map_option (\<lambda>after. case brace_depth 0 after of Some d \<Rightarrow> d > 0 | None \<Rightarrow> False)
           (slice prefix (pos + 13) (length prefix))))"

definition detect_context :: "string \<Rightarrow> usize \<Rightarrow> completion_context option" where
  "detect_context source off =
     Option.bind (slice source 0 (min off (length source))) (\<lambda>prefix.
       let trimmed = trim_end prefix
       in if ends_with trimmed ''@'' then Some CtAnnotation
          else case rfind_char (CHR '':'') trimmed of
            Some colon \<Rightarrow> Some (if ends_with (trim_end (take colon trimmed)) ''encoding'' then CtEncoding else CtType)
          | None \<Rightarrow> map_option (\<lambda>inside. if inside then CtStateMachine else CtTopLevel) (inside_state_machine source off))"

section \<open>Types of the user\<close>

definition extract_ident :: "string \<Rightarrow> string option" where
  "extract_ident s =
     (case trim_start s of
        [] \<Rightarrow> None
      | c # r \<Rightarrow> if is_upper c \<or> is_lower c then Some (takeWhile word_char (c # r)) else None)"

definition scan_line :: "string \<Rightarrow> (string \<times> completion_kind) list" where
  "scan_line line =
     List.map_filter (\<lambda>(kw, kind). map_option (\<lambda>name. (name, kind)) (Option.bind (strip_prefix kw (trim_start line)) extract_ident))
       [(''packet'', CkStruct), (''frame'', CkStruct), (''capsule'', CkStruct), (''enum'', CkEnum), (''flags'', CkEnum),
        (''type'', CkClass)]"

definition analyzed :: "hash_order \<Rightarrow> string \<Rightarrow> semantic_module option option" where
  "analyzed ho source =
     (case parse source of
        Inr ast \<Rightarrow> map_option (\<lambda>r. case r of Inr m \<Rightarrow> Some m | Inl e \<Rightarrow> None) (analyze ho ast Phase2ExtendedCurrent [])
      | Inl (PErr e) \<Rightarrow> Some None
      | Inl _ \<Rightarrow> None)"

definition collect_user_types :: "hash_order \<Rightarrow> string \<Rightarrow> (string \<times> completion_kind) list option" where
  "collect_user_types ho source =
     map_option (\<lambda>r. case r of
         Some m \<Rightarrow>
           map (\<lambda>p. (sp_name p, CkStruct)) (sem_packets m) @ map (\<lambda>e. (se_name e, CkEnum)) (sem_enums m) @
           map (\<lambda>f. (sfr_name f, CkStruct)) (sem_frames m) @ map (\<lambda>v. (vi_name v, CkClass)) (sem_varints m) @
           map (\<lambda>c. (sca_name c, CkStruct)) (sem_capsules m)
       | None \<Rightarrow> concat (map scan_line (lines_of source)))
     (analyzed ho source)"

section \<open>Completions\<close>

definition compute_completions :: "hash_order \<Rightarrow> string \<Rightarrow> position \<Rightarrow> completion_item list option" where
  "compute_completions ho source p =
     Option.bind (detect_context source (position_to_offset source p)) (\<lambda>context.
       case context of
         CtAnnotation \<Rightarrow> Some (map (\<lambda>(l, s). annotation_item l s) ANNOTATION_NAMES)
       | CtType \<Rightarrow> map_option (\<lambda>types. map type_item TYPE_KEYWORDS @ map (\<lambda>(n, k). user_type_item n k) types) (collect_user_types ho source)
       | CtEncoding \<Rightarrow> Some (map (\<lambda>n. \<lparr>cp_label = n, cp_kind = CkValue, cp_insert_text = None, cp_snippet = False\<rparr>) ENCODING_NAMES)
       | CtStateMachine \<Rightarrow> Some (map (\<lambda>k. keyword_item k None) SM_KEYWORDS)
       | CtTopLevel \<Rightarrow> Some (map (\<lambda>(l, s). keyword_item l (Some s)) TOP_LEVEL_KEYWORDS))"

section \<open>Facts\<close>

definition occurs_at :: "string \<Rightarrow> string \<Rightarrow> nat \<Rightarrow> bool" where
  "occurs_at txt w i \<longleftrightarrow> i \<le> length txt \<and> take (length w) (drop i txt) = w"

lemma find_str_Some: "find_str w s = Some p \<Longrightarrow> occurs_at s w p"
  by (induction w s arbitrary: p rule: find_str.induct) (auto simp: occurs_at_def split: if_splits)

lemma find_str_least: "occurs_at s w i \<Longrightarrow> \<exists>p \<le> i. find_str w s = Some p"
proof (induction w s arbitrary: i rule: find_str.induct)
  case (2 w c s)
  show ?case
  proof (cases i)
    case (Suc j)
    then have "occurs_at s w j" using 2 by (auto simp: occurs_at_def)
    with 2 Suc show ?thesis by fastforce
  qed (use 2 in \<open>auto simp: occurs_at_def\<close>)
qed (auto simp: occurs_at_def)

lemma occurs_at_drop: "i \<le> length txt \<Longrightarrow> occurs_at (drop i txt) w j \<longleftrightarrow> occurs_at txt w (i + j)"
  by (auto simp: occurs_at_def add.commute)

lemma slice_rest: "slice txt i (length txt) = (if char_boundary txt i then Some (drop i txt) else None)"
  by (auto simp: slice_def char_boundary_def)

lemma rfind_keyword_runs_away:
  "1 \<le> st \<Longrightarrow> st \<le> q \<Longrightarrow> occurs_at txt kw q \<Longrightarrow> 0 < base \<Longrightarrow> rfind_keyword_loop txt kw (drop st txt) base found = None"
proof (induction "length txt + 2 - base" arbitrary: st base found rule: less_induct)
  case less
  have q: "q \<le> length txt" using less.prems(3) by (simp add: occurs_at_def)
  have "occurs_at (drop st txt) kw (q - st)" using less.prems q by (subst occurs_at_drop) auto
  then obtain p where p: "p \<le> q - st" "find_str kw (drop st txt) = Some p" using find_str_least by blast
  show ?case
  proof (cases "length txt \<le> base + p - 1")
    case True
    then show ?thesis using p less.prems(4) by (subst rfind_keyword_loop.simps) (simp add: Let_def)
  next
    case False
    have "rfind_keyword_loop txt kw (drop (p + 1) txt) (base + p + 1) f = None" for f
      using False less.prems p by (intro less.hyps) auto
    then show ?thesis using False p less.prems(4)
      by (subst rfind_keyword_loop.simps) (simp add: Let_def slice_rest)
  qed
qed

lemma rfind_keyword_once:
  assumes "occurs_at txt kw p" "\<And>q. occurs_at txt kw q \<Longrightarrow> q = p" "kw \<noteq> []" "char_boundary txt (p + 1)"
  shows "rfind_keyword txt kw \<noteq> None"
proof -
  have p: "find_str kw txt = Some p" using find_str_least [OF assms(1)] find_str_Some assms(2) by blast
  have len: "p < length txt" using assms(1,3) by (cases "p = length txt") (auto simp: occurs_at_def)
  have "find_str kw (drop (p + 1) txt) = None"
  proof (cases "find_str kw (drop (p + 1) txt)")
    case (Some r)
    then have "occurs_at txt kw (p + 1 + r)" using find_str_Some [OF Some] len by (simp add: occurs_at_drop)
    from assms(2) [OF this] show ?thesis by simp
  qed
  then have "rfind_keyword_loop txt kw (drop (p + 1) txt) (p + 1) f = Some f" for f
    by (subst rfind_keyword_loop.simps) simp
  moreover have "\<not> length txt \<le> p - 1" using len by linarith
  ultimately show ?thesis using p len assms(4) unfolding rfind_keyword_def
    by (subst rfind_keyword_loop.simps) (simp add: Let_def slice_rest)
qed

lemma rfind_keyword_none: "(\<And>q. \<not> occurs_at txt kw q) \<Longrightarrow> rfind_keyword txt kw = Some None"
  unfolding rfind_keyword_def by (subst rfind_keyword_loop.simps) (auto dest: find_str_Some split: option.splits)

lemma rfind_keyword_panics:
  assumes "p < q" "occurs_at txt kw p" "occurs_at txt kw q"
  shows "rfind_keyword txt kw = None"
proof -
  obtain r where r: "r \<le> p" "find_str kw txt = Some r" using find_str_least [OF assms(2)] by blast
  have "rfind_keyword_loop txt kw (drop (r + 1) txt) (r + 1) f = None" for f
    using r assms by (intro rfind_keyword_runs_away [of _ q]) auto
  then show ?thesis using r unfolding rfind_keyword_def
    by (subst rfind_keyword_loop.simps) (auto simp: Let_def slice_rest)
qed

lemma rfind_keyword_panics_iff:
  assumes kw: "2 \<le> length kw" "\<not> is_continuation (kw ! 1)"
  shows "rfind_keyword txt kw = None \<longleftrightarrow> (\<exists>p q. p < q \<and> occurs_at txt kw p \<and> occurs_at txt kw q)"
proof
  assume none: "rfind_keyword txt kw = None"
  then obtain p where p: "occurs_at txt kw p" using rfind_keyword_none by (metis option.distinct(1))
  show "\<exists>p q. p < q \<and> occurs_at txt kw p \<and> occurs_at txt kw q"
  proof (rule ccontr)
    assume no: "\<not> (\<exists>p q. p < q \<and> occurs_at txt kw p \<and> occurs_at txt kw q)"
    have one: "q = p" if "occurs_at txt kw q" for q using no p that by (cases q p rule: linorder_cases) blast+
    have t: "take (length kw) (drop p txt) = kw" using p by (simp add: occurs_at_def)
    have len: "length kw \<le> length (drop p txt)"
      using arg_cong [OF t, of length] min.cobounded1 [of "length (drop p txt)" "length kw"] by (simp only: length_take)
    have "take (length kw) (drop p txt) ! 1 = txt ! (p + 1)" using len kw(1) by simp
    then have "\<not> is_continuation (txt ! (p + 1))" using kw(2) unfolding t by metis
    then have "char_boundary txt (p + 1)" using len kw(1) by (simp add: char_boundary_def)
    moreover have "kw \<noteq> []" using kw(1) by auto
    ultimately show False using rfind_keyword_once [OF p one] none by blast
  qed
qed (use rfind_keyword_panics in blast)

text \<open>C0. The search for the last \<open>state machine\<close> before the cursor panics exactly when there are two: it counts the
  start of its next search from the wrong place, finds the same words again and runs off the text.\<close>

theorem state_machine_search_panics_iff:
  "rfind_keyword txt ''state machine'' = None \<longleftrightarrow>
    (\<exists>p q. p < q \<and> occurs_at txt ''state machine'' p \<and> occurs_at txt ''state machine'' q)"
  by (rule rfind_keyword_panics_iff) (simp_all add: is_continuation_def)

text \<open>With a colon anywhere before the cursor, the context is one of a type or an encoding, in a state machine and
  at the start of a declaration, too.\<close>

lemma colon_decides_context:
  assumes "detect_context source off = Some context" "CHR '':'' \<in> set (trim_end (take (min off (length source)) source))"
  shows "context \<in> {CtAnnotation, CtType, CtEncoding}"
proof -
  let ?t = "trim_end (take (min off (length source)) source)"
  have "position (\<lambda>x. x = CHR '':'') (rev ?t) \<noteq> None" using assms(2) by (simp add: position_None)
  then show ?thesis using assms(1)
    by (auto simp: detect_context_def slice_def Let_def rfind_char_def bind_eq_Some_conv split: if_splits)
qed

lemma completion_after_two_machines:
  "detect_context ''state machine A { } state machine B { '' 38 = None"
  by code_simp

end
