(* ===== verification/LspServer.thy ===== *)
theory LspServer
  imports LspTokens LspCompletion
begin

text \<open>
  The language server, \<open>crates/wirespec-lsp/src\<close>: what is known of an item (\<open>ast_helpers.rs\<close>), the outline
  (\<open>document_symbols.rs\<close>), the definition of a name (\<open>goto_definition.rs\<close>), diagnostics, the text shown for
  a name (\<open>hover.rs\<close>), and the server over the open documents (\<open>backend.rs\<close>). The outer \<open>None\<close> is a panic;
  the protocol library delivers the requests one by one.
\<close>

section \<open>Items (ast\_helpers.rs)\<close>

record item_info =
  ii_name :: string
  ii_span :: "span option"
  ii_kind :: string

fun extract_item_info :: "ast_top_item \<Rightarrow> item_info option" where
  "extract_item_info (IPacket p) = Some \<lparr>ii_name = pk_name p, ii_span = pk_span p, ii_kind = ''packet''\<rparr>"
| "extract_item_info (IFrame f) = Some \<lparr>ii_name = fr_name f, ii_span = fr_span f, ii_kind = ''frame''\<rparr>"
| "extract_item_info (ICapsule c) = Some \<lparr>ii_name = ca_name c, ii_span = ca_span c, ii_kind = ''capsule''\<rparr>"
| "extract_item_info (IEnum e) = Some \<lparr>ii_name = en_name e, ii_span = en_span e, ii_kind = ''enum''\<rparr>"
| "extract_item_info (IFlags f) = Some \<lparr>ii_name = fl_name f, ii_span = fl_span f, ii_kind = ''flags''\<rparr>"
| "extract_item_info (IConst c) = Some \<lparr>ii_name = co_name c, ii_span = co_span c, ii_kind = ''const''\<rparr>"
| "extract_item_info (IType t) = Some \<lparr>ii_name = ty_name t, ii_span = ty_span t, ii_kind = ''type''\<rparr>"
| "extract_item_info (IStateMachine m) = Some \<lparr>ii_name = sm_name m, ii_span = sm_span m, ii_kind = ''state machine''\<rparr>"
| "extract_item_info (IContinuationVarInt v) = Some \<lparr>ii_name = cv_name v, ii_span = cv_span v, ii_kind = ''varint''\<rparr>"
| "extract_item_info (IStaticAssert a) = None"
| "extract_item_info (IExternAsn1 e) = None"

section \<open>Names (goto\_definition.rs, document\_symbols.rs)\<close>

text \<open>The range of the first occurrence of the name behind the start of the item, or the range of the span.\<close>

definition find_name_range :: "string \<Rightarrow> span \<Rightarrow> string \<Rightarrow> range option" where
  "find_name_range source s name =
     map_option (\<lambda>area.
       case find_str name area of
         Some p \<Rightarrow>
           let start = unat (offset s) + p
           in \<lparr>rg_start = offset_to_position source start, rg_end = offset_to_position source (start + length name)\<rparr>
       | None \<Rightarrow> span_to_range source s)
     (slice source (unat (offset s)) (length source))"

text \<open>The syntax tree, \<open>None\<close> if the source has an error; the outer \<open>None\<close> is a panic of the parser.\<close>

definition parsed :: "string \<Rightarrow> ast_module option option" where
  "parsed source = (case parse source of Inr m \<Rightarrow> Some (Some m) | Inl (PErr e) \<Rightarrow> Some None | Inl _ \<Rightarrow> None)"

definition named_span :: "string \<Rightarrow> ast_top_item \<Rightarrow> span option" where
  "named_span w it =
     Option.bind (extract_item_info it) (\<lambda>i. if ii_name i = w then ii_span i else None)"

definition find_definition :: "string \<Rightarrow> position \<Rightarrow> range option option" where
  "find_definition source p =
     Option.bind (word_at_offset source (position_to_offset source p)) (\<lambda>(start, stop, w).
       if w = [] then Some None
       else Option.bind (parsed source) (\<lambda>r.
         case r of
           None \<Rightarrow> Some None
         | Some m \<Rightarrow>
             (case List.map_filter (named_span w) (mo_items m) of
                [] \<Rightarrow> Some None
              | s # ss \<Rightarrow> map_option Some (find_name_range source s w))))"

datatype symbol_kind = SyStruct | SyEnum | SyConstant | SyTypeParameter | SyClass | SyObject

definition item_symbol_kind :: "string \<Rightarrow> symbol_kind" where
  "item_symbol_kind kind =
     (if kind \<in> {''packet'', ''capsule''} then SyStruct
      else if kind \<in> {''frame'', ''enum'', ''flags''} then SyEnum
      else if kind = ''const'' then SyConstant
      else if kind \<in> {''type'', ''varint''} then SyTypeParameter
      else if kind = ''state machine'' then SyClass
      else SyObject)"

record document_symbol =
  dy_name :: string
  dy_kind :: symbol_kind
  dy_range :: range
  dy_selection_range :: range

definition item_symbol :: "string \<Rightarrow> item_info \<Rightarrow> document_symbol list option" where
  "item_symbol source i =
     (case ii_span i of
        None \<Rightarrow> Some []
      | Some s \<Rightarrow> map_option (\<lambda>sel. [\<lparr>dy_name = ii_name i, dy_kind = item_symbol_kind (ii_kind i),
          dy_range = span_to_range source s, dy_selection_range = sel\<rparr>]) (find_name_range source s (ii_name i)))"

definition compute_document_symbols :: "string \<Rightarrow> document_symbol list option" where
  "compute_document_symbols source =
     Option.bind (parsed source) (\<lambda>r.
       case r of None \<Rightarrow> Some [] | Some m \<Rightarrow> gather (map (item_symbol source) (List.map_filter extract_item_info (mo_items m))))"

section \<open>Diagnostics (diagnostics.rs)\<close>

datatype severity = SvError | SvWarning

datatype diagnostic_message = ParseMessage parse_msg | SemanticMessage string

record diagnostic =
  dn_range :: range
  dn_severity :: severity
  dn_message :: diagnostic_message

definition optional_span_to_range :: "string \<Rightarrow> span option \<Rightarrow> range" where
  "optional_span_to_range source sp =
     (case sp of
        Some s \<Rightarrow> span_to_range source s
      | None \<Rightarrow> \<lparr>rg_start = offset_to_position source 0, rg_end = offset_to_position source 0\<rparr>)"

definition compute_diagnostics :: "hash_order \<Rightarrow> string \<Rightarrow> (ast_module option \<times> diagnostic list) option" where
  "compute_diagnostics ho source =
     (case parse source of
        Inl (PErr e) \<Rightarrow> Some (None, [\<lparr>dn_range = optional_span_to_range source (pe_span e), dn_severity = SvError,
            dn_message = ParseMessage (pe_msg e)\<rparr>])
      | Inl _ \<Rightarrow> None
      | Inr ast \<Rightarrow>
          map_option (\<lambda>r. (Some ast,
            case r of
              Inr m \<Rightarrow> map (\<lambda>w. \<lparr>dn_range = optional_span_to_range source (wn_span w), dn_severity = SvWarning,
                dn_message = SemanticMessage (wn_msg w)\<rparr>) (sem_warnings m)
            | Inl e \<Rightarrow> [\<lparr>dn_range = optional_span_to_range source (er_span e), dn_severity = SvError,
                dn_message = SemanticMessage (er_msg e)\<rparr>]))
          (analyze ho ast Phase2ExtendedCurrent []))"

section \<open>Hover (hover.rs)\<close>

fun primitive_name :: "primitive_wire_type \<Rightarrow> string" where
  "primitive_name U8 = ''u8''"
| "primitive_name U16 = ''u16''"
| "primitive_name U24 = ''u24''"
| "primitive_name U32 = ''u32''"
| "primitive_name U64 = ''u64''"
| "primitive_name I8 = ''i8''"
| "primitive_name I16 = ''i16''"
| "primitive_name I32 = ''i32''"
| "primitive_name I64 = ''i64''"
| "primitive_name Bool = ''bool''"
| "primitive_name Bit = ''bit''"

fun format_type :: "semantic_type \<Rightarrow> string" where
  "format_type (Primitive w e) =
     (case e of Some Big \<Rightarrow> primitive_name w @ '' be'' | Some Little \<Rightarrow> primitive_name w @ '' le'' | None \<Rightarrow> primitive_name w)"
| "format_type (Bits n) = ''bits '' @ dec n"
| "format_type (VarIntRef i name) = name"
| "format_type (Bytes k n e) =
     (case k of
        SBFixed \<Rightarrow> (case n of Some n \<Rightarrow> ''bytes['' @ dec n @ '']'' | None \<Rightarrow> ''bytes'')
      | SBRemaining \<Rightarrow> ''bytes remaining''
      | _ \<Rightarrow> ''bytes'')"
| "format_type (Array t c w) = ''['' @ format_type t @ '']''"
| "format_type (PacketRef i name) = name"
| "format_type (EnumRef i name f) = name"
| "format_type (FrameRef i name) = name"
| "format_type (CapsuleRef i name) = name"

fun format_literal :: "semantic_literal \<Rightarrow> string" where
  "format_literal (SLInt n) = show_int n"
| "format_literal (SLBool b) = (if b then ''true'' else ''false'')"
| "format_literal (SLString s) = quo @ s @ quo"
| "format_literal SLNull = ''null''"

definition fence :: "string list \<Rightarrow> string" where
  "fence ls = ''```wirespec'' @ nl @ join_with nl ls @ nl @ ''```''"

definition format_packet :: "semantic_packet \<Rightarrow> string" where
  "format_packet p =
     fence ((''packet '' @ sp_name p @ '' {'') # map (\<lambda>f. ''    '' @ sf_name f @ '': '' @ format_type (sf_ty f)) (sp_fields p) @ [''}''])"

definition format_enum :: "semantic_enum \<Rightarrow> string" where
  "format_enum e =
     fence (((if se_is_flags e then ''flags'' else ''enum'') @ '' '' @ se_name e @ '': '' @ format_type (se_underlying_type e) @ '' {'') #
       map (\<lambda>m. ''    '' @ sm_member_name m @ '' = '' @ show_int (sm_member_value m)) (se_members e) @ [''}''])"

definition format_const :: "semantic_const \<Rightarrow> string" where
  "format_const c = fence [''const '' @ sc_name c @ '': '' @ format_type (sc_ty c) @ '' = '' @ format_literal (sc_value c)]"

definition format_frame :: "semantic_frame \<Rightarrow> string" where
  "format_frame f = fence [''frame '' @ sfr_name f]"

definition format_capsule :: "semantic_capsule \<Rightarrow> string" where
  "format_capsule c = fence [''capsule '' @ sca_name c]"

definition format_varint :: "semantic_varint \<Rightarrow> string" where
  "format_varint v = fence [''type '' @ vi_name v @ '' (varint)'']"

text \<open>All fields in the order they are searched: packets, variants of frames, headers and variants of capsules.\<close>

definition searched_fields :: "semantic_module \<Rightarrow> semantic_field list" where
  "searched_fields m =
     concat (map sp_fields (sem_packets m)) @
     concat (map (\<lambda>f. concat (map sv_fields (sfr_variants f))) (sem_frames m)) @
     concat (map (\<lambda>c. sca_header_fields c @ concat (map sv_fields (sca_variants c))) (sem_capsules m))"

definition find_field_hover :: "string \<Rightarrow> semantic_module \<Rightarrow> string option" where
  "find_field_hover w m =
     map_option (\<lambda>f. fence [sf_name f @ '': '' @ format_type (sf_ty f)]) (List.find (\<lambda>f. sf_name f = w) (searched_fields m))"

fun first_some :: "'a option list \<Rightarrow> 'a option" where
  "first_some [] = None"
| "first_some (Some x # xs) = Some x"
| "first_some (None # xs) = first_some xs"

definition hover_for_word :: "string \<Rightarrow> semantic_module \<Rightarrow> string option" where
  "hover_for_word w m =
     first_some
       [map_option format_packet (List.find (\<lambda>p. sp_name p = w) (sem_packets m)),
        map_option format_enum (List.find (\<lambda>e. se_name e = w) (sem_enums m)),
        map_option format_const (List.find (\<lambda>c. sc_name c = w) (sem_consts m)),
        map_option format_frame (List.find (\<lambda>f. sfr_name f = w) (sem_frames m)),
        map_option format_capsule (List.find (\<lambda>c. sca_name c = w) (sem_capsules m)),
        map_option format_varint (List.find (\<lambda>v. vi_name v = w) (sem_varints m)),
        find_field_hover w m]"

definition compute_hover :: "hash_order \<Rightarrow> string \<Rightarrow> position \<Rightarrow> string option option" where
  "compute_hover ho source p =
     Option.bind (word_at_offset source (position_to_offset source p)) (\<lambda>(start, stop, w).
       if w = [] then Some None
       else map_option (\<lambda>r. Option.bind r (hover_for_word w)) (analyzed ho source))"

section \<open>The server (backend.rs)\<close>

type_synonym documents = "string \<Rightarrow> string option"

datatype request =
    DidOpen string string
  | DidChange string "string list"
  | DidClose string
  | SemanticTokensFull string
  | Completion string position
  | Hover string position
  | GotoDefinition string position
  | DocumentSymbols string

datatype response =
    Quiet
  | Publish string "diagnostic list"
  | NoDocument
  | NoTokens
  | Tokens "semantic_token list"
  | Completions "completion_item list"
  | HoverText "string option"
  | Location "range option"
  | Symbols "document_symbol list"

definition store_and_check :: "hash_order \<Rightarrow> documents \<Rightarrow> string \<Rightarrow> string \<Rightarrow> documents \<times> response option" where
  "store_and_check ho docs uri txt =
     (docs(uri \<mapsto> txt), map_option (\<lambda>(ast, ds). Publish uri ds) (compute_diagnostics ho txt))"

definition on_document :: "documents \<Rightarrow> string \<Rightarrow> (string \<Rightarrow> response option) \<Rightarrow> documents \<times> response option" where
  "on_document docs uri f = (docs, case docs uri of None \<Rightarrow> Some NoDocument | Some source \<Rightarrow> f source)"

text \<open>Documents change before the answer is computed, so that they have changed, too, when that panics. Of several
  changes, each of the whole text, the last one counts.\<close>

fun handle :: "hash_order \<Rightarrow> documents \<Rightarrow> request \<Rightarrow> documents \<times> response option" where
  "handle ho docs (DidOpen uri txt) = store_and_check ho docs uri txt"
| "handle ho docs (DidChange uri changes) =
     (if changes = [] then (docs, Some Quiet) else store_and_check ho docs uri (last changes))"
| "handle ho docs (DidClose uri) = (docs(uri := None), Some (Publish uri []))"
| "handle ho docs (SemanticTokensFull uri) =
     on_document docs uri (\<lambda>source. Option.bind (parsed source) (\<lambda>r.
       case r of None \<Rightarrow> Some NoTokens | Some m \<Rightarrow> map_option Tokens (compute_semantic_tokens source m)))"
| "handle ho docs (Completion uri p) =
     on_document docs uri (\<lambda>source. map_option Completions (compute_completions ho source p))"
| "handle ho docs (Hover uri p) = on_document docs uri (\<lambda>source. map_option HoverText (compute_hover ho source p))"
| "handle ho docs (GotoDefinition uri p) = on_document docs uri (\<lambda>source. map_option Location (find_definition source p))"
| "handle ho docs (DocumentSymbols uri) = on_document docs uri (\<lambda>source. map_option Symbols (compute_document_symbols source))"

section \<open>Facts\<close>

text \<open>The text of a document that a sequence of requests leaves: the last one opened or sent, unless it was closed after.\<close>

fun last_text :: "string \<Rightarrow> request list \<Rightarrow> string option" where
  "last_text uri [] = None"
| "last_text uri (r # earlier) =
     (case r of
        DidOpen u t \<Rightarrow> if u = uri then Some t else last_text uri earlier
      | DidChange u ts \<Rightarrow> if u = uri \<and> ts \<noteq> [] then Some (last ts) else last_text uri earlier
      | DidClose u \<Rightarrow> if u = uri then None else last_text uri earlier
      | _ \<Rightarrow> last_text uri earlier)"

lemma on_document_docs [simp]: "fst (on_document docs uri f) = docs"
  by (simp add: on_document_def)

lemma handled_documents:
  "fold (\<lambda>r docs. fst (handle ho docs r)) rs Map.empty uri = last_text uri (rev rs)"
  by (induction rs rule: rev_induct) (auto simp: store_and_check_def split: request.splits)

text \<open>The name of a packet is searched from its keyword on, where it may stand inside of the keyword, and a column behind
  the end of a line is taken for the end of the source.\<close>

lemma definition_inside_keyword:
  "find_definition ''packet ack { a: u8 }'' \<lparr>po_line = 0, po_character = 8\<rparr>
     = Some (Some \<lparr>rg_start = \<lparr>po_line = 0, po_character = 1\<rparr>, rg_end = \<lparr>po_line = 0, po_character = 4\<rparr>\<rparr>)"
  by code_simp

lemma column_behind_line:
  "position_to_offset (''ab'' @ [CHR 0x0A] @ ''cd'') \<lparr>po_line = 0, po_character = 7\<rparr> = 5"
  by code_simp

end
