(* ===== verification/TlcResult.thy ===== *)
theory TlcResult
  imports StrOps Tla
begin

text \<open>
  The reading of the output of the model checker TLC, \<open>tlc_result.rs\<close> of
  \<open>crates/wirespec-backend-tlaplus/src\<close>, and the text shown for it.
\<close>

section \<open>Results\<close>

record tlc_step =
  ts_step_number :: u32
  ts_state_tag :: "string option"
  ts_fields :: "(string \<times> string) list"
  ts_is_stuttering :: bool

datatype tlc_result =
    TlcPass "u64 option" "u64 option"
  | TlcFail string "tlc_step list"
  | TlcError string

text \<open>\<open>parse::<u64>\<close> and \<open>parse::<u32>\<close>: decimal digits, after a plus or not, of a value in range.\<close>

definition parse_unsigned :: "nat \<Rightarrow> string \<Rightarrow> nat option" where
  "parse_unsigned bound s =
     (let digits = (if starts_with s ''+'' then drop 1 s else s)
      in if digits \<noteq> [] \<and> list_all is_num digits \<and> read_digits digits < bound then Some (read_digits digits) else None)"

section \<open>Reading\<close>

text \<open>The last number before the key, in the first line that has both.\<close>

definition number_in_line :: "string \<Rightarrow> string \<Rightarrow> nat option" where
  "number_in_line key line =
     (case find_str key line of
        None \<Rightarrow> None
      | Some p \<Rightarrow>
          (case List.map_filter (\<lambda>w. parse_unsigned (2 ^ 64) (filter (\<lambda>c. c \<noteq> CHR '','') w)) (rev (split_whitespace (take p line))) of
             [] \<Rightarrow> None | n # ns \<Rightarrow> Some n))"

definition extract_number :: "string \<Rightarrow> string \<Rightarrow> u64 option" where
  "extract_number txt key =
     (case List.map_filter (number_in_line key) (lines_of txt) of [] \<Rightarrow> None | n # ns \<Rightarrow> Some (of_nat n))"

definition violated_in_line :: "string \<Rightarrow> string option" where
  "violated_in_line line =
     (let l = trim line
      in if starts_with l ''Error: Invariant '' \<and> contains_str l ''is violated''
         then Some (trim (trim_end_matches '' is violated.'' (trim_start_matches ''Error: Invariant '' l)))
         else if contains_str l ''Temporal properties were violated'' then None
         else if starts_with l ''Error: '' \<and> contains_str l ''violated''
         then Some (trim (replace_all_from 0 '' is violated'' [] (replace_all_from 0 '' is violated.'' [] (trim_start_matches ''Error: '' l))))
         else None)"

definition extract_violated_property :: "string \<Rightarrow> string option" where
  "extract_violated_property txt =
     (case List.map_filter violated_in_line (lines_of txt) of [] \<Rightarrow> None | p # ps \<Rightarrow> Some p)"

text \<open>The fields of a state, between the first brackets of the line, at its commas.\<close>

definition record_part :: "string \<Rightarrow> (string \<times> string) option" where
  "record_part part =
     (let p = trim part
      in map_option (\<lambda>i. (trim (take i p), trim (drop (i + 3) p))) (find_str ''|->'' p))"

definition record_fields :: "string \<Rightarrow> (string \<times> string) list" where
  "record_fields l =
     (if starts_with l (''/'' @ [CHR 0x5C]) \<and> contains_str l ''sm'' then
        (case find_str ''['' l of
           None \<Rightarrow> []
         | Some i \<Rightarrow>
             (let r = drop i l
              in case find_str '']'' r of
                   None \<Rightarrow> []
                 | Some j \<Rightarrow> List.map_filter record_part (split_char (CHR '','') (take (j - 1) (drop 1 r)))))
      else [])"

definition trim_quotes :: "string \<Rightarrow> string" where
  "trim_quotes s = trim_end_matches [CHR 0x22] (trim_start_matches [CHR 0x22] s)"

definition make_step :: "u32 \<Rightarrow> (string \<times> string) list \<Rightarrow> bool \<Rightarrow> tlc_step" where
  "make_step n fs stuttering =
     \<lparr>ts_step_number = n,
      ts_state_tag = map_option (\<lambda>kv. trim_quotes (snd kv)) (List.find (\<lambda>kv. fst kv = ''tag'') fs),
      ts_fields = filter (\<lambda>kv. fst kv \<noteq> ''tag'' \<and> \<not> contains_str (snd kv) ''@@null'') fs,
      ts_is_stuttering = stuttering\<rparr>"

definition finished_step :: "u32 option \<Rightarrow> (string \<times> string) list \<Rightarrow> bool \<Rightarrow> tlc_step list" where
  "finished_step cur fs stuttering = (case cur of Some n \<Rightarrow> [make_step n fs stuttering] | None \<Rightarrow> [])"

definition step_number :: "string \<Rightarrow> u32 option" where
  "step_number l = map_option of_nat (parse_unsigned (2 ^ 32) (takeWhile is_num (drop 6 l)))"

fun counterexample_loop :: "u32 option \<Rightarrow> (string \<times> string) list \<Rightarrow> bool \<Rightarrow> string list \<Rightarrow> tlc_step list" where
  "counterexample_loop cur fs stuttering [] = finished_step cur fs stuttering"
| "counterexample_loop cur fs stuttering (line # ls) =
     (let l = trim line
      in if starts_with l ''State '' \<and> contains_str l '':''
         then finished_step cur fs stuttering @
           counterexample_loop (step_number l) (record_fields l) (contains_str l ''Stuttering'') ls
         else counterexample_loop cur (fs @ record_fields l) stuttering ls)"

definition extract_counterexample :: "string \<Rightarrow> tlc_step list" where
  "extract_counterexample txt = counterexample_loop None [] False (lines_of txt)"

definition parse_tlc_output :: "string \<Rightarrow> tlc_result" where
  "parse_tlc_output out =
     (if contains_str out ''Model checking completed. No error found''
      then TlcPass (extract_number out ''states generated'') (extract_number out ''distinct states found'')
      else case extract_violated_property out of
        Some p \<Rightarrow> TlcFail p (extract_counterexample out)
      | None \<Rightarrow>
          if contains_str out ''Error:'' \<or> contains_str out ''error:''
          then TlcError (join_with nl (filter (\<lambda>l. contains_str l ''Error'' \<or> contains_str l ''error'') (lines_of out)))
          else TlcError (''Unable to parse TLC output:'' @ nl @ out))"

section \<open>Showing\<close>

definition show_step :: "tlc_step \<Rightarrow> string" where
  "show_step s =
     (if ts_is_stuttering s then ''  Step '' @ dec (ts_step_number s) @ '': *** STUTTERING ***'' @ nl
      else let tag = (case ts_state_tag s of Some t \<Rightarrow> t | None \<Rightarrow> ''?'');
               fields_str = join_with '', '' (map (\<lambda>(k, v). k @ '' = '' @ v) (ts_fields s))
           in ''  Step '' @ dec (ts_step_number s) @ '': '' @ tag @ (if fields_str = [] then [] else '' { '' @ fields_str @ '' }'') @ nl)"

fun format_result :: "tlc_result \<Rightarrow> string \<Rightarrow> u32 \<Rightarrow> string" where
  "format_result (TlcPass states distinct_states) sm bound =
     ''PASS: All properties verified for '' @ sm @ '' (bound = '' @ dec bound @ '')'' @ nl @
     (case states of Some n \<Rightarrow> ''  States explored: '' @ dec n @ nl | None \<Rightarrow> []) @
     (case distinct_states of Some n \<Rightarrow> ''  Distinct states: '' @ dec n @ nl | None \<Rightarrow> [])"
| "format_result (TlcFail p steps) sm bound =
     ''FAIL: '' @ p @ '' violated for '' @ sm @ nl @
     (if steps = [] then []
      else nl @ ''Counterexample ('' @ show_nat (length steps) @ '' steps):'' @ nl @ concat (map show_step steps))"
| "format_result (TlcError message) sm bound = ''ERROR: TLC error for '' @ sm @ '':'' @ nl @ ''  '' @ message @ nl"

text \<open>A sequence in a state is cut at its first comma.\<close>

lemma sequence_is_cut:
  "record_fields (''/'' @ [CHR 0x5C] @ '' sm = [tag |-> A, xs |-> <<1, 2>>]'') = [(''tag'', ''A''), (''xs'', ''<<1'')]"
  by code_simp

text \<open>A violated temporal property is reported as an error without the property and the counterexample.\<close>

lemma temporal_violation_is_error:
  "parse_tlc_output (''Error: Temporal properties were violated.'' @ nl @ ''State 1: <Initial predicate>'' @ nl)
     = TlcError ''Error: Temporal properties were violated.''"
  by code_simp

end
