(* ===== verification/Cli.thy ===== *)
theory Cli
  imports Backend Tla Driver StrOps
begin

text \<open>
  The command line, \<open>crates/wirespec-driver/src/cli.rs\<close>: the options of \<open>compile\<close>, \<open>check\<close> and \<open>verify\<close>, and what
  the commands do with them. The operating system is the record \<open>host\<close>; a command gives the files it
  wrote, in order, and how it ended. The compiler of ASN.1 modules (package \<open>rasn-compiler\<close>, called in
  \<open>asn1_compile.rs\<close>) and the built-in model checker (package \<open>tla-checker\<close>) are parameters.
\<close>

section \<open>Ends\<close>

datatype outcome = Finished | HelpShown | Failed string | Crashed

record host =
  hs_files :: file_system
  hs_create_dir :: "path \<Rightarrow> string option"
  hs_write :: "path \<Rightarrow> string \<Rightarrow> string option"
  hs_temp_dir :: path
  hs_tlc_jar :: "string option"

type_synonym written = "(path \<times> string) list"

section \<open>Options\<close>

record compile_options =
  ko_input :: "path option"
  ko_output :: path
  ko_target :: string
  ko_include_paths :: "path list"
  ko_fuzz :: bool
  ko_recursive :: bool

definition compile_defaults :: compile_options where
  "compile_defaults = \<lparr>ko_input = None, ko_output = ''build'', ko_target = ''c'', ko_include_paths = [], ko_fuzz = False,
     ko_recursive = False\<rparr>"

definition is_option :: "string \<Rightarrow> bool" where
  "is_option a \<longleftrightarrow> take 1 a = ''-''"

text \<open>An option with an argument takes the next word, whatever it is.\<close>

fun compile_args :: "compile_options \<Rightarrow> string list \<Rightarrow> outcome + compile_options" where
  "compile_args k [] = Inr k"
| "compile_args k (a # r) =
     (if a \<in> {''-o'', ''--output''} then
        (case r of [] \<Rightarrow> Inl (Failed ''error: -o requires a directory argument'') | v # r' \<Rightarrow> compile_args (k\<lparr>ko_output := v\<rparr>) r')
      else if a \<in> {''-t'', ''--target''} then
        (case r of [] \<Rightarrow> Inl (Failed ''error: -t requires a target argument (c or rust)'')
         | v # r' \<Rightarrow> compile_args (k\<lparr>ko_target := v\<rparr>) r')
      else if a \<in> {''-I'', ''--include-path''} then
        (case r of [] \<Rightarrow> Inl (Failed ''error: -I requires a directory argument'')
         | v # r' \<Rightarrow> compile_args (k\<lparr>ko_include_paths := ko_include_paths k @ [v]\<rparr>) r')
      else if a = ''--fuzz'' then compile_args (k\<lparr>ko_fuzz := True\<rparr>) r
      else if a = ''--recursive'' then compile_args (k\<lparr>ko_recursive := True\<rparr>) r
      else if a \<in> {''--help'', ''-h''} then Inl HelpShown
      else if is_option a then Inl (Failed (''error: unknown option: '' @ a))
      else compile_args (k\<lparr>ko_input := Some a\<rparr>) r)"

fun check_args :: "path option \<Rightarrow> string list \<Rightarrow> outcome + path option" where
  "check_args i [] = Inr i"
| "check_args i (a # r) =
     (if a \<in> {''--help'', ''-h''} then Inl HelpShown
      else if is_option a then Inl (Failed (''error: unknown option: '' @ a))
      else check_args (Some a) r)"

record verify_options =
  vo_input :: "path option"
  vo_output :: "path option"
  vo_run_tlc :: bool
  vo_tlc_path :: path
  vo_bound :: "u32 option"

text \<open>\<open>str::parse::<u32>\<close>: decimal digits, after a plus or not, of a value below \<open>2 ^ 32\<close>.\<close>

definition parse_u32 :: "string \<Rightarrow> u32 option" where
  "parse_u32 s =
     (let digits = (if take 1 s = ''+'' then drop 1 s else s)
      in if digits \<noteq> [] \<and> list_all is_num digits \<and> read_digits digits < 2 ^ 32 then Some (of_nat (read_digits digits)) else None)"

fun verify_args :: "verify_options \<Rightarrow> string list \<Rightarrow> outcome + verify_options" where
  "verify_args k [] = Inr k"
| "verify_args k (a # r) =
     (if a \<in> {''-o'', ''--output''} then
        (case r of [] \<Rightarrow> Inl (Failed ''error: -o requires a directory argument'')
         | v # r' \<Rightarrow> verify_args (k\<lparr>vo_output := Some v\<rparr>) r')
      else if a = ''--run-tlc'' then verify_args (k\<lparr>vo_run_tlc := True\<rparr>) r
      else if a = ''--tlc-path'' then
        (case r of [] \<Rightarrow> Inl (Failed ''error: --tlc-path requires an argument'')
         | v # r' \<Rightarrow> verify_args (k\<lparr>vo_tlc_path := v\<rparr>) r')
      else if a = ''--bound'' then
        (case r of [] \<Rightarrow> Inl (Failed ''error: --bound requires a numeric argument'')
         | v # r' \<Rightarrow>
             (case parse_u32 v of
                None \<Rightarrow> Inl (Failed (''error: invalid value for --bound: '' @ quoted v))
              | Some n \<Rightarrow> verify_args (k\<lparr>vo_bound := Some n\<rparr>) r'))
      else if a \<in> {''--help'', ''-h''} then Inl HelpShown
      else if is_option a then Inl (Failed (''error: unknown option: '' @ a))
      else verify_args (k\<lparr>vo_input := Some a\<rparr>) r)"

section \<open>ASN.1 modules\<close>

record asn1_compile_result =
  ac_source :: string
  ac_module_name :: string
  ac_type_names :: "string list"

text \<open>The name behind the first \<open>pub mod\<close> of the generated code, without an opening brace.\<close>

definition module_name_in_line :: "string \<Rightarrow> string option" where
  "module_name_in_line line =
     Option.bind (strip_prefix ''pub mod '' (trim line)) (\<lambda>rest.
       case split_whitespace rest of [] \<Rightarrow> None | w # ws \<Rightarrow> Some (trim (trim_end_matches ''{'' w)))"

definition extract_module_name :: "string \<Rightarrow> string option" where
  "extract_module_name source =
     (case List.map_filter module_name_in_line (lines_of source) of [] \<Rightarrow> None | n # ns \<Rightarrow> Some n)"

definition validate_types :: "string list \<Rightarrow> string list \<Rightarrow> string \<Rightarrow> string + unit" where
  "validate_types declared available asn1_path =
     (case List.find (\<lambda>n. n \<notin> set available) declared of
        None \<Rightarrow> Inr ()
      | Some n \<Rightarrow> Inl (''type '' @ quoted n @ '' not found in ASN.1 module '' @ quoted asn1_path @ ''. Available types: '' @
          join_with '', '' available))"

definition resolve_asn1_path :: "host \<Rightarrow> string \<Rightarrow> path \<Rightarrow> path list \<Rightarrow> path option" where
  "resolve_asn1_path h asn1_path wspec_dir include_paths =
     List.find (fs_exists (hs_files h)) (map (\<lambda>d. path_join d asn1_path) (wspec_dir # include_paths))"

text \<open>One declaration: with a module of its own, or in the table already, it is passed over; else the module is
  compiled, checked, written and entered. An error ends the program.\<close>

definition asn1_step :: "(path \<Rightarrow> string + asn1_compile_result) \<Rightarrow> host \<Rightarrow> path list \<Rightarrow> path \<Rightarrow> path \<Rightarrow> ast_extern_asn1
    \<Rightarrow> written \<times> asn1_module_map \<Rightarrow> (written \<times> outcome) + written \<times> asn1_module_map" where
  "asn1_step compile_asn1 h include_paths output_dir wspec_dir e st =
     (case st of (w, m) \<Rightarrow>
       if ex_rust_module e \<noteq> None \<or> m (ex_path e) \<noteq> None then Inr (w, m)
       else case resolve_asn1_path h (ex_path e) wspec_dir include_paths of
         None \<Rightarrow> Inl (w, Failed (''error: ASN.1 file '' @ quoted (ex_path e) @ '' not found''))
       | Some p \<Rightarrow>
           rbind (rmap_err (\<lambda>msg. (w, Failed (''error: '' @ msg))) (compile_asn1 p)) (\<lambda>r.
           rbind (rmap_err (\<lambda>msg. (w, Failed (''error: '' @ msg))) (validate_types (ex_type_names e) (ac_type_names r) (ex_path e))) (\<lambda>_.
           case hs_create_dir h output_dir of
             Some msg \<Rightarrow> Inl (w, Failed (''error: cannot create output directory: '' @ msg))
           | None \<Rightarrow>
               let out = path_join output_dir (ac_module_name r @ ''.rs'')
               in case hs_write h out (ac_source r) of
                    Some msg \<Rightarrow> Inl (w, Failed (''error: cannot write '' @ out @ '': '' @ msg))
                  | None \<Rightarrow> Inr (w @ [(out, ac_source r)],
                      m(ex_path e \<mapsto> \<lparr>am_module_name = ac_module_name r, am_source = ac_source r\<rparr>)))))"

fun asn1_steps :: "(path \<Rightarrow> string + asn1_compile_result) \<Rightarrow> host \<Rightarrow> path list \<Rightarrow> path \<Rightarrow> (path \<times> ast_extern_asn1) list
    \<Rightarrow> written \<times> asn1_module_map \<Rightarrow> (written \<times> outcome) + written \<times> asn1_module_map" where
  "asn1_steps c h incs out [] st = Inr st"
| "asn1_steps c h incs out ((dir, e) # es) st = rbind (asn1_step c h incs out dir e st) (asn1_steps c h incs out es)"

definition extern_decls :: "resolved_module list \<Rightarrow> (path \<times> ast_extern_asn1) list" where
  "extern_decls ms =
     concat (map (\<lambda>m. List.map_filter (\<lambda>it. case it of
         IExternAsn1 e \<Rightarrow> Some (case path_parent (rm_path m) of Some d \<Rightarrow> d | None \<Rightarrow> ''.'', e) | _ \<Rightarrow> None)
       (mo_items (rm_ast m))) ms)"

definition preprocess_asn1 :: "nat \<Rightarrow> (path \<Rightarrow> string + asn1_compile_result) \<Rightarrow> host \<Rightarrow> path \<Rightarrow> path list \<Rightarrow> path
    \<Rightarrow> (written \<times> outcome) + written \<times> asn1_module_map" where
  "preprocess_asn1 fuel compile_asn1 h input include_paths output_dir =
     (case resolve fuel (hs_files h) input include_paths of
        Inl (RErr e) \<Rightarrow> Inr ([], Map.empty)
      | Inl _ \<Rightarrow> Inl ([], Crashed)
      | Inr ms \<Rightarrow> asn1_steps compile_asn1 h include_paths output_dir (extern_decls ms) ([], Map.empty))"

section \<open>Compile\<close>

definition checksum_bindings_for :: "target_id \<Rightarrow> string \<Rightarrow> backend_error + checksum_backend_binding" where
  "checksum_bindings_for target =
     (if target = ''c'' then c_binding_for else if target = ''rust'' then rust_binding_for else no_binding_for)"

definition emit_context :: "compiled_module \<Rightarrow> 'k backend_factory \<Rightarrow> bool \<Rightarrow> bool \<Rightarrow> backend_context" where
  "emit_context m f is_entry fuzz =
     \<lparr>bc_module_name = cd_module_name m, bc_module_prefix = cd_source_prefix m, bc_source_prefixes = [],
      bc_compliance_profile = ''phase2_extended_current'', bc_emit_comments = True,
      bc_target_options = (if bf_id f = ''c'' \<and> fuzz then CBackendOptions True else bf_default_options f),
      bc_checksum_bindings = checksum_bindings_for (bf_id f), bc_is_entry_module = is_entry\<rparr>"

fun write_files :: "host \<Rightarrow> path \<Rightarrow> memory_sink \<Rightarrow> written \<times> outcome" where
  "write_files h out [] = ([], Finished)"
| "write_files h out ((meta, contents) # r) =
     (let file = path_join out (am_relative_path meta)
      in case hs_write h file contents of
           Some e \<Rightarrow> ([], Failed (''error: cannot write '' @ file @ '': '' @ e))
         | None \<Rightarrow> (case write_files h out r of (w, fin) \<Rightarrow> ((file, contents) # w, fin)))"

definition emit_module :: "host \<Rightarrow> memory_sink backend_factory \<Rightarrow> path \<Rightarrow> bool \<Rightarrow> bool \<Rightarrow> compiled_module \<Rightarrow> written \<times> outcome" where
  "emit_module h f out is_entry fuzz m =
     (case bf_create f (cd_codec m) (emit_context m f is_entry fuzz) [] of
        None \<Rightarrow> ([], Crashed)
      | Some (Inl e) \<Rightarrow> ([], Failed (''error: backend error for module '' @ quoted (cd_module_name m) @ '': '' @ display_backend_error e))
      | Some (Inr (output, artifacts)) \<Rightarrow> write_files h out artifacts)"

text \<open>One step after the other, until one does not finish.\<close>

fun in_turn :: "(written \<times> outcome) list \<Rightarrow> written \<times> outcome" where
  "in_turn [] = ([], Finished)"
| "in_turn ((w, fin) # r) = (if fin = Finished then (case in_turn r of (w', fin') \<Rightarrow> (w @ w', fin')) else (w, fin))"

definition selected :: "bool \<Rightarrow> compiled_module list \<Rightarrow> (bool \<times> compiled_module) list" where
  "selected recursive ms =
     filter (\<lambda>(is_entry, m). is_entry \<or> recursive)
       (map (\<lambda>m. (cd_module_name m = cd_module_name (last ms), m)) ms)"

definition emit_all :: "host \<Rightarrow> memory_sink backend_factory \<Rightarrow> compile_options \<Rightarrow> compiled_module list \<Rightarrow> written \<times> outcome" where
  "emit_all h f k ms =
     (case hs_create_dir h (ko_output k) of
        Some e \<Rightarrow> ([], Failed (''error: cannot create output directory '' @ ko_output k @ '': '' @ e))
      | None \<Rightarrow> in_turn (map (\<lambda>(is_entry, m). emit_module h f (ko_output k) is_entry (ko_fuzz k) m) (selected (ko_recursive k) ms)))"

text \<open>\<open>show_error\<close> is the text of a driver error and \<open>fuel\<close> a bound on the depth of imports. \<open>asn1\<close> prepares the ASN.1
  modules: it is \<open>preprocess_asn1\<close>, or \<open>without_asn1\<close> without the feature \<open>asn1\<close>.\<close>

type_synonym asn1_stage = "path \<Rightarrow> path list \<Rightarrow> path \<Rightarrow> (written \<times> outcome) + written \<times> asn1_module_map"

definition without_asn1 :: asn1_stage where
  "without_asn1 input include_paths output_dir = Inr ([], Map.empty)"

definition cmd_compile :: "nat \<Rightarrow> (driver_error \<Rightarrow> string) \<Rightarrow> asn1_stage
    \<Rightarrow> hash_order \<Rightarrow> hash_order \<Rightarrow> hash_order \<Rightarrow> host \<Rightarrow> string list \<Rightarrow> written \<times> outcome" where
  "cmd_compile fuel show_error asn1 ho ho' ho'' h args =
     (case compile_args compile_defaults args of
        Inl fin \<Rightarrow> ([], fin)
      | Inr k \<Rightarrow>
          if ko_fuzz k \<and> ko_target k \<noteq> ''c'' then ([], Failed ''error: --fuzz is only supported with --target c'')
          else case ko_input k of
            None \<Rightarrow> ([], Failed ''error: no input file specified'')
          | Some input \<Rightarrow>
              (case get_factory (build_registry ho' ho'' memory_write) (ko_target k) of
                 Inl e \<Rightarrow> ([], Failed (''error: unknown target: '' @ ko_target k))
               | Inr f \<Rightarrow>
                   (case asn1 input (ko_include_paths k) (ko_output k) of
                      Inl r \<Rightarrow> r
                    | Inr (w, modules) \<Rightarrow>
                        (case compile fuel (hs_files h) ho \<lparr>cq_entry = input, cq_include_paths = ko_include_paths k,
                            cq_profile = Phase2ExtendedCurrent, cq_asn1_modules = modules\<rparr> of
                           Inl (DrErr e) \<Rightarrow> (w, Failed (''error: '' @ show_error e))
                         | Inl _ \<Rightarrow> (w, Crashed)
                         | Inr ms \<Rightarrow> (case emit_all h f k ms of (w', fin) \<Rightarrow> (w @ w', fin))))))"

section \<open>Check\<close>

text \<open>One module by itself, without the types of the modules it imports.\<close>

definition cmd_check :: "(pipeline_error \<Rightarrow> string) \<Rightarrow> hash_order \<Rightarrow> host \<Rightarrow> string list \<Rightarrow> outcome" where
  "cmd_check show_error ho h args =
     (case check_args None args of
        Inl fin \<Rightarrow> fin
      | Inr None \<Rightarrow> Failed ''error: no input file specified''
      | Inr (Some input) \<Rightarrow>
          (case fs_read (hs_files h) input of
             Inl e \<Rightarrow> Failed (''error: cannot read '' @ input @ '': '' @ e)
           | Inr source \<Rightarrow>
               (case compile_module ho source Phase2ExtendedCurrent [] Map.empty of
                  Inr m \<Rightarrow> Finished
                | Inl (PipeErr e) \<Rightarrow> Failed (show_error e)
                | Inl PipePanic \<Rightarrow> Crashed)))"

section \<open>Verify\<close>

definition default_bound :: "verify_options \<Rightarrow> semantic_state_machine \<Rightarrow> u32" where
  "default_bound k sm =
     (case vo_bound k of Some n \<Rightarrow> n | None \<Rightarrow> (case ssm_verify_bound sm of Some n \<Rightarrow> n | None \<Rightarrow> 3))"

definition write_file :: "host \<Rightarrow> path \<Rightarrow> string \<Rightarrow> written \<times> outcome" where
  "write_file h file contents =
     (case hs_write h file contents of
        Some e \<Rightarrow> ([], Failed (''error: cannot write '' @ file @ '': '' @ e)) | None \<Rightarrow> ([(file, contents)], Finished))"

text \<open>The built-in checker decides on specification and configuration, and ends the program when it does not pass; the
  external one only reports.\<close>

definition verify_machine :: "(tlaplus_output \<Rightarrow> string \<Rightarrow> u32 \<Rightarrow> outcome) \<Rightarrow> host \<Rightarrow> verify_options \<Rightarrow> path
    \<Rightarrow> semantic_state_machine list \<Rightarrow> semantic_state_machine \<Rightarrow> written \<times> outcome" where
  "verify_machine builtin_check h k out sms sm =
     (case generate_tlaplus sm sms (vo_bound k) of
        None \<Rightarrow> ([], Crashed)
      | Some (Inl e) \<Rightarrow> ([], Failed (''error: '' @ e))
      | Some (Inr tla) \<Rightarrow>
          in_turn
            [write_file h (path_join out (ssm_name sm @ ''.tla'')) (tla_spec tla),
             write_file h (path_join out (ssm_name sm @ ''.cfg'')) (tla_config tla),
             ([], if vo_run_tlc k then Finished else builtin_check tla (ssm_name sm) (default_bound k sm))])"

definition verify_source :: "(tlaplus_output \<Rightarrow> string \<Rightarrow> u32 \<Rightarrow> outcome) \<Rightarrow> (parse_msg \<Rightarrow> string) \<Rightarrow> hash_order \<Rightarrow> host
    \<Rightarrow> verify_options \<Rightarrow> path \<Rightarrow> string \<Rightarrow> written \<times> outcome" where
  "verify_source builtin_check show_msg ho h k input source =
     (case parse source of
        Inl (PErr e) \<Rightarrow> ([], Failed (''error: parse error: '' @ show_msg (pe_msg e)))
      | Inl _ \<Rightarrow> ([], Crashed)
      | Inr ast \<Rightarrow>
          (case analyze ho ast Phase2ExtendedCurrent [] of
             None \<Rightarrow> ([], Crashed)
           | Some (Inl e) \<Rightarrow> ([], Failed (''error: '' @ er_msg e))
           | Some (Inr sem) \<Rightarrow>
               if sem_state_machines sem = [] then ([], Failed (''error: no state machines found in '' @ input))
               else let out = (case vo_output k of Some d \<Rightarrow> d | None \<Rightarrow> path_join (hs_temp_dir h) ''wirespec-verify'')
                    in case hs_create_dir h out of
                         Some e \<Rightarrow> ([], Failed (''error: cannot create output directory: '' @ e))
                       | None \<Rightarrow> in_turn (map (verify_machine builtin_check h k out (sem_state_machines sem)) (sem_state_machines sem))))"

definition cmd_verify :: "(tlaplus_output \<Rightarrow> string \<Rightarrow> u32 \<Rightarrow> outcome) \<Rightarrow> (parse_msg \<Rightarrow> string) \<Rightarrow> hash_order \<Rightarrow> host
    \<Rightarrow> string list \<Rightarrow> written \<times> outcome" where
  "cmd_verify builtin_check show_msg ho h args =
     (case verify_args \<lparr>vo_input = None, vo_output = None, vo_run_tlc = False,
         vo_tlc_path = (case hs_tlc_jar h of Some p \<Rightarrow> p | None \<Rightarrow> ''tla2tools.jar''), vo_bound = None\<rparr> args of
        Inl fin \<Rightarrow> ([], fin)
      | Inr k \<Rightarrow>
          (case vo_input k of
             None \<Rightarrow> ([], Failed ''error: no input file specified'')
           | Some input \<Rightarrow>
               (case fs_read (hs_files h) input of
                  Inl e \<Rightarrow> ([], Failed (''error: cannot read '' @ input @ '': '' @ e))
                | Inr source \<Rightarrow> verify_source builtin_check show_msg ho h k input source)))"

section \<open>The program\<close>

datatype command = CmdNone | CmdCompile "string list" | CmdCheck "string list" | CmdVerify "string list" | CmdHelp | CmdVersion
  | CmdUnknown string

text \<open>The words behind the name of the program.\<close>

definition dispatch :: "string list \<Rightarrow> command" where
  "dispatch args =
     (case args of
        [] \<Rightarrow> CmdNone
      | a # r \<Rightarrow>
          if a = ''compile'' then CmdCompile r
          else if a = ''check'' then CmdCheck r
          else if a = ''verify'' then CmdVerify r
          else if a \<in> {''--help'', ''-h''} then CmdHelp
          else if a \<in> {''--version'', ''-V''} then CmdVersion
          else CmdUnknown a)"

section \<open>What compile writes\<close>

definition module_files :: "memory_sink backend_factory \<Rightarrow> compile_options \<Rightarrow> bool \<times> compiled_module \<Rightarrow> written" where
  "module_files f k p =
     (case bf_create f (cd_codec (snd p)) (emit_context (snd p) f (fst p) (ko_fuzz k)) [] of
        Some (Inr (output, artifacts)) \<Rightarrow> map (\<lambda>(meta, c). (path_join (ko_output k) (am_relative_path meta), c)) artifacts
      | _ \<Rightarrow> [])"

lemma write_files_prefix:
  "write_files h out as = (w, e) \<Longrightarrow> \<exists>rest. map (\<lambda>(meta, c). (path_join out (am_relative_path meta), c)) as = w @ rest
     \<and> (e = Finished \<longrightarrow> rest = [])"
  by (induction h out as arbitrary: w rule: write_files.induct) (fastforce simp: Let_def split: option.splits prod.splits)+

lemma emit_module_prefix:
  assumes "emit_module h f (ko_output k) b (ko_fuzz k) m = (w, e)"
  shows "\<exists>rest. module_files f k (b, m) = w @ rest \<and> (e = Finished \<longrightarrow> rest = [])"
  using assms write_files_prefix [of h "ko_output k"]
  by (auto simp: emit_module_def module_files_def split: option.splits sum.splits prod.splits)

lemma in_turn_prefix:
  assumes "\<And>p w e. p \<in> set ps \<Longrightarrow> act p = (w, e) \<Longrightarrow> \<exists>rest. wr p = w @ rest \<and> (e = Finished \<longrightarrow> rest = [])"
  shows "in_turn (map act ps) = (w, e) \<Longrightarrow> \<exists>rest. concat (map wr ps) = w @ rest \<and> (e = Finished \<longrightarrow> rest = [])"
  using assms
proof (induction ps arbitrary: w e)
  case (Cons p ps)
  obtain w1 e1 where r: "act p = (w1, e1)" by (cases "act p")
  obtain r1 where f: "wr p = w1 @ r1" "e1 = Finished \<longrightarrow> r1 = []" using Cons.prems(2) [OF _ r] by auto
  obtain w2 e2 where t: "in_turn (map act ps) = (w2, e2)" by (cases "in_turn (map act ps)")
  show ?case
  proof (cases "e1 = Finished")
    case True
    then have "w = w1 @ w2" "e = e2" using Cons.prems(1) r t by auto
    moreover obtain r2 where "concat (map wr ps) = w2 @ r2" "e2 = Finished \<longrightarrow> r2 = []"
      using Cons.IH [OF t] Cons.prems(2) by (meson list.set_intros(2))
    ultimately show ?thesis using f True by auto
  next
    case False
    then show ?thesis using Cons.prems(1) r f by auto
  qed
qed simp

lemma emit_all_prefix:
  assumes "emit_all h f k ms = (w, e)"
  shows "\<exists>rest. concat (map (module_files f k) (selected (ko_recursive k) ms)) = w @ rest \<and> (e = Finished \<longrightarrow> rest = [])"
proof (cases "hs_create_dir h (ko_output k)")
  case None
  have "in_turn (map (\<lambda>(b, m). emit_module h f (ko_output k) b (ko_fuzz k) m) (selected (ko_recursive k) ms)) = (w, e)"
    using assms None by (simp add: emit_all_def)
  then show ?thesis by (rule in_turn_prefix [rotated]) (auto intro: emit_module_prefix)
qed (use assms in \<open>auto simp: emit_all_def\<close>)


definition const_host :: host where
  "const_host =
     \<lparr>hs_files = \<lparr>fs_canonicalize = Inr, fs_read = (\<lambda>p. Inr ''const X: u8 = 1''), fs_exists = (\<lambda>p. True)\<rparr>,
      hs_create_dir = (\<lambda>p. None), hs_write = (\<lambda>p c. None), hs_temp_dir = ''/tmp'', hs_tlc_jar = None\<rparr>"

lemma const_compiles:
  "map fst (fst (cmd_compile 2 (\<lambda>e. []) without_asn1 insertion_order insertion_order insertion_order const_host
      [''-o'', ''out'', ''m.wspec''])) = [''out/m.h'', ''out/m.c'']"
  by code_simp


text \<open>\<open>check\<close> knows nothing of imported types: a program that \<open>compile\<close> accepts is refused.\<close>

definition typed_host :: host where
  "typed_host = const_host\<lparr>hs_files := typed_files\<rparr>"

lemma check_ignores_imports:
  "(case cmd_check (\<lambda>e. ''refused'') insertion_order typed_host [''/m.wspec''] of Failed msg \<Rightarrow> msg = ''refused'' | _ \<Rightarrow> False)
    \<and> (case compile 3 typed_files insertion_order typed_request of Inr ms \<Rightarrow> True | Inl e \<Rightarrow> False)"
  by code_simp

text \<open>The name of a module is the stem of its file: modules of one name in two directories get the same output files.\<close>

definition twin_host :: host where
  "twin_host = const_host\<lparr>hs_files :=
     \<lparr>fs_canonicalize = Inr,
      fs_read = (\<lambda>p. if p = ''/m.wspec'' then Inr ''import a.util.X import b.util.Y const Z: u8 = 1''
                     else if p = ''/a/util.wspec'' then Inr ''const X: u8 = 1''
                     else if p = ''/b/util.wspec'' then Inr ''const Y: u8 = 2'' else Inl ''not found''),
      fs_exists = (\<lambda>p. p \<in> {''/m.wspec'', ''/a/util.wspec'', ''/b/util.wspec''})\<rparr>\<rparr>"

lemma twin_modules_overwrite:
  "map fst (fst (cmd_compile 3 (\<lambda>e. []) without_asn1 insertion_order insertion_order insertion_order twin_host
      [''--recursive'', ''-t'', ''rust'', ''/m.wspec''])) = [''build/util.rs'', ''build/util.rs'', ''build/m.rs'']"
  by code_simp

end
