(* ===== verification/Spec2Isabelle.thy ===== *)
theory Spec2Isabelle
  imports Runtime Checksums Layout Codec Scopes StateMachine Delegation Analyzer ParserSafe ParserRound Driver RustMachine RustFacts Backend COrder TlaFacts LspServer TlcResult Cli
begin

text \<open>
  Verification development for the wirespec compiler, a Rust workspace under \<open>src/crates\<close> that turns
  descriptions of wire formats and protocol state machines into C, Rust and TLA+.

  Parts and theories. \<open>Ast\<close> is the syntax tree of \<open>wirespec-syntax\<close> (\<open>ast.rs\<close>, \<open>span.rs\<close>).
  \<open>SemaTypes\<close>, \<open>Registry\<close>, \<open>TypeRes\<close>, \<open>Register\<close>, \<open>Scopes\<close>, \<open>StateMachine\<close>, \<open>Delegation\<close> and
  \<open>Analyzer\<close> are the semantic analysis of \<open>wirespec-sema\<close>. \<open>Layout\<close> and \<open>Codec\<close> are the two lowering
  stages behind it. \<open>Runtime\<close> and \<open>Checksums\<close> are the library \<open>wirespec-rt\<close> that generated code calls.
\<close>

end
